(* ===== verification/LedgerPrelude.thy ===== *)
theory LedgerPrelude
  imports Complex_Main "HOL-Library.Multiset" "HOL-Library.Sublist"
begin

text \<open>
  Shared vocabulary of the development: the fact collections, the stable sort that models
  \<open>Array.prototype.sort\<close> with a comparator, the insertion-ordered map that models the
  JavaScript \<open>Map\<close>, and the interfaces (locales) several components share:
  comparators, keyed stores, and state machines with an invariant.
\<close>

named_theorems js_simps "equations of the JavaScript runtime model used for evaluation"
named_theorems inv_intros "introduction rules for the invariants of the components"

section \<open>Stable sorting with a comparator\<close>

text \<open>
  A comparator returns a negative, zero or positive number. \<open>js_sort\<close> is the stable sort
  the language requires: an element is inserted before the first element that it does not
  have to follow. The order of equal elements is the order of the input.
\<close>

fun insert_cmp :: "('a \<Rightarrow> 'a \<Rightarrow> int) \<Rightarrow> 'a \<Rightarrow> 'a list \<Rightarrow> 'a list" where
  "insert_cmp cmp x [] = [x]"
| "insert_cmp cmp x (y # ys) =
     (if cmp x y \<le> 0 then x # y # ys else y # insert_cmp cmp x ys)"

fun js_sort :: "('a \<Rightarrow> 'a \<Rightarrow> int) \<Rightarrow> 'a list \<Rightarrow> 'a list" where
  "js_sort cmp [] = []"
| "js_sort cmp (x # xs) = insert_cmp cmp x (js_sort cmp xs)"

lemma mset_insert_cmp [simp]: "mset (insert_cmp cmp x xs) = add_mset x (mset xs)"
  by (induction xs) auto

lemma mset_js_sort [simp]: "mset (js_sort cmp xs) = mset xs"
  by (induction xs) auto

lemma set_insert_cmp [simp]: "set (insert_cmp cmp x xs) = insert x (set xs)"
  by (induction xs) auto

lemma set_js_sort [simp]: "set (js_sort cmp xs) = set xs"
  by (induction xs) auto

lemma length_js_sort [simp]: "length (js_sort cmp xs) = length xs"
  by (metis mset_js_sort size_mset)

lemma distinct_map_js_sort [simp]: "distinct (map f (js_sort cmp xs)) = distinct (map f xs)"
  by (metis mset_js_sort mset_map mset_eq_imp_distinct_iff)

lemma sum_list_map_js_sort [simp]:
  fixes f :: "'a \<Rightarrow> 'b::comm_monoid_add"
  shows "sum_list (map f (js_sort cmp xs)) = sum_list (map f xs)"
  by (metis mset_js_sort mset_map sum_mset_sum_list)

text \<open>
  The interface of a comparator: it is consistent with an order, which is what the
  language asks of the function passed to \<open>sort\<close> before it promises a sorted result.
\<close>

locale comparator =
  fixes cmp :: "'a \<Rightarrow> 'a \<Rightarrow> int"
  assumes cmp_total: "cmp x y \<le> 0 \<or> cmp y x \<le> 0"
    and cmp_trans: "cmp x y \<le> 0 \<Longrightarrow> cmp y z \<le> 0 \<Longrightarrow> cmp x z \<le> 0"
begin

lemma cmp_refl: "cmp x x \<le> 0"
  using cmp_total [of x x] by simp

lemma sorted_insert_cmp:
  "sorted_wrt (\<lambda>x y. cmp x y \<le> 0) xs \<Longrightarrow> sorted_wrt (\<lambda>x y. cmp x y \<le> 0) (insert_cmp cmp x xs)"
proof (induction xs)
  case Nil
  then show ?case by simp
next
  case (Cons y ys)
  show ?case
  proof (cases "cmp x y \<le> 0")
    case True
    with Cons.prems show ?thesis by (auto intro: cmp_trans)
  next
    case False
    then have "cmp y x \<le> 0" using cmp_total by blast
    with False Cons show ?thesis by auto
  qed
qed

lemma sorted_js_sort: "sorted_wrt (\<lambda>x y. cmp x y \<le> 0) (js_sort cmp xs)"
  by (induction xs) (auto intro: sorted_insert_cmp)

lemma insert_cmp_hit:
  "P x \<Longrightarrow> (\<And>a b. P a \<Longrightarrow> P b \<Longrightarrow> cmp a b \<le> 0) \<Longrightarrow>
   sorted_wrt (\<lambda>x y. cmp x y \<le> 0) xs \<Longrightarrow> filter P (insert_cmp cmp x xs) = x # filter P xs"
proof (induction xs)
  case Nil
  then show ?case by simp
next
  case (Cons y ys)
  then show ?case by (auto simp: Cons.prems)
qed

lemma insert_cmp_miss: "\<not> P x \<Longrightarrow> filter P (insert_cmp cmp x xs) = filter P xs"
  by (induction xs) auto

text \<open>Stability: elements that the comparator puts level keep their relative order.\<close>

lemma js_sort_stable:
  assumes "\<And>a b. P a \<Longrightarrow> P b \<Longrightarrow> cmp a b \<le> 0"
  shows "filter P (js_sort cmp xs) = filter P xs"
proof (induction xs)
  case Nil
  then show ?case by simp
next
  case (Cons x xs)
  then show ?case
    using assms sorted_js_sort insert_cmp_hit [of P x "js_sort cmp xs"]
    by (cases "P x") (simp_all add: insert_cmp_miss)
qed

end

text \<open>Two comparators tried one after the other, as \<open>a(l, r) || b(l, r)\<close> does.\<close>

definition cmp_then :: "('a \<Rightarrow> 'a \<Rightarrow> int) \<Rightarrow> ('a \<Rightarrow> 'a \<Rightarrow> int) \<Rightarrow> 'a \<Rightarrow> 'a \<Rightarrow> int" where
  "cmp_then c1 c2 x y = (let r = c1 x y in if r \<noteq> 0 then r else c2 x y)"

definition cmp_on :: "('b \<Rightarrow> 'b \<Rightarrow> int) \<Rightarrow> ('a \<Rightarrow> 'b) \<Rightarrow> 'a \<Rightarrow> 'a \<Rightarrow> int" where
  "cmp_on c f x y = c (f x) (f y)"

lemma comparator_cmp_on: "comparator c \<Longrightarrow> comparator (cmp_on c f)"
  unfolding comparator_def cmp_on_def by blast

text \<open>A numeric key first, then another comparator.\<close>

lemma comparator_then_key:
  fixes f :: "'a \<Rightarrow> int"
  assumes "comparator c"
  shows "comparator (cmp_then (\<lambda>l r. f l - f r) c)"
  using assms unfolding comparator_def cmp_then_def Let_def
  by (smt (verit, best))

lemma comparator_key: "comparator (\<lambda>l r. f l - (f r :: int))"
  by unfold_locales auto

section \<open>Insertion-ordered maps\<close>

text \<open>
  A JavaScript \<open>Map\<close> iterates in insertion order and keeps the position of a key that is
  set again. It is an association list with distinct keys.
\<close>

type_synonym ('k, 'v) omap = "('k \<times> 'v) list"

fun om_get :: "('k, 'v) omap \<Rightarrow> 'k \<Rightarrow> 'v option" where
  "om_get [] k = None"
| "om_get ((k', v) # m) k = (if k' = k then Some v else om_get m k)"

fun om_set :: "('k, 'v) omap \<Rightarrow> 'k \<Rightarrow> 'v \<Rightarrow> ('k, 'v) omap" where
  "om_set [] k v = [(k, v)]"
| "om_set ((k', v') # m) k v = (if k' = k then (k, v) # m else (k', v') # om_set m k v)"

definition om_delete :: "('k, 'v) omap \<Rightarrow> 'k \<Rightarrow> ('k, 'v) omap" where
  "om_delete m k = filter (\<lambda>(k', _). k' \<noteq> k) m"

definition om_keys :: "('k, 'v) omap \<Rightarrow> 'k list" where
  "om_keys m = map fst m"

definition om_values :: "('k, 'v) omap \<Rightarrow> 'v list" where
  "om_values m = map snd m"

definition om_ok :: "('k, 'v) omap \<Rightarrow> bool" where
  "om_ok m = distinct (map fst m)"

lemma om_get_map_of: "om_get m k = map_of m k"
  by (induction m) auto

lemma om_get_delete: "om_get (om_delete m k) j = (if j = k then None else om_get m j)"
  by (induction m) (auto simp: om_delete_def)

lemma om_get_set: "om_get (om_set m k v) j = (if j = k then Some v else om_get m j)"
  by (induction m) auto

lemma fst_set_om_set: "fst ` set (om_set m k v) = insert k (fst ` set m)"
proof (induction m)
  case Nil
  then show ?case by simp
next
  case (Cons p m)
  obtain a b where p: "p = (a, b)" by (cases p)
  show ?case
  proof (cases "a = k")
    case True
    with p show ?thesis by simp
  next
    case False
    with p Cons.IH show ?thesis by (simp add: insert_commute)
  qed
qed

lemma om_ok_Nil [simp]: "om_ok []"
  by (simp add: om_ok_def)

lemma om_ok_set [simp]: "om_ok m \<Longrightarrow> om_ok (om_set m k v)"
  by (induction m) (auto simp: om_ok_def fst_set_om_set)

lemma om_ok_delete [simp]: "om_ok m \<Longrightarrow> om_ok (om_delete m k)"
  by (induction m) (auto simp: om_ok_def om_delete_def)

text \<open>
  The interface of a keyed store: what the clients of a \<open>Map\<close>, of \<open>localStorage\<close> or of the
  native preference store rely on.
\<close>

locale keyed_store =
  fixes get :: "'m \<Rightarrow> 'k \<Rightarrow> 'v option"
    and put :: "'m \<Rightarrow> 'k \<Rightarrow> 'v \<Rightarrow> 'm"
    and del :: "'m \<Rightarrow> 'k \<Rightarrow> 'm"
  assumes get_put: "get (put m k v) j = (if j = k then Some v else get m j)"
    and get_del: "get (del m k) j = (if j = k then None else get m j)"
begin

lemma get_put_same: "get (put m k v) k = Some v"
  by (simp add: get_put)

lemma get_put_other: "j \<noteq> k \<Longrightarrow> get (put m k v) j = get m j"
  by (simp add: get_put)

lemma get_del_same: "get (del m k) k = None"
  by (simp add: get_del)

lemma put_all_get:
  "get (foldl (\<lambda>m (k, v). put m k v) m kvs) j =
   (case map_of (rev kvs) j of Some v \<Rightarrow> Some v | None \<Rightarrow> get m j)"
  by (induction kvs arbitrary: m)
     (auto simp: get_put map_add_def split: option.splits prod.splits)

lemma del_all_get:
  "get (foldl del m ks) j = (if j \<in> set ks then None else get m j)"
  by (induction ks arbitrary: m) (auto simp: get_del)

end

interpretation js_map: keyed_store om_get om_set om_delete
  by unfold_locales (simp_all add: om_get_set om_get_delete)

section \<open>State machines with an invariant\<close>

text \<open>
  A component with a state and a set of events: \<open>run\<close> is the machine driven by a list of
  events, and an invariant kept by every step holds after every run.
\<close>

locale machine =
  fixes step :: "'s \<Rightarrow> 'e \<Rightarrow> 's"
    and inv :: "'s \<Rightarrow> bool"
  assumes inv_step: "inv s \<Longrightarrow> inv (step s e)"
begin

lemma inv_run: "inv s \<Longrightarrow> inv (foldl step s es)"
  by (induction es arbitrary: s) (auto intro: inv_step)

lemma run_append: "foldl step s (es @ fs) = foldl step (foldl step s es) fs"
  by simp

end

text \<open>
  A concrete machine refines an abstract one when the abstraction of its state follows the abstract
  steps; events outside \<open>ok\<close> do not happen.
\<close>

locale simulation =
  fixes cstep :: "'c \<Rightarrow> 'e \<Rightarrow> 'c"
    and astep :: "'a \<Rightarrow> 'e \<Rightarrow> 'a"
    and absf :: "'c \<Rightarrow> 'a"
    and ok :: "'e \<Rightarrow> bool"
  assumes commute: "ok e \<Longrightarrow> absf (cstep s e) = astep (absf s) e"
begin

lemma abs_run: "list_all ok es \<Longrightarrow> absf (foldl cstep s es) = foldl astep (absf s) es"
  by (induction es arbitrary: s) (simp_all add: commute)

end

section \<open>Results\<close>

text \<open>\<open>xs.map(f)\<close> for a callback that can throw: the first exception ends the map.\<close>

fun map_result :: "('a \<Rightarrow> 'e + 'b) \<Rightarrow> 'a list \<Rightarrow> 'e + 'b list" where
  "map_result f [] = Inr []"
| "map_result f (x # xs) = (case f x of Inl e \<Rightarrow> Inl e
     | Inr y \<Rightarrow> (case map_result f xs of Inl e \<Rightarrow> Inl e | Inr ys \<Rightarrow> Inr (y # ys)))"

definition bind_result :: "'e + 'a \<Rightarrow> ('a \<Rightarrow> 'e + 'b) \<Rightarrow> 'e + 'b" where
  "bind_result r f = (case r of Inl e \<Rightarrow> Inl e | Inr x \<Rightarrow> f x)"

lemma map_result_Inr: "map_result f xs = Inr ys \<Longrightarrow> list_all2 (\<lambda>x y. f x = Inr y) xs ys"
  by (induction xs arbitrary: ys) (auto split: sum.splits)

lemma map_result_total: "(\<forall>x \<in> set xs. f x = Inr (g x)) \<Longrightarrow> map_result f xs = Inr (map g xs)"
  by (induction xs) auto

lemma map_result_Inl: "map_result f xs = Inl e \<Longrightarrow> \<exists>x \<in> set xs. f x = Inl e"
  by (induction xs) (auto split: sum.splits)

lemma bind_result_simps [simp]: "bind_result (Inl e) f = Inl e" "bind_result (Inr x) f = f x"
  by (simp_all add: bind_result_def)

section \<open>Lists\<close>

lemma sum_list_filter_split:
  fixes f :: "'a \<Rightarrow> 'b::comm_monoid_add"
  shows "sum_list (map f xs) = sum_list (map f (filter P xs)) + sum_list (map f (filter (\<lambda>x. \<not> P x) xs))"
  by (induction xs) (auto simp: ac_simps)

lemma set_take_mono: "x \<in> set (take n xs) \<Longrightarrow> x \<in> set xs"
  by (rule in_set_takeD)

lemma distinct_take_filter: "distinct xs \<Longrightarrow> distinct (take n (filter P xs))"
  by simp

end
