(* ===== verification/JsStrings.thy ===== *)
theory JsStrings
  imports LedgerPrelude
begin

text \<open>
  The strings of the program and the library functions it calls on them. A JavaScript string
  is a sequence of UTF-16 code units; here it is a \<open>string\<close>, whose characters are the code
  units 0 to 255 (Latin-1). On that range \<open>trim\<close>, \<open>toLowerCase\<close>, \<open>split\<close>, \<open>includes\<close> and the
  regular-expression classes are exact; \<open>toUpperCase\<close> is exact but for the micro sign and the
  y with diaeresis, whose upper case lies outside the range and which stay as they are.
\<close>

section \<open>Characters\<close>

definition code_of :: "char \<Rightarrow> nat" where
  "code_of c = of_char c"

definition is_space :: "char \<Rightarrow> bool" where
  "is_space c = (let n = code_of c in (9 \<le> n \<and> n \<le> 13) \<or> n = 32 \<or> n = 160)"

definition is_digit :: "char \<Rightarrow> bool" where
  "is_digit c = (48 \<le> code_of c \<and> code_of c \<le> 57)"

definition digit_value :: "char \<Rightarrow> nat" where
  "digit_value c = code_of c - 48"

definition digit_char :: "nat \<Rightarrow> char" where
  "digit_char n = char_of (48 + n)"

definition is_upper_az :: "char \<Rightarrow> bool" where
  "is_upper_az c = (65 \<le> code_of c \<and> code_of c \<le> 90)"

definition is_lower_az :: "char \<Rightarrow> bool" where
  "is_lower_az c = (97 \<le> code_of c \<and> code_of c \<le> 122)"

definition lower_char :: "char \<Rightarrow> char" where
  "lower_char c = (let n = code_of c in
     if (65 \<le> n \<and> n \<le> 90) \<or> (192 \<le> n \<and> n \<le> 222 \<and> n \<noteq> 215) then char_of (n + 32) else c)"

definition upper_char :: "char \<Rightarrow> string" where
  "upper_char c = (let n = code_of c in
     if (97 \<le> n \<and> n \<le> 122) \<or> (224 \<le> n \<and> n \<le> 254 \<and> n \<noteq> 247) then [char_of (n - 32)]
     else if n = 223 then ''SS'' else [c])"

section \<open>Methods of strings\<close>

definition js_lower :: "string \<Rightarrow> string" where
  "js_lower s = map lower_char s"

definition js_upper :: "string \<Rightarrow> string" where
  "js_upper s = concat (map upper_char s)"

definition trim_start :: "string \<Rightarrow> string" where
  "trim_start s = dropWhile is_space s"

definition trim_end :: "string \<Rightarrow> string" where
  "trim_end s = rev (dropWhile is_space (rev s))"

definition js_trim :: "string \<Rightarrow> string" where
  "js_trim s = trim_end (trim_start s)"

text \<open>\<open>s.replaceAll(c, d)\<close> for a one-character pattern.\<close>

definition replace_char :: "char \<Rightarrow> string \<Rightarrow> string \<Rightarrow> string" where
  "replace_char c d s = concat (map (\<lambda>x. if x = c then d else [x]) s)"

text \<open>\<open>s.split(c)\<close> for a one-character separator: always at least one part.\<close>

fun split_on :: "char \<Rightarrow> string \<Rightarrow> string list" where
  "split_on c [] = [[]]"
| "split_on c (x # xs) =
     (if x = c then [] # split_on c xs
      else (case split_on c xs of [] \<Rightarrow> [[x]] | p # ps \<Rightarrow> (x # p) # ps))"

text \<open>\<open>s.split(/\s+/).filter(Boolean)\<close>: the maximal runs of characters that are not spaces.\<close>

fun words_acc :: "string \<Rightarrow> string \<Rightarrow> string list" where
  "words_acc acc [] = (if acc = [] then [] else [rev acc])"
| "words_acc acc (c # cs) =
     (if is_space c then (if acc = [] then words_acc [] cs else rev acc # words_acc [] cs)
      else words_acc (c # acc) cs)"

definition js_words :: "string \<Rightarrow> string list" where
  "js_words s = words_acc [] s"

fun js_join :: "string \<Rightarrow> string list \<Rightarrow> string" where
  "js_join sep [] = []"
| "js_join sep [x] = x"
| "js_join sep (x # y # xs) = x @ sep @ js_join sep (y # xs)"

text \<open>\<open>s.includes(t)\<close>.\<close>

fun js_includes :: "string \<Rightarrow> string \<Rightarrow> bool" where
  "js_includes [] t = (t = [])"
| "js_includes (c # cs) t = (prefix t (c # cs) \<or> js_includes cs t)"

definition starts_with :: "string \<Rightarrow> string \<Rightarrow> bool" where
  "starts_with s t = prefix t s"

definition ends_with :: "string \<Rightarrow> string \<Rightarrow> bool" where
  "ends_with s t = prefix (rev t) (rev s)"

definition pad_start :: "nat \<Rightarrow> char \<Rightarrow> string \<Rightarrow> string" where
  "pad_start n c s = replicate (n - length s) c @ s"

definition pad_end :: "nat \<Rightarrow> char \<Rightarrow> string \<Rightarrow> string" where
  "pad_end n c s = s @ replicate (n - length s) c"

text \<open>\<open>s.charAt(0).toUpperCase() + s.slice(1)\<close>.\<close>

definition capitalize :: "string \<Rightarrow> string" where
  "capitalize s = (case s of [] \<Rightarrow> [] | c # cs \<Rightarrow> upper_char c @ cs)"

section \<open>Decimal numerals\<close>

fun nat_digits :: "nat \<Rightarrow> string" where
  "nat_digits n = (if n < 10 then [digit_char n] else nat_digits (n div 10) @ [digit_char (n mod 10)])"

declare nat_digits.simps [simp del]

definition int_string :: "int \<Rightarrow> string" where
  "int_string i = (if i < 0 then CHR ''-'' # nat_digits (nat (- i)) else nat_digits (nat i))"

definition digits_value :: "string \<Rightarrow> nat" where
  "digits_value s = foldl (\<lambda>n c. 10 * n + digit_value c) 0 s"

definition all_digits :: "string \<Rightarrow> bool" where
  "all_digits s = list_all is_digit s"

section \<open>Facts\<close>

lemma code_of_char_of [simp]: "code_of (char_of n) = n mod 256"
  by (simp add: code_of_def)

lemma code_of_less [simp]: "code_of c < 256"
  by (simp add: code_of_def)

lemma code_of_inject: "code_of c = code_of d \<longleftrightarrow> c = d"
  by (simp add: code_of_def)

lemma char_of_digits:
  "char_of (48::nat) = CHR ''0''" "char_of (49::nat) = CHR ''1''" "char_of (50::nat) = CHR ''2''"
  "char_of (51::nat) = CHR ''3''" "char_of (52::nat) = CHR ''4''" "char_of (53::nat) = CHR ''5''"
  "char_of (54::nat) = CHR ''6''" "char_of (55::nat) = CHR ''7''" "char_of (56::nat) = CHR ''8''"
  "char_of (57::nat) = CHR ''9''"
  by code_simp+

text \<open>What evaluates strings of digits on closed terms.\<close>

lemmas string_eval = code_of_def is_digit_def digit_value_def all_digits_def digits_value_def
  digit_char_def nat_digits.simps int_string_def pad_start_def char_of_digits

lemma is_digit_digit_char: "n < 10 \<Longrightarrow> is_digit (digit_char n)"
  by (simp add: is_digit_def digit_char_def)

lemma digit_value_digit_char: "n < 10 \<Longrightarrow> digit_value (digit_char n) = n"
  by (simp add: digit_value_def digit_char_def)

lemma digit_value_less: "is_digit c \<Longrightarrow> digit_value c < 10"
  by (auto simp: is_digit_def digit_value_def)

lemma digit_char_digit_value: "is_digit c \<Longrightarrow> digit_char (digit_value c) = c"
  by (simp add: is_digit_def digit_char_def digit_value_def code_of_def)

lemma digit_not_space: "is_digit c \<Longrightarrow> \<not> is_space c"
  by (auto simp: is_digit_def is_space_def Let_def)

lemma lower_char_idem: "lower_char (lower_char c) = lower_char c"
  by (auto simp: lower_char_def Let_def)

lemma js_lower_idem [simp]: "js_lower (js_lower s) = js_lower s"
  by (simp add: js_lower_def lower_char_idem)

lemma js_lower_length [simp]: "length (js_lower s) = length s"
  by (simp add: js_lower_def)

lemma nat_digits_nonempty [simp]: "nat_digits n \<noteq> []"
  by (subst nat_digits.simps) simp

lemma all_digits_append [simp]: "all_digits (s @ t) = (all_digits s \<and> all_digits t)"
  by (simp add: all_digits_def)

lemma all_digits_nat_digits [simp]: "all_digits (nat_digits n)"
proof (induction n rule: nat_digits.induct)
  case (1 n)
  then show ?case
    by (subst nat_digits.simps) (auto simp: all_digits_def is_digit_digit_char)
qed

lemma digits_value_snoc: "digits_value (s @ [c]) = 10 * digits_value s + digit_value c"
  by (simp add: digits_value_def)

lemma digits_value_nat_digits [simp]: "digits_value (nat_digits n) = n"
proof (induction n rule: nat_digits.induct)
  case (1 n)
  show ?case
  proof (cases "n < 10")
    case True
    then show ?thesis
      by (subst nat_digits.simps) (simp add: digits_value_def digit_value_digit_char)
  next
    case False
    with 1 show ?thesis
      by (subst nat_digits.simps) (simp add: digits_value_snoc digit_value_digit_char)
  qed
qed

lemma digits_value_append:
  "digits_value (s @ t) = digits_value s * 10 ^ length t + digits_value t"
proof (induction t rule: rev_induct)
  case Nil
  then show ?case by (simp add: digits_value_def)
next
  case (snoc c t)
  have "digits_value (s @ t @ [c]) = 10 * digits_value (s @ t) + digit_value c"
    using digits_value_snoc [of "s @ t" c] by simp
  with snoc.IH show ?case
    by (simp add: digits_value_snoc algebra_simps)
qed

lemma digits_value_bound: "all_digits s \<Longrightarrow> digits_value s < 10 ^ length s"
proof (induction s rule: rev_induct)
  case Nil
  then show ?case by (simp add: digits_value_def)
next
  case (snoc c s)
  then have "digits_value s < 10 ^ length s" "digit_value c < 10"
    by (auto simp: all_digits_def digit_value_less)
  then show ?case by (simp add: digits_value_snoc)
qed

lemma dec_split: "10 * a + c = 10 * b + d \<Longrightarrow> c < 10 \<Longrightarrow> d < 10 \<Longrightarrow> c = d \<and> a = b" for a b c d :: nat
  by presburger

lemma digits_value_inj:
  "length s = length t \<Longrightarrow> all_digits s \<Longrightarrow> all_digits t \<Longrightarrow> digits_value s = digits_value t \<Longrightarrow> s = t"
proof (induction s arbitrary: t rule: rev_induct)
  case Nil
  then show ?case by simp
next
  case (snoc c s)
  from snoc.prems(1) have "t \<noteq> []" by auto
  then obtain t' d where t: "t = t' @ [d]" by (metis append_butlast_last_id)
  have c: "is_digit c" "is_digit d" "all_digits s" "all_digits t'"
    using snoc.prems(2,3) by (simp_all add: t all_digits_def)
  have v: "10 * digits_value s + digit_value c = 10 * digits_value t' + digit_value d"
    using snoc.prems(4) by (simp add: t digits_value_snoc)
  note e = dec_split [OF v digit_value_less [OF c(1)] digit_value_less [OF c(2)]]
  have len: "length s = length t'" using snoc.prems(1) by (simp add: t)
  have "s = t'" by (rule snoc.IH [OF len c(3,4) conjunct2 [OF e]])
  moreover have "c = d"
    by (metis digit_char_digit_value [OF c(1)] digit_char_digit_value [OF c(2)] conjunct1 [OF e])
  ultimately show ?case by (simp add: t)
qed

lemma digits_value_replicate_zero [simp]: "digits_value (replicate n (CHR ''0'') @ s) = digits_value s"
proof -
  have "digits_value (replicate n (CHR ''0'')) = 0"
    by (induction n) (simp_all add: digits_value_def digit_value_def code_of_def)
  then show ?thesis by (simp add: digits_value_append)
qed

lemma nat_digits_length_le: "n < 10 ^ Suc k \<Longrightarrow> length (nat_digits n) \<le> Suc k"
proof (induction k arbitrary: n)
  case 0
  then show ?case by (subst nat_digits.simps) simp
next
  case (Suc k)
  show ?case
  proof (cases "n < 10")
    case True
    then show ?thesis by (subst nat_digits.simps) simp
  next
    case False
    have "n div 10 < 10 ^ Suc k" using Suc.prems by simp
    then have "length (nat_digits (n div 10)) \<le> Suc k" by (rule Suc.IH)
    with False show ?thesis by (subst nat_digits.simps) simp
  qed
qed

lemma nat_digits_length_ge: "10 ^ k \<le> n \<Longrightarrow> k < length (nat_digits n)"
proof (induction k arbitrary: n)
  case 0
  then show ?case by simp
next
  case (Suc k)
  have "10 ^ k \<le> n div 10" using Suc.prems by (simp add: less_eq_div_iff_mult_less_eq mult.commute)
  then have IH: "k < length (nat_digits (n div 10))" by (rule Suc.IH)
  have "(10::nat) \<le> 10 ^ Suc k" by simp
  then have "10 \<le> n" using Suc.prems by (rule le_trans)
  with IH show ?case by (subst nat_digits.simps) simp
qed

lemma pad_start_length: "length (pad_start n c s) = max n (length s)"
  by (simp add: pad_start_def)

lemma digits_value_pad_start [simp]: "digits_value (pad_start n (CHR ''0'') s) = digits_value s"
  by (simp add: pad_start_def)

lemma all_digits_pad_start [simp]: "all_digits (pad_start n (CHR ''0'') s) = all_digits s"
  by (auto simp: pad_start_def all_digits_def list_all_iff is_digit_def code_of_def)

lemma split_on_nonempty [simp]: "split_on c s \<noteq> []"
  by (induction s) (auto split: list.splits)

lemma split_on_none: "c \<notin> set s \<Longrightarrow> split_on c s = [s]"
  by (induction s) auto

lemma split_on_append: "c \<notin> set w \<Longrightarrow> split_on c (w @ c # s) = w # split_on c s"
  by (induction w) auto

text \<open>Splitting and joining with the same separator gives the string back.\<close>

lemma js_join_split_on: "js_join [c] (split_on c s) = s"
proof (induction s)
  case Nil
  then show ?case by simp
next
  case (Cons x xs)
  obtain p ps where ps: "split_on c xs = p # ps"
    by (cases "split_on c xs") auto
  with Cons.IH show ?case by (cases ps) auto
qed

lemma dropWhile_idem: "dropWhile P (dropWhile P xs) = dropWhile P xs"
  by (induction xs) auto

lemma dropWhile_hd: "dropWhile P xs \<noteq> [] \<Longrightarrow> \<not> P (hd (dropWhile P xs))"
  by (rule hd_dropWhile)

lemma trim_end_no_trailing: "trim_end s \<noteq> [] \<Longrightarrow> \<not> is_space (last (trim_end s))"
proof -
  assume ne: "trim_end s \<noteq> []"
  then have d: "dropWhile is_space (rev s) \<noteq> []" by (simp add: trim_end_def)
  then have "last (trim_end s) = hd (dropWhile is_space (rev s))"
    by (simp add: trim_end_def last_rev)
  with hd_dropWhile [OF d] show ?thesis by simp
qed

lemma trim_end_prefix: "\<exists>w. s = trim_end s @ w \<and> list_all is_space w"
proof -
  have "rev s = takeWhile is_space (rev s) @ dropWhile is_space (rev s)" by simp
  then have "s = rev (dropWhile is_space (rev s)) @ rev (takeWhile is_space (rev s))"
    by (metis rev_append rev_rev_ident)
  moreover have "list_all is_space (rev (takeWhile is_space (rev s)))"
    by (auto simp: list_all_iff dest: set_takeWhileD)
  ultimately show ?thesis unfolding trim_end_def by blast
qed

lemma js_trim_no_outer_space:
  assumes "js_trim s \<noteq> []"
  shows "\<not> is_space (hd (js_trim s)) \<and> \<not> is_space (last (js_trim s))"
proof -
  obtain w where w: "trim_start s = js_trim s @ w"
    using trim_end_prefix [of "trim_start s"] by (auto simp: js_trim_def)
  from w assms have "trim_start s \<noteq> []" by auto
  then have "\<not> is_space (hd (trim_start s))" unfolding trim_start_def by (rule hd_dropWhile)
  with w assms have "\<not> is_space (hd (js_trim s))" by simp
  moreover have "\<not> is_space (last (js_trim s))"
    using trim_end_no_trailing assms unfolding js_trim_def by blast
  ultimately show ?thesis by simp
qed

lemma js_trim_fixed: "(s = [] \<or> (\<not> is_space (hd s) \<and> \<not> is_space (last s))) \<Longrightarrow> js_trim s = s"
proof -
  assume a: "s = [] \<or> (\<not> is_space (hd s) \<and> \<not> is_space (last s))"
  then have "trim_start s = s"
    by (cases s) (auto simp: trim_start_def)
  moreover have "trim_end s = s"
    using a by (cases s rule: rev_cases) (auto simp: trim_end_def)
  ultimately show ?thesis by (simp add: js_trim_def)
qed

lemma js_trim_idem [simp]: "js_trim (js_trim s) = js_trim s"
  using js_trim_no_outer_space js_trim_fixed by blast

text \<open>Whether a string trims to nothing.\<close>

lemma js_trim_empty_iff: "js_trim s = [] \<longleftrightarrow> list_all is_space s"
proof
  assume "js_trim s = []"
  then have all: "\<forall>c \<in> set (trim_start s). is_space c"
    by (simp add: js_trim_def trim_end_def dropWhile_eq_Nil_conv)
  have "trim_start s = []"
    using all hd_dropWhile [of is_space s] list.set_sel(1) [of "trim_start s"]
    by (auto simp: trim_start_def)
  then show "list_all is_space s"
    by (simp add: trim_start_def dropWhile_eq_Nil_conv list_all_iff)
next
  assume "list_all is_space s"
  then have "trim_start s = []"
    by (simp add: trim_start_def dropWhile_eq_Nil_conv list_all_iff)
  then show "js_trim s = []" by (simp add: js_trim_def trim_end_def)
qed

lemma words_acc_nonempty: "w \<in> set (words_acc acc s) \<Longrightarrow> w \<noteq> []"
  by (induction acc s rule: words_acc.induct) (auto split: if_splits)

lemma js_words_nonempty: "w \<in> set (js_words s) \<Longrightarrow> w \<noteq> []"
  unfolding js_words_def by (rule words_acc_nonempty)

lemma js_includes_empty [simp]: "js_includes s []"
  by (cases s) auto

lemma js_includes_iff: "js_includes s t \<longleftrightarrow> sublist t s"
  by (induction s) (auto simp: sublist_Cons_right)

end
