(* ===== verification/JsValues.thy ===== *)
theory JsValues
  imports JsStrings
begin

text \<open>
  Numbers and dynamically typed values. A number is not-a-number, an infinity or a finite
  value; finite values are rationals, on which the program's sums and differences of minor
  units are exact (they are integers below 2 to the 53). Where the program multiplies decimal
  amounts, rounding to binary64 matters and is modelled in theory MoneyInput. Negative zero is
  not distinguished from zero. A value of type \<open>unknown\<close>, as \<open>JSON.parse\<close> or a response body
  gives it, is a \<open>json\<close>; the coercions \<open>String(x)\<close>, \<open>Number(x)\<close>, \<open>Boolean(x)\<close> and the
  operator \<open>??\<close> follow the language's tables.
\<close>

section \<open>Numbers\<close>

datatype jsnum = NaN | PInf | NInf | Fin rat

instantiation jsnum :: comm_monoid_add
begin

definition zero_jsnum :: jsnum where
  "0 = Fin 0"

fun plus_jsnum :: "jsnum \<Rightarrow> jsnum \<Rightarrow> jsnum" where
  "NaN + y = NaN"
| "PInf + y = (case y of NaN \<Rightarrow> NaN | NInf \<Rightarrow> NaN | _ \<Rightarrow> PInf)"
| "NInf + y = (case y of NaN \<Rightarrow> NaN | PInf \<Rightarrow> NaN | _ \<Rightarrow> NInf)"
| "Fin a + y = (case y of Fin b \<Rightarrow> Fin (a + b) | _ \<Rightarrow> y)"

instance
proof
  show "x + y = y + x" for x y :: jsnum
    by (cases x; simp split: jsnum.splits) (cases y; simp)+
  show "0 + x = x" for x :: jsnum
    by (cases x) (simp_all add: zero_jsnum_def)
  show "(x + y) + z = x + (y + z)" for x y z :: jsnum
    by (cases x; simp split: jsnum.splits)
qed

end

definition js_neg :: "jsnum \<Rightarrow> jsnum" where
  "js_neg x = (case x of NaN \<Rightarrow> NaN | PInf \<Rightarrow> NInf | NInf \<Rightarrow> PInf | Fin a \<Rightarrow> Fin (- a))"

text \<open>\<open>x - y\<close>.\<close>

definition js_sub :: "jsnum \<Rightarrow> jsnum \<Rightarrow> jsnum" where
  "js_sub x y = x + js_neg y"

text \<open>\<open>x < y\<close>, false when either side is not a number.\<close>

fun js_less :: "jsnum \<Rightarrow> jsnum \<Rightarrow> bool" where
  "js_less NaN y = False"
| "js_less PInf y = False"
| "js_less NInf y = (case y of NaN \<Rightarrow> False | NInf \<Rightarrow> False | _ \<Rightarrow> True)"
| "js_less (Fin a) y = (case y of Fin b \<Rightarrow> a < b | PInf \<Rightarrow> True | _ \<Rightarrow> False)"

text \<open>\<open>Math.max(x, y)\<close>.\<close>

definition js_max :: "jsnum \<Rightarrow> jsnum \<Rightarrow> jsnum" where
  "js_max x y = (if x = NaN \<or> y = NaN then NaN else if js_less x y then y else x)"

definition is_finite :: "jsnum \<Rightarrow> bool" where
  "is_finite x = (case x of Fin _ \<Rightarrow> True | _ \<Rightarrow> False)"

definition is_whole :: "rat \<Rightarrow> bool" where
  "is_whole r = (of_int \<lfloor>r\<rfloor> = r)"

definition max_safe_integer :: int where
  "max_safe_integer = 9007199254740991"

section \<open>Number(s) for a string\<close>

definition span_digits :: "string \<Rightarrow> string \<times> string" where
  "span_digits s = (takeWhile is_digit s, dropWhile is_digit s)"

definition scale10 :: "rat \<Rightarrow> int \<Rightarrow> rat" where
  "scale10 m e = (if e < 0 then m / 10 ^ nat (- e) else m * 10 ^ nat e)"

definition parse_exponent :: "string \<Rightarrow> int option" where
  "parse_exponent s =
     (let (neg, ds) = (case s of c # cs \<Rightarrow>
                          if c = CHR ''-'' then (True, cs) else if c = CHR ''+'' then (False, cs)
                          else (False, s) | [] \<Rightarrow> (False, []))
      in if ds \<noteq> [] \<and> all_digits ds
         then Some (if neg then - int (digits_value ds) else int (digits_value ds)) else None)"

definition parse_unsigned :: "string \<Rightarrow> rat option" where
  "parse_unsigned s =
     (let (ip, r1) = span_digits s;
          (fp, r2) = (case r1 of c # cs \<Rightarrow> if c = CHR ''.'' then span_digits cs else ([], r1)
                      | [] \<Rightarrow> ([], []));
          m = of_nat (digits_value (ip @ fp)) / 10 ^ length fp
      in if ip = [] \<and> fp = [] then None
         else (case r2 of [] \<Rightarrow> Some m
               | c # cs \<Rightarrow> if c = CHR ''e'' \<or> c = CHR ''E'' then map_option (scale10 m) (parse_exponent cs)
                         else None))"

definition radix_digit :: "char \<Rightarrow> nat" where
  "radix_digit c = (if is_digit c then digit_value c
     else if is_lower_az c then code_of c - 87
     else if is_upper_az c then code_of c - 55 else 99)"

definition parse_radix :: "nat \<Rightarrow> string \<Rightarrow> rat option" where
  "parse_radix b s = (if s \<noteq> [] \<and> list_all (\<lambda>c. radix_digit c < b) s
     then Some (of_nat (foldl (\<lambda>n c. b * n + radix_digit c) 0 s)) else None)"

definition num_of :: "rat option \<Rightarrow> jsnum" where
  "num_of r = (case r of None \<Rightarrow> NaN | Some x \<Rightarrow> Fin x)"

definition parse_number :: "string \<Rightarrow> jsnum" where
  "parse_number s0 =
     (let s = js_trim s0 in
      if s = [] then Fin 0
      else if starts_with s ''0x'' \<or> starts_with s ''0X'' then num_of (parse_radix 16 (drop 2 s))
      else if starts_with s ''0o'' \<or> starts_with s ''0O'' then num_of (parse_radix 8 (drop 2 s))
      else if starts_with s ''0b'' \<or> starts_with s ''0B'' then num_of (parse_radix 2 (drop 2 s))
      else (let (neg, u) = (case s of c # cs \<Rightarrow>
                               if c = CHR ''-'' then (True, cs) else if c = CHR ''+'' then (False, cs)
                               else (False, s) | [] \<Rightarrow> (False, []));
                x = (if u = ''Infinity'' then PInf else num_of (parse_unsigned u))
            in if neg then js_neg x else x))"

section \<open>String(x) for a number\<close>

text \<open>
  The decimal expansion of a value with at most twenty fraction digits, which is what the
  language prints for magnitudes from 1e-6 up to 1e21; exponent notation is not modelled.
\<close>

fun dec_places :: "nat \<Rightarrow> rat \<Rightarrow> nat" where
  "dec_places 0 r = 0"
| "dec_places (Suc fuel) r = (if is_whole r then 0 else Suc (dec_places fuel (r * 10)))"

definition pos_string :: "rat \<Rightarrow> string" where
  "pos_string r =
     (let k = dec_places 20 r; ds = nat_digits (nat \<lfloor>r * 10 ^ k\<rfloor>)
      in if k = 0 then ds
         else (let p = pad_start (Suc k) (CHR ''0'') ds
               in take (length p - k) p @ ''.'' @ drop (length p - k) p))"

definition num_string :: "jsnum \<Rightarrow> string" where
  "num_string x = (case x of NaN \<Rightarrow> ''NaN'' | PInf \<Rightarrow> ''Infinity'' | NInf \<Rightarrow> ''-Infinity''
     | Fin r \<Rightarrow> if r < 0 then CHR ''-'' # pos_string (- r) else pos_string r)"

section \<open>Values of unknown type\<close>

datatype json =
    JUndefined
  | JNull
  | JBool bool
  | JNum jsnum
  | JStr string
  | JArr "json list"
  | JObj "(string \<times> json) list"

text \<open>An exception the language itself raises.\<close>

datatype js_error = TypeError | RangeError | SyntaxError

definition is_nullish :: "json \<Rightarrow> bool" where
  "is_nullish v = (case v of JUndefined \<Rightarrow> True | JNull \<Rightarrow> True | _ \<Rightarrow> False)"

text \<open>\<open>v ?? d\<close>.\<close>

definition nullish :: "json \<Rightarrow> json \<Rightarrow> json" where
  "nullish v d = (if is_nullish v then d else v)"

text \<open>\<open>Boolean(v)\<close>.\<close>

fun truthy :: "json \<Rightarrow> bool" where
  "truthy JUndefined = False"
| "truthy JNull = False"
| "truthy (JBool b) = b"
| "truthy (JNum x) = (x \<noteq> NaN \<and> x \<noteq> Fin 0)"
| "truthy (JStr s) = (s \<noteq> [])"
| "truthy (JArr xs) = True"
| "truthy (JObj m) = True"

text \<open>\<open>v.k\<close> where \<open>v\<close> is not null or undefined (the callers test that first).\<close>

definition jprop :: "json \<Rightarrow> string \<Rightarrow> json" where
  "jprop v k = (case v of JObj m \<Rightarrow> (case om_get m k of None \<Rightarrow> JUndefined | Some x \<Rightarrow> x)
               | _ \<Rightarrow> JUndefined)"

text \<open>\<open>k in v\<close> for an object.\<close>

definition has_jprop :: "json \<Rightarrow> string \<Rightarrow> bool" where
  "has_jprop v k = (case v of JObj m \<Rightarrow> om_get m k \<noteq> None | _ \<Rightarrow> False)"

text \<open>\<open>String(v)\<close>: an array joins its elements with commas, null and undefined as nothing.\<close>

fun js_string :: "json \<Rightarrow> string" where
  "js_string JUndefined = ''undefined''"
| "js_string JNull = ''null''"
| "js_string (JBool b) = (if b then ''true'' else ''false'')"
| "js_string (JNum x) = num_string x"
| "js_string (JStr s) = s"
| "js_string (JArr xs) = js_join '','' (map (\<lambda>x. if is_nullish x then [] else js_string x) xs)"
| "js_string (JObj m) = ''[object Object]''"

text \<open>\<open>Number(v)\<close>.\<close>

definition js_number :: "json \<Rightarrow> jsnum" where
  "js_number v = (case v of
       JUndefined \<Rightarrow> NaN
     | JNull \<Rightarrow> Fin 0
     | JBool b \<Rightarrow> Fin (if b then 1 else 0)
     | JNum x \<Rightarrow> x
     | JStr s \<Rightarrow> parse_number s
     | JArr xs \<Rightarrow> parse_number (js_string v)
     | JObj m \<Rightarrow> NaN)"

definition is_array :: "json \<Rightarrow> bool" where
  "is_array v = (case v of JArr _ \<Rightarrow> True | _ \<Rightarrow> False)"

definition array_items :: "json \<Rightarrow> json list" where
  "array_items v = (case v of JArr xs \<Rightarrow> xs | _ \<Rightarrow> [])"

section \<open>Facts\<close>

lemma Fin_sum_list: "sum_list (map (\<lambda>x. Fin (f x)) xs) = Fin (sum_list (map f xs))"
  by (induction xs) (simp_all add: zero_jsnum_def)

lemma js_sub_Fin [simp]: "js_sub (Fin a) (Fin b) = Fin (a - b)"
  by (simp add: js_sub_def js_neg_def)

lemma nullish_simps [simp]:
  "nullish JUndefined d = d" "nullish JNull d = d" "nullish (JStr s) d = JStr s"
  "nullish (JNum x) d = JNum x" "nullish (JBool b) d = JBool b"
  "nullish (JArr xs) d = JArr xs" "nullish (JObj m) d = JObj m"
  by (simp_all add: nullish_def is_nullish_def)

lemma js_number_simps [simp]:
  "js_number (JNum x) = x" "js_number JNull = Fin 0" "js_number JUndefined = NaN"
  by (simp_all add: js_number_def)

lemma jprop_Nil [simp]: "jprop (JObj []) k = JUndefined"
  by (simp add: jprop_def)

lemma jprop_Cons [simp]:
  "jprop (JObj ((k', v) # m)) k = (if k' = k then v else jprop (JObj m) k)"
  by (simp add: jprop_def)

lemma jprop_other [simp]:
  "jprop JUndefined k = JUndefined" "jprop JNull k = JUndefined" "jprop (JBool b) k = JUndefined"
  "jprop (JNum x) k = JUndefined" "jprop (JStr s) k = JUndefined" "jprop (JArr xs) k = JUndefined"
  by (simp_all add: jprop_def)

end
