(* ===== verification/DomainTypes.thy ===== *)
theory DomainTypes
  imports JsValues
begin

text \<open>
  The data of the client, from \<open>web/src/domain/types.ts\<close>: an interface is a record whose
  fields carry the interface's field names after a short prefix, an optional field is an
  \<open>option\<close>, a union of string literals is a datatype with one constructor per literal, and an
  amount in minor units is a number of theory JsValues.
\<close>

datatype workspace_type = Personal | Family | Office

datatype role = Owner | Administrator | Finance_manager | Approver | Member | Viewer | Admin

record money =
  amountMinor :: jsnum
  currency :: string

record workspace =
  ws_id :: string
  ws_name :: string
  ws_type :: workspace_type
  ws_role :: role
  ws_memberCount :: jsnum
  ws_currency :: "string option"

datatype privacy = Private_record | Workspace_record | Selected_record

datatype active_status = Active | Inactive

record account =
  acc_id :: string
  acc_name :: string
  acc_kind :: string
  acc_balance :: money
  acc_maskedNumber :: string
  acc_color :: string
  acc_bankName :: "string option"
  acc_icon :: "string option"
  acc_notes :: "string option"
  acc_status :: active_status
  acc_openingMinor :: jsnum
  acc_excludeFromTotal :: bool
  acc_privacy :: "privacy option"

datatype member_status = Active_member | Former_member

record creator_summary =
  cr_name :: string
  cr_initials :: string
  cr_profileImageUrl :: "string option"
  cr_status :: member_status
  cr_isCurrentUser :: bool

record current_user =
  cu_email :: string
  cu_name :: string
  cu_locale :: string
  cu_preferredCurrency :: string
  cu_emailVerified :: bool

record contact_summary =
  ct_id :: string
  ct_name :: string
  ct_phone :: "string option"
  ct_email :: "string option"

datatype direction = Credit | Debit

datatype id_scope = Scope_expense | Scope_income | Scope_transfer | Scope_split

datatype raw_type =
    Raw_expense | Raw_income | Raw_transfer | Raw_split | Raw_refund | Raw_reimbursement | Raw_adjustment

datatype entry_status = Cleared | Pending

record automation_change =
  ch_field :: string
  ch_from :: "string option"
  ch_to :: "string option"

record automation_entry =
  au_ruleName :: string
  au_changes :: "automation_change list"

record transaction =
  tx_id :: string
  tx_transactionId :: "string option"
  tx_transactionIdScope :: "id_scope option"
  tx_merchant :: string
  tx_category :: string
  tx_occurredAt :: string
  tx_createdAt :: "string option"
  tx_amount :: money
  tx_direction :: direction
  tx_status :: entry_status
  tx_accountId :: string
  tx_destinationAccountId :: "string option"
  tx_rawType :: raw_type
  tx_privacy :: "privacy option"
  tx_hasSplits :: bool
  tx_goalId :: "string option"
  tx_creator :: "creator_summary option"
  tx_note :: "string option"
  tx_description :: "string option"
  tx_contactId :: "string option"
  tx_contact :: "json option"
  tx_imported :: bool
  tx_cleared :: bool
  tx_automation :: "automation_entry list option"

section \<open>The dashboard\<close>

record category_insight =
  ci_name :: string
  ci_category :: "string option"
  ci_merchant :: "string option"
  ci_type :: "string option"
  ci_amountMinor :: jsnum
  ci_count :: jsnum
  ci_currency :: "string option"

record cashflow_point =
  cp_period :: string
  cp_incomeMinor :: jsnum
  cp_spendingMinor :: jsnum
  cp_netMinor :: jsnum
  cp_currency :: "string option"

record dashboard_activity =
  da_id :: string
  da_transactionId :: "string option"
  da_label :: string
  da_type :: string
  da_category :: "string option"
  da_accountId :: "string option"
  da_contactId :: "string option"
  da_contact :: "contact_summary option"
  da_creator :: "creator_summary option"
  da_description :: "string option"
  da_amountMinor :: jsnum
  da_currency :: string
  da_occurredAt :: string

record metric_change =
  mc_currentMinor :: jsnum
  mc_previousMinor :: jsnum
  mc_deltaMinor :: jsnum
  mc_percent :: "jsnum option"

record dashboard_comparison =
  dc_from :: string
  dc_to :: string
  dc_income :: metric_change
  dc_expenses :: metric_change
  dc_net :: metric_change
  dc_transactionCount :: metric_change
  dc_averageValue :: metric_change

record contact_insight =
  co_id :: "string option"
  co_name :: string
  co_incomeMinor :: jsnum
  co_paidMinor :: jsnum
  co_netMinor :: jsnum
  co_count :: jsnum
  co_latestDate :: "string option"
  co_currency :: "string option"

record account_insight =
  ai_id :: string
  ai_name :: string
  ai_incomeMinor :: jsnum
  ai_paidMinor :: jsnum
  ai_netMinor :: jsnum
  ai_count :: jsnum
  ai_currency :: "string option"

datatype goal_direction = Receive | Pay | Save | Neutral

datatype goal_status =
    Not_started | In_progress | Due_soon | Due_today | Overdue | Achieved | Cancelled

record goal_item =
  gi_id :: string
  gi_name :: string
  gi_type :: "string option"
  gi_direction :: "goal_direction option"
  gi_status :: goal_status
  gi_targetMinor :: jsnum
  gi_currentMinor :: jsnum
  gi_remainingMinor :: jsnum
  gi_currency :: string
  gi_dueDate :: "string option"

record goal_summary =
  gs_activeCount :: jsnum
  gs_expectedIncomeMinor :: jsnum
  gs_expectedPaymentsMinor :: jsnum
  gs_savingsTargetMinor :: jsnum
  gs_dueSoonCount :: jsnum
  gs_dueTodayCount :: jsnum
  gs_overdueCount :: jsnum
  gs_achievedCount :: jsnum
  gs_partialCount :: jsnum
  gs_completionPercent :: "jsnum option"
  gs_pendingMinor :: jsnum
  gs_achievedMinor :: jsnum
  gs_nearestDue :: "goal_item option"

record dashboard_insight =
  di_kind :: string
  di_title :: string
  di_detail :: string
  di_metricMinor :: "jsnum option"
  di_percent :: "jsnum option"
  di_currency :: "string option"

record repeated_transaction =
  rt_label :: string
  rt_category :: "string option"
  rt_type :: string
  rt_amountMinor :: jsnum
  rt_count :: jsnum
  rt_currency :: string

record month_details =
  md_openingBalanceMinor :: "jsnum option"
  md_closingBalanceMinor :: "jsnum option"
  md_largestIncome :: "dashboard_activity option"
  md_largestExpense :: "dashboard_activity option"
  md_mostActiveDay :: "string option"
  md_topSpendingCategory :: "string option"
  md_highestValueContact :: "contact_insight option"
  md_repeatedTransactions :: "repeated_transaction list"

record dashboard_analytics =
  an_byCategory :: "category_insight list"
  an_bySource :: "category_insight list"
  an_byContact :: "contact_insight list"
  an_byAccount :: "account_insight list"
  an_byType :: "category_insight list"
  an_cashflow :: "cashflow_point list"
  an_monthlyTrend :: "cashflow_point list"
  an_recentActivity :: "dashboard_activity list"
  an_topCategories :: "category_insight list"
  an_monthDetails :: month_details

record dashboard = dashboard_analytics +
  db_currency :: string
  db_balanceMinor :: jsnum
  db_incomeMinor :: jsnum
  db_spendingMinor :: jsnum
  db_transactionCount :: jsnum
  db_averageValueMinor :: jsnum
  db_highestIncomeMinor :: jsnum
  db_highestExpenseMinor :: jsnum
  db_amountReceivedMinor :: jsnum
  db_amountPaidMinor :: jsnum
  db_pendingGoalMinor :: jsnum
  db_achievedGoalMinor :: jsnum
  db_goalSummary :: goal_summary
  db_allActiveGoals :: goal_summary
  db_goalHighlights :: "goal_item list"
  db_insights :: "dashboard_insight list"
  db_previousComparison :: "dashboard_comparison option"
  db_recentTransactions :: "transaction list"
  db_pendingApprovals :: jsnum
  db_unreadNotifications :: jsnum

section \<open>Budgets, goals, bills and claims\<close>

record budget =
  bg_id :: string
  bg_name :: string
  bg_spent :: money
  bg_limit :: money
  bg_period :: string
  bg_spendingKnown :: bool
  bg_categories :: "string list"
  bg_rollover :: bool
  bg_startAt :: "string option"
  bg_endAt :: "string option"

record goal_history_entry =
  gh_action :: string
  gh_actorId :: "string option"
  gh_amountMinor :: "jsnum option"
  gh_date :: "string option"
  gh_createdAt :: string

datatype goal_visibility = Goal_private | Goal_workspace

record goal =
  gl_id :: string
  gl_name :: string
  gl_saved :: money
  gl_target :: money
  gl_targetDate :: string
  gl_description :: "string option"
  gl_type :: "string option"
  gl_customType :: "string option"
  gl_direction :: "goal_direction option"
  gl_remaining :: money
  gl_startDate :: "string option"
  gl_dueDate :: "string option"
  gl_status :: "goal_status option"
  gl_visibility :: "goal_visibility option"
  gl_contactId :: "string option"
  gl_contactName :: "string option"
  gl_contact :: "contact_summary option"
  gl_accountId :: "string option"
  gl_category :: "string option"
  gl_reminder :: "string option"
  gl_notes :: "string option"
  gl_cancelledAt :: "string option"
  gl_completionDate :: "string option"
  gl_linkedTransactionIds :: "string list"
  gl_createdBySummary :: "creator_summary option"
  gl_history :: "goal_history_entry list"

record bill =
  bl_id :: string
  bl_name :: string
  bl_dueDate :: string
  bl_amount :: money
  bl_autopay :: bool
  bl_frequency :: "string option"

record finance_claim =
  fc_id :: string
  fc_person :: string
  fc_purpose :: string
  fc_amount :: money
  fc_status :: string
  fc_rawStatus :: string
  fc_reimbursementStatus :: string
  fc_submittedBy :: "string option"
  fc_approvalComment :: "string option"

end
