(* ===== verification/FinanceData.thy ===== *)
theory FinanceData
  imports DomainTypes
begin

text \<open>
  The boundary between the API and the pages, \<open>web/src/pages/finance/data.ts\<close>: a response
  body of unknown shape is turned into the records of theory DomainTypes, and the guards that
  decide what a member may do with a transaction. A field access on an element that is null
  or undefined raises the language's TypeError; every other shape is coerced.
\<close>

section \<open>Small coercions\<close>

definition isRecord :: "json \<Rightarrow> bool" where
  "isRecord v = (case v of JObj _ \<Rightarrow> True | _ \<Rightarrow> False)"

definition nonEmptyString :: "json \<Rightarrow> string option" where
  "nonEmptyString v = (case v of
       JStr s \<Rightarrow> let trimmed = js_trim s in if trimmed = [] then None else Some trimmed
     | _ \<Rightarrow> None)"

text \<open>The three idioms of the normalizer: \<open>String(r.k ?? d)\<close>, \<open>Number(r.k ?? 0)\<close> and
  \<open>r.k ? String(r.k) : undefined\<close>, and \<open>r.k == null ? undefined : Number(r.k)\<close>.\<close>

definition str_or :: "json \<Rightarrow> string \<Rightarrow> string \<Rightarrow> string" where
  "str_or r k d = js_string (nullish (jprop r k) (JStr d))"

definition num_or0 :: "json \<Rightarrow> string \<Rightarrow> jsnum" where
  "num_or0 r k = js_number (nullish (jprop r k) (JNum 0))"

definition opt_str :: "json \<Rightarrow> string \<Rightarrow> string option" where
  "opt_str r k = (if truthy (jprop r k) then Some (js_string (jprop r k)) else None)"

definition opt_num :: "json \<Rightarrow> string \<Rightarrow> jsnum option" where
  "opt_num r k = (if is_nullish (jprop r k) then None else Some (js_number (jprop r k)))"

definition record_or_empty :: "json \<Rightarrow> json" where
  "record_or_empty v = (if isRecord v then v else JObj [])"

definition initialsForName :: "string \<Rightarrow> string" where
  "initialsForName name =
     (let initials = concat (map (\<lambda>part. case part of [] \<Rightarrow> [] | c # _ \<Rightarrow> upper_char c)
                               (take 2 (js_words name)))
      in if initials = [] then ''FM'' else initials)"

definition normalizeTransactionIdScope :: "json \<Rightarrow> id_scope option" where
  "normalizeTransactionIdScope v =
     (if v = JStr ''expense'' then Some Scope_expense
      else if v = JStr ''income'' then Some Scope_income
      else if v = JStr ''transfer'' then Some Scope_transfer
      else if v = JStr ''split'' then Some Scope_split else None)"

definition normalizeRecordPrivacy :: "json \<Rightarrow> privacy option" where
  "normalizeRecordPrivacy v =
     (if v = JStr ''private'' then Some Private_record
      else if v = JStr ''workspace'' then Some Workspace_record
      else if v = JStr ''selected'' then Some Selected_record else None)"

definition normalizeAccountStatus :: "json \<Rightarrow> json \<Rightarrow> active_status" where
  "normalizeAccountStatus v active =
     (if v = JStr ''inactive'' \<or> active = JBool False then Inactive else Active)"

definition normalizeGoalVisibility :: "json \<Rightarrow> goal_visibility option" where
  "normalizeGoalVisibility v =
     (if v = JStr ''private'' then Some Goal_private
      else if v = JStr ''workspace'' then Some Goal_workspace else None)"

definition normalizeGoalDirection :: "json \<Rightarrow> goal_direction option" where
  "normalizeGoalDirection v =
     (if v = JStr ''receive'' then Some Receive
      else if v = JStr ''pay'' then Some Pay
      else if v = JStr ''save'' then Some Save
      else if v = JStr ''neutral'' then Some Neutral else None)"

definition normalizeGoalStatus :: "json \<Rightarrow> goal_status option" where
  "normalizeGoalStatus v =
     (if v = JStr ''not_started'' then Some Not_started
      else if v = JStr ''in_progress'' then Some In_progress
      else if v = JStr ''due_soon'' then Some Due_soon
      else if v = JStr ''due_today'' then Some Due_today
      else if v = JStr ''overdue'' then Some Overdue
      else if v = JStr ''achieved'' then Some Achieved
      else if v = JStr ''cancelled'' then Some Cancelled else None)"

definition normalizeTransactionType :: "string \<Rightarrow> raw_type" where
  "normalizeTransactionType v =
     (if v = ''expense'' then Raw_expense
      else if v = ''income'' then Raw_income
      else if v = ''transfer'' then Raw_transfer
      else if v = ''split'' then Raw_split
      else if v = ''refund'' then Raw_refund
      else if v = ''reimbursement'' then Raw_reimbursement
      else if v = ''adjustment'' then Raw_adjustment
      else Raw_expense)"

definition normalizeCreatorStatus :: "json \<Rightarrow> member_status" where
  "normalizeCreatorStatus v =
     (if map_option js_lower (nonEmptyString v) = Some ''active'' then Active_member else Former_member)"

definition normalizeContactSummary :: "json \<Rightarrow> contact_summary option" where
  "normalizeContactSummary v =
     (if \<not> isRecord v \<or> \<not> truthy (jprop v ''id'') \<or> \<not> truthy (jprop v ''name'') then None
      else Some \<lparr> ct_id = js_string (jprop v ''id''), ct_name = js_string (jprop v ''name''),
                 ct_phone = opt_str v ''phone'', ct_email = opt_str v ''email'' \<rparr>)"

definition normalizeCreatorSummary :: "json \<Rightarrow> creator_summary option" where
  "normalizeCreatorSummary v =
     (if \<not> isRecord v then None
      else (let status = normalizeCreatorStatus (jprop v ''status'');
                name = (case nonEmptyString (jprop v ''name'') of Some n \<Rightarrow> n
                        | None \<Rightarrow> if status = Former_member then ''Former member'' else ''Workspace member'');
                initials = (case nonEmptyString (jprop v ''initials'') of Some i \<Rightarrow> i
                            | None \<Rightarrow> initialsForName name)
            in Some \<lparr> cr_name = name, cr_initials = initials,
                      cr_profileImageUrl = nonEmptyString (jprop v ''profileImageUrl''),
                      cr_status = status,
                      cr_isCurrentUser = (jprop v ''isCurrentUser'' = JBool True) \<rparr>))"

definition friendlyLabel :: "string \<Rightarrow> string" where
  "friendlyLabel value =
     (let normalized = replace_char (CHR ''_'') '' '' (js_trim value)
      in if normalized = [] then ''Custom'' else capitalize normalized)"

section \<open>The dashboard\<close>

definition normalizeDashboardCategories :: "json \<Rightarrow> category_insight list" where
  "normalizeDashboardCategories v = map (\<lambda>item. let row = record_or_empty item in
     \<lparr> ci_name = js_string (nullish (nullish (jprop row ''name'') (jprop row ''category'')) (JStr ''Uncategorised'')),
       ci_category = opt_str row ''category'',
       ci_merchant = opt_str row ''merchant'',
       ci_type = opt_str row ''type'',
       ci_amountMinor = num_or0 row ''amountMinor'',
       ci_count = num_or0 row ''count'',
       ci_currency = opt_str row ''currency'' \<rparr>) (array_items v)"

definition normalizeDashboardCashflow :: "json \<Rightarrow> cashflow_point list" where
  "normalizeDashboardCashflow v = map (\<lambda>item. let row = record_or_empty item in
     \<lparr> cp_period = str_or row ''period'' [],
       cp_incomeMinor = num_or0 row ''incomeMinor'',
       cp_spendingMinor = num_or0 row ''spendingMinor'',
       cp_netMinor = num_or0 row ''netMinor'',
       cp_currency = opt_str row ''currency'' \<rparr>) (array_items v)"

definition activity_of_row :: "json \<Rightarrow> dashboard_activity" where
  "activity_of_row row =
     \<lparr> da_id = str_or row ''id'' [],
       da_transactionId = opt_str row ''transactionId'',
       da_label = str_or row ''label'' ''Transaction'',
       da_type = str_or row ''type'' ''expense'',
       da_category = opt_str row ''category'',
       da_accountId = opt_str row ''accountId'',
       da_contactId = opt_str row ''contactId'',
       da_contact = normalizeContactSummary (jprop row ''contact''),
       da_creator = normalizeCreatorSummary (jprop row ''creator''),
       da_description = opt_str row ''description'',
       da_amountMinor = num_or0 row ''amountMinor'',
       da_currency = str_or row ''currency'' ''INR'',
       da_occurredAt = str_or row ''occurredAt'' [] \<rparr>"

definition normalizeDashboardActivity :: "json \<Rightarrow> dashboard_activity list" where
  "normalizeDashboardActivity v = map (\<lambda>item. activity_of_row (record_or_empty item)) (array_items v)"

definition normalizeDashboardActivityOne :: "json \<Rightarrow> dashboard_activity option" where
  "normalizeDashboardActivityOne v =
     (if \<not> isRecord v \<or> \<not> truthy (jprop v ''id'') then None
      else (case normalizeDashboardActivity (JArr [v]) of [] \<Rightarrow> None | a # _ \<Rightarrow> Some a))"

definition contact_of_row :: "json \<Rightarrow> contact_insight" where
  "contact_of_row row =
     \<lparr> co_id = opt_str row ''id'',
       co_name = str_or row ''name'' ''Contact'',
       co_incomeMinor = num_or0 row ''incomeMinor'',
       co_paidMinor = num_or0 row ''paidMinor'',
       co_netMinor = js_number (nullish (jprop row ''netMinor'')
          (JNum (js_sub (num_or0 row ''incomeMinor'') (num_or0 row ''paidMinor'')))),
       co_count = num_or0 row ''count'',
       co_latestDate = opt_str row ''latestDate'',
       co_currency = opt_str row ''currency'' \<rparr>"

definition normalizeDashboardContacts :: "json \<Rightarrow> contact_insight list" where
  "normalizeDashboardContacts v = map (\<lambda>item. contact_of_row (record_or_empty item)) (array_items v)"

definition normalizeDashboardAccounts :: "json \<Rightarrow> account_insight list" where
  "normalizeDashboardAccounts v = map (\<lambda>item.
     let row = record_or_empty item;
         incomeMinor = num_or0 row ''incomeMinor'';
         paidMinor = num_or0 row ''paidMinor'' in
     \<lparr> ai_id = str_or row ''id'' [],
       ai_name = str_or row ''name'' ''Account'',
       ai_incomeMinor = incomeMinor,
       ai_paidMinor = paidMinor,
       ai_netMinor = js_number (nullish (jprop row ''netMinor'') (JNum (js_sub incomeMinor paidMinor))),
       ai_count = num_or0 row ''count'',
       ai_currency = opt_str row ''currency'' \<rparr>) (array_items v)"

definition normalizeDashboardGoalItems :: "json \<Rightarrow> goal_item list" where
  "normalizeDashboardGoalItems v = map (\<lambda>row.
     \<lparr> gi_id = str_or row ''id'' [],
       gi_name = str_or row ''name'' ''Goal'',
       gi_type = opt_str row ''type'',
       gi_direction = normalizeGoalDirection (jprop row ''direction''),
       gi_status = (case normalizeGoalStatus (jprop row ''status'') of None \<Rightarrow> Not_started | Some s \<Rightarrow> s),
       gi_targetMinor = num_or0 row ''targetMinor'',
       gi_currentMinor = num_or0 row ''currentMinor'',
       gi_remainingMinor = num_or0 row ''remainingMinor'',
       gi_currency = str_or row ''currency'' ''INR'',
       gi_dueDate = opt_str row ''dueDate'' \<rparr>) (filter isRecord (array_items v))"

definition normalizeDashboardGoalSummary :: "json \<Rightarrow> goal_summary" where
  "normalizeDashboardGoalSummary v = (let row = record_or_empty v in
     \<lparr> gs_activeCount = num_or0 row ''activeCount'',
       gs_expectedIncomeMinor = num_or0 row ''expectedIncomeMinor'',
       gs_expectedPaymentsMinor = num_or0 row ''expectedPaymentsMinor'',
       gs_savingsTargetMinor = num_or0 row ''savingsTargetMinor'',
       gs_dueSoonCount = num_or0 row ''dueSoonCount'',
       gs_dueTodayCount = num_or0 row ''dueTodayCount'',
       gs_overdueCount = num_or0 row ''overdueCount'',
       gs_achievedCount = num_or0 row ''achievedCount'',
       gs_partialCount = num_or0 row ''partialCount'',
       gs_completionPercent = opt_num row ''completionPercent'',
       gs_pendingMinor = num_or0 row ''pendingMinor'',
       gs_achievedMinor = num_or0 row ''achievedMinor'',
       gs_nearestDue = (case normalizeDashboardGoalItems
            (JArr (if truthy (jprop row ''nearestDue'') then [jprop row ''nearestDue''] else [])) of
          [] \<Rightarrow> None | g # _ \<Rightarrow> Some g) \<rparr>)"

definition normalizeDashboardInsights :: "json \<Rightarrow> dashboard_insight list" where
  "normalizeDashboardInsights v = map (\<lambda>row.
     \<lparr> di_kind = str_or row ''kind'' ''insight'',
       di_title = str_or row ''title'' ''Useful insight'',
       di_detail = str_or row ''detail'' [],
       di_metricMinor = opt_num row ''metricMinor'',
       di_percent = opt_num row ''percent'',
       di_currency = opt_str row ''currency'' \<rparr>) (filter isRecord (array_items v))"

definition normalizeDashboardMetricChange :: "json \<Rightarrow> metric_change" where
  "normalizeDashboardMetricChange v = (let row = record_or_empty v in
     \<lparr> mc_currentMinor = num_or0 row ''currentMinor'',
       mc_previousMinor = num_or0 row ''previousMinor'',
       mc_deltaMinor = num_or0 row ''deltaMinor'',
       mc_percent = opt_num row ''percent'' \<rparr>)"

definition normalizeDashboardComparison :: "json \<Rightarrow> dashboard_comparison option" where
  "normalizeDashboardComparison v = (if \<not> isRecord v then None else Some
     \<lparr> dc_from = str_or v ''from'' [],
       dc_to = str_or v ''to'' [],
       dc_income = normalizeDashboardMetricChange (jprop v ''income''),
       dc_expenses = normalizeDashboardMetricChange (jprop v ''expenses''),
       dc_net = normalizeDashboardMetricChange (jprop v ''net''),
       dc_transactionCount = normalizeDashboardMetricChange (jprop v ''transactionCount''),
       dc_averageValue = normalizeDashboardMetricChange (jprop v ''averageValue'') \<rparr>)"

definition normalizeDashboardMonthDetails :: "json \<Rightarrow> month_details" where
  "normalizeDashboardMonthDetails v = (let row = record_or_empty v in
     \<lparr> md_openingBalanceMinor = opt_num row ''openingBalanceMinor'',
       md_closingBalanceMinor = opt_num row ''closingBalanceMinor'',
       md_largestIncome = normalizeDashboardActivityOne (jprop row ''largestIncome''),
       md_largestExpense = normalizeDashboardActivityOne (jprop row ''largestExpense''),
       md_mostActiveDay = opt_str row ''mostActiveDay'',
       md_topSpendingCategory = opt_str row ''topSpendingCategory'',
       md_highestValueContact = (if isRecord (jprop row ''highestValueContact'')
          then (case normalizeDashboardContacts (JArr [jprop row ''highestValueContact'']) of
                  [] \<Rightarrow> None | c # _ \<Rightarrow> Some c)
          else None),
       md_repeatedTransactions = map (\<lambda>item.
          \<lparr> rt_label = str_or item ''label'' ''Transaction'',
            rt_category = opt_str item ''category'',
            rt_type = str_or item ''type'' ''expense'',
            rt_amountMinor = num_or0 item ''amountMinor'',
            rt_count = num_or0 item ''count'',
            rt_currency = str_or item ''currency'' ''INR'' \<rparr>)
          (filter isRecord (array_items (jprop row ''repeatedTransactions''))) \<rparr>)"

section \<open>The collections\<close>

definition money_of :: "jsnum \<Rightarrow> string \<Rightarrow> money" where
  "money_of n c = \<lparr> amountMinor = n, currency = c \<rparr>"

definition normalize_account :: "json \<Rightarrow> account" where
  "normalize_account a =
     \<lparr> acc_id = js_string (jprop a ''id''),
       acc_name = js_string (jprop a ''name''),
       acc_kind = str_or a ''type'' ''Account'',
       acc_balance = money_of (num_or0 a ''balanceMinor'') (str_or a ''currency'' ''INR''),
       acc_maskedNumber = (case nonEmptyString (jprop a ''maskedIdentifier'') of Some m \<Rightarrow> m
          | None \<Rightarrow> (case nonEmptyString (jprop a ''maskedNumber'') of Some m \<Rightarrow> m
          | None \<Rightarrow> ''Manual account'')),
       acc_color = (case nonEmptyString (jprop a ''color'') of Some c \<Rightarrow> c | None \<Rightarrow> ''#536d52''),
       acc_bankName = nonEmptyString (jprop a ''bankName''),
       acc_icon = nonEmptyString (jprop a ''icon''),
       acc_notes = nonEmptyString (jprop a ''notes''),
       acc_status = normalizeAccountStatus (jprop a ''status'') (jprop a ''active''),
       acc_openingMinor = num_or0 a ''openingMinor'',
       acc_excludeFromTotal = truthy (jprop a ''excludeFromTotal''),
       acc_privacy = normalizeRecordPrivacy (jprop a ''privacy'') \<rparr>"

definition normalize_change :: "json \<Rightarrow> automation_change" where
  "normalize_change c =
     \<lparr> ch_field = str_or c ''field'' [],
       ch_from = opt_str c ''from'',
       ch_to = (if is_nullish (jprop c ''to'') then None else Some (js_string (jprop c ''to''))) \<rparr>"

definition normalize_automation :: "json \<Rightarrow> automation_entry list option" where
  "normalize_automation v = (case v of
       JArr xs \<Rightarrow> Some (map (\<lambda>record.
          \<lparr> au_ruleName = str_or record ''ruleName'' ''Rule'',
            au_changes = map normalize_change (filter isRecord (array_items (jprop record ''changes''))) \<rparr>)
          (filter isRecord xs))
     | _ \<Rightarrow> None)"

definition normalize_transaction :: "json \<Rightarrow> transaction" where
  "normalize_transaction t = (let type = str_or t ''type'' ''expense'' in
     \<lparr> tx_id = js_string (jprop t ''id''),
       tx_transactionId = opt_str t ''transactionId'',
       tx_transactionIdScope = normalizeTransactionIdScope (jprop t ''transactionIdScope''),
       tx_merchant = js_string (nullish (nullish (jprop t ''merchant'') (jprop t ''notes'')) (JStr ''Transaction'')),
       tx_category = str_or t ''category'' type,
       tx_occurredAt = js_string (jprop t ''occurredAt''),
       tx_createdAt = opt_str t ''createdAt'',
       tx_amount = money_of (num_or0 t ''amountMinor'') (str_or t ''currency'' ''INR''),
       tx_direction = (if type = ''income'' \<or> type = ''refund'' \<or> type = ''reimbursement'' then Credit else Debit),
       tx_status = Cleared,
       tx_accountId = str_or t ''accountId'' [],
       tx_destinationAccountId = opt_str t ''destinationAccountId'',
       tx_rawType = normalizeTransactionType type,
       tx_privacy = normalizeRecordPrivacy (jprop t ''privacy''),
       tx_hasSplits = (jprop t ''hasSplits'' = JBool True \<or>
          (is_array (jprop t ''splits'') \<and> array_items (jprop t ''splits'') \<noteq> [])),
       tx_goalId = opt_str t ''goalId'',
       tx_creator = normalizeCreatorSummary (jprop t ''creator''),
       tx_note = opt_str t ''notes'',
       tx_description = opt_str t ''description'',
       tx_contactId = opt_str t ''contactId'',
       tx_contact = (if isRecord (jprop t ''contact'') \<or> is_array (jprop t ''contact'')
          then Some (jprop t ''contact'') else None),
       tx_imported = (jprop t ''imported'' = JBool True),
       tx_cleared = (jprop t ''cleared'' = JBool True),
       tx_automation = normalize_automation (jprop t ''automation'') \<rparr>)"

definition is_number :: "json \<Rightarrow> bool" where
  "is_number v = (case v of JNum _ \<Rightarrow> True | _ \<Rightarrow> False)"

definition strings_of :: "json \<Rightarrow> string list" where
  "strings_of v = concat (map (\<lambda>x. case x of JStr s \<Rightarrow> [s] | _ \<Rightarrow> []) (array_items v))"

definition normalize_budget :: "json \<Rightarrow> budget" where
  "normalize_budget b =
     \<lparr> bg_id = js_string (jprop b ''id''),
       bg_name = js_string (jprop b ''name''),
       bg_spent = money_of (if is_number (jprop b ''spentMinor'') then js_number (jprop b ''spentMinor'') else 0)
          (str_or b ''currency'' ''INR''),
       bg_limit = money_of (num_or0 b ''amountMinor'') (str_or b ''currency'' ''INR''),
       bg_period = str_or b ''period'' ''Current period'',
       bg_spendingKnown = is_number (jprop b ''spentMinor''),
       bg_categories = strings_of (jprop b ''categories''),
       bg_rollover = truthy (jprop b ''rollover''),
       bg_startAt = opt_str b ''startAt'',
       bg_endAt = opt_str b ''endAt'' \<rparr>"

definition normalize_history_entry :: "json \<Rightarrow> goal_history_entry" where
  "normalize_history_entry e =
     \<lparr> gh_action = str_or e ''action'' ''updated'',
       gh_actorId = opt_str e ''actorId'',
       gh_amountMinor = opt_num e ''amountMinor'',
       gh_date = opt_str e ''date'',
       gh_createdAt = str_or e ''createdAt'' [] \<rparr>"

definition normalize_goal :: "json \<Rightarrow> goal" where
  "normalize_goal g =
     \<lparr> gl_id = js_string (jprop g ''id''),
       gl_name = js_string (jprop g ''name''),
       gl_saved = money_of (num_or0 g ''currentMinor'') (str_or g ''currency'' ''INR''),
       gl_target = money_of (num_or0 g ''targetMinor'') (str_or g ''currency'' ''INR''),
       gl_targetDate = str_or g ''targetDate'' [],
       gl_description = opt_str g ''description'',
       gl_type = opt_str g ''type'',
       gl_customType = opt_str g ''customType'',
       gl_direction = normalizeGoalDirection (jprop g ''direction''),
       gl_remaining = money_of (js_number (nullish (jprop g ''remainingMinor'')
            (JNum (js_max (js_sub (num_or0 g ''targetMinor'') (num_or0 g ''currentMinor'')) 0))))
          (str_or g ''currency'' ''INR''),
       gl_startDate = opt_str g ''startDate'',
       gl_dueDate = opt_str g ''dueDate'',
       gl_status = normalizeGoalStatus (jprop g ''status''),
       gl_visibility = normalizeGoalVisibility (jprop g ''visibility''),
       gl_contactId = opt_str g ''contactId'',
       gl_contactName = opt_str g ''contactName'',
       gl_contact = normalizeContactSummary (jprop g ''contact''),
       gl_accountId = opt_str g ''accountId'',
       gl_category = opt_str g ''category'',
       gl_reminder = opt_str g ''reminder'',
       gl_notes = opt_str g ''notes'',
       gl_cancelledAt = opt_str g ''cancelledAt'',
       gl_completionDate = opt_str g ''completionDate'',
       gl_linkedTransactionIds = strings_of (jprop g ''linkedTransactionIds''),
       gl_createdBySummary = normalizeCreatorSummary (jprop g ''createdBySummary''),
       gl_history = map normalize_history_entry (filter isRecord (array_items (jprop g ''history''))) \<rparr>"

definition normalize_bill :: "json \<Rightarrow> bill" where
  "normalize_bill b =
     \<lparr> bl_id = js_string (jprop b ''id''),
       bl_name = str_or b ''name'' ''Upcoming bill'',
       bl_dueDate = str_or b ''dueDate'' [],
       bl_amount = money_of (num_or0 b ''amountMinor'') (str_or b ''currency'' ''INR''),
       bl_autopay = truthy (jprop b ''autopay''),
       bl_frequency = opt_str b ''frequency'' \<rparr>"

definition normalize_claim :: "json \<Rightarrow> finance_claim" where
  "normalize_claim c =
     (let reimbursementStatus = str_or c ''reimbursementStatus'' ''not_reimbursed'';
          rawStatus = str_or c ''status'' ''pending'';
          status = (if reimbursementStatus = ''reimbursed'' then ''Reimbursed''
                    else if rawStatus = ''pending'' then ''Needs approval''
                    else friendlyLabel rawStatus) in
     \<lparr> fc_id = js_string (jprop c ''id''),
       fc_person = ''Workspace member'',
       fc_purpose = str_or c ''description'' ''Expense claim'',
       fc_amount = money_of (num_or0 c ''amountMinor'') (str_or c ''currency'' ''INR''),
       fc_status = status,
       fc_rawStatus = rawStatus,
       fc_reimbursementStatus = reimbursementStatus,
       fc_submittedBy = opt_str c ''submittedBy'',
       fc_approvalComment = opt_str c ''approvalComment'' \<rparr>)"

text \<open>The first field access on an element throws when the element is null or undefined.\<close>

definition on_item :: "(json \<Rightarrow> 'a) \<Rightarrow> json \<Rightarrow> js_error + 'a" where
  "on_item f item = (if is_nullish item then Inl TypeError else Inr (f item))"

definition normalize_transactions :: "json list \<Rightarrow> js_error + transaction list" where
  "normalize_transactions items = map_result (on_item normalize_transaction) items"

definition normalize_analytics :: "json \<Rightarrow> dashboard_analytics" where
  "normalize_analytics r =
     \<lparr> an_byCategory = normalizeDashboardCategories (jprop r ''byCategory''),
       an_bySource = normalizeDashboardCategories (jprop r ''bySource''),
       an_byContact = normalizeDashboardContacts (jprop r ''byContact''),
       an_byAccount = normalizeDashboardAccounts (jprop r ''byAccount''),
       an_byType = normalizeDashboardCategories (jprop r ''byType''),
       an_cashflow = normalizeDashboardCashflow (jprop r ''cashflow''),
       an_monthlyTrend = normalizeDashboardCashflow (jprop r ''monthlyTrend''),
       an_recentActivity = normalizeDashboardActivity (jprop r ''recentActivity''),
       an_topCategories = normalizeDashboardCategories (jprop r ''topCategories''),
       an_monthDetails = normalizeDashboardMonthDetails (jprop r ''monthDetails'') \<rparr>"

definition dashboard_of :: "json \<Rightarrow> transaction list \<Rightarrow> dashboard" where
  "dashboard_of r recent = dashboard_analytics.extend (normalize_analytics r)
     (dashboard.fields
       (str_or r ''currency'' ''INR'')
       (num_or0 r ''balanceMinor'')
       (num_or0 r ''incomeMinor'')
       (num_or0 r ''spendingMinor'')
       (num_or0 r ''transactionCount'')
       (num_or0 r ''averageValueMinor'')
       (num_or0 r ''highestIncomeMinor'')
       (num_or0 r ''highestExpenseMinor'')
       (num_or0 r ''amountReceivedMinor'')
       (num_or0 r ''amountPaidMinor'')
       (num_or0 r ''pendingGoalMinor'')
       (num_or0 r ''achievedGoalMinor'')
       (normalizeDashboardGoalSummary (jprop r ''goalSummary''))
       (normalizeDashboardGoalSummary (jprop r ''allActiveGoals''))
       (normalizeDashboardGoalItems (jprop r ''goalHighlights''))
       (normalizeDashboardInsights (jprop r ''insights''))
       (normalizeDashboardComparison (jprop r ''previousComparison''))
       recent
       (num_or0 r ''pendingApprovals'')
       (num_or0 r ''unreadNotifications''))"

section \<open>The dispatch on the query key\<close>

datatype finance_data =
    Raw_data json
  | No_data
  | Dashboard_data dashboard
  | Accounts_data "account list"
  | Transactions_data "transaction list"
  | Transaction_data transaction
  | Budgets_data "budget list"
  | Goals_data "goal list"
  | Goal_data goal
  | Bills_data "bill list"
  | Claims_data "finance_claim list"

definition normalizeFinanceData :: "string \<Rightarrow> json \<Rightarrow> js_error + finance_data" where
  "normalizeFinanceData key response =
     (if key = ''dashboard'' \<and> isRecord response then
        bind_result (normalize_transactions (array_items (jprop response ''recentTransactions'')))
          (\<lambda>recent. Inr (Dashboard_data (dashboard_of response recent)))
      else if key = ''transaction'' then
        (if \<not> isRecord response then Inr No_data
         else bind_result (normalize_transactions [response])
           (\<lambda>ts. Inr (case ts of [] \<Rightarrow> No_data | t # _ \<Rightarrow> Transaction_data t)))
      else if key = ''goal'' then
        (if \<not> isRecord response then Inr No_data
         else bind_result (map_result (on_item normalize_goal) [response])
           (\<lambda>gs. Inr (case gs of [] \<Rightarrow> No_data | g # _ \<Rightarrow> Goal_data g)))
      else (case response of
        JArr items \<Rightarrow>
          (if key = ''accounts'' then
             bind_result (map_result (on_item normalize_account) items) (\<lambda>xs. Inr (Accounts_data xs))
           else if key = ''transactions'' then
             bind_result (normalize_transactions items) (\<lambda>xs. Inr (Transactions_data xs))
           else if key = ''budgets'' then
             bind_result (map_result (on_item normalize_budget) items) (\<lambda>xs. Inr (Budgets_data xs))
           else if key = ''goals'' then
             bind_result (map_result (on_item normalize_goal) items) (\<lambda>xs. Inr (Goals_data xs))
           else if key = ''bills'' then
             bind_result (map_result (on_item normalize_bill) items) (\<lambda>xs. Inr (Bills_data xs))
           else if key = ''claims'' then
             bind_result (map_result (on_item normalize_claim) items) (\<lambda>xs. Inr (Claims_data xs))
           else Inr (Raw_data response))
        | _ \<Rightarrow> Inr (Raw_data response)))"

text \<open>The query function of \<open>useFinanceData\<close>: the demo workspace answers from its fallback.\<close>

definition finance_query ::
  "bool \<Rightarrow> string \<Rightarrow> finance_data \<Rightarrow> js_error + json \<Rightarrow> js_error + finance_data" where
  "finance_query demoMode key fallback response =
     (if demoMode then Inr fallback else bind_result response (normalizeFinanceData key))"

section \<open>Permissions\<close>

definition includes_permission :: "string list option \<Rightarrow> string \<Rightarrow> bool" where
  "includes_permission permissions permission =
     (case permissions of None \<Rightarrow> False | Some ps \<Rightarrow> permission \<in> set ps)"

definition hasWorkspacePermission :: "bool \<Rightarrow> string list option \<Rightarrow> string \<Rightarrow> bool" where
  "hasWorkspacePermission demoMode permissions permission =
     (demoMode \<or> includes_permission permissions permission)"

definition is_own :: "creator_summary option \<Rightarrow> bool" where
  "is_own creator = (case creator of None \<Rightarrow> False | Some c \<Rightarrow> cr_isCurrentUser c)"

definition canDeleteTransaction :: "bool \<Rightarrow> string list option \<Rightarrow> creator_summary option \<Rightarrow> bool" where
  "canDeleteTransaction demoMode permissions creator =
     (if demoMode \<or> includes_permission permissions ''delete_all_transactions'' then True
      else includes_permission permissions ''delete_own_transactions'' \<and> is_own creator)"

definition canEditTransaction :: "bool \<Rightarrow> string list option \<Rightarrow> creator_summary option \<Rightarrow> bool" where
  "canEditTransaction demoMode permissions creator =
     (if demoMode \<or> includes_permission permissions ''edit_all_transactions'' then True
      else includes_permission permissions ''edit_own_transactions'' \<and> is_own creator)"

section \<open>The shared contract of the ownership guards\<close>

text \<open>
  Deleting and editing follow one rule: one permission covers every transaction, another only
  the member's own, and the demo workspace allows everything.
\<close>

locale ownership_guard =
  fixes guard :: "bool \<Rightarrow> string list option \<Rightarrow> creator_summary option \<Rightarrow> bool"
    and all_permission :: string
    and own_permission :: string
  assumes guard_rule: "guard demo ps c \<longleftrightarrow> demo \<or> includes_permission ps all_permission
      \<or> (includes_permission ps own_permission \<and> is_own c)"
begin

lemma guard_needs_grant: "guard False ps c \<Longrightarrow> \<exists>qs. ps = Some qs \<and> (all_permission \<in> set qs \<or> own_permission \<in> set qs)"
  by (cases ps) (auto simp: guard_rule includes_permission_def)

lemma guard_foreign: "\<not> is_own c \<Longrightarrow> guard False ps c = includes_permission ps all_permission"
  by (simp add: guard_rule)

lemma guard_mono: "set ps \<subseteq> set qs \<Longrightarrow> guard demo (Some ps) c \<Longrightarrow> guard demo (Some qs) c"
  by (auto simp: guard_rule includes_permission_def)

end

interpretation delete_guard: ownership_guard canDeleteTransaction
    "''delete_all_transactions''" "''delete_own_transactions''"
  by unfold_locales (auto simp: canDeleteTransaction_def)

interpretation edit_guard: ownership_guard canEditTransaction
    "''edit_all_transactions''" "''edit_own_transactions''"
  by unfold_locales (auto simp: canEditTransaction_def)

section \<open>Facts\<close>

lemma map_result_on_item:
  "map_result (on_item f) items =
   (if list_ex is_nullish items then Inl TypeError else Inr (map f items))"
  by (induction items) (auto simp: on_item_def)

lemma nonEmptyString_Some:
  "nonEmptyString v = Some s \<Longrightarrow> s \<noteq> [] \<and> js_trim s = s"
  by (auto simp: nonEmptyString_def Let_def split: json.splits if_splits)

lemma nonEmptyString_other [simp]: "nonEmptyString JUndefined = None" "nonEmptyString JNull = None"
  by (simp_all add: nonEmptyString_def)

lemma upper_char_nonempty [simp]: "upper_char c \<noteq> []"
  by (simp add: upper_char_def Let_def)

lemma initialsForName_nonempty [simp]: "initialsForName name \<noteq> []"
  by (simp add: initialsForName_def Let_def)

lemma isRecord_not_nullish: "isRecord v \<Longrightarrow> \<not> is_nullish v"
  by (auto simp: isRecord_def is_nullish_def split: json.splits)

definition collection_keys :: "string list" where
  "collection_keys = [''accounts'', ''transactions'', ''budgets'', ''goals'', ''bills'', ''claims'']"

definition has_null_item :: "json \<Rightarrow> bool" where
  "has_null_item v = list_ex is_nullish (array_items v)"

lemma finance_single:
  assumes "isRecord r"
  shows "normalizeFinanceData ''transaction'' r = Inr (Transaction_data (normalize_transaction r))"
    and "normalizeFinanceData ''goal'' r = Inr (Goal_data (normalize_goal r))"
  using isRecord_not_nullish [OF assms] assms
  by (simp_all add: normalizeFinanceData_def normalize_transactions_def map_result_on_item
      del: map_result.simps)

lemma finance_array:
  "\<exists>d. normalizeFinanceData key (JArr items) =
     (if key \<in> set collection_keys \<and> list_ex is_nullish items then Inl TypeError else Inr d)"
proof (cases "key \<in> set collection_keys")
  case True
  then have "key = ''accounts'' \<or> key = ''transactions'' \<or> key = ''budgets'' \<or>
      key = ''goals'' \<or> key = ''bills'' \<or> key = ''claims''"
    by (simp only: collection_keys_def list.set insert_iff empty_iff simp_thms)
  then show ?thesis
    by (elim disjE) (simp_all add: True normalizeFinanceData_def normalize_transactions_def
        map_result_on_item isRecord_def collection_keys_def del: map_result.simps)
next
  case False
  then show ?thesis
    by (simp add: normalizeFinanceData_def isRecord_def collection_keys_def)
qed

lemma finance_object:
  "\<exists>d. normalizeFinanceData key (JObj m) =
     (if key = ''dashboard'' \<and> has_null_item (jprop (JObj m) ''recentTransactions'')
      then Inl TypeError else Inr d)"
proof -
  have "isRecord (JObj m)" by (simp add: isRecord_def)
  note single = finance_single [OF \<open>isRecord (JObj m)\<close>]
  show ?thesis
  proof (cases "key = ''dashboard''")
    case True
    then show ?thesis
      by (simp add: normalizeFinanceData_def isRecord_def normalize_transactions_def
          map_result_on_item has_null_item_def del: map_result.simps)
  next
    case False
    then show ?thesis
      by (cases "key = ''transaction''"; cases "key = ''goal''")
         (simp_all add: single, simp_all add: normalizeFinanceData_def)
  qed
qed

lemma credit_types:
  "normalizeTransactionType v \<in> {Raw_income, Raw_refund, Raw_reimbursement} \<longleftrightarrow>
   v = ''income'' \<or> v = ''refund'' \<or> v = ''reimbursement''"
  unfolding normalizeTransactionType_def
  by (cases "v = ''income''"; cases "v = ''refund''"; cases "v = ''reimbursement''") simp_all

section \<open>Properties\<close>

text \<open>Normalizing a response fails in exactly one way: the language's TypeError, raised when a
  list of one of the six collections, or the dashboard's list of recent transactions, contains a
  null or undefined element. Every other value, whatever its shape, is normalized.\<close>

theorem finance_error_iff:
  "normalizeFinanceData key r = Inl e \<longleftrightarrow>
   e = TypeError \<and>
   ((key = ''dashboard'' \<and> isRecord r \<and> has_null_item (jprop r ''recentTransactions''))
    \<or> (key \<in> set collection_keys \<and> has_null_item r))"
proof (cases r)
  case (JArr items)
  then show ?thesis
    using finance_array [of key items]
    by (auto simp: has_null_item_def array_items_def isRecord_def split: if_splits)
next
  case (JObj m)
  then show ?thesis
    using finance_object [of key m]
    by (auto simp: has_null_item_def array_items_def isRecord_def split: if_splits)
qed (simp_all add: normalizeFinanceData_def isRecord_def has_null_item_def array_items_def)

text \<open>In a normalized transaction list, direction and type agree: an entry is a credit exactly
  when its type is income, refund or reimbursement; every entry is marked cleared, and the list has
  one entry per element of the response, in order.\<close>

theorem transactions_direction:
  assumes "normalizeFinanceData ''transactions'' (JArr items) = Inr (Transactions_data ts)"
  shows "length ts = length items \<and>
         (\<forall>t \<in> set ts. tx_status t = Cleared \<and>
           (tx_direction t = Credit \<longleftrightarrow> tx_rawType t \<in> {Raw_income, Raw_refund, Raw_reimbursement}))"
proof -
  have "ts = map normalize_transaction items"
    using assms by (simp add: normalizeFinanceData_def normalize_transactions_def
        map_result_on_item isRecord_def split: if_splits)
  moreover have "tx_status (normalize_transaction i) = Cleared \<and>
      (tx_direction (normalize_transaction i) = Credit \<longleftrightarrow>
       tx_rawType (normalize_transaction i) \<in> {Raw_income, Raw_refund, Raw_reimbursement})" for i
    using credit_types [of "str_or i ''type'' ''expense''"]
    by (simp add: normalize_transaction_def Let_def)
  ultimately show ?thesis by simp
qed

theorem transactions_direction_witness:
  "length [normalize_transaction (JObj [(''id'', JStr ''t1''), (''type'', JStr ''refund'')])] =
     length [JObj [(''id'', JStr ''t1''), (''type'', JStr ''refund'')]] \<and>
   tx_direction (normalize_transaction (JObj [(''id'', JStr ''t1''), (''type'', JStr ''refund'')])) = Credit"
proof -
  let ?r = "JObj [(''id'', JStr ''t1''), (''type'', JStr ''refund'')]"
  have "normalizeFinanceData ''transactions'' (JArr [?r]) = Inr (Transactions_data [normalize_transaction ?r])"
    by (simp add: normalizeFinanceData_def normalize_transactions_def map_result_on_item
        isRecord_def is_nullish_def del: map_result.simps)
  from transactions_direction [OF this] show ?thesis
    by (simp add: normalize_transaction_def Let_def str_or_def normalizeTransactionType_def)
qed

text \<open>Outside the demo workspace nobody deletes or edits a transaction without a grant: a member
  who did not create it needs the permission that covers all transactions, and with no permission
  list at all every attempt is refused. More permissions never take a right away.\<close>

theorem transaction_guards:
  "(\<not> is_own c \<longrightarrow>
      canDeleteTransaction False ps c = includes_permission ps ''delete_all_transactions'' \<and>
      canEditTransaction False ps c = includes_permission ps ''edit_all_transactions'') \<and>
   \<not> canDeleteTransaction False None c \<and> \<not> canEditTransaction False None c \<and>
   (set xs \<subseteq> set ys \<longrightarrow>
      (canDeleteTransaction demo (Some xs) c \<longrightarrow> canDeleteTransaction demo (Some ys) c) \<and>
      (canEditTransaction demo (Some xs) c \<longrightarrow> canEditTransaction demo (Some ys) c))"
  using delete_guard.guard_foreign edit_guard.guard_foreign
    delete_guard.guard_needs_grant [of None c] edit_guard.guard_needs_grant [of None c]
    delete_guard.guard_mono edit_guard.guard_mono
  by blast

theorem transaction_guards_witness:
  "canDeleteTransaction False (Some [''view_transactions'']) None = False \<and>
   \<not> canDeleteTransaction False None None"
  using transaction_guards [of None "Some [''view_transactions'']" "[]" "[]" False]
  by (simp add: is_own_def includes_permission_def)

text \<open>A creator summary always has something to show: its name and initials are not empty, the
  name is trimmed, the member counts as the current user only when the response says literally
  true, and a member whose status is missing or unknown is shown as a former member.\<close>

theorem creator_summary_shape:
  assumes "normalizeCreatorSummary v = Some c"
  shows "cr_name c \<noteq> [] \<and> js_trim (cr_name c) = cr_name c \<and> cr_initials c \<noteq> [] \<and>
         (cr_isCurrentUser c \<longleftrightarrow> jprop v ''isCurrentUser'' = JBool True) \<and>
         (jprop v ''status'' = JUndefined \<longrightarrow> cr_status c = Former_member)"
proof -
  have d: "js_trim ''Former member'' = ''Former member''" "js_trim ''Workspace member'' = ''Workspace member''"
    by code_simp+
  from assms d show ?thesis
    by (simp add: normalizeCreatorSummary_def Let_def split: if_splits option.splits)
       (auto simp: normalizeCreatorStatus_def dest: nonEmptyString_Some)
qed

theorem creator_summary_shape_witness:
  "\<exists>c. normalizeCreatorSummary (JObj [(''name'', JStr '' Asha '')]) = Some c \<and>
       cr_name c \<noteq> [] \<and> cr_status c = Former_member"
proof -
  have "normalizeCreatorSummary (JObj [(''name'', JStr '' Asha '')]) \<noteq> None"
    by (simp add: normalizeCreatorSummary_def isRecord_def Let_def)
  then obtain c where c: "normalizeCreatorSummary (JObj [(''name'', JStr '' Asha '')]) = Some c" by auto
  from creator_summary_shape [OF c] c show ?thesis by simp
qed

text \<open>The remaining amount of a goal that the server did not send is computed from target and
  progress and never negative: it is the shortfall, or nothing once the goal is overshot.\<close>

theorem goal_remaining:
  assumes "is_nullish (jprop g ''remainingMinor'')"
    and "num_or0 g ''targetMinor'' = Fin t" and "num_or0 g ''currentMinor'' = Fin c"
  shows "amountMinor (gl_remaining (normalize_goal g)) = Fin (max (t - c) 0)"
  using assms
  by (auto simp: normalize_goal_def money_of_def nullish_def js_max_def zero_jsnum_def max_def)

theorem goal_remaining_witness:
  "amountMinor (gl_remaining (normalize_goal
     (JObj [(''targetMinor'', JNum (Fin 500)), (''currentMinor'', JNum (Fin 800))]))) = Fin 0"
  using goal_remaining [of "JObj [(''targetMinor'', JNum (Fin 500)), (''currentMinor'', JNum (Fin 800))]" 500 800]
  by (simp add: num_or0_def is_nullish_def)

end
