(* ===== verification/CivilDate.thy ===== *)
theory CivilDate
  imports JsValues
begin

text \<open>
  The part of the language's \<open>Date\<close> the program uses, in UTC. A \<open>Date\<close> object is its time value
  in milliseconds since 1970, or \<open>None\<close> for an invalid date (the time value NaN). Days, years,
  months and days of the month are computed as the language specification defines them; the
  lemmas show that the conversions between day numbers and civil dates are inverse.
\<close>

section \<open>Days, years and months\<close>

type_synonym date = "int option"

definition ms_per_day :: int where
  "ms_per_day = 86400000"

definition is_leap :: "int \<Rightarrow> bool" where
  "is_leap y = ((4 dvd y \<and> \<not> 100 dvd y) \<or> 400 dvd y)"

definition leap_days :: "int \<Rightarrow> int" where
  "leap_days y = (if is_leap y then 1 else 0)"

definition day_from_year :: "int \<Rightarrow> int" where
  "day_from_year y =
     365 * (y - 1970) + (y - 1969) div 4 - (y - 1901) div 100 + (y - 1601) div 400"

text \<open>Days before month \<open>m\<close> (0 for January), \<open>l\<close> is 1 in a leap year.\<close>

definition days_before :: "int \<Rightarrow> int \<Rightarrow> int" where
  "days_before l m =
     (if m = 0 then 0 else if m = 1 then 31 else if m = 2 then 59 + l else if m = 3 then 90 + l
      else if m = 4 then 120 + l else if m = 5 then 151 + l else if m = 6 then 181 + l
      else if m = 7 then 212 + l else if m = 8 then 243 + l else if m = 9 then 273 + l
      else if m = 10 then 304 + l else 334 + l)"

definition month_in_year :: "int \<Rightarrow> int \<Rightarrow> int" where
  "month_in_year l n =
     (if n < 31 then 0 else if n < 59 + l then 1 else if n < 90 + l then 2
      else if n < 120 + l then 3 else if n < 151 + l then 4 else if n < 181 + l then 5
      else if n < 212 + l then 6 else if n < 243 + l then 7 else if n < 273 + l then 8
      else if n < 304 + l then 9 else if n < 334 + l then 10 else 11)"

definition days_in_month :: "int \<Rightarrow> int \<Rightarrow> int" where
  "days_in_month l m =
     (if m = 1 then 28 + l else if m = 3 \<or> m = 5 \<or> m = 8 \<or> m = 10 then 30 else 31)"

text \<open>The year of a day: the estimate of the mean Gregorian year is off by at most one.\<close>

definition year_of_day :: "int \<Rightarrow> int" where
  "year_of_day d =
     (let y = 1970 + (d * 400) div 146097 in
      if d < day_from_year y then y - 1 else if day_from_year (y + 1) \<le> d then y + 1 else y)"

definition month_of_day :: "int \<Rightarrow> int" where
  "month_of_day d = (let y = year_of_day d in month_in_year (leap_days y) (d - day_from_year y))"

definition date_of_day :: "int \<Rightarrow> int" where
  "date_of_day d = (let y = year_of_day d; n = d - day_from_year y in
     n - days_before (leap_days y) (month_in_year (leap_days y) n) + 1)"

text \<open>The specification's \<open>MakeDay\<close>: months outside 0 to 11 carry into the year.\<close>

definition make_day :: "int \<Rightarrow> int \<Rightarrow> int \<Rightarrow> int" where
  "make_day y m dt = (let ym = y + m div 12 in
     day_from_year ym + days_before (leap_days ym) (m mod 12) + dt - 1)"

section \<open>Dates\<close>

definition time_clip :: "int \<Rightarrow> date" where
  "time_clip t = (if \<bar>t\<bar> \<le> 8640000000000000 then Some t else None)"

definition date_UTC :: "int \<Rightarrow> int \<Rightarrow> int \<Rightarrow> date" where
  "date_UTC y m dt = time_clip (ms_per_day * make_day (if 0 \<le> y \<and> y \<le> 99 then 1900 + y else y) m dt)"

definition day_of_time :: "int \<Rightarrow> int" where
  "day_of_time t = t div ms_per_day"

definition utc_year :: "date \<Rightarrow> int option" where
  "utc_year = map_option (\<lambda>t. year_of_day (day_of_time t))"

definition utc_month :: "date \<Rightarrow> int option" where
  "utc_month = map_option (\<lambda>t. month_of_day (day_of_time t))"

definition utc_date :: "date \<Rightarrow> int option" where
  "utc_date = map_option (\<lambda>t. date_of_day (day_of_time t))"

definition utc_day :: "date \<Rightarrow> int option" where
  "utc_day = map_option (\<lambda>t. (4 + day_of_time t) mod 7)"

definition set_utc_date :: "date \<Rightarrow> int option \<Rightarrow> date" where
  "set_utc_date date dt = (case (date, dt) of
       (Some t, Some k) \<Rightarrow> time_clip (ms_per_day * make_day (year_of_day (day_of_time t))
           (month_of_day (day_of_time t)) k + t mod ms_per_day)
     | _ \<Rightarrow> None)"

definition set_utc_month :: "date \<Rightarrow> int option \<Rightarrow> date" where
  "set_utc_month date m = (case (date, m) of
       (Some t, Some k) \<Rightarrow> time_clip (ms_per_day * make_day (year_of_day (day_of_time t))
           k (date_of_day (day_of_time t)) + t mod ms_per_day)
     | _ \<Rightarrow> None)"

text \<open>\<open>String(n)\<close> for a field of a date, NaN for an invalid one.\<close>

definition field_string :: "int option \<Rightarrow> string" where
  "field_string x = (case x of None \<Rightarrow> ''NaN'' | Some i \<Rightarrow> int_string i)"

section \<open>Facts\<close>

lemma div_bounds: "(0::int) < n \<Longrightarrow> n * (a div n) \<le> a \<and> a < n * (a div n) + n"
  by (metis add.commute add_less_cancel_left mult_div_mod_eq pos_mod_bound pos_mod_sign
      le_add_same_cancel1)

lemma div_succ:
  assumes "(0::int) < n"
  shows "(a + 1) div n = a div n + (if n dvd a + 1 then 1 else 0)"
proof (cases "n dvd a + 1")
  case True
  then obtain k where k: "a + 1 = n * k" by (auto simp: dvd_def)
  then have "a = n * (k - 1) + (n - 1)" by (simp add: algebra_simps)
  then have "a div n = k - 1" using assms by simp
  with k True assms show ?thesis by simp
next
  case False
  define q r where "q = a div n" and "r = a mod n"
  have a: "a = n * q + r" "0 \<le> r" "r < n" using assms by (simp_all add: q_def r_def)
  have "r + 1 \<noteq> n"
  proof
    assume "r + 1 = n"
    then have "a + 1 = n * (q + 1)" using a by (simp add: algebra_simps)
    with False show False by simp
  qed
  with a have "r + 1 < n" by simp
  then have "(a + 1) div n = q" using a assms
    by (intro int_div_pos_eq [of _ _ _ "r + 1"]) auto
  with False show ?thesis by (simp add: q_def)
qed

lemma day_from_year_succ: "day_from_year (y + 1) = day_from_year y + 365 + leap_days y"
proof -
  have d4: "(y + 1 - 1969) div 4 = (y - 1969) div 4 + (if 4 dvd y then 1 else 0)"
  proof -
    have "4 dvd y - 1969 + 1 \<longleftrightarrow> 4 dvd y" by presburger
    then show ?thesis using div_succ [of 4 "y - 1969"] by (simp add: algebra_simps)
  qed
  have d100: "(y + 1 - 1901) div 100 = (y - 1901) div 100 + (if 100 dvd y then 1 else 0)"
  proof -
    have "100 dvd y - 1901 + 1 \<longleftrightarrow> 100 dvd y" by presburger
    then show ?thesis using div_succ [of 100 "y - 1901"] by (simp add: algebra_simps)
  qed
  have d400: "(y + 1 - 1601) div 400 = (y - 1601) div 400 + (if 400 dvd y then 1 else 0)"
  proof -
    have "400 dvd y - 1601 + 1 \<longleftrightarrow> 400 dvd y" by presburger
    then show ?thesis using div_succ [of 400 "y - 1601"] by (simp add: algebra_simps)
  qed
  have "100 dvd y \<Longrightarrow> 4 dvd y" "400 dvd y \<Longrightarrow> 100 dvd y"
    by (auto elim: dvd_trans [rotated])
  then show ?thesis
    unfolding day_from_year_def d4 d100 d400 leap_days_def is_leap_def by auto
qed

lemma leap_days_cases: "leap_days y = 0 \<or> leap_days y = 1"
  by (simp add: leap_days_def)

lemma leap_days_range: "0 \<le> leap_days y" "leap_days y \<le> 1"
  by (simp_all add: leap_days_def)

lemma day_from_year_bounds:
  "146097 * (y - 1970) - 506 \<le> 400 * day_from_year y"
  "400 * day_from_year y \<le> 146097 * (y - 1970) + 589"
  using div_bounds [of 4 "y - 1969"] div_bounds [of 100 "y - 1901"] div_bounds [of 400 "y - 1601"]
  by (simp_all add: day_from_year_def)

text \<open>The year found is the one whose days contain the day.\<close>

lemma year_of_day_bounds:
  "day_from_year (year_of_day d) \<le> d \<and> d < day_from_year (year_of_day d + 1)"
proof -
  define y where "y = 1970 + (d * 400) div 146097"
  have q: "146097 * (y - 1970) \<le> d * 400" "d * 400 < 146097 * (y - 1970) + 146097"
    using div_bounds [of 146097 "d * 400"] by (simp_all add: y_def)
  have lo: "day_from_year (y - 1) \<le> d"
    using day_from_year_bounds(2) [of "y - 1"] q(1) by simp
  have hi: "d < day_from_year (y + 2)"
    using day_from_year_bounds(1) [of "y + 2"] q(2) by simp
  show ?thesis
    using lo hi by (auto simp: year_of_day_def y_def [symmetric] Let_def add.assoc)
qed

lemma day_from_year_mono_strict: "day_from_year y < day_from_year (y + 1)"
  using day_from_year_succ [of y] leap_days_range [of y] by simp

lemma day_from_year_mono: "y \<le> z \<Longrightarrow> day_from_year y \<le> day_from_year z"
proof (induction z rule: int_ge_induct)
  case base
  then show ?case by simp
next
  case (step i)
  then show ?case using day_from_year_mono_strict [of i] by simp
qed

lemma year_of_day_unique:
  assumes "day_from_year y \<le> d" "d < day_from_year (y + 1)"
  shows "year_of_day d = y"
proof (rule ccontr)
  assume "year_of_day d \<noteq> y"
  then consider "year_of_day d + 1 \<le> y" | "y + 1 \<le> year_of_day d" by linarith
  then show False
  proof cases
    case 1
    with day_from_year_mono [OF 1] year_of_day_bounds [of d] assms show False by simp
  next
    case 2
    with day_from_year_mono [OF 2] year_of_day_bounds [of d] assms show False by simp
  qed
qed

lemma month_cases: "0 \<le> (m::int) \<Longrightarrow> m < 12 \<Longrightarrow>
    m = 0 \<or> m = 1 \<or> m = 2 \<or> m = 3 \<or> m = 4 \<or> m = 5 \<or> m = 6 \<or> m = 7 \<or> m = 8 \<or> m = 9 \<or> m = 10 \<or> m = 11"
  by presburger

lemma month_in_year_days_before:
  assumes "l = 0 \<or> l = 1" "0 \<le> m" "m < 12" "1 \<le> dt" "dt \<le> days_in_month l m"
  shows "month_in_year l (days_before l m + dt - 1) = m"
  using month_cases [OF assms(2,3)] assms(1,4,5)
  by (elim disjE) (simp_all add: month_in_year_def days_before_def days_in_month_def)

lemma days_before_bound:
  assumes "l = 0 \<or> l = 1" "0 \<le> m" "m < 12" "1 \<le> dt" "dt \<le> days_in_month l m"
  shows "0 \<le> days_before l m + dt - 1 \<and> days_before l m + dt - 1 < 365 + l"
  using month_cases [OF assms(2,3)] assms(1,4,5)
  by (elim disjE) (simp_all add: days_before_def days_in_month_def)

lemma month_in_year_range: "0 \<le> month_in_year l n \<and> month_in_year l n < 12"
  by (simp add: month_in_year_def)

lemma date_in_month_range:
  assumes "l = 0 \<or> l = 1" "0 \<le> n" "n < 365 + l"
  shows "1 \<le> n - days_before l (month_in_year l n) + 1 \<and>
         n - days_before l (month_in_year l n) + 1 \<le> days_in_month l (month_in_year l n)"
  using assms by (auto simp: month_in_year_def days_before_def days_in_month_def)

lemma civil_of_day:
  "0 \<le> month_of_day d \<and> month_of_day d < 12 \<and> 1 \<le> date_of_day d \<and>
   date_of_day d \<le> days_in_month (leap_days (year_of_day d)) (month_of_day d)"
proof -
  let ?y = "year_of_day d"
  have "0 \<le> d - day_from_year ?y" "d - day_from_year ?y < 365 + leap_days ?y"
    using year_of_day_bounds [of d] day_from_year_succ [of ?y] by simp_all
  from date_in_month_range [OF leap_days_cases this] show ?thesis
    by (simp add: month_of_day_def date_of_day_def Let_def month_in_year_range)
qed

text \<open>A day number is the day number of its civil date.\<close>

lemma make_day_civil: "make_day (year_of_day d) (month_of_day d) (date_of_day d) = d"
  using civil_of_day [of d]
  by (simp add: make_day_def Let_def) (simp add: month_of_day_def date_of_day_def Let_def)

text \<open>A civil date that exists is the civil date of its day number.\<close>

lemma civil_make_day:
  assumes "0 \<le> m" "m < 12" "1 \<le> dt" "dt \<le> days_in_month (leap_days y) m"
  shows "year_of_day (make_day y m dt) = y" "month_of_day (make_day y m dt) = m"
    "date_of_day (make_day y m dt) = dt"
proof -
  have m: "make_day y m dt = day_from_year y + (days_before (leap_days y) m + dt - 1)"
    using assms by (simp add: make_day_def Let_def)
  note b = days_before_bound [OF leap_days_cases assms]
  show y: "year_of_day (make_day y m dt) = y"
    using b m day_from_year_succ [of y] by (intro year_of_day_unique) simp_all
  note mm = month_in_year_days_before [OF leap_days_cases assms]
  show "month_of_day (make_day y m dt) = m"
    unfolding month_of_day_def Let_def y by (simp add: m mm)
  show "date_of_day (make_day y m dt) = dt"
    unfolding date_of_day_def Let_def y by (simp add: m mm)
qed

lemma make_day_add: "make_day y m (dt + k) = make_day y m dt + k"
  by (simp add: make_day_def Let_def)

lemma day_of_time_mult [simp]: "day_of_time (ms_per_day * d) = d"
  by (simp add: day_of_time_def ms_per_day_def)

text \<open>The days whose dates have a year from \<open>a\<close> to \<open>b\<close>.\<close>

lemma year_of_day_between:
  "a \<le> year_of_day d \<longleftrightarrow> day_from_year a \<le> d"
  "year_of_day d \<le> b \<longleftrightarrow> d < day_from_year (b + 1)"
proof -
  show "a \<le> year_of_day d \<longleftrightarrow> day_from_year a \<le> d"
  proof
    assume "a \<le> year_of_day d"
    with day_from_year_mono show "day_from_year a \<le> d" using year_of_day_bounds [of d] by fastforce
  next
    assume a: "day_from_year a \<le> d"
    show "a \<le> year_of_day d"
    proof (rule ccontr)
      assume "\<not> a \<le> year_of_day d"
      then have "year_of_day d + 1 \<le> a" by simp
      with day_from_year_mono [OF this] year_of_day_bounds [of d] a show False by simp
    qed
  qed
  then show "year_of_day d \<le> b \<longleftrightarrow> d < day_from_year (b + 1)"
    using year_of_day_bounds [of d] day_from_year_mono [of "year_of_day d + 1" "b + 1"]
      day_from_year_mono [of "b + 1" "year_of_day d"] by force
qed

end
