(* ===== verification/DateOnly.thy ===== *)
theory DateOnly
  imports CivilDate
begin

text \<open>
  Calendar days without a time, \<open>web/src/lib/date-only.ts\<close>: strings of the form YYYY-MM-DD,
  their validation and their arithmetic in the UTC calendar. The functions that throw on a
  malformed day return the language's TypeError.
\<close>

section \<open>Definitions\<close>

type_synonym parts = "int \<times> int \<times> int"

text \<open>The pattern of four digits, two digits and two digits separated by hyphens.\<close>

definition match_date_only :: "string \<Rightarrow> bool" where
  "match_date_only s = (length s = 10 \<and> all_digits (take 4 s) \<and> s ! 4 = CHR ''-'' \<and>
     all_digits (take 2 (drop 5 s)) \<and> s ! 7 = CHR ''-'' \<and> all_digits (drop 8 s))"

definition year_part :: "string \<Rightarrow> int" where
  "year_part s = int (digits_value (take 4 s))"

definition month_part :: "string \<Rightarrow> int" where
  "month_part s = int (digits_value (take 2 (drop 5 s)))"

definition day_part :: "string \<Rightarrow> int" where
  "day_part s = int (digits_value (drop 8 s))"

definition partsFor :: "string \<Rightarrow> parts option" where
  "partsFor value =
     (if \<not> match_date_only value then None
      else (let year = year_part value; month = month_part value; day = day_part value;
                date = date_UTC year (month - 1) day
            in if utc_year date \<noteq> Some year \<or> utc_month date \<noteq> Some (month - 1) \<or> utc_date date \<noteq> Some day
               then None else Some (year, month, day)))"

definition pad :: "int option \<Rightarrow> string" where
  "pad value = pad_start 2 (CHR ''0'') (field_string value)"

definition dateOnlyFromParts :: "int option \<Rightarrow> int option \<Rightarrow> int option \<Rightarrow> string" where
  "dateOnlyFromParts year month day =
     field_string year @ ''-'' @ pad month @ ''-'' @ pad day"

definition dateOnlyFromUtcDate :: "date \<Rightarrow> string" where
  "dateOnlyFromUtcDate date =
     dateOnlyFromParts (utc_year date) (map_option (\<lambda>m. m + 1) (utc_month date)) (utc_date date)"

definition isDateOnly :: "string option \<Rightarrow> bool" where
  "isDateOnly value = (case value of None \<Rightarrow> False | Some s \<Rightarrow> partsFor s \<noteq> None)"

text \<open>Today in the local calendar: the local year, month (from 0) and day are the environment's.\<close>

definition todayDateOnly :: "int \<Rightarrow> int \<Rightarrow> int \<Rightarrow> string" where
  "todayDateOnly fullYear month date = dateOnlyFromParts (Some fullYear) (Some (month + 1)) (Some date)"

text \<open>\<open>parse\<close> is \<open>Date.parse\<close>, whose result for other formats the language leaves open.\<close>

definition dateOnlyFromUtc :: "(string \<Rightarrow> date) \<Rightarrow> string option \<Rightarrow> string \<Rightarrow> string" where
  "dateOnlyFromUtc parse value fallback =
     (case value of None \<Rightarrow> fallback
      | Some s \<Rightarrow> if partsFor s \<noteq> None then s
                  else if s = [] then fallback
                  else (case parse s of None \<Rightarrow> fallback | Some t \<Rightarrow> dateOnlyFromUtcDate (Some t)))"

definition toUtcDateOnly :: "string \<Rightarrow> js_error + string" where
  "toUtcDateOnly value = (case partsFor value of None \<Rightarrow> Inl TypeError
     | Some (y, m, d) \<Rightarrow> Inr (dateOnlyFromParts (Some y) (Some m) (Some d) @ ''T00:00:00.000Z''))"

definition dateOnlyToUtcDate :: "string \<Rightarrow> js_error + date" where
  "dateOnlyToUtcDate value = (case partsFor value of None \<Rightarrow> Inl TypeError
     | Some (y, m, d) \<Rightarrow> Inr (date_UTC y (m - 1) d))"

definition addDateOnlyDays :: "string \<Rightarrow> int \<Rightarrow> js_error + string" where
  "addDateOnlyDays value days = bind_result (dateOnlyToUtcDate value)
     (\<lambda>date. Inr (dateOnlyFromUtcDate (set_utc_date date (map_option (\<lambda>d. d + days) (utc_date date)))))"

definition addDateOnlyMonths :: "string \<Rightarrow> int \<Rightarrow> js_error + string" where
  "addDateOnlyMonths value months = bind_result (dateOnlyToUtcDate value)
     (\<lambda>date.
        let day = utc_date date;
            date1 = set_utc_date date (Some 1);
            date2 = set_utc_month date1 (map_option (\<lambda>m. m + months) (utc_month date1));
            lastDay = (case (utc_year date2, utc_month date2) of
                         (Some y, Some m) \<Rightarrow> utc_date (date_UTC y (m + 1) 0) | _ \<Rightarrow> None);
            date3 = set_utc_date date2
              (case (day, lastDay) of (Some a, Some b) \<Rightarrow> Some (min a b) | _ \<Rightarrow> None)
        in Inr (dateOnlyFromUtcDate date3))"

definition startOfDateOnlyMonth :: "string \<Rightarrow> js_error + string" where
  "startOfDateOnlyMonth value = bind_result (dateOnlyToUtcDate value)
     (\<lambda>date. Inr (dateOnlyFromParts (utc_year date) (map_option (\<lambda>m. m + 1) (utc_month date)) (Some 1)))"

definition dateOnlyWeekday :: "string \<Rightarrow> js_error + int option" where
  "dateOnlyWeekday value = bind_result (dateOnlyToUtcDate value) (\<lambda>date. Inr (utc_day date))"

section \<open>Facts\<close>

definition valid_civil :: "int \<Rightarrow> int \<Rightarrow> int \<Rightarrow> bool" where
  "valid_civil y m d = (1 \<le> m \<and> m \<le> 12 \<and> 1 \<le> d \<and> d \<le> days_in_month (leap_days y) (m - 1))"

text \<open>The days of the years 1000 to 9999, whose years print as four digits.\<close>

definition four_digit_day :: "int \<Rightarrow> bool" where
  "four_digit_day n = (1000 \<le> year_of_day n \<and> year_of_day n \<le> 9999)"

definition day_string :: "int \<Rightarrow> string" where
  "day_string n = dateOnlyFromUtcDate (Some (ms_per_day * n))"

lemma time_clip_day: "\<bar>n\<bar> \<le> 100000000 \<Longrightarrow> time_clip (ms_per_day * n) = Some (ms_per_day * n)"
  by (auto simp: time_clip_def ms_per_day_def abs_if split: if_splits)

lemma days_before_range: "l = 0 \<or> l = 1 \<Longrightarrow> 0 \<le> days_before l m \<and> days_before l m \<le> 335"
  by (auto simp: days_before_def)

lemma make_day_small:
  assumes "0 \<le> y" "y \<le> 12000" "- 1 \<le> m" "m \<le> 100" "0 \<le> d" "d \<le> 100"
  shows "\<bar>make_day y m d\<bar> \<le> 100000000"
proof -
  let ?ym = "y + m div 12"
  have "- 1 \<le> ?ym" "?ym \<le> 12009" using assms by auto
  with day_from_year_bounds [of ?ym] have "- 1000000 \<le> day_from_year ?ym" "day_from_year ?ym \<le> 10000000"
    by simp_all
  with days_before_range [OF leap_days_cases, of ?ym "m mod 12"] assms show ?thesis
    unfolding make_day_def Let_def by linarith
qed

lemma four_digit_day_small: "four_digit_day n \<Longrightarrow> \<bar>n\<bar> \<le> 100000000"
  using year_of_day_between [of 1000 n] year_of_day_between [of n 9999]
    day_from_year_bounds [of 1000] day_from_year_bounds [of 10000]
  by (auto simp: four_digit_day_def)

lemma pad2:
  assumes "0 \<le> i" "i < 100"
  shows "length (pad (Some i)) = 2" "all_digits (pad (Some i))" "digits_value (pad (Some i)) = nat i"
proof -
  have "length (nat_digits (nat i)) \<le> Suc 1"
    by (rule nat_digits_length_le) (use assms in simp)
  then show "length (pad (Some i)) = 2"
    using assms by (simp add: pad_def field_string_def int_string_def pad_start_length)
  show "all_digits (pad (Some i))" "digits_value (pad (Some i)) = nat i"
    using assms by (simp_all add: pad_def field_string_def int_string_def)
qed

lemma year4:
  assumes "1000 \<le> y" "y \<le> 9999"
  shows "length (field_string (Some y)) = 4" "all_digits (field_string (Some y))"
    "digits_value (field_string (Some y)) = nat y"
proof -
  have "length (nat_digits (nat y)) \<le> Suc 3"
    by (rule nat_digits_length_le) (use assms in simp)
  moreover have "3 < length (nat_digits (nat y))"
    by (rule nat_digits_length_ge) (use assms in simp)
  ultimately show "length (field_string (Some y)) = 4"
    using assms by (simp add: field_string_def int_string_def)
  show "all_digits (field_string (Some y))" "digits_value (field_string (Some y)) = nat y"
    using assms by (simp_all add: field_string_def int_string_def)
qed

lemma parts_of_printed:
  assumes "1000 \<le> y" "y \<le> 9999" "0 \<le> m" "m < 100" "0 \<le> d" "d < 100"
  defines "s \<equiv> dateOnlyFromParts (Some y) (Some m) (Some d)"
  shows "match_date_only s" "year_part s = y" "month_part s = m" "day_part s = d"
proof -
  note y = year4 [OF assms(1,2)] and m = pad2 [OF assms(3,4)] and d = pad2 [OF assms(5,6)]
  have s: "s = field_string (Some y) @ ''-'' @ pad (Some m) @ ''-'' @ pad (Some d)"
    by (simp add: s_def dateOnlyFromParts_def)
  have t: "take 4 s = field_string (Some y)" "take 2 (drop 5 s) = pad (Some m)" "drop 8 s = pad (Some d)"
    using y(1) m(1) d(1) by (simp_all add: s)
  show "match_date_only s"
    using y m d by (simp add: match_date_only_def t) (simp add: s nth_append)
  show "year_part s = y" "month_part s = m" "day_part s = d"
    unfolding year_part_def month_part_def day_part_def t
    using y(3) m(3) d(3) assms(1,3,5) by simp_all
qed

lemma match_parts_range:
  assumes "match_date_only s"
  shows "0 \<le> year_part s" "year_part s \<le> 9999" "0 \<le> month_part s" "month_part s \<le> 99"
    "0 \<le> day_part s" "day_part s \<le> 99"
proof -
  from assms have l: "length (take 4 s) = 4" "length (take 2 (drop 5 s)) = 2" "length (drop 8 s) = 2"
    and a: "all_digits (take 4 s)" "all_digits (take 2 (drop 5 s))" "all_digits (drop 8 s)"
    by (simp_all add: match_date_only_def)
  from digits_value_bound [OF a(1)] digits_value_bound [OF a(2)] digits_value_bound [OF a(3)] l
  show "0 \<le> year_part s" "year_part s \<le> 9999" "0 \<le> month_part s" "month_part s \<le> 99"
    "0 \<le> day_part s" "day_part s \<le> 99"
    by (simp_all add: year_part_def month_part_def day_part_def)
qed

lemma date_UTC_valid:
  assumes "100 \<le> y" "y \<le> 9999" "valid_civil y m d"
  shows "date_UTC y (m - 1) d = Some (ms_per_day * make_day y (m - 1) d)"
proof -
  have "d \<le> 100" using assms by (auto simp: valid_civil_def days_in_month_def leap_days_def split: if_splits)
  with assms have "\<bar>make_day y (m - 1) d\<bar> \<le> 100000000"
    by (intro make_day_small) (auto simp: valid_civil_def)
  with assms show ?thesis by (simp add: date_UTC_def time_clip_day)
qed

lemma partsFor_valid:
  assumes "match_date_only s" "100 \<le> year_part s" "valid_civil (year_part s) (month_part s) (day_part s)"
  shows "partsFor s = Some (year_part s, month_part s, day_part s)"
  using assms match_parts_range [OF assms(1)] date_UTC_valid [OF assms(2) _ assms(3)]
    civil_make_day [of "month_part s - 1" "day_part s" "year_part s"]
  by (simp add: partsFor_def Let_def utc_year_def utc_month_def utc_date_def valid_civil_def)

lemma partsFor_Some:
  assumes "partsFor s = Some (y, m, d)"
  shows "match_date_only s" "y = year_part s" "m = month_part s" "d = day_part s"
    "100 \<le> y" "y \<le> 9999" "valid_civil y m d"
proof -
  show match: "match_date_only s" and e: "y = year_part s" "m = month_part s" "d = day_part s"
    using assms by (auto simp: partsFor_def Let_def split: if_splits)
  note r = match_parts_range [OF match, folded e]
  from assms e have u: "utc_year (date_UTC y (m - 1) d) = Some y"
    "utc_month (date_UTC y (m - 1) d) = Some (m - 1)" "utc_date (date_UTC y (m - 1) d) = Some d"
    by (auto simp: partsFor_def Let_def split: if_splits)
  define z where "z = (if 0 \<le> y \<and> y \<le> 99 then 1900 + y else y)"
  define n where "n = make_day z (m - 1) d"
  have "\<bar>n\<bar> \<le> 100000000" unfolding n_def
    by (rule make_day_small) (use r in \<open>auto simp: z_def\<close>)
  then have "date_UTC y (m - 1) d = Some (ms_per_day * n)"
    unfolding date_UTC_def z_def [symmetric] n_def [symmetric] by (rule time_clip_day)
  with u have c: "year_of_day n = y" "month_of_day n = m - 1" "date_of_day n = d"
    by (simp_all add: utc_year_def utc_month_def utc_date_def)
  with civil_of_day [of n] show v: "valid_civil y m d" by (simp add: valid_civil_def)
  show "100 \<le> y"
  proof (rule ccontr)
    assume "\<not> 100 \<le> y"
    then have z: "z = 1900 + y" using r by (simp add: z_def)
    have "(m - 1) div 12 = 0" "1 \<le> d" using v by (auto simp: valid_civil_def)
    with days_before_range [OF leap_days_cases, of z "(m - 1) mod 12"]
    have "day_from_year z \<le> n" by (simp add: n_def make_day_def Let_def)
    then have "z \<le> year_of_day n" by (simp add: year_of_day_between)
    with c z show False by simp
  qed
  show "y \<le> 9999" using r by simp
qed

text \<open>A printed four-digit day is read back as the same day.\<close>

lemma partsFor_day_string:
  assumes "four_digit_day n"
  shows "partsFor (day_string n) = Some (year_of_day n, month_of_day n + 1, date_of_day n)"
proof -
  let ?y = "year_of_day n" and ?m = "month_of_day n + 1" and ?d = "date_of_day n"
  have s: "day_string n = dateOnlyFromParts (Some ?y) (Some ?m) (Some ?d)"
    by (simp add: day_string_def dateOnlyFromUtcDate_def utc_year_def utc_month_def utc_date_def)
  have v: "valid_civil ?y ?m ?d" using civil_of_day [of n] by (simp add: valid_civil_def)
  have "?d < 100" using v by (auto simp: valid_civil_def days_in_month_def leap_days_def split: if_splits)
  with v assms have r: "1000 \<le> ?y" "?y \<le> 9999" "0 \<le> ?m" "?m < 100" "0 \<le> ?d" "?d < 100"
    by (simp_all add: four_digit_day_def valid_civil_def)
  note p = parts_of_printed [OF r, folded s]
  show ?thesis
    using partsFor_valid [OF p(1)] p v r by simp
qed

lemma to_date_day_string:
  assumes "four_digit_day n"
  shows "dateOnlyToUtcDate (day_string n) = Inr (Some (ms_per_day * n))"
proof -
  have v: "valid_civil (year_of_day n) (month_of_day n + 1) (date_of_day n)"
    using civil_of_day [of n] by (simp add: valid_civil_def)
  with assms date_UTC_valid [OF _ _ v] show ?thesis
    by (simp add: dateOnlyToUtcDate_def partsFor_day_string four_digit_day_def make_day_civil)
qed

lemma printed_parts:
  assumes "partsFor s = Some (y, m, d)" "1000 \<le> y"
  shows "s = dateOnlyFromParts (Some y) (Some m) (Some d)"
proof -
  note q = partsFor_Some [OF assms(1)]
  note r = match_parts_range [OF q(1), folded q(2,3,4)]
  have b: "0 \<le> y" "m < 100" "d < 100" using r by simp_all
  have l: "length (take 4 s) = 4" "length (take 2 (drop 5 s)) = 2" "length (drop 8 s) = 2"
    and a: "all_digits (take 4 s)" "all_digits (take 2 (drop 5 s))" "all_digits (drop 8 s)"
    and h: "s ! 4 = CHR ''-''" "s ! 7 = CHR ''-''" and len: "length s = 10"
    using q(1) by (simp_all add: match_date_only_def)
  have t: "take 4 s = field_string (Some y)" "take 2 (drop 5 s) = pad (Some m)" "drop 8 s = pad (Some d)"
    using year4 [OF assms(2) q(6)] pad2 [OF r(3) b(2)] pad2 [OF r(5) b(3)] l a q(2,3,4)
    by (auto intro!: digits_value_inj simp: year_part_def month_part_def day_part_def)
  have "drop 7 s = s ! 7 # drop 8 s" "drop 4 s = s ! 4 # drop 5 s"
    using Cons_nth_drop_Suc [of 7 s] Cons_nth_drop_Suc [of 4 s] len by simp_all
  moreover have "drop 5 s = take 2 (drop 5 s) @ drop 7 s"
    using append_take_drop_id [of 2 "drop 5 s"] by simp
  moreover have "s = take 4 s @ drop 4 s" by simp
  ultimately have "s = take 4 s @ CHR ''-'' # take 2 (drop 5 s) @ CHR ''-'' # drop 8 s"
    using h by metis
  then show ?thesis by (simp add: t dateOnlyFromParts_def)
qed

text \<open>Every valid day with a four-digit year is the print of its day number.\<close>

lemma day_string_of:
  assumes "partsFor s = Some (y, m, d)" "1000 \<le> y"
  shows "s = day_string (make_day y (m - 1) d)" "four_digit_day (make_day y (m - 1) d)"
    "year_of_day (make_day y (m - 1) d) = y" "month_of_day (make_day y (m - 1) d) = m - 1"
    "date_of_day (make_day y (m - 1) d) = d"
proof -
  note q = partsFor_Some [OF assms(1)]
  show c: "year_of_day (make_day y (m - 1) d) = y" "month_of_day (make_day y (m - 1) d) = m - 1"
    "date_of_day (make_day y (m - 1) d) = d"
    using q(7) by (auto simp: valid_civil_def intro!: civil_make_day)
  show "four_digit_day (make_day y (m - 1) d)"
    unfolding four_digit_day_def c using q(6) assms(2) by simp
  show "s = day_string (make_day y (m - 1) d)"
    using printed_parts [OF assms] c
    by (simp add: day_string_def dateOnlyFromUtcDate_def utc_year_def utc_month_def utc_date_def)
qed

lemma field_string_short:
  assumes "0 \<le> y" "y < 1000"
  shows "length (field_string (Some y)) \<le> 3"
proof -
  have "length (nat_digits (nat y)) \<le> Suc 2"
    by (rule nat_digits_length_le) (use assms in simp)
  with assms show ?thesis by (simp add: field_string_def int_string_def)
qed

lemma match_printed:
  assumes "match_date_only (dateOnlyFromParts (Some y) (Some m) (Some d))"
    "0 \<le> m" "m < 100" "0 \<le> d" "d < 100"
  shows "1000 \<le> y \<and> y \<le> 9999"
proof -
  let ?s = "dateOnlyFromParts (Some y) (Some m) (Some d)"
  have len: "length ?s = length (field_string (Some y)) + 6"
    using pad2 [OF assms(2,3)] pad2 [OF assms(4,5)] by (simp add: dateOnlyFromParts_def)
  then have l4: "length (field_string (Some y)) = 4"
    using assms(1) by (simp add: match_date_only_def)
  have "0 \<le> y"
  proof (rule ccontr)
    assume "\<not> 0 \<le> y"
    then have "take 4 ?s = CHR ''-'' # take 3 (tl ?s)"
      by (simp add: dateOnlyFromParts_def field_string_def int_string_def)
    with assms(1) show False by (simp add: match_date_only_def all_digits_def is_digit_def code_of_def)
  qed
  moreover have "\<not> y < 1000" using field_string_short [of y] \<open>0 \<le> y\<close> l4 by fastforce
  moreover have "\<not> 10000 \<le> y"
  proof
    assume "10000 \<le> y"
    then have "10 ^ 4 \<le> nat y" by simp
    from nat_digits_length_ge [OF this] l4 \<open>0 \<le> y\<close> show False
      by (simp add: field_string_def int_string_def)
  qed
  ultimately show ?thesis by simp
qed

lemma addDays_general:
  assumes "four_digit_day n"
  shows "addDateOnlyDays (day_string n) k = Inr (dateOnlyFromUtcDate (time_clip (ms_per_day * (n + k))))"
  using assms
  by (simp add: addDateOnlyDays_def to_date_day_string utc_date_def set_utc_date_def make_day_add make_day_civil)

lemma clipped_print:
  assumes "isDateOnly (Some (dateOnlyFromUtcDate (time_clip (ms_per_day * n))))"
  shows "dateOnlyFromUtcDate (time_clip (ms_per_day * n)) = day_string n" "four_digit_day n"
proof -
  obtain p where p: "partsFor (dateOnlyFromUtcDate (time_clip (ms_per_day * n))) = Some p"
    using assms by (auto simp: isDateOnly_def)
  have nn: "time_clip (ms_per_day * n) \<noteq> None"
  proof
    assume "time_clip (ms_per_day * n) = None"
    then have "dateOnlyFromUtcDate (time_clip (ms_per_day * n)) = ''NaN-NaN-NaN''"
      by (simp add: dateOnlyFromUtcDate_def dateOnlyFromParts_def utc_year_def utc_month_def
          utc_date_def field_string_def pad_def pad_start_def)
    with p show False by (simp add: partsFor_def match_date_only_def)
  qed
  then have c: "time_clip (ms_per_day * n) = Some (ms_per_day * n)"
    by (simp add: time_clip_def split: if_splits)
  then show s: "dateOnlyFromUtcDate (time_clip (ms_per_day * n)) = day_string n"
    by (simp add: day_string_def)
  have e: "day_string n = dateOnlyFromParts (Some (year_of_day n)) (Some (month_of_day n + 1)) (Some (date_of_day n))"
    by (simp add: day_string_def dateOnlyFromUtcDate_def utc_year_def utc_month_def utc_date_def)
  have m: "match_date_only (day_string n)"
    using p unfolding s by (simp add: partsFor_def split: if_splits)
  have "date_of_day n < 100"
    using civil_of_day [of n] by (auto simp: days_in_month_def leap_days_def split: if_splits)
  with match_printed [OF m [unfolded e]] civil_of_day [of n] show "four_digit_day n"
    by (simp add: four_digit_day_def)
qed

lemma first_of_next_month:
  assumes "0 \<le> m" "m < 12"
  shows "make_day y (m + 1) 0 = make_day y m (days_in_month (leap_days y) m)"
  using month_cases [OF assms] day_from_year_succ [of y]
  by (elim disjE) (simp_all add: make_day_def Let_def days_before_def days_in_month_def)

lemma make_day_carry: "make_day y m d = make_day (y + m div 12) (m mod 12) d"
  by (simp add: make_day_def Let_def)

lemma set_month_of_first:
  assumes "0 \<le> m" "m < 12"
  shows "set_utc_month (Some (ms_per_day * make_day y m 1)) (Some k) = time_clip (ms_per_day * make_day y k 1)"
proof -
  have "1 \<le> days_in_month (leap_days y) m"
    using leap_days_range [of y] by (simp add: days_in_month_def)
  note c = civil_make_day [OF assms order_refl this]
  show ?thesis by (simp add: set_utc_month_def c)
qed

text \<open>
  Closed instances: the parts of a literal day are checked against the calendar, and the print of
  a day number is found from its civil date, so that no search for the year is evaluated.
\<close>

lemmas civil_eval = valid_civil_def days_in_month_def leap_days_def is_leap_def make_day_def
  Let_def days_before_def day_from_year_def

lemmas match_eval = match_date_only_def year_part_def month_part_def day_part_def string_eval

lemma day_string_make_day:
  assumes "valid_civil y m d"
  shows "day_string (make_day y (m - 1) d) = dateOnlyFromParts (Some y) (Some m) (Some d)"
proof -
  have "0 \<le> m - 1" "m - 1 < 12" "1 \<le> d" "d \<le> days_in_month (leap_days y) (m - 1)"
    using assms by (simp_all add: valid_civil_def)
  note c = civil_make_day [OF this]
  show ?thesis
    by (simp add: day_string_def dateOnlyFromUtcDate_def utc_year_def utc_month_def utc_date_def c)
qed

lemma addDays_print:
  assumes "partsFor s = Some (y, m, d)" "1000 \<le> y" "valid_civil y' m' d'"
    and "make_day y (m - 1) d + k = make_day y' (m' - 1) d'" "\<bar>make_day y' (m' - 1) d'\<bar> \<le> 100000000"
  shows "addDateOnlyDays s k = Inr (dateOnlyFromParts (Some y') (Some m') (Some d'))"
  using day_string_of [OF assms(1,2)] addDays_general [of "make_day y (m - 1) d" k] assms(3-5)
    time_clip_day [OF assms(5)] day_string_make_day [OF assms(3)]
  by (simp add: day_string_def)

lemma isDateOnly_valid:
  "isDateOnly (Some s) \<longleftrightarrow>
   match_date_only s \<and> 100 \<le> year_part s \<and> valid_civil (year_part s) (month_part s) (day_part s)"
proof
  assume "isDateOnly (Some s)"
  then obtain y m d where p: "partsFor s = Some (y, m, d)" by (auto simp: isDateOnly_def)
  from partsFor_Some [OF p] show "match_date_only s \<and> 100 \<le> year_part s \<and> valid_civil (year_part s) (month_part s) (day_part s)"
    by simp
qed (auto simp: isDateOnly_def partsFor_valid)

section \<open>Properties\<close>

text \<open>A string is accepted as a calendar day exactly when it has the form YYYY-MM-DD, its month
  and day exist in the Gregorian calendar (leap years included), and its year is at least 100: the
  years 0000 to 0099 are refused because the language maps them to the twentieth century.\<close>

theorem isDateOnly_iff:
  "isDateOnly (Some s) \<longleftrightarrow>
   match_date_only s \<and> 100 \<le> year_part s \<and> valid_civil (year_part s) (month_part s) (day_part s)"
  by (rule isDateOnly_valid)

text \<open>Adding days composes: for a valid day with a four-digit year, moving by \<open>a\<close> days to another
  valid day and then by \<open>b\<close> gives what moving by \<open>a + b\<close> gives, across month ends, leap days and
  year ends.\<close>

theorem addDateOnlyDays_compose:
  assumes "isDateOnly (Some s)" "1000 \<le> year_part s"
    and "addDateOnlyDays s a = Inr t" "isDateOnly (Some t)"
  shows "addDateOnlyDays t b = addDateOnlyDays s (a + b)"
proof -
  obtain y m d where p: "partsFor s = Some (y, m, d)" using assms(1) by (auto simp: isDateOnly_def)
  have "1000 \<le> y" using partsFor_Some [OF p] assms(2) by simp
  note n = day_string_of [OF p this]
  let ?n = "make_day y (m - 1) d"
  have t: "t = dateOnlyFromUtcDate (time_clip (ms_per_day * (?n + a)))"
    using assms(3) addDays_general [OF n(2), of a] n(1) by simp
  note c = clipped_print [OF assms(4) [unfolded t]]
  show ?thesis
    using addDays_general [OF n(2), of "a + b"] addDays_general [OF c(2), of b] n(1) t c(1)
    by (simp add: add.assoc)
qed

theorem addDateOnlyDays_compose_witness:
  "addDateOnlyDays ''2024-02-29'' 1 = Inr ''2024-03-01'' \<and>
   addDateOnlyDays ''2024-03-01'' 306 = addDateOnlyDays ''2024-02-29'' (1 + 306)"
proof -
  have p: "partsFor ''2024-02-29'' = Some (2024, 2, 29)"
    using partsFor_valid [of "''2024-02-29''"] by (simp add: match_eval civil_eval)
  have "addDateOnlyDays ''2024-02-29'' 1 = Inr (dateOnlyFromParts (Some 2024) (Some 3) (Some 1))"
    by (rule addDays_print [OF p]) (simp_all add: civil_eval)
  then have t: "addDateOnlyDays ''2024-02-29'' 1 = Inr ''2024-03-01''"
    by (simp add: dateOnlyFromParts_def field_string_def pad_def string_eval)
  have a: "isDateOnly (Some ''2024-02-29'')" "1000 \<le> year_part ''2024-02-29''"
    "addDateOnlyDays ''2024-02-29'' 1 = Inr ''2024-03-01''" "isDateOnly (Some ''2024-03-01'')"
    using t by (simp_all add: isDateOnly_valid match_eval civil_eval)
  from addDateOnlyDays_compose [OF a, of 306] a(3) show ?thesis by simp
qed

text \<open>The weekday moves with the day: it is between 0 and 6, and after \<open>k\<close> days it has advanced by
  \<open>k\<close> modulo 7.\<close>

theorem dateOnlyWeekday_advances:
  assumes "isDateOnly (Some s)" "1000 \<le> year_part s"
    and "addDateOnlyDays s k = Inr t" "isDateOnly (Some t)"
  shows "\<exists>w. dateOnlyWeekday s = Inr (Some w) \<and> 0 \<le> w \<and> w \<le> 6 \<and>
             dateOnlyWeekday t = Inr (Some ((w + k) mod 7))"
proof -
  obtain y m d where p: "partsFor s = Some (y, m, d)" using assms(1) by (auto simp: isDateOnly_def)
  have "1000 \<le> y" using partsFor_Some [OF p] assms(2) by simp
  note n = day_string_of [OF p this]
  let ?n = "make_day y (m - 1) d"
  have t: "t = dateOnlyFromUtcDate (time_clip (ms_per_day * (?n + k)))"
    using assms(3) addDays_general [OF n(2), of k] n(1) by simp
  note c = clipped_print [OF assms(4) [unfolded t]]
  have w: "dateOnlyWeekday (day_string i) = Inr (Some ((4 + i) mod 7))" if "four_digit_day i" for i
    using that by (simp add: dateOnlyWeekday_def to_date_day_string utc_day_def)
  have "((4 + ?n) mod 7 + k) mod 7 = (4 + (?n + k)) mod 7"
    by (simp add: mod_simps add.assoc)
  moreover have "0 \<le> (4 + ?n) mod 7" "(4 + ?n) mod 7 \<le> 6"
    using pos_mod_bound [of 7 "4 + ?n"] by simp_all
  ultimately show ?thesis
    using w [OF n(2)] w [OF c(2)] n(1) t c(1) by auto
qed

theorem dateOnlyWeekday_advances_witness:
  "\<exists>w. dateOnlyWeekday ''2023-12-31'' = Inr (Some w) \<and> 0 \<le> w \<and> w \<le> 6 \<and>
       dateOnlyWeekday ''2024-01-01'' = Inr (Some ((w + 1) mod 7))"
proof -
  have p: "partsFor ''2023-12-31'' = Some (2023, 12, 31)"
    using partsFor_valid [of "''2023-12-31''"] by (simp add: match_eval civil_eval)
  have "addDateOnlyDays ''2023-12-31'' 1 = Inr (dateOnlyFromParts (Some 2024) (Some 1) (Some 1))"
    by (rule addDays_print [OF p]) (simp_all add: civil_eval)
  then have t: "addDateOnlyDays ''2023-12-31'' 1 = Inr ''2024-01-01''"
    by (simp add: dateOnlyFromParts_def field_string_def pad_def string_eval)
  have a: "isDateOnly (Some ''2023-12-31'')" "1000 \<le> year_part ''2023-12-31''"
    "addDateOnlyDays ''2023-12-31'' 1 = Inr ''2024-01-01''" "isDateOnly (Some ''2024-01-01'')"
    using t by (simp_all add: isDateOnly_valid match_eval civil_eval)
  from dateOnlyWeekday_advances [OF a] show ?thesis .
qed

lemma addMonths_wide:
  assumes p: "partsFor s = Some (y, m, d)" and y: "1000 \<le> y"
    and y': "y' = y + (m - 1 + k) div 12" and m': "m' = (m - 1 + k) mod 12"
    and r: "100 \<le> y'" "y' \<le> 11000"
  shows "addDateOnlyMonths s k =
         Inr (dateOnlyFromParts (Some y') (Some (m' + 1)) (Some (min d (days_in_month (leap_days y') m'))))"
proof -
  note n = day_string_of [OF p y] and v = partsFor_Some(7) [OF p]
  have m: "0 \<le> m - 1" "m - 1 < 12" and d: "1 \<le> d" using v by (simp_all add: valid_civil_def)
  have mr: "0 \<le> m'" "m' < 12" using m' by simp_all
  have dim: "28 \<le> days_in_month (leap_days z) i" "days_in_month (leap_days z) i \<le> 31" for z i
    using leap_days_range [of z] by (simp_all add: days_in_month_def)
  have clip: "time_clip (ms_per_day * make_day z i j) = Some (ms_per_day * make_day z i j)"
    if "100 \<le> z" "z \<le> 11000" "0 \<le> i" "i < 12" "0 \<le> j" "j \<le> 31" for z i j
    using that by (intro time_clip_day make_day_small) simp_all
  have y9: "100 \<le> y" "y \<le> 11000" using partsFor_Some(5,6) [OF p] by simp_all
  have k: "make_day y (m - 1 + k) j = make_day y' m' j" for j
    using make_day_carry [of y "m - 1 + k" j] by (simp add: y' m')
  have date1: "set_utc_date (Some (ms_per_day * make_day y (m - 1) d)) (Some 1) = Some (ms_per_day * make_day y (m - 1) 1)"
    using clip [OF y9 m, of 1] n by (simp add: set_utc_date_def)
  have c1: "month_of_day (make_day y (m - 1) 1) = m - 1"
    using civil_make_day(2) [OF m, of 1 y] dim [of y "m - 1"] by simp
  have date2: "set_utc_month (Some (ms_per_day * make_day y (m - 1) 1)) (Some (m - 1 + k)) = Some (ms_per_day * make_day y' m' 1)"
    using set_month_of_first [OF m, of y "m - 1 + k"] clip [OF r mr, of 1] k by simp
  have c2: "year_of_day (make_day y' m' 1) = y'" "month_of_day (make_day y' m' 1) = m'"
    using civil_make_day [OF mr, of 1 y'] dim [of y' m'] by simp_all
  have last: "date_UTC y' (m' + 1) 0 = Some (ms_per_day * make_day y' m' (days_in_month (leap_days y') m'))"
    using clip [OF r mr, of "days_in_month (leap_days y') m'"] dim [of y' m'] r first_of_next_month [OF mr, of y']
    by (simp add: date_UTC_def)
  let ?d = "min d (days_in_month (leap_days y') m')"
  have c3: "date_of_day (make_day y' m' (days_in_month (leap_days y') m')) = days_in_month (leap_days y') m'"
    using civil_make_day(3) [OF mr, of "days_in_month (leap_days y') m'" y'] dim [of y' m'] by simp
  have date3: "set_utc_date (Some (ms_per_day * make_day y' m' 1)) (Some ?d) = Some (ms_per_day * make_day y' m' ?d)"
    using clip [OF r mr, of ?d] dim [of y' m'] d c2 by (simp add: set_utc_date_def)
  have c4: "year_of_day (make_day y' m' ?d) = y'" "month_of_day (make_day y' m' ?d) = m'" "date_of_day (make_day y' m' ?d) = ?d"
    using civil_make_day [OF mr, of ?d y'] d dim [of y' m'] by simp_all
  show ?thesis
    unfolding n(1) addDateOnlyMonths_def
    by (simp add: to_date_day_string n date1 c1 date2 c2 last c3 date3 c4 Let_def
        utc_date_def utc_month_def utc_year_def dateOnlyFromUtcDate_def)
qed

lemma addMonths_print:
  assumes "partsFor s = Some (y, m, d)" "1000 \<le> y" "y' = y + (m - 1 + k) div 12" "m' = (m - 1 + k) mod 12"
    and "1000 \<le> y'" "y' \<le> 9999"
  shows "addDateOnlyMonths s k =
         Inr (dateOnlyFromParts (Some y') (Some (m' + 1)) (Some (min d (days_in_month (leap_days y') m'))))"
  by (rule addMonths_wide [OF assms(1-4)]) (use assms(5,6) in simp_all)

text \<open>Adding months keeps the day of the month when the target month has it and otherwise takes
  that month's last day; the year and month are the civil sum, with carries in both directions.\<close>
theorem addDateOnlyMonths_clamps:
  assumes p: "partsFor s = Some (y, m, d)" and y: "1000 \<le> y"
    and y': "y' = y + (m - 1 + k) div 12" and m': "m' = (m - 1 + k) mod 12"
    and r: "1000 \<le> y'" "y' \<le> 9999"
  shows "addDateOnlyMonths s k =
         Inr (dateOnlyFromParts (Some y') (Some (m' + 1)) (Some (min d (days_in_month (leap_days y') m'))))"
  by (rule addMonths_print [OF assms])

theorem addDateOnlyMonths_clamps_witness:
  "addDateOnlyMonths ''2023-12-31'' 2 =
   Inr (dateOnlyFromParts (Some 2024) (Some 2) (Some 29))"
proof -
  have p: "partsFor ''2023-12-31'' = Some (2023, 12, 31)"
    using partsFor_valid [of "''2023-12-31''"] by (simp add: match_eval civil_eval)
  from addDateOnlyMonths_clamps [OF p, of 2024 2 1] show ?thesis
    by (simp add: days_in_month_def leap_days_def is_leap_def)
qed

text \<open>Serializing a valid day at UTC midnight keeps it verbatim exactly from the year 1000 on: an
  accepted day of the years 0100 to 0999 loses the leading zero of its year, so the result is no
  longer an ISO timestamp.\<close>

theorem toUtcDateOnly_verbatim_iff:
  assumes "isDateOnly (Some s)"
  shows "toUtcDateOnly s = Inr (s @ ''T00:00:00.000Z'') \<longleftrightarrow> 1000 \<le> year_part s"
proof -
  obtain y m d where p: "partsFor s = Some (y, m, d)" using assms by (auto simp: isDateOnly_def)
  note q = partsFor_Some [OF p]
  have r: "0 \<le> m" "m < 100" "0 \<le> d" "d < 100"
    using match_parts_range [OF q(1)] q by simp_all
  have t: "toUtcDateOnly s = Inr (dateOnlyFromParts (Some y) (Some m) (Some d) @ ''T00:00:00.000Z'')"
    by (simp add: toUtcDateOnly_def p)
  show ?thesis
  proof
    assume "toUtcDateOnly s = Inr (s @ ''T00:00:00.000Z'')"
    with t have "s = dateOnlyFromParts (Some y) (Some m) (Some d)" by simp
    with match_printed [OF _ r] q show "1000 \<le> year_part s" by metis
  next
    assume "1000 \<le> year_part s"
    with printed_parts [OF p] q t show "toUtcDateOnly s = Inr (s @ ''T00:00:00.000Z'')" by simp
  qed
qed

theorem toUtcDateOnly_verbatim_iff_witness:
  "isDateOnly (Some ''0999-12-31'') \<and> toUtcDateOnly ''0999-12-31'' \<noteq> Inr (''0999-12-31'' @ ''T00:00:00.000Z'')"
proof -
  have a: "isDateOnly (Some ''0999-12-31'')" "\<not> 1000 \<le> year_part ''0999-12-31''"
    by (simp_all add: isDateOnly_valid match_eval civil_eval)
  from toUtcDateOnly_verbatim_iff [OF a(1)] a show ?thesis by simp
qed

end
