(* ===== verification/JsonText.thy ===== *)
theory JsonText
  imports JsValues
begin

text \<open>
  \<open>JSON.stringify\<close> and \<open>JSON.parse\<close>, which the client uses for everything it keeps in
  \<open>localStorage\<close>. The text is a string of theory JsStrings, so an escape of a code unit above
  255 is outside the model and reads as an error. The main fact is the round trip: what was
  written by \<open>stringify\<close> is read back by \<open>parse\<close>.
\<close>

section \<open>Writing\<close>

definition hex_char :: "nat \<Rightarrow> char" where
  "hex_char n = (if n < 10 then char_of (48 + n) else char_of (87 + n))"

definition escape_char :: "char \<Rightarrow> string" where
  "escape_char c = (let n = code_of c in
     if n = 34 then [CHR 0x5C, CHR 0x22]
     else if n = 92 then [CHR 0x5C, CHR 0x5C]
     else if n = 8 then [CHR 0x5C, CHR ''b'']
     else if n = 12 then [CHR 0x5C, CHR ''f'']
     else if n = 10 then [CHR 0x5C, CHR ''n'']
     else if n = 13 then [CHR 0x5C, CHR ''r'']
     else if n = 9 then [CHR 0x5C, CHR ''t'']
     else if n < 32 then [CHR 0x5C, CHR ''u'', CHR ''0'', CHR ''0'', hex_char (n div 16), hex_char (n mod 16)]
     else [c])"

definition quote :: "string \<Rightarrow> string" where
  "quote s = CHR 0x22 # concat (map escape_char s) @ [CHR 0x22]"

fun json_text :: "json \<Rightarrow> string"
  and item_texts :: "json list \<Rightarrow> string list"
  and member_texts :: "(string \<times> json) list \<Rightarrow> string list" where
  "json_text JUndefined = ''null''"
| "json_text JNull = ''null''"
| "json_text (JBool b) = (if b then ''true'' else ''false'')"
| "json_text (JNum x) = (case x of Fin r \<Rightarrow> num_string x | _ \<Rightarrow> ''null'')"
| "json_text (JStr s) = quote s"
| "json_text (JArr xs) = CHR ''['' # js_join '','' (item_texts xs) @ '']''"
| "json_text (JObj m) = CHR ''{'' # js_join '','' (member_texts m) @ ''}''"
| "item_texts [] = []"
| "item_texts (x # xs) = json_text x # item_texts xs"
| "member_texts [] = []"
| "member_texts ((k, v) # m) =
     (if v = JUndefined then member_texts m else (quote k @ CHR '':'' # json_text v) # member_texts m)"

text \<open>\<open>JSON.stringify(v)\<close>: the undefined value has no text.\<close>

definition JSON_stringify :: "json \<Rightarrow> string option" where
  "JSON_stringify v = (if v = JUndefined then None else Some (json_text v))"

section \<open>Reading\<close>

definition json_space :: "char \<Rightarrow> bool" where
  "json_space c = (let n = code_of c in n = 9 \<or> n = 10 \<or> n = 13 \<or> n = 32)"

definition skip_space :: "string \<Rightarrow> string" where
  "skip_space s = dropWhile json_space s"

definition hex_value :: "char \<Rightarrow> nat option" where
  "hex_value c = (if radix_digit c < 16 then Some (radix_digit c) else None)"

definition unescape :: "char \<Rightarrow> char option" where
  "unescape c = (let n = code_of c in
     if n = 34 \<or> n = 92 \<or> n = 47 then Some c
     else if n = 98 then Some (char_of (8::nat))
     else if n = 102 then Some (char_of (12::nat))
     else if n = 110 then Some (char_of (10::nat))
     else if n = 114 then Some (char_of (13::nat))
     else if n = 116 then Some (char_of (9::nat))
     else None)"

definition unit_of_hex :: "char \<Rightarrow> char \<Rightarrow> char \<Rightarrow> char \<Rightarrow> char option" where
  "unit_of_hex a b c d = (case (hex_value a, hex_value b, hex_value c, hex_value d) of
       (Some w, Some x, Some y, Some z) \<Rightarrow>
          (let n = 4096 * w + 256 * x + 16 * y + z in if n < 256 then Some (char_of n) else None)
     | _ \<Rightarrow> None)"

definition cons_char :: "char option \<Rightarrow> (string \<times> string) option \<Rightarrow> (string \<times> string) option" where
  "cons_char c r = (case (c, r) of (Some c, Some (s, rest)) \<Rightarrow> Some (c # s, rest) | _ \<Rightarrow> None)"

text \<open>The characters of a string literal, after the opening quote.\<close>

function parse_chars :: "string \<Rightarrow> (string \<times> string) option" where
  "parse_chars s = (case s of [] \<Rightarrow> None
     | c # r \<Rightarrow>
        if code_of c = 34 then Some ([], r)
        else if code_of c = 92 then
          (case r of [] \<Rightarrow> None
           | e # r' \<Rightarrow>
              if code_of e = 117 then
                (case r' of a # b # c' # d # r'' \<Rightarrow> cons_char (unit_of_hex a b c' d) (parse_chars r'')
                 | _ \<Rightarrow> None)
              else cons_char (unescape e) (parse_chars r'))
        else if code_of c < 32 then None
        else cons_char (Some c) (parse_chars r))"
  by pat_completeness auto
termination by (relation "measure length") auto

declare parse_chars.simps [simp del]

definition json_number :: "string \<Rightarrow> (json \<times> string) option" where
  "json_number s =
     (let (neg, u) = (case s of c # cs \<Rightarrow> if c = CHR ''-'' then (True, cs) else (False, s) | [] \<Rightarrow> (False, []));
          (ip, r1) = span_digits u;
          (fp, r2, okf) = (case r1 of c # cs \<Rightarrow>
                 if c = CHR ''.'' then (fst (span_digits cs), snd (span_digits cs), fst (span_digits cs) \<noteq> [])
                 else ([], r1, True) | [] \<Rightarrow> ([], [], True));
          (ex, r3, oke) = (case r2 of c # cs \<Rightarrow>
                 if c = CHR ''e'' \<or> c = CHR ''E'' then
                   (let (sg, ds) = (case cs of d # dr \<Rightarrow> if d = CHR ''-'' then (True, dr) else
                                       if d = CHR ''+'' then (False, dr) else (False, cs) | [] \<Rightarrow> (False, []));
                        (ed, r) = span_digits ds
                    in ((if sg then - int (digits_value ed) else int (digits_value ed)), r, ed \<noteq> []))
                 else (0, r2, True) | [] \<Rightarrow> (0, [], True));
          m = scale10 (of_nat (digits_value (ip @ fp)) / 10 ^ length fp) ex
      in if ip = [] \<or> (length ip > 1 \<and> hd ip = CHR ''0'') \<or> \<not> okf \<or> \<not> oke then None
         else Some (JNum (Fin (if neg then - m else m)), r3))"

fun parse_value :: "nat \<Rightarrow> string \<Rightarrow> (json \<times> string) option"
  and parse_items :: "nat \<Rightarrow> string \<Rightarrow> (json list \<times> string) option"
  and parse_members :: "nat \<Rightarrow> string \<Rightarrow> ((string \<times> json) list \<times> string) option" where
  "parse_value 0 s = None"
| "parse_value (Suc n) s = (case skip_space s of [] \<Rightarrow> None
     | c # r \<Rightarrow>
        if code_of c = 34 then map_option (\<lambda>(t, r). (JStr t, r)) (parse_chars r)
        else if c = CHR ''['' then
          (case skip_space r of [] \<Rightarrow> None
           | d # r' \<Rightarrow> if d = CHR '']'' then Some (JArr [], r')
                      else map_option (\<lambda>(xs, r). (JArr xs, r)) (parse_items n r))
        else if c = CHR ''{'' then
          (case skip_space r of [] \<Rightarrow> None
           | d # r' \<Rightarrow> if d = CHR ''}'' then Some (JObj [], r')
                      else map_option (\<lambda>(ms, r). (JObj (foldl (\<lambda>m (k, v). om_set m k v) [] ms), r))
                             (parse_members n r))
        else if starts_with (c # r) ''null'' then Some (JNull, drop 4 (c # r))
        else if starts_with (c # r) ''true'' then Some (JBool True, drop 4 (c # r))
        else if starts_with (c # r) ''false'' then Some (JBool False, drop 5 (c # r))
        else json_number (c # r))"
| "parse_items 0 s = None"
| "parse_items (Suc n) s = (case parse_value n s of None \<Rightarrow> None
     | Some (v, r) \<Rightarrow> (case skip_space r of [] \<Rightarrow> None
        | c # r' \<Rightarrow> if c = CHR '']'' then Some ([v], r')
                   else if c = CHR '','' then map_option (\<lambda>(vs, r). (v # vs, r)) (parse_items n r')
                   else None))"
| "parse_members 0 s = None"
| "parse_members (Suc n) s = (case skip_space s of [] \<Rightarrow> None
     | q # r \<Rightarrow> if code_of q \<noteq> 34 then None
        else (case parse_chars r of None \<Rightarrow> None
          | Some (k, r1) \<Rightarrow> (case skip_space r1 of [] \<Rightarrow> None
             | c # r2 \<Rightarrow> if c \<noteq> CHR '':'' then None
                else (case parse_value n r2 of None \<Rightarrow> None
                  | Some (v, r3) \<Rightarrow> (case skip_space r3 of [] \<Rightarrow> None
                     | d # r4 \<Rightarrow> if d = CHR ''}'' then Some ([(k, v)], r4)
                        else if d = CHR '','' then map_option (\<lambda>(ms, r). ((k, v) # ms, r)) (parse_members n r4)
                        else None)))))"

text \<open>\<open>JSON.parse(s)\<close>: the fuel is one more than the length, and every call consumes a character
  or descends into a value that does.\<close>

definition JSON_parse :: "string \<Rightarrow> js_error + json" where
  "JSON_parse s = (case parse_value (Suc (length s)) s of
       Some (v, r) \<Rightarrow> if skip_space r = [] then Inr v else Inl SyntaxError
     | None \<Rightarrow> Inl SyntaxError)"

section \<open>The round trip\<close>

text \<open>The values the client stores: no undefined, whole numbers, distinct keys.\<close>

fun json_plain :: "json \<Rightarrow> bool" where
  "json_plain JUndefined = False"
| "json_plain JNull = True"
| "json_plain (JBool b) = True"
| "json_plain (JNum x) = (case x of Fin r \<Rightarrow> is_whole r | _ \<Rightarrow> False)"
| "json_plain (JStr s) = True"
| "json_plain (JArr xs) = list_all json_plain xs"
| "json_plain (JObj m) = (distinct (map fst m) \<and> list_all (\<lambda>p. json_plain (snd p)) m)"

lemma radix_digit_hex_char: "n < 16 \<Longrightarrow> radix_digit (hex_char n) = n"
  by (simp add: radix_digit_def hex_char_def is_digit_def digit_value_def is_lower_az_def is_upper_az_def)

lemma unit_of_hex_low:
  assumes "code_of c < 32"
  shows "unit_of_hex (CHR ''0'') (CHR ''0'') (hex_char (code_of c div 16)) (hex_char (code_of c mod 16)) = Some c"
proof -
  have z: "hex_value (CHR ''0'') = Some 0" by code_simp
  have "hex_value (hex_char (code_of c div 16)) = Some (code_of c div 16)"
       "hex_value (hex_char (code_of c mod 16)) = Some (code_of c mod 16)"
    using assms by (simp_all add: hex_value_def radix_digit_hex_char)
  moreover have "16 * (code_of c div 16) + code_of c mod 16 = code_of c" by simp
  ultimately show ?thesis
    using z assms by (simp add: unit_of_hex_def Let_def code_of_def)
qed

lemma code_of_ascii:
  "code_of (CHR 0x22) = 34" "code_of (CHR 0x5C) = 92" "code_of (CHR ''b'') = 98" "code_of (CHR ''f'') = 102"
  "code_of (CHR ''n'') = 110" "code_of (CHR ''r'') = 114" "code_of (CHR ''t'') = 116" "code_of (CHR ''u'') = 117"
  "code_of (CHR 0x08) = 8" "code_of (CHR 0x0C) = 12" "code_of (CHR 0x0A) = 10" "code_of (CHR 0x0D) = 13" "code_of (CHR 0x09) = 9"
  by code_simp+

lemma char_of_controls:
  "char_of (8::nat) = CHR 0x08" "char_of (12::nat) = CHR 0x0C" "char_of (10::nat) = CHR 0x0A"
  "char_of (13::nat) = CHR 0x0D" "char_of (9::nat) = CHR 0x09"
  by code_simp+

lemma parse_chars_escape: "parse_chars (escape_char c @ r) = cons_char (Some c) (parse_chars r)"
proof -
  note unfold = parse_chars.simps [of "escape_char c @ r"]
  consider "c \<in> {CHR 0x22, CHR 0x5C, CHR 0x08, CHR 0x0C, CHR 0x0A, CHR 0x0D, CHR 0x09}"
    | "code_of c \<noteq> 34 \<and> code_of c \<noteq> 92 \<and> code_of c \<noteq> 8 \<and> code_of c \<noteq> 12 \<and> code_of c \<noteq> 10 \<and> code_of c \<noteq> 13 \<and>
       code_of c \<noteq> 9 \<and> code_of c < 32"
    | "code_of c \<noteq> 34 \<and> code_of c \<noteq> 92 \<and> \<not> code_of c < 32"
    using code_of_ascii code_of_inject by (smt (verit) insertCI)
  then show ?thesis
  proof cases
    case 1
    then show ?thesis
      by (subst unfold) (elim insertE emptyE, simp_all add: escape_char_def Let_def code_of_ascii char_of_controls unescape_def)
  next
    case 2
    then show ?thesis
      by (subst unfold) (simp add: escape_char_def Let_def code_of_ascii unit_of_hex_low)
  next
    case 3
    then show ?thesis
      by (subst unfold) (simp add: escape_char_def Let_def)
  qed
qed

lemma parse_chars_quote: "parse_chars (concat (map escape_char s) @ CHR 0x22 # r) = Some (s, r)"
proof (induction s)
  case Nil
  then show ?case by (simp add: parse_chars.simps code_of_ascii)
next
  case (Cons c s)
  then show ?case by (simp add: parse_chars_escape cons_char_def)
qed


text \<open>What may follow a number: no character that continues it.\<close>

definition number_ends :: "string \<Rightarrow> bool" where
  "number_ends r = (case r of [] \<Rightarrow> True
     | c # _ \<Rightarrow> \<not> is_digit c \<and> c \<noteq> CHR ''.'' \<and> c \<noteq> CHR ''e'' \<and> c \<noteq> CHR ''E'')"

lemma span_digits_nat: "all_digits s \<Longrightarrow> number_ends r \<Longrightarrow> span_digits (s @ r) = (s, r)"
  by (cases r) (auto simp: span_digits_def all_digits_def number_ends_def list_all_iff takeWhile_append dropWhile_append)

lemma num_string_whole:
  assumes "is_whole r"
  shows "num_string (Fin r) = (if r < 0 then CHR ''-'' # nat_digits (nat \<lfloor>- r\<rfloor>) else nat_digits (nat \<lfloor>r\<rfloor>))"
proof -
  have "is_whole (- r)" using assms by (metis is_whole_def floor_of_int of_int_minus)
  then show ?thesis
    using assms by (simp add: num_string_def pos_string_def numeral_eq_Suc)
qed

lemma nat_digits_no_leading_zero: "length (nat_digits n) \<le> 1 \<or> hd (nat_digits n) \<noteq> CHR ''0''"
proof (induction n rule: nat_digits.induct)
  case (1 n)
  show ?case
  proof (cases "n < 10")
    case True
    then show ?thesis by (simp add: nat_digits.simps)
  next
    case False
    have "hd (nat_digits (n div 10)) \<noteq> CHR ''0''"
    proof (cases "length (nat_digits (n div 10)) \<le> 1")
      case True
      have "n div 10 < 10"
      proof (rule ccontr)
        assume "\<not> n div 10 < 10"
        then have "1 < length (nat_digits (n div 10))"
          using nat_digits_length_ge [of 1 "n div 10"] by simp
        with True show False by simp
      qed
      with False have "nat_digits (n div 10) = [digit_char (n div 10)]" "n div 10 \<noteq> 0"
        by (simp_all add: nat_digits.simps)
      moreover have "digit_char m \<noteq> CHR ''0''" if "m \<noteq> 0" "m < 10" for m
      proof
        assume "digit_char m = CHR ''0''"
        then have "digit_value (digit_char m) = digit_value (CHR ''0'')" by simp
        moreover have "digit_value (CHR ''0'') = 0" by code_simp
        ultimately show False using that by (simp add: digit_value_digit_char)
      qed
      ultimately show ?thesis using \<open>n div 10 < 10\<close> by simp
    next
      case F: False
      with 1 False show ?thesis by simp
    qed
    with False show ?thesis by (subst (2) nat_digits.simps) simp
  qed
qed

lemma nat_digits_hd_digit: "is_digit (hd (nat_digits n))"
  using all_digits_nat_digits [of n] by (cases "nat_digits n") (auto simp: all_digits_def)

lemma json_number_nat:
  assumes "number_ends r"
  shows "json_number (nat_digits n @ r) = Some (JNum (Fin (of_nat n)), r)"
    and "json_number (CHR ''-'' # nat_digits n @ r) = Some (JNum (Fin (- of_nat n)), r)"
proof -
  obtain c cs where c: "nat_digits n = c # cs" by (cases "nat_digits n") auto
  have m: "c \<noteq> CHR ''-''" using nat_digits_hd_digit [of n] c by (auto simp: is_digit_def code_of_def)
  have sp: "span_digits (c # cs @ r) = (c # cs, r)"
    using span_digits_nat [OF all_digits_nat_digits [of n] assms] c by simp
  have lead: "\<not> (1 < length (c # cs) \<and> hd (c # cs) = CHR ''0'')"
    using nat_digits_no_leading_zero [of n] c by auto
  have dv: "digits_value (c # cs) = n" using digits_value_nat_digits [of n] c by simp
  show "json_number (nat_digits n @ r) = Some (JNum (Fin (of_nat n)), r)"
    using assms m sp lead dv c by (cases r) (auto simp: json_number_def number_ends_def scale10_def)
  show "json_number (CHR ''-'' # nat_digits n @ r) = Some (JNum (Fin (- of_nat n)), r)"
    using assms sp lead dv c by (cases r) (auto simp: json_number_def number_ends_def scale10_def)
qed


lemma json_text_number:
  assumes "is_whole q"
  shows "json_text (JNum (Fin q)) = (if q < 0 then CHR ''-'' # nat_digits (nat \<lfloor>- q\<rfloor>) else nat_digits (nat \<lfloor>q\<rfloor>))"
  using num_string_whole [OF assms] by simp

lemma whole_nat: "is_whole q \<Longrightarrow> 0 \<le> q \<Longrightarrow> of_nat (nat \<lfloor>q\<rfloor>) = q"
  by (simp add: is_whole_def)

lemma whole_nat_neg: "is_whole q \<Longrightarrow> q < 0 \<Longrightarrow> - of_nat (nat \<lfloor>- q\<rfloor>) = q"
  using whole_nat [of "- q"] by (metis is_whole_def floor_of_int of_int_minus neg_0_le_iff_le minus_minus less_imp_le)

lemma digit_text_first:
  "\<exists>c t. nat_digits n = c # t \<and> is_digit c"
  using nat_digits_hd_digit [of n] by (cases "nat_digits n") auto

definition plain_start :: "char \<Rightarrow> bool" where
  "plain_start c = (is_digit c \<or> c \<in> {CHR ''-'', CHR ''n'', CHR ''t'', CHR ''f'', CHR 0x22, CHR ''['', CHR ''{''})"

lemma plain_start_char:
  assumes "plain_start c"
  shows "\<not> json_space c" "c \<noteq> CHR '']''" "c \<noteq> CHR ''}''" "c \<noteq> CHR '',''"
  using assms by (auto simp: plain_start_def json_space_def is_digit_def code_of_def)

lemma json_text_first: "json_plain v \<Longrightarrow> \<exists>c t. json_text v = c # t \<and> plain_start c"
proof (cases v)
  case (JNum x)
  assume "json_plain v"
  with JNum obtain q where q: "x = Fin q" "is_whole q" by (cases x) auto
  obtain c t where "nat_digits (nat \<lfloor>q\<rfloor>) = c # t" "is_digit c" using digit_text_first by blast
  with q JNum json_text_number [OF q(2)] show ?thesis
    by (simp add: plain_start_def del: json_text.simps)
qed (auto simp: plain_start_def quote_def)

lemma parse_number_text:
  assumes "is_whole q" "number_ends r"
  shows "parse_value (Suc n) (json_text (JNum (Fin q)) @ r) = Some (JNum (Fin q), r)"
proof -
  obtain c t where ct: "json_text (JNum (Fin q)) = c # t" "is_digit c \<or> c = CHR ''-''"
    using json_text_number [OF assms(1)] digit_text_first [of "nat \<lfloor>q\<rfloor>"] by (metis list.sel(1))
  have ne: "code_of c \<noteq> 34" "c \<noteq> CHR ''[''" "c \<noteq> CHR ''{''" "c \<noteq> CHR ''n''" "c \<noteq> CHR ''t''" "c \<noteq> CHR ''f''" "\<not> json_space c"
    using ct(2) by (auto simp: is_digit_def code_of_def json_space_def)
  have "json_number (json_text (JNum (Fin q)) @ r) = Some (JNum (Fin q), r)"
    unfolding json_text_number [OF assms(1)]
    using json_number_nat [OF assms(2)] whole_nat [OF assms(1)] whole_nat_neg [OF assms(1)]
    by (auto simp: not_less)
  with ct ne show ?thesis
    by (simp add: skip_space_def starts_with_def del: json_text.simps)
qed

lemma skip_space_text: "json_plain v \<Longrightarrow> skip_space (json_text v @ r) = json_text v @ r"
  using json_text_first [of v] plain_start_char by (auto simp: skip_space_def)

lemma join_first:
  "json_plain x \<Longrightarrow> \<exists>c t. js_join '','' (json_text x # ts) = c # t \<and> plain_start c"
  using json_text_first [of x] by (cases ts) auto

lemma quote_first: "\<exists>u. js_join '','' ((quote k @ t) # ts) = CHR 0x22 # u"
  by (cases ts) (simp_all add: quote_def)

lemma om_set_fresh: "k \<notin> fst ` set m \<Longrightarrow> om_set m k v = m @ [(k, v)]"
  by (induction m) auto

lemma om_of_distinct:
  "distinct (map fst (m @ ps)) \<Longrightarrow> foldl (\<lambda>m (k, v). om_set m k v) m ps = m @ ps"
proof (induction ps arbitrary: m)
  case (Cons p ps)
  then have "fst p \<notin> fst ` set m" by (auto simp: image_iff)
  then have "om_set m (fst p) (snd p) = m @ [p]" by (simp add: om_set_fresh)
  with Cons.IH [of "m @ [p]"] Cons.prems show ?case by (simp add: case_prod_beta)
qed simp


lemma parse_json_text:
  "json_plain v \<Longrightarrow> length (json_text v) \<le> n \<Longrightarrow> number_ends r \<Longrightarrow>
     parse_value n (json_text v @ r) = Some (v, r)"
  "xs \<noteq> [] \<Longrightarrow> list_all json_plain xs \<Longrightarrow> length (js_join '','' (item_texts xs)) < n \<Longrightarrow>
     parse_items n (js_join '','' (item_texts xs) @ CHR '']'' # r) = Some (xs, r)"
  "m \<noteq> [] \<Longrightarrow> list_all (\<lambda>p. json_plain (snd p)) m \<Longrightarrow> length (js_join '','' (member_texts m)) < n \<Longrightarrow>
     parse_members n (js_join '','' (member_texts m) @ CHR ''}'' # r) = Some (m, r)"
proof (induction v and xs and m arbitrary: n r and n r and n r rule: json_text_item_texts_member_texts.induct)
  case (4 x)
  then obtain q where q: "x = Fin q" "is_whole q" by (cases x) auto
  obtain c t where "json_text (JNum x) = c # t" using json_text_first [OF 4(1)] by blast
  with 4 obtain n' where "n = Suc n'" by (cases n) auto
  with q parse_number_text [OF q(2) 4(3)] show ?case by simp
next
  case (5 s)
  then obtain n' where "n = Suc n'" by (cases n) (auto simp: quote_def)
  then show ?case
    by (simp add: quote_def skip_space_def json_space_def code_of_ascii parse_chars_quote)
next
  case (6 xs)
  then obtain n' where n: "n = Suc n'" by (cases n) auto
  show ?case
  proof (cases xs)
    case Nil
    with n show ?thesis by (simp add: skip_space_def json_space_def code_of_def)
  next
    case (Cons x ys)
    with 6 have "json_plain x" by simp
    from join_first [OF this, of "item_texts ys"] Cons
    obtain c t where ct: "js_join '','' (item_texts xs) = c # t" "plain_start c" by auto
    have "parse_items n' (js_join '','' (item_texts xs) @ CHR '']'' # r) = Some (xs, r)"
      using 6 Cons n by simp
    with n ct plain_start_char [OF ct(2)] show ?thesis
      by (simp add: skip_space_def json_space_def code_of_def)
  qed
next
  case (7 m)
  then obtain n' where n: "n = Suc n'" by (cases n) auto
  show ?case
  proof (cases m)
    case Nil
    with n show ?thesis by (simp add: skip_space_def json_space_def code_of_def)
  next
    case (Cons p ps)
    obtain k v where p: "p = (k, v)" by (cases p)
    with 7 Cons have "v \<noteq> JUndefined" by auto
    with p Cons have "js_join '','' (member_texts m) =
        js_join '','' ((quote k @ CHR '':'' # json_text v) # member_texts ps)" by simp
    then obtain t where ct: "js_join '','' (member_texts m) = CHR 0x22 # t"
      using quote_first [of k "CHR '':'' # json_text v" "member_texts ps"] by auto
    have "parse_members n' (js_join '','' (member_texts m) @ CHR ''}'' # r) = Some (m, r)"
      using 7 Cons n by simp
    moreover have "foldl (\<lambda>m (k, v). om_set m k v) [] m = m"
      using om_of_distinct [of "[]" m] 7 by simp
    moreover have "skip_space (CHR 0x22 # t) = CHR 0x22 # t" for t
      by (simp add: skip_space_def json_space_def code_of_def)
    moreover have "skip_space (CHR ''{'' # t) = CHR ''{'' # t" for t
      by (simp add: skip_space_def json_space_def code_of_def)
    ultimately show ?thesis
      using n ct by (simp add: code_of_def)
  qed
next
  case (9 x xs)
  then obtain n' where n: "n = Suc n'" by (cases n) auto
  show ?case
  proof (cases xs)
    case Nil
    with 9 n have "parse_value n' (json_text x @ CHR '']'' # r) = Some (x, CHR '']'' # r)"
      by (simp add: number_ends_def is_digit_def code_of_def)
    with Nil n show ?thesis by (simp add: skip_space_def json_space_def code_of_def)
  next
    case (Cons y ys)
    have "parse_value n' (json_text x @ CHR '','' # s) = Some (x, CHR '','' # s)" for s
      using 9 Cons n by (simp add: number_ends_def is_digit_def code_of_def)
    moreover have "parse_items n' (js_join '','' (item_texts xs) @ CHR '']'' # r) = Some (xs, r)"
      using 9 Cons n by simp
    ultimately show ?thesis
      using Cons n by (simp add: skip_space_def json_space_def code_of_def)
  qed
next
  case (11 k v m)
  then obtain n' where n: "n = Suc n'" by (cases n) auto
  have u: "v \<noteq> JUndefined" using 11 by auto
  have q: "skip_space (CHR 0x22 # t) = CHR 0x22 # t" for t
    by (simp add: skip_space_def json_space_def code_of_def)
  show ?case
  proof (cases m)
    case Nil
    with 11 n u have "parse_value n' (json_text v @ CHR ''}'' # r) = Some (v, CHR ''}'' # r)"
      by (simp add: number_ends_def is_digit_def code_of_def)
    with Nil n u q show ?thesis
      by (simp add: quote_def parse_chars_quote skip_space_def json_space_def code_of_def)
  next
    case (Cons p ps)
    obtain k' v' where p: "p = (k', v')" by (cases p)
    with 11 Cons have u': "v' \<noteq> JUndefined" by auto
    have "parse_value n' (json_text v @ CHR '','' # s) = Some (v, CHR '','' # s)" for s
      using 11 Cons n p u u' by (simp add: number_ends_def is_digit_def code_of_def)
    moreover have "parse_members n' (js_join '','' (member_texts m) @ CHR ''}'' # r) = Some (m, r)"
      using 11 Cons n p u u' by simp
    ultimately show ?thesis
      using Cons n p u u' q
      by (simp add: quote_def parse_chars_quote skip_space_def json_space_def code_of_def)
  qed
qed (auto simp: skip_space_def json_space_def code_of_def starts_with_def dest!: Suc_le_D)

lemma JSON_parse_text: "json_plain v \<Longrightarrow> JSON_parse (json_text v) = Inr v"
  using parse_json_text(1) [of v "Suc (length (json_text v))" "[]"]
  by (simp add: JSON_parse_def number_ends_def skip_space_def)

end
