(* ===== verification/Preferences.thy ===== *)
theory Preferences
  imports JsonText
begin

text \<open>
  The device preferences, \<open>web/src/platform/preferences.ts\<close>: a synchronous local store, the
  asynchronous native store that mirrors it on Android, and one first-in first-out queue of native
  mutations per key. A queue holds the mutations whose promises have not settled; its head is the one
  that runs. Hydration copies the native store into the local one at start, key by key; its state
  records the promise it waits for. What the plugin answers, and when a mutation settles, are events.
  The local store itself does not fail.
\<close>

definition NATIVE_PREFERENCE_KEYS :: "string list" where
  "NATIVE_PREFERENCE_KEYS =
    [''mt-demo'', ''mt-user-name'', ''mt-user-profile'', ''mt-user-id'', ''mt-auth-token'', ''mt-remember'',
     ''mt-app-pin-hash'', ''mt-workspace'', ''mt-default-workspace-id'', ''mt-privacy'', ''mt-theme'',
     ''mt-preferred-currency'']"

datatype pref_error = Unsupported_native_preference_key

text \<open>
  A queued mutation. \<open>Hydrate_value\<close> is the mutation of hydration, which looks at the abort signal when
  it starts: it then becomes a write or nothing.
\<close>

datatype mutation = Set_value string | Remove_value | Nothing | Hydrate_value string

datatype hydration =
    Not_started
  | Reading string "string list"
  | Writing string "string list"
  | Finished

record prefs =
  on_android :: bool
  local_store :: "(string, string) omap"
  native_store :: "(string, string) omap"
  mutation_queues :: "(string, mutation list) omap"
  signal_aborted :: bool
  hydrating :: hydration

definition empty_prefs :: "bool \<Rightarrow> (string, string) omap \<Rightarrow> (string, string) omap \<Rightarrow> prefs" where
  "empty_prefs android loc native = \<lparr>on_android = android, local_store = loc, native_store = native,
     mutation_queues = [], signal_aborted = False, hydrating = Not_started\<rparr>"

section \<open>The mutation queues\<close>

definition assertNativePreferenceKey :: "string \<Rightarrow> pref_error + unit" where
  "assertNativePreferenceKey key =
     (if key \<in> set NATIVE_PREFERENCE_KEYS then Inr () else Inl Unsupported_native_preference_key)"

definition queue_of :: "prefs \<Rightarrow> string \<Rightarrow> mutation list" where
  "queue_of p key = (case om_get (mutation_queues p) key of None \<Rightarrow> [] | Some q \<Rightarrow> q)"

text \<open>What a mutation is once it starts.\<close>

definition start_mutation :: "bool \<Rightarrow> mutation \<Rightarrow> mutation" where
  "start_mutation aborted m = (case m of Hydrate_value v \<Rightarrow> if aborted then Nothing else Set_value v | _ \<Rightarrow> m)"

definition enqueueNativePreferenceMutation :: "string \<Rightarrow> mutation \<Rightarrow> prefs \<Rightarrow> prefs" where
  "enqueueNativePreferenceMutation key m p =
     (let q = queue_of p key;
          entry = (if q = [] then start_mutation (signal_aborted p) m else m)
      in p\<lparr>mutation_queues := om_set (mutation_queues p) key (q @ [entry])\<rparr>)"

definition apply_mutation :: "string \<Rightarrow> mutation \<Rightarrow> (string, string) omap \<Rightarrow> (string, string) omap" where
  "apply_mutation key m native = (case m of
       Set_value v \<Rightarrow> om_set native key v
     | Remove_value \<Rightarrow> om_delete native key
     | Nothing \<Rightarrow> native
     | Hydrate_value v \<Rightarrow> om_set native key v)"

text \<open>
  The running mutation of a key settles. A rejected one has not changed the native store and does
  not stop its successors; the last one to settle removes the key's queue.
\<close>

definition settle_mutation :: "string \<Rightarrow> bool \<Rightarrow> prefs \<Rightarrow> prefs" where
  "settle_mutation key fulfilled p =
     (case queue_of p key of
        [] \<Rightarrow> p
      | m # ms \<Rightarrow>
          p\<lparr>native_store := (if fulfilled then apply_mutation key m (native_store p) else native_store p),
            mutation_queues := (case ms of
                [] \<Rightarrow> om_delete (mutation_queues p) key
              | n # ns \<Rightarrow> om_set (mutation_queues p) key (start_mutation (signal_aborted p) n # ns))\<rparr>)"

section \<open>Writing\<close>

definition persistNativePreference :: "string \<Rightarrow> string \<Rightarrow> prefs \<Rightarrow> pref_error + prefs" where
  "persistNativePreference key v p =
     (case assertNativePreferenceKey key of
        Inl e \<Rightarrow> Inl e
      | Inr _ \<Rightarrow>
          (let p1 = p\<lparr>local_store := om_set (local_store p) key v\<rparr>
           in if \<not> on_android p then Inr p1
              else Inr (enqueueNativePreferenceMutation key (Set_value v) p1)))"

definition removeNativePreference :: "string \<Rightarrow> prefs \<Rightarrow> pref_error + prefs" where
  "removeNativePreference key p =
     (case assertNativePreferenceKey key of
        Inl e \<Rightarrow> Inl e
      | Inr _ \<Rightarrow>
          (let p1 = p\<lparr>local_store := om_delete (local_store p) key\<rparr>
           in if \<not> on_android p then Inr p1
              else Inr (enqueueNativePreferenceMutation key Remove_value p1)))"

text \<open>\<open>void persistNativePreference(...)\<close>: a rejected promise is dropped.\<close>

definition persist :: "string \<Rightarrow> string \<Rightarrow> prefs \<Rightarrow> prefs" where
  "persist key v p = (case persistNativePreference key v p of Inl _ \<Rightarrow> p | Inr p' \<Rightarrow> p')"

definition unpersist :: "string \<Rightarrow> prefs \<Rightarrow> prefs" where
  "unpersist key p = (case removeNativePreference key p of Inl _ \<Rightarrow> p | Inr p' \<Rightarrow> p')"

section \<open>Hydration\<close>

text \<open>The head of the loop over the keys: the signal is tested before each key is read.\<close>

definition hydrate_next :: "string list \<Rightarrow> prefs \<Rightarrow> prefs" where
  "hydrate_next keys p = p\<lparr>hydrating :=
     (case keys of [] \<Rightarrow> Finished
      | k # ks \<Rightarrow> if signal_aborted p then Finished else Reading k ks)\<rparr>"

definition hydrateNativePreferences :: "prefs \<Rightarrow> prefs" where
  "hydrateNativePreferences p =
     (if signal_aborted p \<or> \<not> on_android p then p\<lparr>hydrating := Finished\<rparr>
      else hydrate_next NATIVE_PREFERENCE_KEYS p)"

text \<open>The answer of \<open>Preferences.get\<close>: a failure, or the value if the key has one.\<close>

datatype get_answer = Get_failed | Got "string option"

definition hydrate_answer :: "get_answer \<Rightarrow> prefs \<Rightarrow> prefs" where
  "hydrate_answer answer p =
     (case hydrating p of
        Reading key keys \<Rightarrow>
          if signal_aborted p then p\<lparr>hydrating := Finished\<rparr>
          else (case answer of
              Get_failed \<Rightarrow> hydrate_next keys p
            | Got (Some v) \<Rightarrow> hydrate_next keys (p\<lparr>local_store := om_set (local_store p) key v\<rparr>)
            | Got None \<Rightarrow>
                (case om_get (local_store p) key of
                   None \<Rightarrow> hydrate_next keys p
                 | Some v \<Rightarrow> (enqueueNativePreferenceMutation key (Hydrate_value v) p)
                                \<lparr>hydrating := Writing key keys\<rparr>))
      | _ \<Rightarrow> p)"

text \<open>
  Hydration waits for its own mutation, which is the last one of its key: it goes on, whether the
  write succeeded or not, unless the signal was aborted meanwhile. No other code writes the
  preferences before hydration is over or aborted, so the queue of that key is empty exactly then.
\<close>

definition hydrate_written :: "string \<Rightarrow> prefs \<Rightarrow> prefs" where
  "hydrate_written key p =
     (case hydrating p of
        Writing k keys \<Rightarrow>
          if k = key \<and> queue_of p key = [] then hydrate_next keys p else p
      | _ \<Rightarrow> p)"

end
