(* ===== verification/Startup.thy ===== *)
theory Startup
  imports Preferences
begin

text \<open>
  The start of the application, \<open>web/src/platform/startup.ts\<close> with the bootstrap of
  \<open>web/src/main.tsx\<close>: hydration races a deadline that aborts it, the application renders once
  hydration is settled, the splash screen is released once. The events are what can happen, in any
  order; \<open>boot_step\<close> is the code's reaction to one event.
\<close>

definition SPLASH_DEADLINE_MS :: nat where
  "SPLASH_DEADLINE_MS = 3000"

datatype splash = Splash_shown | Splash_releasing | Splash_hidden

record boot =
  preferences :: prefs
  hydration_requested :: bool
  hydration_settled :: bool
  splash_state :: splash
  hide_calls :: nat

datatype boot_event =
    Hydrate_called bool
  | Get_answered get_answer
  | Mutation_settled string bool
  | Deadline_reached
  | App_persist string string
  | App_remove string
  | Release_called
  | Ready_or_deadline
  | Session_abort

definition beginNativeStartup :: "prefs \<Rightarrow> boot" where
  "beginNativeStartup p = \<lparr>preferences = p, hydration_requested = False, hydration_settled = False,
     splash_state = Splash_shown, hide_calls = 0\<rparr>"

text \<open>\<open>hydratePreferences\<close>; the argument says whether no time remains before the deadline.\<close>

definition hydratePreferences :: "bool \<Rightarrow> boot \<Rightarrow> boot" where
  "hydratePreferences none_remaining b =
     (let p = preferences b
      in if \<not> on_android p \<or> signal_aborted p then b\<lparr>hydration_settled := True\<rparr>
         else if hydration_requested b then b
         else if none_remaining then
           b\<lparr>hydration_requested := True, preferences := p\<lparr>signal_aborted := True\<rparr>, hydration_settled := True\<rparr>
         else b\<lparr>hydration_requested := True, preferences := hydrateNativePreferences p\<rparr>)"

text \<open>The promise of the native hydration settles the session's promise.\<close>

definition settle_hydration :: "boot \<Rightarrow> boot" where
  "settle_hydration b =
     (if hydration_requested b \<and> hydrating (preferences b) = Finished then b\<lparr>hydration_settled := True\<rparr> else b)"

text \<open>
  The timer is cleared when the promise settles, so it fires on an unsettled one; the promise then
  resolves.
\<close>

definition deadline_reached :: "boot \<Rightarrow> boot" where
  "deadline_reached b =
     (if hydration_requested b \<and> \<not> hydration_settled b
      then b\<lparr>preferences := (preferences b)\<lparr>signal_aborted := True\<rparr>, hydration_settled := True\<rparr> else b)"

definition session_abort :: "boot \<Rightarrow> boot" where
  "session_abort b = b\<lparr>preferences := (preferences b)\<lparr>signal_aborted := True\<rparr>,
     hydration_settled := (hydration_settled b \<or> hydration_requested b)\<rparr>"

text \<open>The application writes once it runs, which is after the bootstrap's first await.\<close>

definition app_write :: "(prefs \<Rightarrow> prefs) \<Rightarrow> boot \<Rightarrow> boot" where
  "app_write f b = (if hydration_settled b then b\<lparr>preferences := f (preferences b)\<rparr> else b)"

definition releaseNativeSplash :: "boot \<Rightarrow> boot" where
  "releaseNativeSplash b =
     (if \<not> on_android (preferences b) then b
      else if splash_state b = Splash_shown then b\<lparr>splash_state := Splash_releasing\<rparr> else b)"

definition hide_splash :: "boot \<Rightarrow> boot" where
  "hide_splash b = (if splash_state b = Splash_releasing
     then b\<lparr>splash_state := Splash_hidden, hide_calls := Suc (hide_calls b)\<rparr> else b)"

fun boot_step :: "boot \<Rightarrow> boot_event \<Rightarrow> boot" where
  "boot_step b (Hydrate_called z) = settle_hydration (hydratePreferences z b)"
| "boot_step b (Get_answered a) = settle_hydration (b\<lparr>preferences := hydrate_answer a (preferences b)\<rparr>)"
| "boot_step b (Mutation_settled k ok) =
     settle_hydration (b\<lparr>preferences := hydrate_written k (settle_mutation k ok (preferences b))\<rparr>)"
| "boot_step b Deadline_reached = deadline_reached b"
| "boot_step b (App_persist k v) = app_write (persist k v) b"
| "boot_step b (App_remove k) = app_write (unpersist k) b"
| "boot_step b Release_called = releaseNativeSplash b"
| "boot_step b Ready_or_deadline = hide_splash b"
| "boot_step b Session_abort = session_abort b"

datatype resolved_theme = Light | Dark

text \<open>\<open>reapplyHydratedTheme\<close>; the argument is the system's preference for dark colours.\<close>

definition reapplyHydratedTheme :: "bool \<Rightarrow> prefs \<Rightarrow> resolved_theme" where
  "reapplyHydratedTheme prefers_dark p =
     (let stored = (case om_get (local_store p) ''mt-theme'' of None \<Rightarrow> JSON_parse (CHR 0x22 # ''system'' @ [CHR 0x22])
                    | Some s \<Rightarrow> JSON_parse s);
          preference = (case stored of Inl _ \<Rightarrow> JStr ''system'' | Inr v \<Rightarrow> v)
      in if preference = JStr ''light'' then Light
         else if preference = JStr ''dark'' then Dark
         else if prefers_dark then Dark else Light)"

section \<open>Lemmas on the preference operations\<close>

lemma local_simps [simp]:
  "local_store (enqueueNativePreferenceMutation k m p) = local_store p"
  "local_store (settle_mutation k ok p) = local_store p"
  "local_store (hydrate_next ks p) = local_store p"
  "local_store (hydrate_written k p) = local_store p"
  by (simp_all add: enqueueNativePreferenceMutation_def settle_mutation_def hydrate_next_def
      hydrate_written_def Let_def split: list.splits hydration.splits)

lemma frame_simps [simp]:
  "hydrating (enqueueNativePreferenceMutation k m p) = hydrating p"
  "signal_aborted (enqueueNativePreferenceMutation k m p) = signal_aborted p"
  "on_android (enqueueNativePreferenceMutation k m p) = on_android p"
  "native_store (enqueueNativePreferenceMutation k m p) = native_store p"
  "hydrating (settle_mutation k ok p) = hydrating p"
  "signal_aborted (settle_mutation k ok p) = signal_aborted p"
  "on_android (settle_mutation k ok p) = on_android p"
  "signal_aborted (hydrate_next ks p) = signal_aborted p"
  "on_android (hydrate_next ks p) = on_android p"
  "native_store (hydrate_next ks p) = native_store p"
  "mutation_queues (hydrate_next ks p) = mutation_queues p"
  "signal_aborted (hydrate_written k p) = signal_aborted p"
  "on_android (hydrate_written k p) = on_android p"
  "native_store (hydrate_written k p) = native_store p"
  "mutation_queues (hydrate_written k p) = mutation_queues p"
  by (simp_all add: enqueueNativePreferenceMutation_def settle_mutation_def hydrate_next_def
      hydrate_written_def Let_def split: list.splits hydration.splits)

lemma queue_enqueue:
  "queue_of (enqueueNativePreferenceMutation k m p) j =
     (if j = k then queue_of p k @ [if queue_of p k = [] then start_mutation (signal_aborted p) m else m]
      else queue_of p j)"
  by (simp add: queue_of_def enqueueNativePreferenceMutation_def Let_def js_map.get_put)

lemma queue_settle:
  "queue_of (settle_mutation k ok p) j =
     (if j = k then (case queue_of p k of m # n # ns \<Rightarrow> start_mutation (signal_aborted p) n # ns | _ \<Rightarrow> [])
      else queue_of p j)"
  by (auto simp: queue_of_def settle_mutation_def js_map.get_put js_map.get_del split: list.splits option.splits)

lemma queue_frame [simp]:
  "queue_of (p\<lparr>hydrating := h\<rparr>) k = queue_of p k"
  "queue_of (p\<lparr>local_store := l\<rparr>) k = queue_of p k"
  "queue_of (p\<lparr>signal_aborted := a\<rparr>) k = queue_of p k"
  "queue_of (hydrate_next ks p) k = queue_of p k"
  "queue_of (hydrate_written j p) k = queue_of p k"
  by (simp_all add: queue_of_def)

lemma native_settle:
  "om_get (native_store (settle_mutation k ok p)) j =
     (case queue_of p k of [] \<Rightarrow> om_get (native_store p) j
      | m # ms \<Rightarrow> if ok \<and> j = k then om_get (apply_mutation k m (native_store p)) k else om_get (native_store p) j)"
  by (auto simp: settle_mutation_def apply_mutation_def js_map.get_put js_map.get_del
      split: list.splits mutation.splits)

section \<open>The invariant of the start\<close>

definition boot_inv :: "boot \<Rightarrow> bool" where
  "boot_inv b = (let p = preferences b in
     (hydration_settled b \<longrightarrow> hydrating p = Finished \<or> signal_aborted p \<or> \<not> on_android p) \<and>
     (hydration_settled b \<and> on_android p \<longrightarrow> hydration_requested b \<or> signal_aborted p) \<and>
     (\<not> on_android p \<longrightarrow> hydrating p \<noteq> Finished \<longrightarrow> hydrating p = Not_started) \<and>
     hide_calls b = (if splash_state b = Splash_hidden then 1 else 0))"

text \<open>What an event does to the local value of a key once the application runs.\<close>

fun written_by :: "boot_event \<Rightarrow> string \<Rightarrow> string option \<Rightarrow> string option" where
  "written_by (App_persist j v) k cur = (if j = k \<and> k \<in> set NATIVE_PREFERENCE_KEYS then Some v else cur)"
| "written_by (App_remove j) k cur = (if j = k \<and> k \<in> set NATIVE_PREFERENCE_KEYS then None else cur)"
| "written_by _ k cur = cur"

lemma persist_simps [simp]:
  "hydrating (persist k v p) = hydrating p" "signal_aborted (persist k v p) = signal_aborted p"
  "on_android (persist k v p) = on_android p"
  "hydrating (unpersist k p) = hydrating p" "signal_aborted (unpersist k p) = signal_aborted p"
  "on_android (unpersist k p) = on_android p"
  by (simp_all add: persist_def unpersist_def persistNativePreference_def removeNativePreference_def
      assertNativePreferenceKey_def Let_def)

lemma persist_local:
  "om_get (local_store (persist j v p)) k =
     (if j = k \<and> k \<in> set NATIVE_PREFERENCE_KEYS then Some v else om_get (local_store p) k)"
  "om_get (local_store (unpersist j p)) k =
     (if j = k \<and> k \<in> set NATIVE_PREFERENCE_KEYS then None else om_get (local_store p) k)"
  by (auto simp: persist_def unpersist_def persistNativePreference_def removeNativePreference_def
      assertNativePreferenceKey_def Let_def js_map.get_put js_map.get_del)

lemma persist_queue:
  assumes "j \<in> set NATIVE_PREFERENCE_KEYS" "on_android p"
  shows "queue_of (persist j v p) k = (if k = j then queue_of p j @ [Set_value v] else queue_of p k)"
    and "queue_of (unpersist j p) k = (if k = j then queue_of p j @ [Remove_value] else queue_of p k)"
    and "native_store (persist j v p) = native_store p" "native_store (unpersist j p) = native_store p"
  using assms by (simp_all add: persist_def unpersist_def persistNativePreference_def removeNativePreference_def
      assertNativePreferenceKey_def Let_def queue_enqueue start_mutation_def)

lemma persist_queue_other:
  "k \<noteq> j \<Longrightarrow> queue_of (persist j v p) k = queue_of p k" "k \<noteq> j \<Longrightarrow> queue_of (unpersist j p) k = queue_of p k"
  "native_store (persist j v p) = native_store p" "native_store (unpersist j p) = native_store p"
  by (auto simp: persist_def unpersist_def persistNativePreference_def removeNativePreference_def
      assertNativePreferenceKey_def Let_def queue_enqueue)

lemma hydrate_answer_frame [simp]:
  "signal_aborted (hydrate_answer a p) = signal_aborted p" "on_android (hydrate_answer a p) = on_android p"
  "native_store (hydrate_answer a p) = native_store p"
  by (simp_all add: hydrate_answer_def split: hydration.splits get_answer.splits option.splits)

lemma hydrate_answer_idle:
  "hydrating p = Finished \<Longrightarrow> hydrate_answer a p = p" "hydrating p = Not_started \<Longrightarrow> hydrate_answer a p = p"
  "signal_aborted p \<Longrightarrow> local_store (hydrate_answer a p) = local_store p"
  "signal_aborted p \<Longrightarrow> queue_of (hydrate_answer a p) k = queue_of p k"
  by (simp_all add: hydrate_answer_def split: hydration.splits)

lemma hydrate_written_idle:
  "hydrating p = Finished \<Longrightarrow> hydrate_written k p = p" "hydrating p = Not_started \<Longrightarrow> hydrate_written k p = p"
  by (simp_all add: hydrate_written_def)

lemma hydrate_simps [simp]:
  "signal_aborted (hydrateNativePreferences p) = signal_aborted p"
  "on_android (hydrateNativePreferences p) = on_android p"
  "local_store (hydrateNativePreferences p) = local_store p"
  "native_store (hydrateNativePreferences p) = native_store p"
  "mutation_queues (hydrateNativePreferences p) = mutation_queues p"
  by (simp_all add: hydrateNativePreferences_def)

lemma settle_hydration_simps [simp]:
  "preferences (settle_hydration b) = preferences b" "hydration_requested (settle_hydration b) = hydration_requested b"
  "splash_state (settle_hydration b) = splash_state b" "hide_calls (settle_hydration b) = hide_calls b"
  "hydration_settled (settle_hydration b) =
     (hydration_settled b \<or> hydration_requested b \<and> hydrating (preferences b) = Finished)"
  by (auto simp: settle_hydration_def)

lemma boot_step_inv: "boot_inv b \<Longrightarrow> boot_inv (boot_step b e)"
  by (cases e)
     (auto simp: boot_inv_def Let_def hydratePreferences_def deadline_reached_def session_abort_def app_write_def
       releaseNativeSplash_def hide_splash_def hydrate_answer_idle hydrate_written_idle)

lemma boot_init_inv: "boot_inv (beginNativeStartup (empty_prefs a loc native))"
  by (simp add: boot_inv_def beginNativeStartup_def empty_prefs_def)

interpretation startup: machine boot_step boot_inv
  by unfold_locales (rule boot_step_inv)

lemmas boot_reachable = startup.inv_run [OF boot_init_inv]

lemma settled_answer_idle:
  assumes "boot_inv b" "hydration_settled b"
  shows "local_store (hydrate_answer a (preferences b)) = local_store (preferences b)"
    and "queue_of (hydrate_answer a (preferences b)) j = queue_of (preferences b) j"
proof -
  consider "hydrating (preferences b) = Finished" | "signal_aborted (preferences b)"
    | "hydrating (preferences b) = Not_started"
    using assms by (auto simp: boot_inv_def Let_def)
  then show "local_store (hydrate_answer a (preferences b)) = local_store (preferences b)"
    and "queue_of (hydrate_answer a (preferences b)) j = queue_of (preferences b) j"
    by (cases; simp add: hydrate_answer_idle)+
qed

lemma boot_step_local:
  assumes "boot_inv b" "hydration_settled b"
  shows "om_get (local_store (preferences (boot_step b e))) k = written_by e k (om_get (local_store (preferences b)) k)"
    and "hydration_settled (boot_step b e)"
proof -
  note idle = settled_answer_idle [OF assms]
  show "om_get (local_store (preferences (boot_step b e))) k = written_by e k (om_get (local_store (preferences b)) k)"
    using assms
    by (cases e) (auto simp: idle persist_local app_write_def hydratePreferences_def deadline_reached_def
        session_abort_def releaseNativeSplash_def hide_splash_def boot_inv_def Let_def)
  show "hydration_settled (boot_step b e)"
    using assms
    by (cases e) (auto simp: app_write_def hydratePreferences_def deadline_reached_def
        session_abort_def releaseNativeSplash_def hide_splash_def Let_def)
qed

lemma boot_run_local:
  "boot_inv b \<Longrightarrow> hydration_settled b \<Longrightarrow>
   om_get (local_store (preferences (foldl boot_step b es))) k =
     foldl (\<lambda>cur e. written_by e k cur) (om_get (local_store (preferences b)) k) es"
  by (induction es arbitrary: b) (simp_all add: boot_step_local boot_step_inv)

text \<open>The key's last accepted write is what its queue will leave in the native store.\<close>

definition write_of :: "string option \<Rightarrow> mutation" where
  "write_of v = (case v of Some x \<Rightarrow> Set_value x | None \<Rightarrow> Remove_value)"

definition mirrors :: "string \<Rightarrow> string option \<Rightarrow> prefs \<Rightarrow> bool" where
  "mirrors k v p = (case queue_of p k of [] \<Rightarrow> om_get (native_store p) k = v | q \<Rightarrow> last q = write_of v)"

text \<open>
  Events that leave the last write of a key alone: the application does not write the key again, and
  the native store does not reject that write itself (it may reject earlier ones).
\<close>

fun undisturbed :: "string \<Rightarrow> boot \<Rightarrow> boot_event list \<Rightarrow> bool" where
  "undisturbed k b [] = True"
| "undisturbed k b (e # es) =
     ((case e of App_persist j _ \<Rightarrow> j \<noteq> k | App_remove j \<Rightarrow> j \<noteq> k
        | Mutation_settled j ok \<Rightarrow> j = k \<longrightarrow> ok \<or> 1 < length (queue_of (preferences b) k)
        | _ \<Rightarrow> True) \<and> undisturbed k (boot_step b e) es)"

lemma write_of_applied [simp]: "om_get (apply_mutation k (write_of v) n) k = v" "start_mutation a (write_of v) = write_of v"
  by (simp_all add: write_of_def apply_mutation_def start_mutation_def js_map.get_put js_map.get_del split: option.splits)

lemma mirrors_settle:
  assumes "mirrors k v p" "j = k \<longrightarrow> ok \<or> 1 < length (queue_of p k)"
  shows "mirrors k v (settle_mutation j ok p)"
proof (cases "queue_of p k")
  case Nil
  with assms show ?thesis
    by (auto simp: mirrors_def queue_settle native_settle split: list.splits)
next
  case (Cons m ms)
  with assms show ?thesis
    by (cases ms) (auto simp: mirrors_def queue_settle native_settle split: list.splits)
qed

lemma mirrors_frame:
  "queue_of p' k = queue_of p k \<Longrightarrow> om_get (native_store p') k = om_get (native_store p) k \<Longrightarrow>
   mirrors k v p' = mirrors k v p"
  by (simp add: mirrors_def split: list.splits)

lemma mirrors_same:
  "mutation_queues p' = mutation_queues p \<Longrightarrow> native_store p' = native_store p \<Longrightarrow> mirrors k v p' = mirrors k v p"
  by (rule mirrors_frame) (simp_all add: queue_of_def)

lemma quiet_events:
  assumes "e \<in> {Hydrate_called z, Deadline_reached, Session_abort, Release_called, Ready_or_deadline}"
  shows "mutation_queues (preferences (boot_step b e)) = mutation_queues (preferences b)"
    and "native_store (preferences (boot_step b e)) = native_store (preferences b)"
  using assms by (auto simp: hydratePreferences_def deadline_reached_def session_abort_def
      releaseNativeSplash_def hide_splash_def Let_def)

lemma mirrors_step:
  assumes "boot_inv b" "hydration_settled b" "mirrors k v (preferences b)" "undisturbed k b [e]"
  shows "mirrors k v (preferences (boot_step b e))"
proof (cases e)
  case (Mutation_settled j ok)
  then have "mirrors k v (settle_mutation j ok (preferences b))"
    using assms(3,4) by (intro mirrors_settle) simp_all
  moreover have "mirrors k v (hydrate_written j q) = mirrors k v q" for q
    by (rule mirrors_frame) simp_all
  ultimately show ?thesis using Mutation_settled by simp
next
  case (Get_answered a)
  have "mirrors k v (hydrate_answer a (preferences b)) = mirrors k v (preferences b)"
    using settled_answer_idle [OF assms(1,2)] by (intro mirrors_frame) simp_all
  with Get_answered assms(3) show ?thesis by simp
next
  case (App_persist j w)
  with assms(4) have "k \<noteq> j" by auto
  with App_persist assms(2,3) show ?thesis
    by (auto simp: app_write_def mirrors_def persist_queue_other split: list.splits)
next
  case (App_remove j)
  with assms(4) have "k \<noteq> j" by auto
  with App_remove assms(2,3) show ?thesis
    by (auto simp: app_write_def mirrors_def persist_queue_other split: list.splits)
qed (use assms(3) in \<open>simp_all add: mirrors_same [OF quiet_events] del: boot_step.simps\<close>)

lemma mirrors_run:
  "boot_inv b \<Longrightarrow> hydration_settled b \<Longrightarrow> mirrors k v (preferences b) \<Longrightarrow> undisturbed k b es \<Longrightarrow>
   mirrors k v (preferences (foldl boot_step b es))"
proof (induction es arbitrary: b)
  case (Cons e es)
  then have "undisturbed k b [e]" by simp
  with Cons mirrors_step boot_step_inv boot_step_local(2) show ?case by simp
qed simp


lemma mirrors_snoc: "queue_of p k = q @ [write_of v] \<Longrightarrow> mirrors k v p"
  by (cases q) (simp_all add: mirrors_def)

lemma undisturbed_unwritten:
  "undisturbed k b es \<Longrightarrow> foldl (\<lambda>cur e. written_by e k cur) cur es = cur"
proof (induction es arbitrary: b)
  case (Cons e es)
  then show ?case by (cases e) auto
qed simp

section \<open>Properties\<close>

text \<open>C5. Once the application runs, what it wrote is what it reads: from any reachable state in which
  the bootstrap has passed hydration, by success or by the deadline, and through any further events
  (late answers of the plugin, settled mutations, aborts), the local value of a key is its last
  accepted write, so a stale native value never overwrites it.\<close>

theorem local_writes_survive:
  assumes "b = foldl boot_step (beginNativeStartup (empty_prefs android loc native)) es0"
    and "hydration_settled b"
  shows "om_get (local_store (preferences (foldl boot_step b es))) k =
    foldl (\<lambda>cur e. written_by e k cur) (om_get (local_store (preferences b)) k) es"
  using boot_run_local [OF _ assms(2)] boot_reachable assms(1) by blast

theorem local_writes_survive_witness:
  "om_get (local_store (preferences (foldl boot_step
      (foldl boot_step (beginNativeStartup (empty_prefs True [] [])) [Hydrate_called False, Deadline_reached])
      [App_persist ''mt-theme'' ''1'', Get_answered (Got (Some ''2''))]))) ''mt-demo'' = None \<and>
   om_get (local_store (preferences (foldl boot_step
      (foldl boot_step (beginNativeStartup (empty_prefs True [] [])) [Hydrate_called False, Deadline_reached])
      [App_persist ''mt-demo'' ''1'', Get_answered (Got (Some ''2''))]))) ''mt-demo'' = Some ''1''"
proof -
  define b where "b = foldl boot_step (beginNativeStartup (empty_prefs True [] [])) [Hydrate_called False, Deadline_reached]"
  have s: "hydration_settled b" "om_get (local_store (preferences b)) ''mt-demo'' = None"
    by (simp_all add: b_def beginNativeStartup_def empty_prefs_def hydratePreferences_def deadline_reached_def
        hydrateNativePreferences_def hydrate_next_def NATIVE_PREFERENCE_KEYS_def)
  show ?thesis
    unfolding b_def [symmetric] local_writes_survive [OF b_def s(1)]
    by (simp add: NATIVE_PREFERENCE_KEYS_def s(2))
qed

text \<open>C4. The native store converges to the last write: on Android, after the running application
  writes a preference, whatever else happens (writes of other keys, rejected earlier mutations of the
  same key, answers to hydration), once the key's queue has drained without that write itself being
  rejected, the native store and the local store both hold the value.\<close>

theorem native_mirror_converges:
  assumes "b = foldl boot_step (beginNativeStartup (empty_prefs True loc native)) es0"
    and "hydration_settled b" and "k \<in> set NATIVE_PREFERENCE_KEYS"
    and "undisturbed k (boot_step b (App_persist k v)) es"
    and "b' = foldl boot_step b (App_persist k v # es)" and "queue_of (preferences b') k = []"
  shows "om_get (native_store (preferences b')) k = Some v \<and> om_get (local_store (preferences b')) k = Some v"
proof -
  have i: "boot_inv b" using boot_reachable assms(1) by blast
  have an: "on_android (preferences b)"
  proof -
    have "on_android (preferences (boot_step c e)) = on_android (preferences c)" for c e
      by (cases e) (simp_all add: app_write_def hydratePreferences_def deadline_reached_def session_abort_def
          releaseNativeSplash_def hide_splash_def Let_def)
    then have "on_android (preferences (foldl boot_step c es0)) = on_android (preferences c)" for c
      by (induction es0 arbitrary: c) simp_all
    then show ?thesis by (simp add: assms(1) beginNativeStartup_def empty_prefs_def)
  qed
  let ?c = "boot_step b (App_persist k v)"
  have "mirrors k (Some v) (preferences ?c)"
    using assms(2) persist_queue(1) [OF assms(3) an]
    by (intro mirrors_snoc [of _ _ "queue_of (preferences b) k"]) (simp add: app_write_def write_of_def)
  from mirrors_run [OF boot_step_inv [OF i] boot_step_local(2) [OF i assms(2)] this assms(4)]
  have "om_get (native_store (preferences b')) k = Some v"
    using assms(5,6) by (simp add: mirrors_def)
  moreover have "foldl (\<lambda>cur e. written_by e k cur) (Some v) es = Some v"
    by (rule undisturbed_unwritten [OF assms(4)])
  ultimately show ?thesis
    using boot_run_local [OF i assms(2), of "App_persist k v # es" k] assms(3,5) by simp
qed


theorem native_mirror_converges_witness:
  "let b = foldl boot_step (beginNativeStartup (empty_prefs True [] [])) [Hydrate_called False, Deadline_reached];
       b' = foldl boot_step b (App_persist ''mt-theme'' ''1'' # [Mutation_settled ''mt-theme'' True])
   in om_get (native_store (preferences b')) ''mt-theme'' = Some ''1''"
proof -
  define b where "b = foldl boot_step (beginNativeStartup (empty_prefs True [] [])) [Hydrate_called False, Deadline_reached]"
  have s: "hydration_settled b" "mutation_queues (preferences b) = []" "on_android (preferences b)"
    by (simp_all add: b_def beginNativeStartup_def empty_prefs_def hydratePreferences_def deadline_reached_def
        hydrateNativePreferences_def hydrate_next_def NATIVE_PREFERENCE_KEYS_def)
  have k: "''mt-theme'' \<in> set NATIVE_PREFERENCE_KEYS" by (simp add: NATIVE_PREFERENCE_KEYS_def)
  have q: "queue_of (preferences b) ''mt-theme'' = []" by (simp add: queue_of_def s)
  have e: "queue_of (preferences (foldl boot_step b (App_persist ''mt-theme'' ''1'' # [Mutation_settled ''mt-theme'' True]))) ''mt-theme'' = []"
    using s(1) q persist_queue(1) [OF k s(3)] by (simp add: app_write_def queue_settle)
  show ?thesis
    unfolding b_def [symmetric] Let_def
    using native_mirror_converges [OF b_def s(1) k _ refl e] by simp
qed

section \<open>Undisturbed hydration\<close>

text \<open>What happens to one key when the plugin answers with the native value and accepts writes.\<close>

definition hydrate_key_events :: "(string, string) omap \<Rightarrow> string \<Rightarrow> boot_event list" where
  "hydrate_key_events native key = [Get_answered (Got (om_get native key)), Mutation_settled key True]"

definition hydrating_at :: "(string, string) omap \<Rightarrow> (string, string) omap \<Rightarrow> string list \<Rightarrow> boot \<Rightarrow> bool" where
  "hydrating_at loc native todo b = (let p = preferences b in
     hydrating p = (case todo of [] \<Rightarrow> Finished | k # ks \<Rightarrow> Reading k ks) \<and> \<not> signal_aborted p \<and>
     (\<forall>k. queue_of p k = []) \<and> hydration_requested b \<and> (todo = [] \<longrightarrow> hydration_settled b) \<and>
     (\<forall>k. om_get (local_store p) k =
        (if k \<in> set NATIVE_PREFERENCE_KEYS - set todo \<and> om_get native k \<noteq> None then om_get native k
         else om_get loc k)) \<and>
     (\<forall>k. om_get (native_store p) k =
        (if k \<in> set NATIVE_PREFERENCE_KEYS - set todo \<and> om_get native k = None then om_get loc k
         else om_get native k)))"

lemma hydrating_at_step:
  assumes "hydrating_at loc native (k # ks) b" "distinct (k # ks)" "set (k # ks) \<subseteq> set NATIVE_PREFERENCE_KEYS"
  shows "hydrating_at loc native ks (foldl boot_step b (hydrate_key_events native k))"
proof -
  let ?p = "preferences b"
  have p: "hydrating ?p = Reading k ks" "\<not> signal_aborted ?p" "\<And>j. queue_of ?p j = []" "hydration_requested b"
    and l: "\<And>j. om_get (local_store ?p) j =
        (if j \<in> set NATIVE_PREFERENCE_KEYS - set (k # ks) \<and> om_get native j \<noteq> None then om_get native j
         else om_get loc j)"
    and n: "\<And>j. om_get (native_store ?p) j =
        (if j \<in> set NATIVE_PREFERENCE_KEYS - set (k # ks) \<and> om_get native j = None then om_get loc j
         else om_get native j)"
    using assms(1) by (simp_all add: hydrating_at_def Let_def)
  have kk: "k \<in> set NATIVE_PREFERENCE_KEYS" "k \<notin> set ks" using assms by auto
  have nx: "hydrating (hydrate_next ks q) = (case ks of [] \<Rightarrow> Finished | x # xs \<Rightarrow> Reading x xs)"
    if "\<not> signal_aborted q" for q
    using that by (simp add: hydrate_next_def split: list.splits)
  have lk: "om_get (local_store ?p) k = om_get loc k" and nk: "om_get (native_store ?p) k = om_get native k"
    using l [of k] n [of k] by simp_all
  show ?thesis
  proof (cases "om_get native k")
    case (Some v)
    let ?q = "hydrate_next ks (?p\<lparr>local_store := om_set (local_store ?p) k v\<rparr>)"
    have a: "hydrate_answer (Got (om_get native k)) ?p = ?q"
      using p Some by (simp add: hydrate_answer_def)
    have w: "hydrate_written k (settle_mutation k True ?q) = ?q"
      using p nx [of "?p\<lparr>local_store := om_set (local_store ?p) k v\<rparr>"]
      by (simp add: settle_mutation_def hydrate_written_def split: list.splits)
    have "hydrating_at loc native ks (settle_hydration (settle_hydration (b\<lparr>preferences := ?q\<rparr>)\<lparr>preferences := ?q\<rparr>))"
      unfolding hydrating_at_def Let_def
      using p nx [of "?p\<lparr>local_store := om_set (local_store ?p) k v\<rparr>"] kk Some
      by (auto simp: js_map.get_put l n split: list.splits)
    then show ?thesis
      using a w by (simp add: hydrate_key_events_def)
  next
    case None
    show ?thesis
    proof (cases "om_get loc k")
      case N: None
      let ?q = "hydrate_next ks ?p"
      have a: "hydrate_answer (Got (om_get native k)) ?p = ?q"
        using p None N lk by (simp add: hydrate_answer_def)
      have w: "hydrate_written k (settle_mutation k True ?q) = ?q"
        using p nx [of ?p] by (simp add: settle_mutation_def hydrate_written_def split: list.splits)
      have "hydrating_at loc native ks (settle_hydration (settle_hydration (b\<lparr>preferences := ?q\<rparr>)\<lparr>preferences := ?q\<rparr>))"
        unfolding hydrating_at_def Let_def
        using p nx [of ?p] kk None N by (auto simp: l n split: list.splits)
      then show ?thesis
        using a w by (simp add: hydrate_key_events_def)
    next
      case (Some v)
      let ?q = "enqueueNativePreferenceMutation k (Hydrate_value v) ?p\<lparr>hydrating := Writing k ks\<rparr>"
      let ?r = "hydrate_next ks (settle_mutation k True ?q)"
      have a: "hydrate_answer (Got (om_get native k)) ?p = ?q"
        using p None Some lk by (simp add: hydrate_answer_def)
      have qk: "queue_of ?q j = (if j = k then [Set_value v] else [])" for j
        using p by (simp add: queue_enqueue start_mutation_def)
      have qs: "queue_of (settle_mutation k True ?q) j = []" for j
        unfolding queue_settle qk by simp
      have w: "hydrate_written k (settle_mutation k True ?q) = ?r"
        unfolding hydrate_written_def qs by simp
      have ns: "om_get (native_store ?r) j = (if j = k then Some v else om_get (native_store ?p) j)" for j
        unfolding frame_simps native_settle qk by (simp add: apply_mutation_def js_map.get_put)
      have qr: "queue_of ?r j = []" for j unfolding queue_frame by (rule qs)
      have "hydrating_at loc native ks (settle_hydration (settle_hydration (b\<lparr>preferences := ?q\<rparr>)\<lparr>preferences := ?r\<rparr>))"
        unfolding hydrating_at_def Let_def
        using p nx [of "settle_mutation k True ?q"] kk None Some
        by (auto simp: qr ns l n split: list.splits simp del: frame_simps(10) queue_frame)
      then show ?thesis
        using a w by (simp add: hydrate_key_events_def)
    qed
  qed
qed


lemma hydrating_at_run:
  "hydrating_at loc native ks b \<Longrightarrow> distinct ks \<Longrightarrow> set ks \<subseteq> set NATIVE_PREFERENCE_KEYS \<Longrightarrow>
   hydrating_at loc native [] (foldl boot_step b (concat (map (hydrate_key_events native) ks)))"
proof (induction ks arbitrary: b)
  case (Cons k ks)
  then have "hydrating_at loc native ks (foldl boot_step b (hydrate_key_events native k))"
    by (intro hydrating_at_step) auto
  with Cons show ?case by simp
qed simp

lemma distinct_keys: "distinct NATIVE_PREFERENCE_KEYS"
  by code_simp

lemma hydrating_at_start:
  "hydrating_at loc native NATIVE_PREFERENCE_KEYS
     (boot_step (beginNativeStartup (empty_prefs True loc native)) (Hydrate_called False))"
proof -
  obtain k ks where k: "NATIVE_PREFERENCE_KEYS = k # ks" by (simp add: NATIVE_PREFERENCE_KEYS_def)
  have "\<And>P. (if P then om_get native j else om_get loc j) = om_get loc j \<or> P" for j by simp
  show ?thesis
    by (simp add: hydrating_at_def Let_def beginNativeStartup_def empty_prefs_def hydratePreferences_def
        hydrateNativePreferences_def hydrate_next_def k queue_of_def)
qed

text \<open>An undisturbed hydration merges the two stores: once the plugin has answered for every key
  and accepted the writes, hydration is settled, every known key has the native value where there
  was one and the local value otherwise, in both stores, and no other key has changed.\<close>

theorem hydration_merges:
  assumes "b = foldl boot_step (beginNativeStartup (empty_prefs True loc native))
      (Hydrate_called False # concat (map (hydrate_key_events native) NATIVE_PREFERENCE_KEYS))"
    and "k \<in> set NATIVE_PREFERENCE_KEYS"
  shows "hydration_settled b \<and>
    om_get (local_store (preferences b)) k =
      (case om_get native k of Some v \<Rightarrow> Some v | None \<Rightarrow> om_get loc k) \<and>
    om_get (native_store (preferences b)) k = om_get (local_store (preferences b)) k"
proof -
  have "hydrating_at loc native [] b"
    using hydrating_at_run [OF hydrating_at_start [of loc native] distinct_keys subset_refl] assms(1)
    by simp
  then show ?thesis
    using assms(2) by (auto simp: hydrating_at_def Let_def split: option.splits)
qed

theorem hydration_merges_witness:
  "let b = foldl boot_step (beginNativeStartup (empty_prefs True [(''mt-theme'', ''1'')] [(''mt-demo'', ''2'')]))
      (Hydrate_called False # concat (map (hydrate_key_events [(''mt-demo'', ''2'')]) NATIVE_PREFERENCE_KEYS))
   in om_get (native_store (preferences b)) ''mt-theme'' = Some ''1''"
  unfolding Let_def
  using hydration_merges [OF refl, of "''mt-theme''" "[(''mt-theme'', ''1'')]" "[(''mt-demo'', ''2'')]"]
  by (simp add: NATIVE_PREFERENCE_KEYS_def del: boot_step.simps foldl.simps)

section \<open>A page load\<close>

text \<open>
  What the bootstrap of \<open>main.tsx\<close> leaves when it renders. The plugin answers with what the native store
  holds, or fails; the application does not write before. The queues of the old page are gone: a mutation of
  theirs has been applied by then or is lost.
\<close>

definition honest :: "boot \<Rightarrow> boot_event \<Rightarrow> bool" where
  "honest b e = (case e of
       Get_answered (Got x) \<Rightarrow> (case hydrating (preferences b) of
           Reading k ks \<Rightarrow> x = om_get (native_store (preferences b)) k | _ \<Rightarrow> True)
     | App_persist k v \<Rightarrow> False
     | App_remove k \<Rightarrow> False
     | _ \<Rightarrow> True)"

fun honest_run :: "boot \<Rightarrow> boot_event list \<Rightarrow> bool" where
  "honest_run b [] = True"
| "honest_run b (e # es) = (honest b e \<and> honest_run (boot_step b e) es)"

definition new_page :: "prefs \<Rightarrow> boot" where
  "new_page p = beginNativeStartup (empty_prefs (on_android p) (local_store p) (native_store p))"

definition page_loaded :: "prefs \<Rightarrow> prefs \<Rightarrow> bool" where
  "page_loaded p d = (\<exists>none_remaining es. honest_run (new_page p) (Hydrate_called none_remaining # es) \<and>
     hydration_settled (foldl boot_step (new_page p) (Hydrate_called none_remaining # es)) \<and>
     d = preferences (foldl boot_step (new_page p) (Hydrate_called none_remaining # es)))"

text \<open>What hydration may do to the stores: a key takes its native value if it has one, and nothing else.\<close>

definition loaded_value :: "prefs \<Rightarrow> string \<Rightarrow> string option \<Rightarrow> bool" where
  "loaded_value p k v = (v = om_get (local_store p) k \<or>
     on_android p \<and> om_get (native_store p) k \<noteq> None \<and> v = om_get (native_store p) k)"

definition copied_value :: "prefs \<Rightarrow> string \<Rightarrow> string option \<Rightarrow> bool" where
  "copied_value p k v = (v = om_get (native_store p) k \<or> om_get (native_store p) k = None \<and> v = om_get (local_store p) k)"

definition copying :: "prefs \<Rightarrow> string \<Rightarrow> mutation \<Rightarrow> bool" where
  "copying p k m = (case m of Nothing \<Rightarrow> True | Remove_value \<Rightarrow> False
     | Set_value v \<Rightarrow> om_get (native_store p) k = None \<and> om_get (local_store p) k = Some v
     | Hydrate_value v \<Rightarrow> om_get (native_store p) k = None \<and> om_get (local_store p) k = Some v)"

definition loading_inv :: "prefs \<Rightarrow> prefs \<Rightarrow> bool" where
  "loading_inv p q = (on_android q = on_android p \<and> (on_android p \<or> hydrating q = Not_started \<or> hydrating q = Finished) \<and>
     (\<forall>k. loaded_value p k (om_get (local_store q) k)) \<and> (\<forall>k. copied_value p k (om_get (native_store q) k)) \<and>
     (\<forall>k. list_all (copying p k) (queue_of q k)))"

lemma loading_frame [simp]:
  "on_android p \<or> h = Not_started \<or> h = Finished \<Longrightarrow> loading_inv p q \<Longrightarrow> loading_inv p (q\<lparr>hydrating := h\<rparr>)"
  "loading_inv p q \<Longrightarrow> loading_inv p (q\<lparr>signal_aborted := s\<rparr>)"
  by (simp_all add: loading_inv_def)

lemma loading_next: "on_android p \<Longrightarrow> loading_inv p q \<Longrightarrow> loading_inv p (hydrate_next ks q)"
  unfolding hydrate_next_def by simp

lemma copying_started: "copying p k m \<Longrightarrow> copying p k (start_mutation s m)"
  by (cases m) (auto simp: copying_def start_mutation_def)

lemma loading_answer:
  assumes "loading_inv p (preferences b)" "honest b (Get_answered a)"
  shows "loading_inv p (hydrate_answer a (preferences b))"
proof (cases "\<exists>k ks. hydrating (preferences b) = Reading k ks \<and> \<not> signal_aborted (preferences b)")
  case False
  then have "hydrate_answer a (preferences b) = preferences b \<or>
      hydrate_answer a (preferences b) = (preferences b)\<lparr>hydrating := Finished\<rparr>"
    by (auto simp: hydrate_answer_def split: hydration.splits)
  then show ?thesis using assms(1) by (elim disjE) simp_all
next
  case True
  then obtain k ks where r: "hydrating (preferences b) = Reading k ks" "\<not> signal_aborted (preferences b)" by blast
  note inv = assms(1)
  have an: "on_android p" using inv r(1) by (simp add: loading_inv_def)
  have l: "loaded_value p k (om_get (local_store (preferences b)) k)" and n: "copied_value p k (om_get (native_store (preferences b)) k)"
    using inv by (simp_all add: loading_inv_def)
  show ?thesis
  proof (cases a)
    case Get_failed
    then show ?thesis using inv r an by (simp add: hydrate_answer_def loading_next)
  next
    case (Got x)
    have x: "x = om_get (native_store (preferences b)) k" using assms(2) r(1) Got by (simp add: honest_def)
    show ?thesis
    proof (cases x)
      case (Some v)
      then have "loaded_value p k (Some v)" using n x an by (metis loaded_value_def copied_value_def option.distinct(1))
      then have "loading_inv p ((preferences b)\<lparr>local_store := om_set (local_store (preferences b)) k v\<rparr>)"
        using inv by (simp add: loading_inv_def js_map.get_put)
      then show ?thesis using r an Got Some by (simp add: hydrate_answer_def loading_next)
    next
      case None
      then have "om_get (native_store p) k = None" using n x by (auto simp: copied_value_def)
      then have c: "copying p k (Hydrate_value v)" if "om_get (local_store (preferences b)) k = Some v" for v
        using l that by (simp add: copying_def loaded_value_def)
      have "loading_inv p (enqueueNativePreferenceMutation k (Hydrate_value v) (preferences b))"
        if "om_get (local_store (preferences b)) k = Some v" for v
        using inv c [OF that] copying_started [OF c [OF that]] by (simp add: loading_inv_def queue_enqueue)
      then show ?thesis using r an Got None inv
        by (auto simp: hydrate_answer_def loading_next split: option.splits)
    qed
  qed
qed

lemma loading_settle:
  assumes "loading_inv p q"
  shows "loading_inv p (settle_mutation k ok q)"
proof -
  have c: "list_all (copying p j) (queue_of q j)" and n: "copied_value p j (om_get (native_store q) j)" for j
    using assms by (simp_all add: loading_inv_def)
  have "list_all (copying p j) (queue_of (settle_mutation k ok q) j)" for j
    using c [of j] c [of k] by (auto simp: queue_settle copying_started split: list.splits)
  moreover have "copied_value p j (om_get (native_store (settle_mutation k ok q)) j)" for j
    using c [of k] n [of j]
    by (auto simp: native_settle apply_mutation_def copying_def copied_value_def js_map.get_put split: list.splits mutation.splits)
  ultimately show ?thesis using assms by (simp add: loading_inv_def)
qed

lemma loading_step:
  assumes "loading_inv p (preferences b)" "honest b e"
  shows "loading_inv p (preferences (boot_step b e))"
proof (cases e)
  case (Get_answered a)
  from loading_answer [OF assms(1) assms(2) [unfolded Get_answered]] show ?thesis by (simp add: Get_answered)
next
  case (Mutation_settled k ok)
  let ?q = "settle_mutation k ok (preferences b)"
  have s: "loading_inv p ?q" by (rule loading_settle [OF assms(1)])
  then have "on_android p \<or> (\<forall>j ks. hydrating ?q \<noteq> Writing j ks)" by (auto simp: loading_inv_def)
  then have "loading_inv p (hydrate_written k ?q)"
    using s by (auto simp: hydrate_written_def loading_next split: hydration.splits)
  then show ?thesis by (simp add: Mutation_settled)
next
  case (Hydrate_called z)
  have "loading_inv p (hydrateNativePreferences q)" if "loading_inv p q" for q
    using that by (auto simp: hydrateNativePreferences_def loading_next loading_inv_def)
  then show ?thesis using Hydrate_called assms(1) by (simp add: hydratePreferences_def Let_def)
qed (use assms in \<open>auto simp: honest_def deadline_reached_def session_abort_def releaseNativeSplash_def hide_splash_def\<close>)

lemma loading_run: "loading_inv p (preferences b) \<Longrightarrow> honest_run b es \<Longrightarrow> loading_inv p (preferences (foldl boot_step b es))"
  by (induction es arbitrary: b) (simp_all add: loading_step del: boot_step.simps)

text \<open>After a page load every key has its local value of before, or, on Android, the native value it had.\<close>

lemma page_loaded_local:
  assumes "page_loaded p d"
  shows "om_get (local_store d) k = om_get (local_store p) k \<or>
    on_android p \<and> om_get (native_store p) k \<noteq> None \<and> om_get (local_store d) k = om_get (native_store p) k"
proof -
  obtain z es where d: "honest_run (new_page p) (Hydrate_called z # es)"
      "d = preferences (foldl boot_step (new_page p) (Hydrate_called z # es))"
    using assms unfolding page_loaded_def by blast
  have "loading_inv p (preferences (new_page p))"
    by (simp add: loading_inv_def loaded_value_def copied_value_def new_page_def beginNativeStartup_def empty_prefs_def queue_of_def)
  from loading_run [OF this d(1)] have "loaded_value p k (om_get (local_store d) k)" by (simp only: d(2) loading_inv_def)
  then show ?thesis by (simp add: loaded_value_def)
qed

text \<open>A page that loads without a failure takes every native value; on the web, or past the deadline, none.\<close>

lemma page_merged:
  assumes "on_android p"
  shows "\<exists>d. page_loaded p d \<and> (\<forall>k \<in> set NATIVE_PREFERENCE_KEYS. om_get (local_store d) k =
    (case om_get (native_store p) k of Some v \<Rightarrow> Some v | None \<Rightarrow> om_get (local_store p) k))"
proof -
  let ?es = "concat (map (hydrate_key_events (native_store p)) NATIVE_PREFERENCE_KEYS)"
  let ?b = "foldl boot_step (new_page p) (Hydrate_called False # ?es)"
  have n: "new_page p = beginNativeStartup (empty_prefs True (local_store p) (native_store p))"
    using assms by (simp add: new_page_def)
  have h: "honest_run b (concat (map (hydrate_key_events (native_store p)) ks))"
    if "hydrating_at (local_store p) (native_store p) ks b" "distinct ks" "set ks \<subseteq> set NATIVE_PREFERENCE_KEYS" for ks b
    using that
  proof (induction ks arbitrary: b)
    case (Cons k ks)
    have "honest b (Get_answered (Got (om_get (native_store p) k)))"
      using Cons.prems(1) by (auto simp: honest_def hydrating_at_def Let_def)
    then have "honest_run b (hydrate_key_events (native_store p) k)"
      by (simp add: hydrate_key_events_def honest_def)
    moreover have "honest_run b (xs @ ys) = (honest_run b xs \<and> honest_run (foldl boot_step b xs) ys)" for xs ys b
      by (induction xs arbitrary: b) auto
    moreover have "honest_run (foldl boot_step b (hydrate_key_events (native_store p) k)) (concat (map (hydrate_key_events (native_store p)) ks))"
      using Cons.IH [OF hydrating_at_step [OF Cons.prems]] Cons.prems(2,3) by simp
    ultimately show ?case by simp
  qed simp
  have "honest_run (new_page p) (Hydrate_called False # ?es)"
    unfolding n honest_run.simps using h [OF hydrating_at_start distinct_keys subset_refl] by (simp add: honest_def)
  moreover have "hydration_settled ?b \<and> om_get (local_store (preferences ?b)) k =
      (case om_get (native_store p) k of Some v \<Rightarrow> Some v | None \<Rightarrow> om_get (local_store p) k)"
    if "k \<in> set NATIVE_PREFERENCE_KEYS" for k
    using hydration_merges [of ?b "local_store p" "native_store p", OF _ that] unfolding n by blast
  moreover have "NATIVE_PREFERENCE_KEYS \<noteq> []" by (simp add: NATIVE_PREFERENCE_KEYS_def)
  then obtain k0 where "k0 \<in> set NATIVE_PREFERENCE_KEYS" using hd_in_set by blast
  ultimately show ?thesis unfolding page_loaded_def by blast
qed

lemma page_unread: "\<exists>d. page_loaded p d \<and> local_store d = local_store p"
proof -
  have "honest_run (new_page p) [Hydrate_called True]" by (simp add: honest_def)
  moreover have "hydration_settled (foldl boot_step (new_page p) [Hydrate_called True])"
      "local_store (preferences (foldl boot_step (new_page p) [Hydrate_called True])) = local_store p"
    by (simp_all add: new_page_def beginNativeStartup_def empty_prefs_def hydratePreferences_def Let_def)
  ultimately show ?thesis unfolding page_loaded_def by metis
qed

section \<open>A mirror that has caught up\<close>

definition in_step :: "string \<Rightarrow> prefs \<Rightarrow> bool" where
  "in_step k p = mirrors k (om_get (local_store p) k) p"

lemma in_step_own:
  assumes "on_android p" "k \<in> set NATIVE_PREFERENCE_KEYS"
  shows "in_step k (persist k v p)" "in_step k (unpersist k p)"
proof -
  have "queue_of (persist k v p) k = queue_of p k @ [write_of (Some v)]" "queue_of (unpersist k p) k = queue_of p k @ [write_of None]"
    using persist_queue(1,2) [OF assms(2,1)] by (simp_all add: write_of_def)
  then have "mirrors k (Some v) (persist k v p)" "mirrors k None (unpersist k p)" by (blast intro: mirrors_snoc)+
  then show "in_step k (persist k v p)" "in_step k (unpersist k p)" using assms(2) by (simp_all add: in_step_def persist_local)
qed

lemma in_step_other:
  assumes "j \<noteq> k"
  shows "in_step k (persist j v p) = in_step k p" "in_step k (unpersist j p) = in_step k p"
proof -
  have l: "om_get (local_store (persist j v p)) k = om_get (local_store p) k" "om_get (local_store (unpersist j p)) k = om_get (local_store p) k"
    using assms by (simp_all add: persist_local)
  show "in_step k (persist j v p) = in_step k p" "in_step k (unpersist j p) = in_step k p"
    unfolding in_step_def l using assms by (rule_tac mirrors_frame; simp add: persist_queue_other)+
qed

lemma in_step_write:
  assumes "on_android p"
  shows "k \<in> set NATIVE_PREFERENCE_KEYS \<Longrightarrow> in_step k (persist k v p)" "k \<in> set NATIVE_PREFERENCE_KEYS \<Longrightarrow> in_step k (unpersist k p)"
    "k \<in> set NATIVE_PREFERENCE_KEYS \<Longrightarrow> in_step k p \<Longrightarrow> in_step k (persist j v p)"
    "k \<in> set NATIVE_PREFERENCE_KEYS \<Longrightarrow> in_step k p \<Longrightarrow> in_step k (unpersist j p)"
  using in_step_own [OF assms] in_step_other by metis+

text \<open>Native mutations that settle, none of them rejected.\<close>

definition native_settled :: "string list \<Rightarrow> prefs \<Rightarrow> prefs" where
  "native_settled ks p = foldl (\<lambda>q k. settle_mutation k True q) p ks"

lemma native_settled_frame:
  "local_store (native_settled ks p) = local_store p" "on_android (native_settled ks p) = on_android p"
  by (induction ks arbitrary: p) (simp_all add: native_settled_def)

lemma native_settled_in_step: "in_step k p \<Longrightarrow> in_step k (native_settled ks p)"
proof (induction ks arbitrary: p)
  case (Cons j ks)
  have "in_step k (settle_mutation j True p)" using Cons.prems mirrors_settle [of k _ p j True] by (simp add: in_step_def)
  from Cons.IH [OF this] show ?case by (simp add: native_settled_def)
qed (simp add: native_settled_def)

lemma drained_mirror: "in_step k p \<Longrightarrow> queue_of p k = [] \<Longrightarrow> om_get (native_store p) k = om_get (local_store p) k"
  by (simp add: in_step_def mirrors_def)

end
