(* ===== verification/DevicePin.thy ===== *)
theory DevicePin
  imports JsValues
begin

text \<open>
  The app PIN, \<open>web/src/platform/device-pin.ts\<close>, and the gate that asks for it,
  \<open>web/src/components/device-access-gate.tsx\<close>. SHA-256 is a parameter, a function from bytes to
  bytes; the code relies on its giving 32 bytes. The characters of a PIN are ASCII digits once it is
  validated, so \<open>TextEncoder\<close> gives their code units.
\<close>

unbundle bit_operations_syntax

definition validateDevicePin :: "string \<Rightarrow> string option" where
  "validateDevicePin pin =
     (if length pin = 6 \<and> all_digits pin then None else Some ''Use a 6 digit app PIN.'')"

definition hex_digit :: "nat \<Rightarrow> char" where
  "hex_digit n = (if n < 10 then char_of (48 + n) else char_of (87 + n))"

text \<open>\<open>byte.toString(16).padStart(2, '0')\<close> for a byte.\<close>

definition hex_byte :: "nat \<Rightarrow> string" where
  "hex_byte b = pad_start 2 (CHR ''0'') (if b < 16 then [hex_digit b] else [hex_digit (b div 16), hex_digit (b mod 16)])"

definition toHex :: "nat list \<Rightarrow> string" where
  "toHex bytes = concat (map hex_byte bytes)"

type_synonym sha256 = "nat list \<Rightarrow> nat list"

text \<open>An exception the module throws carries its message.\<close>

definition hashDevicePin :: "sha256 \<Rightarrow> string \<Rightarrow> string + string" where
  "hashDevicePin sha pin = (case validateDevicePin pin of
       Some message \<Rightarrow> Inl message
     | None \<Rightarrow> Inr (toHex (sha (map code_of pin))))"

definition is_hex_char :: "char \<Rightarrow> bool" where
  "is_hex_char c = (is_digit c \<or> (97 \<le> code_of c \<and> code_of c \<le> 102) \<or> (65 \<le> code_of c \<and> code_of c \<le> 70))"

definition is_digest :: "string \<Rightarrow> bool" where
  "is_digest s = (length s = 64 \<and> list_all is_hex_char s)"

text \<open>\<open>s.charCodeAt(i) || 0\<close>.\<close>

definition char_code_or_0 :: "string \<Rightarrow> nat \<Rightarrow> int" where
  "char_code_or_0 s i = (if i < length s then int (code_of (s ! i)) else 0)"

text \<open>The loop that compares two strings without stopping at the first difference.\<close>

fun difference_from :: "string \<Rightarrow> string \<Rightarrow> nat \<Rightarrow> nat \<Rightarrow> int \<Rightarrow> int" where
  "difference_from a e i 0 d = d"
| "difference_from a e i (Suc n) d =
     difference_from a e (Suc i) n (d OR (char_code_or_0 a i XOR char_code_or_0 e i))"

definition constant_time_equal :: "string \<Rightarrow> string \<Rightarrow> bool" where
  "constant_time_equal a e =
     (difference_from a e 0 (max (length a) (length e)) (if length a = length e then 0 else 1) = 0)"

definition verifyDevicePin :: "sha256 \<Rightarrow> string \<Rightarrow> string \<Rightarrow> string + bool" where
  "verifyDevicePin sha pin expectedDigest =
     (if validateDevicePin pin \<noteq> None \<or> \<not> is_digest expectedDigest then Inr False
      else bind_result (hashDevicePin sha pin)
        (\<lambda>actualDigest. Inr (constant_time_equal actualDigest (js_lower expectedDigest))))"

section \<open>The gate\<close>

datatype gate_mode = Gate_setup | Gate_unlock

record gate =
  gate_pin :: string
  gate_error :: string
  gate_submitting :: bool

definition initial_gate :: gate where
  "initial_gate = \<lparr>gate_pin = [], gate_error = [], gate_submitting = False\<rparr>"

definition updatePin :: "string \<Rightarrow> gate \<Rightarrow> gate" where
  "updatePin v g = g\<lparr>gate_pin := take 6 (filter is_digit v), gate_error := []\<rparr>"

text \<open>
  What submitting asks for: nothing (an error is shown, or a submission is running), the digest to
  store, or the unlocking of the device.
\<close>

datatype gate_action = Gate_nothing | Gate_configure string | Gate_unlocked

text \<open>
  The handler up to and including the answer of the hash; \<open>saved\<close> tells whether the setup callback
  of the application fulfilled. The component is over once the application leaves the gated state.
\<close>

definition submit_gate :: "sha256 \<Rightarrow> bool \<Rightarrow> gate_mode \<Rightarrow> string option \<Rightarrow> gate \<Rightarrow> gate \<times> gate_action" where
  "submit_gate sha saved mode pinDigest g =
     (if gate_submitting g then (g, Gate_nothing)
      else case validateDevicePin (gate_pin g) of
        Some message \<Rightarrow> (g\<lparr>gate_error := message\<rparr>, Gate_nothing)
      | None \<Rightarrow>
          if mode \<noteq> Gate_setup \<and> (pinDigest = None \<or> pinDigest = Some [])
          then (g\<lparr>gate_error := ''This device PIN is unavailable. Sign in again to continue.''\<rparr>, Gate_nothing)
          else if mode = Gate_setup then
            (case hashDevicePin sha (gate_pin g) of
               Inl _ \<Rightarrow> (g\<lparr>gate_error := ''The app PIN could not be saved. Try again.''\<rparr>, Gate_nothing)
             | Inr digest \<Rightarrow>
                 if saved then (g\<lparr>gate_error := []\<rparr>, Gate_configure digest)
                 else (g\<lparr>gate_error := ''The app PIN could not be saved. Try again.''\<rparr>, Gate_configure digest))
          else
            (case verifyDevicePin sha (gate_pin g) (case pinDigest of Some d \<Rightarrow> d | None \<Rightarrow> []) of
               Inl _ \<Rightarrow> (g\<lparr>gate_error := ''The app PIN could not be verified. Try again.''\<rparr>, Gate_nothing)
             | Inr True \<Rightarrow> (g\<lparr>gate_error := []\<rparr>, Gate_unlocked)
             | Inr False \<Rightarrow> (g\<lparr>gate_error := ''That PIN is not correct.''\<rparr>, Gate_nothing)))"

section \<open>Lemmas\<close>

lemma xor_eq_0_iff: "(a XOR b = 0) = (a = (b::int))"
  by (metis xor.assoc xor.left_neutral xor.right_neutral xor_self_eq)

lemma difference_zero:
  "difference_from a e i n d = 0 \<longleftrightarrow>
   d = 0 \<and> (\<forall>j. i \<le> j \<and> j < i + n \<longrightarrow> char_code_or_0 a j = char_code_or_0 e j)"
proof (induction n arbitrary: i d)
  case (Suc n)
  have "(\<forall>j. i \<le> j \<and> j < i + Suc n \<longrightarrow> P j) = (P i \<and> (\<forall>j. Suc i \<le> j \<and> j < Suc i + n \<longrightarrow> P j))" for P
    by (auto simp: Suc_le_eq) (metis le_neq_implies_less)
  then show ?case
    by (simp only: difference_from.simps Suc.IH or_eq_0_iff xor_eq_0_iff) blast
qed simp

lemma constant_time_equal_iff: "constant_time_equal a e = (a = e)"
proof
  assume h: "constant_time_equal a e"
  then have l: "length a = length e"
    by (simp add: constant_time_equal_def difference_zero split: if_splits)
  have "a ! j = e ! j" if "j < length a" for j
    using h l that by (auto simp: constant_time_equal_def difference_zero char_code_or_0_def code_of_inject)
  with l show "a = e" by (intro nth_equalityI) auto
qed (simp add: constant_time_equal_def difference_zero)

text \<open>What the code relies on of SHA-256: thirty-two bytes.\<close>

definition bytes32 :: "sha256 \<Rightarrow> bool" where
  "bytes32 sha = (\<forall>bs. length (sha bs) = 32 \<and> (\<forall>b \<in> set (sha bs). b < 256))"

lemma hex_digit_hex: "n < 16 \<Longrightarrow> is_hex_char (hex_digit n)" "n < 16 \<Longrightarrow> lower_char (hex_digit n) = hex_digit n"
  by (auto simp: hex_digit_def is_hex_char_def is_digit_def lower_char_def Let_def)

lemma hex_byte_hex:
  assumes "b < 256"
  shows "length (hex_byte b) = 2" "list_all is_hex_char (hex_byte b)" "js_lower (hex_byte b) = hex_byte b"
proof -
  have "b div 16 < 16" "b mod 16 < 16" using assms by auto
  moreover have "is_hex_char (CHR ''0'')" "lower_char (CHR ''0'') = CHR ''0''" by code_simp+
  ultimately show "length (hex_byte b) = 2" "list_all is_hex_char (hex_byte b)" "js_lower (hex_byte b) = hex_byte b"
    by (cases "b < 16"; simp add: hex_byte_def pad_start_def hex_digit_hex js_lower_def)+
qed

lemma toHex_hex:
  "\<forall>b \<in> set bs. b < 256 \<Longrightarrow> length (toHex bs) = 2 * length bs \<and> list_all is_hex_char (toHex bs) \<and> js_lower (toHex bs) = toHex bs"
  by (induction bs) (use hex_byte_hex in \<open>auto simp: toHex_def js_lower_def\<close>)

lemma hashDevicePin_digest:
  assumes "bytes32 sha" "hashDevicePin sha pin = Inr d"
  shows "is_digest d" "js_lower d = d"
  using assms toHex_hex [of "sha (map code_of pin)"]
  by (auto simp: hashDevicePin_def bytes32_def is_digest_def split: option.splits)

lemma verifyDevicePin_iff:
  "verifyDevicePin sha pin d =
     Inr (validateDevicePin pin = None \<and> is_digest d \<and> hashDevicePin sha pin = Inr (js_lower d))"
  by (auto simp: verifyDevicePin_def hashDevicePin_def constant_time_equal_iff)

section \<open>Properties\<close>

text \<open>Verifying a PIN never throws and answers exactly whether the PIN has six digits, the stored
  digest has the shape of a digest, and the PIN's digest equals it up to letter case: the loop that
  never stops early still decides equality.\<close>

theorem verifyDevicePin_correct:
  "verifyDevicePin sha pin d =
     Inr (validateDevicePin pin = None \<and> is_digest d \<and> toHex (sha (map code_of pin)) = js_lower d)"
  by (auto simp: verifyDevicePin_iff hashDevicePin_def)

text \<open>A PIN that was set up unlocks: with a hash function that gives thirty-two bytes, the digest of
  a PIN verifies against that PIN, and against another valid PIN only when the two have the same hash.\<close>

theorem device_pin_roundtrip:
  assumes "bytes32 sha" and "hashDevicePin sha pin = Inr d"
  shows "verifyDevicePin sha pin d = Inr True \<and>
    (verifyDevicePin sha other d = Inr True \<longrightarrow>
       validateDevicePin other = None \<and> hashDevicePin sha other = hashDevicePin sha pin)"
  using hashDevicePin_digest [OF assms] assms(2)
  by (auto simp: verifyDevicePin_iff hashDevicePin_def split: option.splits)

text \<open>A function that keeps the PIN's bytes and pads them stands in for the hash.\<close>

theorem device_pin_roundtrip_witness:
  "bytes32 (\<lambda>bs. map (\<lambda>b. b mod 256) (take 32 (bs @ replicate 32 0))) \<and>
   (\<exists>d. verifyDevicePin (\<lambda>bs. map (\<lambda>b. b mod 256) (take 32 (bs @ replicate 32 0))) ''123456'' d = Inr True)"
proof -
  let ?sha = "\<lambda>bs. map (\<lambda>b. b mod 256) (take 32 (bs @ replicate 32 (0::nat)))"
  have b: "bytes32 ?sha" by (auto simp: bytes32_def)
  have "hashDevicePin ?sha ''123456'' = Inr (toHex (?sha (map code_of ''123456'')))"
    by (simp add: hashDevicePin_def validateDevicePin_def all_digits_def is_digit_def code_of_def)
  from device_pin_roundtrip [OF b this] b show ?thesis by blast
qed

end
