(* ===== verification/Categories.thy ===== *)
theory Categories
  imports JsValues DomainTypes
begin

text \<open>
  Currencies (\<open>web/src/domain/currencies.ts\<close>) and transaction categories
  (\<open>web/src/domain/transaction-categories.ts\<close>). The collation of the browser,
  \<open>localeCompare\<close>, is a parameter; sort positions are whole numbers.
\<close>

section \<open>Currencies\<close>

definition DEFAULT_CURRENCY :: string where
  "DEFAULT_CURRENCY = ''INR''"

definition CURRENCY_OPTIONS :: "(string \<times> string) list" where
  "CURRENCY_OPTIONS =
    [(''INR'', ''Indian rupee (INR)''), (''USD'', ''US dollar (USD)''), (''EUR'', ''Euro (EUR)''),
     (''GBP'', ''British pound (GBP)''), (''AED'', ''UAE dirham (AED)''),
     (''AUD'', ''Australian dollar (AUD)''), (''CAD'', ''Canadian dollar (CAD)''),
     (''CHF'', ''Swiss franc (CHF)''), (''CNY'', ''Chinese yuan (CNY)''),
     (''HKD'', ''Hong Kong dollar (HKD)''), (''JPY'', ''Japanese yen (JPY)''),
     (''KRW'', ''South Korean won (KRW)''), (''MXN'', ''Mexican peso (MXN)''),
     (''NZD'', ''New Zealand dollar (NZD)''), (''SGD'', ''Singapore dollar (SGD)''),
     (''ZAR'', ''South African rand (ZAR)'')]"

definition is_currency_code :: "string \<Rightarrow> bool" where
  "is_currency_code s = (length s = 3 \<and> list_all is_upper_az s)"

definition normalizeCurrency :: "json \<Rightarrow> string \<Rightarrow> string" where
  "normalizeCurrency v fallback =
     (let normalized = (case v of JStr s \<Rightarrow> js_upper (js_trim s) | _ \<Rightarrow> [])
      in if is_currency_code normalized then normalized else fallback)"

definition isSupportedCurrency :: "json \<Rightarrow> bool" where
  "isSupportedCurrency v = (case v of JStr s \<Rightarrow> s \<in> set (map fst CURRENCY_OPTIONS) | _ \<Rightarrow> False)"

definition currencyLabel :: "string \<Rightarrow> string" where
  "currencyLabel v =
     (let normalized = normalizeCurrency (JStr v) DEFAULT_CURRENCY
      in case map_of CURRENCY_OPTIONS normalized of
           Some label \<Rightarrow> label
         | None \<Rightarrow> normalized @ '' currency ('' @ normalized @ '')'')"

section \<open>Categories by transaction mode\<close>

datatype mode = Mode_expense | Mode_income | Mode_transfer | Mode_split

definition TRANSACTION_CATEGORY_MODES :: "mode list" where
  "TRANSACTION_CATEGORY_MODES = [Mode_expense, Mode_income, Mode_transfer, Mode_split]"

fun mode_name :: "mode \<Rightarrow> string" where
  "mode_name Mode_expense = ''expense''"
| "mode_name Mode_income = ''income''"
| "mode_name Mode_transfer = ''transfer''"
| "mode_name Mode_split = ''split''"

record transaction_category =
  cat_id :: string
  cat_transactionType :: mode
  cat_name :: string
  cat_description :: "string option"
  cat_icon :: "string option"
  cat_color :: "string option"
  cat_sortOrder :: int
  cat_isActive :: bool
  cat_usageCount :: "int option"

record sequence_setting =
  sq_transactionType :: mode
  sq_autoGenerate :: bool
  sq_nextNumber :: int
  sq_minimumDigits :: int
  sq_preview :: string
  sq_minimumAvailableNextNumber :: int

fun categoriesForTransactionMode :: "mode \<Rightarrow> string list" where
  "categoriesForTransactionMode Mode_income =
     [''Salary'', ''Freelance'', ''Business'', ''Bonus'', ''Interest'', ''Investment'', ''Refund'',
      ''Gift'', ''Other income'']"
| "categoriesForTransactionMode Mode_split = [''Split expense'', ''Dining'', ''Travel'', ''Household'']"
| "categoriesForTransactionMode Mode_transfer = [''Transfer'']"
| "categoriesForTransactionMode Mode_expense =
     [''General'', ''Groceries'', ''Dining'', ''Transport'', ''Utilities'', ''Housing'', ''Health'',
      ''Shopping'', ''Entertainment'', ''Travel'', ''Fees'']"

text \<open>\<open>Number.isSafeInteger(x)\<close>, with the integer when it is one.\<close>

definition safe_integer :: "jsnum \<Rightarrow> int option" where
  "safe_integer x = (case x of
       Fin r \<Rightarrow> if is_whole r \<and> \<bar>\<lfloor>r\<rfloor>\<bar> \<le> max_safe_integer then Some \<lfloor>r\<rfloor> else None
     | _ \<Rightarrow> None)"

definition transactionSequencePreview :: "jsnum \<Rightarrow> jsnum \<Rightarrow> string" where
  "transactionSequencePreview nextNumber minimumDigits =
     (let normalizedNumber = (case safe_integer nextNumber of Some n \<Rightarrow> max 1 n | None \<Rightarrow> 1);
          normalizedDigits = (case safe_integer minimumDigits of Some d \<Rightarrow> min 18 (max 1 d) | None \<Rightarrow> 4)
      in pad_start (nat normalizedDigits) (CHR ''0'') (int_string normalizedNumber))"

definition demoTransactionSequences :: "sequence_setting list" where
  "demoTransactionSequences = map (\<lambda>m.
     \<lparr>sq_transactionType = m, sq_autoGenerate = True, sq_nextNumber = 1, sq_minimumDigits = 4,
      sq_preview = ''0001'', sq_minimumAvailableNextNumber = 1\<rparr>) TRANSACTION_CATEGORY_MODES"

definition demoTransactionCategories :: "mode \<Rightarrow> transaction_category list" where
  "demoTransactionCategories m = map (\<lambda>(sortOrder, name).
     \<lparr>cat_id = ''demo-'' @ mode_name m @ ''-'' @ nat_digits sortOrder, cat_transactionType = m,
      cat_name = name, cat_description = None, cat_icon = None, cat_color = None,
      cat_sortOrder = int sortOrder, cat_isActive = True, cat_usageCount = Some 0\<rparr>)
     (List.enumerate 0 (categoriesForTransactionMode m))"

definition category_cmp ::
  "(string \<Rightarrow> string \<Rightarrow> int) \<Rightarrow> transaction_category \<Rightarrow> transaction_category \<Rightarrow> int" where
  "category_cmp localeCompare =
     cmp_then (\<lambda>l r. cat_sortOrder l - cat_sortOrder r) (cmp_on localeCompare cat_name)"

definition orderedTransactionCategories ::
  "(string \<Rightarrow> string \<Rightarrow> int) \<Rightarrow> transaction_category list \<Rightarrow> transaction_category list" where
  "orderedTransactionCategories localeCompare categories = js_sort (category_cmp localeCompare) categories"

definition selectableTransactionCategoryNames ::
  "(string \<Rightarrow> string \<Rightarrow> int) \<Rightarrow> transaction_category list \<Rightarrow> string list" where
  "selectableTransactionCategoryNames localeCompare categories =
     map cat_name (filter cat_isActive (orderedTransactionCategories localeCompare categories))"

text \<open>
  The argument of \<open>transactionCategoryModeFor\<close>: its raw type is any string, its scope, when
  there is one, is a mode.
\<close>

record mode_hints =
  mh_rawType :: "string option"
  mh_direction :: "direction option"
  mh_hasSplits :: bool
  mh_transactionIdScope :: "mode option"

definition transactionCategoryModeFor :: "mode_hints \<Rightarrow> mode" where
  "transactionCategoryModeFor t =
     (case mh_transactionIdScope t of
        Some scope \<Rightarrow> scope
      | None \<Rightarrow>
          if mh_hasSplits t \<or> mh_rawType t = Some ''split'' then Mode_split
          else if mh_rawType t = Some ''transfer'' then Mode_transfer
          else if mh_rawType t = Some ''income'' \<or> mh_rawType t = Some ''refund''
               \<or> mh_rawType t = Some ''reimbursement'' \<or> mh_direction t = Some Credit then Mode_income
          else Mode_expense)"

definition categoryForTransactionMode :: "mode \<Rightarrow> string \<Rightarrow> string" where
  "categoryForTransactionMode m current =
     (let categories = categoriesForTransactionMode m
      in if current \<in> set categories then current
         else case categories of c # _ \<Rightarrow> c | [] \<Rightarrow> [])"

section \<open>Lemmas\<close>

lemma category_cmp_comparator: "comparator lc \<Longrightarrow> comparator (category_cmp lc)"
  unfolding category_cmp_def by (intro comparator_then_key comparator_cmp_on)

interpretation sort_position: comparator "\<lambda>l r. cat_sortOrder l - cat_sortOrder r"
  by (rule comparator_key)

lemma upper_char_upper_az: "is_upper_az c \<Longrightarrow> upper_char c = [c]"
  by (auto simp: is_upper_az_def upper_char_def Let_def)

lemma js_upper_upper_az: "list_all is_upper_az s \<Longrightarrow> js_upper s = s"
  by (induction s) (auto simp: js_upper_def upper_char_upper_az)

lemma upper_az_not_space: "is_upper_az c \<Longrightarrow> \<not> is_space c"
  by (auto simp: is_upper_az_def is_space_def Let_def)

lemma js_trim_upper_az: "list_all is_upper_az s \<Longrightarrow> js_trim s = s"
  by (rule js_trim_fixed) (auto simp: upper_az_not_space list_all_iff)

lemma normalizeCurrency_code: "is_currency_code s \<Longrightarrow> normalizeCurrency (JStr s) fb = s"
  by (simp add: normalizeCurrency_def is_currency_code_def js_trim_upper_az js_upper_upper_az)

lemma normalizeCurrency_cases: "is_currency_code (normalizeCurrency v fb) \<or> normalizeCurrency v fb = fb"
  by (simp add: normalizeCurrency_def Let_def)

lemma default_is_code: "is_currency_code DEFAULT_CURRENCY"
  by code_simp

lemma options_codes: "list_all (\<lambda>p. is_currency_code (fst p)) CURRENCY_OPTIONS"
  by code_simp

lemma safe_integer_of_int [simp]: "safe_integer (Fin (of_int n)) = (if \<bar>n\<bar> \<le> max_safe_integer then Some n else None)"
  by (simp add: safe_integer_def is_whole_def)

lemma safe_integer_Some: "safe_integer x = Some n \<longleftrightarrow> x = Fin (of_int n) \<and> \<bar>n\<bar> \<le> max_safe_integer"
  by (auto simp: safe_integer_def is_whole_def split: jsnum.splits if_splits)

lemma preview_unfold:
  "\<exists>n d. 1 \<le> n \<and> 1 \<le> d \<and> d \<le> 18 \<and>
     transactionSequencePreview x y = pad_start (nat d) (CHR ''0'') (nat_digits (nat n)) \<and>
     n = (case safe_integer x of Some n \<Rightarrow> max 1 n | None \<Rightarrow> 1) \<and>
     d = (case safe_integer y of Some d \<Rightarrow> min 18 (max 1 d) | None \<Rightarrow> 4)"
  by (simp add: transactionSequencePreview_def int_string_def split: option.splits)

section \<open>Properties\<close>

text \<open>The category list is ordered by position and then by the browser's collation, loses and
  invents nothing, and keeps the order of the input among categories that the comparison puts level;
  a name can be selected exactly when an active category carries it.\<close>

theorem ordered_categories_correct:
  assumes "comparator lc"
  shows "mset (orderedTransactionCategories lc cs) = mset cs \<and>
    sorted_wrt (\<lambda>a b. cat_sortOrder a < cat_sortOrder b \<or>
       (cat_sortOrder a = cat_sortOrder b \<and> lc (cat_name a) (cat_name b) \<le> 0))
      (orderedTransactionCategories lc cs) \<and>
    filter (\<lambda>c. cat_sortOrder c = p \<and> cat_name c = n) (orderedTransactionCategories lc cs) =
      filter (\<lambda>c. cat_sortOrder c = p \<and> cat_name c = n) cs \<and>
    set (selectableTransactionCategoryNames lc cs) = {cat_name c | c. c \<in> set cs \<and> cat_isActive c}"
proof -
  have c: "comparator (category_cmp lc)" by (rule category_cmp_comparator [OF assms])
  have le: "(category_cmp lc a b \<le> 0) = (cat_sortOrder a < cat_sortOrder b \<or>
     (cat_sortOrder a = cat_sortOrder b \<and> lc (cat_name a) (cat_name b) \<le> 0))" for a b
    by (auto simp: category_cmp_def cmp_then_def cmp_on_def Let_def)
  have "sorted_wrt (\<lambda>a b. category_cmp lc a b \<le> 0) (orderedTransactionCategories lc cs)"
    unfolding orderedTransactionCategories_def by (rule comparator.sorted_js_sort [OF c])
  moreover have "filter (\<lambda>c. cat_sortOrder c = p \<and> cat_name c = n) (orderedTransactionCategories lc cs) =
      filter (\<lambda>c. cat_sortOrder c = p \<and> cat_name c = n) cs"
    unfolding orderedTransactionCategories_def
    using comparator.cmp_refl [OF assms]
    by (intro comparator.js_sort_stable [OF c]) (simp add: le)
  ultimately show ?thesis
    unfolding le by (auto simp: orderedTransactionCategories_def selectableTransactionCategoryNames_def)
qed

text \<open>Collation by length stands in for the browser's in the closed instance.\<close>

theorem ordered_categories_correct_witness:
  "comparator (\<lambda>a b :: string. int (length a) - int (length b)) \<and>
   set (selectableTransactionCategoryNames (\<lambda>a b. int (length a) - int (length b))
      (demoTransactionCategories Mode_transfer)) = {''Transfer''}"
proof -
  have c: "comparator (\<lambda>a b :: string. int (length a) - int (length b))" by (rule comparator_key)
  have "{cat_name c | c. c \<in> set (demoTransactionCategories Mode_transfer) \<and> cat_isActive c} = {''Transfer''}"
    by (simp add: demoTransactionCategories_def)
  with c ordered_categories_correct [OF c, of "demoTransactionCategories Mode_transfer"] show ?thesis
    by simp
qed

text \<open>The preview of a transaction number denotes that number, is never shorter than the width
  asked for nor wider than it has to be, and falls back to 1 and to four digits when the settings
  are not safe integers.\<close>

theorem sequence_preview_correct:
  "all_digits (transactionSequencePreview x y) \<and>
   int (digits_value (transactionSequencePreview x y)) =
     (case safe_integer x of Some n \<Rightarrow> max 1 n | None \<Rightarrow> 1) \<and>
   int (length (transactionSequencePreview x y)) =
     max (case safe_integer y of Some d \<Rightarrow> min 18 (max 1 d) | None \<Rightarrow> 4)
         (int (length (int_string (case safe_integer x of Some n \<Rightarrow> max 1 n | None \<Rightarrow> 1))))"
proof -
  obtain n d where p: "1 \<le> n" "1 \<le> d" "d \<le> 18"
     "transactionSequencePreview x y = pad_start (nat d) (CHR ''0'') (nat_digits (nat n))"
     "n = (case safe_integer x of Some n \<Rightarrow> max 1 n | None \<Rightarrow> 1)"
     "d = (case safe_integer y of Some d \<Rightarrow> min 18 (max 1 d) | None \<Rightarrow> 4)"
    using preview_unfold [of x y] by blast
  show ?thesis
    unfolding p(4) p(5,6) [symmetric]
    using p(1-3) by (simp add: pad_start_length int_string_def)
qed

text \<open>With a currency code as the fallback, normalizing anything gives three capital letters,
  normalizing the result again changes nothing, and every supported currency is left as it is.\<close>

theorem normalizeCurrency_correct:
  assumes "is_currency_code fb"
  shows "is_currency_code (normalizeCurrency v fb) \<and>
    normalizeCurrency (JStr (normalizeCurrency v fb)) fb' = normalizeCurrency v fb \<and>
    (isSupportedCurrency (JStr s) \<longrightarrow> normalizeCurrency (JStr s) fb' = s)"
proof -
  have "is_currency_code (normalizeCurrency v fb)"
    using normalizeCurrency_cases [of v fb] assms by auto
  moreover have "isSupportedCurrency (JStr s) \<Longrightarrow> is_currency_code s"
    using options_codes by (auto simp: isSupportedCurrency_def list_all_iff)
  ultimately show ?thesis
    by (simp add: normalizeCurrency_code)
qed

theorem normalizeCurrency_correct_witness:
  "is_currency_code (normalizeCurrency JNull ''INR'') \<and> normalizeCurrency (JStr ''USD'') ''INR'' = ''USD''"
proof -
  have "is_currency_code ''INR''" "isSupportedCurrency (JStr ''USD'')" by code_simp+
  with normalizeCurrency_correct [of "''INR''" JNull _ "''USD''"] show ?thesis by simp
qed

end
