(* ===== verification/AppContext.thy ===== *)
theory AppContext
  imports Startup DevicePin Categories
begin

text \<open>
  The application state, \<open>web/src/app/app-context.tsx\<close>, with the restoring of the session token,
  \<open>web/src/platform/auth-session.ts\<close>. The record holds the provider's React state, its ref, the
  device preferences, the bearer token of the API client and the requests in flight. What comes from
  storage or from the server is a value of unknown type, as in the code, which casts it; a list of
  workspaces from the server is a list of objects. A handler that awaits a request is split at that
  await: it leaves a pending continuation with the values its closure captured, and a later reply
  resumes it. A restart is a new page load: the bootstrap hydrates the local store from the native one, on
  Android, before the first render.
\<close>

section \<open>Stored values\<close>

datatype theme = Theme_light | Theme_dark | Theme_system

definition readStored :: "string \<Rightarrow> json \<Rightarrow> prefs \<Rightarrow> json" where
  "readStored key fallback p = (case om_get (local_store p) key of
       None \<Rightarrow> fallback
     | Some stored \<Rightarrow> if stored = [] then fallback
         else (case JSON_parse stored of Inl _ \<Rightarrow> fallback | Inr v \<Rightarrow> v))"

definition storedWorkspace :: "prefs \<Rightarrow> json" where
  "storedWorkspace = readStored ''mt-workspace'' JNull"

definition storedDefaultWorkspaceId :: "prefs \<Rightarrow> json" where
  "storedDefaultWorkspaceId = readStored ''mt-default-workspace-id'' (JStr [])"

definition storedTheme :: "prefs \<Rightarrow> theme" where
  "storedTheme p = (let v = readStored ''mt-theme'' (JStr ''system'') p
     in if v = JStr ''light'' then Theme_light else if v = JStr ''dark'' then Theme_dark else Theme_system)"

definition storedRemember :: "prefs \<Rightarrow> bool" where
  "storedRemember p = truthy (readStored ''mt-remember'' (JBool False) p)"

definition storedAuthToken :: "prefs \<Rightarrow> json" where
  "storedAuthToken = readStored ''mt-auth-token'' JNull"

definition storedUserId :: "prefs \<Rightarrow> json" where
  "storedUserId = readStored ''mt-user-id'' (JStr [])"

definition storedDemo :: "prefs \<Rightarrow> bool" where
  "storedDemo p = truthy (readStored ''mt-demo'' (JBool False) p)"

definition storedPreferredCurrency :: "prefs \<Rightarrow> string" where
  "storedPreferredCurrency p =
     normalizeCurrency (readStored ''mt-preferred-currency'' (JStr DEFAULT_CURRENCY) p) DEFAULT_CURRENCY"

text \<open>The pattern is applied to the string form of the stored value.\<close>

definition storedAppPinHash :: "prefs \<Rightarrow> string option" where
  "storedAppPinHash p = (let v = readStored ''mt-app-pin-hash'' JNull p
     in if truthy v \<and> is_digest (js_string v) then Some (js_string v) else None)"

text \<open>\<open>restoreRememberedApiToken\<close> of \<open>auth-session.ts\<close>: the token the API client starts with.\<close>

definition restoreRememberedApiToken :: "prefs \<Rightarrow> json" where
  "restoreRememberedApiToken p =
     (if truthy (storedAuthToken p) \<and> storedRemember p \<and> \<not> storedDemo p then storedAuthToken p else JStr [])"

section \<open>Workspaces\<close>

text \<open>\<open>a === b\<close> on identifiers, which are primitive values.\<close>

fun strict_equal :: "json \<Rightarrow> json \<Rightarrow> bool" where
  "strict_equal (JObj _) _ = False"
| "strict_equal (JArr _) _ = False"
| "strict_equal (JNum x) v = (x \<noteq> NaN \<and> v = JNum x)"
| "strict_equal u v = (u = v)"

definition find_workspace :: "json list \<Rightarrow> json \<Rightarrow> json option" where
  "find_workspace available i = List.find (\<lambda>w. strict_equal (jprop w ''id'') i) available"

definition selectAvailableWorkspace :: "json list \<Rightarrow> json \<Rightarrow> json \<Rightarrow> json" where
  "selectAvailableWorkspace available preferred defaultWorkspaceId =
     (case find_workspace available defaultWorkspaceId of
        Some w \<Rightarrow> w
      | None \<Rightarrow> (case find_workspace available (jprop preferred ''id'') of
          Some w \<Rightarrow> w
        | None \<Rightarrow> (case available of w # _ \<Rightarrow> w | [] \<Rightarrow> JUndefined)))"

definition demo_workspace :: "string \<Rightarrow> string \<Rightarrow> string \<Rightarrow> string \<Rightarrow> rat \<Rightarrow> json" where
  "demo_workspace i name kind role members = JObj [(''id'', JStr i), (''name'', JStr name), (''type'', JStr kind),
     (''role'', JStr role), (''memberCount'', JNum (Fin members))]"

definition demoWorkspaces :: "json list" where
  "demoWorkspaces =
    [demo_workspace ''personal'' ''My money'' ''personal'' ''owner'' 1,
     demo_workspace ''family'' ''Sharma family'' ''family'' ''admin'' 4,
     demo_workspace ''office'' ''Fieldwork studio'' ''office'' ''member'' 12]"

definition DEMO_USER_NAME :: string where
  "DEMO_USER_NAME = ''Aarav Sharma''"

definition DEMO_USER_ID :: string where
  "DEMO_USER_ID = ''demo-current-user''"

definition user_profile :: "string \<Rightarrow> json \<Rightarrow> string \<Rightarrow> bool \<Rightarrow> json" where
  "user_profile email name code verified = JObj [(''email'', JStr email), (''name'', name),
     (''locale'', JStr ''en-IN''), (''preferredCurrency'', JStr code), (''emailVerified'', JBool verified)]"

definition DEMO_CURRENT_USER :: json where
  "DEMO_CURRENT_USER = user_profile ''aarav@example.test'' (JStr DEMO_USER_NAME) ''INR'' True"

section \<open>The state\<close>

datatype device_access = Unlocked | Setup | Locked

text \<open>The arguments of \<open>completeLogin\<close>, with the optional ones as options.\<close>

record login =
  lg_userId :: string
  lg_name :: string
  lg_token :: string
  lg_remember :: bool
  lg_currency :: "string option"
  lg_pin :: "string option"

text \<open>The continuations of the handlers that wait for the server, with what they captured.\<close>

datatype pending =
    Login_pending login
  | Refresh_pending "string option"
  | Delete_pending json json json

record app =
  app_demoMode :: bool
  app_isAuthenticated :: bool
  app_userId :: json
  app_userName :: json
  app_currentUser :: json
  app_workspace :: json
  app_available :: "json list"
  app_defaultId :: json
  app_currency :: string
  app_privacy :: bool
  app_theme :: theme
  app_pinDigest :: "string option"
  app_access :: device_access
  app_needsRefresh :: bool
  app_device :: prefs
  app_token :: json
  app_pending :: "pending list"

text \<open>The effect that refreshes a restored session once it is unlocked.\<close>

definition refresh_effect :: "app \<Rightarrow> app" where
  "refresh_effect a =
     (if app_demoMode a \<or> \<not> app_isAuthenticated a \<or> app_access a \<noteq> Unlocked \<or> \<not> app_needsRefresh a then a
      else a\<lparr>app_needsRefresh := False, app_pending := app_pending a @ [Refresh_pending None]\<rparr>)"

text \<open>The first render, after the token has been restored.\<close>

definition start_app :: "prefs \<Rightarrow> app" where
  "start_app p =
     (let demo = storedDemo p;
          remembered = (\<not> demo \<and> storedRemember p \<and> truthy (storedAuthToken p));
          stored = storedWorkspace p
      in refresh_effect
        \<lparr>app_demoMode = demo,
         app_isAuthenticated = (demo \<or> remembered),
         app_userId = (if demo then JStr DEMO_USER_ID else if storedRemember p then storedUserId p else JStr []),
         app_userName = readStored ''mt-user-name'' (JStr DEMO_USER_NAME) p,
         app_currentUser =
           (if demo then DEMO_CURRENT_USER
            else readStored ''mt-user-profile''
              (user_profile [] (readStored ''mt-user-name'' (JStr []) p) (storedPreferredCurrency p) False) p),
         app_workspace =
           (if demo then selectAvailableWorkspace demoWorkspaces stored (storedDefaultWorkspaceId p)
            else nullish stored (hd demoWorkspaces)),
         app_available = (if demo then demoWorkspaces else if truthy stored then [stored] else []),
         app_defaultId = storedDefaultWorkspaceId p,
         app_currency = storedPreferredCurrency p,
         app_privacy = truthy (readStored ''mt-privacy'' (JBool False) p),
         app_theme = storedTheme p,
         app_pinDigest = (if remembered then storedAppPinHash p else None),
         app_access = (if demo then Unlocked
           else if remembered then (if storedAppPinHash p \<noteq> None then Locked else Setup) else Unlocked),
         app_needsRefresh = remembered,
         app_device = p,
         app_token = restoreRememberedApiToken p,
         app_pending = []\<rparr>)"

text \<open>What the theme effect writes to the document.\<close>

definition updateTheme :: "bool \<Rightarrow> theme \<Rightarrow> resolved_theme" where
  "updateTheme system_dark t = (case t of
       Theme_system \<Rightarrow> if system_dark then Dark else Light
     | Theme_light \<Rightarrow> Light
     | Theme_dark \<Rightarrow> Dark)"

text \<open>\<open>void persistNativePreference(key, JSON.stringify(v))\<close>.\<close>

definition save :: "string \<Rightarrow> json \<Rightarrow> app \<Rightarrow> app" where
  "save key v a = a\<lparr>app_device := persist key (json_text v) (app_device a)\<rparr>"

definition erase :: "string \<Rightarrow> app \<Rightarrow> app" where
  "erase key a = a\<lparr>app_device := unpersist key (app_device a)\<rparr>"

section \<open>The handlers\<close>

datatype app_error = Request_failed | No_accessible_workspace | Pin_rejected string

definition enterDemo :: "app \<Rightarrow> app" where
  "enterDemo a =
     (let p = app_device a;
          nextWorkspace = selectAvailableWorkspace demoWorkspaces (storedWorkspace p) (storedDefaultWorkspaceId p);
          nextCurrency = normalizeCurrency
            (readStored ''mt-preferred-currency'' (nullish (jprop nextWorkspace ''currency'') (JStr DEFAULT_CURRENCY)) p)
            (normalizeCurrency (jprop nextWorkspace ''currency'') DEFAULT_CURRENCY)
      in save ''mt-preferred-currency'' (JStr nextCurrency)
        (save ''mt-demo'' (JBool True)
        (save ''mt-workspace'' nextWorkspace
        (save ''mt-user-name'' (JStr DEMO_USER_NAME)
        (a\<lparr>app_token := JStr [], app_available := demoWorkspaces, app_workspace := nextWorkspace,
           app_userId := JStr DEMO_USER_ID, app_userName := JStr DEMO_USER_NAME,
           app_currentUser := DEMO_CURRENT_USER, app_demoMode := True, app_isAuthenticated := True,
           app_pinDigest := None, app_access := Unlocked, app_currency := nextCurrency\<rparr>)))))"

text \<open>\<open>completeLogin\<close> up to its request.\<close>

definition completeLogin_request :: "login \<Rightarrow> app \<Rightarrow> app" where
  "completeLogin_request l a =
     a\<lparr>app_token := JStr (lg_token l), app_pending := app_pending a @ [Login_pending l]\<rparr>"

text \<open>The digest a login stores: a new one, the one of the same user on this device, or none.\<close>

definition login_digest :: "sha256 \<Rightarrow> login \<Rightarrow> prefs \<Rightarrow> string + string option" where
  "login_digest sha l p =
     (if lg_remember l \<and> lg_pin l \<noteq> None \<and> lg_pin l \<noteq> Some [] then
        (case hashDevicePin sha (the (lg_pin l)) of Inl e \<Rightarrow> Inl e | Inr d \<Rightarrow> Inr (Some d))
      else if lg_remember l \<and> strict_equal (storedUserId p) (JStr (lg_userId l)) then Inr (storedAppPinHash p)
      else Inr None)"

definition remember_login :: "login \<Rightarrow> string option \<Rightarrow> app \<Rightarrow> app" where
  "remember_login l digest a =
     (if lg_remember l then
        (case digest of
           Some d \<Rightarrow> save ''mt-app-pin-hash'' (JStr d)
         | None \<Rightarrow> erase ''mt-app-pin-hash'')
        (save ''mt-remember'' (JBool True)
        (save ''mt-user-id'' (JStr (lg_userId l))
        (save ''mt-auth-token'' (JStr (lg_token l)) a)))
      else
        erase ''mt-app-pin-hash'' (erase ''mt-remember'' (erase ''mt-user-id'' (erase ''mt-auth-token'' a))))"

text \<open>\<open>completeLogin\<close> from the answer on: a failed request, an empty list or a rejected PIN drops the token.\<close>

definition completeLogin_reply ::
  "sha256 \<Rightarrow> login \<Rightarrow> json list option \<Rightarrow> app \<Rightarrow> app \<times> app_error option" where
  "completeLogin_reply sha l reply a =
     (case reply of
        None \<Rightarrow> (a\<lparr>app_token := JStr []\<rparr>, Some Request_failed)
      | Some [] \<Rightarrow> (a\<lparr>app_token := JStr []\<rparr>, Some No_accessible_workspace)
      | Some ws \<Rightarrow>
         (case login_digest sha l (app_device a) of
            Inl message \<Rightarrow> (a\<lparr>app_token := JStr []\<rparr>, Some (Pin_rejected message))
          | Inr digest \<Rightarrow>
             (let p = app_device a;
                  nextWorkspace = selectAvailableWorkspace ws (storedWorkspace p) (storedDefaultWorkspaceId p);
                  code = normalizeCurrency (case lg_currency l of Some c \<Rightarrow> JStr c | None \<Rightarrow> JUndefined)
                    (normalizeCurrency (jprop nextWorkspace ''currency'') DEFAULT_CURRENCY);
                  profile = user_profile [] (JStr (lg_name l)) code False
              in (remember_login l digest
                   (save ''mt-preferred-currency'' (JStr code)
                   (save ''mt-workspace'' nextWorkspace
                   (save ''mt-user-profile'' profile
                   (save ''mt-user-name'' (JStr (lg_name l))
                   (erase ''mt-demo''
                   (a\<lparr>app_userId := JStr (lg_userId l), app_userName := JStr (lg_name l), app_available := ws,
                      app_workspace := nextWorkspace, app_demoMode := False, app_isAuthenticated := True,
                      app_pinDigest := digest,
                      app_access := (if lg_remember l \<and> digest = None then Setup else Unlocked),
                      app_currentUser := profile, app_currency := code\<rparr>)))))), None))))"

definition configureDevicePin :: "string \<Rightarrow> app \<Rightarrow> app" where
  "configureDevicePin digest a =
     (save ''mt-app-pin-hash'' (JStr digest) a)\<lparr>app_pinDigest := Some digest, app_access := Unlocked\<rparr>"

definition unlockDevice :: "app \<Rightarrow> app" where
  "unlockDevice a = a\<lparr>app_access := Unlocked\<rparr>"

definition refreshWorkspaces_request :: "string option \<Rightarrow> app \<Rightarrow> app" where
  "refreshWorkspaces_request preferred a = a\<lparr>app_pending := app_pending a @ [Refresh_pending preferred]\<rparr>"

definition refreshWorkspaces_reply ::
  "string option \<Rightarrow> json list option \<Rightarrow> app \<Rightarrow> app \<times> app_error option" where
  "refreshWorkspaces_reply preferredId reply a =
     (case reply of
        None \<Rightarrow> (a, Some Request_failed)
      | Some [] \<Rightarrow> (a, Some No_accessible_workspace)
      | Some ws \<Rightarrow>
         (let p = app_device a;
              pid = (case preferredId of Some i \<Rightarrow> JStr i | None \<Rightarrow> JUndefined);
              preferred = (case find_workspace ws pid of Some w \<Rightarrow> w | None \<Rightarrow> storedWorkspace p);
              nextWorkspace = selectAvailableWorkspace ws preferred
                (if truthy pid then pid else storedDefaultWorkspaceId p)
          in (save ''mt-workspace'' nextWorkspace (a\<lparr>app_available := ws, app_workspace := nextWorkspace\<rparr>), None)))"

definition signOut :: "app \<Rightarrow> app" where
  "signOut a =
     erase ''mt-preferred-currency'' (erase ''mt-app-pin-hash'' (erase ''mt-default-workspace-id''
     (erase ''mt-remember'' (erase ''mt-user-id'' (erase ''mt-auth-token'' (erase ''mt-workspace''
     (erase ''mt-user-profile'' (erase ''mt-user-name'' (erase ''mt-demo''
     (a\<lparr>app_isAuthenticated := False, app_demoMode := False, app_userId := JStr [],
        app_userName := JStr DEMO_USER_NAME, app_currentUser := DEMO_CURRENT_USER,
        app_workspace := hd demoWorkspaces, app_available := [], app_defaultId := JStr [],
        app_currency := DEFAULT_CURRENCY, app_pinDigest := None, app_access := Unlocked,
        app_token := JStr []\<rparr>))))))))))"

text \<open>\<open>deleteWorkspace\<close> captures the current workspace and the default of the render it was made in.\<close>

definition deleteWorkspace_request :: "string \<Rightarrow> app \<Rightarrow> app" where
  "deleteWorkspace_request workspaceId a =
     (if app_demoMode a then a
      else a\<lparr>app_pending := app_pending a @ [Delete_pending (JStr workspaceId) (app_workspace a) (app_defaultId a)]\<rparr>)"

definition deleteWorkspace_reply ::
  "json \<Rightarrow> json \<Rightarrow> json \<Rightarrow> json list option \<Rightarrow> app \<Rightarrow> app \<times> app_error option" where
  "deleteWorkspace_reply workspaceId current defaultId reply a =
     (case reply of
        None \<Rightarrow> (a, Some Request_failed)
      | Some [] \<Rightarrow> (signOut a, None)
      | Some ws \<Rightarrow>
         (let nextDefault = (if list_ex (\<lambda>w. strict_equal (jprop w ''id'') defaultId) ws then defaultId
                             else jprop (hd ws) ''id'');
              nextWorkspace = selectAvailableWorkspace ws
                (if strict_equal workspaceId (jprop current ''id'') then JNull else current) nextDefault
          in (save ''mt-workspace'' nextWorkspace (save ''mt-default-workspace-id'' nextDefault
               (a\<lparr>app_available := ws, app_defaultId := nextDefault, app_workspace := nextWorkspace\<rparr>)), None)))"

definition setWorkspace :: "json \<Rightarrow> app \<Rightarrow> app" where
  "setWorkspace nextWs a =
     (case find_workspace (app_available a) (jprop nextWs ''id'') of
        None \<Rightarrow> a
      | Some w \<Rightarrow> save ''mt-workspace'' w (a\<lparr>app_workspace := w\<rparr>))"

definition setDefaultWorkspace :: "json \<Rightarrow> app \<Rightarrow> app" where
  "setDefaultWorkspace nextWs a =
     (case find_workspace (app_available a) (jprop nextWs ''id'') of
        None \<Rightarrow> a
      | Some w \<Rightarrow> save ''mt-workspace'' w (save ''mt-default-workspace-id'' (jprop w ''id'')
                   (a\<lparr>app_defaultId := jprop w ''id'', app_workspace := w\<rparr>)))"

definition setPrivacyMode :: "bool \<Rightarrow> app \<Rightarrow> app" where
  "setPrivacyMode enabled a = save ''mt-privacy'' (JBool enabled) (a\<lparr>app_privacy := enabled\<rparr>)"

definition setPreferredCurrency :: "string \<Rightarrow> app \<Rightarrow> app" where
  "setPreferredCurrency nextCode a =
     (let code = normalizeCurrency (JStr nextCode) DEFAULT_CURRENCY
      in save ''mt-preferred-currency'' (JStr code) (a\<lparr>app_currency := code\<rparr>))"

text \<open>\<open>{ ...next, preferredCurrency: currency }\<close> keeps the place of the field.\<close>

definition with_field :: "json \<Rightarrow> string \<Rightarrow> json \<Rightarrow> json" where
  "with_field v k x = (case v of JObj m \<Rightarrow> JObj (om_set m k x) | _ \<Rightarrow> JObj [(k, x)])"

definition setCurrentUser :: "json \<Rightarrow> app \<Rightarrow> app" where
  "setCurrentUser nextUser a =
     (let code = normalizeCurrency (jprop nextUser ''preferredCurrency'') DEFAULT_CURRENCY
      in save ''mt-preferred-currency'' (JStr code)
        (save ''mt-user-profile'' (with_field nextUser ''preferredCurrency'' (JStr code))
        (save ''mt-user-name'' (jprop nextUser ''name'')
        (a\<lparr>app_currentUser := nextUser, app_userName := jprop nextUser ''name'', app_currency := code\<rparr>))))"

fun theme_name :: "theme \<Rightarrow> string" where
  "theme_name Theme_light = ''light''"
| "theme_name Theme_dark = ''dark''"
| "theme_name Theme_system = ''system''"

definition setTheme :: "theme \<Rightarrow> app \<Rightarrow> app" where
  "setTheme t a = save ''mt-theme'' (JStr (theme_name t)) (a\<lparr>app_theme := t\<rparr>)"

definition shouldGateDeviceAccess :: "app \<Rightarrow> bool" where
  "shouldGateDeviceAccess a = (\<not> app_demoMode a \<and> app_isAuthenticated a \<and> app_access a \<noteq> Unlocked)"

section \<open>The application as a state machine\<close>

definition isObject :: "json \<Rightarrow> bool" where
  "isObject v = (case v of JObj m \<Rightarrow> True | _ \<Rightarrow> False)"

text \<open>A reply resumes the continuation it belongs to, which is then no longer pending.\<close>

definition resume :: "sha256 \<Rightarrow> pending \<Rightarrow> json list option \<Rightarrow> app \<Rightarrow> app" where
  "resume sha w reply a =
     (let b = a\<lparr>app_pending := remove1 w (app_pending a)\<rparr>
      in case w of
           Login_pending l \<Rightarrow> fst (completeLogin_reply sha l reply b)
         | Refresh_pending preferred \<Rightarrow> fst (refreshWorkspaces_reply preferred reply b)
         | Delete_pending i current d \<Rightarrow> fst (deleteWorkspace_reply i current d reply b))"

text \<open>
  The moves. While the gate is shown the rest of the application is not mounted, so only the gate's
  own moves, replies and a new page load are possible. A native write can settle at any time, with or without
  success.
\<close>

inductive app_move :: "sha256 \<Rightarrow> app \<Rightarrow> app \<Rightarrow> bool" for sha where
  demo: "\<not> shouldGateDeviceAccess a \<Longrightarrow> app_move sha a (refresh_effect (enterDemo a))"
| login: "\<not> shouldGateDeviceAccess a \<Longrightarrow> app_move sha a (completeLogin_request l a)"
| refresh: "\<not> shouldGateDeviceAccess a \<Longrightarrow> app_move sha a (refreshWorkspaces_request i a)"
| delete: "\<not> shouldGateDeviceAccess a \<Longrightarrow> app_move sha a (deleteWorkspace_request i a)"
| reply: "w \<in> set (app_pending a) \<Longrightarrow> list_all isObject (case ws of Some xs \<Rightarrow> xs | None \<Rightarrow> []) \<Longrightarrow>
    app_move sha a (refresh_effect (resume sha w ws a))"
| workspace: "\<not> shouldGateDeviceAccess a \<Longrightarrow> app_move sha a (setWorkspace v a)"
| default_workspace: "\<not> shouldGateDeviceAccess a \<Longrightarrow> app_move sha a (setDefaultWorkspace v a)"
| privacy: "\<not> shouldGateDeviceAccess a \<Longrightarrow> app_move sha a (setPrivacyMode b a)"
| preferred_currency: "\<not> shouldGateDeviceAccess a \<Longrightarrow> app_move sha a (setPreferredCurrency c a)"
| current_user: "\<not> shouldGateDeviceAccess a \<Longrightarrow> app_move sha a (setCurrentUser v a)"
| theme: "\<not> shouldGateDeviceAccess a \<Longrightarrow> app_move sha a (setTheme t a)"
| sign_out: "app_move sha a (signOut a)"
| configure: "shouldGateDeviceAccess a \<Longrightarrow> app_access a = Setup \<Longrightarrow> hashDevicePin sha pin = Inr d \<Longrightarrow>
    app_move sha a (refresh_effect (configureDevicePin d a))"
| unlock: "shouldGateDeviceAccess a \<Longrightarrow> app_access a = Locked \<Longrightarrow> app_pinDigest a = Some d \<Longrightarrow>
    verifyDevicePin sha pin d = Inr True \<Longrightarrow> app_move sha a (refresh_effect (unlockDevice a))"
| restart: "page_loaded (app_device a) d \<Longrightarrow> app_move sha a (start_app d)"
| native_write: "app_move sha a (a\<lparr>app_device := settle_mutation k ok (app_device a)\<rparr>)"

inductive app_reachable :: "sha256 \<Rightarrow> app \<Rightarrow> bool" for sha where
  start: "app_reachable sha (start_app p)"
| move: "app_reachable sha a \<Longrightarrow> app_move sha a b \<Longrightarrow> app_reachable sha b"

section \<open>Lemmas\<close>

declare json_text.simps [simp del]

lemma save_device [simp]:
  "app_device (save k v a) = persist k (json_text v) (app_device a)"
  "app_device (erase k a) = unpersist k (app_device a)"
  by (simp_all add: save_def erase_def)

lemma save_fields [simp]:
  "app_demoMode (save k v a) = app_demoMode a" "app_isAuthenticated (save k v a) = app_isAuthenticated a"
  "app_userId (save k v a) = app_userId a" "app_workspace (save k v a) = app_workspace a"
  "app_available (save k v a) = app_available a" "app_pinDigest (save k v a) = app_pinDigest a"
  "app_access (save k v a) = app_access a" "app_needsRefresh (save k v a) = app_needsRefresh a"
  "app_token (save k v a) = app_token a" "app_pending (save k v a) = app_pending a"
  "app_currency (save k v a) = app_currency a"
  by (simp_all add: save_def)

lemma erase_fields [simp]:
  "app_demoMode (erase k a) = app_demoMode a" "app_isAuthenticated (erase k a) = app_isAuthenticated a"
  "app_userId (erase k a) = app_userId a" "app_workspace (erase k a) = app_workspace a"
  "app_available (erase k a) = app_available a" "app_pinDigest (erase k a) = app_pinDigest a"
  "app_access (erase k a) = app_access a" "app_needsRefresh (erase k a) = app_needsRefresh a"
  "app_token (erase k a) = app_token a" "app_pending (erase k a) = app_pending a"
  "app_currency (erase k a) = app_currency a"
  by (simp_all add: erase_def)

lemma effect_fields [simp]:
  "app_demoMode (refresh_effect a) = app_demoMode a" "app_isAuthenticated (refresh_effect a) = app_isAuthenticated a"
  "app_userId (refresh_effect a) = app_userId a" "app_workspace (refresh_effect a) = app_workspace a"
  "app_available (refresh_effect a) = app_available a" "app_pinDigest (refresh_effect a) = app_pinDigest a"
  "app_access (refresh_effect a) = app_access a" "app_token (refresh_effect a) = app_token a"
  "app_device (refresh_effect a) = app_device a" "app_currency (refresh_effect a) = app_currency a"
  by (simp_all add: refresh_effect_def)

lemma effect_locked: "app_access a \<noteq> Unlocked \<Longrightarrow> refresh_effect a = a"
  by (simp add: refresh_effect_def)

text \<open>Reading back what was stored.\<close>

lemma json_text_not_empty: "json_plain v \<Longrightarrow> json_text v \<noteq> []"
  using json_text_first [of v] by auto

lemma readStored_persist:
  assumes "json_plain v" "k \<in> set NATIVE_PREFERENCE_KEYS"
  shows "readStored k fb (persist k (json_text v) p) = v"
  using assms by (simp add: readStored_def persist_local json_text_not_empty JSON_parse_text)

lemma readStored_other:
  "j \<noteq> k \<Longrightarrow> readStored k fb (persist j t p) = readStored k fb p"
  "j \<noteq> k \<Longrightarrow> readStored k fb (unpersist j p) = readStored k fb p"
  by (simp_all add: readStored_def persist_local)

lemma readStored_unpersist:
  "k \<in> set NATIVE_PREFERENCE_KEYS \<Longrightarrow> readStored k fb (unpersist k p) = fb"
  by (simp add: readStored_def persist_local)

lemma plain_simps: "json_plain (JStr s)" "json_plain (JBool b)"
  by simp_all

lemma native_keys:
  "''mt-demo'' \<in> set NATIVE_PREFERENCE_KEYS" "''mt-user-name'' \<in> set NATIVE_PREFERENCE_KEYS"
  "''mt-user-profile'' \<in> set NATIVE_PREFERENCE_KEYS" "''mt-user-id'' \<in> set NATIVE_PREFERENCE_KEYS"
  "''mt-auth-token'' \<in> set NATIVE_PREFERENCE_KEYS" "''mt-remember'' \<in> set NATIVE_PREFERENCE_KEYS"
  "''mt-app-pin-hash'' \<in> set NATIVE_PREFERENCE_KEYS" "''mt-workspace'' \<in> set NATIVE_PREFERENCE_KEYS"
  "''mt-default-workspace-id'' \<in> set NATIVE_PREFERENCE_KEYS" "''mt-preferred-currency'' \<in> set NATIVE_PREFERENCE_KEYS"
  by (simp_all add: NATIVE_PREFERENCE_KEYS_def)

lemmas stored_simps = readStored_persist [OF plain_simps(1)] readStored_persist [OF plain_simps(2)]
  readStored_other readStored_unpersist native_keys

lemmas stored_defs = storedDemo_def storedRemember_def storedAuthToken_def storedUserId_def storedAppPinHash_def

text \<open>What is read depends on the local store alone.\<close>

lemma readStored_local: "om_get (local_store p) k = om_get (local_store q) k \<Longrightarrow> readStored k fb p = readStored k fb q"
  by (simp add: readStored_def)

lemma settle_stored [simp]: "readStored k fb (settle_mutation j ok p) = readStored k fb p"
  by (rule readStored_local) simp

lemma settle_session [simp]:
  "storedDemo (settle_mutation j ok p) = storedDemo p" "storedRemember (settle_mutation j ok p) = storedRemember p"
  "storedAuthToken (settle_mutation j ok p) = storedAuthToken p" "storedUserId (settle_mutation j ok p) = storedUserId p"
  "storedAppPinHash (settle_mutation j ok p) = storedAppPinHash p"
  by (simp_all add: stored_defs)

text \<open>The keys that a session is restored from, and a device whose native store, if it is read, agrees with the local one on them.\<close>

definition login_keys :: "string list" where
  "login_keys = [''mt-demo'', ''mt-remember'', ''mt-auth-token'', ''mt-user-id'', ''mt-app-pin-hash'']"

definition mirrored :: "prefs \<Rightarrow> bool" where
  "mirrored p = (\<not> on_android p \<or>
     list_all (\<lambda>k. om_get (native_store p) k = None \<or> om_get (native_store p) k = om_get (local_store p) k) login_keys)"

lemma mirrored_load:
  assumes "page_loaded p d" "mirrored p" "k \<in> set login_keys"
  shows "readStored k fb d = readStored k fb p"
  using page_loaded_local [OF assms(1), of k] assms(2,3)
  by (intro readStored_local) (auto simp: mirrored_def list_all_iff)

lemma mirrored_session:
  assumes "page_loaded p d" "mirrored p"
  shows "storedDemo d = storedDemo p" "storedRemember d = storedRemember p" "storedAuthToken d = storedAuthToken p"
    "storedUserId d = storedUserId p" "storedAppPinHash d = storedAppPinHash p"
  using mirrored_load [OF assms] by (simp_all add: stored_defs login_keys_def)

lemma storedAppPinHash_digest: "storedAppPinHash p = Some d \<Longrightarrow> is_digest d"
  by (auto simp: storedAppPinHash_def Let_def split: if_splits)

lemma login_digest_digest:
  "bytes32 sha \<Longrightarrow> login_digest sha l p = Inr (Some d) \<Longrightarrow> is_digest d"
  using hashDevicePin_digest(1) storedAppPinHash_digest
  by (auto simp: login_digest_def split: if_splits sum.splits)

lemma digest_not_empty: "is_digest d \<Longrightarrow> d \<noteq> []"
  by (auto simp: is_digest_def)

text \<open>A successful login, taken apart.\<close>

lemma completeLogin_success:
  assumes "completeLogin_reply sha l (Some ws) a = (b, None)"
  shows "ws \<noteq> []" "login_digest sha l (app_device a) = Inr (app_pinDigest b)"
    "app_access b = (if lg_remember l \<and> app_pinDigest b = None then Setup else Unlocked)"
    "app_isAuthenticated b" "\<not> app_demoMode b"
  using assms
  by (auto simp: completeLogin_reply_def Let_def remember_login_def split: list.splits sum.splits option.splits if_splits)

lemma completeLogin_stored:
  assumes "completeLogin_reply sha l (Some ws) a = (b, None)"
  shows "storedDemo (app_device b) = False"
    "storedRemember (app_device b) = lg_remember l"
    "lg_remember l \<Longrightarrow> storedAuthToken (app_device b) = JStr (lg_token l)"
    "lg_remember l \<Longrightarrow> storedUserId (app_device b) = JStr (lg_userId l)"
    "lg_remember l \<Longrightarrow> app_pinDigest b = Some d \<Longrightarrow> is_digest d \<Longrightarrow> storedAppPinHash (app_device b) = Some d"
    "lg_remember l \<Longrightarrow> app_pinDigest b = None \<Longrightarrow> storedAppPinHash (app_device b) = None"
  using assms
  by (auto simp: completeLogin_reply_def Let_def remember_login_def stored_defs stored_simps digest_not_empty
      split: list.splits sum.splits option.splits if_splits)


lemma start_app_access:
  "app_access (start_app p) = (if storedDemo p \<or> \<not> storedRemember p \<or> \<not> truthy (storedAuthToken p) then Unlocked
     else if storedAppPinHash p = None then Setup else Locked)"
  "app_isAuthenticated (start_app p) = (storedDemo p \<or> (storedRemember p \<and> truthy (storedAuthToken p)))"
  "app_demoMode (start_app p) = storedDemo p"
  "app_token (start_app p) = restoreRememberedApiToken p"
  "app_device (start_app p) = p"
  "app_pinDigest (start_app p) = (if \<not> storedDemo p \<and> storedRemember p \<and> truthy (storedAuthToken p) then storedAppPinHash p else None)"
  "app_userId (start_app p) = (if storedDemo p then JStr DEMO_USER_ID else if storedRemember p then storedUserId p else JStr [])"
  by (auto simp: start_app_def Let_def)

lemma start_app_locked_pending: "app_access (start_app p) = Locked \<Longrightarrow> app_pending (start_app p) = []"
  by (auto simp: start_app_def Let_def effect_locked split: if_splits)

text \<open>What a locked device has in its store: enough to be locked again by a new page load.\<close>

definition lock_inv :: "app \<Rightarrow> bool" where
  "lock_inv a = (app_access a = Locked \<longrightarrow>
     shouldGateDeviceAccess a \<and> app_pending a = [] \<and> app_pinDigest a \<noteq> None \<and>
     app_pinDigest a = storedAppPinHash (app_device a) \<and> storedRemember (app_device a) \<and>
     truthy (storedAuthToken (app_device a)) \<and> \<not> storedDemo (app_device a))"

lemma lock_inv_start: "lock_inv (start_app p)"
  by (auto simp: lock_inv_def start_app_access shouldGateDeviceAccess_def start_app_locked_pending split: if_splits)

lemma set_workspace_access [simp]:
  "app_access (setWorkspace v a) = app_access a" "app_access (setDefaultWorkspace v a) = app_access a"
  "app_access (setPrivacyMode b a) = app_access a" "app_access (setPreferredCurrency c a) = app_access a"
  "app_access (setCurrentUser v a) = app_access a" "app_access (setTheme t a) = app_access a"
  "app_access (completeLogin_request l a) = app_access a" "app_access (refreshWorkspaces_request i a) = app_access a"
  "app_access (deleteWorkspace_request j a) = app_access a"
  by (simp_all add: setWorkspace_def setDefaultWorkspace_def setPrivacyMode_def setPreferredCurrency_def
      setCurrentUser_def setTheme_def completeLogin_request_def refreshWorkspaces_request_def
      deleteWorkspace_request_def Let_def split: option.splits)

lemma signOut_fields [simp]:
  "app_access (signOut a) = Unlocked" "app_isAuthenticated (signOut a) = False" "app_demoMode (signOut a) = False"
  "app_token (signOut a) = JStr []" "app_available (signOut a) = []" "app_pending (signOut a) = app_pending a"
  by (simp_all add: signOut_def)

lemma resume_not_locked:
  assumes "app_access a \<noteq> Locked"
  shows "app_access (resume sha w ws a) \<noteq> Locked"
  using assms
  by (auto simp: resume_def completeLogin_reply_def refreshWorkspaces_reply_def deleteWorkspace_reply_def
      remember_login_def Let_def split: pending.splits option.splits list.splits sum.splits)

lemma gated_when_locked: "lock_inv a \<Longrightarrow> app_access a = Locked \<Longrightarrow> shouldGateDeviceAccess a"
  by (simp add: lock_inv_def)

lemma restart_locked:
  assumes "lock_inv a" "app_access a = Locked" "page_loaded (app_device a) d" "mirrored (app_device a)"
  shows "app_access (start_app d) = Locked" "app_pinDigest (start_app d) = app_pinDigest a"
  using assms(1,2) mirrored_session [OF assms(3,4)] by (auto simp: lock_inv_def start_app_access)


text \<open>Every move out of the locked state, and every move into it.\<close>

lemma locked_move:
  assumes "lock_inv a" "app_access a = Locked" "app_move sha a b"
  shows "b = signOut a \<or> (\<exists>d. page_loaded (app_device a) d \<and> b = start_app d) \<or>
    (\<exists>k ok. b = a\<lparr>app_device := settle_mutation k ok (app_device a)\<rparr>) \<or>
    (\<exists>pin d. app_pinDigest a = Some d \<and> verifyDevicePin sha pin d = Inr True \<and> b = refresh_effect (unlockDevice a))"
  using assms(3)
proof cases
  case (reply w ws)
  then show ?thesis using assms by (simp add: lock_inv_def)
next
  case (unlock d pin)
  then show ?thesis by blast
qed (use assms gated_when_locked in auto)

lemma move_into_locked:
  assumes "app_access a \<noteq> Locked" "app_move sha a b" "app_access b = Locked"
  shows "\<exists>d. page_loaded (app_device a) d \<and> b = start_app d"
  using assms(2)
proof cases
  case (reply w ws)
  then show ?thesis using assms resume_not_locked [of a sha w ws] by simp
qed (use assms in \<open>auto simp: enterDemo_def configureDevicePin_def unlockDevice_def Let_def\<close>)

lemma lock_inv_move: "lock_inv a \<Longrightarrow> app_move sha a b \<Longrightarrow> lock_inv b"
proof (cases "app_access b = Locked")
  case True
  assume inv: "lock_inv a" and m: "app_move sha a b"
  show ?thesis
  proof (cases "app_access a = Locked")
    case L: True
    from locked_move [OF inv L m] True consider d where "b = start_app d"
      | k ok where "b = a\<lparr>app_device := settle_mutation k ok (app_device a)\<rparr>"
      by (auto simp: unlockDevice_def)
    then show ?thesis
    proof cases
      case 1
      then show ?thesis by (simp add: lock_inv_start)
    next
      case 2
      then show ?thesis using inv by (auto simp: lock_inv_def shouldGateDeviceAccess_def)
    qed
  next
    case False
    from move_into_locked [OF False m True] show ?thesis by (auto simp: lock_inv_start)
  qed
qed (simp add: lock_inv_def)

lemma lock_inv_reachable: "app_reachable sha a \<Longrightarrow> lock_inv a"
  by (induction rule: app_reachable.induct) (auto intro: lock_inv_start lock_inv_move)


lemma find_workspace_member: "find_workspace ws i = Some w \<Longrightarrow> w \<in> set ws \<and> strict_equal (jprop w ''id'') i"
  by (auto simp: find_workspace_def find_Some_iff)

lemma select_member: "ws \<noteq> [] \<Longrightarrow> selectAvailableWorkspace ws preferred d \<in> set ws"
  by (auto simp: selectAvailableWorkspace_def neq_Nil_conv dest: find_workspace_member split: option.splits)

lemma select_head:
  "selectAvailableWorkspace (w # ws) p d \<notin> set ws \<Longrightarrow> selectAvailableWorkspace (w # ws) p d = w"
  using select_member [of "w # ws" p d] by simp

definition workspace_inv :: "app \<Rightarrow> bool" where
  "workspace_inv a = (app_available a = [] \<or> app_workspace a \<in> set (app_available a))"

lemma workspace_inv_start: "workspace_inv (start_app p)"
proof -
  have "demoWorkspaces \<noteq> []" by (simp add: demoWorkspaces_def)
  then show ?thesis
    by (cases "storedWorkspace p")
      (auto simp: workspace_inv_def start_app_def Let_def intro: select_member split: if_splits)
qed

lemma workspace_inv_enterDemo: "workspace_inv (enterDemo a)"
  using select_member [of demoWorkspaces] by (simp add: workspace_inv_def enterDemo_def Let_def demoWorkspaces_def)

lemma workspace_inv_resume:
  assumes "workspace_inv a"
  shows "workspace_inv (resume sha w ws a)"
proof -
  have r: "workspace_inv (fst (completeLogin_reply sha l ws b))" if "workspace_inv b" for l b
    using that
    by (auto simp: completeLogin_reply_def workspace_inv_def remember_login_def Let_def
        dest: select_head split: option.splits list.splits sum.splits)
  have f: "workspace_inv (fst (refreshWorkspaces_reply i ws b))" if "workspace_inv b" for i b
    using that
    by (auto simp: refreshWorkspaces_reply_def workspace_inv_def Let_def dest: select_head split: option.splits list.splits)
  have d: "workspace_inv (fst (deleteWorkspace_reply i c d ws b))" if "workspace_inv b" for i c d b
    using that
    by (auto simp: deleteWorkspace_reply_def workspace_inv_def Let_def dest: select_head split: option.splits list.splits)
  have "workspace_inv (a\<lparr>app_pending := remove1 w (app_pending a)\<rparr>)"
    using assms by (simp add: workspace_inv_def)
  with r f d show ?thesis
    by (cases w) (simp_all add: resume_def Let_def)
qed

lemma workspace_inv_move: "workspace_inv a \<Longrightarrow> app_move sha a b \<Longrightarrow> workspace_inv b"
proof (erule app_move.cases)
  show "workspace_inv a \<Longrightarrow> b = refresh_effect (resume sha w ws aa) \<Longrightarrow> a = aa \<Longrightarrow> workspace_inv b" for w ws aa
    using workspace_inv_resume [of a sha w ws] by (simp add: workspace_inv_def)
  show "workspace_inv a \<Longrightarrow> b = refresh_effect (enterDemo aa) \<Longrightarrow> workspace_inv b" for aa
    using workspace_inv_enterDemo [of aa] by (simp add: workspace_inv_def)
  show "b = start_app d \<Longrightarrow> workspace_inv b" for d
    by (simp add: workspace_inv_start)
  show "workspace_inv a \<Longrightarrow> a = aa \<Longrightarrow> b = setWorkspace v aa \<Longrightarrow> workspace_inv b" for v aa
    by (auto simp: workspace_inv_def setWorkspace_def split: option.splits dest: find_workspace_member)
  show "workspace_inv a \<Longrightarrow> a = aa \<Longrightarrow> b = setDefaultWorkspace v aa \<Longrightarrow> workspace_inv b" for v aa
    by (auto simp: workspace_inv_def setDefaultWorkspace_def split: option.splits dest: find_workspace_member)
qed (auto simp: workspace_inv_def completeLogin_request_def refreshWorkspaces_request_def deleteWorkspace_request_def
    setPrivacyMode_def setPreferredCurrency_def setCurrentUser_def setTheme_def configureDevicePin_def
    unlockDevice_def Let_def)

lemma workspace_inv_reachable: "app_reachable sha a \<Longrightarrow> workspace_inv a"
  by (induction rule: app_reachable.induct) (auto intro: workspace_inv_start workspace_inv_move)

definition session_keys :: "string list" where
  "session_keys = [''mt-demo'', ''mt-user-name'', ''mt-user-profile'', ''mt-workspace'', ''mt-auth-token'',
     ''mt-user-id'', ''mt-remember'', ''mt-default-workspace-id'', ''mt-app-pin-hash'', ''mt-preferred-currency'']"

lemma signOut_local:
  "om_get (local_store (app_device (signOut a))) k =
     (if k \<in> set session_keys then None else om_get (local_store (app_device a)) k)"
  by (simp add: signOut_def session_keys_def persist_local native_keys)

section \<open>Properties\<close>

text \<open>C1. The PIN gate is a lock: in every reachable state in which the device is locked, the only
  moves are entering a PIN that verifies against the stored digest, signing out, the settling of a native write, which
  keeps the lock, and a new page load. A new page load is locked again with the same digest when the native copy of the
  session, which hydration puts before the local one on Android, agrees with the local one where it has a value. Nothing
  else the application can do, and no late reply of the server, opens it.\<close>

theorem device_lock_holds:
  assumes "app_reachable sha a" and "app_access a = Locked" and "app_move sha a b"
  shows "shouldGateDeviceAccess a \<and>
    (b = signOut a \<or>
     (\<exists>d. page_loaded (app_device a) d \<and> b = start_app d \<and>
        (mirrored (app_device a) \<longrightarrow> app_access b = Locked \<and> app_pinDigest b = app_pinDigest a)) \<or>
     (\<exists>k ok. b = a\<lparr>app_device := settle_mutation k ok (app_device a)\<rparr> \<and> app_access b = Locked \<and>
        app_pinDigest b = app_pinDigest a \<and> shouldGateDeviceAccess b) \<or>
     (\<exists>pin d. app_pinDigest a = Some d \<and> verifyDevicePin sha pin d = Inr True \<and>
        b = refresh_effect (unlockDevice a)))"
proof -
  note inv = lock_inv_reachable [OF assms(1)]
  have g: "shouldGateDeviceAccess a" by (rule gated_when_locked [OF inv assms(2)])
  from locked_move [OF inv assms(2,3)] consider "b = signOut a" | d where "page_loaded (app_device a) d" "b = start_app d"
    | k ok where "b = a\<lparr>app_device := settle_mutation k ok (app_device a)\<rparr>"
    | pin d where "app_pinDigest a = Some d" "verifyDevicePin sha pin d = Inr True" "b = refresh_effect (unlockDevice a)"
    by blast
  then show ?thesis
  proof cases
    case (2 d)
    then show ?thesis using g restart_locked [OF inv assms(2) 2(1)] by blast
  next
    case (3 k ok)
    moreover have "app_access b = Locked" "app_pinDigest b = app_pinDigest a" "shouldGateDeviceAccess b"
      using assms(2) g by (simp_all add: 3 shouldGateDeviceAccess_def)
    ultimately show ?thesis using g by blast
  qed (use g in blast)+
qed

text \<open>C3. The state always shows a workspace the user can open: in every reachable state the current
  workspace is one of the available ones, unless none has been loaded; switching to an unknown
  workspace changes nothing.\<close>

theorem current_workspace_available:
  assumes "app_reachable sha a"
  shows "(app_available a = [] \<or> app_workspace a \<in> set (app_available a)) \<and>
    (find_workspace (app_available a) (jprop v ''id'') = None \<longrightarrow>
       setWorkspace v a = a \<and> setDefaultWorkspace v a = a)"
  using workspace_inv_reachable [OF assms]
  by (simp add: workspace_inv_def setWorkspace_def setDefaultWorkspace_def)

text \<open>The keys of a session that a completed login leaves in step with the native store, once their writes settle.\<close>

lemma completeLogin_in_step:
  assumes "completeLogin_reply sha l (Some ws) a = (b, None)" "on_android (app_device b)" "k \<in> set login_keys"
  shows "in_step k (app_device b)"
proof -
  have an: "on_android (app_device a)"
    using assms(1,2) by (auto simp: completeLogin_reply_def remember_login_def Let_def split: list.splits sum.splits option.splits if_splits)
  have k: "k = ''mt-demo'' \<or> k = ''mt-remember'' \<or> k = ''mt-auth-token'' \<or> k = ''mt-user-id'' \<or> k = ''mt-app-pin-hash''"
    using assms(3) by (simp add: login_keys_def)
  show ?thesis
    using assms(1) an k
    by (auto simp: completeLogin_reply_def remember_login_def Let_def in_step_write native_keys
        split: list.splits sum.splits option.splits if_splits)
qed

text \<open>C2. A completed login survives a new page load exactly when the device is remembered: once the native writes of the
  login have settled, none of them rejected, or at once on the web, every page load, whatever its hydration does, starts
  authenticated with the same user and token, locked by the PIN's digest or, without one, asking for a PIN; on a device
  that is not remembered nothing of the session is restored.\<close>

theorem completed_login_restores:
  assumes "completeLogin_reply sha l (Some ws) a = (b, None)"
    and "bytes32 sha" and "lg_token l \<noteq> []"
    and "\<not> on_android (app_device b) \<or> list_all (\<lambda>k. queue_of (native_settled ks (app_device b)) k = []) login_keys"
    and "page_loaded (native_settled ks (app_device b)) d"
  shows "let c = start_app d in
    if lg_remember l
    then app_isAuthenticated c \<and> \<not> app_demoMode c \<and> app_token c = JStr (lg_token l) \<and>
         app_userId c = JStr (lg_userId l) \<and> app_pinDigest c = app_pinDigest b \<and>
         app_access c = (if app_pinDigest b = None then Setup else Locked)
    else \<not> app_isAuthenticated c \<and> app_token c = JStr []"
proof -
  note s = completeLogin_stored [OF assms(1)] and c = completeLogin_success [OF assms(1)]
  have dg: "is_digest x" if "app_pinDigest b = Some x" for x
    using login_digest_digest [OF assms(2)] c(2) that by simp
  let ?p = "native_settled ks (app_device b)"
  have "mirrored ?p"
    using assms(4) drained_mirror [OF native_settled_in_step [OF completeLogin_in_step [OF assms(1)]], of _ ks]
    by (auto simp: mirrored_def list_all_iff native_settled_frame)
  note m = mirrored_session [OF assms(5) this]
  have "readStored k fb ?p = readStored k fb (app_device b)" for k fb
    by (rule readStored_local) (simp add: native_settled_frame)
  then have r: "storedDemo d = storedDemo (app_device b)" "storedRemember d = storedRemember (app_device b)"
    "storedAuthToken d = storedAuthToken (app_device b)" "storedUserId d = storedUserId (app_device b)"
    "storedAppPinHash d = storedAppPinHash (app_device b)"
    using m by (simp_all add: stored_defs)
  show ?thesis
    using s(1-4,6) s(5) [OF _ _ dg] assms(3) r
    by (cases "app_pinDigest b") (auto simp: Let_def start_app_access restoreRememberedApiToken_def)
qed

text \<open>Signing out leaves nothing of the session: the ten session keys are gone from the local store,
  the other keys are untouched, the token is dropped, and on the web a new page load is not authenticated.\<close>

theorem signOut_erases_session:
  "om_get (local_store (app_device (signOut a))) k =
     (if k \<in> set session_keys then None else om_get (local_store (app_device a)) k) \<and>
   app_token (signOut a) = JStr [] \<and> \<not> app_isAuthenticated (signOut a) \<and>
   (on_android (app_device (signOut a)) \<or> (\<forall>d. page_loaded (app_device (signOut a)) d \<longrightarrow> \<not> app_isAuthenticated (start_app d)))"
proof -
  have "\<not> app_isAuthenticated (start_app d)" if "page_loaded (app_device (signOut a)) d" "\<not> on_android (app_device (signOut a))" for d
  proof -
    have "om_get (local_store d) k = None" if "k \<in> set session_keys" for k
      using page_loaded_local [OF \<open>page_loaded _ d\<close>, of k] \<open>\<not> on_android _\<close> that by (simp add: signOut_local)
    then have "storedDemo d = False" "storedRemember d = False"
      by (simp_all add: stored_defs readStored_def session_keys_def)
    then show ?thesis by (simp add: start_app_access)
  qed
  then show ?thesis by (auto simp: signOut_local)
qed

text \<open>On Android the removals of a sign-out are not awaited: a page that loads before they have settled takes the session back
  from the native store.\<close>

lemma signed_out_session_returns:
  assumes "on_android (app_device (signOut a))"
    and "om_get (native_store (app_device a)) ''mt-remember'' = Some (json_text (JBool True))"
    and "om_get (native_store (app_device a)) ''mt-auth-token'' = Some (json_text (JStr t))" "t \<noteq> []"
    and "om_get (native_store (app_device a)) ''mt-demo'' = None"
  shows "\<exists>d. page_loaded (app_device (signOut a)) d \<and> app_isAuthenticated (start_app d) \<and> app_token (start_app d) = JStr t"
proof -
  let ?p = "app_device (signOut a)"
  have n: "native_store ?p = native_store (app_device a)"
    by (simp add: signOut_def persist_queue_other)
  obtain d where d: "page_loaded ?p d" "\<And>k. k \<in> set NATIVE_PREFERENCE_KEYS \<Longrightarrow> om_get (local_store d) k =
      (case om_get (native_store ?p) k of Some v \<Rightarrow> Some v | None \<Rightarrow> om_get (local_store ?p) k)"
    using page_merged [OF assms(1)] by blast
  have "om_get (local_store d) ''mt-remember'' = Some (json_text (JBool True))" "om_get (local_store d) ''mt-auth-token'' = Some (json_text (JStr t))"
    "om_get (local_store d) ''mt-demo'' = None"
    using d(2) [OF native_keys(1)] d(2) [OF native_keys(5)] d(2) [OF native_keys(6)] assms(2,3,5) n
    by (simp_all add: signOut_local session_keys_def)
  then have "storedRemember d" "storedAuthToken d = JStr t" "\<not> storedDemo d"
    by (simp_all add: stored_defs readStored_def json_text_not_empty JSON_parse_text)
  then have "app_isAuthenticated (start_app d)" "app_token (start_app d) = JStr t"
    using assms(4) by (simp_all add: start_app_access restoreRememberedApiToken_def)
  with d(1) show ?thesis by blast
qed

text \<open>A refresh that is still in flight when the user signs out writes a workspace of the
  signed-out user back: its reply is not tied to the session, so the workspace is stored again and
  the list of workspaces is filled again although nobody is authenticated.\<close>

theorem late_refresh_after_signOut:
  assumes "Refresh_pending None \<in> set (app_pending a)" and "ws \<noteq> []" and "list_all isObject ws"
    and "b = resume sha (Refresh_pending None) (Some ws) (signOut a)"
  shows "app_move sha (signOut a) b \<and> \<not> app_isAuthenticated b \<and> app_available b = ws \<and>
    (\<exists>w \<in> set ws. om_get (local_store (app_device b)) ''mt-workspace'' = Some (json_text w))"
proof -
  let ?w = "app_workspace b"
  obtain w0 ws0 where ws: "ws = w0 # ws0" using assms(2) by (cases ws) auto
  have b: "app_available b = ws" "\<not> app_isAuthenticated b"
    "om_get (local_store (app_device b)) ''mt-workspace'' = Some (json_text ?w)"
    by (simp_all add: assms(4) ws resume_def refreshWorkspaces_reply_def Let_def persist_local native_keys)
  moreover have "?w \<in> set ws"
    by (auto simp: assms(4) ws resume_def refreshWorkspaces_reply_def Let_def intro: select_head)
  moreover have "app_move sha (signOut a) (refresh_effect b)"
    unfolding assms(4) using assms(1,3) by (intro app_move.reply) simp_all
  ultimately show ?thesis by (auto simp: refresh_effect_def)
qed

text \<open>Closed instances: a device with a remembered, PIN-protected session, and one without.\<close>

definition zero_hash :: sha256 where
  "zero_hash bs = replicate 32 0"

definition locked_store :: prefs where
  "locked_store = empty_prefs False
     [(''mt-remember'', json_text (JBool True)), (''mt-auth-token'', json_text (JStr ''t'')),
      (''mt-app-pin-hash'', json_text (JStr (toHex (replicate 32 0))))] []"

lemma readStored_get:
  "om_get (local_store p) k = Some (json_text v) \<Longrightarrow> json_plain v \<Longrightarrow> readStored k fb p = v"
  "om_get (local_store p) k = None \<Longrightarrow> readStored k fb p = fb"
  by (simp_all add: readStored_def json_text_not_empty JSON_parse_text)

lemma zero_hash_bytes: "bytes32 zero_hash"
  by (simp add: bytes32_def zero_hash_def)

lemma zero_digest: "is_digest (toHex (replicate 32 0))"
  using toHex_hex [of "replicate 32 0"] by (simp add: is_digest_def)

lemma locked_store_start: "app_access (start_app locked_store) = Locked"
proof -
  have "readStored ''mt-remember'' fb locked_store = JBool True" for fb
    by (rule readStored_get(1)) (simp_all add: locked_store_def empty_prefs_def)
  moreover have "readStored ''mt-auth-token'' fb locked_store = JStr ''t''" for fb
    by (rule readStored_get(1)) (simp_all add: locked_store_def empty_prefs_def)
  moreover have "readStored ''mt-app-pin-hash'' fb locked_store = JStr (toHex (replicate 32 0))" for fb
    by (rule readStored_get(1)) (simp_all add: locked_store_def empty_prefs_def)
  moreover have "readStored ''mt-demo'' fb locked_store = fb" for fb
    by (rule readStored_get(2)) (simp add: locked_store_def empty_prefs_def)
  ultimately show ?thesis
    using zero_digest digest_not_empty [OF zero_digest] by (simp add: start_app_access stored_defs)
qed

theorem device_lock_holds_witness:
  "app_reachable zero_hash (start_app locked_store) \<and> app_access (start_app locked_store) = Locked \<and>
   app_move zero_hash (start_app locked_store) (signOut (start_app locked_store)) \<and>
   shouldGateDeviceAccess (start_app locked_store)"
  using device_lock_holds [OF app_reachable.start locked_store_start app_move.sign_out]
    locked_store_start app_reachable.start app_move.sign_out by blast

theorem current_workspace_available_witness:
  "app_reachable zero_hash (start_app locked_store) \<and>
   (app_available (start_app locked_store) = [] \<or>
    app_workspace (start_app locked_store) \<in> set (app_available (start_app locked_store)))"
  using current_workspace_available [OF app_reachable.start [of zero_hash locked_store]] app_reachable.start by blast

definition sample_login :: login where
  "sample_login = \<lparr>lg_userId = ''u'', lg_name = ''Asha'', lg_token = ''t'', lg_remember = True, lg_currency = None, lg_pin = None\<rparr>"

theorem completed_login_restores_witness:
  "\<exists>b. completeLogin_reply zero_hash sample_login (Some demoWorkspaces) (start_app (empty_prefs False [] [])) = (b, None) \<and>
       (\<exists>d. page_loaded (app_device b) d \<and> app_token (start_app d) = JStr ''t'')"
proof -
  let ?a = "start_app (empty_prefs False [] [])"
  have "login_digest zero_hash sample_login (app_device ?a) = Inr None"
    by (simp add: login_digest_def sample_login_def start_app_access stored_defs readStored_def empty_prefs_def)
  then obtain b where b: "completeLogin_reply zero_hash sample_login (Some demoWorkspaces) ?a = (b, None)"
    by (simp add: completeLogin_reply_def demoWorkspaces_def Let_def)
  have t: "lg_token sample_login \<noteq> []" "lg_remember sample_login" by (simp_all add: sample_login_def)
  have "on_android (app_device b) = on_android (app_device ?a)"
    using b by (auto simp: completeLogin_reply_def remember_login_def Let_def split: list.splits sum.splits option.splits if_splits)
  then have an: "\<not> on_android (app_device b)" by (simp add: start_app_access empty_prefs_def)
  obtain d where d: "page_loaded (app_device b) d" using page_unread by blast
  have "app_token (start_app d) = JStr ''t''"
    using completed_login_restores [OF b zero_hash_bytes t(1), of "[]" d] an d t(2) by (simp add: Let_def sample_login_def native_settled_def)
  with b d show ?thesis by blast
qed

theorem late_refresh_after_signOut_witness:
  "let a = refreshWorkspaces_request None (start_app (empty_prefs False [] []));
       b = resume zero_hash (Refresh_pending None) (Some demoWorkspaces) (signOut a)
   in app_move zero_hash (signOut a) b \<and> \<not> app_isAuthenticated b \<and> app_available b = demoWorkspaces"
proof -
  let ?a = "refreshWorkspaces_request None (start_app (empty_prefs False [] []))"
  have "Refresh_pending None \<in> set (app_pending ?a)" by (simp add: refreshWorkspaces_request_def)
  moreover have "demoWorkspaces \<noteq> []" "list_all isObject demoWorkspaces"
    by (simp_all add: demoWorkspaces_def demo_workspace_def isObject_def)
  ultimately show ?thesis
    unfolding Let_def using late_refresh_after_signOut [OF _ _ _ refl] by blast
qed

end
