(* ===== verification/ApiClient.thy ===== *)
theory ApiClient
  imports JsonText
begin

text \<open>
  The HTTP client, \<open>web/src/lib/api-client.ts\<close>. The network is a parameter that answers the n-th
  request of a client; a client's state is its bearer token, its cache of vault identifiers (in memory
  and in the local store) and the log of what it sent. Errors are values. A request runs the
  transport once and, for one kind of validation error of the deployed server, a recovery that may
  send it a second time with a vault identifier.
\<close>

section \<open>Errors\<close>

record api_error_shape =
  er_code :: string
  er_message :: string
  er_fields :: "(string, string) omap option"
  er_requestId :: "string option"

text \<open>
  What a request can throw: an \<open>ApiError\<close> with its status, the \<open>TypeError\<close> of a failed fetch, the
  \<open>SyntaxError\<close> of a body that is not JSON, and the rejection of the native plugin.
\<close>

datatype client_error = Api_error api_error_shape int | Fetch_failed | Body_not_json | Plugin_failed

definition fallbackApiError :: "int \<Rightarrow> string option \<Rightarrow> api_error_shape" where
  "fallbackApiError status requestId =
     (if status \<ge> 500
      then \<lparr>er_code = ''service_unavailable'', er_message = ''The service is unavailable. Try again shortly.'',
            er_fields = None, er_requestId = requestId\<rparr>
      else \<lparr>er_code = ''unexpected_error'',
            er_message = ''The request could not be completed. Please try again.'',
            er_fields = None, er_requestId = requestId\<rparr>)"

definition is_object :: "json \<Rightarrow> bool" where
  "is_object v = (case v of JObj _ \<Rightarrow> True | JArr _ \<Rightarrow> True | _ \<Rightarrow> False)"

text \<open>\<open>k in v && typeof v.k === 'string'\<close>.\<close>

definition string_prop :: "json \<Rightarrow> string \<Rightarrow> string option" where
  "string_prop v k = (if has_jprop v k then (case jprop v k of JStr s \<Rightarrow> Some s | _ \<Rightarrow> None) else None)"

text \<open>\<open>Object.entries\<close> of an object, or of an array, whose keys are its indices.\<close>

definition object_entries :: "json \<Rightarrow> (string \<times> json) list" where
  "object_entries v = (case v of
       JObj m \<Rightarrow> m
     | JArr xs \<Rightarrow> map (\<lambda>(i, x). (nat_digits i, x)) (List.enumerate 0 xs)
     | _ \<Rightarrow> [])"

definition string_entries :: "json \<Rightarrow> (string, string) omap" where
  "string_entries v = concat (map (\<lambda>(k, x). case x of JStr s \<Rightarrow> [(k, s)] | _ \<Rightarrow> []) (object_entries v))"

fun or_else :: "'a option \<Rightarrow> 'a option \<Rightarrow> 'a option" where
  "or_else (Some x) d = Some x"
| "or_else None d = d"

definition normalizeApiError :: "json \<Rightarrow> int \<Rightarrow> string option \<Rightarrow> api_error_shape" where
  "normalizeApiError payload status requestId =
     (if \<not> is_object payload \<or> \<not> has_jprop payload ''error'' then fallbackApiError status requestId
      else
        (let candidate = jprop payload ''error'' in
         if \<not> is_object candidate then fallbackApiError status requestId
         else
           (let code = string_prop candidate ''code'';
                message = string_prop candidate ''message'';
                fields = (if has_jprop candidate ''fields'' \<and> is_object (jprop candidate ''fields'')
                          then Some (string_entries (jprop candidate ''fields'')) else None);
                bodyRequestId = string_prop candidate ''requestId''
            in case (code, message) of
                 (Some c, Some m) \<Rightarrow>
                   if c = [] \<or> m = [] then fallbackApiError status (or_else bodyRequestId requestId)
                   else \<lparr>er_code = c, er_message = m,
                         er_fields = (case fields of Some f \<Rightarrow> if f = [] then None else Some f | None \<Rightarrow> None),
                         er_requestId = or_else bodyRequestId requestId\<rparr>
               | _ \<Rightarrow> fallbackApiError status (or_else bodyRequestId requestId))))"

section \<open>Headers and bodies\<close>

text \<open>The three forms of \<open>HeadersInit\<close>; a \<open>Headers\<close> object iterates lower-case names.\<close>

datatype headers_init =
    No_headers
  | Headers_instance "(string \<times> string) list"
  | Header_pairs "(string \<times> string) list"
  | Header_object "(string \<times> string) list"

definition assign_all :: "(string, string) omap \<Rightarrow> (string \<times> string) list \<Rightarrow> (string, string) omap" where
  "assign_all m kvs = foldl (\<lambda>m (k, v). om_set m k v) m kvs"

definition headersRecord :: "headers_init \<Rightarrow> (string, string) omap" where
  "headersRecord h = (case h of
       No_headers \<Rightarrow> []
     | Headers_instance kvs \<Rightarrow> assign_all [] (map (\<lambda>(k, v). (js_lower k, v)) kvs)
     | Header_pairs kvs \<Rightarrow> assign_all [] kvs
     | Header_object kvs \<Rightarrow> assign_all [] kvs)"

text \<open>The loop of at most three rounds that takes the payload out of its envelopes.\<close>

fun unwrap_rounds :: "nat \<Rightarrow> json \<Rightarrow> json" where
  "unwrap_rounds 0 v = v"
| "unwrap_rounds (Suc n) v = (case v of
       JStr s \<Rightarrow> (case JSON_parse s of Inl _ \<Rightarrow> v | Inr u \<Rightarrow> unwrap_rounds n u)
     | _ \<Rightarrow> if has_jprop v ''data'' then unwrap_rounds n (jprop v ''data'')
           else if has_jprop v ''items'' then unwrap_rounds n (jprop v ''items'')
           else v)"

definition unwrapResponseBody :: "json \<Rightarrow> json" where
  "unwrapResponseBody = unwrap_rounds 3"

definition responseHeader :: "(string \<times> string) list \<Rightarrow> string \<Rightarrow> string option" where
  "responseHeader headers name =
     map_option snd (List.find (\<lambda>(k, _). js_lower k = js_lower name) headers)"

section \<open>The client's state and the network\<close>

definition AUTHORIZED_DEPLOYED_HTTP_API :: string where
  "AUTHORIZED_DEPLOYED_HTTP_API = ''http://80.225.194.189:3001/api/v1''"

definition AUTHORIZED_DEPLOYED_HTTPS_API :: string where
  "AUTHORIZED_DEPLOYED_HTTPS_API = ''https://80.225.194.189:3001/api/v1''"

definition LEGACY_VAULT_CACHE_PREFIX :: string where
  "LEGACY_VAULT_CACHE_PREFIX = ''ledgerly:legacy-vault:''"

text \<open>The base URL from the build's setting, without one trailing slash.\<close>

definition API_BASE_URL :: "string option \<Rightarrow> string" where
  "API_BASE_URL setting =
     (let trimmed = (case setting of Some s \<Rightarrow> js_trim s | None \<Rightarrow> []);
          base = (if trimmed = [] then ''/api/v1'' else trimmed)
      in if ends_with base ''/'' then butlast base else base)"

record http_request =
  rq_method :: string
  rq_url :: string
  rq_headers :: "(string, string) omap"
  rq_body :: "string option"

text \<open>A response; the body is what parsing its JSON gives, if it is JSON, beside its text.\<close>

record http_response =
  rs_status :: int
  rs_json :: "json option"
  rs_text :: string
  rs_headers :: "(string \<times> string) list"

type_synonym network = "nat \<Rightarrow> http_request \<Rightarrow> http_response option"

record client =
  cl_native :: bool
  cl_base :: string
  cl_token :: string
  cl_vaultCache :: "(string, string) omap"
  cl_storage :: "(string, string) omap option"
  cl_sent :: "http_request list"

definition setApiToken :: "string \<Rightarrow> client \<Rightarrow> client" where
  "setApiToken token c = c\<lparr>cl_token := token\<rparr>"

definition clearApiToken :: "client \<Rightarrow> client" where
  "clearApiToken c = c\<lparr>cl_token := [], cl_vaultCache := []\<rparr>"

definition send :: "network \<Rightarrow> http_request \<Rightarrow> client \<Rightarrow> http_response option \<times> client" where
  "send net q c = (net (length (cl_sent c)) q, c\<lparr>cl_sent := cl_sent c @ [q]\<rparr>)"

record req_options =
  op_method :: "string option"
  op_body :: "string option"
  op_headers :: headers_init
  op_demoFallback :: "json option"
  op_retryLegacyVault :: bool

definition method_of :: "req_options \<Rightarrow> string" where
  "method_of opts = js_upper (case op_method opts of Some m \<Rightarrow> m | None \<Rightarrow> ''GET'')"

section \<open>The transport\<close>

definition request_headers :: "req_options \<Rightarrow> client \<Rightarrow> (string, string) omap" where
  "request_headers opts c =
     (let expectsJson = (op_body opts \<noteq> None \<or> method_of opts = ''POST'' \<or> method_of opts = ''PUT''
                         \<or> method_of opts = ''PATCH'');
          custom = headersRecord (op_headers opts);
          base = [(''Accept'', ''application/json'')]
               @ (if expectsJson then [(''Content-Type'', ''application/json'')] else [])
               @ (if cl_token c \<noteq> [] then [(''Authorization'', ''Bearer '' @ cl_token c)] else []);
          merged = assign_all base custom
      in case List.find (\<lambda>(k, _). js_lower k = ''idempotency-key'') custom of
           Some (_, v) \<Rightarrow> om_set merged ''idempotency-key'' v
         | None \<Rightarrow> merged)"

definition requestViaNative :: "http_response option \<Rightarrow> client_error + json" where
  "requestViaNative answer = (case answer of
       None \<Rightarrow> Inl Plugin_failed
     | Some r \<Rightarrow>
        (let payload = (case rs_json r of Some v \<Rightarrow> v | None \<Rightarrow> JStr (rs_text r)) in
         if rs_status r < 200 \<or> rs_status r \<ge> 300 then
           Inl (Api_error (normalizeApiError payload (rs_status r) (responseHeader (rs_headers r) ''X-Request-ID'')) (rs_status r))
         else if rs_status r = 204 then Inr JUndefined
         else Inr (unwrapResponseBody payload)))"

definition requestViaFetch :: "http_response option \<Rightarrow> client_error + json" where
  "requestViaFetch answer = (case answer of
       None \<Rightarrow> Inl Fetch_failed
     | Some r \<Rightarrow>
         if rs_status r < 200 \<or> rs_status r \<ge> 300 then
           (let body = (case rs_json r of Some v \<Rightarrow> v | None \<Rightarrow> JUndefined)
            in Inl (Api_error (normalizeApiError body (rs_status r) (responseHeader (rs_headers r) ''X-Request-ID'')) (rs_status r)))
         else if rs_status r = 204 then Inr JUndefined
         else (case rs_json r of None \<Rightarrow> Inl Body_not_json | Some v \<Rightarrow> Inr (unwrapResponseBody v)))"

text \<open>The body of the \<open>try\<close> block: one request.\<close>

definition transport :: "network \<Rightarrow> string \<Rightarrow> req_options \<Rightarrow> client \<Rightarrow> (client_error + json) \<times> client" where
  "transport net path opts c =
     (let q = \<lparr>rq_method = method_of opts, rq_url = cl_base c @ path, rq_headers = request_headers opts c,
               rq_body = op_body opts\<rparr>;
          (answer, c') = send net q c
      in (if cl_native c then requestViaNative answer else requestViaFetch answer, c'))"

section \<open>Recovery for servers that still need a vault\<close>

definition legacy_kinds :: "string list" where
  "legacy_kinds = [''accounts'', ''transactions'', ''budgets'', ''goals'', ''expense-claims'']"

definition legacyFinanceWorkspaceId :: "string \<Rightarrow> string option" where
  "legacyFinanceWorkspaceId path = (case split_on (CHR ''/'') path of
       [e, w, i, k] \<Rightarrow> if e = [] \<and> w = ''workspaces'' \<and> i \<noteq> [] \<and> k \<in> set legacy_kinds then Some i else None
     | _ \<Rightarrow> None)"

definition jsonRecord :: "string option \<Rightarrow> (string \<times> json) list option" where
  "jsonRecord body = (case body of None \<Rightarrow> None
     | Some s \<Rightarrow> (case JSON_parse s of Inr (JObj m) \<Rightarrow> Some m | _ \<Rightarrow> None))"

definition field_is :: "(string, string) omap option \<Rightarrow> string \<Rightarrow> string \<Rightarrow> bool" where
  "field_is flds k v = (case flds of None \<Rightarrow> False | Some f \<Rightarrow> om_get f k = Some v)"

definition isLegacyVaultValidation :: "client_error \<Rightarrow> bool" where
  "isLegacyVaultValidation e = (case e of
       Api_error s status \<Rightarrow> status = 422 \<and>
         (field_is (er_fields s) ''vaultId'' ''is required'' \<or>
          field_is (er_fields s) ''accountId'' ''does not belong to the selected vault and currency'')
     | _ \<Rightarrow> False)"

definition legacyVaultCacheKey :: "string \<Rightarrow> string \<Rightarrow> string" where
  "legacyVaultCacheKey workspaceId code = workspaceId @ '':'' @ js_upper code"

definition rememberLegacyVaultId :: "string \<Rightarrow> string \<Rightarrow> client \<Rightarrow> client" where
  "rememberLegacyVaultId key vaultId c =
     c\<lparr>cl_vaultCache := om_set (cl_vaultCache c) key vaultId,
       cl_storage := map_option (\<lambda>m. om_set m (LEGACY_VAULT_CACHE_PREFIX @ key) vaultId) (cl_storage c)\<rparr>"

text \<open>The cached identifier, and the client after a stored one was copied into the memory cache.\<close>

definition cachedLegacyVaultId :: "string \<Rightarrow> client \<Rightarrow> string option \<times> client" where
  "cachedLegacyVaultId key c =
     (let inMemory = om_get (cl_vaultCache c) key in
      if inMemory \<noteq> None \<and> inMemory \<noteq> Some [] then (inMemory, c)
      else (case cl_storage c of
          None \<Rightarrow> (None, c)
        | Some m \<Rightarrow> (case om_get m (LEGACY_VAULT_CACHE_PREFIX @ key) of
             Some (x # xs) \<Rightarrow> (Some (x # xs), c\<lparr>cl_vaultCache := om_set (cl_vaultCache c) key (x # xs)\<rparr>)
           | _ \<Rightarrow> (None, c))))"

definition nonempty_string :: "json \<Rightarrow> string option" where
  "nonempty_string v = (case v of JStr (c # cs) \<Rightarrow> Some (c # cs) | _ \<Rightarrow> None)"

definition legacyVaultIdFromRecord :: "json \<Rightarrow> string option" where
  "legacyVaultIdFromRecord r =
     or_else (nonempty_string (jprop r ''vaultId''))
    (or_else (nonempty_string (jprop r ''vaultID''))
    (or_else (nonempty_string (jprop r ''vault_id''))
             (nonempty_string (jprop (jprop r ''vault'') ''id''))))"

text \<open>\<open>String(v ?? '')\<close>.\<close>

definition text_or_empty :: "json \<Rightarrow> string" where
  "text_or_empty v = js_string (nullish v (JStr []))"

definition get_options :: req_options where
  "get_options = \<lparr>op_method = Some ''GET'', op_body = None, op_headers = No_headers, op_demoFallback = None,
     op_retryLegacyVault = False\<rparr>"

definition default_vault :: "string \<Rightarrow> json" where
  "default_vault code = JObj [(''name'', JStr ''General''), (''type'', JStr ''workspace_default''),
     (''currency'', JStr code), (''description'', JStr []), (''openingMinor'', JNum (Fin 0)),
     (''privacy'', JStr ''workspace'')]"

definition vault_options :: "string \<Rightarrow> req_options" where
  "vault_options code = \<lparr>op_method = Some ''POST'', op_body = Some (json_text (default_vault code)),
     op_headers = No_headers, op_demoFallback = None, op_retryLegacyVault = False\<rparr>"

definition matching_account :: "string \<Rightarrow> string \<Rightarrow> json \<Rightarrow> bool" where
  "matching_account accountId code v =
     (is_object v \<and> text_or_empty (jprop v ''id'') = accountId \<and> js_upper (text_or_empty (jprop v ''currency'')) = code)"

definition matching_vault :: "string \<Rightarrow> json \<Rightarrow> bool" where
  "matching_vault code v =
     (is_object v \<and> jprop v ''archived'' \<noteq> JBool True \<and> jprop v ''privacy'' = JStr ''workspace'' \<and>
      js_upper (text_or_empty (jprop v ''currency'')) = code)"

text \<open>The three sources of an identifier, each with the requests it sends; an error ends the search.\<close>

definition vault_from_account ::
  "network \<Rightarrow> string \<Rightarrow> string \<Rightarrow> string option \<Rightarrow> client \<Rightarrow> (client_error + string option) \<times> client" where
  "vault_from_account net workspaceId code accountId c =
     (case accountId of
        None \<Rightarrow> (Inr None, c)
      | Some [] \<Rightarrow> (Inr None, c)
      | Some a \<Rightarrow>
         (case transport net (''/workspaces/'' @ workspaceId @ ''/accounts'') get_options c of
            (Inl e, c1) \<Rightarrow> (Inl e, c1)
          | (Inr accounts, c1) \<Rightarrow>
              (case List.find (matching_account a code) (array_items accounts) of
                 None \<Rightarrow> (Inr None, c1)
               | Some r \<Rightarrow> (Inr (legacyVaultIdFromRecord r), c1))))"

definition vault_existing ::
  "network \<Rightarrow> string \<Rightarrow> string \<Rightarrow> client \<Rightarrow> (client_error + string option) \<times> client" where
  "vault_existing net workspaceId code c =
     (case transport net (''/workspaces/'' @ workspaceId @ ''/vaults'') get_options c of
        (Inl e, c1) \<Rightarrow> (Inl e, c1)
      | (Inr existing, c1) \<Rightarrow>
          (case List.find (matching_vault code) (array_items existing) of
             None \<Rightarrow> (Inr None, c1)
           | Some v \<Rightarrow> (Inr (nonempty_string (jprop v ''id'')), c1)))"

definition vault_created ::
  "network \<Rightarrow> string \<Rightarrow> string \<Rightarrow> client \<Rightarrow> (client_error + string option) \<times> client" where
  "vault_created net workspaceId code c =
     (case transport net (''/workspaces/'' @ workspaceId @ ''/vaults'') (vault_options code) c of
        (Inl e, c1) \<Rightarrow> (Inl e, c1)
      | (Inr created, c1) \<Rightarrow> (Inr (nonempty_string (jprop created ''id'')), c1))"

definition ensureInternalVaultId ::
  "network \<Rightarrow> string \<Rightarrow> string \<Rightarrow> string option \<Rightarrow> client \<Rightarrow> (client_error + string option) \<times> client" where
  "ensureInternalVaultId net workspaceId code accountId c0 =
     (if code = [] then (Inr None, c0)
      else
        (let key = legacyVaultCacheKey workspaceId code in
         case cachedLegacyVaultId key c0 of
           (Some v, c) \<Rightarrow> (Inr (Some v), c)
         | (None, c) \<Rightarrow>
            (case vault_from_account net workspaceId code accountId c of
               (Inl e, c1) \<Rightarrow> (Inl e, c1)
             | (Inr (Some v), c1) \<Rightarrow> (Inr (Some v), rememberLegacyVaultId key v c1)
             | (Inr None, c1) \<Rightarrow>
                (case vault_existing net workspaceId code c1 of
                   (Inl e, c2) \<Rightarrow> (Inl e, c2)
                 | (Inr (Some v), c2) \<Rightarrow> (Inr (Some v), rememberLegacyVaultId key v c2)
                 | (Inr None, c2) \<Rightarrow>
                    (case vault_created net workspaceId code c2 of
                       (Inl e, c3) \<Rightarrow> (Inl e, c3)
                     | (Inr (Some v), c3) \<Rightarrow> (Inr (Some v), rememberLegacyVaultId key v c3)
                     | (Inr None, c3) \<Rightarrow> (Inr None, c3))))))"

text \<open>Whether the recovery is tried, with the workspace and the fields of the body.\<close>

definition recoverable ::
  "string \<Rightarrow> req_options \<Rightarrow> client_error \<Rightarrow> client \<Rightarrow> (string \<times> (string \<times> json) list) option" where
  "recoverable path opts e c =
     (if op_retryLegacyVault opts
         \<and> (cl_base c = AUTHORIZED_DEPLOYED_HTTP_API \<or> cl_base c = AUTHORIZED_DEPLOYED_HTTPS_API)
         \<and> method_of opts = ''POST'' \<and> isLegacyVaultValidation e
      then (case (legacyFinanceWorkspaceId path, jsonRecord (op_body opts)) of
              (Some w, Some body) \<Rightarrow> if om_get body ''vaultId'' = None then Some (w, body) else None
            | _ \<Rightarrow> None)
      else None)"

text \<open>The options of the second attempt: the same but for the body.\<close>

definition retry_options :: "(string \<times> json) list \<Rightarrow> string \<Rightarrow> req_options \<Rightarrow> req_options" where
  "retry_options body vaultId opts =
     opts\<lparr>op_body := Some (json_text (JObj (om_set body ''vaultId'' (JStr vaultId)))),
          op_demoFallback := None, op_retryLegacyVault := False\<rparr>"

text \<open>The end of the \<open>catch\<close> block: the demo fallback of a read, or the error.\<close>

definition settle_error :: "req_options \<Rightarrow> client_error \<Rightarrow> client_error + json" where
  "settle_error opts e =
     (case op_demoFallback opts of
        Some v \<Rightarrow> if e = Fetch_failed \<and> (op_method opts = None \<or> op_method opts = Some ''GET'') then Inr v else Inl e
      | None \<Rightarrow> Inl e)"

definition request :: "network \<Rightarrow> string \<Rightarrow> req_options \<Rightarrow> client \<Rightarrow> (client_error + json) \<times> client" where
  "request net path opts c =
     (case transport net path opts c of
        (Inr v, c1) \<Rightarrow> (Inr v, c1)
      | (Inl e, c1) \<Rightarrow>
         (case recoverable path opts e c1 of
            None \<Rightarrow> (settle_error opts e, c1)
          | Some (w, body) \<Rightarrow>
             (case ensureInternalVaultId net w (js_upper (text_or_empty (jprop (JObj body) ''currency'')))
                     (case jprop (JObj body) ''accountId'' of JStr a \<Rightarrow> Some a | _ \<Rightarrow> None) c1 of
                (Inr (Some vaultId), c2) \<Rightarrow> transport net path (retry_options body vaultId opts) c2
              | (_, c2) \<Rightarrow> (settle_error opts e, c2))))"

section \<open>The operations of the client\<close>

definition api_get :: "network \<Rightarrow> string \<Rightarrow> json option \<Rightarrow> client \<Rightarrow> (client_error + json) \<times> client" where
  "api_get net path fallback = request net path
     \<lparr>op_method = Some ''GET'', op_body = None, op_headers = No_headers, op_demoFallback = fallback,
      op_retryLegacyVault = True\<rparr>"

definition api_post ::
  "network \<Rightarrow> string \<Rightarrow> json \<Rightarrow> headers_init \<Rightarrow> client \<Rightarrow> (client_error + json) \<times> client" where
  "api_post net path body headers = request net path
     \<lparr>op_method = Some ''POST'', op_body = JSON_stringify body, op_headers = headers, op_demoFallback = None,
      op_retryLegacyVault = True\<rparr>"

definition api_patch :: "network \<Rightarrow> string \<Rightarrow> json \<Rightarrow> client \<Rightarrow> (client_error + json) \<times> client" where
  "api_patch net path body = request net path
     \<lparr>op_method = Some ''PATCH'', op_body = JSON_stringify body, op_headers = No_headers, op_demoFallback = None,
      op_retryLegacyVault = True\<rparr>"

definition api_delete :: "network \<Rightarrow> string \<Rightarrow> client \<Rightarrow> (client_error + json) \<times> client" where
  "api_delete net path = request net path
     \<lparr>op_method = Some ''DELETE'', op_body = None, op_headers = No_headers, op_demoFallback = None,
      op_retryLegacyVault = True\<rparr>"

section \<open>Downloads\<close>

text \<open>
  The regular expressions of \<open>filenameFromContentDisposition\<close>: the leftmost position at which an
  alternative matches. \<open>decodeURIComponent\<close> is a parameter that may fail.
\<close>

fun leftmost :: "(string \<Rightarrow> string option) \<Rightarrow> string \<Rightarrow> string option" where
  "leftmost m [] = m []"
| "leftmost m (c # cs) = (case m (c # cs) of Some x \<Rightarrow> Some x | None \<Rightarrow> leftmost m cs)"

definition after_prefix :: "string \<Rightarrow> string \<Rightarrow> string option" where
  "after_prefix p s = (if js_lower (take (length p) s) = p then Some (drop (length p) s) else None)"

definition run_without :: "char \<Rightarrow> string \<Rightarrow> string option" where
  "run_without stop s = (let r = takeWhile (\<lambda>c. c \<noteq> stop) s in if r = [] then None else Some r)"

definition encoded_filename :: "string \<Rightarrow> string option" where
  "encoded_filename s = (case after_prefix (''filename*=utf-8'' @ [CHR 0x27, CHR 0x27]) s of
       None \<Rightarrow> None | Some r \<Rightarrow> run_without (CHR '';'') r)"

definition quoted_filename :: "string \<Rightarrow> string option" where
  "quoted_filename s = (case after_prefix (''filename='' @ [CHR 0x22]) s of
       None \<Rightarrow> None
     | Some r \<Rightarrow> (let body = takeWhile (\<lambda>c. c \<noteq> CHR 0x22) r
                in if body = [] \<or> length body = length r then None else Some body))"

definition bare_filename :: "string \<Rightarrow> string option" where
  "bare_filename s = (case after_prefix ''filename='' s of None \<Rightarrow> None | Some r \<Rightarrow> run_without (CHR '';'') r)"

text \<open>\<open>s.replace(/^"(.*)"$/, '$1')\<close>; the dot does not match a line terminator.\<close>

definition strip_quotes :: "string \<Rightarrow> string" where
  "strip_quotes s =
     (if 2 \<le> length s \<and> hd s = CHR 0x22 \<and> last s = CHR 0x22
         \<and> list_all (\<lambda>c. code_of c \<noteq> 10 \<and> code_of c \<noteq> 13) (butlast (tl s))
      then butlast (tl s) else s)"

definition filenameFromContentDisposition :: "(string \<Rightarrow> string option) \<Rightarrow> string option \<Rightarrow> string option" where
  "filenameFromContentDisposition decodeURIComponent v =
     (case v of
        None \<Rightarrow> None
      | Some s \<Rightarrow>
          if s = [] then None
          else (case leftmost encoded_filename s of
             Some e \<Rightarrow> decodeURIComponent (strip_quotes e)
           | None \<Rightarrow>
              (case leftmost (\<lambda>t. or_else (quoted_filename t) (bare_filename t)) s of
                 None \<Rightarrow> None
               | Some f \<Rightarrow> if js_trim f = [] then None else Some (js_trim f))))"

record download_response =
  dl_content :: string
  dl_filename :: "string option"

definition api_download ::
  "network \<Rightarrow> (string \<Rightarrow> string option) \<Rightarrow> string \<Rightarrow> client \<Rightarrow> (client_error + download_response) \<times> client" where
  "api_download net decodeURIComponent path c =
     (let q = \<lparr>rq_method = ''GET'', rq_url = cl_base c @ path,
               rq_headers = [(''Accept'', ''text/csv'')]
                 @ (if cl_token c \<noteq> [] then [(''Authorization'', ''Bearer '' @ cl_token c)] else []),
               rq_body = None\<rparr>;
          (answer, c') = send net q c
      in (case answer of
            None \<Rightarrow> Inl (if cl_native c then Plugin_failed else Fetch_failed)
          | Some r \<Rightarrow>
             if rs_status r < 200 \<or> rs_status r \<ge> 300 then
               (let body = (if cl_native c then JStr (rs_text r)
                            else case rs_json r of Some v \<Rightarrow> v | None \<Rightarrow> JUndefined)
                in Inl (Api_error (normalizeApiError body (rs_status r)
                     (responseHeader (rs_headers r) ''X-Request-ID'')) (rs_status r)))
             else Inr \<lparr>dl_content = rs_text r,
                       dl_filename = filenameFromContentDisposition decodeURIComponent
                         (responseHeader (rs_headers r) ''Content-Disposition'')\<rparr>, c'))"

section \<open>Lemmas\<close>

lemma transport_sent:
  "transport net path opts c = (r, c') \<Longrightarrow>
     \<exists>q. cl_sent c' = cl_sent c @ [q] \<and> rq_url q = cl_base c @ path \<and> cl_base c' = cl_base c"
  by (auto simp: transport_def send_def Let_def)

lemma cached_frame:
  "cachedLegacyVaultId k c = (r, c') \<Longrightarrow> cl_sent c' = cl_sent c \<and> cl_base c' = cl_base c"
  by (auto simp: cachedLegacyVaultId_def Let_def split: if_splits option.splits list.splits)

lemma remember_frame [simp]:
  "cl_sent (rememberLegacyVaultId k v c) = cl_sent c" "cl_base (rememberLegacyVaultId k v c) = cl_base c"
  by (simp_all add: rememberLegacyVaultId_def)

text \<open>A step of the client that sends at most n requests, all below its base URL.\<close>

definition sends_upto :: "nat \<Rightarrow> client \<Rightarrow> client \<Rightarrow> bool" where
  "sends_upto n c c' = (cl_base c' = cl_base c \<and>
     (\<exists>qs. cl_sent c' = cl_sent c @ qs \<and> length qs \<le> n \<and> (\<forall>q \<in> set qs. prefix (cl_base c) (rq_url q))))"

lemma sends_refl [intro]: "cl_sent c' = cl_sent c \<Longrightarrow> cl_base c' = cl_base c \<Longrightarrow> sends_upto n c c'"
  by (auto simp: sends_upto_def)

lemma sends_trans: "sends_upto m a b \<Longrightarrow> sends_upto n b c \<Longrightarrow> sends_upto (m + n) a c"
  by (fastforce simp: sends_upto_def)

lemma sends_mono: "sends_upto m a b \<Longrightarrow> m \<le> n \<Longrightarrow> sends_upto n a b"
  by (fastforce simp: sends_upto_def)

lemma sends_transport: "transport net path opts c = (r, c') \<Longrightarrow> sends_upto (Suc 0) c c'"
  by (auto simp: sends_upto_def dest: transport_sent)

lemma sends_account: "vault_from_account net w code a c = (r, c') \<Longrightarrow> sends_upto (Suc 0) c c'"
  by (auto simp: vault_from_account_def intro: sends_transport split: option.splits list.splits prod.splits sum.splits)

lemma sends_existing: "vault_existing net w code c = (r, c') \<Longrightarrow> sends_upto (Suc 0) c c'"
  by (auto simp: vault_existing_def intro: sends_transport split: option.splits prod.splits sum.splits)

lemma sends_created: "vault_created net w code c = (r, c') \<Longrightarrow> sends_upto (Suc 0) c c'"
  by (auto simp: vault_created_def intro: sends_transport split: prod.splits sum.splits)

lemma sends_remember: "sends_upto n a b \<Longrightarrow> sends_upto n a (rememberLegacyVaultId k v b)"
  by (simp add: sends_upto_def)

lemma sends_ensure:
  assumes "ensureInternalVaultId net w code a c = (r, c')"
  shows "sends_upto 3 c c'"
proof (cases "code = []")
  case True
  with assms show ?thesis by (auto simp: ensureInternalVaultId_def)
next
  case False
  let ?key = "legacyVaultCacheKey w code"
  obtain v0 c0 where k: "cachedLegacyVaultId ?key c = (v0, c0)" by force
  obtain r1 c1 where a: "vault_from_account net w code a c0 = (r1, c1)" by force
  obtain r2 c2 where e: "vault_existing net w code c1 = (r2, c2)" by force
  obtain r3 c3 where n: "vault_created net w code c2 = (r3, c3)" by force
  have s0: "sends_upto 0 c c0" using cached_frame [OF k] by auto
  have s1: "sends_upto (Suc 0) c c1" using sends_trans [OF s0 sends_account [OF a]] by simp
  have s2: "sends_upto 2 c c2" using sends_trans [OF s1 sends_existing [OF e]] by (simp add: numeral_2_eq_2)
  have s3: "sends_upto 3 c c3" using sends_trans [OF s2 sends_created [OF n]] by (simp add: numeral_3_eq_3)
  have "c' \<in> {c0, c1, c2, c3, rememberLegacyVaultId ?key (the v0) c0} \<or>
      (\<exists>v. c' \<in> {rememberLegacyVaultId ?key v c1, rememberLegacyVaultId ?key v c2, rememberLegacyVaultId ?key v c3})"
    using assms False k a e n
    by (auto simp: ensureInternalVaultId_def Let_def split: option.splits sum.splits)
  then show ?thesis
    using s0 s1 s2 s3 by (auto intro: sends_mono sends_remember)
qed

lemma recoverable_conditions:
  "recoverable path opts e c = Some (w, body) \<Longrightarrow>
     op_retryLegacyVault opts \<and> cl_base c \<in> {AUTHORIZED_DEPLOYED_HTTP_API, AUTHORIZED_DEPLOYED_HTTPS_API} \<and>
     method_of opts = ''POST'' \<and> isLegacyVaultValidation e \<and> legacyFinanceWorkspaceId path = Some w \<and>
     jsonRecord (op_body opts) = Some body \<and> om_get body ''vaultId'' = None"
  by (auto simp: recoverable_def split: if_splits option.splits)

text \<open>How a request ends: with its first attempt, with the error of the first attempt, or with a second attempt.\<close>

lemma request_cases:
  assumes "request net path opts c = (r, c')"
  obtains (success) v where "transport net path opts c = (Inr v, c')" "r = Inr v"
  | (plain) e where "transport net path opts c = (Inl e, c')" "recoverable path opts e c' = None"
      "r = settle_error opts e"
  | (unrecovered) e c1 w body where "transport net path opts c = (Inl e, c1)"
      "recoverable path opts e c1 = Some (w, body)" "sends_upto 3 c1 c'" "r = settle_error opts e"
  | (retried) e c1 w body i c2 where "transport net path opts c = (Inl e, c1)"
      "recoverable path opts e c1 = Some (w, body)" "sends_upto 3 c1 c2"
      "transport net path (retry_options body i opts) c2 = (r, c')"
proof -
  obtain r1 c1 where t: "transport net path opts c = (r1, c1)" by force
  show thesis
  proof (cases r1)
    case (Inr v)
    with assms t have "Inr v = r" "c1 = c'" by (simp_all add: request_def)
    with t Inr show ?thesis by (intro success [of v]) simp_all
  next
    case (Inl e)
    show ?thesis
    proof (cases "recoverable path opts e c1")
      case None
      with assms t Inl plain show ?thesis by (simp add: request_def)
    next
      case (Some wb)
      obtain w body where wb: "wb = (w, body)" by force
      obtain r2 c2 where n: "ensureInternalVaultId net w (js_upper (text_or_empty (jprop (JObj body) ''currency'')))
          (case jprop (JObj body) ''accountId'' of JStr a \<Rightarrow> Some a | _ \<Rightarrow> None) c1 = (r2, c2)" by force
      note s = sends_ensure [OF n]
      show ?thesis
      proof (cases "\<exists>i. r2 = Inr (Some i)")
        case True
        with assms t Inl Some wb n retried [of e c1 w body c2] s show ?thesis
          by (auto simp: request_def)
      next
        case False
        with assms t Inl Some wb n unrecovered [of e c1 w body] s show ?thesis
          by (auto simp: request_def split: sum.splits option.splits)
      qed
    qed
  qed
qed

lemma settle_error_Inl: "Inl e' = settle_error opts e \<Longrightarrow> e' = e"
  by (auto simp: settle_error_def split: option.splits if_splits)

text \<open>A value that no round of \<open>unwrapResponseBody\<close> takes apart.\<close>

definition no_envelope :: "json \<Rightarrow> bool" where
  "no_envelope v = ((\<forall>s. v \<noteq> JStr s) \<and> \<not> has_jprop v ''data'' \<and> \<not> has_jprop v ''items'')"

lemma unwrap_no_envelope: "no_envelope v \<Longrightarrow> unwrap_rounds n v = v"
  by (cases n; cases v) (auto simp: no_envelope_def)

lemma unwrap_data: "unwrap_rounds (Suc n) (JObj ((''data'', v) # m)) = unwrap_rounds n v"
  by (simp add: has_jprop_def)

lemma unwrap_items: "\<not> has_jprop (JObj m) ''data'' \<Longrightarrow> unwrap_rounds (Suc n) (JObj ((''items'', v) # m)) = unwrap_rounds n v"
  by (simp add: has_jprop_def)

lemma unwrap_text: "json_plain v \<Longrightarrow> unwrap_rounds (Suc n) (JStr (json_text v)) = unwrap_rounds n v"
  by (simp add: JSON_parse_text)

section \<open>Properties\<close>

text \<open>C6. A request is bounded: it sends at least one and at most five requests, all below the API's
  base URL, and more than one only for a POST to a finance collection of one of the two deployed
  servers; every other call sends exactly one.\<close>

theorem request_effort_bounded:
  assumes "request net path opts c = (r, c')"
  shows "\<exists>qs. cl_sent c' = cl_sent c @ qs \<and> 1 \<le> length qs \<and> length qs \<le> 5 \<and>
    (\<forall>q \<in> set qs. prefix (cl_base c) (rq_url q)) \<and>
    (1 < length qs \<longrightarrow> op_retryLegacyVault opts \<and> method_of opts = ''POST'' \<and> legacyFinanceWorkspaceId path \<noteq> None \<and>
       cl_base c \<in> {AUTHORIZED_DEPLOYED_HTTP_API, AUTHORIZED_DEPLOYED_HTTPS_API})"
  using assms
proof (cases rule: request_cases)
  case (success v)
  then show ?thesis using transport_sent [OF success(1)] by auto
next
  case (plain e)
  then show ?thesis using transport_sent [OF plain(1)] by auto
next
  case (unrecovered e c1 w body)
  from transport_sent [OF unrecovered(1)] unrecovered(3) recoverable_conditions [OF unrecovered(2)]
  show ?thesis by (auto simp: sends_upto_def)
next
  case (retried e c1 w body i c2)
  from transport_sent [OF retried(1)] retried(3) transport_sent [OF retried(4)] recoverable_conditions [OF retried(2)]
  show ?thesis by (auto simp: sends_upto_def)
qed

text \<open>A client without a server: every request fails.\<close>

definition offline_client :: client where
  "offline_client = \<lparr>cl_native = False, cl_base = ''/api/v1'', cl_token = [], cl_vaultCache = [], cl_storage = None, cl_sent = []\<rparr>"

lemma offline_get:
  "api_get (\<lambda>_ _. None) ''/me'' None offline_client =
     (Inl Fetch_failed, snd (api_get (\<lambda>_ _. None) ''/me'' None offline_client))"
  by (simp add: api_get_def request_def transport_def send_def requestViaFetch_def offline_client_def
      recoverable_def isLegacyVaultValidation_def settle_error_def Let_def)

theorem request_effort_bounded_witness:
  "\<exists>qs. cl_sent (snd (api_get (\<lambda>_ _. None) ''/me'' None offline_client)) = qs \<and> 1 \<le> length qs \<and> length qs \<le> 5"
  using request_effort_bounded [OF offline_get [unfolded api_get_def]]
  by (auto simp: api_get_def offline_client_def)

text \<open>C7. The recovery never replaces the server's answer by an error of its own: when a call fails, the
  error is the one of its first attempt or the one of a second attempt that repeated it with a vault
  identifier; errors of the lookups in between are not shown.\<close>

theorem request_error_origin:
  assumes "request net path opts c = (Inl e, c')"
  shows "fst (transport net path opts c) = Inl e \<or>
    (\<exists>e0 c1 w body i c2. transport net path opts c = (Inl e0, c1) \<and> isLegacyVaultValidation e0 \<and>
       recoverable path opts e0 c1 = Some (w, body) \<and>
       fst (transport net path (retry_options body i opts) c2) = Inl e)"
  using assms
proof (cases rule: request_cases)
  case (retried e0 c1 w body i c2)
  then have "fst (transport net path (retry_options body i opts) c2) = Inl e" by simp
  with retried(1,2) recoverable_conditions [OF retried(2)] show ?thesis by blast
qed (auto dest: settle_error_Inl)

theorem request_error_origin_witness:
  "fst (api_get (\<lambda>_ _. None) ''/me'' None offline_client) = Inl Fetch_failed \<and>
   fst (transport (\<lambda>_ _. None) ''/me''
     \<lparr>op_method = Some ''GET'', op_body = None, op_headers = No_headers, op_demoFallback = None,
      op_retryLegacyVault = True\<rparr> offline_client) = Inl Fetch_failed"
proof -
  have "fst (api_get (\<lambda>_ _. None) ''/me'' None offline_client) = Inl Fetch_failed"
    using offline_get by (metis fst_conv)
  with request_error_origin [OF offline_get [unfolded api_get_def]] show ?thesis
    by (auto simp: isLegacyVaultValidation_def transport_def send_def requestViaFetch_def offline_client_def Let_def)
qed

text \<open>C8. The response body is taken out of the envelopes the server uses: an object with neither data
  nor items, bare, under data or items, or sent as JSON text in or around such an envelope, gives the
  object itself.\<close>

theorem unwrapResponseBody_correct:
  assumes "no_envelope v" "json_plain v"
  shows "unwrapResponseBody v = v \<and>
    unwrapResponseBody (JObj [(''data'', v)]) = v \<and>
    unwrapResponseBody (JObj [(''items'', v), (''nextCursor'', x)]) = v \<and>
    unwrapResponseBody (JStr (json_text v)) = v \<and>
    unwrapResponseBody (JStr (json_text (JObj [(''data'', v)]))) = v \<and>
    unwrapResponseBody (JObj [(''data'', JStr (json_text v))]) = v"
proof -
  have p: "json_plain (JObj [(''data'', v)])" using assms(2) by simp
  have three: "(3::nat) = Suc (Suc (Suc 0))" by simp
  show ?thesis
    unfolding unwrapResponseBody_def three
    using unwrap_no_envelope [OF assms(1)] unwrap_text [OF assms(2)] unwrap_text [OF p]
    by (simp add: unwrap_data unwrap_items has_jprop_def del: unwrap_rounds.simps(2))
qed

theorem unwrapResponseBody_correct_witness:
  "unwrapResponseBody (JStr (json_text (JObj [(''data'', JObj [(''id'', JStr ''t1'')])]))) = JObj [(''id'', JStr ''t1'')]"
  using unwrapResponseBody_correct [of "JObj [(''id'', JStr ''t1'')]"]
  by (simp add: no_envelope_def has_jprop_def)

text \<open>Whatever the server sends, the error the caller gets has a code and a message, its field
  messages are present only when there is at least one, the request identifier of the body wins over
  the header's, and a body that is no error object gives the generic message of its status class.\<close>

theorem normalizeApiError_well_formed:
  "er_code (normalizeApiError v s h) \<noteq> [] \<and> er_message (normalizeApiError v s h) \<noteq> [] \<and>
   er_fields (normalizeApiError v s h) \<noteq> Some [] \<and>
   (\<not> is_object v \<longrightarrow> normalizeApiError v s h = fallbackApiError s h) \<and>
   (string_prop (jprop v ''error'') ''requestId'' = Some i \<longrightarrow> er_requestId (normalizeApiError v s h) = Some i)"
proof -
  have f: "er_code (fallbackApiError s x) \<noteq> []" "er_message (fallbackApiError s x) \<noteq> []"
    "er_fields (fallbackApiError s x) = None" "er_requestId (fallbackApiError s x) = x" for x
    by (simp_all add: fallbackApiError_def)
  have o1: "is_object (jprop v ''error'')" "has_jprop v ''error''" "is_object v"
    if "string_prop (jprop v ''error'') ''requestId'' = Some i"
    using that by (auto simp: string_prop_def has_jprop_def jprop_def is_object_def split: json.splits option.splits if_splits)
  show ?thesis
    using o1 by (auto simp: normalizeApiError_def Let_def f split: option.splits)
qed


theorem normalizeApiError_well_formed_witness:
  "er_requestId (normalizeApiError (JObj [(''error'', JObj [(''requestId'', JStr ''r1'')])]) 500 (Some ''h'')) = Some ''r1'' \<and>
   normalizeApiError JNull 404 None = fallbackApiError 404 None"
proof -
  let ?v = "JObj [(''error'', JObj [(''requestId'', JStr ''r1'')])]"
  have "string_prop (jprop ?v ''error'') ''requestId'' = Some ''r1''" by (simp add: string_prop_def has_jprop_def)
  with normalizeApiError_well_formed [of ?v 500 "Some ''h''" "''r1''"]
    normalizeApiError_well_formed [of JNull 404 None "''r1''"]
  show ?thesis by (simp add: is_object_def)
qed

text \<open>
  What a browser sends for a header record: names are compared without case, and the values of one
  name are joined by a comma.
\<close>

definition sent_header :: "(string, string) omap \<Rightarrow> string \<Rightarrow> string option" where
  "sent_header h name =
     (let vs = map snd (filter (\<lambda>(k, _). js_lower k = js_lower name) h)
      in if vs = [] then None else Some (js_join '', '' vs))"

text \<open>In a browser the idempotency key arrives doubled: the client copies the caller's
  Idempotency-Key header to a lower-case name, so the request carries both, and what the server reads is
  the key, a comma and the key again. The native client, which keeps the names apart, sends it once
  per name.\<close>

theorem idempotency_key_doubled:
  assumes "op_headers opts = Header_object [(''Idempotency-Key'', k)]"
  shows "sent_header (request_headers opts c) ''Idempotency-Key'' = Some (k @ '', '' @ k) \<and>
    om_get (request_headers opts c) ''Idempotency-Key'' = Some k \<and>
    om_get (request_headers opts c) ''idempotency-key'' = Some k"
proof -
  have l: "js_lower ''Idempotency-Key'' = ''idempotency-key''" "js_lower ''idempotency-key'' = ''idempotency-key''"
    "js_lower ''Accept'' = ''accept''" "js_lower ''Content-Type'' = ''content-type''"
    "js_lower ''Authorization'' = ''authorization''"
    by code_simp+
  show ?thesis
    using assms by (simp add: request_headers_def headersRecord_def assign_all_def Let_def l sent_header_def)
qed

theorem idempotency_key_doubled_witness:
  "sent_header (request_headers \<lparr>op_method = Some ''POST'', op_body = None,
      op_headers = Header_object [(''Idempotency-Key'', ''k1'')], op_demoFallback = None, op_retryLegacyVault = True\<rparr>
      offline_client) ''Idempotency-Key'' = Some ''k1, k1''"
  using idempotency_key_doubled [of "\<lparr>op_method = Some ''POST'', op_body = None,
      op_headers = Header_object [(''Idempotency-Key'', ''k1'')], op_demoFallback = None, op_retryLegacyVault = True\<rparr>" "''k1''"]
  by simp

end
