(* ===== verification/Utf16.thy ===== *)
theory Utf16
  imports JsStrings "HOL-Library.Word"
begin

text \<open>
  Strings as JavaScript has them: sequences of 16-bit code units, among which a high surrogate
  followed by a low one stands for one code point. The sharing code handles text of any script, so
  it is modelled on these strings; the other components use the Latin-1 \<open>string\<close>s of \<open>JsStrings\<close>, which
  \<open>u16\<close> embeds. \<open>Array.from\<close> splits a string into code points, each again a string of one or two units.
\<close>

section \<open>Code units\<close>

type_synonym code_unit = "16 word"
type_synonym utf16 = "code_unit list"

definition u16 :: "string \<Rightarrow> utf16" where
  "u16 s = map (\<lambda>c. word_of_nat (code_of c)) s"

definition is_high :: "code_unit \<Rightarrow> bool" where
  "is_high u = (0xD800 \<le> u \<and> u \<le> 0xDBFF)"

definition is_low :: "code_unit \<Rightarrow> bool" where
  "is_low u = (0xDC00 \<le> u \<and> u \<le> 0xDFFF)"

definition is_scalar :: "code_unit \<Rightarrow> bool" where
  "is_scalar u = (\<not> is_high u \<and> \<not> is_low u)"

text \<open>What \<open>\s\<close> and the trim functions take for white space.\<close>

definition space16 :: "code_unit \<Rightarrow> bool" where
  "space16 u = ((9 \<le> u \<and> u \<le> 13) \<or> u = 32 \<or> u = 160 \<or> u = 0x1680 \<or> (0x2000 \<le> u \<and> u \<le> 0x200A)
     \<or> u = 0x2028 \<or> u = 0x2029 \<or> u = 0x202F \<or> u = 0x205F \<or> u = 0x3000 \<or> u = 0xFEFF)"

definition trim_end16 :: "utf16 \<Rightarrow> utf16" where
  "trim_end16 s = rev (dropWhile space16 (rev s))"

definition trim16 :: "utf16 \<Rightarrow> utf16" where
  "trim16 s = trim_end16 (dropWhile space16 s)"

section \<open>Code points\<close>

fun array_from :: "utf16 \<Rightarrow> utf16 list" where
  "array_from [] = []"
| "array_from [u] = [[u]]"
| "array_from (u # v # us) = (if is_high u \<and> is_low v then [u, v] # array_from us else [u] # array_from (v # us))"

text \<open>A code point of a well-formed string.\<close>

fun ok_point :: "utf16 \<Rightarrow> bool" where
  "ok_point [u] = is_scalar u"
| "ok_point [u, v] = (is_high u \<and> is_low v)"
| "ok_point _ = False"

definition well_formed :: "utf16 \<Rightarrow> bool" where
  "well_formed s = list_all ok_point (array_from s)"

fun point_value :: "utf16 \<Rightarrow> nat" where
  "point_value [u] = unat u"
| "point_value [u, v] = 0x10000 + (unat u - 0xD800) * 0x400 + (unat v - 0xDC00)"
| "point_value _ = 0"

section \<open>encodeURIComponent\<close>

definition unreserved :: "nat \<Rightarrow> bool" where
  "unreserved n = ((48 \<le> n \<and> n \<le> 57) \<or> (65 \<le> n \<and> n \<le> 90) \<or> (97 \<le> n \<and> n \<le> 122)
     \<or> n \<in> {45, 95, 46, 33, 126, 42, 39, 40, 41})"

definition utf8_octets :: "nat \<Rightarrow> nat list" where
  "utf8_octets n =
     (if n < 0x80 then [n]
      else if n < 0x800 then [0xC0 + n div 0x40, 0x80 + n mod 0x40]
      else if n < 0x10000 then [0xE0 + n div 0x1000, 0x80 + n div 0x40 mod 0x40, 0x80 + n mod 0x40]
      else [0xF0 + n div 0x40000, 0x80 + n div 0x1000 mod 0x40, 0x80 + n div 0x40 mod 0x40, 0x80 + n mod 0x40])"

definition hex_upper :: "nat \<Rightarrow> char" where
  "hex_upper d = char_of (if d < 10 then 48 + d else 55 + d)"

definition percent :: "nat \<Rightarrow> string" where
  "percent n = [CHR ''%'', hex_upper (n div 16), hex_upper (n mod 16)]"

definition encode_point :: "utf16 \<Rightarrow> string" where
  "encode_point p = (let n = point_value p in
     if unreserved n then [char_of n] else concat (map percent (utf8_octets n)))"

text \<open>A lone surrogate makes the function throw an URIError.\<close>

definition encodeURIComponent :: "utf16 \<Rightarrow> string option" where
  "encodeURIComponent s = (if well_formed s then Some (concat (map encode_point (array_from s))) else None)"

section \<open>Facts\<close>

lemma concat_array_from [simp]: "concat (array_from s) = s"
  by (induction s rule: array_from.induct) auto

lemma array_from_Cons_scalar: "\<not> is_high u \<Longrightarrow> array_from (u # s) = [u] # array_from s"
  by (cases s) auto

lemma array_from_pair: "is_high u \<Longrightarrow> is_low v \<Longrightarrow> array_from (u # v # s) = [u, v] # array_from s"
  by simp

lemma ok_point_cases:
  assumes "ok_point p"
  obtains u where "p = [u]" "is_scalar u" | u v where "p = [u, v]" "is_high u" "is_low v"
  using assms by (cases p rule: ok_point.cases) auto

text \<open>Splitting undoes joining, for code points of well-formed strings.\<close>

lemma array_from_concat: "list_all ok_point ps \<Longrightarrow> array_from (concat ps) = ps"
proof (induction ps)
  case (Cons p ps)
  then have p: "ok_point p" and ps: "array_from (concat ps) = ps" by simp_all
  from p show ?case
    by (cases rule: ok_point_cases) (simp_all add: ps array_from_Cons_scalar is_scalar_def)
qed simp

lemma well_formed_concat: "list_all ok_point ps \<Longrightarrow> well_formed (concat ps)"
  by (simp add: well_formed_def array_from_concat)

lemma well_formed_append: "well_formed s \<Longrightarrow> well_formed t \<Longrightarrow> well_formed (s @ t)"
  using well_formed_concat [of "array_from s @ array_from t"] by (simp add: well_formed_def)

lemma array_from_append:
  assumes "well_formed s" "well_formed t"
  shows "array_from (s @ t) = array_from s @ array_from t"
  using array_from_concat [of "array_from s @ array_from t"] assms by (simp add: well_formed_def)

lemma array_from_nonempty: "p \<in> set (array_from s) \<Longrightarrow> p \<noteq> []"
  by (induction s rule: array_from.induct) (auto split: if_splits)

lemma array_from_Nil_iff [simp]: "array_from s = [] \<longleftrightarrow> s = []"
  by (cases s rule: array_from.cases) auto

lemma well_formed_Nil [simp]: "well_formed []"
  by (simp add: well_formed_def)

lemma list_all_scalar_points: "list_all is_scalar s \<Longrightarrow> array_from s = map (\<lambda>u. [u]) s \<and> well_formed s"
  by (induction s) (auto simp: array_from_Cons_scalar is_scalar_def well_formed_def list_all_iff)

lemma code_unit_small: "word_of_nat (code_of c) < (256 :: code_unit)"
  using code_of_less [of c] by (simp add: word_less_nat_alt unat_of_nat del: code_of_less)

lemma u16_scalar: "list_all is_scalar (u16 s)"
proof -
  have "is_scalar (word_of_nat (code_of c))" for c
  proof -
    have "\<not> 0xD800 \<le> (word_of_nat (code_of c) :: code_unit)" "\<not> 0xDC00 \<le> (word_of_nat (code_of c) :: code_unit)"
      using code_unit_small [of c] by (simp_all add: word_le_nat_alt word_less_nat_alt)
    then show ?thesis by (simp add: is_scalar_def is_high_def is_low_def)
  qed
  then show ?thesis by (simp add: u16_def list_all_iff)
qed

lemma u16_points [simp]: "array_from (u16 s) = map (\<lambda>u. [u]) (u16 s)" "well_formed (u16 s)"
  using list_all_scalar_points [OF u16_scalar [of s]] by simp_all

lemma u16_append [simp]: "u16 (s @ t) = u16 s @ u16 t"
  by (simp add: u16_def)

lemma u16_length [simp]: "length (u16 s) = length s"
  by (simp add: u16_def)

lemma encode_total: "well_formed s \<longleftrightarrow> (\<exists>e. encodeURIComponent s = Some e)"
  by (simp add: encodeURIComponent_def)

lemma encode_append:
  assumes "encodeURIComponent s = Some a" "encodeURIComponent t = Some b"
  shows "encodeURIComponent (s @ t) = Some (a @ b)"
  using assms well_formed_append [of s t] array_from_append [of s t]
  by (auto simp: encodeURIComponent_def split: if_splits)

end
