(* ===== verification/ShareText.thy ===== *)
theory ShareText
  imports Utf16
begin

text \<open>
  The text of shared messages (lib/share/text.ts): repair of malformed strings, truncation by code
  points, and the cleaning of labels, which removes control characters and whatever looks like a link,
  a token, an identifier or an account number. The patterns of the source are expressions of a small
  backtracking matcher; \<open>normalize('NFC')\<close> needs the tables of Unicode and is a parameter.
\<close>

section \<open>Well-formed text and its length\<close>

definition REPLACEMENT :: code_unit where
  "REPLACEMENT = 0xFFFD"

fun toWellFormedUnicode :: "utf16 \<Rightarrow> utf16" where
  "toWellFormedUnicode [] = []"
| "toWellFormedUnicode [u] = [if is_high u \<or> is_low u then REPLACEMENT else u]"
| "toWellFormedUnicode (u # v # us) =
     (if is_high u then (if is_low v then u # v # toWellFormedUnicode us
                         else REPLACEMENT # toWellFormedUnicode (v # us))
      else (if is_low u then REPLACEMENT else u) # toWellFormedUnicode (v # us))"

definition unicodeLength :: "utf16 \<Rightarrow> int" where
  "unicodeLength s = int (length (array_from s))"

definition ELLIPSIS :: utf16 where
  "ELLIPSIS = [0x2026]"

definition truncateUnicode :: "utf16 \<Rightarrow> int \<Rightarrow> utf16" where
  "truncateUnicode value maxCodePoints =
     (if maxCodePoints \<le> 0 then []
      else (let normalized = toWellFormedUnicode value;
                codePoints = array_from normalized
            in if int (length codePoints) \<le> maxCodePoints then normalized
               else if maxCodePoints = 1 then ELLIPSIS
               else trim_end16 (concat (take (nat (maxCodePoints - 1)) codePoints)) @ ELLIPSIS))"

definition unsafe_control :: "nat \<Rightarrow> bool" where
  "unsafe_control n = (n \<le> 8 \<or> n = 11 \<or> n = 12 \<or> (14 \<le> n \<and> n \<le> 31) \<or> (127 \<le> n \<and> n \<le> 159))"

definition bidi_override :: "nat \<Rightarrow> bool" where
  "bidi_override n = ((0x202A \<le> n \<and> n \<le> 0x202E) \<or> (0x2066 \<le> n \<and> n \<le> 0x2069))"

definition removeUnsafeControls :: "utf16 \<Rightarrow> utf16" where
  "removeUnsafeControls value =
     concat (filter (\<lambda>p. \<not> unsafe_control (point_value p) \<and> \<not> bidi_override (point_value p)) (array_from value))"

section \<open>Patterns\<close>

text \<open>An expression with the flag \<open>u\<close>: it reads code points. \<open>Edge\<close> is the word boundary, with the two
  further word characters that the flag \<open>i\<close> adds; \<open>Rep\<close> is greedy between its bounds.\<close>

datatype rx = Cls "nat \<Rightarrow> bool" | Edge bool | Seq rx rx | Alt rx rx | Rep nat "nat option" rx

text \<open>A position: the code point before it, if any, and the text after it. The matches of an expression
  at a position are listed in the order in which backtracking tries them.\<close>

type_synonym rx_pos = "utf16 option \<times> utf16 list"

definition word_point :: "bool \<Rightarrow> nat \<Rightarrow> bool" where
  "word_point ci n = ((48 \<le> n \<and> n \<le> 57) \<or> (65 \<le> n \<and> n \<le> 90) \<or> (97 \<le> n \<and> n \<le> 122) \<or> n = 95
     \<or> (ci \<and> (n = 0x17F \<or> n = 0x212A)))"

fun rx_repeat :: "(rx_pos \<Rightarrow> rx_pos list) \<Rightarrow> nat \<Rightarrow> nat \<Rightarrow> nat option \<Rightarrow> rx_pos \<Rightarrow> rx_pos list" where
  "rx_repeat m 0 lo hi p = (if lo = 0 then [p] else [])"
| "rx_repeat m (Suc fuel) lo hi p =
     (if hi = Some 0 then [p]
      else concat (map (rx_repeat m fuel (lo - 1) (map_option (\<lambda>h. h - 1) hi)) (m p))
           @ (if lo = 0 then [p] else []))"

primrec rx_match :: "rx \<Rightarrow> rx_pos \<Rightarrow> rx_pos list" where
  "rx_match (Cls c) = (\<lambda>(before, s). case s of [] \<Rightarrow> [] | p # ps \<Rightarrow> if c (point_value p) then [(Some p, ps)] else [])"
| "rx_match (Edge ci) = (\<lambda>(before, s).
     let left = (case before of None \<Rightarrow> False | Some p \<Rightarrow> word_point ci (point_value p));
         right = (case s of [] \<Rightarrow> False | p # ps \<Rightarrow> word_point ci (point_value p))
     in if left \<noteq> right then [(before, s)] else [])"
| "rx_match (Seq a b) = (\<lambda>p. concat (map (rx_match b) (rx_match a p)))"
| "rx_match (Alt a b) = (\<lambda>p. rx_match a p @ rx_match b p)"
| "rx_match (Rep lo hi a) = (\<lambda>p. rx_repeat (rx_match a) (length (snd p)) lo hi p)"

text \<open>\<open>replace\<close> with the flag \<open>g\<close>; every pattern below consumes something when it matches.\<close>

function replace_all :: "rx \<Rightarrow> utf16 list \<Rightarrow> rx_pos \<Rightarrow> utf16 list" where
  "replace_all r new (before, []) = []"
| "replace_all r new (before, p # ps) =
     (case rx_match r (before, p # ps) of
        (b, rest) # _ \<Rightarrow> if length rest < length (p # ps) then new @ replace_all r new (b, rest)
                       else p # replace_all r new (Some p, ps)
      | [] \<Rightarrow> p # replace_all r new (Some p, ps))"
  by pat_completeness auto

termination
  by (relation "measure (\<lambda>(r, new, before, s). length s)") auto

definition rx_replace :: "rx \<Rightarrow> string \<Rightarrow> utf16 \<Rightarrow> utf16" where
  "rx_replace r new s = concat (replace_all r (array_from (u16 new)) (None, array_from s))"

text \<open>Characters and character classes; with the flag \<open>i\<close> the long s and the Kelvin sign are letters.\<close>

definition fold_case :: "nat \<Rightarrow> nat" where
  "fold_case n = (if 65 \<le> n \<and> n \<le> 90 then n + 32 else if n = 0x17F then 115 else if n = 0x212A then 107 else n)"

definition chr :: "char \<Rightarrow> rx" where
  "chr c = Cls (\<lambda>n. n = code_of c)"

definition chr_ci :: "char \<Rightarrow> rx" where
  "chr_ci c = Cls (\<lambda>n. fold_case n = fold_case (code_of c))"

fun seq_all :: "rx list \<Rightarrow> rx" where
  "seq_all [] = Rep 0 (Some 0) (Cls (\<lambda>n. False))"
| "seq_all [r] = r"
| "seq_all (r # s # rs) = Seq r (seq_all (s # rs))"

definition lit_ci :: "string \<Rightarrow> rx" where
  "lit_ci s = seq_all (map chr_ci s)"

definition space_point :: "nat \<Rightarrow> bool" where
  "space_point n = (n < 0x10000 \<and> space16 (word_of_nat n))"

definition hex_ci :: rx where
  "hex_ci = Cls (\<lambda>n. (48 \<le> n \<and> n \<le> 57) \<or> (97 \<le> fold_case n \<and> fold_case n \<le> 102))"

definition token_class :: rx where
  "token_class = Cls (\<lambda>n. (65 \<le> n \<and> n \<le> 90) \<or> (97 \<le> n \<and> n \<le> 122) \<or> (48 \<le> n \<and> n \<le> 57) \<or> n = 95 \<or> n = 45)"

definition exactly :: "nat \<Rightarrow> rx \<Rightarrow> rx" where
  "exactly k r = Rep k (Some k) r"

definition URL_PATTERN :: rx where
  "URL_PATTERN = seq_all [Edge True,
     Alt (seq_all [lit_ci ''http'', Rep 0 (Some 1) (chr_ci (CHR ''s'')), lit_ci ''://'']) (lit_ci ''www.''),
     Rep 1 None (Cls (\<lambda>n. \<not> space_point n \<and> n \<notin> {60, 62, 34, 39}))]"

definition UUID_PATTERN :: rx where
  "UUID_PATTERN = seq_all [Edge True, exactly 8 hex_ci, chr (CHR ''-''), exactly 4 hex_ci, chr (CHR ''-''),
     Cls (\<lambda>n. 49 \<le> n \<and> n \<le> 56), exactly 3 hex_ci, chr (CHR ''-''),
     Cls (\<lambda>n. n = 56 \<or> n = 57 \<or> fold_case n = 97 \<or> fold_case n = 98), exactly 3 hex_ci, chr (CHR ''-''),
     exactly 12 hex_ci, Edge True]"

definition OBJECT_ID_PATTERN :: rx where
  "OBJECT_ID_PATTERN = seq_all [Edge True, exactly 24 hex_ci, Edge True]"

definition JWT_PATTERN :: rx where
  "JWT_PATTERN = seq_all [Edge False, chr (CHR ''e''), chr (CHR ''y''), chr (CHR ''J''), Rep 8 None token_class,
     chr (CHR ''.''), Rep 8 None token_class, chr (CHR ''.''), Rep 8 None token_class, Edge False]"

definition LONG_SECRET_PATTERN :: rx where
  "LONG_SECRET_PATTERN = seq_all [Edge False, Rep 36 None token_class, Edge False]"

definition ACCOUNT_NUMBER_PATTERN :: rx where
  "ACCOUNT_NUMBER_PATTERN = seq_all [Edge False,
     Rep 8 (Some 19) (Seq (Cls (\<lambda>n. 48 \<le> n \<and> n \<le> 57)) (Rep 0 (Some 1) (Cls (\<lambda>n. n = 32 \<or> n = 45)))), Edge False]"

definition SPACES_PATTERN :: rx where
  "SPACES_PATTERN = Rep 1 None (Cls space_point)"

section \<open>Labels\<close>

definition cleaned_label :: "(utf16 \<Rightarrow> utf16) \<Rightarrow> utf16 \<Rightarrow> utf16" where
  "cleaned_label nfc bounded =
     (let s0 = removeUnsafeControls (nfc (toWellFormedUnicode bounded));
          s1 = rx_replace URL_PATTERN ''[link removed]'' s0;
          s2 = rx_replace JWT_PATTERN ''[private value removed]'' s1;
          s3 = rx_replace UUID_PATTERN ''[private value removed]'' s2;
          s4 = rx_replace OBJECT_ID_PATTERN ''[private value removed]'' s3;
          s5 = rx_replace LONG_SECRET_PATTERN ''[private value removed]'' s4;
          s6 = rx_replace ACCOUNT_NUMBER_PATTERN ''[private value removed]'' s5
      in trim16 (rx_replace SPACES_PATTERN '' '' s6))"

definition cleanShareLabel :: "(utf16 \<Rightarrow> utf16) \<Rightarrow> utf16 option \<Rightarrow> int \<Rightarrow> utf16 \<Rightarrow> utf16" where
  "cleanShareLabel nfc value maxCodePoints fallback =
     (let processingLimit = max (maxCodePoints * 8) maxCodePoints;
          bounded = take (nat processingLimit) (case value of None \<Rightarrow> [] | Some v \<Rightarrow> v);
          cleaned = cleaned_label nfc bounded
      in truncateUnicode (if cleaned \<noteq> [] then cleaned else fallback) maxCodePoints)"

text \<open>\<open>upper\<close> is \<open>toLocaleUpperCase('en')\<close> of one code unit, again from the tables of Unicode.\<close>

definition humanizeShareLabel ::
  "(utf16 \<Rightarrow> utf16) \<Rightarrow> (code_unit \<Rightarrow> utf16) \<Rightarrow> utf16 option \<Rightarrow> utf16 \<Rightarrow> int \<Rightarrow> utf16" where
  "humanizeShareLabel nfc upper value fallback maxCodePoints =
     (let cleaned = cleanShareLabel nfc (map_option (map (\<lambda>u. if u = 95 then 32 else u)) value) maxCodePoints []
      in case cleaned of [] \<Rightarrow> fallback | u # us \<Rightarrow> upper u @ us)"

section \<open>Repaired and truncated text\<close>

lemma twf_points: "\<exists>ps. list_all ok_point ps \<and> toWellFormedUnicode s = concat ps"
proof (induction s rule: toWellFormedUnicode.induct)
  case 1
  show ?case by (rule exI [of _ "[]"]) simp
next
  case (2 u)
  show ?case
    by (rule exI [of _ "[[if is_high u \<or> is_low u then REPLACEMENT else u]]"])
       (auto simp: is_scalar_def REPLACEMENT_def is_high_def is_low_def)
next
  case (3 u v us)
  have r: "ok_point [REPLACEMENT]" by (simp add: REPLACEMENT_def is_scalar_def is_high_def is_low_def)
  consider (pair) "is_high u" "is_low v" | (high) "is_high u" "\<not> is_low v" | (other) "\<not> is_high u" by blast
  then show ?case
  proof cases
    case pair
    with 3(1) obtain ps where ps: "list_all ok_point ps" "toWellFormedUnicode us = concat ps" by blast
    with pair show ?thesis by (intro exI [of _ "[u, v] # ps"]) simp
  next
    case high
    with 3(2) obtain ps where ps: "list_all ok_point ps" "toWellFormedUnicode (v # us) = concat ps" by blast
    with high r show ?thesis by (intro exI [of _ "[REPLACEMENT] # ps"]) simp
  next
    case other
    with 3(3) obtain ps where ps: "list_all ok_point ps" "toWellFormedUnicode (v # us) = concat ps" by blast
    with other r show ?thesis
      by (intro exI [of _ "[if is_low u then REPLACEMENT else u] # ps"]) (simp add: is_scalar_def)
  qed
qed

lemma twf_well_formed [simp]: "well_formed (toWellFormedUnicode s)"
  using twf_points [of s] well_formed_concat by auto

text \<open>White space is a single code unit, so trimming removes whole code points.\<close>

definition space_at :: "utf16 \<Rightarrow> bool" where
  "space_at p = (list_all space16 p \<and> p \<noteq> [])"

lemma surrogate_not_space: "is_high u \<or> is_low u \<Longrightarrow> \<not> space16 u"
  by (auto simp: is_high_def is_low_def space16_def word_le_nat_alt)

lemma space_at_simps: "space_at [u] = space16 u" "is_high u \<Longrightarrow> \<not> space_at [u, v]"
  by (auto simp: space_at_def surrogate_not_space)

lemma trim_end16_concat:
  "list_all ok_point ps \<Longrightarrow> trim_end16 (concat ps) = concat (rev (dropWhile space_at (rev ps)))"
proof (induction ps rule: rev_induct)
  case (snoc p ps)
  then have p: "ok_point p" and IH: "trim_end16 (concat ps) = concat (rev (dropWhile space_at (rev ps)))" by simp_all
  from p show ?case
  proof (cases rule: ok_point_cases)
    case (1 u)
    with IH show ?thesis by (simp add: trim_end16_def space_at_simps)
  next
    case (2 u v)
    then show ?thesis by (simp add: trim_end16_def space_at_simps surrogate_not_space)
  qed
qed (simp add: trim_end16_def)

lemma trim_start16_concat:
  "list_all ok_point ps \<Longrightarrow> dropWhile space16 (concat ps) = concat (dropWhile space_at ps)"
proof (induction ps)
  case (Cons p ps)
  then have p: "ok_point p" and IH: "dropWhile space16 (concat ps) = concat (dropWhile space_at ps)" by simp_all
  from p show ?case
    by (cases rule: ok_point_cases) (simp_all add: IH space_at_simps surrogate_not_space)
qed simp

lemma list_all_rev_dropWhile: "list_all P ps \<Longrightarrow> list_all P (rev (dropWhile Q (rev ps)))"
  by (auto simp: list_all_iff dest: set_dropWhileD)

lemma trim16_points:
  assumes "list_all P ps" "list_all ok_point ps"
  shows "\<exists>qs. list_all P qs \<and> list_all ok_point qs \<and> trim16 (concat ps) = concat qs \<and> length qs \<le> length ps"
proof -
  have d: "list_all P (dropWhile space_at ps)" "list_all ok_point (dropWhile space_at ps)"
    using assms by (auto simp: list_all_iff dest: set_dropWhileD)
  have "length (rev (dropWhile space_at (rev (dropWhile space_at ps)))) \<le> length ps"
    using length_dropWhile_le [of space_at "rev (dropWhile space_at ps)"] length_dropWhile_le [of space_at ps] by simp
  moreover have "trim16 (concat ps) = concat (rev (dropWhile space_at (rev (dropWhile space_at ps))))"
    by (simp only: trim16_def trim_start16_concat [OF assms(2)] trim_end16_concat [OF d(2)])
  ultimately show ?thesis
    using list_all_rev_dropWhile [OF d(1)] list_all_rev_dropWhile [OF d(2)] by blast
qed

text \<open>Truncation gives well-formed text of at most the given number of code points, each of them from
  the repaired text but for the ellipsis.\<close>

lemma truncate_points:
  assumes "list_all P (array_from (toWellFormedUnicode s))" "P ELLIPSIS"
  shows "\<exists>ps. list_all ok_point ps \<and> list_all P ps \<and> truncateUnicode s m = concat ps \<and> int (length ps) \<le> max m 0"
proof -
  let ?n = "toWellFormedUnicode s"
  let ?c = "array_from ?n"
  have ok: "list_all ok_point ?c" using twf_well_formed [of s] by (simp only: well_formed_def)
  have e: "ok_point ELLIPSIS" by (simp add: ELLIPSIS_def is_scalar_def is_high_def is_low_def)
  consider (zero) "m \<le> 0" | (short) "0 < m" "int (length ?c) \<le> m" | (one) "m = 1" "\<not> int (length ?c) \<le> m"
    | (cut) "1 < m" "\<not> int (length ?c) \<le> m" by linarith
  then show ?thesis
  proof cases
    case zero
    then show ?thesis by (intro exI [of _ "[]"]) (simp add: truncateUnicode_def)
  next
    case short
    with ok assms show ?thesis by (intro exI [of _ ?c]) (simp add: truncateUnicode_def)
  next
    case one
    with e assms show ?thesis by (intro exI [of _ "[ELLIPSIS]"]) (simp add: truncateUnicode_def Let_def)
  next
    case cut
    let ?t = "take (nat (m - 1)) ?c"
    let ?r = "rev (dropWhile space_at (rev ?t))"
    have t: "list_all ok_point ?t" "list_all P ?t"
      using ok assms(1) by (auto simp: list_all_iff dest: in_set_takeD)
    have "length ?r \<le> length ?t" using length_dropWhile_le [of space_at "rev ?t"] by simp
    then have "int (length ?r) \<le> m - 1" using cut by simp
    moreover have "truncateUnicode s m = concat (?r @ [ELLIPSIS])"
      using cut trim_end16_concat [OF t(1)] by (simp add: truncateUnicode_def Let_def)
    moreover have "list_all ok_point (?r @ [ELLIPSIS])" "list_all P (?r @ [ELLIPSIS])"
      unfolding list_all_append using list_all_rev_dropWhile [OF t(1)] list_all_rev_dropWhile [OF t(2)] e assms(2)
      by simp_all
    moreover have "int (length (?r @ [ELLIPSIS])) \<le> max m 0" using calculation(1) cut by simp
    ultimately show ?thesis by blast
  qed
qed

lemma truncate_well_formed [simp]: "well_formed (truncateUnicode s m)"
  using truncate_points [of "\<lambda>_. True" s m] well_formed_concat by (auto simp: list_all_iff)

lemma truncate_length: "unicodeLength (truncateUnicode s m) \<le> max m 0"
proof -
  obtain ps where "list_all ok_point ps" "truncateUnicode s m = concat ps" "int (length ps) \<le> max m 0"
    using truncate_points [of "\<lambda>_. True" s m] by (auto simp: list_all_iff)
  then show ?thesis by (simp add: unicodeLength_def array_from_concat)
qed

lemma twf_scalar: "is_scalar u \<Longrightarrow> toWellFormedUnicode (u # s) = u # toWellFormedUnicode s"
  by (cases s) (simp_all add: is_scalar_def)

lemma twf_fixed: "well_formed s \<Longrightarrow> toWellFormedUnicode s = s"
proof -
  have "list_all ok_point ps \<Longrightarrow> toWellFormedUnicode (concat ps) = concat ps" for ps
  proof (induction ps)
    case (Cons p ps)
    then have p: "ok_point p" and IH: "toWellFormedUnicode (concat ps) = concat ps" by simp_all
    from p show ?case
    proof (cases rule: ok_point_cases)
      case (1 u)
      then show ?thesis by (simp add: IH twf_scalar)
    qed (simp add: IH)
  qed simp
  from this [of "array_from s"] show "well_formed s \<Longrightarrow> toWellFormedUnicode s = s" by (simp add: well_formed_def)
qed

section \<open>What replacing leaves\<close>

lemma rx_repeat_suffix:
  assumes "\<And>p q. q \<in> set (m p) \<Longrightarrow> suffix (snd q) (snd p)"
  shows "q \<in> set (rx_repeat m fuel lo hi p) \<Longrightarrow> suffix (snd q) (snd p)"
proof (induction fuel arbitrary: lo hi p)
  case (Suc fuel)
  show ?case
  proof (cases "q = p")
    case False
    with Suc.prems obtain p' where "p' \<in> set (m p)" "q \<in> set (rx_repeat m fuel (lo - 1) (map_option (\<lambda>h. h - 1) hi) p')"
      by (auto split: if_splits)
    with Suc.IH assms show ?thesis by (meson suffix_order.trans)
  qed simp
qed (simp split: if_splits)

lemma rx_match_suffix: "q \<in> set (rx_match r p) \<Longrightarrow> suffix (snd q) (snd p)"
proof (induction r arbitrary: p q)
  case (Cls c)
  then show ?case by (auto split: prod.splits list.splits if_splits intro: suffix_ConsI)
next
  case (Edge ci)
  then show ?case by (auto simp: Let_def split: prod.splits if_splits)
next
  case (Seq a b)
  from Seq.prems obtain p' where "p' \<in> set (rx_match a p)" "q \<in> set (rx_match b p')" by auto
  with Seq.IH show ?case by (meson suffix_order.trans)
next
  case (Rep lo hi a)
  from rx_repeat_suffix [of "rx_match a", OF Rep.IH] Rep.prems show ?case by simp
qed auto

text \<open>A code point of the result is of the replacement, or one of the text where nothing matches.\<close>

lemma replace_all_points:
  "x \<in> set (replace_all r new (before, s)) \<Longrightarrow>
   x \<in> set new \<or> (x \<in> set s \<and> (\<exists>b t. \<forall>q qs. rx_match r (b, x # t) = q # qs \<longrightarrow> length (snd q) \<ge> Suc (length t)))"
proof (induction r new "(before, s)" arbitrary: before s rule: replace_all.induct)
  case (2 r new before p ps)
  show ?case
  proof (cases "rx_match r (before, p # ps)")
    case Nil
    with 2(4) have "x = p \<or> x \<in> set (replace_all r new (Some p, ps))" by simp
    then show ?thesis
    proof
      assume "x = p"
      with Nil show ?thesis by (intro disjI2 conjI exI [of _ before] exI [of _ ps]) simp_all
    next
      assume "x \<in> set (replace_all r new (Some p, ps))"
      from 2(1) [OF Nil this] show ?thesis by auto
    qed
  next
    case (Cons q qs)
    obtain b rest where q: "q = (b, rest)" by (cases q)
    show ?thesis
    proof (cases "length rest < length (p # ps)")
      case True
      with 2(4) Cons q have "x \<in> set new \<or> x \<in> set (replace_all r new (b, rest))" by simp
      moreover have "set rest \<subseteq> set (p # ps)"
        using rx_match_suffix [of q r "(before, p # ps)"] Cons q
        by (metis list.set_intros(1) set_mono_suffix snd_conv)
      ultimately show ?thesis using 2(2) [OF Cons q [symmetric] True] by blast
    next
      case False
      with 2(4) Cons q have "x = p \<or> x \<in> set (replace_all r new (Some p, ps))" by simp
      then show ?thesis
      proof
        assume "x = p"
        with Cons q False show ?thesis by (intro disjI2 conjI exI [of _ before] exI [of _ ps]) simp_all
      next
        assume "x \<in> set (replace_all r new (Some p, ps))"
        from 2(3) [OF Cons q [symmetric] False this] show ?thesis by auto
      qed
    qed
  qed
qed simp

lemma rx_replace_points:
  fixes r :: rx
  assumes "list_all ok_point ps" "list_all P ps" "list_all P (array_from (u16 new))"
  defines "q \<equiv> replace_all r (array_from (u16 new)) (None, ps)"
  shows "list_all ok_point q" "list_all P q" "rx_replace r new (concat ps) = concat q"
proof -
  let ?q = "replace_all r (array_from (u16 new)) (None, ps)"
  have n: "list_all ok_point (array_from (u16 new))" using u16_points(2) [of new] by (simp only: well_formed_def)
  have "x \<in> set (array_from (u16 new)) \<or> x \<in> set ps" if "x \<in> set ?q" for x
    using replace_all_points [OF that] by blast
  with assms(1-3) n show "list_all ok_point q" "list_all P q" unfolding list_all_iff q_def by blast+
  show "rx_replace r new (concat ps) = concat q"
    by (simp add: rx_replace_def array_from_concat [OF assms(1)] q_def)
qed

lemma spaces_replaced:
  assumes "x \<in> set (replace_all SPACES_PATTERN new (before, s))" "space_point (point_value x)"
  shows "x \<in> set new"
proof (rule ccontr)
  assume "x \<notin> set new"
  with replace_all_points [OF assms(1)] obtain b t where
    m: "\<And>q qs. rx_match SPACES_PATTERN (b, x # t) = q # qs \<Longrightarrow> Suc (length t) \<le> length (snd q)" by blast
  have c: "rx_match SPACES_PATTERN (b, x # t) = rx_repeat (rx_match (Cls space_point)) (length t) 0 None (Some x, t)"
    using assms(2) by (simp add: SPACES_PATTERN_def)
  have "rx_repeat m f 0 None p \<noteq> []" for m f and p :: rx_pos by (cases f) simp_all
  then obtain q qs where q: "rx_match SPACES_PATTERN (b, x # t) = q # qs" unfolding c by (meson neq_Nil_conv)
  then have "q \<in> set (rx_repeat (rx_match (Cls space_point)) (length t) 0 None (Some x, t))" using c by simp
  then have "suffix (snd q) t" using rx_repeat_suffix [of "rx_match (Cls space_point)"] rx_match_suffix by fastforce
  then have "length (snd q) \<le> length t" by (rule suffix_length_le)
  with m [OF q] show False by simp
qed

section \<open>Clean labels\<close>

definition safe_point :: "utf16 \<Rightarrow> bool" where
  "safe_point p = (\<not> unsafe_control (point_value p) \<and> \<not> bidi_override (point_value p))"

definition label_point :: "utf16 \<Rightarrow> bool" where
  "label_point p = (safe_point p \<and> (space_point (point_value p) \<longrightarrow> point_value p = 32))"

lemmas point_eval = label_point_def safe_point_def unsafe_control_def bidi_override_def u16_def code_of_def

lemma removeUnsafeControls_points:
  assumes "well_formed s"
  shows "\<exists>ps. list_all ok_point ps \<and> list_all safe_point ps \<and> removeUnsafeControls s = concat ps"
  using assms
  by (intro exI [of _ "filter (\<lambda>p. \<not> unsafe_control (point_value p) \<and> \<not> bidi_override (point_value p)) (array_from s)"])
     (auto simp: well_formed_def removeUnsafeControls_def safe_point_def list_all_iff)

definition printable :: "string \<Rightarrow> bool" where
  "printable s = list_all (\<lambda>c. 32 \<le> code_of c \<and> code_of c < 127) s"

lemma printable_points:
  assumes "printable s"
  shows "list_all label_point (array_from (u16 s))"
proof -
  have "label_point [word_of_nat n]" if "32 \<le> n" "n < 127" for n
  proof -
    have u: "unat (word_of_nat n :: code_unit) = n" using that by (simp add: unat_of_nat)
    have "\<not> space16 (word_of_nat n)" if "n \<noteq> 32"
      using \<open>32 \<le> n\<close> \<open>n < 127\<close> that u by (auto simp: space16_def word_le_nat_alt word_unat_eq_iff)
    with that show ?thesis by (auto simp: label_point_def safe_point_def unsafe_control_def bidi_override_def u space_point_def)
  qed
  with assms show ?thesis
    unfolding u16_points(1) by (auto simp: printable_def list_all_iff u16_def)
qed

lemma label_points_safe: "list_all label_point ps \<Longrightarrow> list_all safe_point ps"
  by (auto simp: list_all_iff label_point_def)

lemma replacements_printable:
  "printable ''[link removed]''" "printable ''[private value removed]''" "printable '' ''"
  by (simp_all add: printable_def code_of_def)

lemmas replacements_safe = replacements_printable [THEN printable_points, THEN label_points_safe]

lemma cleaned_label_points:
  assumes "\<And>s. well_formed s \<Longrightarrow> well_formed (nfc s)"
  shows "\<exists>ps. list_all ok_point ps \<and> list_all label_point ps \<and> cleaned_label nfc s = concat ps"
proof -
  let ?safe = "\<lambda>s. \<exists>ps. list_all ok_point ps \<and> list_all safe_point ps \<and> s = concat ps"
  have R: "?safe (rx_replace r new s)" if "?safe s" "list_all safe_point (array_from (u16 new))" for r new s
    using rx_replace_points [OF _ _ that(2)] that(1) by blast
  have "?safe (removeUnsafeControls (nfc (toWellFormedUnicode s)))"
    using removeUnsafeControls_points [OF assms [OF twf_well_formed]] by blast
  then have "?safe (rx_replace ACCOUNT_NUMBER_PATTERN ''[private value removed]''
     (rx_replace LONG_SECRET_PATTERN ''[private value removed]''
     (rx_replace OBJECT_ID_PATTERN ''[private value removed]''
     (rx_replace UUID_PATTERN ''[private value removed]''
     (rx_replace JWT_PATTERN ''[private value removed]''
     (rx_replace URL_PATTERN ''[link removed]'' (removeUnsafeControls (nfc (toWellFormedUnicode s)))))))))"
    by (intro R replacements_safe)
  then obtain p6 where 6: "list_all ok_point p6" "list_all safe_point p6" and
    e: "cleaned_label nfc s = trim16 (rx_replace SPACES_PATTERN '' '' (concat p6))"
    unfolding cleaned_label_def Let_def by metis
  define p7 where "p7 = replace_all SPACES_PATTERN (array_from (u16 '' '')) (None, p6)"
  note 7 = rx_replace_points [OF 6 replacements_safe(3), of SPACES_PATTERN, folded p7_def]
  have "point_value x = 32" if "x \<in> set p7" "space_point (point_value x)" for x
    using spaces_replaced [OF that(1) [unfolded p7_def] that(2)] by (simp add: u16_def code_of_def)
  with 7(2) have "list_all label_point p7" by (auto simp: list_all_iff label_point_def)
  from trim16_points [OF this 7(1)] show ?thesis unfolding e 7(3) by blast
qed


text \<open>A label as the builders use it: well-formed, within its limit, on one line and free of control
  and direction characters.\<close>

definition clean_text :: "utf16 \<Rightarrow> bool" where
  "clean_text s = (well_formed s \<and> list_all label_point (array_from s))"

lemma clean_text_concat: "list_all ok_point ps \<Longrightarrow> list_all label_point ps \<Longrightarrow> clean_text (concat ps)"
  by (simp add: clean_text_def well_formed_concat array_from_concat)

lemma clean_text_Nil [simp]: "clean_text []"
  by (simp add: clean_text_def)

lemma printable_clean: "printable s \<Longrightarrow> clean_text (u16 s)"
  using printable_points [of s] by (simp add: clean_text_def del: u16_points(1))

lemma clean_label:
  assumes nfc: "\<And>s. well_formed s \<Longrightarrow> well_formed (nfc s)" and fb: "clean_text fallback"
  shows "clean_text (cleanShareLabel nfc value m fallback)"
    "unicodeLength (cleanShareLabel nfc value m fallback) \<le> max m 0"
proof -
  obtain c where c: "clean_text c" "cleanShareLabel nfc value m fallback = truncateUnicode c m"
  proof -
    let ?b = "take (nat (max (m * 8) m)) (case value of None \<Rightarrow> [] | Some v \<Rightarrow> v)"
    have "clean_text (cleaned_label nfc ?b)"
      using cleaned_label_points [of nfc ?b] nfc clean_text_concat by metis
    with fb show thesis
      by (intro that [of "if cleaned_label nfc ?b \<noteq> [] then cleaned_label nfc ?b else fallback"])
         (simp_all add: cleanShareLabel_def Let_def)
  qed
  have "toWellFormedUnicode c = c" using c(1) by (simp add: clean_text_def twf_fixed)
  moreover have "label_point ELLIPSIS"
    by (simp add: ELLIPSIS_def label_point_def safe_point_def unsafe_control_def bidi_override_def space_point_def space16_def)
  ultimately obtain ps where "list_all ok_point ps" "list_all label_point ps" "truncateUnicode c m = concat ps"
    using truncate_points [of label_point c m] c(1) by (auto simp: clean_text_def)
  then show "clean_text (cleanShareLabel nfc value m fallback)" unfolding c(2) by (simp add: clean_text_concat)
  show "unicodeLength (cleanShareLabel nfc value m fallback) \<le> max m 0" unfolding c(2) by (rule truncate_length)
qed

section \<open>Properties\<close>

text \<open>A shared label cannot disturb the message it stands in: whatever the input, malformed text
  included, the cleaned label is well-formed, has at most the given number of code points, and holds no
  control character, no line break, no other white space than the plain space and no character that
  overrides the writing direction, provided normalization keeps text well-formed and the fallback is
  such a text.\<close>

theorem cleanShareLabel_clean:
  assumes "\<And>s. well_formed s \<Longrightarrow> well_formed (nfc s)" "clean_text fallback"
  shows "clean_text (cleanShareLabel nfc value m fallback) \<and>
    unicodeLength (cleanShareLabel nfc value m fallback) \<le> max m 0"
  using clean_label [of nfc, OF assms] by blast

theorem cleanShareLabel_clean_witness:
  "clean_text (cleanShareLabel id (Some [0xD800, 10, 0x202E, 65]) 3 (u16 ''none'')) \<and>
   unicodeLength (cleanShareLabel id (Some [0xD800, 10, 0x202E, 65]) 3 (u16 ''none'')) \<le> 3"
  using cleanShareLabel_clean [of id "u16 ''none''" "Some [0xD800, 10, 0x202E, 65]" 3]
    printable_clean [of "''none''"]
  by (simp add: printable_def code_of_def)

end
