(* ===== verification/PublicHosts.thy ===== *)
theory PublicHosts
  imports JsValues "HOL-Library.Word"
begin

text \<open>
  Which links the client opens or shares: \<open>web/src/platform/external-links.ts\<close> and
  \<open>web/src/lib/share/safe-public-url.ts\<close>. The browser's URL parser is a parameter, a function from a
  string to the parts of a URL or nothing. What the code relies on of it is how it prints a host: an
  IPv6 address in brackets, compressed, in lower-case hexadecimal groups.
\<close>

unbundle bit_operations_syntax

section \<open>Hosts\<close>

record url =
  url_protocol :: string
  url_username :: string
  url_password :: string
  url_hostname :: string
  url_href :: string

type_synonym url_parser = "string \<Rightarrow> url option"

text \<open>\<open>hostname.replace(/^\[|\]$/gu, '').toLowerCase()\<close>.\<close>

definition strip_brackets :: "string \<Rightarrow> string" where
  "strip_brackets h =
     (let a = (case h of c # cs \<Rightarrow> if c = CHR ''['' then cs else h | [] \<Rightarrow> []);
          b = (if a \<noteq> [] \<and> last a = CHR '']'' then butlast a else a)
      in js_lower b)"

text \<open>The pattern of four groups of one to three digits, and its numbers.\<close>

definition is_dotted :: "string \<Rightarrow> bool" where
  "is_dotted s = (let gs = split_on (CHR ''.'') s in
     length gs = 4 \<and> list_all (\<lambda>g. all_digits g \<and> 1 \<le> length g \<and> length g \<le> 3) gs)"

definition dotted_octets :: "string \<Rightarrow> nat list" where
  "dotted_octets s = map digits_value (split_on (CHR ''.'') s)"

definition private_octets :: "nat \<Rightarrow> nat \<Rightarrow> nat \<Rightarrow> bool" where
  "private_octets first second third =
     (first = 0 \<or> first = 10 \<or> first = 127 \<or> first \<ge> 224 \<or>
      (first = 100 \<and> second \<ge> 64 \<and> second \<le> 127) \<or>
      (first = 169 \<and> second = 254) \<or>
      (first = 172 \<and> second \<ge> 16 \<and> second \<le> 31) \<or>
      (first = 192 \<and> second = 0 \<and> third = 0) \<or>
      (first = 192 \<and> second = 0 \<and> third = 2) \<or>
      (first = 192 \<and> second = 168) \<or>
      (first = 198 \<and> (second = 18 \<or> second = 19)) \<or>
      (first = 198 \<and> second = 51 \<and> third = 100) \<or>
      (first = 203 \<and> second = 0 \<and> third = 113))"

text \<open>Both files have this function.\<close>

definition isNonPublicIpv4 :: "string \<Rightarrow> bool" where
  "isNonPublicIpv4 address =
     (if \<not> is_dotted address then False
      else (let os = dotted_octets address in
        if list_ex (\<lambda>x. x > 255) os then True
        else private_octets (os ! 0) (os ! 1) (os ! 2)))"

section \<open>IPv6 in external-links.ts\<close>

text \<open>\<open>s.split('::')\<close>.\<close>

fun split_double_colon :: "string \<Rightarrow> string list" where
  "split_double_colon (a # b # s) =
     (if a = CHR '':'' \<and> b = CHR '':'' then [] # split_double_colon s
      else (case split_double_colon (b # s) of p # ps \<Rightarrow> (a # p) # ps | [] \<Rightarrow> [[a]]))"
| "split_double_colon s = [s]"

definition hex_group :: "string \<Rightarrow> nat option" where
  "hex_group g =
     (if 1 \<le> length g \<and> length g \<le> 4 \<and> list_all (\<lambda>c. is_digit c \<or> (97 \<le> code_of c \<and> code_of c \<le> 102)) g
      then Some (foldl (\<lambda>n c. 16 * n + radix_digit c) 0 g) else None)"

text \<open>\<open>Number(octet)\<close> as an operand of a shift: not-a-number counts as zero.\<close>

definition octet_value :: "string \<Rightarrow> nat option" where
  "octet_value s = (case parse_number s of
       Fin r \<Rightarrow> if r < 0 \<or> r > 255 then None else Some (nat \<lfloor>r\<rfloor>)
     | NaN \<Rightarrow> Some 0
     | _ \<Rightarrow> None)"

definition dotted_groups :: "string \<Rightarrow> nat list option" where
  "dotted_groups g = (case map octet_value (split_on (CHR ''.'') g) of
       [Some a, Some b, Some c, Some d] \<Rightarrow> Some [push_bit 8 a OR b, push_bit 8 c OR d]
     | _ \<Rightarrow> None)"

fun parse_group_list :: "string list \<Rightarrow> nat list option" where
  "parse_group_list [] = Some []"
| "parse_group_list (g # gs) =
     (if CHR ''.'' \<in> set g then
        (if gs \<noteq> [] \<or> isNonPublicIpv4 g then None else dotted_groups g)
      else (case (hex_group g, parse_group_list gs) of
              (Some n, Some ns) \<Rightarrow> Some (n # ns)
            | _ \<Rightarrow> None))"

definition parseGroups :: "string \<Rightarrow> nat list option" where
  "parseGroups part = (if part = [] then Some [] else parse_group_list (split_on (CHR '':'') part))"

definition group_bytes :: "nat \<Rightarrow> nat list" where
  "group_bytes g = [drop_bit 8 g, g AND 255]"

definition parseIpv6Bytes :: "string \<Rightarrow> nat list option" where
  "parseIpv6Bytes hostname =
     (let address = strip_brackets hostname in
      if CHR '':'' \<notin> set address \<or> CHR ''%'' \<in> set address then None
      else
        (case split_double_colon address of
           [whole] \<Rightarrow>
             (case parseGroups whole of
                Some left \<Rightarrow> if length left = 8 then Some (concat (map group_bytes left)) else None
              | None \<Rightarrow> None)
         | [l, r] \<Rightarrow>
             (case (parseGroups l, parseGroups r) of
                (Some left, Some right) \<Rightarrow>
                  if length left + length right < 8
                  then Some (concat (map group_bytes
                         (left @ replicate (8 - length left - length right) 0 @ right)))
                  else None
              | _ \<Rightarrow> None)
         | _ \<Rightarrow> None))"

definition dotted :: "nat list \<Rightarrow> string" where
  "dotted bs = js_join ''.'' (map nat_digits bs)"

definition non_public_bytes :: "nat list \<Rightarrow> bool" where
  "non_public_bytes b =
     (if list_all (\<lambda>x. x = 0) (take 15 b) \<and> (b ! 15 = 0 \<or> b ! 15 = 1) then True
      else if b ! 0 = 255 \<or> b ! 0 AND 254 = 252 \<or>
              (b ! 0 = 254 \<and> b ! 1 AND 192 = 128) \<or> (b ! 0 = 254 \<and> b ! 1 AND 192 = 192) \<or>
              (b ! 0 = 32 \<and> b ! 1 = 1 \<and> b ! 2 = 13 \<and> b ! 3 = 184) \<or>
              (b ! 0 = 32 \<and> b ! 1 = 1 \<and> b ! 2 = 0 \<and> b ! 3 AND 224 = 0) then True
      else
        (let isIpv4Mapped = (list_all (\<lambda>x. x = 0) (take 10 b) \<and> b ! 10 = 255 \<and> b ! 11 = 255);
             isIpv4Compatible = list_all (\<lambda>x. x = 0) (take 12 b);
             nat64 = (b ! 0 = 0 \<and> b ! 1 = 100 \<and> b ! 2 = 255 \<and> b ! 3 = 155);
             isWellKnownNat64 = (nat64 \<and> list_all (\<lambda>x. x = 0) (take 8 (drop 4 b)));
             isLocalUseNat64 = (nat64 \<and> b ! 4 = 0 \<and> b ! 5 = 1)
         in if isLocalUseNat64 then True
            else if (isWellKnownNat64 \<and> isNonPublicIpv4 (dotted (drop 12 b))) \<or>
                    (b ! 0 = 32 \<and> b ! 1 = 2 \<and> isNonPublicIpv4 (dotted (take 4 (drop 2 b)))) then True
            else if isIpv4Mapped \<or> isIpv4Compatible then isNonPublicIpv4 (dotted (drop 12 b))
            else False))"

definition isNonPublicIpv6 :: "string \<Rightarrow> bool" where
  "isNonPublicIpv6 hostname =
     (case parseIpv6Bytes hostname of None \<Rightarrow> CHR '':'' \<in> set hostname | Some b \<Rightarrow> non_public_bytes b)"

definition isPublicHostname :: "string \<Rightarrow> bool" where
  "isPublicHostname hostname =
     (let n = strip_brackets hostname in
      if n = [] \<or> ends_with n ''.'' \<or> n = ''localhost'' \<or> ends_with n ''.localhost'' \<or> ends_with n ''.local'' \<or>
         ends_with n ''.internal'' \<or> n = ''home.arpa'' \<or> ends_with n ''.home.arpa'' \<or> ends_with n ''.test'' \<or>
         ends_with n ''.invalid'' \<or> ends_with n ''.example'' \<or> ends_with n ''.onion'' \<or>
         isNonPublicIpv4 n \<or> isNonPublicIpv6 n then False
      else if n \<noteq> ''wa.me'' \<and> (ends_with n ''.wa.me'' \<or> starts_with n ''wa.me.'') then False
      else CHR ''.'' \<in> set n \<or> CHR '':'' \<in> set n)"

definition MAX_EXTERNAL_URL_LENGTH :: nat where
  "MAX_EXTERNAL_URL_LENGTH = 4096"

definition hasUnsafeRawCharacters :: "string \<Rightarrow> bool" where
  "hasUnsafeRawCharacters raw =
     list_ex (\<lambda>c. code_of c = 92 \<or> is_space c \<or> code_of c \<le> 32 \<or> code_of c = 127) raw"

datatype link_error = Unsafe_external_URL

definition parseExternalUrl :: "url_parser \<Rightarrow> string \<Rightarrow> link_error + string" where
  "parseExternalUrl parse_url raw =
     (if raw = [] \<or> length raw > MAX_EXTERNAL_URL_LENGTH \<or> hasUnsafeRawCharacters raw \<or> starts_with raw ''//''
      then Inl Unsafe_external_URL
      else (case parse_url raw of
          None \<Rightarrow> Inl Unsafe_external_URL
        | Some u \<Rightarrow>
            if url_protocol u \<noteq> ''https:'' \<or> url_username u \<noteq> [] \<or> url_password u \<noteq> []
               \<or> \<not> isPublicHostname (url_hostname u) then Inl Unsafe_external_URL
            else if length (url_href u) > MAX_EXTERNAL_URL_LENGTH then Inl Unsafe_external_URL
            else Inr (url_href u)))"

text \<open>What opening a link does: an error, the native browser, or a new window.\<close>

datatype opened = Opened_natively string | Opened_window string

definition openExternalUrl :: "url_parser \<Rightarrow> bool \<Rightarrow> string \<Rightarrow> link_error + opened" where
  "openExternalUrl parse_url android raw =
     bind_result (parseExternalUrl parse_url raw)
       (\<lambda>href. Inr (if android then Opened_natively href else Opened_window href))"

section \<open>Links in shared text, safe-public-url.ts\<close>

definition MAX_SAFE_PUBLIC_URL_LENGTH :: nat where
  "MAX_SAFE_PUBLIC_URL_LENGTH = 2048"

text \<open>\<open>address.match(/::ffff:(dotted)$/u)\<close>: the text after the match's last occurrence that ends the string.\<close>

fun mapped_tail :: "string \<Rightarrow> string option" where
  "mapped_tail [] = None"
| "mapped_tail (c # cs) =
     (if starts_with (c # cs) ''::ffff:'' \<and> is_dotted (drop 7 (c # cs)) then Some (drop 7 (c # cs))
      else mapped_tail cs)"

definition share_isNonPublicIpv6 :: "string \<Rightarrow> bool" where
  "share_isNonPublicIpv6 hostname =
     (let a = strip_brackets hostname in
      if CHR '':'' \<notin> set a then False
      else if a = ''::'' \<or> a = ''::1'' \<or> starts_with a ''fc'' \<or> starts_with a ''fd'' \<or>
              (starts_with a ''fe'' \<and> 3 \<le> length a \<and> a ! 2 \<in> {CHR ''8'', CHR ''9'', CHR ''a'', CHR ''b''}) \<or>
              starts_with a ''2001:db8:'' then True
      else (case mapped_tail a of Some t \<Rightarrow> isNonPublicIpv4 t | None \<Rightarrow> False))"

definition hasPublicHostname :: "string \<Rightarrow> bool" where
  "hasPublicHostname hostname =
     (let n = strip_brackets hostname in
      if n = [] \<or> n = ''localhost'' \<or> ends_with n ''.localhost'' \<or> ends_with n ''.local'' \<or>
         ends_with n ''.internal'' \<or> ends_with n ''.test'' \<or> ends_with n ''.invalid'' \<or>
         isNonPublicIpv4 n \<or> share_isNonPublicIpv6 n then False
      else CHR ''.'' \<in> set n \<or> CHR '':'' \<in> set n)"

definition createSafePublicUrl :: "url_parser \<Rightarrow> string \<Rightarrow> string option" where
  "createSafePublicUrl parse_url v =
     (let candidate = js_trim v in
      if candidate = [] \<or> length candidate > MAX_SAFE_PUBLIC_URL_LENGTH then None
      else (case parse_url candidate of
          None \<Rightarrow> None
        | Some u \<Rightarrow>
            if url_protocol u \<noteq> ''https:'' \<or> url_username u \<noteq> [] \<or> url_password u \<noteq> []
               \<or> \<not> hasPublicHostname (url_hostname u) then None
            else if length (url_href u) \<le> MAX_SAFE_PUBLIC_URL_LENGTH then Some (url_href u) else None))"

section \<open>Text of addresses\<close>

lemma split_on_join:
  "xs \<noteq> [] \<Longrightarrow> \<forall>x \<in> set xs. c \<notin> set x \<Longrightarrow> split_on c (js_join [c] xs) = xs"
proof (induction xs)
  case (Cons x xs)
  then show ?case by (cases xs) (simp_all add: split_on_none split_on_append)
qed simp

lemma digits_no_dot: "CHR ''.'' \<notin> set (nat_digits n)"
proof
  assume "CHR ''.'' \<in> set (nat_digits n)"
  then have "is_digit (CHR ''.'')" using all_digits_nat_digits [of n] by (auto simp: all_digits_def list_all_iff)
  then show False by (simp add: is_digit_def code_of_def)
qed

lemma octet_digits: "n < 256 \<Longrightarrow> 1 \<le> length (nat_digits n) \<and> length (nat_digits n) \<le> 3"
  using nat_digits_length_le [of n 2] by (auto simp: Suc_le_eq numeral_3_eq_3 numeral_2_eq_2)

lemma split_dotted: "bs \<noteq> [] \<Longrightarrow> split_on (CHR ''.'') (dotted bs) = map nat_digits bs"
  unfolding dotted_def using split_on_join [of "map nat_digits bs" "CHR ''.''"] digits_no_dot by auto

lemma dotted_correct:
  assumes "a < 256" "b < 256" "c < 256" "d < 256"
  shows "isNonPublicIpv4 (dotted [a, b, c, d]) = private_octets a b c"
  using assms octet_digits
  by (simp add: isNonPublicIpv4_def is_dotted_def dotted_octets_def split_dotted Let_def)

section \<open>The special-purpose blocks\<close>

text \<open>The reference: the blocks as network prefixes of 32-bit addresses.\<close>

definition ipv4_word :: "nat \<Rightarrow> nat \<Rightarrow> nat \<Rightarrow> nat \<Rightarrow> 32 word" where
  "ipv4_word a b c d = of_nat (16777216 * a + 65536 * b + 256 * c + d)"

definition in_block :: "32 word \<Rightarrow> 32 word \<times> nat \<Rightarrow> bool" where
  "in_block w blk = (drop_bit (32 - snd blk) w = drop_bit (32 - snd blk) (fst blk))"

definition special_blocks :: "(32 word \<times> nat) list" where
  "special_blocks =
    [(ipv4_word 0 0 0 0, 8), (ipv4_word 10 0 0 0, 8), (ipv4_word 127 0 0 0, 8), (ipv4_word 224 0 0 0, 3),
     (ipv4_word 100 64 0 0, 10), (ipv4_word 169 254 0 0, 16), (ipv4_word 172 16 0 0, 12),
     (ipv4_word 192 0 0 0, 24), (ipv4_word 192 0 2 0, 24), (ipv4_word 192 168 0 0, 16),
     (ipv4_word 198 18 0 0, 15), (ipv4_word 198 51 100 0, 24), (ipv4_word 203 0 113 0, 24)]"

lemma unat_ipv4:
  assumes "a < 256" "b < 256" "c < 256" "d < 256"
  shows "unat (ipv4_word a b c d) = 16777216 * a + 65536 * b + 256 * c + d"
proof -
  have "16777216 * a + 65536 * b + 256 * c + d < 2 ^ 32" using assms by simp
  then show ?thesis
    unfolding ipv4_word_def unsigned_of_nat by (simp add: take_bit_nat_eq_self)
qed

lemma in_block_iff:
  assumes "a < 256" "b < 256" "c < 256" "d < 256" "x < 256" "y < 256" "z < 256"
  shows "in_block (ipv4_word a b c d) (ipv4_word x y z 0, n) =
    ((16777216 * a + 65536 * b + 256 * c + d) div 2 ^ (32 - n) = (16777216 * x + 65536 * y + 256 * z) div 2 ^ (32 - n))"
proof -
  have "in_block v (w, n) = (unat v div 2 ^ (32 - n) = unat w div 2 ^ (32 - n))" for v w
    by (simp only: in_block_def word_unat_eq_iff unat_drop_bit_eq drop_bit_eq_div [where ?'a = nat] fst_conv snd_conv)
  with unat_ipv4 [OF assms(1-4)] unat_ipv4 [OF assms(5-7), of 0] show ?thesis by simp
qed


lemma div_steps:
  assumes "a < 256" "b < 256" "c < 256" "d < (256::nat)"
  shows "(16777216 * a + 65536 * b + 256 * c + d) div 16777216 = a"
    and "(16777216 * a + 65536 * b + 256 * c + d) div 65536 = 256 * a + b"
    and "(16777216 * a + 65536 * b + 256 * c + d) div 256 = 65536 * a + 256 * b + c"
  using assms by simp_all

lemma block_prefixes:
  assumes "a < 256" "b < 256" "c < 256" "d < 256" "x < 256" "y < 256" "z < 256"
  shows "in_block (ipv4_word a b c d) (ipv4_word x y z 0, 8) = (a = x)"
    and "in_block (ipv4_word a b c d) (ipv4_word x y z 0, 16) = (256 * a + b = 256 * x + y)"
    and "in_block (ipv4_word a b c d) (ipv4_word x y z 0, 24) = (65536 * a + 256 * b + c = 65536 * x + 256 * y + z)"
    and "in_block (ipv4_word a b c d) (ipv4_word x y z 0, 3) = (a div 32 = x div 32)"
    and "in_block (ipv4_word a b c d) (ipv4_word x y z 0, 10) = ((256 * a + b) div 64 = (256 * x + y) div 64)"
    and "in_block (ipv4_word a b c d) (ipv4_word x y z 0, 12) = ((256 * a + b) div 16 = (256 * x + y) div 16)"
    and "in_block (ipv4_word a b c d) (ipv4_word x y z 0, 15) = ((256 * a + b) div 2 = (256 * x + y) div 2)"
proof -
  let ?w = "16777216 * a + 65536 * b + 256 * c + d" and ?v = "16777216 * x + 65536 * y + 256 * z"
  have e: "?v = 16777216 * x + 65536 * y + 256 * z + 0" by simp
  note l = div_steps [OF assms(1-4)] and r = div_steps [OF assms(5-7), of 0, folded e, simplified]
  have n: "in_block (ipv4_word a b c d) (ipv4_word x y z 0, k) = (?w div 2 ^ (32 - k) = ?v div 2 ^ (32 - k))" for k
    by (rule in_block_iff [OF assms])
  have p: "t div 536870912 = t div 16777216 div 32" "t div 4194304 = t div 65536 div 64"
    "t div 1048576 = t div 65536 div 16" "t div 131072 = t div 65536 div 2" for t :: nat
    by (simp_all add: div_mult2_eq [symmetric])
  show "in_block (ipv4_word a b c d) (ipv4_word x y z 0, 8) = (a = x)" using n [of 8] l r by simp
  show "in_block (ipv4_word a b c d) (ipv4_word x y z 0, 16) = (256 * a + b = 256 * x + y)"
    using n [of 16] l r by simp
  show "in_block (ipv4_word a b c d) (ipv4_word x y z 0, 24) = (65536 * a + 256 * b + c = 65536 * x + 256 * y + z)"
    using n [of 24] l r by simp
  show "in_block (ipv4_word a b c d) (ipv4_word x y z 0, 3) = (a div 32 = x div 32)"
    using n [of 3] l r by (simp add: p)
  show "in_block (ipv4_word a b c d) (ipv4_word x y z 0, 10) = ((256 * a + b) div 64 = (256 * x + y) div 64)"
    using n [of 10] l r by (simp add: p)
  show "in_block (ipv4_word a b c d) (ipv4_word x y z 0, 12) = ((256 * a + b) div 16 = (256 * x + y) div 16)"
    using n [of 12] l r by (simp add: p)
  show "in_block (ipv4_word a b c d) (ipv4_word x y z 0, 15) = ((256 * a + b) div 2 = (256 * x + y) div 2)"
    using n [of 15] l r by (simp add: p)
qed

lemma div_eq_bounds: "0 < k \<Longrightarrow> (x div k = m) = (m * k \<le> x \<and> x < m * k + k)" for x k m :: nat
  by (metis add.commute div_nat_eqI dividend_less_div_times le_refl mult.commute mult_Suc mult_Suc_right
      times_div_less_eq_dividend)

lemma octet_range:
  assumes "b < 256" "256 * N \<le> lo" "hi \<le> 256 * N + (256::nat)"
  shows "lo \<le> 256 * a + b \<and> 256 * a + b < hi \<longleftrightarrow> a = N \<and> lo \<le> 256 * N + b \<and> 256 * N + b < hi"
proof (cases a N rule: linorder_cases)
  case less
  then have "256 * a + 256 \<le> 256 * N" by simp
  with assms less show ?thesis by auto
next
  case equal
  then show ?thesis by simp
next
  case greater
  then have "256 * N + 256 \<le> 256 * a" by simp
  with assms greater show ?thesis by auto
qed

lemma octet_pair:
  assumes "b < 256" "y < (256::nat)"
  shows "256 * a + b = 256 * x + y \<longleftrightarrow> a = x \<and> b = y"
  using octet_range [of b x "256 * x + y" "256 * x + y + 1" a] assms by auto

lemma octet_triple:
  assumes "b < 256" "c < 256" "y < 256" "z < (256::nat)"
  shows "65536 * a + 256 * b + c = 65536 * x + 256 * y + z \<longleftrightarrow> a = x \<and> b = y \<and> c = z"
  using octet_pair [of c z "256 * a + b" "256 * x + y"] octet_pair [of b y a x] assms by auto

lemma special_blocks_private:
  assumes "a < 256" "b < 256" "c < 256" "d < 256"
  shows "list_ex (in_block (ipv4_word a b c d)) special_blocks = private_octets a b c"
proof -
  note o = block_prefixes [OF assms]
  have "in_block (ipv4_word a b c d) (ipv4_word 100 64 0 0, 10) = (a = 100 \<and> 64 \<le> b \<and> b \<le> 127)"
    using o(5) [of 100 64 0] octet_range [of b 100 25664 25728 a] assms by (auto simp: div_eq_bounds)
  moreover have "in_block (ipv4_word a b c d) (ipv4_word 172 16 0 0, 12) = (a = 172 \<and> 16 \<le> b \<and> b \<le> 31)"
    using o(6) [of 172 16 0] octet_range [of b 172 44048 44064 a] assms by (auto simp: div_eq_bounds)
  moreover have "in_block (ipv4_word a b c d) (ipv4_word 198 18 0 0, 15) = (a = 198 \<and> (b = 18 \<or> b = 19))"
    using o(7) [of 198 18 0] octet_range [of b 198 50706 50708 a] assms by (auto simp: div_eq_bounds)
  moreover have "in_block (ipv4_word a b c d) (ipv4_word 224 0 0 0, 3) = (224 \<le> a)"
    using o(4) [of 224 0 0] assms by (auto simp: div_eq_bounds)
  moreover have "256 * a + b = 43518 \<longleftrightarrow> a = 169 \<and> b = 254" "256 * a + b = 49320 \<longleftrightarrow> a = 192 \<and> b = 168"
    "65536 * a + 256 * b + c = 12582912 \<longleftrightarrow> a = 192 \<and> b = 0 \<and> c = 0"
    "65536 * a + 256 * b + c = 12582914 \<longleftrightarrow> a = 192 \<and> b = 0 \<and> c = 2"
    "65536 * a + 256 * b + c = 12989284 \<longleftrightarrow> a = 198 \<and> b = 51 \<and> c = 100"
    "65536 * a + 256 * b + c = 13303921 \<longleftrightarrow> a = 203 \<and> b = 0 \<and> c = 113"
    using octet_pair [of b 254 a 169] octet_pair [of b 168 a 192] octet_triple [of b c 0 0 a 192]
      octet_triple [of b c 0 2 a 192] octet_triple [of b c 51 100 a 198] octet_triple [of b c 0 113 a 203] assms
    by simp_all
  ultimately show ?thesis
    using assms by (simp add: special_blocks_def private_octets_def o(1-3))
qed


section \<open>Text of IPv6 addresses\<close>

text \<open>How the URL parser prints an IPv6 address of eight groups: all of them, or with some run of zeros left out. Its host is that
  text in brackets. (The parser leaves out the first of the longest runs; the facts here hold for every run.)\<close>

definition hex_text :: "nat \<Rightarrow> string" where
  "hex_text n = (let d = (\<lambda>m. if m < 10 then char_of (48 + m) else char_of (87 + m)) in
     if n < 16 then [d n]
     else if n < 256 then [d (n div 16), d (n mod 16)]
     else if n < 4096 then [d (n div 256), d (n div 16 mod 16), d (n mod 16)]
     else [d (n div 4096), d (n div 256 mod 16), d (n div 16 mod 16), d (n mod 16)])"

definition ipv6_groups :: "nat list \<Rightarrow> bool" where
  "ipv6_groups gs = (length gs = 8 \<and> list_all (\<lambda>g. g < 65536) gs)"

definition joined :: "nat list \<Rightarrow> string" where
  "joined gs = js_join '':'' (map hex_text gs)"

definition printed_ipv6 :: "nat list \<Rightarrow> string \<Rightarrow> bool" where
  "printed_ipv6 gs s = (s = joined gs \<or>
     (\<exists>l n r. gs = l @ replicate n 0 @ r \<and> 0 < n \<and> s = joined l @ ''::'' @ joined r))"

definition bracketed :: "string \<Rightarrow> string" where
  "bracketed s = ''['' @ s @ '']''"

text \<open>The special-purpose blocks of IPv6, and the addresses that embed an IPv4 address of a special-purpose block: mapped
  (\<open>::ffff:0:0/96\<close>), compatible (\<open>::/96\<close>), translated (\<open>64:ff9b::/96\<close>) and 6to4 (\<open>2002::/16\<close>).\<close>

definition special_v4 :: "nat \<Rightarrow> nat \<Rightarrow> bool" where
  "special_v4 x y = list_ex (in_block (ipv4_word (x div 256) (x mod 256) (y div 256) (y mod 256))) special_blocks"

fun special_v6 :: "nat list \<Rightarrow> bool" where
  "special_v6 [g0, g1, g2, g3, g4, g5, g6, g7] =
     ([g0, g1, g2, g3, g4] = [0, 0, 0, 0, 0] \<and> g5 = 0 \<and> g6 = 0 \<and> g7 \<le> 1 \<or>
      0xFC00 \<le> g0 \<and> g0 < 0xFE00 \<or>
      0xFE80 \<le> g0 \<and> g0 < 0xFEC0 \<or>
      0xFEC0 \<le> g0 \<and> g0 < 0xFF00 \<or>
      0xFF00 \<le> g0 \<or>
      g0 = 0x2001 \<and> g1 = 0xDB8 \<or>
      g0 = 0x2001 \<and> g1 < 0x20 \<or>
      [g0, g1] = [0x64, 0xFF9B] \<and> g2 = 1 \<or>
      [g0, g1, g2, g3, g4] = [0, 0, 0, 0, 0] \<and> g5 = 0xFFFF \<and> special_v4 g6 g7 \<or>
      [g0, g1, g2, g3, g4] = [0, 0, 0, 0, 0] \<and> g5 = 0 \<and> special_v4 g6 g7 \<or>
      [g0, g1] = [0x64, 0xFF9B] \<and> [g2, g3, g4, g5] = [0, 0, 0, 0] \<and> special_v4 g6 g7 \<or>
      g0 = 0x2002 \<and> special_v4 g1 g2)"
| "special_v6 _ = False"

text \<open>The mapped form of an IPv4 address.\<close>

definition mapped_address :: "nat \<Rightarrow> nat \<Rightarrow> nat \<Rightarrow> nat \<Rightarrow> string" where
  "mapped_address a b c d = ''::ffff:'' @ hex_text (256 * a + b) @ '':'' @ hex_text (256 * c + d)"

definition mapped_host :: "nat \<Rightarrow> nat \<Rightarrow> nat \<Rightarrow> nat \<Rightarrow> string" where
  "mapped_host a b c d = bracketed (mapped_address a b c d)"

definition is_lower_hex :: "char \<Rightarrow> bool" where
  "is_lower_hex c = (is_digit c \<or> (97 \<le> code_of c \<and> code_of c \<le> 102))"

lemma hex_digit_facts:
  assumes "m < 16"
  shows "is_lower_hex (if m < 10 then char_of (48 + m) else char_of (87 + m))"
    and "radix_digit (if m < 10 then char_of (48 + m) else char_of (87 + m)) = m"
  using assms by (simp_all add: is_lower_hex_def radix_digit_def is_digit_def digit_value_def is_lower_az_def)

lemma hex_text_facts:
  assumes "n < 65536"
  shows "list_all is_lower_hex (hex_text n)" "hex_group (hex_text n) = Some n"
proof -
  have b: "n div 4096 < 16" using assms by (simp add: less_mult_imp_div_less)
  show h: "list_all is_lower_hex (hex_text n)"
    using hex_digit_facts(1) b by (simp add: hex_text_def Let_def less_mult_imp_div_less)
  have l: "1 \<le> length (hex_text n) \<and> length (hex_text n) \<le> 4" by (simp add: hex_text_def Let_def)
  have e: "16 * (n div 16) + n mod 16 = n" "16 * (n div 256) + n div 16 mod 16 = n div 16"
    "16 * (n div 4096) + n div 256 mod 16 = n div 256"
    using mult_div_mod_eq [of 16 "n div 16"] mult_div_mod_eq [of 16 "n div 256"]
    by (simp_all add: div_mult2_eq [symmetric])
  have f: "foldl (\<lambda>n c. 16 * n + radix_digit c) 0 (hex_text n) = n"
    using hex_digit_facts(2) b e by (simp add: hex_text_def Let_def less_mult_imp_div_less)
  show "hex_group (hex_text n) = Some n"
    using h l f by (simp add: hex_group_def is_lower_hex_def [abs_def])
qed


lemma lower_hex_char:
  assumes "is_lower_hex c"
  shows "c \<noteq> CHR '':''" "c \<noteq> CHR ''.''" "c \<noteq> CHR ''%''" "c \<noteq> CHR '']''" "c \<noteq> CHR ''[''" "lower_char c = c"
proof -
  have k: "code_of (CHR '':'') = 58" "code_of (CHR ''.'') = 46" "code_of (CHR ''%'') = 37"
    "code_of (CHR '']'') = 93" "code_of (CHR ''['') = 91" by code_simp+
  have n: "(48 \<le> code_of c \<and> code_of c \<le> 57) \<or> (97 \<le> code_of c \<and> code_of c \<le> 102)"
    using assms by (simp add: is_lower_hex_def is_digit_def)
  show "c \<noteq> CHR '':''" "c \<noteq> CHR ''.''" "c \<noteq> CHR ''%''" "c \<noteq> CHR '']''" "c \<noteq> CHR ''[''"
    using n k by (intro notI, simp)+
  show "lower_char c = c" unfolding lower_char_def Let_def using n by (elim disjE) simp_all
qed

lemma hex_text_chars:
  assumes "n < 65536"
  shows "CHR '':'' \<notin> set (hex_text n)" "CHR ''.'' \<notin> set (hex_text n)" "CHR ''%'' \<notin> set (hex_text n)"
    "js_lower (hex_text n) = hex_text n" "hex_text n \<noteq> []"
proof -
  have h: "\<forall>c \<in> set (hex_text n). is_lower_hex c" using hex_text_facts(1) [OF assms] by (simp add: list_all_iff)
  show "CHR '':'' \<notin> set (hex_text n)" "CHR ''.'' \<notin> set (hex_text n)" "CHR ''%'' \<notin> set (hex_text n)"
    using h lower_hex_char(1-3) by metis+
  show "js_lower (hex_text n) = hex_text n"
    using h lower_hex_char(6) by (simp add: js_lower_def map_idI)
  show "hex_text n \<noteq> []" by (simp add: hex_text_def Let_def)
qed

lemma split_dc_single: "CHR '':'' \<notin> set w \<Longrightarrow> split_double_colon w = [w]"
  by (induction w rule: split_double_colon.induct) auto

lemma split_dc_word:
  assumes "CHR '':'' \<notin> set w" "w \<noteq> []" "s \<noteq> []" "hd s \<noteq> CHR '':''"
  shows "split_double_colon (w @ CHR '':'' # s) =
    (case split_double_colon s of p # ps \<Rightarrow> (w @ CHR '':'' # p) # ps | [] \<Rightarrow> [w @ [CHR '':'']])"
  using assms
proof (induction w)
  case (Cons x w)
  show ?case
  proof (cases w)
    case Nil
    obtain y ys where s: "s = y # ys" using Cons.prems by (cases s) auto
    with Cons.prems Nil show ?thesis by (simp split: list.splits)
  next
    case (Cons z zs)
    with Cons.prems Cons.IH show ?thesis by (auto split: list.splits)
  qed
qed simp

lemma split_dc_end: "CHR '':'' \<notin> set w \<Longrightarrow> split_double_colon (w @ ''::'' @ r) = w # split_double_colon r"
proof (induction w)
  case (Cons x w)
  then show ?case by (cases w) (auto split: list.splits)
qed simp

lemma hex_text_start:
  assumes "n < 65536"
  obtains c t where "hex_text n = c # t" "c \<noteq> CHR '':''" "c \<noteq> CHR ''[''"
proof -
  obtain c t where "hex_text n = c # t" using hex_text_chars(5) [OF assms] by (cases "hex_text n") auto
  moreover have "is_lower_hex c" using hex_text_facts(1) [OF assms] calculation by simp
  ultimately show thesis using lower_hex_char(1,5) that by blast
qed

lemma joined_start:
  assumes "list_all (\<lambda>g. g < 65536) (g # gs)"
  shows "joined (g # gs) \<noteq> []" "hd (joined (g # gs) @ s) \<noteq> CHR '':''"
proof -
  have "g < 65536" using assms by simp
  from hex_text_start [OF this] obtain c t where "hex_text g = c # t" "c \<noteq> CHR '':''" by blast
  then show "joined (g # gs) \<noteq> []" "hd (joined (g # gs) @ s) \<noteq> CHR '':''" by (cases gs; simp add: joined_def)+
qed

lemma joined_Cons: "joined (g # h # gs) = hex_text g @ CHR '':'' # joined (h # gs)"
  by (simp add: joined_def)

lemma split_joined_groups: "list_all (\<lambda>g. g < 65536) gs \<Longrightarrow> split_double_colon (joined gs) = [joined gs]"
proof (induction gs rule: induct_list012)
  case (2 g)
  then show ?case using split_dc_single [OF hex_text_chars(1)] by (simp add: joined_def)
next
  case (3 g h gs)
  then have g: "g < 65536" and hs: "list_all (\<lambda>g. g < 65536) (h # gs)" by simp_all
  note c = hex_text_chars [OF g]
  have "split_double_colon (hex_text g @ CHR '':'' # joined (h # gs)) = (case split_double_colon (joined (h # gs)) of
      p # ps \<Rightarrow> (hex_text g @ CHR '':'' # p) # ps | [] \<Rightarrow> [hex_text g @ [CHR '':'']])"
    using joined_start(1) [OF hs] joined_start(2) [OF hs, of "[]"] by (intro split_dc_word [OF c(1,5)]) simp_all
  then show ?case using "3.IH"(2) [OF hs] by (simp add: joined_Cons)
qed (simp add: joined_def)

lemma split_compressed:
  assumes "list_all (\<lambda>g. g < 65536) l" "list_all (\<lambda>g. g < 65536) r"
  shows "split_double_colon (joined l @ ''::'' @ joined r) = [joined l, joined r]"
  using assms(1)
proof (induction l rule: induct_list012)
  case 1
  then show ?case using split_joined_groups [OF assms(2)] by (simp add: joined_def)
next
  case (2 g)
  then have "CHR '':'' \<notin> set (joined [g])" using hex_text_chars(1) by (simp add: joined_def)
  from split_dc_end [OF this] show ?case using split_joined_groups [OF assms(2)] by simp
next
  case (3 g h gs)
  then have g: "g < 65536" and hs: "list_all (\<lambda>g. g < 65536) (h # gs)" by simp_all
  note c = hex_text_chars [OF g]
  let ?s = "joined (h # gs) @ ''::'' @ joined r"
  have "split_double_colon (hex_text g @ CHR '':'' # ?s) = (case split_double_colon ?s of
      p # ps \<Rightarrow> (hex_text g @ CHR '':'' # p) # ps | [] \<Rightarrow> [hex_text g @ [CHR '':'']])"
    using joined_start(2) [OF hs] by (intro split_dc_word [OF c(1,5)]) simp_all
  then show ?case using "3.IH"(2) [OF hs] by (simp add: joined_Cons)
qed

lemma group_list_read: "list_all (\<lambda>g. g < 65536) gs \<Longrightarrow> parse_group_list (map hex_text gs) = Some gs"
proof (induction gs)
  case (Cons g gs)
  then show ?case using hex_text_chars(2) [of g] hex_text_facts(2) [of g] by simp
qed simp

lemma groups_read:
  assumes "list_all (\<lambda>g. g < 65536) gs"
  shows "parseGroups (joined gs) = Some gs"
proof (cases gs)
  case Nil
  then show ?thesis by (simp add: joined_def parseGroups_def)
next
  case (Cons g hs)
  have "split_on (CHR '':'') (joined gs) = map hex_text gs"
    unfolding joined_def using assms hex_text_chars(1) Cons by (intro split_on_join) (auto simp: list_all_iff)
  then show ?thesis
    using joined_start(1) [of g hs] assms Cons group_list_read [OF assms] by (simp add: parseGroups_def)
qed

text \<open>The characters of a printed address.\<close>

lemma joined_chars:
  assumes "list_all (\<lambda>g. g < 65536) gs" "c \<in> set (joined gs)"
  shows "is_lower_hex c \<or> c = CHR '':''"
proof -
  have "\<forall>x \<in> set (js_join '':'' ws). (\<exists>w \<in> set ws. x \<in> set w) \<or> x = CHR '':''" for ws
    by (induction "'':''" ws rule: js_join.induct) auto
  then show ?thesis using assms hex_text_facts(1) unfolding joined_def by (fastforce simp: list_all_iff)
qed

lemma printed_chars:
  assumes "ipv6_groups gs" "printed_ipv6 gs s" "c \<in> set s"
  shows "is_lower_hex c \<or> c = CHR '':''"
  using assms joined_chars by (fastforce simp: printed_ipv6_def ipv6_groups_def)

lemma printed_facts:
  assumes "ipv6_groups gs" "printed_ipv6 gs s"
  shows "CHR '':'' \<in> set s" "CHR ''%'' \<notin> set s" "CHR ''.'' \<notin> set s" "strip_brackets s = s" "strip_brackets (bracketed s) = s"
proof -
  show colon: "CHR '':'' \<in> set s"
  proof (cases "s = joined gs")
    case True
    obtain g h hs where "gs = g # h # hs" using assms(1) by (cases gs; cases "tl gs") (auto simp: ipv6_groups_def)
    then show ?thesis unfolding True by (simp add: joined_Cons)
  next
    case False
    with assms(2) show ?thesis by (auto simp: printed_ipv6_def)
  qed
  have c: "is_lower_hex c \<or> c = CHR '':''" if "c \<in> set s" for c using printed_chars [OF assms that] .
  have k: "\<not> (is_lower_hex x \<or> x = CHR '':'')" if "x \<in> {CHR ''%'', CHR ''.'', CHR '']'', CHR ''[''}" for x
    using lower_hex_char [of x] that by auto
  show "CHR ''%'' \<notin> set s" "CHR ''.'' \<notin> set s" using c k by blast+
  have "lower_char x = x" if "x \<in> set s" for x
    using c [OF that] lower_hex_char(6) by (auto simp: lower_char_def code_of_def)
  then have l: "js_lower s = s" by (simp add: js_lower_def map_idI)
  have ne: "s \<noteq> []" using colon by auto
  have "hd s \<noteq> CHR ''[''" "last s \<noteq> CHR '']''" using c k ne hd_in_set last_in_set by (metis insertCI)+
  then show "strip_brackets s = s" "strip_brackets (bracketed s) = s"
    using l ne by (cases s; simp add: strip_brackets_def bracketed_def Let_def)+
qed

lemma parse_printed:
  assumes "ipv6_groups gs" "printed_ipv6 gs s"
  shows "parseIpv6Bytes s = Some (concat (map group_bytes gs))"
proof -
  note f = printed_facts [OF assms]
  have g: "list_all (\<lambda>g. g < 65536) gs" "length gs = 8" using assms(1) by (simp_all add: ipv6_groups_def)
  show ?thesis
  proof (cases "s = joined gs")
    case True
    have "split_double_colon s = [s]" "parseGroups s = Some gs" unfolding True by (rule split_joined_groups [OF g(1)], rule groups_read [OF g(1)])
    then show ?thesis using f g(2) by (simp add: parseIpv6Bytes_def)
  next
    case False
    with assms(2) obtain l n r where s: "gs = l @ replicate n 0 @ r" "0 < n" "s = joined l @ ''::'' @ joined r"
      by (auto simp: printed_ipv6_def)
    have lr: "list_all (\<lambda>g. g < 65536) l" "list_all (\<lambda>g. g < 65536) r" using g(1) s(1) by simp_all
    have "split_double_colon s = [joined l, joined r]" unfolding s(3) by (rule split_compressed [OF lr])
    moreover have "parseGroups (joined l) = Some l" "parseGroups (joined r) = Some r" using groups_read lr by blast+
    moreover have "length l + length r < 8" "8 - length l - length r = n" using g(2) s(1,2) by simp_all
    ultimately show ?thesis using f s(1) by (simp add: parseIpv6Bytes_def)
  qed
qed

lemma group_bytes_octets:
  assumes "a < 256" "b < 256"
  shows "group_bytes (256 * a + b) = [a, b]"
proof -
  have "x AND 255 = x mod 256" for x :: nat
  proof -
    have "mask 8 = (255 :: nat)" by (simp add: mask_eq_exp_minus_1)
    then have "x AND 255 = take_bit 8 x" by (simp only: take_bit_eq_mask)
    also have "\<dots> = x mod 2 ^ 8" by (rule take_bit_eq_mod)
    finally show ?thesis by simp
  qed
  then show ?thesis
    unfolding group_bytes_def drop_bit_eq_div using assms by simp
qed

lemma and_shifted_mask: "x AND push_bit n (mask m) = 2 ^ n * (x div 2 ^ n mod 2 ^ m)" for x :: nat
proof -
  have "x AND push_bit n (mask m) = push_bit n (take_bit m (drop_bit n x))"
    by (rule bit_eqI) (auto simp: bit_simps)
  then show ?thesis by (simp add: push_bit_eq_mult take_bit_eq_mod drop_bit_eq_div mult.commute)
qed

lemma masked_bytes:
  assumes "h < (256 :: nat)"
  shows "h AND 254 = 252 \<longleftrightarrow> 252 \<le> h \<and> h < 254" "h AND 192 = 128 \<longleftrightarrow> 128 \<le> h \<and> h < 192" "h AND 192 = 192 \<longleftrightarrow> 192 \<le> h"
    "h AND 224 = 0 \<longleftrightarrow> h < 32"
proof -
  have m: "push_bit 1 (mask 7) = (254 :: nat)" "push_bit 6 (mask 2) = (192 :: nat)" "push_bit 5 (mask 3) = (224 :: nat)"
    by (simp_all add: mask_eq_exp_minus_1 push_bit_eq_mult)
  have e: "h AND 254 = 2 * (h div 2 mod 128)" "h AND 192 = 64 * (h div 64 mod 4)" "h AND 224 = 32 * (h div 32 mod 8)"
    using and_shifted_mask [of h 1 7] and_shifted_mask [of h 6 2] and_shifted_mask [of h 5 3] unfolding m by simp_all
  have d: "h div 2 mod 128 = h div 2" "h div 64 mod 4 = h div 64" "h div 32 mod 8 = h div 32"
    using assms by (simp_all add: less_mult_imp_div_less)
  have q: "2 * k = 252 \<longleftrightarrow> k = 126" "64 * k = 128 \<longleftrightarrow> k = 2" "64 * k = 192 \<longleftrightarrow> k = 3" "32 * k = 0 \<longleftrightarrow> k = 0" for k :: nat
    by auto
  show "h AND 254 = 252 \<longleftrightarrow> 252 \<le> h \<and> h < 254" "h AND 192 = 128 \<longleftrightarrow> 128 \<le> h \<and> h < 192" "h AND 192 = 192 \<longleftrightarrow> 192 \<le> h"
    "h AND 224 = 0 \<longleftrightarrow> h < 32"
    unfolding e d q using assms div_eq_bounds [of 2 h 126] div_eq_bounds [of 64 h 2] div_eq_bounds [of 64 h 3] by auto
qed

text \<open>The groups of the blocks in bytes.\<close>

lemma group_cases:
  assumes "a < 256" "b < (256 :: nat)"
  shows "256 * a + b = 0 \<longleftrightarrow> a = 0 \<and> b = 0" "256 * a + b \<le> 1 \<longleftrightarrow> a = 0 \<and> b \<le> 1"
    "256 * a + b = 1 \<longleftrightarrow> a = 0 \<and> b = 1" "256 * a + b = 100 \<longleftrightarrow> a = 0 \<and> b = 100"
    "256 * a + b = 65535 \<longleftrightarrow> a = 255 \<and> b = 255" "256 * a + b = 8193 \<longleftrightarrow> a = 32 \<and> b = 1"
    "256 * a + b = 8194 \<longleftrightarrow> a = 32 \<and> b = 2" "256 * a + b = 3512 \<longleftrightarrow> a = 13 \<and> b = 184"
    "256 * a + b = 65435 \<longleftrightarrow> a = 255 \<and> b = 155" "256 * a + b < 32 \<longleftrightarrow> a = 0 \<and> b < 32"
    "64512 \<le> 256 * a + b \<and> 256 * a + b < 65024 \<longleftrightarrow> 252 \<le> a \<and> a < 254"
    "65152 \<le> 256 * a + b \<and> 256 * a + b < 65216 \<longleftrightarrow> a = 254 \<and> 128 \<le> b \<and> b < 192"
    "65216 \<le> 256 * a + b \<and> 256 * a + b < 65280 \<longleftrightarrow> a = 254 \<and> 192 \<le> b" "65280 \<le> 256 * a + b \<longleftrightarrow> a = 255"
proof -
  note e = octet_pair [OF assms(2)]
  show "256 * a + b = 0 \<longleftrightarrow> a = 0 \<and> b = 0" by simp
  show "256 * a + b \<le> 1 \<longleftrightarrow> a = 0 \<and> b \<le> 1" "256 * a + b < 32 \<longleftrightarrow> a = 0 \<and> b < 32"
    using assms by (intro iffI conjI; (elim conjE)?; linarith)+
  show "256 * a + b = 1 \<longleftrightarrow> a = 0 \<and> b = 1" using e [of 1 a 0] by simp
  show "256 * a + b = 100 \<longleftrightarrow> a = 0 \<and> b = 100" using e [of 100 a 0] by simp
  show "256 * a + b = 65535 \<longleftrightarrow> a = 255 \<and> b = 255" using e [of 255 a 255] by simp
  show "256 * a + b = 8193 \<longleftrightarrow> a = 32 \<and> b = 1" using e [of 1 a 32] by simp
  show "256 * a + b = 8194 \<longleftrightarrow> a = 32 \<and> b = 2" using e [of 2 a 32] by simp
  show "256 * a + b = 3512 \<longleftrightarrow> a = 13 \<and> b = 184" using e [of 184 a 13] by simp
  show "256 * a + b = 65435 \<longleftrightarrow> a = 255 \<and> b = 155" using e [of 155 a 255] by simp
  show "64512 \<le> 256 * a + b \<and> 256 * a + b < 65024 \<longleftrightarrow> 252 \<le> a \<and> a < 254"
    using assms by (intro iffI conjI; elim conjE; linarith)
  show "65280 \<le> 256 * a + b \<longleftrightarrow> a = 255" using assms by (intro iffI; linarith)
  consider "a \<le> 253" | "a = 254" | "255 \<le> a" by linarith
  then show "65152 \<le> 256 * a + b \<and> 256 * a + b < 65216 \<longleftrightarrow> a = 254 \<and> 128 \<le> b \<and> b < 192"
    "65216 \<le> 256 * a + b \<and> 256 * a + b < 65280 \<longleftrightarrow> a = 254 \<and> 192 \<le> b"
    using assms by (cases; simp; linarith?)+
qed

lemma special_v4_private:
  assumes "a < 256" "b < 256" "c < 256" "d < 256"
  shows "special_v4 (256 * a + b) (256 * c + d) = private_octets a b c"
  using special_blocks_private [OF assms] assms by (simp add: special_v4_def)

lemma non_public_sixteen:
  "non_public_bytes [a0, b0, a1, b1, a2, b2, a3, b3, a4, b4, a5, b5, a6, b6, a7, b7] =
    (let zero = (a0 = 0 \<and> b0 = 0 \<and> a1 = 0 \<and> b1 = 0 \<and> a2 = 0 \<and> b2 = 0 \<and> a3 = 0 \<and> b3 = 0 \<and> a4 = 0 \<and> b4 = 0);
         nat64 = (a0 = 0 \<and> b0 = 100 \<and> a1 = 255 \<and> b1 = 155) in
     if zero \<and> a5 = 0 \<and> b5 = 0 \<and> a6 = 0 \<and> b6 = 0 \<and> a7 = 0 \<and> (b7 = 0 \<or> b7 = 1) then True
     else if a0 = 255 \<or> a0 AND 254 = 252 \<or> a0 = 254 \<and> b0 AND 192 = 128 \<or> a0 = 254 \<and> b0 AND 192 = 192 \<or>
       a0 = 32 \<and> b0 = 1 \<and> a1 = 13 \<and> b1 = 184 \<or> a0 = 32 \<and> b0 = 1 \<and> a1 = 0 \<and> b1 AND 224 = 0 then True
     else if nat64 \<and> a2 = 0 \<and> b2 = 1 then True
     else if (nat64 \<and> a2 = 0 \<and> b2 = 0 \<and> a3 = 0 \<and> b3 = 0 \<and> a4 = 0 \<and> b4 = 0 \<and> a5 = 0 \<and> b5 = 0) \<and> isNonPublicIpv4 (dotted [a6, b6, a7, b7])
       \<or> a0 = 32 \<and> b0 = 2 \<and> isNonPublicIpv4 (dotted [a1, b1, a2, b2]) then True
     else if zero \<and> a5 = 255 \<and> b5 = 255 \<or> zero \<and> a5 = 0 \<and> b5 = 0 then isNonPublicIpv4 (dotted [a6, b6, a7, b7])
     else False)"
  by (simp only: non_public_bytes_def Let_def) (simp add: numeral_eq_Suc)

lemma special_bytes:
  assumes "a0 < 256" "b0 < 256" "a1 < 256" "b1 < 256" "a2 < 256" "b2 < 256" "a3 < 256" "b3 < 256"
    and "a4 < 256" "b4 < 256" "a5 < 256" "b5 < 256" "a6 < 256" "b6 < 256" "a7 < 256" "b7 < 256"
  shows "non_public_bytes [a0, b0, a1, b1, a2, b2, a3, b3, a4, b4, a5, b5, a6, b6, a7, b7] =
    special_v6 [256 * a0 + b0, 256 * a1 + b1, 256 * a2 + b2, 256 * a3 + b3, 256 * a4 + b4, 256 * a5 + b5, 256 * a6 + b6, 256 * a7 + b7]"
proof -
  note bytes = masked_bytes [OF assms(1)] masked_bytes [OF assms(2)] masked_bytes [OF assms(4)]
  note v4 = dotted_correct [OF assms(13-16)] dotted_correct [OF assms(3-6)] special_v4_private [OF assms(13-16)] special_v4_private [OF assms(3-6)]
  define zero where "zero = (a0 = 0 \<and> b0 = 0 \<and> a1 = 0 \<and> b1 = 0 \<and> a2 = 0 \<and> b2 = 0 \<and> a3 = 0 \<and> b3 = 0 \<and> a4 = 0 \<and> b4 = 0)"
  define nat64 where "nat64 = (a0 = 0 \<and> b0 = 100 \<and> a1 = 255 \<and> b1 = 155)"
  define four where "four = (a2 = 0 \<and> b2 = 0 \<and> a3 = 0 \<and> b3 = 0 \<and> a4 = 0 \<and> b4 = 0 \<and> a5 = 0 \<and> b5 = 0)"
  have z: "[256 * a0 + b0, 256 * a1 + b1, 256 * a2 + b2, 256 * a3 + b3, 256 * a4 + b4] = [0, 0, 0, 0, 0] \<longleftrightarrow> zero"
    by (simp add: zero_def)
  have f: "[256 * a2 + b2, 256 * a3 + b3, 256 * a4 + b4, 256 * a5 + b5] = [0, 0, 0, 0] \<longleftrightarrow> four"
    by (simp add: four_def)
  have n: "[256 * a0 + b0, 256 * a1 + b1] = [100, 65435] \<longleftrightarrow> nat64"
    unfolding list.inject group_cases [OF assms(1,2)] group_cases [OF assms(3,4)] nat64_def by blast
  have one: "b7 \<le> 1 \<longleftrightarrow> b7 = 0 \<or> b7 = 1" by linarith
  show ?thesis
    unfolding non_public_sixteen Let_def special_v6.simps z f n bytes group_cases [OF assms(1,2)] group_cases [OF assms(3,4)]
      group_cases [OF assms(5,6)] group_cases [OF assms(11,12)] group_cases [OF assms(13,14)] group_cases [OF assms(15,16)]
      v4 one zero_def [symmetric] nat64_def [symmetric] four_def [symmetric] by argo
qed

lemma special_groups:
  assumes "ipv6_groups gs"
  shows "non_public_bytes (concat (map group_bytes gs)) = special_v6 gs"
proof -
  have "length gs = Suc (Suc (Suc (Suc (Suc (Suc (Suc (Suc 0)))))))" using assms by (simp add: ipv6_groups_def)
  then obtain g0 g1 g2 g3 g4 g5 g6 g7 where gs: "gs = [g0, g1, g2, g3, g4, g5, g6, g7]"
    by (auto simp: length_Suc_conv)
  have g: "g0 < 65536" "g1 < 65536" "g2 < 65536" "g3 < 65536" "g4 < 65536" "g5 < 65536" "g6 < 65536" "g7 < 65536"
    using assms by (simp_all add: ipv6_groups_def gs)
  have b: "g div 256 < 256 \<and> g mod 256 < 256" if "g < 65536" for g :: nat using that by (simp add: less_mult_imp_div_less)
  have e: "256 * (g div 256) + g mod 256 = g" for g :: nat by simp
  have y: "group_bytes g = [g div 256, g mod 256]" if "g < 65536" for g
    using group_bytes_octets [of "g div 256" "g mod 256"] b [OF that] e [of g] by simp
  have "concat (map group_bytes gs) = [g0 div 256, g0 mod 256, g1 div 256, g1 mod 256, g2 div 256, g2 mod 256, g3 div 256, g3 mod 256,
      g4 div 256, g4 mod 256, g5 div 256, g5 mod 256, g6 div 256, g6 mod 256, g7 div 256, g7 mod 256]"
    unfolding gs list.map concat.simps y [OF g(1)] y [OF g(2)] y [OF g(3)] y [OF g(4)] y [OF g(5)] y [OF g(6)] y [OF g(7)] y [OF g(8)]
    by simp
  with special_bytes [of "g0 div 256" "g0 mod 256" "g1 div 256" "g1 mod 256" "g2 div 256" "g2 mod 256" "g3 div 256" "g3 mod 256"
      "g4 div 256" "g4 mod 256" "g5 div 256" "g5 mod 256" "g6 div 256" "g6 mod 256" "g7 div 256" "g7 mod 256"]
  show ?thesis unfolding e gs using b g by simp
qed

lemma ends_with_member: "ends_with s (x # t) \<Longrightarrow> x \<in> set s"
  by (auto simp: ends_with_def prefix_def) (metis in_set_conv_decomp set_rev)

lemma is_dotted_member:
  assumes "is_dotted s"
  shows "CHR ''.'' \<in> set s"
proof (rule ccontr)
  assume "CHR ''.'' \<notin> set s"
  with assms show False by (simp add: is_dotted_def split_on_none)
qed

lemma mapped_tail_member: "mapped_tail s = Some t \<Longrightarrow> CHR ''.'' \<in> set s"
proof (induction s)
  case (Cons x s)
  show ?case
  proof (cases "starts_with (x # s) ''::ffff:'' \<and> is_dotted (drop 7 (x # s))")
    case True
    then have "CHR ''.'' \<in> set (drop 7 (x # s))" by (blast dest: is_dotted_member)
    then show ?thesis by (rule in_set_dropD)
  next
    case False
    with Cons show ?thesis by (auto split: if_splits)
  qed
qed simp

text \<open>The host of an IPv6 address is accepted exactly when the address is in no special block and embeds no special address.\<close>

lemma ipv6_host_public:
  assumes "ipv6_groups gs" "printed_ipv6 gs s"
  shows "isPublicHostname (bracketed s) = (\<not> special_v6 gs)"
proof -
  note f = printed_facts [OF assms]
  have e: "\<not> ends_with s (CHR ''.'' # t)" for t using f(3) ends_with_member by metis
  have "isNonPublicIpv6 s = special_v6 gs"
    by (simp add: isNonPublicIpv6_def parse_printed [OF assms] special_groups [OF assms(1)])
  moreover have "\<not> isNonPublicIpv4 s" using f(3) is_dotted_member by (auto simp: isNonPublicIpv4_def)
  moreover have "\<not> starts_with s ''wa.me.''"
  proof
    assume "starts_with s ''wa.me.''"
    then have "set ''wa.me.'' \<subseteq> set s" unfolding starts_with_def by (rule set_mono_prefix)
    with f(3) show False by simp
  qed
  moreover have "s \<noteq> ''localhost''" "s \<noteq> ''home.arpa''" "s \<noteq> []" using f(1) by auto
  ultimately show ?thesis using e f(1) by (simp add: isPublicHostname_def f(5) Let_def)
qed

lemma mapped_printed:
  assumes "a < 256" "b < 256" "c < 256" "d < 256"
  shows "ipv6_groups [0, 0, 0, 0, 0, 65535, 256 * a + b, 256 * c + d]"
    "printed_ipv6 [0, 0, 0, 0, 0, 65535, 256 * a + b, 256 * c + d] (mapped_address a b c d)"
    "special_v6 [0, 0, 0, 0, 0, 65535, 256 * a + b, 256 * c + d] = private_octets a b c"
proof -
  show "ipv6_groups [0, 0, 0, 0, 0, 65535, 256 * a + b, 256 * c + d]" using assms by (simp add: ipv6_groups_def)
  have "char_of (102 :: nat) = CHR ''f''" by code_simp
  then have h: "hex_text 65535 = ''ffff''" by (simp add: hex_text_def)
  let ?r = "[65535, 256 * a + b, 256 * c + d]"
  have m: "mapped_address a b c d = joined [] @ ''::'' @ joined ?r"
    by (simp add: mapped_address_def joined_def h)
  have "replicate 5 (0 :: nat) = [0, 0, 0, 0, 0]" by (simp add: numeral_eq_Suc)
  then have g: "[0, 0, 0, 0, 0, 65535, 256 * a + b, 256 * c + d] = [] @ replicate 5 0 @ ?r" by simp
  have "(0 :: nat) < 5" by simp
  with m g show "printed_ipv6 [0, 0, 0, 0, 0, 65535, 256 * a + b, 256 * c + d] (mapped_address a b c d)"
    unfolding printed_ipv6_def by blast
  show "special_v6 [0, 0, 0, 0, 0, 65535, 256 * a + b, 256 * c + d] = private_octets a b c"
    using special_v4_private [OF assms] by simp
qed

lemma mapped_host_opened:
  assumes "a < 256" "b < 256" "c < 256" "d < 256"
  shows "isPublicHostname (mapped_host a b c d) = (\<not> isNonPublicIpv4 (dotted [a, b, c, d]))"
  using ipv6_host_public [OF mapped_printed(1,2) [OF assms]] mapped_printed(3) [OF assms] dotted_correct [OF assms]
  by (simp add: mapped_host_def)

lemma mapped_host_shared:
  assumes "a < 256" "b < 256" "c < 256" "d < 256"
  shows "hasPublicHostname (mapped_host a b c d)"
proof -
  let ?n = "mapped_address a b c d"
  note f = printed_facts [OF mapped_printed(1,2) [OF assms]]
  have e: "\<not> ends_with ?n (CHR ''.'' # t)" for t using f(3) ends_with_member by metis
  obtain t where n: "?n = CHR '':'' # CHR '':'' # CHR ''f'' # t" by (simp add: mapped_address_def)
  have "mapped_tail ?n = None" using f(3) mapped_tail_member by (metis not_None_eq)
  moreover have "\<not> starts_with ?n ''fc''" "\<not> starts_with ?n ''fd''" "\<not> starts_with ?n ''fe''"
      "\<not> starts_with ?n ''2001:db8:''" "?n \<noteq> ''::''" "?n \<noteq> ''::1''" "?n \<noteq> ''localhost''" "?n \<noteq> []"
      "CHR '':'' \<in> set ?n"
    using n by (simp_all add: starts_with_def)
  ultimately have "\<not> share_isNonPublicIpv6 ?n" by (simp add: share_isNonPublicIpv6_def f(4) Let_def)
  moreover have "\<not> isNonPublicIpv4 ?n" using f(3) is_dotted_member by (auto simp: isNonPublicIpv4_def)
  moreover have "?n \<noteq> []" "?n \<noteq> ''localhost''" "CHR '':'' \<in> set ?n" using n by simp_all
  ultimately show ?thesis using e unfolding hasPublicHostname_def mapped_host_def f(5) Let_def by simp
qed


lemma dotted_not_bracket:
  assumes "a < 256" "b < 256" "c < 256" "d < 256"
  shows "strip_brackets (dotted [a, b, c, d]) = dotted [a, b, c, d]"
proof -
  have dd: "\<forall>x \<in> set (dotted bs). is_digit x \<or> x = CHR ''.''" for bs
  proof -
    have "\<forall>x \<in> set (js_join ''.'' ws). (\<exists>w \<in> set ws. x \<in> set w) \<or> x = CHR ''.''" for ws
      by (induction "''.''" ws rule: js_join.induct) auto
    moreover have "x \<in> set (nat_digits n) \<Longrightarrow> is_digit x" for x n
      using all_digits_nat_digits [of n] by (auto simp: all_digits_def list_all_iff)
    ultimately show ?thesis unfolding dotted_def by fastforce
  qed
  let ?s = "dotted [a, b, c, d]"
  have ne: "?s \<noteq> []" using nat_digits_nonempty [of a] by (simp add: dotted_def)
  have k: "\<not> (is_digit (CHR ''['') \<or> CHR ''['' = CHR ''.'')" "\<not> (is_digit (CHR '']'') \<or> CHR '']'' = CHR ''.'')"
    by code_simp+
  have h: "hd ?s \<noteq> CHR ''[''" "last ?s \<noteq> CHR '']''"
    using dd [of "[a, b, c, d]"] k ne by (metis hd_in_set last_in_set)+
  have lc: "lower_char x = x" if "is_digit x \<or> x = CHR ''.''" for x
    using that by (auto simp: lower_char_def is_digit_def Let_def code_of_def)
  have "js_lower ?s = ?s"
    unfolding js_lower_def using dd [of "[a, b, c, d]"] lc by (intro map_idI) blast
  with h ne show ?thesis by (cases ?s) (simp_all add: strip_brackets_def Let_def)
qed

lemma private_host_closed:
  assumes "a < 256" "b < 256" "c < 256" "d < 256" "private_octets a b c"
  shows "\<not> isPublicHostname (dotted [a, b, c, d])"
  using dotted_correct [OF assms(1-4)] assms(5) dotted_not_bracket [OF assms(1-4)] by (simp add: isPublicHostname_def)

text \<open>The names that are reserved for local and special use, each with every name under it.\<close>

definition reserved_names :: "string list" where
  "reserved_names = [''localhost'', ''local'', ''internal'', ''home.arpa'', ''test'', ''invalid'', ''example'', ''onion'']"

lemma reserved_closed:
  assumes "isPublicHostname h" "name \<in> set reserved_names"
  shows "strip_brackets h \<noteq> name" "\<not> ends_with (strip_brackets h) (CHR ''.'' # name)"
  using assms by (auto simp: isPublicHostname_def reserved_names_def Let_def split: if_splits)

lemma parseExternalUrl_Inr:
  "parseExternalUrl p raw = Inr href \<Longrightarrow> \<exists>u. p raw = Some u \<and> href = url_href u \<and> url_protocol u = ''https:'' \<and>
     url_username u = [] \<and> url_password u = [] \<and> isPublicHostname (url_hostname u) \<and>
     length href \<le> MAX_EXTERNAL_URL_LENGTH \<and> list_all (\<lambda>c. \<not> is_space c) raw"
  by (auto simp: parseExternalUrl_def hasUnsafeRawCharacters_def list_all_iff list_ex_iff split: if_splits option.splits)

section \<open>Properties\<close>

text \<open>For every dotted address of four octets, the list of comparisons decides membership in the
  special-purpose address blocks: the address is refused exactly when, read as a 32-bit word, it has
  the network prefix of one of the thirteen blocks.\<close>

theorem isNonPublicIpv4_blocks:
  assumes "a < 256" "b < 256" "c < 256" "d < 256"
  shows "isNonPublicIpv4 (dotted [a, b, c, d]) = list_ex (in_block (ipv4_word a b c d)) special_blocks"
  using dotted_correct [OF assms] special_blocks_private [OF assms] by simp

theorem isNonPublicIpv4_blocks_witness:
  "isNonPublicIpv4 (dotted [100, 64, 0, 1]) = list_ex (in_block (ipv4_word 100 64 0 1)) special_blocks \<and>
   private_octets 100 64 0"
  using isNonPublicIpv4_blocks [of 100 64 0 1] by (simp add: private_octets_def)

text \<open>C9. Opening a link stays with https and with public hosts: whatever the URL parser answers, a link that is accepted was parsed
  from the text as given, has no whitespace in it, no credentials and at most 4096 characters, and its host is none of these: the
  dotted text of an IPv4 address of a special-purpose block; an IPv6 address, printed in full or with any run of zeros left out,
  that is unspecified, the local host, unique local, link-local, site-local, multicast, for documentation, in 2001::/27 or the
  local translation prefix, or that embeds such an IPv4 address as a mapped, compatible, translated or 6to4 address; a name that
  is reserved (localhost, local, internal, home.arpa, test, invalid, example, onion), or a name under one, in any case of its
  letters. It says nothing of where the name of a host leads.\<close>

theorem parseExternalUrl_safe:
  assumes "parseExternalUrl p raw = Inr href"
  shows "list_all (\<lambda>c. \<not> is_space c) raw \<and> length href \<le> 4096 \<and>
    (\<exists>u. p raw = Some u \<and> href = url_href u \<and> url_protocol u = ''https:'' \<and> url_username u = [] \<and> url_password u = [] \<and>
      (\<forall>a < 256. \<forall>b < 256. \<forall>c < 256. \<forall>d < 256. list_ex (in_block (ipv4_word a b c d)) special_blocks \<longrightarrow>
         url_hostname u \<noteq> dotted [a, b, c, d]) \<and>
      (\<forall>gs s. ipv6_groups gs \<and> special_v6 gs \<and> printed_ipv6 gs s \<longrightarrow> url_hostname u \<noteq> bracketed s) \<and>
      (\<forall>name \<in> set reserved_names. strip_brackets (url_hostname u) \<noteq> name \<and>
         \<not> ends_with (strip_brackets (url_hostname u)) (CHR ''.'' # name)))"
proof -
  obtain u where u: "p raw = Some u" "href = url_href u" "url_protocol u = ''https:''" "url_username u = []"
      "url_password u = []" "isPublicHostname (url_hostname u)" "length href \<le> MAX_EXTERNAL_URL_LENGTH"
      "list_all (\<lambda>c. \<not> is_space c) raw"
    using parseExternalUrl_Inr [OF assms] by blast
  have "\<forall>a < 256. \<forall>b < 256. \<forall>c < 256. \<forall>d < 256. list_ex (in_block (ipv4_word a b c d)) special_blocks \<longrightarrow>
      url_hostname u \<noteq> dotted [a, b, c, d]"
    using u(6) private_host_closed special_blocks_private by metis
  moreover have "\<forall>gs s. ipv6_groups gs \<and> special_v6 gs \<and> printed_ipv6 gs s \<longrightarrow> url_hostname u \<noteq> bracketed s"
    using u(6) ipv6_host_public by metis
  moreover have "\<forall>name \<in> set reserved_names. strip_brackets (url_hostname u) \<noteq> name \<and>
      \<not> ends_with (strip_brackets (url_hostname u)) (CHR ''.'' # name)"
    using reserved_closed [OF u(6)] by blast
  ultimately show ?thesis using u by (auto simp: MAX_EXTERNAL_URL_LENGTH_def)
qed

text \<open>A parser that knows one URL stands in for the browser's.\<close>

definition one_url :: url_parser where
  "one_url s = (if s = ''https://8.8.8.8/'' then Some \<lparr>url_protocol = ''https:'', url_username = [], url_password = [],
     url_hostname = ''8.8.8.8'', url_href = s\<rparr> else None)"

theorem parseExternalUrl_safe_witness:
  "parseExternalUrl one_url ''https://8.8.8.8/'' = Inr ''https://8.8.8.8/'' \<and> length ''https://8.8.8.8/'' \<le> (4096::nat)"
proof -
  have n: "dotted [8, 8, 8, 8] = ''8.8.8.8''" by (simp add: dotted_def nat_digits.simps digit_char_def char_of_digits)
  have "\<not> isNonPublicIpv4 ''8.8.8.8''" using dotted_correct [of 8 8 8 8] n by (simp add: private_octets_def)
  moreover have "strip_brackets ''8.8.8.8'' = ''8.8.8.8''" using dotted_not_bracket [of 8 8 8 8] n by simp
  ultimately have "isPublicHostname ''8.8.8.8''"
    by (simp add: isPublicHostname_def ends_with_def starts_with_def isNonPublicIpv6_def parseIpv6Bytes_def Let_def)
  then have "parseExternalUrl one_url ''https://8.8.8.8/'' = Inr ''https://8.8.8.8/''"
    by (simp add: parseExternalUrl_def one_url_def MAX_EXTERNAL_URL_LENGTH_def hasUnsafeRawCharacters_def
        is_space_def code_of_def starts_with_def)
  from parseExternalUrl_safe [OF this] this show ?thesis by simp
qed

text \<open>The two modules disagree about IPv4 addresses embedded in IPv6 ones, in the form in which a URL
  parser prints them: opening a link refuses the address exactly when the embedded address is
  private, while shared text accepts every one of them, private networks and the local host included.\<close>

theorem mapped_addresses_disagree:
  assumes "a < 256" "b < 256" "c < 256" "d < 256"
  shows "(isPublicHostname (mapped_host a b c d) \<longleftrightarrow> \<not> isNonPublicIpv4 (dotted [a, b, c, d])) \<and>
    hasPublicHostname (mapped_host a b c d)"
  using mapped_host_opened [OF assms] mapped_host_shared [OF assms] by simp

theorem mapped_addresses_disagree_witness:
  "\<not> isPublicHostname (mapped_host 127 0 0 1) \<and> hasPublicHostname (mapped_host 127 0 0 1)"
  using mapped_addresses_disagree [of 127 0 0 1] dotted_correct [of 127 0 0 1] by (simp add: private_octets_def)

end
