(* ===== verification/ShareDelivery.thy ===== *)
theory ShareDelivery
  imports ShareText PublicHosts
begin

text \<open>
  Delivery of a share payload: the device's share sheet with its fallback to the clipboard
  (lib/share/delivery.ts) and the WhatsApp link, whose text is cut to fit both a number of code points
  and the length of an encoded URL (lib/share/whatsapp.ts). \<open>fitEncodedText\<close> finds the cut by binary
  search; a \<open>None\<close> is the \<open>URIError\<close> that \<open>encodeURIComponent\<close> throws on malformed text.
\<close>

section \<open>Payloads\<close>

record share_payload =
  pay_title :: utf16
  pay_text :: utf16
  pay_url :: "utf16 option"

definition NEWLINE :: utf16 where
  "NEWLINE = [10]"

definition blank_line :: utf16 where
  "blank_line = [10, 10]"

fun join16 :: "utf16 \<Rightarrow> utf16 list \<Rightarrow> utf16" where
  "join16 sep [] = []"
| "join16 sep [x] = x"
| "join16 sep (x # y # xs) = x @ sep @ join16 sep (y # xs)"

definition payload_body :: "share_payload \<Rightarrow> utf16" where
  "payload_body p = join16 blank_line (filter (\<lambda>s. s \<noteq> []) [pay_title p, pay_text p])"

text \<open>A URL that is the empty string counts as absent.\<close>

definition payload_link :: "share_payload \<Rightarrow> utf16 option" where
  "payload_link p = (case pay_url p of Some (u # us) \<Rightarrow> Some (u # us) | _ \<Rightarrow> None)"

definition MAX_COMPOSED_TEXT_CODE_POINTS :: int where
  "MAX_COMPOSED_TEXT_CODE_POINTS = 3500"

definition composeShareText :: "share_payload \<Rightarrow> utf16" where
  "composeShareText payload =
     (let content = truncateUnicode (payload_body payload) MAX_COMPOSED_TEXT_CODE_POINTS
      in case payload_link payload of Some url \<Rightarrow> content @ blank_line @ url | None \<Rightarrow> content)"

section \<open>The share sheet and the clipboard\<close>

text \<open>What the device answers: a rejection of the share sheet may be the user's cancellation, a clipboard
  write can succeed, be rejected, or not settle before the timeout.\<close>

datatype share_reply = Share_done | Share_rejected bool
datatype clipboard_reply = Clip_written | Clip_rejected | Clip_timeout

record share_navigator =
  nav_share :: "share_reply option"
  nav_canShare :: "(unit + bool) option"
  nav_clipboard :: "clipboard_reply option"

datatype fallback_reason = Native_unavailable | Native_rejected | Clipboard_unavailable | Clipboard_rejected

datatype share_result =
    Shared
  | Copied utf16 "fallback_reason option"
  | Cancelled
  | Manual utf16 fallback_reason "fallback_reason option"

text \<open>Calls that the delivery makes, in order.\<close>

datatype share_call = Called_share share_payload | Called_writeText utf16

definition nativeShareData :: "share_payload \<Rightarrow> share_payload" where
  "nativeShareData payload =
     \<lparr>pay_title = pay_title payload, pay_text = pay_text payload, pay_url = payload_link payload\<rparr>"

definition canShareNatively :: "share_navigator option \<Rightarrow> bool" where
  "canShareNatively nav = (case nav of
       None \<Rightarrow> False
     | Some n \<Rightarrow> (case nav_share n of
           None \<Rightarrow> False
         | Some _ \<Rightarrow> (case nav_canShare n of
               None \<Rightarrow> True
             | Some (Inl _) \<Rightarrow> False
             | Some (Inr b) \<Rightarrow> b)))"

definition copyShareText :: "share_payload \<Rightarrow> share_navigator option \<Rightarrow> share_result \<times> share_call list" where
  "copyShareText payload nav =
     (let text = composeShareText payload
      in case (case nav of None \<Rightarrow> None | Some n \<Rightarrow> nav_clipboard n) of
           None \<Rightarrow> (Manual text Clipboard_unavailable None, [])
         | Some Clip_written \<Rightarrow> (Copied text None, [Called_writeText text])
         | Some _ \<Rightarrow> (Manual text Clipboard_rejected None, [Called_writeText text]))"

definition with_fallback :: "fallback_reason \<Rightarrow> share_result \<Rightarrow> share_result" where
  "with_fallback f r = (case r of
       Copied text _ \<Rightarrow> Copied text (Some f)
     | Manual text reason _ \<Rightarrow> Manual text reason (Some f)
     | _ \<Rightarrow> r)"

definition shareNative :: "share_payload \<Rightarrow> share_navigator option \<Rightarrow> share_result \<times> share_call list" where
  "shareNative payload nav =
     (if \<not> canShareNatively nav
      then (case copyShareText payload nav of (result, calls) \<Rightarrow> (with_fallback Native_unavailable result, calls))
      else (case (case nav of None \<Rightarrow> None | Some n \<Rightarrow> nav_share n) of
              Some (Share_rejected isAbort) \<Rightarrow>
                if isAbort then (Cancelled, [Called_share (nativeShareData payload)])
                else (case copyShareText payload nav of (result, calls) \<Rightarrow>
                        (with_fallback Native_rejected result, Called_share (nativeShareData payload) # calls))
            | _ \<Rightarrow> (Shared, [Called_share (nativeShareData payload)])))"

section \<open>Fitting text into a link\<close>

definition WHATSAPP_BASE_URL :: string where
  "WHATSAPP_BASE_URL = ''https://wa.me/?text=''"

definition MAX_WHATSAPP_TEXT_CODE_POINTS :: int where
  "MAX_WHATSAPP_TEXT_CODE_POINTS = 1600"

definition MAX_WHATSAPP_URL_LENGTH :: int where
  "MAX_WHATSAPP_URL_LENGTH = 4096"

definition boundedLimit :: "jsnum option \<Rightarrow> int \<Rightarrow> int \<Rightarrow> int" where
  "boundedLimit requested maximum minimum = (case requested of
       Some (Fin r) \<Rightarrow> min maximum (max minimum \<lfloor>r\<rfloor>)
     | _ \<Rightarrow> maximum)"

definition encoded_length :: "utf16 \<Rightarrow> int option" where
  "encoded_length s = map_option (\<lambda>e. int (length e)) (encodeURIComponent s)"

definition cut_candidate :: "utf16 list \<Rightarrow> nat \<Rightarrow> utf16" where
  "cut_candidate codePoints middle =
     (let prefix = trim_end16 (concat (take middle codePoints)) in if prefix \<noteq> [] then prefix @ ELLIPSIS else [])"

function fit_search :: "utf16 list \<Rightarrow> int \<Rightarrow> int \<Rightarrow> int \<Rightarrow> utf16 \<Rightarrow> utf16 option" where
  "fit_search codePoints maxEncodedLength low high best =
     (if low \<le> high
      then (let middle = (low + high) div 2;
                candidate = cut_candidate codePoints (nat middle)
            in case encoded_length candidate of
                 None \<Rightarrow> None
               | Some n \<Rightarrow> if n \<le> maxEncodedLength
                          then fit_search codePoints maxEncodedLength (middle + 1) high candidate
                          else fit_search codePoints maxEncodedLength low (middle - 1) best)
      else Some best)"
  by pat_completeness auto

termination
  by (relation "measure (\<lambda>(cs, m, low, high, best). nat (high - low + 1))") auto

declare fit_search.simps [simp del]

definition fitEncodedText :: "utf16 \<Rightarrow> int \<Rightarrow> int \<Rightarrow> utf16 option" where
  "fitEncodedText source maxTextCodePoints maxEncodedLength =
     (let capped = truncateUnicode source maxTextCodePoints
      in case encoded_length capped of
           None \<Rightarrow> None
         | Some n \<Rightarrow> if n \<le> maxEncodedLength then Some capped
                    else (let codePoints = array_from capped
                          in fit_search codePoints maxEncodedLength 0 (int (length codePoints)) []))"

definition fitWhatsAppText :: "share_payload \<Rightarrow> int \<Rightarrow> int \<Rightarrow> utf16 option" where
  "fitWhatsAppText payload maxTextCodePoints maxEncodedLength =
     (let body = payload_body payload
      in case payload_link payload of
           None \<Rightarrow> fitEncodedText body maxTextCodePoints maxEncodedLength
         | Some url \<Rightarrow>
             (let urlSuffix = blank_line @ url;
                  suffixCodePoints = unicodeLength urlSuffix
              in case encoded_length urlSuffix of
                   None \<Rightarrow> None
                 | Some suffixEncodedLength \<Rightarrow>
                     if suffixCodePoints \<le> maxTextCodePoints \<and> suffixEncodedLength \<le> maxEncodedLength
                     then map_option (\<lambda>fittedBody. if fittedBody \<noteq> [] then fittedBody @ urlSuffix else url)
                       (fitEncodedText body (maxTextCodePoints - suffixCodePoints) (maxEncodedLength - suffixEncodedLength))
                     else fitEncodedText body maxTextCodePoints maxEncodedLength))"

record whatsapp_link =
  wa_url :: string
  wa_text :: utf16
  wa_truncated :: bool

definition createWhatsAppShareLink ::
  "share_payload \<Rightarrow> jsnum option \<Rightarrow> jsnum option \<Rightarrow> whatsapp_link option" where
  "createWhatsAppShareLink payload opt_text opt_url =
     (let maxTextCodePoints = boundedLimit opt_text MAX_WHATSAPP_TEXT_CODE_POINTS 1;
          maxUrlLength = boundedLimit opt_url MAX_WHATSAPP_URL_LENGTH (int (length WHATSAPP_BASE_URL));
          source = composeShareText payload
      in case fitWhatsAppText payload maxTextCodePoints (max 0 (maxUrlLength - int (length WHATSAPP_BASE_URL))) of
           None \<Rightarrow> None
         | Some text \<Rightarrow> map_option (\<lambda>e.
             \<lparr>wa_url = WHATSAPP_BASE_URL @ e, wa_text = text,
              wa_truncated = (text \<noteq> source \<or> unicodeLength source > maxTextCodePoints)\<rparr>)
             (encodeURIComponent text))"

text \<open>The link is checked again before it is opened; \<open>opens\<close> are the URLs handed to the opener.\<close>

definition deliverWhatsAppUrl :: "url_parser \<Rightarrow> string \<Rightarrow> link_error + string" where
  "deliverWhatsAppUrl parse_url raw = bind_result (parseExternalUrl parse_url raw) (\<lambda>href.
     case parse_url href of
       None \<Rightarrow> Inl Unsafe_external_URL
     | Some parsed \<Rightarrow> if url_hostname parsed \<noteq> ''wa.me'' \<or> url_protocol parsed \<noteq> ''https:''
                      then Inl Unsafe_external_URL else Inr href)"

definition shareToWhatsApp ::
  "url_parser \<Rightarrow> share_payload \<Rightarrow> jsnum option \<Rightarrow> jsnum option \<Rightarrow> (link_error + whatsapp_link \<times> string) option" where
  "shareToWhatsApp parse_url payload opt_text opt_url =
     map_option (\<lambda>link. bind_result (deliverWhatsAppUrl parse_url (wa_url link)) (\<lambda>opened. Inr (link, opened)))
       (createWhatsAppShareLink payload opt_text opt_url)"

section \<open>The candidates of the search\<close>

definition trimmed :: "utf16 list \<Rightarrow> utf16 list" where
  "trimmed ps = rev (dropWhile space_at (rev ps))"

definition points_length :: "utf16 list \<Rightarrow> int" where
  "points_length ps = int (sum_list (map (\<lambda>p. length (encode_point p)) ps))"

definition candidate_length :: "utf16 list \<Rightarrow> nat \<Rightarrow> int" where
  "candidate_length ps k = (let t = trimmed (take k ps) in
     if t \<noteq> [] then points_length t + points_length [ELLIPSIS] else 0)"

lemma ellipsis_point [simp]: "ok_point ELLIPSIS"
  by (simp add: ELLIPSIS_def is_scalar_def is_high_def is_low_def)

lemma points_length_append [simp]: "points_length (ps @ qs) = points_length ps + points_length qs"
  by (simp add: points_length_def)

lemma points_length_nonneg [simp]: "0 \<le> points_length ps"
  by (simp add: points_length_def)

lemma encoded_length_concat: "list_all ok_point ps \<Longrightarrow> encoded_length (concat ps) = Some (points_length ps)"
  by (simp add: encoded_length_def encodeURIComponent_def well_formed_concat array_from_concat points_length_def
      length_concat comp_def)

lemma trimmed_ok: "list_all P ps \<Longrightarrow> list_all P (trimmed ps)"
  unfolding trimmed_def by (rule list_all_rev_dropWhile)

lemma list_all_take: "list_all P ps \<Longrightarrow> list_all P (take k ps)"
  by (auto simp: list_all_iff dest: in_set_takeD)

lemma prefix_trimmed: "prefix (trimmed ps) ps"
proof -
  have "suffix (dropWhile space_at (rev ps)) (rev ps)" by (rule suffix_dropWhile)
  then show ?thesis by (simp add: trimmed_def suffix_to_prefix)
qed

lemma trimmed_mono: "prefix (trimmed ps) (trimmed (ps @ qs))"
proof (cases "\<forall>q \<in> set qs. space_at q")
  case True
  then have "dropWhile space_at (rev (ps @ qs)) = dropWhile space_at (rev ps)" by (simp add: dropWhile_append)
  then show ?thesis by (simp add: trimmed_def)
next
  case False
  then have "trimmed (ps @ qs) = ps @ trimmed qs" by (auto simp: trimmed_def dropWhile_append1)
  with prefix_trimmed [of ps] show ?thesis by (simp add: prefix_prefix)
qed

lemma concat_Nil_points: "list_all ok_point ps \<Longrightarrow> concat ps = [] \<longleftrightarrow> ps = []"
  by (cases ps) (auto elim: ok_point_cases)

lemma cut_candidate_points:
  assumes "list_all ok_point ps"
  shows "cut_candidate ps k = (let t = trimmed (take k ps) in if t \<noteq> [] then concat (t @ [ELLIPSIS]) else [])"
    "encoded_length (cut_candidate ps k) = Some (candidate_length ps k)"
proof -
  have t: "list_all ok_point (take k ps)" "list_all ok_point (trimmed (take k ps))"
    using assms by (simp_all add: list_all_take trimmed_ok)
  show c: "cut_candidate ps k = (let t = trimmed (take k ps) in if t \<noteq> [] then concat (t @ [ELLIPSIS]) else [])"
    using trim_end16_concat [OF t(1)] concat_Nil_points [OF t(2)]
    by (simp add: cut_candidate_def Let_def trimmed_def del: concat_eq_Nil_conv)
  have "encoded_length (concat (trimmed (take k ps) @ [ELLIPSIS])) = Some (points_length (trimmed (take k ps) @ [ELLIPSIS]))"
    by (rule encoded_length_concat) (use t in simp)
  moreover have "encoded_length [] = Some 0" using encoded_length_concat [of "[]"] by (simp add: points_length_def)
  ultimately show "encoded_length (cut_candidate ps k) = Some (candidate_length ps k)"
    unfolding c candidate_length_def Let_def by simp
qed

lemma candidate_mono:
  assumes "j \<le> k"
  shows "candidate_length ps j \<le> candidate_length ps k"
proof -
  have "take k ps = take j ps @ drop j (take k ps)"
    using assms append_take_drop_id [of j "take k ps"] by (simp add: min_def)
  then obtain r where r: "trimmed (take k ps) = trimmed (take j ps) @ r"
    using trimmed_mono [of "take j ps" "drop j (take k ps)"] by (metis prefixE)
  show ?thesis by (simp add: candidate_length_def Let_def r)
qed

section \<open>The search\<close>

definition longest_fit :: "utf16 list \<Rightarrow> int \<Rightarrow> nat \<Rightarrow> bool" where
  "longest_fit ps M k = (k \<le> length ps \<and> candidate_length ps k \<le> M \<and>
     (\<forall>j \<le> length ps. k < j \<longrightarrow> M < candidate_length ps j))"

text \<open>Between calls the candidate below \<open>low\<close> fits and none above \<open>high\<close> does.\<close>

lemma fit_search_correct:
  assumes "list_all ok_point ps" "0 \<le> M" "0 \<le> low" "low \<le> high + 1" "high \<le> int (length ps)"
    and "0 < low \<Longrightarrow> best = cut_candidate ps (nat (low - 1)) \<and> candidate_length ps (nat (low - 1)) \<le> M"
    and "\<And>j. high < int j \<Longrightarrow> j \<le> length ps \<Longrightarrow> M < candidate_length ps j"
  shows "\<exists>k. fit_search ps M low high best = Some (cut_candidate ps k) \<and> longest_fit ps M k"
  using assms
proof (induction ps M low high best rule: fit_search.induct)
  case (1 ps M low high best)
  show ?case
  proof (cases "low \<le> high")
    case True
    let ?m = "(low + high) div 2"
    have m: "low \<le> ?m" "?m \<le> high" using True by linarith+
    have e: "encoded_length (cut_candidate ps (nat ?m)) = Some (candidate_length ps (nat ?m))"
      by (rule cut_candidate_points(2) [OF 1(3)])
    show ?thesis
    proof (cases "candidate_length ps (nat ?m) \<le> M")
      case fits: True
      have "\<exists>k. fit_search ps M (?m + 1) high (cut_candidate ps (nat ?m)) = Some (cut_candidate ps k) \<and> longest_fit ps M k"
        by (rule 1(1) [OF True refl refl e fits]) (use 1(3-9) m fits in simp_all)
      with True e fits show ?thesis by (simp add: fit_search.simps [of ps M low high best] Let_def)
    next
      case False
      have "M < candidate_length ps j" if "?m - 1 < int j" for j
        using candidate_mono [of "nat ?m" j ps] False that m 1(5) by linarith
      then have "\<exists>k. fit_search ps M low (?m - 1) best = Some (cut_candidate ps k) \<and> longest_fit ps M k"
        by (intro 1(2) [OF True refl refl e False]) (use 1(3-9) m in simp_all)
      with True e False show ?thesis by (simp add: fit_search.simps [of ps M low high best] Let_def)
    qed
  next
    case False
    have "0 < low"
    proof (rule ccontr)
      assume "\<not> 0 < low"
      with False 1(9) [of 0] have "M < candidate_length ps 0" by simp
      with 1(4) show False by (simp add: candidate_length_def trimmed_def)
    qed
    with 1(8) have b: "best = cut_candidate ps (nat (low - 1))" "candidate_length ps (nat (low - 1)) \<le> M" by simp_all
    have "longest_fit ps M (nat (low - 1))"
      unfolding longest_fit_def using b(2) 1(6,7,9) False \<open>0 < low\<close> by auto
    with False b(1) show ?thesis by (intro exI [of _ "nat (low - 1)"]) (simp add: fit_search.simps)
  qed
qed

text \<open>A candidate that fits where the whole text does not is shorter than it.\<close>

lemma fitting_candidate_short:
  assumes "list_all ok_point ps" "candidate_length ps k \<le> M" "M < points_length ps"
  shows "unicodeLength (cut_candidate ps k) \<le> int (length ps)" "well_formed (cut_candidate ps k)"
proof -
  let ?t = "trimmed (take k ps)"
  have ok: "list_all ok_point ?t" using assms(1) by (intro trimmed_ok list_all_take)
  show "well_formed (cut_candidate ps k)"
    using ok cut_candidate_points(1) [OF assms(1), of k] well_formed_concat [of "?t @ [ELLIPSIS]"]
    by (simp add: Let_def split: if_splits)
  have "prefix ?t ps" using prefix_trimmed [of "take k ps"] take_is_prefix [of k ps] by (rule prefix_order.trans)
  then obtain r where r: "ps = ?t @ r" by (auto simp: prefix_def)
  have "length ?t < length ps" if "?t \<noteq> []"
  proof (rule ccontr)
    assume "\<not> length ?t < length ps"
    then have "r = []" using arg_cong [OF r, of length] by simp
    with r have "points_length ps = points_length ?t" by simp
    with assms(2,3) that show False
      using points_length_nonneg [of "[ELLIPSIS]"] by (simp add: candidate_length_def Let_def)
  qed
  then show "unicodeLength (cut_candidate ps k) \<le> int (length ps)"
    using cut_candidate_points(1) [OF assms(1), of k] array_from_concat [of "?t @ [ELLIPSIS]"] ok
    by (auto simp: Let_def unicodeLength_def split: if_splits)
qed


lemma encoded_length_wf: "well_formed s \<Longrightarrow> encoded_length s = Some (points_length (array_from s))"
  using encoded_length_concat [of "array_from s"] by (simp add: well_formed_def)

text \<open>What the fit is: the truncated text when it fits, and otherwise the longest candidate.\<close>

lemma fitEncodedText_fits:
  assumes "0 \<le> M"
  shows "\<exists>t n. fitEncodedText source m M = Some t \<and> well_formed t \<and> unicodeLength t \<le> max m 0 \<and>
    encoded_length t = Some n \<and> n \<le> M \<and>
    (let capped = truncateUnicode source m; ps = array_from capped in
     if points_length ps \<le> M then t = capped else (\<exists>k. t = cut_candidate ps k \<and> longest_fit ps M k))"
proof -
  let ?c = "truncateUnicode source m"
  let ?ps = "array_from ?c"
  have ok: "list_all ok_point ?ps" using truncate_well_formed [of source m] by (simp only: well_formed_def)
  have l: "unicodeLength ?c \<le> max m 0" by (rule truncate_length)
  have e: "encoded_length ?c = Some (points_length ?ps)" by (rule encoded_length_wf) simp
  show ?thesis
  proof (cases "points_length ?ps \<le> M")
    case True
    with e l show ?thesis by (simp add: fitEncodedText_def Let_def)
  next
    case False
    have "M < candidate_length ?ps j" if "int (length ?ps) < int j" "j \<le> length ?ps" for j using that by simp
    with fit_search_correct [OF ok assms, of 0 "int (length ?ps)" "[]"] obtain k where
      k: "fit_search ?ps M 0 (int (length ?ps)) [] = Some (cut_candidate ?ps k)" "longest_fit ?ps M k" by auto
    then have f: "candidate_length ?ps k \<le> M" by (simp add: longest_fit_def)
    note s = fitting_candidate_short [OF ok f] cut_candidate_points(2) [OF ok, of k]
    have "unicodeLength (cut_candidate ?ps k) \<le> max m 0" using s(1) False l by (simp add: unicodeLength_def)
    with k s False e f show ?thesis by (auto simp: fitEncodedText_def Let_def)
  qed
qed

lemma unicodeLength_append:
  "well_formed s \<Longrightarrow> well_formed t \<Longrightarrow> unicodeLength (s @ t) = unicodeLength s + unicodeLength t"
  by (simp add: unicodeLength_def array_from_append)

lemma encoded_length_append:
  "encoded_length s = Some a \<Longrightarrow> encoded_length t = Some b \<Longrightarrow> encoded_length (s @ t) = Some (a + b)"
  by (auto simp: encoded_length_def encode_append)

lemma encoded_length_suffix:
  assumes "well_formed s" "well_formed t" "encoded_length (s @ t) = Some n"
  shows "\<exists>m \<le> n. encoded_length t = Some m"
  using assms encoded_length_wf [of s] encoded_length_wf [of t] encoded_length_append [of s _ t]
  by (auto intro: exI [of _ "points_length (array_from t)"])

lemma blank_line_wf [simp]: "well_formed blank_line"
  by (simp add: blank_line_def well_formed_def is_scalar_def is_high_def is_low_def)

lemma fitWhatsAppText_fits:
  assumes "0 \<le> M" "0 \<le> m" "\<And>u. payload_link p = Some u \<Longrightarrow> well_formed u"
  shows "\<exists>t n. fitWhatsAppText p m M = Some t \<and> well_formed t \<and> unicodeLength t \<le> m \<and>
    encoded_length t = Some n \<and> n \<le> M"
proof (cases "payload_link p")
  case None
  with fitEncodedText_fits [OF assms(1), of "payload_body p" m] assms(2) show ?thesis
    by (auto simp: fitWhatsAppText_def Let_def)
next
  case (Some u)
  let ?s = "blank_line @ u"
  have u: "well_formed u" "well_formed ?s" using assms(3) [OF Some] by (simp_all add: well_formed_append)
  obtain k where k: "encoded_length ?s = Some k" using encoded_length_wf [OF u(2)] by blast
  show ?thesis
  proof (cases "unicodeLength ?s \<le> m \<and> k \<le> M")
    case True
    then obtain t n where t: "fitEncodedText (payload_body p) (m - unicodeLength ?s) (M - k) = Some t" "well_formed t"
      "unicodeLength t \<le> m - unicodeLength ?s" "encoded_length t = Some n" "n \<le> M - k"
      using fitEncodedText_fits [of "M - k" "payload_body p" "m - unicodeLength ?s"] by auto
    show ?thesis
    proof (cases "t = []")
      case e: True
      have "unicodeLength u \<le> unicodeLength ?s" using u by (simp add: unicodeLength_append) (simp add: unicodeLength_def)
      moreover obtain j where "j \<le> k" "encoded_length u = Some j" using encoded_length_suffix [OF _ u(1) k] by auto
      ultimately show ?thesis using e t k True Some u by (simp add: fitWhatsAppText_def Let_def)
    next
      case False
      have "encoded_length (t @ ?s) = Some (n + k)" using t(4) k by (rule encoded_length_append)
      with False t k True Some u show ?thesis
        by (simp add: fitWhatsAppText_def Let_def well_formed_append unicodeLength_append)
    qed
  next
    case False
    with fitEncodedText_fits [OF assms(1), of "payload_body p" m] assms(2) Some k show ?thesis
      by (auto simp: fitWhatsAppText_def Let_def)
  qed
qed

section \<open>Properties\<close>

text \<open>C24. The binary search ends with the best cut: for every text and limits, the loop that shortens a
  text for a link returns, its result never makes \<open>encodeURIComponent\<close> throw, stays within both limits,
  and is the whole truncated text if that fits, otherwise the longest cut: every longer cut, with the
  trailing space removed and the ellipsis added, is too long once encoded.\<close>

theorem fitEncodedText_longest:
  assumes "0 \<le> maxEncodedLength"
  shows "\<exists>t n. fitEncodedText source maxCodePoints maxEncodedLength = Some t \<and>
    unicodeLength t \<le> max maxCodePoints 0 \<and> encoded_length t = Some n \<and> n \<le> maxEncodedLength \<and>
    (let capped = truncateUnicode source maxCodePoints; ps = array_from capped in
     if points_length ps \<le> maxEncodedLength then t = capped
     else (\<exists>k. t = cut_candidate ps k \<and> longest_fit ps maxEncodedLength k))"
  using fitEncodedText_fits [OF assms, of source maxCodePoints] by blast

theorem fitEncodedText_longest_witness:
  "\<exists>t n. fitEncodedText (u16 ''a b c'') 10 11 = Some t \<and> encoded_length t = Some n \<and> n \<le> 11"
  using fitEncodedText_longest [of 11 "u16 ''a b c''" 10] by auto

text \<open>A WhatsApp link always exists and fits: for every payload, even of malformed text, and every
  limits a caller passes, the link is produced without an exception, its text has at most the bounded
  number of code points (1600 at most) and its URL at most the bounded length (4096 at most), and the
  URL is the fixed prefix followed by the encoded text.\<close>

theorem whatsapp_link_fits:
  assumes "\<And>u. pay_url p = Some u \<Longrightarrow> well_formed u"
  shows "\<exists>link e. createWhatsAppShareLink p maxText maxUrl = Some link \<and>
    unicodeLength (wa_text link) \<le> boundedLimit maxText MAX_WHATSAPP_TEXT_CODE_POINTS 1 \<and>
    int (length (wa_url link)) \<le> boundedLimit maxUrl MAX_WHATSAPP_URL_LENGTH 20 \<and>
    encodeURIComponent (wa_text link) = Some e \<and> wa_url link = WHATSAPP_BASE_URL @ e"
proof -
  let ?m = "boundedLimit maxText MAX_WHATSAPP_TEXT_CODE_POINTS 1"
  let ?l = "boundedLimit maxUrl MAX_WHATSAPP_URL_LENGTH 20"
  have b: "int (length WHATSAPP_BASE_URL) = 20" by (simp add: WHATSAPP_BASE_URL_def)
  have r: "0 \<le> ?m" "20 \<le> ?l"
    by (auto simp: boundedLimit_def MAX_WHATSAPP_TEXT_CODE_POINTS_def MAX_WHATSAPP_URL_LENGTH_def
        split: option.split jsnum.split)
  have w: "well_formed u" if "payload_link p = Some u" for u
    using that assms by (auto simp: payload_link_def split: option.splits list.splits)
  obtain t n where t: "fitWhatsAppText p ?m (max 0 (?l - 20)) = Some t" "well_formed t" "unicodeLength t \<le> ?m"
    "encoded_length t = Some n" "n \<le> max 0 (?l - 20)"
    using fitWhatsAppText_fits [of "max 0 (?l - 20)" ?m p] r w by auto
  then obtain e where "encodeURIComponent t = Some e" "int (length e) = n" by (auto simp: encoded_length_def)
  with t r show ?thesis by (simp add: createWhatsAppShareLink_def Let_def b)
qed

theorem whatsapp_link_fits_witness:
  "\<exists>link. createWhatsAppShareLink \<lparr>pay_title = u16 ''t'', pay_text = [0xD800], pay_url = Some (u16 ''https://x.example/'')\<rparr>
     (Some (Fin 5)) (Some NaN) = Some link \<and> unicodeLength (wa_text link) \<le> 5"
  using whatsapp_link_fits [of "\<lparr>pay_title = u16 ''t'', pay_text = [0xD800], pay_url = Some (u16 ''https://x.example/'')\<rparr>"
      "Some (Fin 5)" "Some NaN"]
  by (fastforce simp: boundedLimit_def MAX_WHATSAPP_TEXT_CODE_POINTS_def)

text \<open>A share is never copied behind the user's back: when the user cancels the share sheet, nothing is
  written to the clipboard; when the sheet is missing or fails otherwise, the clipboard gets exactly the
  composed text, and if that fails too the same text is returned for copying by hand, with the reason.\<close>

theorem shareNative_outcome:
  "case shareNative p nav of (result, calls) \<Rightarrow>
     (result = Cancelled \<longrightarrow> calls = [Called_share (nativeShareData p)]) \<and>
     (result = Shared \<longrightarrow> calls = [Called_share (nativeShareData p)]) \<and>
     (\<forall>t. Called_writeText t \<in> set calls \<longrightarrow> t = composeShareText p) \<and>
     (\<forall>t f. result = Copied t f \<longrightarrow> t = composeShareText p \<and> f \<noteq> None \<and> Called_writeText t \<in> set calls) \<and>
     (\<forall>t reason f. result = Manual t reason f \<longrightarrow> t = composeShareText p \<and> f \<noteq> None \<and>
        reason \<in> {Clipboard_unavailable, Clipboard_rejected})"
  by (auto simp: shareNative_def copyShareText_def with_fallback_def Let_def
      split: option.splits share_reply.splits clipboard_reply.splits if_splits)

theorem shareNative_outcome_witness:
  "shareNative \<lparr>pay_title = u16 ''t'', pay_text = [], pay_url = None\<rparr>
     (Some \<lparr>nav_share = Some (Share_rejected True), nav_canShare = None, nav_clipboard = Some Clip_written\<rparr>)
   = (Cancelled, [Called_share \<lparr>pay_title = u16 ''t'', pay_text = [], pay_url = None\<rparr>])"
  using shareNative_outcome [of "\<lparr>pay_title = u16 ''t'', pay_text = [], pay_url = None\<rparr>"
      "Some \<lparr>nav_share = Some (Share_rejected True), nav_canShare = None, nav_clipboard = Some Clip_written\<rparr>"]
  by (simp add: shareNative_def canShareNatively_def nativeShareData_def payload_link_def)

end
