(* ===== verification/Binary64.thy ===== *)
theory Binary64
  imports JsValues "HOL-Library.Log_Nat"
begin

text \<open>
  The arithmetic of JavaScript numbers where rounding matters. A finite number is a rational; the
  result of an operation, and the value of a numeral, is the exact value rounded to the nearest
  number of 53 significant bits, ties to the even one, with the spacing of the subnormal numbers
  below. Overflow to infinity is outside the amounts that are modelled. The interface \<open>rounding\<close> is
  what the clients use of it.
\<close>

section \<open>Rounding\<close>

definition round_even :: "rat \<Rightarrow> int" where
  "round_even r = (let f = \<lfloor>r\<rfloor>; d = r - of_int f in
     if d < 1 / 2 then f else if d > 1 / 2 then f + 1 else if even f then f else f + 1)"

text \<open>The exponent of the last place of a positive value, counted from the smallest subnormal.\<close>

definition subnormals :: rat where
  "subnormals = 2 ^ 1074"

definition last_place :: "rat \<Rightarrow> nat" where
  "last_place x = floorlog 2 (nat \<lfloor>x * subnormals\<rfloor>) - 53"

definition ulp :: "rat \<Rightarrow> rat" where
  "ulp x = 2 ^ last_place x / subnormals"

definition fl_pos :: "rat \<Rightarrow> rat" where
  "fl_pos x = of_int (round_even (x / ulp x)) * ulp x"

definition fl64 :: "rat \<Rightarrow> rat" where
  "fl64 x = (if x = 0 then 0 else if x < 0 then - fl_pos (- x) else fl_pos x)"

text \<open>\<open>Math.round\<close>: to the nearest integer, ties upwards.\<close>

definition math_round :: "rat \<Rightarrow> int" where
  "math_round r = \<lfloor>r + 1 / 2\<rfloor>"

section \<open>What the clients use\<close>

locale rounding =
  fixes fl :: "rat \<Rightarrow> rat"
  assumes fl_error: "x = 0 \<or> 1 / 1000 \<le> \<bar>x\<bar> \<Longrightarrow> \<bar>fl x - x\<bar> \<le> \<bar>x\<bar> * (1 / 2 ^ 53)"
    and fl_whole: "\<bar>n\<bar> \<le> 2 ^ 53 \<Longrightarrow> fl (of_int n) = of_int n"
    and fl_large: "2 ^ 53 \<le> x \<Longrightarrow> 2 ^ 53 \<le> fl x"
begin

text \<open>A product of a rounded value by 100 stays close to the exact one.\<close>

lemma hundredfold_error:
  assumes "v = 0 \<or> 1 / 100 \<le> \<bar>v\<bar>"
  shows "\<bar>fl (fl v * 100) - v * 100\<bar> \<le> \<bar>v * 100\<bar> * (3 / 2 ^ 53)"
proof -
  define u where "u = (1 / 2 ^ 53 :: rat)"
  have u: "0 \<le> u" "u \<le> 1 / 4" by (simp_all add: u_def)
  let ?a = "fl v"
  have e1: "\<bar>?a - v\<bar> \<le> \<bar>v\<bar> * u" unfolding u_def
  proof (rule fl_error)
    show "v = 0 \<or> 1 / 1000 \<le> \<bar>v\<bar>" using assms by linarith
  qed
  have vu: "\<bar>v\<bar> * u \<le> \<bar>v\<bar> * (1 / 4)" using u by (intro mult_left_mono) simp_all
  have "?a * 100 = 0 \<or> 1 / 1000 \<le> \<bar>?a * 100\<bar>"
  proof (cases "v = 0")
    case True
    with e1 show ?thesis by simp
  next
    case False
    with assms have "1 / 100 \<le> \<bar>v\<bar>" by simp
    moreover have "\<bar>v\<bar> \<le> \<bar>?a\<bar> + \<bar>v\<bar> * (1 / 4)" using e1 vu by linarith
    ultimately have "1 / 1000 \<le> \<bar>?a\<bar> * 100" by linarith
    then show ?thesis by (simp add: abs_mult)
  qed
  then have e2: "\<bar>fl (?a * 100) - ?a * 100\<bar> \<le> \<bar>?a * 100\<bar> * u" unfolding u_def by (rule fl_error)
  have "\<bar>?a\<bar> \<le> \<bar>v\<bar> * 2" using e1 vu by linarith
  then have "\<bar>?a * 100\<bar> * u \<le> \<bar>v * 100\<bar> * 2 * u"
    using u by (intro mult_right_mono) (simp_all add: abs_mult)
  moreover have "\<bar>?a * 100 - v * 100\<bar> \<le> \<bar>v * 100\<bar> * u"
  proof -
    have "?a * 100 - v * 100 = (?a - v) * 100" by (simp only: left_diff_distrib)
    then have "\<bar>?a * 100 - v * 100\<bar> = \<bar>?a - v\<bar> * 100" by (simp only: abs_mult abs_numeral)
    moreover have "\<bar>v * 100\<bar> * u = \<bar>v\<bar> * u * 100" by (simp only: abs_mult abs_numeral mult.assoc mult.commute)
    ultimately show ?thesis using e1 by linarith
  qed
  moreover have "\<bar>fl (?a * 100) - v * 100\<bar> \<le> \<bar>fl (?a * 100) - ?a * 100\<bar> + \<bar>?a * 100 - v * 100\<bar>" by linarith
  moreover have "\<bar>v * 100\<bar> * (3 * u) = \<bar>v * 100\<bar> * 2 * u + \<bar>v * 100\<bar> * u"
    by (simp only: distrib_left [symmetric] mult.assoc) simp
  ultimately have "\<bar>fl (?a * 100) - v * 100\<bar> \<le> \<bar>v * 100\<bar> * (3 * u)" using e2 by linarith
  then show ?thesis by (simp only: u_def times_divide_eq_right mult_1_right)
qed

end

section \<open>The laws of rounding to 53 bits\<close>

lemma round_even_error: "\<bar>of_int (round_even r) - r\<bar> \<le> 1 / 2"
  using floor_correct [of r] by (auto simp: round_even_def Let_def)

lemma round_even_int [simp]: "round_even (of_int n) = n"
  by (simp add: round_even_def)

lemma round_even_ge: "of_int n \<le> r \<Longrightarrow> n \<le> round_even r"
proof -
  assume "of_int n \<le> r"
  then have "n \<le> \<lfloor>r\<rfloor>" by (simp add: le_floor_iff)
  then show ?thesis by (auto simp: round_even_def Let_def)
qed

lemma subnormals_pos [simp]: "0 < subnormals"
  unfolding subnormals_def by (rule zero_less_power) simp

lemma ulp_pos [simp]: "0 < ulp x"
  by (simp add: ulp_def)

lemma fl_pos_error: "\<bar>fl_pos x - x\<bar> \<le> ulp x / 2"
proof -
  have n: "ulp x \<noteq> 0" using ulp_pos [of x] by linarith
  have "fl_pos x - x = (of_int (round_even (x / ulp x)) - x / ulp x) * ulp x"
    using n by (simp add: fl_pos_def left_diff_distrib)
  then have "\<bar>fl_pos x - x\<bar> = \<bar>of_int (round_even (x / ulp x)) - x / ulp x\<bar> * ulp x"
    using ulp_pos [of x] by (simp only: abs_mult abs_of_pos)
  also have "\<dots> \<le> 1 / 2 * ulp x" by (intro mult_right_mono round_even_error) (simp add: less_imp_le)
  finally show ?thesis by simp
qed


text \<open>A value whose scaled size lies between two powers of two.\<close>

lemma last_place_between:
  assumes "2 ^ j \<le> x * subnormals" "x * subnormals < 2 ^ Suc j"
  shows "last_place x = Suc j - 53"
proof -
  let ?m = "nat \<lfloor>x * subnormals\<rfloor>"
  have "of_int (2 ^ j) \<le> x * subnormals" using assms(1) by simp
  then have l: "2 ^ j \<le> \<lfloor>x * subnormals\<rfloor>" by (simp only: le_floor_iff)
  have "x * subnormals < of_int (2 ^ Suc j)" using assms(2) by simp
  then have u: "\<lfloor>x * subnormals\<rfloor> < 2 ^ Suc j" by (simp only: floor_less_iff)
  have "2 ^ j \<le> ?m" using l by (metis nat_le_iff nat_mono nat_numeral nat_power_eq zero_le_numeral)
  then have "Suc j \<le> floorlog 2 ?m" by (intro floorlog_ge_SucI) simp_all
  moreover have "0 \<le> \<lfloor>x * subnormals\<rfloor>" using l by (metis order.trans zero_le_numeral zero_le_power)
  with u have "?m < 2 ^ Suc j" by (simp add: nat_less_iff)
  then have "floorlog 2 ?m \<le> Suc j" by (intro floorlog_leI) simp_all
  ultimately show ?thesis by (simp add: last_place_def)
qed

lemma power_between:
  fixes y :: rat
  assumes "1 \<le> y"
  shows "\<exists>j. 2 ^ j \<le> y \<and> y < 2 ^ Suc j"
proof -
  let ?n = "nat \<lfloor>y\<rfloor>"
  have n: "0 < ?n" using assms by simp
  then obtain j where j: "floorlog 2 ?n = Suc j"
    by (metis floorlog_eq_zero_iff not0_implies_Suc not_le one_less_numeral_iff semiring_norm(76))
  have b: "2 ^ j \<le> ?n" "?n < 2 ^ Suc j" using floorlog_bounds [of ?n 2] n j by simp_all
  have f: "of_nat ?n \<le> y" "y < of_nat ?n + 1" using floor_correct [of y] assms by simp_all
  have "(2 ^ j :: rat) \<le> of_nat ?n" using b(1) by (metis of_nat_le_iff of_nat_numeral of_nat_power)
  moreover have "of_nat ?n + 1 \<le> (2 ^ Suc j :: rat)"
    using b(2) by (metis Suc_leI of_nat_1 of_nat_add of_nat_le_iff of_nat_numeral of_nat_power Suc_eq_plus1)
  ultimately show ?thesis using f by (meson le_less_trans less_le_trans order.trans)
qed

lemma ulp_small:
  assumes "2 ^ 53 \<le> x * subnormals"
  shows "\<exists>j \<ge> 53. 2 ^ j \<le> x * subnormals \<and> ulp x * 2 ^ 52 * subnormals = 2 ^ j"
proof -
  have "1 \<le> x * subnormals" using assms by (meson one_le_numeral one_le_power order.trans)
  then obtain j where j: "2 ^ j \<le> x * subnormals" "x * subnormals < 2 ^ Suc j" using power_between by blast
  have "(2 :: rat) ^ 53 < 2 ^ Suc j" using assms j(2) by linarith
  then have "53 < Suc j" by (simp only: power_strict_increasing_iff)
  then have g: "53 \<le> j" by simp
  have "subnormals \<noteq> 0" using subnormals_pos by linarith
  then have "ulp x * 2 ^ 52 * subnormals = 2 ^ (Suc j - 53) * 2 ^ 52"
    by (simp only: ulp_def last_place_between [OF j] times_divide_eq_left nonzero_divide_eq_eq mult.assoc mult.commute)
       (simp add: field_simps)
  also have "\<dots> = 2 ^ j" using g by (simp only: power_add [symmetric]) (rule arg_cong [where f = "(^) 2"], simp)
  finally show ?thesis using g j(1) by blast
qed


lemma subnormals_split: "a + b = 1074 \<Longrightarrow> subnormals = 2 ^ a * 2 ^ b"
  unfolding subnormals_def by (simp only: power_add [symmetric])

lemma scaled_large:
  assumes "1 / 1000 \<le> x"
  shows "2 ^ 53 \<le> x * subnormals"
proof -
  have s: "subnormals = 2 ^ 10 * 2 ^ 1064" by (rule subnormals_split) simp
  have "(2 :: rat) ^ 53 \<le> 2 ^ 1064" by (rule power_increasing) simp_all
  moreover have "1 * 2 ^ 1064 \<le> (x * 2 ^ 10) * 2 ^ 1064"
    by (rule mult_right_mono) (use assms in simp_all)
  ultimately show ?thesis unfolding s by (simp only: mult_1_left mult.assoc [symmetric])
qed

lemma ulp_relative:
  assumes "2 ^ 53 \<le> x * subnormals"
  shows "ulp x * 2 ^ 52 \<le> x"
proof -
  obtain j where "2 ^ j \<le> x * subnormals" "ulp x * 2 ^ 52 * subnormals = 2 ^ j"
    using ulp_small [OF assms] by blast
  then have "ulp x * 2 ^ 52 * subnormals \<le> x * subnormals" by simp
  then show ?thesis using subnormals_pos by (simp only: mult_le_cancel_right_pos)
qed

lemma fl_pos_relative:
  assumes "1 / 1000 \<le> x"
  shows "\<bar>fl_pos x - x\<bar> \<le> x * (1 / 2 ^ 53)"
proof -
  have "ulp x * 2 ^ 52 \<le> x" by (rule ulp_relative [OF scaled_large [OF assms]])
  then have "ulp x / 2 \<le> x * (1 / 2 ^ 53)" by simp
  with fl_pos_error [of x] show ?thesis by linarith
qed

lemma fl64_error:
  assumes "x = 0 \<or> 1 / 1000 \<le> \<bar>x\<bar>"
  shows "\<bar>fl64 x - x\<bar> \<le> \<bar>x\<bar> * (1 / 2 ^ 53)"
proof (cases x "0 :: rat" rule: linorder_cases)
  case less
  with assms have "1 / 1000 \<le> - x" by simp
  from fl_pos_relative [OF this] less show ?thesis by (simp add: fl64_def abs_minus_commute)
next
  case equal
  then show ?thesis by (simp add: fl64_def)
next
  case greater
  with assms have "1 / 1000 \<le> x" by simp
  from fl_pos_relative [OF this] greater show ?thesis by (simp add: fl64_def)
qed

lemma fl64_large:
  assumes "2 ^ 53 \<le> x"
  shows "2 ^ 53 \<le> fl64 x"
proof -
  have x: "0 < x" "1 / 1000 \<le> x" using assms by simp_all
  have "2 ^ 53 * subnormals \<le> x * subnormals"
    using assms subnormals_pos by (simp only: mult_le_cancel_right_pos)
  moreover obtain j where j: "53 \<le> j" "2 ^ j \<le> x * subnormals" "ulp x * 2 ^ 52 * subnormals = 2 ^ j"
    using ulp_small [OF scaled_large [OF x(2)]] by blast
  moreover have b: "2 ^ 1127 \<le> (2 :: rat) ^ j"
  proof -
    have "1 \<le> x * subnormals" using scaled_large [OF x(2)] by (meson one_le_numeral one_le_power order.trans)
    then obtain i where i: "2 ^ i \<le> x * subnormals" "x * subnormals < 2 ^ Suc i" using power_between by blast
    have "ulp x = 2 ^ (Suc i - 53) / subnormals" by (simp only: ulp_def last_place_between [OF i])
    have "2 ^ 53 * subnormals = 2 ^ 1127" unfolding subnormals_def by (simp only: power_add [symmetric]) simp
    with assms have "(2 :: rat) ^ 1127 \<le> x * subnormals"
      using subnormals_pos by (metis mult_le_cancel_right_pos)
    then have "(2 :: rat) ^ 1127 < 2 ^ Suc i" using i(2) by linarith
    then have i2: "1127 \<le> i" by (simp only: power_strict_increasing_iff)
    have "53 \<le> i" using i2 by simp
    have n: "subnormals \<noteq> 0" using subnormals_pos by linarith
    have "ulp x * 2 ^ 52 * subnormals = 2 ^ (Suc i - 53) * 2 ^ 52"
      using n by (simp only: \<open>ulp x = _\<close>) (simp add: field_simps)
    also have "\<dots> = 2 ^ i" using \<open>53 \<le> i\<close> by (simp only: power_add [symmetric]) (rule arg_cong [where f = "(^) 2"], simp)
    finally have "(2 :: rat) ^ j = 2 ^ i" using j(3) by simp
    moreover have "(2 :: rat) ^ 1127 \<le> 2 ^ i" by (rule power_increasing [OF i2]) simp
    ultimately show ?thesis by simp
  qed
  ultimately have "2 ^ 53 * subnormals \<le> ulp x * 2 ^ 52 * subnormals"
    unfolding subnormals_def by (simp only: power_add [symmetric]) simp
  then have u: "2 ^ 53 \<le> ulp x * 2 ^ 52" using subnormals_pos by (simp only: mult_le_cancel_right_pos)
  have "ulp x * 2 ^ 52 \<le> x" by (rule ulp_relative [OF scaled_large [OF x(2)]])
  then have "of_int (2 ^ 52) \<le> x / ulp x" by (simp add: pos_le_divide_eq mult.commute)
  then have "2 ^ 52 \<le> round_even (x / ulp x)" by (rule round_even_ge)
  then have "(2 :: rat) ^ 52 \<le> of_int (round_even (x / ulp x))" by (metis of_int_le_iff of_int_numeral of_int_power)
  then have "2 ^ 52 * ulp x \<le> fl_pos x" unfolding fl_pos_def by (intro mult_right_mono) (simp_all add: less_imp_le)
  with u x(1) show ?thesis by (simp add: fl64_def mult.commute)
qed

text \<open>The whole numbers of at most 53 bits are their own rounding.\<close>

lemma ulp_between:
  assumes "2 ^ i \<le> x" "x < 2 ^ Suc i"
  shows "ulp x = 2 ^ i / 2 ^ 52"
proof -
  have s: "subnormals = 2 ^ 1074" by (simp only: subnormals_def)
  have "2 ^ i * 2 ^ 1074 \<le> x * subnormals"
    unfolding s by (rule mult_right_mono [OF assms(1)]) (rule zero_le_power, simp)
  then have l: "2 ^ (i + 1074) \<le> x * subnormals" by (simp only: power_add)
  have "x * subnormals < 2 ^ Suc i * 2 ^ 1074"
    unfolding s by (rule mult_strict_right_mono [OF assms(2)]) (rule zero_less_power, simp)
  then have u: "x * subnormals < 2 ^ Suc (i + 1074)" by (simp only: power_add [symmetric] add_Suc)
  have lp: "last_place x = i + 1022" using last_place_between [OF l u] by simp
  have s2: "subnormals = 2 ^ 52 * 2 ^ 1022" by (rule subnormals_split) simp
  have z: "(2 :: rat) ^ 1022 \<noteq> 0" by (rule power_not_zero) simp
  have "ulp x = 2 ^ i * 2 ^ 1022 / (2 ^ 52 * 2 ^ 1022)" unfolding ulp_def lp s2 power_add by (rule refl)
  also have "\<dots> = 2 ^ i / 2 ^ 52" by (rule mult_divide_mult_cancel_right [OF z])
  finally show ?thesis .
qed

lemma fl_pos_whole:
  fixes n :: int
  assumes "0 < n" "n \<le> 2 ^ 53"
  shows "fl_pos (of_int n) = of_int n"
proof -
  let ?x = "of_int n :: rat"
  have "1 \<le> ?x" using assms(1) by simp
  then obtain i where i: "2 ^ i \<le> ?x" "?x < 2 ^ Suc i" using power_between by blast
  have u: "ulp ?x = 2 ^ i / 2 ^ 52" by (rule ulp_between [OF i])
  have "\<exists>k :: int. ?x / ulp ?x = of_int k"
  proof (cases "i \<le> 52")
    case True
    then have "(2 :: rat) ^ 52 = 2 ^ (52 - i) * 2 ^ i" by (simp only: power_add [symmetric]) simp
    then have "?x / ulp ?x = of_int (n * 2 ^ (52 - i))" unfolding u by (simp add: field_simps)
    then show ?thesis by blast
  next
    case False
    then have "(2 :: rat) ^ 53 \<le> 2 ^ i" by (intro power_increasing) simp_all
    moreover have "?x \<le> 2 ^ 53" using assms(2) by (metis of_int_le_iff of_int_numeral of_int_power)
    ultimately have "?x = 2 ^ 53" "(2 :: rat) ^ i = 2 ^ 53" using i(1) by linarith+
    then have "?x / ulp ?x = of_int (2 ^ 52)" unfolding u by simp
    then show ?thesis by blast
  qed
  then obtain k where k: "?x / ulp ?x = of_int k" by blast
  have "ulp ?x \<noteq> 0" using ulp_pos [of ?x] by linarith
  then have "of_int k * ulp ?x = ?x" unfolding k [symmetric] by simp
  then show ?thesis by (simp add: fl_pos_def k)
qed

lemma fl64_whole: "\<bar>n\<bar> \<le> 2 ^ 53 \<Longrightarrow> fl64 (of_int n) = of_int n"
  using fl_pos_whole [of n] fl_pos_whole [of "- n"]
  by (cases n "0 :: int" rule: linorder_cases) (simp_all add: fl64_def)

interpretation binary64: rounding fl64
  by unfold_locales (rule fl64_error fl64_whole fl64_large; assumption)+

section \<open>Rounding keeps the order\<close>

lemma round_even_le: "r \<le> of_int n \<Longrightarrow> round_even r \<le> n"
proof -
  assume r: "r \<le> of_int n"
  show ?thesis
  proof (cases "r = of_int n")
    case False
    with r have "r < of_int n" by simp
    then have "\<lfloor>r\<rfloor> < n" by (simp only: floor_less_iff)
    then show ?thesis by (auto simp: round_even_def Let_def)
  qed simp
qed

lemma round_even_mono:
  assumes "r \<le> s"
  shows "round_even r \<le> round_even s"
proof (cases "\<lfloor>r\<rfloor> = \<lfloor>s\<rfloor>")
  case True
  then show ?thesis using assms by (auto simp: round_even_def Let_def)
next
  case False
  then have f: "\<lfloor>r\<rfloor> + 1 \<le> \<lfloor>s\<rfloor>" using floor_mono [OF assms] by simp
  have "round_even r \<le> \<lfloor>r\<rfloor> + 1" by (auto simp: round_even_def Let_def)
  also note f
  also have "\<lfloor>s\<rfloor> \<le> round_even s" by (auto simp: round_even_def Let_def)
  finally show ?thesis .
qed

lemma scaled_power:
  fixes S :: rat
  assumes "0 < S"
  shows "2 ^ (n + l) / S / (2 ^ l / S) = of_int (2 ^ n)"
  using assms by (simp add: power_add field_simps)

lemma fl_pos_mono:
  assumes "0 \<le> x" "x \<le> y"
  shows "fl_pos x \<le> fl_pos y"
proof -
  let ?X = "nat \<lfloor>x * subnormals\<rfloor>" and ?Y = "nat \<lfloor>y * subnormals\<rfloor>"
  have S: "0 < subnormals" by simp
  have "x * subnormals \<le> y * subnormals" using assms(2) S by simp
  then have "?X \<le> ?Y" by (intro nat_mono floor_mono)
  then have le: "last_place x \<le> last_place y" unfolding last_place_def by (intro diff_le_mono floorlog_mono)
  show ?thesis
  proof (cases "last_place x = last_place y")
    case True
    then have u: "ulp x = ulp y" by (simp add: ulp_def)
    have "x / ulp y \<le> y / ulp y" using assms(2) by (simp add: divide_right_mono less_imp_le)
    from round_even_mono [OF this] show ?thesis
      by (simp add: fl_pos_def u mult_right_mono less_imp_le)
  next
    case False
    define m where "m = last_place y"
    have m: "last_place x < m" using False le by (simp add: m_def)
    define a b where "a = floorlog 2 ?X" and "b = floorlog 2 ?Y"
    have "b - 53 = m" by (simp only: m_def last_place_def b_def)
    moreover have "a - 53 < m" using m by (simp only: last_place_def a_def)
    ultimately have "b = m + 53" "a \<le> m + 52" by arith+
    then have fy: "floorlog 2 ?Y = m + 53" and fx: "floorlog 2 ?X \<le> m + 52" by (simp_all only: a_def b_def)
    define P where "P = 2 ^ (m + 52) / subnormals"
    have "0 < ?Y"
    proof (rule ccontr)
      assume "\<not> 0 < ?Y"
      then have "?Y = 0" by (simp only: not_less le_zero_eq)
      then have "floorlog 2 ?Y = 0" by (simp only: floorlog_eq_zero_iff order_refl simp_thms)
      with fy show False by simp
    qed
    then have y: "2 ^ (m + 52) \<le> ?Y" using floorlog_bounds [of ?Y 2] fy by (simp add: add.commute)
    have Py: "P \<le> y"
    proof -
      have "(2 :: rat) ^ (m + 52) \<le> of_nat ?Y" using y by (metis of_nat_le_iff of_nat_numeral of_nat_power)
      also have "\<dots> = of_int \<lfloor>y * subnormals\<rfloor>" using \<open>0 < ?Y\<close> by simp
      also have "\<dots> \<le> y * subnormals" by (rule of_int_floor_le)
      finally show ?thesis using S by (simp add: P_def pos_divide_le_eq)
    qed
    have xP: "x \<le> P"
    proof -
      have "?X < 2 ^ (m + 52)"
      proof (cases "?X = 0")
        case False
        then have "?X < 2 ^ floorlog 2 ?X" using floorlog_bounds [of ?X 2] by simp
        also have "(2 :: nat) ^ floorlog 2 ?X \<le> 2 ^ (m + 52)" using fx by (intro power_increasing) simp_all
        finally show ?thesis .
      qed simp
      then have "\<lfloor>x * subnormals\<rfloor> < 2 ^ (m + 52)" by (simp add: nat_less_iff zless_nat_eq_int_zless)
      then have "x * subnormals < of_int (2 ^ (m + 52))" by (simp only: floor_less_iff)
      then show ?thesis using S by (simp add: P_def pos_le_divide_eq)
    qed
    have "fl_pos x \<le> P"
    proof -
      define n where "n = m + 52 - last_place x"
      have n: "m + 52 = n + last_place x" using m by (simp add: n_def)
      have q: "P / ulp x = of_int (2 ^ n)" unfolding P_def ulp_def n by (rule scaled_power [OF S])
      have "x / ulp x \<le> P / ulp x" using xP by (simp add: divide_right_mono less_imp_le)
      then have "round_even (x / ulp x) \<le> 2 ^ n" unfolding q by (rule round_even_le)
      then have "(of_int (round_even (x / ulp x)) :: rat) \<le> P / ulp x" unfolding q by (simp only: of_int_le_iff)
      then show ?thesis by (simp add: fl_pos_def pos_le_divide_eq)
    qed
    moreover have "P \<le> fl_pos y"
    proof -
      have q: "P / ulp y = of_int (2 ^ 52)" unfolding P_def ulp_def m_def [symmetric] add.commute [of m] by (rule scaled_power [OF S])
      have "P / ulp y \<le> y / ulp y" using Py by (simp add: divide_right_mono less_imp_le)
      then have "2 ^ 52 \<le> round_even (y / ulp y)" unfolding q by (rule round_even_ge)
      then have "P / ulp y \<le> (of_int (round_even (y / ulp y)) :: rat)" unfolding q by (simp only: of_int_le_iff)
      then show ?thesis by (simp add: fl_pos_def pos_divide_le_eq)
    qed
    ultimately show ?thesis by linarith
  qed
qed

lemma fl_pos_nonneg: "0 \<le> x \<Longrightarrow> 0 \<le> fl_pos x"
  using round_even_ge [of 0 "x / ulp x"] by (simp add: fl_pos_def less_imp_le)

lemma fl64_mono: "x \<le> y \<Longrightarrow> fl64 x \<le> fl64 y"
  using fl_pos_mono [of x y] fl_pos_mono [of "- y" "- x"] fl_pos_nonneg [of "- x"] fl_pos_nonneg [of y]
  by (auto simp: fl64_def intro: order.trans [of _ 0])

lemma math_round_mono: "x \<le> y \<Longrightarrow> math_round x \<le> math_round y"
  by (simp add: math_round_def floor_mono)

end
