(* ===== verification/SharePayloads.thy ===== *)
theory SharePayloads
  imports ShareDelivery DateOnly Binary64 DomainTypes Categories
begin

text \<open>
  What the application shares (lib/share/payloads.ts, lib/share/format.ts, lib/format.ts): five builders
  turn a transaction, an invitation, a bill, a claim or a monthly summary into a payload of a title and
  a text. Formatting of amounts and dates belongs to the runtime's \<open>Intl\<close> and is a parameter, as are the
  tables of Unicode; the calls that throw are those of the source.
\<close>

section \<open>The runtime\<close>

text \<open>\<open>si_canonical\<close> is \<open>Intl.getCanonicalLocales\<close> of one tag, \<open>None\<close> where it throws; \<open>si_zone\<close> says whether
  a time zone exists; \<open>si_parse\<close> is \<open>new Date\<close> of a string.\<close>

record share_intl =
  si_canonical :: "string \<Rightarrow> string option"
  si_currency :: "string \<Rightarrow> string \<Rightarrow> rat \<Rightarrow> utf16"
  si_zone :: "string \<Rightarrow> bool"
  si_date :: "string \<Rightarrow> string \<Rightarrow> int \<Rightarrow> utf16"
  si_month :: "string \<Rightarrow> int \<Rightarrow> utf16"
  si_parse :: "string \<Rightarrow> date"
  si_nfc :: "utf16 \<Rightarrow> utf16"
  si_upper :: "code_unit \<Rightarrow> utf16"

record share_options =
  so_locale :: "string option"
  so_timeZone :: "string option"
  so_safePublicUrl :: "utf16 option"
  so_concealAmounts :: bool

section \<open>Formats\<close>

definition DEFAULT_SHARE_LOCALE :: string where
  "DEFAULT_SHARE_LOCALE = ''en-IN''"

definition canonicalShareLocale :: "share_intl \<Rightarrow> string option \<Rightarrow> string" where
  "canonicalShareLocale intl locale =
     (case si_canonical intl (case locale of Some (c # cs) \<Rightarrow> c # cs | _ \<Rightarrow> DEFAULT_SHARE_LOCALE) of
        Some l \<Rightarrow> l | None \<Rightarrow> DEFAULT_SHARE_LOCALE)"

definition bullets :: utf16 where
  "bullets = replicate 6 0x2022"

definition formatMoney :: "share_intl \<Rightarrow> rat \<Rightarrow> string \<Rightarrow> string \<Rightarrow> bool \<Rightarrow> utf16" where
  "formatMoney intl minor code locale concealed =
     (if concealed then bullets else si_currency intl locale code (fl64 (minor / 100)))"

definition formatShareMoney :: "share_intl \<Rightarrow> money \<Rightarrow> string option \<Rightarrow> bool \<Rightarrow> js_error + utf16" where
  "formatShareMoney intl m locale absolute = (case amountMinor m of
       Fin a \<Rightarrow>
         (let code = js_upper (js_trim (currency m))
          in if \<not> is_currency_code code then Inl RangeError
             else Inr (formatMoney intl (if absolute then \<bar>a\<bar> else a) code (canonicalShareLocale intl locale) False))
     | _ \<Rightarrow> Inl RangeError)"

datatype date_input = Date_text string | Date_object date

definition validDate :: "share_intl \<Rightarrow> date_input \<Rightarrow> date" where
  "validDate intl value = (case value of Date_text s \<Rightarrow> si_parse intl s | Date_object d \<Rightarrow> d)"

definition formatShareDate ::
  "share_intl \<Rightarrow> date_input \<Rightarrow> string option \<Rightarrow> string option \<Rightarrow> utf16 option" where
  "formatShareDate intl value locale timeZone = (case validDate intl value of
       None \<Rightarrow> None
     | Some date \<Rightarrow>
         (let isDateOnly = (case value of Date_text s \<Rightarrow> match_date_only s | Date_object _ \<Rightarrow> False);
              zone = (if isDateOnly then ''UTC'' else (case timeZone of Some (c # cs) \<Rightarrow> c # cs | _ \<Rightarrow> ''UTC''))
          in Some (if si_zone intl zone then si_date intl (canonicalShareLocale intl locale) zone date
                   else si_date intl DEFAULT_SHARE_LOCALE ''UTC'' date)))"

record month_period =
  mp_year :: jsnum
  mp_month :: jsnum

definition formatShareMonth :: "share_intl \<Rightarrow> month_period \<Rightarrow> string option \<Rightarrow> js_error + utf16" where
  "formatShareMonth intl period locale = (case (mp_year period, mp_month period) of
       (Fin y, Fin m) \<Rightarrow>
         if \<not> is_whole y \<or> \<not> is_whole m \<or> y < 1 \<or> m < 1 \<or> m > 12 then Inl RangeError
         else (case date_UTC \<lfloor>y\<rfloor> (\<lfloor>m\<rfloor> - 1) 1 of
                 None \<Rightarrow> Inl RangeError
               | Some t \<Rightarrow> Inr (si_month intl (canonicalShareLocale intl locale) t))
     | _ \<Rightarrow> Inl RangeError)"

section \<open>Payloads\<close>

definition TITLE_LIMIT :: int where "TITLE_LIMIT = 96"
definition DISPLAY_NAME_LIMIT :: int where "DISPLAY_NAME_LIMIT = 96"
definition DETAIL_LIMIT :: int where "DETAIL_LIMIT = 140"
definition PAYLOAD_TEXT_LIMIT :: int where "PAYLOAD_TEXT_LIMIT = 1400"

definition middle_dot :: utf16 where
  "middle_dot = [32, 0xB7, 32]"

text \<open>\<open>parts.filter(Boolean)\<close>: a missing or an empty part is dropped.\<close>

definition present :: "utf16 option list \<Rightarrow> utf16 list" where
  "present parts = concat (map (\<lambda>p. case p of Some (u # us) \<Rightarrow> [u # us] | _ \<Rightarrow> []) parts)"

definition truthy_text :: "utf16 option \<Rightarrow> bool" where
  "truthy_text p = (case p of Some (u # us) \<Rightarrow> True | _ \<Rightarrow> False)"

definition createPayload :: "share_intl \<Rightarrow> utf16 \<Rightarrow> utf16 option list \<Rightarrow> share_options \<Rightarrow> share_payload" where
  "createPayload intl title lines options =
     \<lparr>pay_title = cleanShareLabel (si_nfc intl) (Some title) TITLE_LIMIT (u16 ''Money update''),
      pay_text = truncateUnicode (join16 NEWLINE (present lines)) PAYLOAD_TEXT_LIMIT,
      pay_url = (if truthy_text (so_safePublicUrl options) then so_safePublicUrl options else None)\<rparr>"

definition label :: "share_intl \<Rightarrow> utf16 option \<Rightarrow> string \<Rightarrow> utf16" where
  "label intl value fallback = cleanShareLabel (si_nfc intl) value DISPLAY_NAME_LIMIT (u16 fallback)"

definition humanize :: "share_intl \<Rightarrow> utf16 option \<Rightarrow> string \<Rightarrow> utf16" where
  "humanize intl value fallback = humanizeShareLabel (si_nfc intl) (si_upper intl) value (u16 fallback) 60"

definition no_options :: share_options where
  "no_options = \<lparr>so_locale = None, so_timeZone = None, so_safePublicUrl = None, so_concealAmounts = False\<rparr>"

definition buildSafeTextSharePayload :: "share_intl \<Rightarrow> utf16 \<Rightarrow> utf16 \<Rightarrow> share_payload" where
  "buildSafeTextSharePayload intl title text =
     createPayload intl title
       [Some (cleanShareLabel (si_nfc intl) (Some text) PAYLOAD_TEXT_LIMIT (u16 ''Money update''))] no_options"

definition sameCurrency :: "money \<Rightarrow> money \<Rightarrow> bool" where
  "sameCurrency left right = (js_upper (js_trim (currency left)) = js_upper (js_trim (currency right)))"

text \<open>An amount, unless amounts are concealed.\<close>

definition shown_amount :: "share_intl \<Rightarrow> share_options \<Rightarrow> money \<Rightarrow> bool \<Rightarrow> js_error + utf16 option" where
  "shown_amount intl options m absolute =
     (if so_concealAmounts options then Inr None
      else bind_result (formatShareMoney intl m (so_locale options) absolute) (\<lambda>t. Inr (Some t)))"

record transaction_share =
  ts_merchant :: utf16
  ts_category :: utf16
  ts_occurredAt :: string
  ts_amount :: money
  ts_credit :: bool
  ts_status :: utf16
  ts_createdAt :: "string option"
  ts_creator :: "(utf16 \<times> bool) option"

definition buildTransactionSharePayload ::
  "share_intl \<Rightarrow> share_options \<Rightarrow> transaction_share \<Rightarrow> js_error + share_payload" where
  "buildTransactionSharePayload intl options tx =
     (let merchant = label intl (Some (ts_merchant tx)) ''Transaction'';
          category = label intl (Some (ts_category tx)) ''Uncategorised''
      in bind_result (shown_amount intl options (ts_amount tx) True) (\<lambda>amount.
       let occurredAt = formatShareDate intl (Date_text (ts_occurredAt tx)) (so_locale options) (so_timeZone options);
           status = humanize intl (Some (ts_status tx)) ''Status unavailable'';
           creator = map_option (\<lambda>(name, former). label intl
             (Some (name @ (if former then u16 '' (Former member)'' else []))) '''') (ts_creator tx);
           createdAt = (case ts_createdAt tx of
               Some (c # cs) \<Rightarrow> formatShareDate intl (Date_text (c # cs)) (so_locale options) (so_timeZone options)
             | _ \<Rightarrow> None);
           action = u16 (if ts_credit tx then ''Received'' else ''Spent'');
           from_at = u16 (if ts_credit tx then '' from '' else '' at '');
           merchantPhrase = (if so_concealAmounts options
             then (if merchant = u16 ''Transaction'' then action @ u16 '' amount hidden by privacy mode''
                   else action @ from_at @ merchant @ middle_dot @ u16 ''Amount hidden by privacy mode'')
             else (let shown = (case amount of Some a \<Rightarrow> a | None \<Rightarrow> u16 ''null'')
                   in if merchant = u16 ''Transaction'' then action @ u16 '' '' @ shown
                      else action @ u16 '' '' @ shown @ from_at @ merchant))
       in Inr (createPayload intl (u16 (if ts_credit tx then ''Money received'' else ''Transaction snapshot''))
            [Some merchantPhrase,
             Some (join16 middle_dot (present
               [Some category, occurredAt, Some status,
                if truthy_text creator then map_option (\<lambda>c. u16 ''Created by '' @ c) creator else None,
                if truthy_text createdAt then map_option (\<lambda>c. u16 ''Created '' @ c) createdAt else None]))]
            options)))"

record invite_share =
  is_workspaceName :: utf16
  is_workspaceType :: "utf16 option"
  is_inviterDisplayName :: "utf16 option"
  is_roleLabel :: "utf16 option"
  is_expiresAt :: "date_input option"

text \<open>A date is given unless it is the empty string.\<close>

definition given_date :: "date_input option \<Rightarrow> bool" where
  "given_date d = (case d of None \<Rightarrow> False | Some (Date_text []) \<Rightarrow> False | _ \<Rightarrow> True)"

definition optional_date :: "share_intl \<Rightarrow> share_options \<Rightarrow> date_input option \<Rightarrow> utf16 option" where
  "optional_date intl options d = (if given_date d
     then formatShareDate intl (the d) (so_locale options) (so_timeZone options) else None)"

definition buildWorkspaceInviteSharePayload ::
  "share_intl \<Rightarrow> share_options \<Rightarrow> invite_share \<Rightarrow> js_error + share_payload" where
  "buildWorkspaceInviteSharePayload intl options invitation =
     (let workspaceName = label intl (Some (is_workspaceName invitation)) ''your workspace'';
          inviter = label intl (is_inviterDisplayName invitation) '''';
          role = label intl (is_roleLabel invitation) '''';
          expiresAt = optional_date intl options (is_expiresAt invitation);
          workspaceKind = (if truthy_text (is_workspaceType invitation)
            then humanize intl (is_workspaceType invitation) ''Shared'' @ u16 '' workspace'' else u16 ''Shared workspace'')
      in Inr (createPayload intl (u16 ''Invitation to '' @ workspaceName)
           [Some (if inviter \<noteq> [] then inviter @ u16 '' invited you to join '' @ workspaceName @ u16 ''.''
                  else u16 ''You're invited to join '' @ workspaceName @ u16 ''.''),
            Some (join16 middle_dot (present
              [Some workspaceKind, if role \<noteq> [] then Some (u16 ''Role: '' @ role) else None])),
            if truthy_text expiresAt then map_option (\<lambda>e. u16 ''Invitation expires '' @ e @ u16 ''.'') expiresAt else None,
            Some (u16 (if truthy_text (so_safePublicUrl options) then ''Open the secure invitation link to continue.''
                       else ''Open Ledgerly to continue.''))]
           options))"

record bill_share =
  bs_name :: utf16
  bs_dueDate :: string
  bs_amount :: money
  bs_autopay :: bool

definition buildBillReminderSharePayload ::
  "share_intl \<Rightarrow> share_options \<Rightarrow> bill_share \<Rightarrow> js_error + share_payload" where
  "buildBillReminderSharePayload intl options bill =
     (let name = label intl (Some (bs_name bill)) ''Upcoming bill'';
          dueDate = formatShareDate intl (Date_text (bs_dueDate bill)) (so_locale options) (so_timeZone options)
      in bind_result (shown_amount intl options (bs_amount bill) True) (\<lambda>amount.
        Inr (createPayload intl (u16 ''Bill reminder'')
          [Some (join16 middle_dot [name, case amount of Some a \<Rightarrow> a | None \<Rightarrow> u16 ''Amount hidden by privacy mode'']),
           Some (join16 middle_dot
             [if truthy_text dueDate then u16 ''Due '' @ the dueDate else u16 ''Due date unavailable'',
              u16 (if bs_autopay bill then ''Autopay on'' else ''Manual payment'')])]
          options)))"

record claim_share =
  cs_purpose :: utf16
  cs_amount :: money
  cs_claimantDisplayName :: "utf16 option"
  cs_status :: "utf16 option"
  cs_submittedAt :: "date_input option"

definition buildExpenseClaimSharePayload ::
  "share_intl \<Rightarrow> share_options \<Rightarrow> claim_share \<Rightarrow> js_error + share_payload" where
  "buildExpenseClaimSharePayload intl options claim =
     (let purpose = cleanShareLabel (si_nfc intl) (Some (cs_purpose claim)) DETAIL_LIMIT (u16 ''Expense claim'');
          claimant = label intl (cs_claimantDisplayName claim) '''';
          status = (if truthy_text (cs_status claim) then humanize intl (cs_status claim) ''Status unavailable'' else []);
          submittedAt = optional_date intl options (cs_submittedAt claim)
      in bind_result (shown_amount intl options (cs_amount claim) True) (\<lambda>amount.
        Inr (createPayload intl (u16 ''Expense claim'')
          [Some (join16 middle_dot [purpose, case amount of Some a \<Rightarrow> a | None \<Rightarrow> u16 ''Amount hidden by privacy mode'']),
           Some (join16 middle_dot (present
             [if claimant \<noteq> [] then Some (u16 ''Submitted by '' @ claimant) else None, Some status, submittedAt]))]
          options)))"

record summary_share =
  ms_period :: month_period
  ms_income :: money
  ms_spending :: money
  ms_net :: "money option"
  ms_workspaceName :: "utf16 option"
  ms_topCategory :: "(utf16 \<times> money) option"

definition minus_amount :: "jsnum \<Rightarrow> jsnum \<Rightarrow> jsnum" where
  "minus_amount a b = (case (a, b) of (Fin x, Fin y) \<Rightarrow> Fin (fl64 (x - y)) | _ \<Rightarrow> js_sub a b)"

definition computed_net :: "summary_share \<Rightarrow> money option" where
  "computed_net summary = (case ms_net summary of
       Some m \<Rightarrow> Some m
     | None \<Rightarrow> if sameCurrency (ms_income summary) (ms_spending summary)
               then Some \<lparr>amountMinor = minus_amount (amountMinor (ms_income summary)) (amountMinor (ms_spending summary)),
                          currency = currency (ms_income summary)\<rparr>
               else None)"

definition amount_line ::
  "share_intl \<Rightarrow> share_options \<Rightarrow> utf16 \<Rightarrow> money option \<Rightarrow> bool \<Rightarrow> js_error + utf16 option" where
  "amount_line intl options words m absolute = (case m of
       None \<Rightarrow> Inr None
     | Some x \<Rightarrow> bind_result (shown_amount intl options x absolute) (\<lambda>a. Inr (map_option (\<lambda>t. words @ t) a)))"

definition buildMonthlySummarySharePayload ::
  "share_intl \<Rightarrow> share_options \<Rightarrow> summary_share \<Rightarrow> js_error + share_payload" where
  "buildMonthlySummarySharePayload intl options summary =
     bind_result (formatShareMonth intl (ms_period summary) (so_locale options)) (\<lambda>month.
       let workspaceName = label intl (ms_workspaceName summary) '''';
           computedNet = computed_net summary;
           category = (case ms_topCategory summary of
               Some (name, m) \<Rightarrow> label intl (Some name) ''Top category'' | None \<Rightarrow> [])
       in bind_result (amount_line intl options (u16 ''Income '') (Some (ms_income summary)) True) (\<lambda>income.
          bind_result (amount_line intl options (u16 ''Spending '') (Some (ms_spending summary)) True) (\<lambda>spending.
          bind_result (amount_line intl options (u16 ''Net cash flow '') computedNet False) (\<lambda>net.
          bind_result (amount_line intl options (u16 ''Top category '' @ category @ middle_dot)
                         (map_option snd (ms_topCategory summary)) True) (\<lambda>top.
          Inr (createPayload intl (month @ u16 '' money summary'')
            [Some workspaceName,
             (if so_concealAmounts options then Some (u16 ''Amounts hidden by privacy mode'') else income),
             spending, net, top]
            options))))))"

text \<open>One request of any kind.\<close>

datatype share_request =
    Share_text utf16 utf16
  | Share_transaction transaction_share
  | Share_invite invite_share
  | Share_bill bill_share
  | Share_claim claim_share
  | Share_summary summary_share

fun build_payload :: "share_intl \<Rightarrow> share_options \<Rightarrow> share_request \<Rightarrow> js_error + share_payload" where
  "build_payload intl options (Share_text title text) = Inr (buildSafeTextSharePayload intl title text)"
| "build_payload intl options (Share_transaction tx) = buildTransactionSharePayload intl options tx"
| "build_payload intl options (Share_invite i) = buildWorkspaceInviteSharePayload intl options i"
| "build_payload intl options (Share_bill b) = buildBillReminderSharePayload intl options b"
| "build_payload intl options (Share_claim c) = buildExpenseClaimSharePayload intl options c"
| "build_payload intl options (Share_summary m) = buildMonthlySummarySharePayload intl options m"

section \<open>Facts\<close>

lemma createPayload_bounds:
  assumes "\<And>s. well_formed s \<Longrightarrow> well_formed (si_nfc intl s)"
  shows "clean_text (pay_title (createPayload intl title lines options))"
    "unicodeLength (pay_title (createPayload intl title lines options)) \<le> 96"
    "well_formed (pay_text (createPayload intl title lines options))"
    "unicodeLength (pay_text (createPayload intl title lines options)) \<le> 1400"
    "pay_url (createPayload intl title lines options) \<in> {None, so_safePublicUrl options}"
proof -
  have "clean_text (u16 ''Money update'')" by (rule printable_clean) (simp add: printable_def code_of_def)
  from clean_label [of "si_nfc intl", OF assms this, of "Some title" TITLE_LIMIT] truncate_length [of _ PAYLOAD_TEXT_LIMIT]
  show "clean_text (pay_title (createPayload intl title lines options))"
    "unicodeLength (pay_title (createPayload intl title lines options)) \<le> 96"
    "well_formed (pay_text (createPayload intl title lines options))"
    "unicodeLength (pay_text (createPayload intl title lines options)) \<le> 1400"
    "pay_url (createPayload intl title lines options) \<in> {None, so_safePublicUrl options}"
    by (simp_all add: createPayload_def TITLE_LIMIT_def PAYLOAD_TEXT_LIMIT_def)
qed

text \<open>Every payload comes from \<open>createPayload\<close>.\<close>

definition built :: "share_intl \<Rightarrow> share_options \<Rightarrow> js_error + share_payload \<Rightarrow> bool" where
  "built intl options r = (case r of Inl e \<Rightarrow> True
     | Inr p \<Rightarrow> \<exists>title lines opts. p = createPayload intl title lines opts \<and> (opts = options \<or> opts = no_options))"

lemma built_bind: "(\<And>x. built intl options (f x)) \<Longrightarrow> built intl options (bind_result r f)"
  by (cases r) (simp_all add: built_def)

lemma built_Inr: "built intl options (Inr (createPayload intl title lines options))"
  "built intl options (Inr (createPayload intl title lines no_options))"
  unfolding built_def by auto

lemma build_payload_built: "built intl options (build_payload intl options r)"
  by (cases r; simp only: build_payload.simps buildSafeTextSharePayload_def buildTransactionSharePayload_def
      buildWorkspaceInviteSharePayload_def buildBillReminderSharePayload_def buildExpenseClaimSharePayload_def
      buildMonthlySummarySharePayload_def Let_def; intro built_bind built_Inr)

text \<open>A request without its amounts.\<close>

definition no_amount :: money where
  "no_amount = \<lparr>amountMinor = Fin 0, currency = ''INR''\<rparr>"

fun blank_amounts :: "share_request \<Rightarrow> share_request" where
  "blank_amounts (Share_transaction tx) = Share_transaction (tx\<lparr>ts_amount := no_amount\<rparr>)"
| "blank_amounts (Share_bill b) = Share_bill (b\<lparr>bs_amount := no_amount\<rparr>)"
| "blank_amounts (Share_claim c) = Share_claim (c\<lparr>cs_amount := no_amount\<rparr>)"
| "blank_amounts (Share_summary m) = Share_summary
     (m\<lparr>ms_income := no_amount, ms_spending := no_amount, ms_net := None, ms_topCategory := None\<rparr>)"
| "blank_amounts r = r"

lemma shown_amount_concealed: "so_concealAmounts options \<Longrightarrow> shown_amount intl options m absolute = Inr None"
  by (simp add: shown_amount_def)

lemma amount_line_concealed: "so_concealAmounts options \<Longrightarrow> amount_line intl options words m absolute = Inr None"
  by (cases m) (simp_all add: amount_line_def shown_amount_concealed)

section \<open>Properties\<close>

text \<open>C23. Privacy mode leaks no amount: with concealed amounts, what is shared of a transaction, a bill, a
  claim or a monthly summary, and whether sharing fails, is the same as for the same record with every
  amount, its currency, the net and the top category blanked out.\<close>

theorem concealed_amounts_do_not_matter:
  assumes "so_concealAmounts options"
  shows "build_payload intl options r = build_payload intl options (blank_amounts r)"
proof (cases r)
  case (Share_transaction tx)
  then show ?thesis
    by (cases tx) (simp only: build_payload.simps blank_amounts.simps buildTransactionSharePayload_def
        shown_amount_concealed [OF assms] Let_def transaction_share.update_convs transaction_share.select_convs)
next
  case (Share_bill b)
  then show ?thesis
    by (cases b) (simp only: build_payload.simps blank_amounts.simps buildBillReminderSharePayload_def
        shown_amount_concealed [OF assms] Let_def bill_share.update_convs bill_share.select_convs)
next
  case (Share_claim c)
  then show ?thesis
    by (cases c) (simp only: build_payload.simps blank_amounts.simps buildExpenseClaimSharePayload_def
        shown_amount_concealed [OF assms] Let_def claim_share.update_convs claim_share.select_convs)
next
  case (Share_summary m)
  then show ?thesis
    by (cases m) (simp only: build_payload.simps blank_amounts.simps buildMonthlySummarySharePayload_def
        amount_line_concealed [OF assms] Let_def summary_share.update_convs summary_share.select_convs)
qed simp_all

text \<open>Every payload is bounded and well-formed: whatever record is shared, the title is a clean
  one-line text of at most 96 code points, the text has at most 1400 code points and is never malformed,
  and the only URL a payload can carry is the validated one of the options, provided normalization keeps
  text well-formed.\<close>

theorem payload_bounded:
  assumes "\<And>s. well_formed s \<Longrightarrow> well_formed (si_nfc intl s)" "build_payload intl options r = Inr p"
  shows "clean_text (pay_title p) \<and> unicodeLength (pay_title p) \<le> 96 \<and> well_formed (pay_text p) \<and>
    unicodeLength (pay_text p) \<le> 1400 \<and> pay_url p \<in> {None, so_safePublicUrl options}"
proof -
  obtain title lines opts where p: "p = createPayload intl title lines opts" "opts = options \<or> opts = no_options"
    using build_payload_built [of intl options r] assms(2) by (auto simp: built_def)
  have u: "so_safePublicUrl no_options = None" by (simp add: no_options_def)
  note b = createPayload_bounds [of intl title lines opts, OF assms(1), folded p(1)]
  have "pay_url p \<in> {None, so_safePublicUrl options}" using b(5) p(2) u by (elim disjE) simp_all
  with b(1-4) show ?thesis by (intro conjI)
qed

definition plain_intl :: share_intl where
  "plain_intl = \<lparr>si_canonical = Some, si_currency = (\<lambda>l c r. u16 c), si_zone = (\<lambda>z. True), si_date = (\<lambda>l z t. u16 l),
     si_month = (\<lambda>l t. u16 l), si_parse = (\<lambda>s. None), si_nfc = id, si_upper = (\<lambda>u. [u])\<rparr>"

definition concealed :: share_options where
  "concealed = no_options\<lparr>so_concealAmounts := True\<rparr>"

theorem concealed_amounts_do_not_matter_witness:
  "build_payload plain_intl concealed (Share_bill \<lparr>bs_name = u16 ''Rent'', bs_dueDate = ''x'',
      bs_amount = \<lparr>amountMinor = NaN, currency = ''??''\<rparr>, bs_autopay = True\<rparr>)
   = build_payload plain_intl concealed (Share_bill \<lparr>bs_name = u16 ''Rent'', bs_dueDate = ''x'',
      bs_amount = \<lparr>amountMinor = Fin 0, currency = ''INR''\<rparr>, bs_autopay = True\<rparr>)"
proof -
  have "so_concealAmounts concealed" by (simp add: concealed_def)
  from concealed_amounts_do_not_matter [OF this, of plain_intl "Share_bill \<lparr>bs_name = u16 ''Rent'', bs_dueDate = ''x'',
      bs_amount = \<lparr>amountMinor = NaN, currency = ''??''\<rparr>, bs_autopay = True\<rparr>"]
  show ?thesis by (simp only: blank_amounts.simps bill_share.update_convs no_amount_def)
qed

theorem payload_bounded_witness:
  "unicodeLength (pay_title (buildSafeTextSharePayload plain_intl [0xD800] [65])) \<le> 96"
  using payload_bounded [of plain_intl no_options "Share_text [0xD800] [65]"
      "buildSafeTextSharePayload plain_intl [0xD800] [65]"]
  by (simp add: plain_intl_def)

end
