(* ===== verification/MoneyInput.thy ===== *)
theory MoneyInput
  imports Binary64 DateOnly
begin

text \<open>
  The input side of the finance forms (pages/finance-writes/shared.ts): the schemas of an amount, a
  currency and a day, the errors they put under the fields, and the conversions of an accepted
  value. A schema is a function of the text typed that gives the messages of its failed checks, or
  the transformed value; its checks run in order and all of them are reported.
\<close>

section \<open>Amounts\<close>

definition MAX_MAJOR_AMOUNT :: rat where
  "MAX_MAJOR_AMOUNT = 90000000000000"

text \<open>\<open>Number(s)\<close> with its rounding. A numeral too large for the format is left finite here; the
  range check refuses it as it refuses infinity.\<close>

definition number_value :: "string \<Rightarrow> jsnum" where
  "number_value s = (case parse_number s of Fin r \<Rightarrow> Fin (fl64 r) | x \<Rightarrow> x)"

definition unsigned_money :: "string \<Rightarrow> bool" where
  "unsigned_money u = (let ip = takeWhile is_digit u; r = dropWhile is_digit u in
     ip \<noteq> [] \<and> (r = [] \<or>
       (hd r = CHR ''.'' \<and> all_digits (tl r) \<and> (length (tl r) = 1 \<or> length (tl r) = 2))))"

definition strip_sign :: "string \<Rightarrow> bool \<times> string" where
  "strip_sign s = (case s of c # cs \<Rightarrow> if c = CHR ''-'' then (True, cs) else (False, s) | [] \<Rightarrow> (False, []))"

definition MONEY_PATTERN :: "string \<Rightarrow> bool" where
  "MONEY_PATTERN s = unsigned_money (snd (strip_sign s))"

definition amount_in_range :: "bool \<Rightarrow> bool \<Rightarrow> jsnum \<Rightarrow> bool" where
  "amount_in_range allowNegative allowZero amount = (case amount of
       Fin a \<Rightarrow> if \<bar>a\<bar> > MAX_MAJOR_AMOUNT then False
                else if \<not> allowNegative \<and> a < 0 then False
                else if \<not> allowZero \<and> a = 0 then False
                else True
     | _ \<Rightarrow> False)"

definition moneyInputSchema :: "bool \<Rightarrow> bool \<Rightarrow> string \<Rightarrow> string list + jsnum" where
  "moneyInputSchema allowNegative allowZero input =
     (let value = js_trim input;
          issues = (if length value < 1 then [''Enter an amount''] else [])
            @ (if MONEY_PATTERN value then [] else [''Use a number with no more than two decimal places''])
            @ (if amount_in_range allowNegative allowZero (number_value value) then []
               else [if allowZero then ''Enter a supported amount'' else ''Enter an amount above zero''])
      in if issues = [] then Inr (number_value value) else Inl issues)"

text \<open>The number of hundredths of an accepted amount.\<close>

definition toMinor :: "rat \<Rightarrow> int" where
  "toMinor amount = math_round (fl64 (amount * 100))"

section \<open>Currencies and days\<close>

definition currencySchema :: "string \<Rightarrow> string list + string" where
  "currencySchema input = (let value = js_upper (js_trim input) in
     if length value = 3 \<and> list_all is_upper_az value then Inr value
     else Inl [''Use a three-letter currency code''])"

text \<open>\<open>new Date(value + 'T00:00:00.000Z')\<close> for a value of the form YYYY-MM-DD. The language asks for a
  date of the calendar; \<open>roll\<close> is what an engine may do instead with the days 29 to 31 that a month
  does not have: carry them into the next month.\<close>

definition iso_midnight :: "bool \<Rightarrow> string \<Rightarrow> date" where
  "iso_midnight roll value =
     (let y = year_part value; m = month_part value; d = day_part value in
      if 1 \<le> m \<and> m \<le> 12 \<and> 1 \<le> d \<and> d \<le> (if roll then 31 else days_in_month (leap_days y) (m - 1))
      then time_clip (ms_per_day * make_day y (m - 1) d) else None)"

definition iso_year :: "int \<Rightarrow> string" where
  "iso_year y = (if 0 \<le> y \<and> y \<le> 9999 then pad_start 4 (CHR ''0'') (int_string y)
     else (if y < 0 then CHR ''-'' else CHR ''+'') # pad_start 6 (CHR ''0'') (nat_digits (nat \<bar>y\<bar>)))"

text \<open>\<open>date.toISOString().slice(0, 10)\<close> for a valid time.\<close>

definition iso_slice :: "int \<Rightarrow> string" where
  "iso_slice t = (let d = day_of_time t in
     take 10 (iso_year (year_of_day d) @ ''-'' @ pad (Some (month_of_day d + 1)) @ ''-''
       @ pad (Some (date_of_day d)) @ ''T00:00:00.000Z''))"

definition dateInputSchema :: "bool \<Rightarrow> string \<Rightarrow> string list + string" where
  "dateInputSchema roll input = (let value = js_trim input in
     if (if \<not> match_date_only value then False
         else (case iso_midnight roll value of None \<Rightarrow> False | Some t \<Rightarrow> iso_slice t = value))
     then Inr value else Inl [''Choose a valid date''])"

definition toInputDate :: "date \<Rightarrow> string" where
  "toInputDate date =
     (let year = field_string (utc_year date);
          month = pad_start 2 (CHR ''0'') (field_string (map_option (\<lambda>m. m + 1) (utc_month date)));
          day = pad_start 2 (CHR ''0'') (field_string (utc_date date))
      in year @ ''-'' @ month @ ''-'' @ day)"

text \<open>The month of the time \<open>now\<close>, from its first to its last day.\<close>

definition currentMonthRange :: "int \<Rightarrow> string \<times> string" where
  "currentMonthRange now =
     (let y = year_of_day (day_of_time now); m = month_of_day (day_of_time now)
      in (toInputDate (date_UTC y m 1), toInputDate (date_UTC y (m + 1) 0)))"

definition toUtcDate :: "string \<Rightarrow> bool \<Rightarrow> string" where
  "toUtcDate value endOfDay = value @ ''T'' @ (if endOfDay then ''23:59:59.999'' else ''00:00:00.000'') @ ''Z''"

definition friendlyFinanceLabel :: "string \<Rightarrow> string" where
  "friendlyFinanceLabel value = (let normalized = replace_char (CHR ''_'') '' '' (js_trim value)
     in if normalized \<noteq> [] then capitalize normalized else ''Custom'')"

section \<open>Errors under the fields\<close>

text \<open>An issue of a schema: the name of the field it is about, if any, and its message.\<close>

type_synonym issue = "string option \<times> string"

definition add_issue :: "(string, string) omap \<Rightarrow> issue \<Rightarrow> (string, string) omap" where
  "add_issue m i = (let field = (case fst i of None \<Rightarrow> ''form'' | Some f \<Rightarrow> f) in
     case om_get m field of
       Some (c # cs) \<Rightarrow> m
     | _ \<Rightarrow> om_set m field (snd i))"

definition toFieldErrors :: "issue list \<Rightarrow> (string, string) omap" where
  "toFieldErrors issues = foldl add_issue [] issues"

text \<open>\<open>Object.fromEntries\<close>: a later entry of a name replaces an earlier one.\<close>

definition mapServerFields ::
  "(string, string) omap \<Rightarrow> (string, string) omap \<Rightarrow> (string, string) omap" where
  "mapServerFields errors aliases =
     foldl (\<lambda>m (field, message). om_set m (case om_get aliases field of None \<Rightarrow> field | Some a \<Rightarrow> a) message)
       [] errors"

definition clearFieldError :: "(string, string) omap \<Rightarrow> string \<Rightarrow> (string, string) omap" where
  "clearFieldError current field = (case om_get current field of
       Some (c # cs) \<Rightarrow> om_delete current field
     | _ \<Rightarrow> current)"

section \<open>The value of an amount\<close>

text \<open>The hundredths that the text of an amount denotes, counted from its digits.\<close>

definition entered_minor :: "string \<Rightarrow> int" where
  "entered_minor v = (let (neg, u) = strip_sign v;
       n = int (100 * digits_value (takeWhile is_digit u)
             + digits_value (pad_end 2 (CHR ''0'') (tl (dropWhile is_digit u))))
     in if neg then - n else n)"

lemma unsigned_money_shape:
  assumes "unsigned_money u"
  obtains ip fs where "ip \<noteq> []" "all_digits ip" "all_digits fs" "length fs \<le> 2"
    "u = ip @ (if fs = [] then [] else CHR ''.'' # fs)"
    "takeWhile is_digit u = ip" "tl (dropWhile is_digit u) = fs"
proof -
  let ?ip = "takeWhile is_digit u" and ?r = "dropWhile is_digit u"
  have ip: "all_digits ?ip" unfolding all_digits_def list_all_iff by (meson set_takeWhileD)
  have u: "u = ?ip @ ?r" by simp
  show thesis
  proof (cases "?r = []")
    case True
    moreover from True u have "u = ?ip" by (metis append_Nil2)
    moreover from assms have "?ip \<noteq> []" by (simp add: unsigned_money_def Let_def)
    moreover have "tl ?r = []" by (simp only: True list.sel)
    ultimately show thesis using ip by (intro that [of ?ip "[]"]) (simp_all add: all_digits_def)
  next
    case False
    then obtain c fs where r: "?r = c # fs" by (cases ?r) simp_all
    with assms have "c = CHR ''.''" "all_digits fs" "length fs = 1 \<or> length fs = 2" "?ip \<noteq> []"
      by (simp_all add: unsigned_money_def Let_def)
    with u r ip show thesis by (intro that [of ?ip fs]) auto
  qed
qed

lemma dot_not_digit: "\<not> is_digit (CHR ''.'')"
  by (simp add: is_digit_def code_of_def)

lemma span_digits_money:
  assumes "all_digits ip" "r = [] \<or> \<not> is_digit (hd r)"
  shows "takeWhile is_digit (ip @ r) = ip" "dropWhile is_digit (ip @ r) = r"
  using assms by (cases r; simp add: all_digits_def list_all_iff takeWhile_append2 dropWhile_append2)+

lemma span_digits_all: "all_digits s \<Longrightarrow> takeWhile is_digit s = s" "all_digits s \<Longrightarrow> dropWhile is_digit s = []"
  by (simp_all add: all_digits_def list_all_iff)

lemma parse_unsigned_money:
  assumes "unsigned_money u"
  shows "parse_unsigned u = Some (of_nat (100 * digits_value (takeWhile is_digit u)
     + digits_value (pad_end 2 (CHR ''0'') (tl (dropWhile is_digit u)))) / 100)"
proof -
  from assms obtain ip fs where s: "ip \<noteq> []" "all_digits ip" "all_digits fs" "length fs \<le> 2"
    "u = ip @ (if fs = [] then [] else CHR ''.'' # fs)"
    and p: "takeWhile is_digit u = ip" "tl (dropWhile is_digit u) = fs"
    by (rule unsigned_money_shape)
  have a: "parse_unsigned u = Some (of_nat (digits_value (ip @ fs)) / 10 ^ length fs)"
    using s(1-3,5) span_digits_money [of ip "CHR ''.'' # fs"] dot_not_digit
    by (cases "fs = []") (simp_all add: parse_unsigned_def span_digits_def span_digits_all)
  consider "fs = []" | d where "fs = [d]" | d e where "fs = [d, e]"
    using s(4) by (cases fs; cases "tl fs"; cases "tl (tl fs)") auto
  then show ?thesis
    unfolding a p
    by cases (simp_all add: pad_end_def numeral_2_eq_2 digits_value_append digits_value_def digit_value_def code_of_def field_simps)
qed

lemma not_radix:
  assumes "unsigned_money s" "c \<noteq> CHR ''.''" "\<not> is_digit c"
  shows "\<not> starts_with s [CHR ''0'', c]"
proof
  assume "starts_with s [CHR ''0'', c]"
  then obtain t where "s = CHR ''0'' # c # t" by (auto simp: starts_with_def prefix_def)
  moreover have "is_digit (CHR ''0'')" by (simp add: is_digit_def code_of_def)
  ultimately show False using assms by (simp add: unsigned_money_def Let_def)
qed

lemma not_radix_neg: "\<not> starts_with (CHR ''-'' # u) (CHR ''0'' # t)"
  by (simp add: starts_with_def)

lemma unsigned_money_head:
  assumes "unsigned_money u"
  shows "u \<noteq> []" "is_digit (hd u)" "u \<noteq> ''Infinity''"
proof -
  from assms show n: "u \<noteq> []" and h: "is_digit (hd u)"
    by (cases u; simp add: unsigned_money_def split: if_splits)+
  show "u \<noteq> ''Infinity''"
  proof
    assume "u = ''Infinity''"
    with h show False by (simp add: is_digit_def code_of_def)
  qed
qed

lemma parse_number_money:
  assumes "MONEY_PATTERN v" "js_trim v = v"
  shows "parse_number v = Fin (of_int (entered_minor v) / 100)"
proof (cases "fst (strip_sign v)")
  case True
  then obtain u where v: "v = CHR ''-'' # u" by (auto simp: strip_sign_def split: list.splits if_splits)
  then have u: "unsigned_money u" using assms(1) by (simp add: MONEY_PATTERN_def strip_sign_def)
  define n where "n = 100 * digits_value (takeWhile is_digit u)
     + digits_value (pad_end 2 (CHR ''0'') (tl (dropWhile is_digit u)))"
  note p = parse_unsigned_money [OF u, folded n_def] and h = unsigned_money_head [OF u]
  have "entered_minor v = - int n" unfolding entered_minor_def v strip_sign_def by (simp add: n_def)
  then show ?thesis
    using assms(2) h by (simp add: v parse_number_def not_radix_neg p num_of_def js_neg_def)
next
  case False
  then have v: "strip_sign v = (False, v)" by (auto simp: strip_sign_def split: list.splits if_splits)
  then have u: "unsigned_money v" using assms(1) by (simp add: MONEY_PATTERN_def)
  define n where "n = 100 * digits_value (takeWhile is_digit v)
     + digits_value (pad_end 2 (CHR ''0'') (tl (dropWhile is_digit v)))"
  note p = parse_unsigned_money [OF u, folded n_def] and h = unsigned_money_head [OF u]
  have e: "entered_minor v = int n" unfolding entered_minor_def v by (simp add: n_def)
  have nr: "\<not> starts_with v ''0x''" "\<not> starts_with v ''0X''" "\<not> starts_with v ''0o''" "\<not> starts_with v ''0O''"
    "\<not> starts_with v ''0b''" "\<not> starts_with v ''0B''"
    by (rule not_radix [OF u]; simp add: is_digit_def code_of_def)+
  obtain c cs where c: "v = c # cs" using h(1) by (cases v) simp_all
  have "c \<noteq> CHR ''-''" "c \<noteq> CHR ''+''" using h(2) c by (auto simp: is_digit_def code_of_def)
  then have "(case v of [] \<Rightarrow> (False, []) | a # cs \<Rightarrow> if a = CHR ''-'' then (True, cs)
     else if a = CHR ''+'' then (False, cs) else (False, v)) = (False, v)"
    by (simp add: c)
  then show ?thesis
    using assms(2) h(1,3) nr by (simp add: parse_number_def p num_of_def e Let_def)
qed

lemma math_round_close: "\<bar>x - of_int n\<bar> < 1 / 2 \<Longrightarrow> math_round x = n"
  unfolding math_round_def by (rule floor_unique) linarith+

lemma toMinor_rounds_back:
  assumes "\<bar>n\<bar> \<le> 2 ^ 50"
  shows "toMinor (fl64 (of_int n / 100)) = n"
proof -
  let ?v = "of_int n / 100 :: rat"
  have v: "?v = 0 \<or> 1 / 100 \<le> \<bar>?v\<bar>"
    by (cases "n = 0") (simp_all add: abs_divide divide_right_mono flip: of_int_abs)
  have "\<bar>fl64 (fl64 ?v * 100) - ?v * 100\<bar> \<le> \<bar>?v * 100\<bar> * (3 / 2 ^ 53)"
    by (rule binary64.hundredfold_error [OF v])
  moreover have "\<bar>?v * 100\<bar> \<le> 2 ^ 50"
    using assms by (simp flip: of_int_abs)
  ultimately have "\<bar>fl64 (fl64 ?v * 100) - of_int n\<bar> < 1 / 2" by simp
  then show ?thesis unfolding toMinor_def by (rule math_round_close)
qed

lemma fl_pos_eval:
  assumes "2 ^ i \<le> x" "x < 2 ^ Suc i" "\<bar>x / (2 ^ i / 2 ^ 52) - of_int n\<bar> < 1 / 2"
  shows "fl_pos x = of_int n * (2 ^ i / 2 ^ 52)"
proof -
  have "round_even r = n" if "\<bar>r - of_int n\<bar> < 1 / 2" for r
  proof (cases "of_int n \<le> r")
    case True
    with that have f: "\<lfloor>r\<rfloor> = n" by (intro floor_unique) linarith+
    with that have "r - of_int \<lfloor>r\<rfloor> < 1 / 2" by linarith
    with f show ?thesis by (simp add: round_even_def Let_def)
  next
    case False
    with that have f: "\<lfloor>r\<rfloor> = n - 1" by (intro floor_unique) simp_all
    have "1 / 2 < r - of_int \<lfloor>r\<rfloor>" unfolding f of_int_diff of_int_1 using that by linarith
    with f show ?thesis by (simp add: round_even_def Let_def)
  qed
  with assms(3) show ?thesis by (simp add: fl_pos_def ulp_between [OF assms(1,2)])
qed

text \<open>What an accepted amount is.\<close>

lemma moneyInputSchema_Inr:
  assumes "moneyInputSchema neg zero s = Inr v"
  shows "MONEY_PATTERN (js_trim s)" "v = Fin (fl64 (of_int (entered_minor (js_trim s)) / 100))"
    "amount_in_range neg zero v"
proof -
  let ?t = "js_trim s"
  have *: "MONEY_PATTERN ?t" "v = number_value ?t" "amount_in_range neg zero (number_value ?t)"
    using assms by (simp_all add: moneyInputSchema_def Let_def split: if_splits)
  then show "MONEY_PATTERN ?t" "amount_in_range neg zero v" by simp_all
  show "v = Fin (fl64 (of_int (entered_minor ?t) / 100))"
    using * parse_number_money [of ?t] by (simp add: number_value_def)
qed

section \<open>Properties\<close>

text \<open>C25. An amount is stored as typed: if the form accepts the text of an amount of up to 2^50
  hundredths (eleven million million), negative amounts and missing digits included, then the
  number of hundredths sent to the server is the decimal value of the text, although both the
  numeral and its product by 100 are rounded to 53 bits.\<close>

theorem entered_amount_exact:
  assumes "moneyInputSchema allowNegative allowZero s = Inr (Fin v)"
    and "\<bar>entered_minor (js_trim s)\<bar> \<le> 2 ^ 50"
  shows "toMinor v = entered_minor (js_trim s)"
  using moneyInputSchema_Inr(2) [OF assms(1)] toMinor_rounds_back [OF assms(2)] by simp

theorem entered_amount_exact_witness:
  "toMinor (fl64 (of_int (- 1050) / 100)) = - 1050"
proof -
  have e: "js_trim '' -10.5 '' = ''-10.5''" "entered_minor ''-10.5'' = - 1050" "MONEY_PATTERN ''-10.5''"
    by (simp_all add: js_trim_def trim_start_def trim_end_def is_space_def entered_minor_def strip_sign_def
        MONEY_PATTERN_def unsigned_money_def pad_end_def string_eval numeral_2_eq_2)
  have "number_value ''-10.5'' = Fin (fl64 (of_int (- 1050) / 100))"
    using parse_number_money [of "''-10.5''"] e js_trim_idem [of "'' -10.5 ''"] by (simp add: number_value_def)
  moreover have "fl64 (of_int (- 1050) / 100) = - 21 / 2"
    using fl_pos_eval [of 3 "21 / 2" "5910974510923776"] by (simp add: fl64_def)
  ultimately have "moneyInputSchema True False '' -10.5 '' = Inr (Fin (fl64 (of_int (- 1050) / 100)))"
    using e by (simp add: moneyInputSchema_def Let_def amount_in_range_def MAX_MAJOR_AMOUNT_def)
  from entered_amount_exact [OF this] e show ?thesis by simp
qed

text \<open>Beyond that the hundredths can be off by one: the form accepts 70368744177664.01, an amount
  below its maximum, and sends one hundredth more than typed.\<close>

theorem large_amount_off_by_one:
  "moneyInputSchema False False ''70368744177664.01'' = Inr (Fin (70368744177664 + 1 / 64)) \<and>
   toMinor (70368744177664 + 1 / 64) = entered_minor ''70368744177664.01'' + 1"
proof
  let ?s = "''70368744177664.01''"
  have e: "js_trim ?s = ?s" "entered_minor ?s = 7036874417766401" "MONEY_PATTERN ?s"
    by (simp_all add: js_trim_def trim_start_def trim_end_def is_space_def entered_minor_def strip_sign_def
        MONEY_PATTERN_def unsigned_money_def pad_end_def string_eval numeral_2_eq_2)
  have "fl64 (7036874417766401 / 100) = 70368744177664 + 1 / 64"
    using fl_pos_eval [of 46 "7036874417766401 / 100" "4503599627370497"] by (simp add: fl64_def)
  then show "moneyInputSchema False False ?s = Inr (Fin (70368744177664 + 1 / 64))"
    using parse_number_money [of ?s] e
    by (simp add: moneyInputSchema_def Let_def amount_in_range_def MAX_MAJOR_AMOUNT_def number_value_def)
  have "fl64 ((70368744177664 + 1 / 64) * 100) = 7036874417766402"
    using fl_pos_eval [of 52 "(70368744177664 + 1 / 64) * 100" "7036874417766402"] by (simp add: fl64_def)
  then show "toMinor (70368744177664 + 1 / 64) = entered_minor ?s + 1"
    unfolding e toMinor_def by (simp add: math_round_close)
qed

section \<open>The day of a form\<close>

lemma year_pad4:
  assumes "0 \<le> y" "y \<le> 9999"
  shows "length (iso_year y) = 4" "all_digits (iso_year y)" "digits_value (iso_year y) = nat y"
proof -
  have "length (nat_digits (nat y)) \<le> Suc 3"
    by (rule nat_digits_length_le) (use assms in simp)
  then show "length (iso_year y) = 4" "all_digits (iso_year y)" "digits_value (iso_year y) = nat y"
    using assms by (simp_all add: iso_year_def int_string_def pad_start_length)
qed

lemma field_split:
  assumes "match_date_only s"
  shows "s = take 4 s @ CHR ''-'' # take 2 (drop 5 s) @ CHR ''-'' # drop 8 s"
proof -
  have h: "s ! 4 = CHR ''-''" "s ! 7 = CHR ''-''" and len: "length s = 10"
    using assms by (simp_all add: match_date_only_def)
  have "drop 7 s = s ! 7 # drop 8 s" "drop 4 s = s ! 4 # drop 5 s"
    using Cons_nth_drop_Suc [of 7 s] Cons_nth_drop_Suc [of 4 s] len by simp_all
  moreover have "drop 5 s = take 2 (drop 5 s) @ drop 7 s"
    using append_take_drop_id [of 2 "drop 5 s"] by simp
  moreover have "s = take 4 s @ drop 4 s" by simp
  ultimately show ?thesis using h by metis
qed

lemma iso_slice_valid:
  assumes "match_date_only s" "valid_civil (year_part s) (month_part s) (day_part s)"
  shows "iso_slice (ms_per_day * make_day (year_part s) (month_part s - 1) (day_part s)) = s"
proof -
  let ?y = "year_part s" and ?m = "month_part s" and ?d = "day_part s"
  note r = match_parts_range [OF assms(1)]
  have c: "year_of_day (make_day ?y (?m - 1) ?d) = ?y" "month_of_day (make_day ?y (?m - 1) ?d) = ?m - 1"
    "date_of_day (make_day ?y (?m - 1) ?d) = ?d"
    using assms(2) by (auto simp: valid_civil_def intro!: civil_make_day)
  have l: "length (take 4 s) = 4" "length (take 2 (drop 5 s)) = 2" "length (drop 8 s) = 2"
    and a: "all_digits (take 4 s)" "all_digits (take 2 (drop 5 s))" "all_digits (drop 8 s)"
    using assms(1) by (simp_all add: match_date_only_def)
  have "take 4 s = iso_year ?y" "take 2 (drop 5 s) = pad (Some ?m)" "drop 8 s = pad (Some ?d)"
    using year_pad4 [OF r(1,2)] pad2 [of ?m] pad2 [of ?d] r l a
    by (auto intro!: digits_value_inj simp: year_part_def month_part_def day_part_def)
  with field_split [OF assms(1)] have s: "iso_year ?y @ ''-'' @ pad (Some ?m) @ ''-'' @ pad (Some ?d) = s" by simp
  have "iso_slice (ms_per_day * make_day ?y (?m - 1) ?d)
      = take 10 ((iso_year ?y @ ''-'' @ pad (Some ?m) @ ''-'' @ pad (Some ?d)) @ ''T00:00:00.000Z'')"
    by (simp only: iso_slice_def Let_def day_of_time_mult c diff_add_cancel append_assoc)
  then show ?thesis unfolding s using assms(1) by (simp add: match_date_only_def)
qed

lemma iso_midnight_valid:
  assumes "match_date_only s" "valid_civil (year_part s) (month_part s) (day_part s)"
  shows "iso_midnight roll s = Some (ms_per_day * make_day (year_part s) (month_part s - 1) (day_part s))"
proof -
  note r = match_parts_range [OF assms(1)]
  have "days_in_month (leap_days (year_part s)) (month_part s - 1) \<le> 31"
    using leap_days_cases [of "year_part s"] by (auto simp: days_in_month_def)
  moreover have "time_clip (ms_per_day * make_day (year_part s) (month_part s - 1) (day_part s))
      = Some (ms_per_day * make_day (year_part s) (month_part s - 1) (day_part s))"
    by (rule time_clip_day [OF make_day_small]) (use r in simp_all)
  ultimately show ?thesis
    using assms(2) by (auto simp: iso_midnight_def valid_civil_def Let_def)
qed

text \<open>A day that its month does not have is carried into the first days of the next one.\<close>

lemma carried_day:
  assumes "1 \<le> m" "m \<le> 12" "days_in_month (leap_days y) (m - 1) < d" "d \<le> 31"
  shows "date_of_day (make_day y (m - 1) d) = d - days_in_month (leap_days y) (m - 1) \<and>
    year_of_day (make_day y (m - 1) d) = y"
proof -
  have m: "m \<noteq> 12" using assms by (auto simp: days_in_month_def)
  have "make_day y (m - 1) d = make_day y m (d - days_in_month (leap_days y) (m - 1))"
    using assms m leap_days_cases [of y]
    by (auto simp: make_day_def days_before_def days_in_month_def Let_def)
  moreover have "d - days_in_month (leap_days y) (m - 1) \<le> days_in_month (leap_days y) m"
    using assms leap_days_cases [of y] by (auto simp: days_in_month_def)
  ultimately show ?thesis
    using civil_make_day [of m "d - days_in_month (leap_days y) (m - 1)" y] assms m by simp
qed

lemma iso_slice_day:
  assumes "0 \<le> year_of_day n" "year_of_day n \<le> 9999" "iso_slice (ms_per_day * n) = s"
  shows "day_part s = date_of_day n"
proof -
  have m: "0 \<le> month_of_day n" "month_of_day n < 12" "1 \<le> date_of_day n" "date_of_day n \<le> 31"
    using civil_of_day [of n] leap_days_cases [of "year_of_day n"] by (auto simp: days_in_month_def split: if_splits)
  have s: "s = iso_year (year_of_day n) @ ''-'' @ pad (Some (month_of_day n + 1)) @ ''-'' @ pad (Some (date_of_day n))"
    using year_pad4 [OF assms(1,2)] pad2 [of "month_of_day n + 1"] pad2 [of "date_of_day n"] m assms(3)
    by (simp add: iso_slice_def)
  have "drop 8 s = pad (Some (date_of_day n))"
    using year_pad4 [OF assms(1,2)] pad2 [of "month_of_day n + 1"] m by (simp add: s)
  with pad2 [of "date_of_day n"] m show ?thesis by (simp add: day_part_def)
qed

text \<open>An engine's date prints as the text it was read from exactly for the days of the calendar.\<close>

lemma iso_midnight_prints:
  assumes w: "match_date_only w"
  shows "(\<exists>t. iso_midnight roll w = Some t \<and> iso_slice t = w) \<longleftrightarrow>
    valid_civil (year_part w) (month_part w) (day_part w)" (is "?l \<longleftrightarrow> ?r")
proof
  assume ?l
  then have c: "1 \<le> month_part w" "month_part w \<le> 12" "1 \<le> day_part w"
    "roll \<Longrightarrow> day_part w \<le> 31"
    "\<not> roll \<Longrightarrow> day_part w \<le> days_in_month (leap_days (year_part w)) (month_part w - 1)"
    and t: "iso_slice (ms_per_day * make_day (year_part w) (month_part w - 1) (day_part w)) = w"
    by (auto simp: iso_midnight_def Let_def time_clip_def split: if_splits)
  show ?r
  proof (rule ccontr)
    assume "\<not> ?r"
    with c have "days_in_month (leap_days (year_part w)) (month_part w - 1) < day_part w" "day_part w \<le> 31"
      by (auto simp: valid_civil_def)
    note k = carried_day [OF c(1,2) this]
    with iso_slice_day [OF _ _ t] match_parts_range [OF w]
    have "days_in_month (leap_days (year_part w)) (month_part w - 1) = 0" by simp
    then show False using leap_days_cases [of "year_part w"] by (auto simp: days_in_month_def split: if_splits)
  qed
qed (use w iso_midnight_valid iso_slice_valid in blast)

section \<open>Properties: days\<close>

text \<open>The day field accepts exactly the days of the Gregorian calendar written YYYY-MM-DD, whether or
  not the engine carries days that a month does not have into the next month: the comparison with the
  printed date refuses a carried day.\<close>

theorem dateInputSchema_correct:
  "dateInputSchema roll s = Inr v \<longleftrightarrow>
   v = js_trim s \<and> match_date_only v \<and> valid_civil (year_part v) (month_part v) (day_part v)"
proof -
  note * = iso_midnight_prints [of "js_trim s" roll]
  show ?thesis
  proof (cases "match_date_only (js_trim s)")
    case True
    with * [OF True] show ?thesis
      by (cases "iso_midnight roll (js_trim s)") (auto simp: dateInputSchema_def Let_def)
  qed (auto simp: dateInputSchema_def Let_def)
qed

end
