(* ===== verification/Splits.thy ===== *)
theory Splits
  imports MoneyInput
begin

text \<open>
  Shares of a split transaction (lib/transaction-splits.ts): the drafts of a form, one amount per
  member as text, are turned into hundredths and must add up to the amount of the transaction.
\<close>

section \<open>Shares\<close>

record split_draft =
  draft_memberEmail :: string
  draft_amountMajor :: string

record split_input =
  split_memberEmail :: string
  split_amountMinor :: rat

datatype split_reason = Reason_empty | Reason_invalid | Reason_total

datatype split_validation =
    Split_ok "split_input list" rat
  | Split_failed split_reason "split_input list" rat "(string, string) omap"

text \<open>\<open>a * b\<close> and \<open>a + b\<close> on finite numbers.\<close>

definition times64 :: "rat \<Rightarrow> rat \<Rightarrow> rat" where
  "times64 a b = fl64 (a * b)"

definition plus64 :: "rat \<Rightarrow> rat \<Rightarrow> rat" where
  "plus64 a b = fl64 (a + b)"

definition is_safe_integer :: "rat \<Rightarrow> bool" where
  "is_safe_integer x = (is_whole x \<and> \<bar>x\<bar> \<le> of_int max_safe_integer)"

definition splitShareMinorFromMajor :: "string \<Rightarrow> rat option" where
  "splitShareMinorFromMajor value =
     (let normalized = js_trim value in
      if \<not> unsigned_money normalized then None
      else (let parts = split_on (CHR ''.'') normalized;
                major = hd parts;
                fraction = (case tl parts of [] \<Rightarrow> [] | f # _ \<Rightarrow> f)
            in case (number_value major, number_value (pad_end 2 (CHR ''0'') fraction)) of
                 (Fin a, Fin b) \<Rightarrow>
                   (let amountMinor = plus64 (times64 a 100) b
                    in if is_safe_integer amountMinor \<and> amountMinor > 0 then Some amountMinor else None)
               | _ \<Rightarrow> None))"

text \<open>The loop over the drafts: errors by member, accepted shares, amount allocated so far. The errors are an object, on which the
  assignment to the key \<open>__proto__\<close> does nothing; the dialogs take the keys from the addresses of members, which are never that,
  and the model leaves this key out.\<close>

type_synonym split_progress = "(string, string) omap \<times> split_input list \<times> rat"

definition share_step :: "split_progress \<Rightarrow> split_draft \<Rightarrow> split_progress" where
  "share_step p draft = (case p of (errors, splits, allocated) \<Rightarrow>
     (let memberEmail = js_trim (draft_memberEmail draft)
      in case (memberEmail, splitShareMinorFromMajor (draft_amountMajor draft)) of
           (c # cs, Some amountMinor) \<Rightarrow>
             (errors, splits @ [\<lparr>split_memberEmail = memberEmail, split_amountMinor = amountMinor\<rparr>],
              plus64 allocated amountMinor)
         | _ \<Rightarrow>
             (om_set errors (draft_memberEmail draft)
                ''Enter a positive share with no more than two decimal places.'',
              splits, allocated)))"

definition validateTransactionSplits :: "split_draft list \<Rightarrow> rat \<Rightarrow> split_validation" where
  "validateTransactionSplits drafts transactionAmountMinor =
     (let enteredDrafts = filter (\<lambda>d. js_trim (draft_amountMajor d) \<noteq> []) drafts
      in if length enteredDrafts = 0 then Split_failed Reason_empty [] 0 []
         else (case foldl share_step ([], [], 0) enteredDrafts of (fieldErrors, splits, allocatedMinor) \<Rightarrow>
           if length (om_keys fieldErrors) > 0 then Split_failed Reason_invalid splits allocatedMinor fieldErrors
           else if allocatedMinor \<noteq> transactionAmountMinor
             then Split_failed Reason_total splits allocatedMinor fieldErrors
           else Split_ok splits allocatedMinor))"

section \<open>The value of a share\<close>

lemma all_digits_trim: "all_digits s \<Longrightarrow> js_trim s = s"
  by (rule js_trim_fixed)
     (cases "s = []"; simp add: all_digits_def list_all_iff digit_not_space)

lemma number_value_digits:
  assumes "all_digits s" "s \<noteq> []"
  shows "number_value s = Fin (fl64 (of_nat (digits_value s)))"
proof -
  have h: "hd s \<noteq> CHR ''-''"
  proof
    assume "hd s = CHR ''-''"
    moreover have "is_digit (hd s)" using assms by (cases s) (simp_all add: all_digits_def)
    ultimately show False by (simp add: is_digit_def code_of_def)
  qed
  then have n: "strip_sign s = (False, s)" using assms(2) by (cases s) (simp_all add: strip_sign_def)
  note d = span_digits_all [OF assms(1)]
  have "MONEY_PATTERN s" using assms(2) by (simp add: MONEY_PATTERN_def n unsigned_money_def d)
  moreover have "entered_minor s = int (100 * digits_value s)"
    unfolding entered_minor_def n
    by (simp add: d pad_end_def) (simp add: digits_value_def digit_value_def code_of_def numeral_2_eq_2)
  ultimately show ?thesis
    using parse_number_money [OF _ all_digits_trim [OF assms(1)]] by (simp add: number_value_def)
qed

lemma dot_notin_digits: "all_digits s \<Longrightarrow> CHR ''.'' \<notin> set s"
  using dot_not_digit by (auto simp: all_digits_def list_all_iff)

lemma unsigned_money_split:
  assumes "unsigned_money u"
  shows "hd (split_on (CHR ''.'') u) = takeWhile is_digit u"
    "(case tl (split_on (CHR ''.'') u) of [] \<Rightarrow> [] | f # _ \<Rightarrow> f) = tl (dropWhile is_digit u)"
proof -
  from assms obtain ip fs where s: "all_digits ip" "all_digits fs"
    "u = ip @ (if fs = [] then [] else CHR ''.'' # fs)"
    and p: "takeWhile is_digit u = ip" "tl (dropWhile is_digit u) = fs"
    by (rule unsigned_money_shape)
  have "split_on (CHR ''.'') u = (if fs = [] then [ip] else [ip, fs])"
    using s dot_notin_digits by (simp add: split_on_none split_on_append)
  then show "hd (split_on (CHR ''.'') u) = takeWhile is_digit u"
    "(case tl (split_on (CHR ''.'') u) of [] \<Rightarrow> [] | f # _ \<Rightarrow> f) = tl (dropWhile is_digit u)"
    by (simp_all add: p)
qed

text \<open>A sum of naturals is exact, or at least 2^53.\<close>

lemma fl64_nat: "fl64 (of_nat n) = of_nat n \<or> 2 ^ 53 \<le> fl64 (of_nat n) \<and> 2 ^ 53 \<le> n"
proof (cases "n \<le> 2 ^ 53")
  case True
  then have "\<bar>int n\<bar> \<le> 2 ^ 53" by simp
  from binary64.fl_whole [OF this] show ?thesis by simp
next
  case False
  then have n: "2 ^ 53 \<le> n" by simp
  then have "(2 :: rat) ^ 53 \<le> of_nat n" by simp
  with n show ?thesis using binary64.fl_large by blast
qed

lemma share_arithmetic:
  fixes a b :: nat
  assumes "b < 100"
  defines "r \<equiv> plus64 (times64 (fl64 (of_nat a)) 100) (fl64 (of_nat b))"
  shows "r = of_nat (100 * a + b) \<or> 2 ^ 53 \<le> r \<and> 2 ^ 53 \<le> 100 * a + b"
proof -
  have b: "fl64 (of_nat b) = of_nat b" using assms(1) fl64_nat [of b] by auto
  have large: "2 ^ 53 \<le> plus64 x (of_nat b)" if "2 ^ 53 \<le> x" for x
    unfolding plus64_def by (rule binary64.fl_large) (use that in simp)
  show ?thesis
  proof (cases "fl64 (of_nat a) = of_nat a \<and> fl64 (of_nat (a * 100)) = of_nat (a * 100)")
    case True
    then have "r = fl64 (of_nat (a * 100 + b))" by (simp add: r_def b times64_def plus64_def)
    with fl64_nat [of "a * 100 + b"] show ?thesis by (auto simp: mult.commute)
  next
    case False
    have "2 ^ 53 \<le> times64 (fl64 (of_nat a)) 100 \<and> 2 ^ 53 \<le> a * 100"
    proof (cases "fl64 (of_nat a) = of_nat a")
      case True
      with False have "fl64 (of_nat (a * 100)) \<noteq> of_nat (a * 100)" by simp
      with fl64_nat [of "a * 100"] True show ?thesis by (simp add: times64_def)
    next
      case False
      with fl64_nat [of a] have "2 ^ 53 \<le> fl64 (of_nat a)" "2 ^ 53 \<le> a" by auto
      then show ?thesis unfolding times64_def by (intro conjI binary64.fl_large) simp_all
    qed
    with large show ?thesis by (simp add: r_def b)
  qed
qed

text \<open>The share of a text: its exact hundredths when it has the form of an amount, is positive and is a
  safe integer; nothing otherwise.\<close>

definition share_spec :: "string \<Rightarrow> nat option" where
  "share_spec value = (let v = js_trim value; n = nat (entered_minor v) in
     if unsigned_money v \<and> 0 < n \<and> int n \<le> max_safe_integer then Some n else None)"

lemma strip_sign_unsigned: "unsigned_money u \<Longrightarrow> strip_sign u = (False, u)"
  using unsigned_money_head [of u] by (cases u) (auto simp: strip_sign_def is_digit_def code_of_def)

lemma is_whole_of_nat [simp]: "is_whole (of_nat n)"
  by (simp add: is_whole_def)

lemma share_exact: "splitShareMinorFromMajor value = map_option of_nat (share_spec value)"
proof (cases "unsigned_money (js_trim value)")
  case False
  then show ?thesis by (simp add: splitShareMinorFromMajor_def share_spec_def Let_def)
next
  case True
  define u where "u = js_trim value"
  note u = True [folded u_def]
  from u obtain ip fs where s: "ip \<noteq> []" "all_digits ip" "all_digits fs" "length fs \<le> 2"
    and p: "takeWhile is_digit u = ip" "tl (dropWhile is_digit u) = fs"
    by (rule unsigned_money_shape)
  let ?f = "pad_end 2 (CHR ''0'') fs" and ?a = "digits_value ip"
  let ?b = "digits_value ?f"
  have f: "all_digits ?f" "length ?f = 2" "?f \<noteq> []"
    using s(3,4) by (auto simp: pad_end_def all_digits_def list_all_iff is_digit_def code_of_def)
  have b: "?b < 100" using digits_value_bound [OF f(1)] f(2) by simp
  have e: "entered_minor u = int (100 * ?a + ?b)"
    by (simp add: entered_minor_def strip_sign_unsigned [OF u] p)
  have n: "number_value (hd (split_on (CHR ''.'') u)) = Fin (fl64 (of_nat ?a))"
    "number_value (pad_end 2 (CHR ''0'') (case tl (split_on (CHR ''.'') u) of [] \<Rightarrow> [] | f # _ \<Rightarrow> f))
      = Fin (fl64 (of_nat ?b))"
    unfolding unsigned_money_split [OF u] p using s f by (simp_all add: number_value_digits)
  let ?r = "plus64 (times64 (fl64 (of_nat ?a)) 100) (fl64 (of_nat ?b))"
  have sp: "splitShareMinorFromMajor value = (if is_safe_integer ?r \<and> 0 < ?r then Some ?r else None)"
    using u by (simp only: splitShareMinorFromMajor_def Let_def u_def [symmetric] n jsnum.case) simp
  have ss: "share_spec value = (if 0 < 100 * ?a + ?b \<and> int (100 * ?a + ?b) \<le> max_safe_integer
      then Some (100 * ?a + ?b) else None)"
    using u by (simp only: share_spec_def Let_def u_def [symmetric] e nat_int) simp
  from share_arithmetic [OF b, of ?a] show ?thesis
  proof
    assume r: "?r = of_nat (100 * ?a + ?b)"
    have "is_safe_integer (of_nat n) \<longleftrightarrow> int n \<le> max_safe_integer" for n
      unfolding is_safe_integer_def max_safe_integer_def
      by (metis abs_of_nat is_whole_of_nat of_int_le_iff of_int_of_nat_eq)
    moreover have "0 < (of_nat n :: rat) \<longleftrightarrow> 0 < n" for n by simp
    ultimately show ?thesis unfolding sp ss r by (simp del: of_nat_add of_nat_mult)
  next
    assume "2 ^ 53 \<le> ?r \<and> 2 ^ 53 \<le> 100 * ?a + ?b"
    then show ?thesis unfolding sp ss by (simp add: is_safe_integer_def max_safe_integer_def)
  qed
qed

text \<open>The loop: the errors of the refused drafts, and the sum of the accepted ones, exact up to 2^53.\<close>

definition accepted :: "split_draft \<Rightarrow> bool" where
  "accepted d = (js_trim (draft_memberEmail d) \<noteq> [] \<and> share_spec (draft_amountMajor d) \<noteq> None)"

definition share_of :: "split_draft \<Rightarrow> nat" where
  "share_of d = the (share_spec (draft_amountMajor d))"

definition split_of :: "split_draft \<Rightarrow> split_input" where
  "split_of d = \<lparr>split_memberEmail = js_trim (draft_memberEmail d), split_amountMinor = of_nat (share_of d)\<rparr>"

lemma share_step_cases:
  "share_step (errors, splits, allocated) d =
   (if accepted d then (errors, splits @ [split_of d], plus64 allocated (of_nat (share_of d)))
    else (om_set errors (draft_memberEmail d)
            ''Enter a positive share with no more than two decimal places.'', splits, allocated))"
  by (cases "js_trim (draft_memberEmail d)"; cases "share_spec (draft_amountMajor d)")
     (simp_all add: share_step_def share_exact accepted_def split_of_def share_of_def)

lemma om_set_nonempty [simp]: "om_set m k v \<noteq> []"
  by (cases m) (auto split: if_splits)

lemma share_loop_errors:
  "fst (foldl share_step (errors, splits, allocated) ds) = [] \<longleftrightarrow> errors = [] \<and> list_all accepted ds"
proof (induction ds arbitrary: errors splits allocated)
  case (Cons d ds)
  show ?case by (simp add: share_step_cases Cons.IH)
qed simp

definition near :: "rat \<Rightarrow> nat \<Rightarrow> bool" where
  "near r n = (r = of_nat n \<or> 2 ^ 53 \<le> r \<and> 2 ^ 53 \<le> n)"

lemma near_plus: "near r n \<Longrightarrow> near (plus64 r (of_nat k)) (n + k)"
proof (unfold near_def, elim disjE)
  assume "r = of_nat n"
  then have "plus64 r (of_nat k) = fl64 (of_nat (n + k))" by (simp add: plus64_def)
  then show "plus64 r (of_nat k) = of_nat (n + k) \<or> 2 ^ 53 \<le> plus64 r (of_nat k) \<and> 2 ^ 53 \<le> n + k"
    using fl64_nat [of "n + k"] by simp
next
  assume r: "2 ^ 53 \<le> r \<and> 2 ^ 53 \<le> n"
  then have "2 ^ 53 \<le> plus64 r (of_nat k)"
    unfolding plus64_def by (intro binary64.fl_large) (simp add: add_increasing2)
  with r show "plus64 r (of_nat k) = of_nat (n + k) \<or> 2 ^ 53 \<le> plus64 r (of_nat k) \<and> 2 ^ 53 \<le> n + k"
    by simp
qed

lemma share_loop_sum:
  assumes "list_all accepted ds" "near allocated n"
  shows "\<exists>r. foldl share_step (errors, splits, allocated) ds = (errors, splits @ map split_of ds, r) \<and>
    near r (n + sum_list (map share_of ds))"
  using assms
proof (induction ds arbitrary: splits allocated n)
  case (Cons d ds)
  from Cons.IH [OF _ near_plus [OF Cons.prems(2)], of "splits @ [split_of d]" "share_of d"] Cons.prems(1)
  show ?case by (simp add: share_step_cases add.assoc)
qed simp

lemma splits_exact:
  assumes "int amount \<le> max_safe_integer"
  shows "validateTransactionSplits drafts (of_nat amount) = Split_ok splits allocated \<longleftrightarrow>
    (let entered = filter (\<lambda>d. js_trim (draft_amountMajor d) \<noteq> []) drafts in
     entered \<noteq> [] \<and> list_all accepted entered \<and> sum_list (map share_of entered) = amount \<and>
     splits = map split_of entered \<and> allocated = of_nat amount)"
proof -
  let ?e = "filter (\<lambda>d. js_trim (draft_amountMajor d) \<noteq> []) drafts"
  show ?thesis
  proof (cases "?e \<noteq> [] \<and> list_all accepted ?e")
    case False
    obtain er sp al where r: "foldl share_step ([], [], 0) ?e = (er, sp, al)" by (metis prod_cases3)
    with share_loop_errors [of "[]" "[]" 0 ?e] False have "?e = [] \<or> er \<noteq> []" by auto
    with False r show ?thesis
      by (auto simp: validateTransactionSplits_def Let_def om_keys_def)
  next
    case True
    have "near 0 0" by (simp add: near_def)
    from share_loop_sum [OF conjunct2 [OF True] this, of "[]" "[]"]
    obtain r where r: "foldl share_step ([], [], 0) ?e = ([], map split_of ?e, r)"
      "near r (sum_list (map share_of ?e))" by auto
    have "r = of_nat amount \<longleftrightarrow> sum_list (map share_of ?e) = amount"
      using r(2) assms by (auto simp: near_def max_safe_integer_def)
    with r(1) True show ?thesis
      by (auto simp: validateTransactionSplits_def Let_def om_keys_def)
  qed
qed

section \<open>Properties\<close>

text \<open>C27. Splits are accepted exactly when they account for every hundredth: for a transaction amount
  that is a safe integer, the validation succeeds if and only if some amount was entered, every entered
  draft has a member and a positive amount of at most two decimals, and the exact shares add up to the
  amount; the accepted shares are then those of the drafts, in order. Rounding of the running total
  cannot make a wrong sum pass.\<close>

theorem splits_account_for_amount:
  assumes "int amount \<le> max_safe_integer"
  shows "validateTransactionSplits drafts (of_nat amount) = Split_ok splits allocated \<longleftrightarrow>
    (let entered = filter (\<lambda>d. js_trim (draft_amountMajor d) \<noteq> []) drafts in
     entered \<noteq> [] \<and> list_all accepted entered \<and> sum_list (map share_of entered) = amount \<and>
     splits = map split_of entered \<and> allocated = of_nat amount)"
  by (rule splits_exact [OF assms])

theorem splits_account_for_amount_witness:
  "validateTransactionSplits
     [\<lparr>draft_memberEmail = ''a@x'', draft_amountMajor = ''1.5''\<rparr>,
      \<lparr>draft_memberEmail = ''b@x'', draft_amountMajor = ''2''\<rparr>,
      \<lparr>draft_memberEmail = ''c@x'', draft_amountMajor = '' ''\<rparr>] (of_nat 350)
   = Split_ok [\<lparr>split_memberEmail = ''a@x'', split_amountMinor = of_nat 150\<rparr>,
               \<lparr>split_memberEmail = ''b@x'', split_amountMinor = of_nat 200\<rparr>] (of_nat 350)"
proof (subst splits_account_for_amount)
  show "int 350 \<le> max_safe_integer" by (simp add: max_safe_integer_def)
qed (simp add: js_trim_def trim_start_def trim_end_def is_space_def accepted_def share_of_def split_of_def
      share_spec_def entered_minor_def strip_sign_def unsigned_money_def pad_end_def string_eval
      max_safe_integer_def numeral_2_eq_2)

end
