(* ===== verification/DemoSession.thy ===== *)
theory DemoSession
  imports JsStrings
begin

text \<open>
  The demonstration session (pages/finance-writes/shared.ts): changes that a visitor makes without an
  account are kept in two module-level maps, the records added and the identifiers deleted of every
  collection, and laid over the fixed demonstration data when a collection is read. The abstract side
  is the collection as the visitor sees it, and the maps refine it.
\<close>

section \<open>The maps\<close>

record 'a demo_session =
  demoSessionRecords :: "(string, 'a list) omap"
  demoSessionDeletedIds :: "(string, string set) omap"
  demoSessionVersion :: nat

definition empty_session :: "'a demo_session" where
  "empty_session = \<lparr>demoSessionRecords = [], demoSessionDeletedIds = [], demoSessionVersion = 0\<rparr>"

definition demoCollectionKey :: "string \<Rightarrow> string \<Rightarrow> string" where
  "demoCollectionKey workspaceId collection = workspaceId @ '':'' @ collection"

definition publishDemoSessionChange :: "'a demo_session \<Rightarrow> 'a demo_session" where
  "publishDemoSessionChange s = s\<lparr>demoSessionVersion := demoSessionVersion s + 1\<rparr>"

definition records_at :: "'a demo_session \<Rightarrow> string \<Rightarrow> 'a list" where
  "records_at s key = (case om_get (demoSessionRecords s) key of None \<Rightarrow> [] | Some xs \<Rightarrow> xs)"

definition deleted_at :: "'a demo_session \<Rightarrow> string \<Rightarrow> string set" where
  "deleted_at s key = (case om_get (demoSessionDeletedIds s) key of None \<Rightarrow> {} | Some ids \<Rightarrow> ids)"

text \<open>\<open>ident\<close> reads the identifier of an item.\<close>

definition addDemoSessionItem ::
  "('a \<Rightarrow> string) \<Rightarrow> string \<Rightarrow> string \<Rightarrow> 'a \<Rightarrow> 'a demo_session \<Rightarrow> 'a demo_session" where
  "addDemoSessionItem ident workspaceId collection item s =
     (let key = demoCollectionKey workspaceId collection;
          s1 = (case om_get (demoSessionDeletedIds s) key of
                  None \<Rightarrow> s
                | Some ids \<Rightarrow> s\<lparr>demoSessionDeletedIds := om_set (demoSessionDeletedIds s) key (ids - {ident item})\<rparr>);
          current = records_at s1 key;
          s2 = s1\<lparr>demoSessionRecords := om_set (demoSessionRecords s1) key
                   (item # filter (\<lambda>record. ident record \<noteq> ident item) current)\<rparr>
      in publishDemoSessionChange s2)"

definition updateDemoSessionItem ::
  "('a \<Rightarrow> string) \<Rightarrow> string \<Rightarrow> string \<Rightarrow> string \<Rightarrow> ('a \<Rightarrow> 'a) \<Rightarrow> 'a demo_session \<Rightarrow> 'a demo_session" where
  "updateDemoSessionItem ident workspaceId collection itemId update s =
     (let key = demoCollectionKey workspaceId collection;
          current = records_at s key
      in if \<not> list_ex (\<lambda>item. ident item = itemId) current then s
         else publishDemoSessionChange (s\<lparr>demoSessionRecords := om_set (demoSessionRecords s) key
                (map (\<lambda>item. if ident item = itemId then update item else item) current)\<rparr>))"

definition removeDemoSessionItem ::
  "('a \<Rightarrow> string) \<Rightarrow> string \<Rightarrow> string \<Rightarrow> string \<Rightarrow> 'a demo_session \<Rightarrow> 'a demo_session" where
  "removeDemoSessionItem ident workspaceId collection itemId s =
     (let key = demoCollectionKey workspaceId collection;
          current = records_at s key;
          following = filter (\<lambda>item. ident item \<noteq> itemId) current;
          deleted = insert itemId (deleted_at s key);
          s1 = s\<lparr>demoSessionDeletedIds := om_set (demoSessionDeletedIds s) key deleted\<rparr>;
          s2 = (if length following \<noteq> 0
                then s1\<lparr>demoSessionRecords := om_set (demoSessionRecords s1) key following\<rparr>
                else s1\<lparr>demoSessionRecords := om_delete (demoSessionRecords s1) key\<rparr>)
      in publishDemoSessionChange s2)"

definition useDemoSessionCollection ::
  "('a \<Rightarrow> string) \<Rightarrow> bool \<Rightarrow> string \<Rightarrow> string \<Rightarrow> 'a list \<Rightarrow> 'a demo_session \<Rightarrow> 'a list" where
  "useDemoSessionCollection ident enabled workspaceId collection baseItems s =
     (if \<not> enabled then baseItems
      else (let key = demoCollectionKey workspaceId collection;
                additions = records_at s key;
                deleted = deleted_at s key
            in if additions = [] \<and> deleted = {} then baseItems
               else additions @ filter (\<lambda>item. ident item \<notin> ident ` set additions \<and> ident item \<notin> deleted) baseItems))"

section \<open>Changes\<close>

text \<open>A change of some collection; an update keeps the identifier of its item, as every caller's does.\<close>

datatype 'a demo_change =
    Add_item string string 'a
  | Update_item string string string "'a \<Rightarrow> 'a"
  | Remove_item string string string

fun demo_step :: "('a \<Rightarrow> string) \<Rightarrow> 'a demo_session \<Rightarrow> 'a demo_change \<Rightarrow> 'a demo_session" where
  "demo_step ident s (Add_item w c x) = addDemoSessionItem ident w c x s"
| "demo_step ident s (Update_item w c i f) = updateDemoSessionItem ident w c i f s"
| "demo_step ident s (Remove_item w c i) = removeDemoSessionItem ident w c i s"

fun keeps_ident :: "('a \<Rightarrow> string) \<Rightarrow> 'a demo_change \<Rightarrow> bool" where
  "keeps_ident ident (Update_item w c i f) = (\<forall>x. ident (f x) = ident x)"
| "keeps_ident ident _ = True"

section \<open>What the visitor sees\<close>

text \<open>The abstract collection: the items in the order shown, each marked as the visitor's own or not.\<close>

type_synonym 'a shown = "(bool \<times> 'a) list"

definition drop_item :: "('a \<Rightarrow> string) \<Rightarrow> string \<Rightarrow> 'a shown \<Rightarrow> 'a shown" where
  "drop_item ident i v = filter (\<lambda>(own, x). ident x \<noteq> i) v"

definition shown_add :: "('a \<Rightarrow> string) \<Rightarrow> 'a \<Rightarrow> 'a shown \<Rightarrow> 'a shown" where
  "shown_add ident x v = (True, x) # drop_item ident (ident x) v"

definition shown_update :: "('a \<Rightarrow> string) \<Rightarrow> string \<Rightarrow> ('a \<Rightarrow> 'a) \<Rightarrow> 'a shown \<Rightarrow> 'a shown" where
  "shown_update ident i f v = map (\<lambda>(own, x). (own, if own \<and> ident x = i then f x else x)) v"

fun shown_step :: "('a \<Rightarrow> string) \<Rightarrow> string \<Rightarrow> 'a shown \<Rightarrow> 'a demo_change \<Rightarrow> 'a shown" where
  "shown_step ident key v (Add_item w c x) =
     (if demoCollectionKey w c = key then shown_add ident x v else v)"
| "shown_step ident key v (Update_item w c i f) =
     (if demoCollectionKey w c = key then shown_update ident i f v else v)"
| "shown_step ident key v (Remove_item w c i) =
     (if demoCollectionKey w c = key then drop_item ident i v else v)"

definition shown_of :: "('a \<Rightarrow> string) \<Rightarrow> string \<Rightarrow> 'a list \<Rightarrow> 'a demo_session \<Rightarrow> 'a shown" where
  "shown_of ident key base s =
     map (Pair True) (records_at s key)
     @ map (Pair False) (filter (\<lambda>x. ident x \<notin> ident ` set (records_at s key) \<and> ident x \<notin> deleted_at s key) base)"

section \<open>Refinement\<close>

lemma records_at_simps [simp]:
  "records_at (publishDemoSessionChange s) k = records_at s k"
  "records_at (s\<lparr>demoSessionDeletedIds := d\<rparr>) k = records_at s k"
  "records_at (s\<lparr>demoSessionRecords := om_set (demoSessionRecords s) j xs\<rparr>) k = (if k = j then xs else records_at s k)"
  "records_at (s\<lparr>demoSessionDeletedIds := d, demoSessionRecords := om_set (demoSessionRecords s) j xs\<rparr>) k
    = (if k = j then xs else records_at s k)"
  "records_at (s\<lparr>demoSessionDeletedIds := d, demoSessionRecords := om_delete (demoSessionRecords s) j\<rparr>) k
    = (if k = j then [] else records_at s k)"
  by (simp_all add: records_at_def publishDemoSessionChange_def om_get_set om_get_delete)

lemma deleted_at_simps [simp]:
  "deleted_at (publishDemoSessionChange s) k = deleted_at s k"
  "deleted_at (s\<lparr>demoSessionRecords := r\<rparr>) k = deleted_at s k"
  "deleted_at (s\<lparr>demoSessionDeletedIds := om_set (demoSessionDeletedIds s) j ids\<rparr>) k = (if k = j then ids else deleted_at s k)"
  "deleted_at (s\<lparr>demoSessionDeletedIds := om_set (demoSessionDeletedIds s) j ids, demoSessionRecords := r\<rparr>) k
    = (if k = j then ids else deleted_at s k)"
  by (simp_all add: deleted_at_def publishDemoSessionChange_def om_get_set)

lemma add_maps:
  "records_at (addDemoSessionItem ident w c x s) k =
     (if k = demoCollectionKey w c then x # filter (\<lambda>y. ident y \<noteq> ident x) (records_at s k) else records_at s k)"
  "deleted_at (addDemoSessionItem ident w c x s) k =
     (if k = demoCollectionKey w c then deleted_at s k - {ident x} else deleted_at s k)"
  subgoal
    by (cases "om_get (demoSessionDeletedIds s) (demoCollectionKey w c)")
      (simp_all add: addDemoSessionItem_def Let_def deleted_at_def [of s])
  subgoal
    by (cases "om_get (demoSessionDeletedIds s) (demoCollectionKey w c)")
      (simp_all add: addDemoSessionItem_def Let_def deleted_at_def [of s])
  done

lemma remove_maps:
  "records_at (removeDemoSessionItem ident w c i s) k =
     (if k = demoCollectionKey w c then filter (\<lambda>y. ident y \<noteq> i) (records_at s k) else records_at s k)"
  "deleted_at (removeDemoSessionItem ident w c i s) k =
     (if k = demoCollectionKey w c then insert i (deleted_at s k) else deleted_at s k)"
  by (auto simp: removeDemoSessionItem_def Let_def)

lemma update_maps:
  "records_at (updateDemoSessionItem ident w c i f s) k =
     (if k = demoCollectionKey w c then map (\<lambda>y. if ident y = i then f y else y) (records_at s k) else records_at s k)"
  "deleted_at (updateDemoSessionItem ident w c i f s) k = deleted_at s k"
  by (auto simp: updateDemoSessionItem_def Let_def list_ex_iff intro!: map_idI [symmetric])

lemma filter_shown: "filter (\<lambda>(own, x). P x) (map (Pair b) xs) = map (Pair b) (filter P xs)"
  by (induction xs) simp_all

lemma shown_of_add:
  "shown_of ident key base (addDemoSessionItem ident w c x s) =
   (if demoCollectionKey w c = key then shown_add ident x (shown_of ident key base s) else shown_of ident key base s)"
  by (auto simp: shown_of_def add_maps shown_add_def drop_item_def filter_shown intro!: arg_cong [where f = "map (Pair False)"] filter_cong)

lemma shown_of_remove:
  "shown_of ident key base (removeDemoSessionItem ident w c i s) =
   (if demoCollectionKey w c = key then drop_item ident i (shown_of ident key base s) else shown_of ident key base s)"
  by (auto simp: shown_of_def remove_maps drop_item_def filter_shown intro!: arg_cong [where f = "map (Pair False)"] filter_cong)

lemma shown_of_update:
  assumes "\<forall>x. ident (f x) = ident x"
  shows "shown_of ident key base (updateDemoSessionItem ident w c i f s) =
   (if demoCollectionKey w c = key then shown_update ident i f (shown_of ident key base s) else shown_of ident key base s)"
proof -
  have "ident ` set (map (\<lambda>y. if ident y = i then f y else y) xs) = ident ` set xs" for xs
    using assms by (induction xs) auto
  then show ?thesis
    by (simp add: shown_of_def update_maps shown_update_def)
qed

interpretation demo: simulation "demo_step ident" "shown_step ident key" "shown_of ident key base" "keeps_ident ident"
  for ident key base
proof
  show "shown_of ident key base (demo_step ident s e) = shown_step ident key (shown_of ident key base s) e"
    if "keeps_ident ident e" for e :: "'a demo_change" and s
    using that by (cases e) (simp_all add: shown_of_add shown_of_remove shown_of_update)
qed

lemma use_shown:
  "useDemoSessionCollection ident True w c base s = map snd (shown_of ident (demoCollectionKey w c) base s)"
  by (auto simp: useDemoSessionCollection_def shown_of_def Let_def comp_def)

lemma shown_of_empty: "shown_of ident key base empty_session = map (Pair False) base"
  by (simp add: shown_of_def empty_session_def records_at_def deleted_at_def)

section \<open>Properties\<close>

text \<open>C12. The two maps of the demonstration session refine the collection the visitor sees: after any
  sequence of additions, updates and removals, over all workspaces and collections, reading a collection
  gives what the same changes make of the fixed items directly, where an addition puts the item first in
  place of any item of its identifier, an update changes the visitor's own item, a removal drops the
  item, and a change of another collection does nothing.\<close>

theorem demo_session_refines:
  assumes "list_all (keeps_ident ident) changes"
  shows "useDemoSessionCollection ident True w c base (foldl (demo_step ident) empty_session changes)
    = map snd (foldl (shown_step ident (demoCollectionKey w c)) (map (Pair False) base) changes)"
  using demo.abs_run [OF assms, of "demoCollectionKey w c" base empty_session]
  by (simp add: use_shown shown_of_empty)

theorem demo_session_refines_witness:
  "useDemoSessionCollection fst True ''w'' ''bills'' [(''b1'', 1 :: nat), (''b2'', 2)]
     (foldl (demo_step fst) empty_session
       [Remove_item ''w'' ''bills'' ''b1'', Add_item ''w'' ''bills'' (''n'', 3), Add_item ''w'' ''goals'' (''g'', 7),
        Update_item ''w'' ''bills'' ''n'' (\<lambda>(i, k). (i, k + 1)), Add_item ''w'' ''bills'' (''b1'', 5)])
   = [(''b1'', 5), (''n'', 4), (''b2'', 2)]"
  by (subst demo_session_refines)
     (simp_all add: demoCollectionKey_def shown_add_def shown_update_def drop_item_def split_beta)

end
