(* ===== verification/WriteFlow.thy ===== *)
theory WriteFlow
  imports JsStrings
begin

text \<open>
  The two hooks behind the finance dialogs (pages/finance-writes/shared.ts). \<open>useQueryDialog\<close> keeps a
  dialog open in the query string of the page and gives the focus back when it closes. \<open>useWriteFlow\<close>
  sends one write at a time, reports on it and closes the dialog after a success. Both are state
  machines whose events are the calls of the page, the commits of React with the effects they run, the
  timers and the replies. A closure that a render created reads the values of that render: what \<open>begin\<close>
  knows of \<open>mutation.isPending\<close> is the value of the last commit, kept in \<open>wf_seenPending\<close>.
\<close>

section \<open>Query strings\<close>

type_synonym query_params = "(string \<times> string) list"

fun params_get :: "query_params \<Rightarrow> string \<Rightarrow> string option" where
  "params_get [] k = None"
| "params_get ((j, v) # ps) k = (if j = k then Some v else params_get ps k)"

definition params_delete :: "query_params \<Rightarrow> string \<Rightarrow> query_params" where
  "params_delete ps k = filter (\<lambda>(j, v). j \<noteq> k) ps"

text \<open>\<open>set\<close> overwrites the first value of the name, drops the others and appends a missing name.\<close>

fun params_set :: "query_params \<Rightarrow> string \<Rightarrow> string \<Rightarrow> query_params" where
  "params_set [] k v = [(k, v)]"
| "params_set ((j, w) # ps) k v = (if j = k then (k, v) # params_delete ps k else (j, w) # params_set ps k v)"

section \<open>useQueryDialog\<close>

text \<open>\<open>qd_timers\<close> are the armed restore timers with the element each would focus, \<open>qd_focused\<close> the
  elements focused so far.\<close>

record 'el query_dialog =
  qd_params :: query_params
  qd_returnFocus :: "'el option"
  qd_restoreTimer :: "nat option"
  qd_timers :: "(nat \<times> 'el) list"
  qd_fresh :: nat
  qd_previouslyRequested :: bool
  qd_focused :: "'el list"

definition dialog_requested :: "string \<Rightarrow> 'el query_dialog \<Rightarrow> bool" where
  "dialog_requested parameter d = (params_get (qd_params d) parameter = Some ''1'')"

definition clear_restore_timer :: "'el query_dialog \<Rightarrow> 'el query_dialog" where
  "clear_restore_timer d = (case qd_restoreTimer d of None \<Rightarrow> d
     | Some t \<Rightarrow> d\<lparr>qd_timers := filter (\<lambda>(u, e). u \<noteq> t) (qd_timers d)\<rparr>)"

text \<open>\<open>active\<close> is the focused element, unless that is the body.\<close>

definition dialog_setOpen :: "string \<Rightarrow> 'el option \<Rightarrow> bool \<Rightarrow> 'el query_dialog \<Rightarrow> 'el query_dialog" where
  "dialog_setOpen parameter active nextOpen d =
     (let d1 = (if nextOpen
                then (clear_restore_timer d)\<lparr>qd_restoreTimer := None, qd_returnFocus := active\<rparr>
                else d)
      in d1\<lparr>qd_params := (if nextOpen then params_set (qd_params d1) parameter ''1''
                         else params_delete (qd_params d1) parameter)\<rparr>)"

text \<open>The effects of a commit: the return of the focus when the dialog was closed, and the removal of a
  request that is not allowed.\<close>

definition restore_effect :: "string \<Rightarrow> 'el query_dialog \<Rightarrow> 'el query_dialog" where
  "restore_effect parameter d =
     (let requested = dialog_requested parameter d;
          wasRequested = qd_previouslyRequested d;
          d1 = d\<lparr>qd_previouslyRequested := requested\<rparr>
      in if \<not> wasRequested \<or> requested then d1
         else (let returnTarget = qd_returnFocus d1; d2 = d1\<lparr>qd_returnFocus := None\<rparr>
               in case returnTarget of None \<Rightarrow> d2
                  | Some e \<Rightarrow> d2\<lparr>qd_restoreTimer := Some (qd_fresh d2),
                                 qd_timers := (qd_fresh d2, e) # qd_timers d2, qd_fresh := Suc (qd_fresh d2)\<rparr>))"

definition allowed_effect :: "string \<Rightarrow> bool \<Rightarrow> 'el query_dialog \<Rightarrow> 'el query_dialog" where
  "allowed_effect parameter allowed d =
     (if dialog_requested parameter d \<and> \<not> allowed then dialog_setOpen parameter None False d else d)"

definition dialog_commit :: "string \<Rightarrow> bool \<Rightarrow> 'el query_dialog \<Rightarrow> 'el query_dialog" where
  "dialog_commit parameter allowed d = allowed_effect parameter allowed (restore_effect parameter d)"

text \<open>A timer fires; \<open>focusable\<close> says whether an element is in the document and not inert.\<close>

definition dialog_timer :: "('el \<Rightarrow> bool) \<Rightarrow> nat \<Rightarrow> 'el query_dialog \<Rightarrow> 'el query_dialog" where
  "dialog_timer focusable t d = (case map_of (qd_timers d) t of None \<Rightarrow> d
     | Some e \<Rightarrow> (let d1 = d\<lparr>qd_timers := filter (\<lambda>(u, x). u \<noteq> t) (qd_timers d), qd_restoreTimer := None\<rparr>
                 in if focusable e then d1\<lparr>qd_focused := qd_focused d1 @ [e]\<rparr> else d1))"

definition dialog_unmount :: "'el query_dialog \<Rightarrow> 'el query_dialog" where
  "dialog_unmount d = clear_restore_timer d"

definition dialog_open :: "string \<Rightarrow> bool \<Rightarrow> 'el query_dialog \<Rightarrow> bool" where
  "dialog_open parameter allowed d = (dialog_requested parameter d \<and> allowed)"

section \<open>useWriteFlow\<close>

datatype feedback_tone = Tone_success | Tone_error | Tone_info

type_synonym finance_feedback = "feedback_tone \<times> string"

text \<open>Why a write failed: an error of the API with its message and fields, or another exception.\<close>

datatype write_error = Api_failure string "(string \<times> string) list option" | Other_failure

datatype query_key = Key_notifications | Key_workspace string string | Key_period_reviews string

text \<open>What the hook does to its surroundings, in order.\<close>

datatype 'v flow_action =
    Sent_request 'v
  | Wrote_demo
  | Invalidated query_key
  | Haptic
  | Reported_fields "(string \<times> string) list"
  | Called_onClose

record flow_options =
  opt_invalidate :: "string list"
  opt_invalidatePeriodReviews :: bool
  opt_successMessage :: string
  opt_workspace :: string

text \<open>\<open>wf_inFlight\<close> are the requests without a reply, \<open>wf_latest\<close> the one the mutation observes.\<close>

record 'v write_flow =
  wf_open :: bool
  wf_feedback :: "finance_feedback option"
  wf_locked :: bool
  wf_lockRef :: bool
  wf_closeTimerRef :: "nat option"
  wf_timers :: "nat list"
  wf_inFlight :: "nat list"
  wf_latest :: nat
  wf_seenPending :: bool
  wf_fresh :: nat
  wf_actions :: "'v flow_action list"

definition wf_isPending :: "'v write_flow \<Rightarrow> bool" where
  "wf_isPending w = (wf_latest w \<in> set (wf_inFlight w))"

definition wf_act :: "'v flow_action list \<Rightarrow> 'v write_flow \<Rightarrow> 'v write_flow" where
  "wf_act as w = w\<lparr>wf_actions := wf_actions w @ as\<rparr>"

text \<open>The busy flag the dialog shows, which also blocks its dismissal.\<close>

definition wf_busy :: "'v write_flow \<Rightarrow> bool" where
  "wf_busy w = (wf_locked w \<or> wf_isPending w)"

definition flow_finish :: "string \<Rightarrow> 'v write_flow \<Rightarrow> 'v write_flow" where
  "flow_finish message w =
     (let w1 = wf_act [Haptic] (w\<lparr>wf_feedback := Some (Tone_success, message)\<rparr>)
      in w1\<lparr>wf_closeTimerRef := Some (wf_fresh w1), wf_timers := wf_fresh w1 # wf_timers w1,
            wf_fresh := Suc (wf_fresh w1)\<rparr>)"

definition flow_begin :: "'v write_flow \<Rightarrow> bool \<times> 'v write_flow" where
  "flow_begin w = (if wf_lockRef w \<or> wf_seenPending w then (False, w)
     else (True, w\<lparr>wf_lockRef := True, wf_locked := True, wf_feedback := None\<rparr>))"

definition submitLive :: "'v \<Rightarrow> 'v write_flow \<Rightarrow> bool \<times> 'v write_flow" where
  "submitLive variables w = (case flow_begin w of
       (False, w1) \<Rightarrow> (False, w1)
     | (True, w1) \<Rightarrow> (True, wf_act [Sent_request variables]
         (w1\<lparr>wf_inFlight := wf_fresh w1 # wf_inFlight w1, wf_latest := wf_fresh w1, wf_fresh := Suc (wf_fresh w1)\<rparr>)))"

definition completeDemo :: "string \<Rightarrow> 'v write_flow \<Rightarrow> bool \<times> 'v write_flow" where
  "completeDemo message w = (case flow_begin w of
       (False, w1) \<Rightarrow> (False, w1)
     | (True, w1) \<Rightarrow> (True, flow_finish message (wf_act [Wrote_demo] w1)))"

definition query_key_of :: "string \<Rightarrow> string \<Rightarrow> query_key" where
  "query_key_of workspaceId key = (if key = ''notifications'' then Key_notifications else Key_workspace key workspaceId)"

definition flow_settled :: "nat \<Rightarrow> 'v write_flow \<Rightarrow> 'v write_flow" where
  "flow_settled r w = w\<lparr>wf_inFlight := filter (\<lambda>x. x \<noteq> r) (wf_inFlight w)\<rparr>"

definition flow_onSuccess :: "flow_options \<Rightarrow> nat \<Rightarrow> 'v write_flow \<Rightarrow> 'v write_flow" where
  "flow_onSuccess opts r w =
     (if r \<notin> set (wf_inFlight w) then w
      else flow_finish (opt_successMessage opts)
        (wf_act (map (\<lambda>key. Invalidated (query_key_of (opt_workspace opts) key)) (opt_invalidate opts)
                 @ (if opt_invalidatePeriodReviews opts then [Invalidated (Key_period_reviews (opt_workspace opts))] else []))
          (flow_settled r w)))"

definition error_message :: "write_error \<Rightarrow> string" where
  "error_message e = (case e of
       Api_failure message errors \<Rightarrow>
         (case errors of Some fs \<Rightarrow> ''Check the highlighted fields and try again.'' | None \<Rightarrow> message)
     | Other_failure \<Rightarrow> ''The server could not save this change. No data was changed.'')"

definition flow_onError :: "nat \<Rightarrow> write_error \<Rightarrow> 'v write_flow \<Rightarrow> 'v write_flow" where
  "flow_onError r e w =
     (if r \<notin> set (wf_inFlight w) then w
      else (let w1 = (flow_settled r w)\<lparr>wf_lockRef := False, wf_locked := False\<rparr>;
                w2 = (case e of Api_failure m (Some fs) \<Rightarrow> wf_act [Reported_fields fs] w1 | _ \<Rightarrow> w1)
            in w2\<lparr>wf_feedback := Some (Tone_error, error_message e)\<rparr>))"

definition clear_close_timer :: "'v write_flow \<Rightarrow> 'v write_flow" where
  "clear_close_timer w = (case wf_closeTimerRef w of None \<Rightarrow> w
     | Some t \<Rightarrow> w\<lparr>wf_timers := filter (\<lambda>x. x \<noteq> t) (wf_timers w)\<rparr>)"

text \<open>A commit with the property \<open>open\<close>; its effect runs when the property changed.\<close>

definition flow_commit :: "bool \<Rightarrow> 'v write_flow \<Rightarrow> 'v write_flow" where
  "flow_commit opened w =
     (let w1 = w\<lparr>wf_seenPending := wf_isPending w, wf_open := opened\<rparr>
      in if opened = wf_open w then w1
         else if opened then w1\<lparr>wf_lockRef := False, wf_locked := False, wf_feedback := None\<rparr>
         else (case wf_closeTimerRef w1 of None \<Rightarrow> w1
               | Some t \<Rightarrow> (clear_close_timer w1)\<lparr>wf_closeTimerRef := None\<rparr>))"

definition flow_timer :: "nat \<Rightarrow> 'v write_flow \<Rightarrow> 'v write_flow" where
  "flow_timer t w = (if t \<notin> set (wf_timers w) then w
     else wf_act [Called_onClose] (w\<lparr>wf_timers := filter (\<lambda>x. x \<noteq> t) (wf_timers w)\<rparr>))"

datatype 'v flow_event =
    Commit bool
  | Submit 'v
  | Demo string
  | Reply_ok nat
  | Reply_error nat write_error
  | Close_timer nat
  | Unmount

fun flow_step :: "flow_options \<Rightarrow> 'v write_flow \<Rightarrow> 'v flow_event \<Rightarrow> 'v write_flow" where
  "flow_step opts w (Commit b) = flow_commit b w"
| "flow_step opts w (Submit v) = snd (submitLive v w)"
| "flow_step opts w (Demo m) = snd (completeDemo m w)"
| "flow_step opts w (Reply_ok r) = flow_onSuccess opts r w"
| "flow_step opts w (Reply_error r e) = flow_onError r e w"
| "flow_step opts w (Close_timer t) = flow_timer t w"
| "flow_step opts w Unmount = clear_close_timer w"

definition initial_flow :: "'v write_flow" where
  "initial_flow = \<lparr>wf_open = False, wf_feedback = None, wf_locked = False, wf_lockRef = False,
     wf_closeTimerRef = None, wf_timers = [], wf_inFlight = [], wf_latest = 0, wf_seenPending = False,
     wf_fresh = 1, wf_actions = []\<rparr>"

section \<open>The query string\<close>

lemma params_get_delete: "params_get (params_delete ps k) j = (if j = k then None else params_get ps j)"
  by (induction ps) (auto simp: params_delete_def)

lemma params_get_set: "params_get (params_set ps k v) j = (if j = k then Some v else params_get ps j)"
  by (induction ps) (auto simp: params_get_delete)

interpretation query: keyed_store params_get params_set params_delete
  by unfold_locales (simp_all add: params_get_set params_get_delete)

text \<open>A dialog that may not be shown is closed by the next commit, whatever requested it, and the other
  parameters stay.\<close>

lemma restore_effect_params [simp]: "qd_params (restore_effect p d) = qd_params d"
  by (simp add: restore_effect_def Let_def split: option.splits)

lemma clear_restore_params [simp]: "qd_params (clear_restore_timer d) = qd_params d"
  by (simp add: clear_restore_timer_def split: option.splits)

lemma setOpen_params:
  "qd_params (dialog_setOpen p active b d) = (if b then params_set (qd_params d) p ''1'' else params_delete (qd_params d) p)"
  by (simp add: dialog_setOpen_def Let_def)

lemma not_allowed_closes:
  "dialog_requested p (dialog_commit p False d) = False"
  "j \<noteq> p \<Longrightarrow> params_get (qd_params (dialog_commit p a d)) j = params_get (qd_params d) j"
  by (simp_all add: dialog_commit_def allowed_effect_def dialog_requested_def setOpen_params params_get_delete)

text \<open>The focus comes back: the dialog is opened over \<open>e\<close>, committed, closed and committed, and the
  timer of that commit fires.\<close>

lemma focus_comes_back:
  assumes "dialog_requested p d = False" "focusable e"
  shows "qd_focused (dialog_timer focusable (qd_fresh d)
    (dialog_commit p True (dialog_setOpen p active False
      (dialog_commit p True (dialog_setOpen p (Some e) True d))))) = qd_focused d @ [e]"
proof -
  define d1 where "d1 = dialog_setOpen p (Some e) True d"
  have r1: "dialog_requested p d1" by (simp add: d1_def dialog_requested_def setOpen_params params_get_set)
  have f1: "qd_fresh d1 = qd_fresh d" "qd_focused d1 = qd_focused d" "qd_returnFocus d1 = Some e"
    by (simp_all add: d1_def dialog_setOpen_def Let_def clear_restore_timer_def split: option.splits)
  define d2 where "d2 = dialog_commit p True d1"
  have d2: "d2 = d1\<lparr>qd_previouslyRequested := True\<rparr>"
    using r1 by (simp add: d2_def dialog_commit_def allowed_effect_def restore_effect_def dialog_requested_def Let_def)
  define d3 where "d3 = dialog_setOpen p active False d2"
  have d3: "d3 = d2\<lparr>qd_params := params_delete (qd_params d2) p\<rparr>"
    by (simp add: d3_def dialog_setOpen_def)
  have r3: "\<not> dialog_requested p d3" by (simp add: d3 dialog_requested_def params_get_delete)
  have "dialog_commit p True d3 = d3\<lparr>qd_previouslyRequested := False, qd_returnFocus := None,
      qd_restoreTimer := Some (qd_fresh d), qd_timers := (qd_fresh d, e) # qd_timers d3, qd_fresh := Suc (qd_fresh d)\<rparr>"
    using r3 f1 by (simp add: dialog_commit_def allowed_effect_def restore_effect_def Let_def dialog_requested_def d3 d2)
  then show ?thesis
    using assms(2) f1 by (fold d1_def, fold d2_def, fold d3_def) (simp add: dialog_timer_def d3 d2)
qed

section \<open>One write at a time\<close>

definition closes :: "'v write_flow \<Rightarrow> nat" where
  "closes w = length (filter (\<lambda>a. a = Called_onClose) (wf_actions w))"

definition successes :: "'v write_flow \<Rightarrow> nat" where
  "successes w = length (filter (\<lambda>a. a = Haptic) (wf_actions w))"

definition flow_inv :: "'v write_flow \<Rightarrow> bool" where
  "flow_inv w = (length (wf_inFlight w) \<le> 1 \<and> set (wf_inFlight w) \<subseteq> {wf_latest w} \<and>
     (wf_inFlight w \<noteq> [] \<longrightarrow> wf_lockRef w \<or> wf_seenPending w) \<and>
     length (wf_timers w) + closes w \<le> successes w)"

lemma no_invalidation [simp]:
  "filter (\<lambda>a. a = Called_onClose) (map (\<lambda>k. Invalidated (f k)) ks) = []"
  "filter (\<lambda>a. a = Haptic) (map (\<lambda>k. Invalidated (f k)) ks) = []"
  by (induction ks) simp_all

lemmas flow_defs = flow_inv_def closes_def successes_def wf_act_def wf_isPending_def

lemma one_shorter: "t \<in> set xs \<Longrightarrow> Suc (length (filter (\<lambda>x. x \<noteq> t) xs)) \<le> length xs"
  using length_filter_less [of t xs "\<lambda>x. x \<noteq> t"] by simp

lemma one_or_none: "length xs \<le> 1 \<Longrightarrow> r \<in> set xs \<Longrightarrow> filter (\<lambda>x. x \<noteq> r) xs = []"
  by (cases xs; cases "tl xs") auto

lemma inv_begin: "flow_inv w \<Longrightarrow> fst (flow_begin w) \<Longrightarrow> wf_inFlight w = []"
  by (auto simp: flow_defs flow_begin_def split: if_splits)

lemma inv_timers: "flow_inv w \<Longrightarrow> length ts \<le> length (wf_timers w) \<Longrightarrow> flow_inv (w\<lparr>wf_timers := ts\<rparr>)"
  by (simp add: flow_defs)

lemma inv_clear: "flow_inv w \<Longrightarrow> flow_inv (clear_close_timer w)"
  by (simp add: clear_close_timer_def inv_timers split: option.split)

lemma inv_commit:
  assumes "flow_inv w"
  shows "flow_inv (flow_commit b w)"
proof -
  let ?w = "w\<lparr>wf_seenPending := wf_isPending w, wf_open := b\<rparr>"
  have "wf_inFlight w \<noteq> [] \<Longrightarrow> wf_latest w \<in> set (wf_inFlight w)"
    using assms by (cases "wf_inFlight w") (simp_all add: flow_inv_def)
  then have 1: "flow_inv ?w" "flow_inv (?w\<lparr>wf_lockRef := False, wf_locked := False, wf_feedback := None\<rparr>)"
    using assms by (simp_all add: flow_defs)
  have 2: "flow_inv (v\<lparr>wf_closeTimerRef := None\<rparr>)" if "flow_inv v" for v :: "'a write_flow"
    using that by (simp add: flow_defs)
  show ?thesis
  proof (cases "b = wf_open w")
    case True
    with 1 show ?thesis by (simp only: flow_commit_def Let_def simp_thms if_True)
  next
    case False
    with 1 2 [OF inv_clear [OF 1(1)]] show ?thesis
      by (cases "wf_closeTimerRef ?w"; cases b) (simp_all only: flow_commit_def Let_def if_True if_False option.case)
  qed
qed

lemma inv_submit: "flow_inv w \<Longrightarrow> flow_inv (snd (submitLive v w))"
proof (cases "fst (flow_begin w)")
  case True
  assume i: "flow_inv w"
  from inv_begin [OF i True] i True show ?thesis
    by (simp add: submitLive_def flow_begin_def flow_defs split: if_splits)
qed (auto simp: submitLive_def flow_begin_def split: if_splits)

lemma inv_demo: "flow_inv w \<Longrightarrow> flow_inv (snd (completeDemo m w))"
proof (cases "fst (flow_begin w)")
  case True
  assume i: "flow_inv w"
  from inv_begin [OF i True] i True show ?thesis
    by (simp add: completeDemo_def flow_begin_def flow_finish_def flow_defs Let_def split: if_splits)
qed (auto simp: completeDemo_def flow_begin_def split: if_splits)

lemma inv_success: "flow_inv w \<Longrightarrow> flow_inv (flow_onSuccess opts r w)"
  by (simp add: flow_onSuccess_def flow_settled_def flow_finish_def flow_defs Let_def one_or_none)

lemma inv_error: "flow_inv w \<Longrightarrow> flow_inv (flow_onError r e w)"
  by (simp add: flow_onError_def flow_settled_def flow_defs Let_def one_or_none split: write_error.splits option.splits)

lemma inv_timer: "flow_inv w \<Longrightarrow> flow_inv (flow_timer t w)"
proof (cases "t \<in> set (wf_timers w)")
  case True
  assume i: "flow_inv w"
  from one_shorter [OF True] i True show ?thesis by (simp add: flow_timer_def flow_defs)
qed (simp add: flow_timer_def)

interpretation write_flow: machine "flow_step opts" flow_inv for opts
proof
  show "flow_inv (flow_step opts w e)" if "flow_inv w" for w :: "'v write_flow" and e
    using that
    by (cases e) (simp_all add: inv_commit inv_submit inv_demo inv_success inv_error inv_timer inv_clear)
qed

section \<open>Properties\<close>

text \<open>C10. At most one write is in flight, and the hook closes a dialog only after a success: in every run
  of the write flow, over all orders of submissions, double clicks between two renders, replies, timers
  and openings, there is never a second request without a reply to the first, and the number of times
  the hook closed the dialog is at most the number of writes that succeeded.\<close>

theorem single_write_in_flight:
  "let w = foldl (flow_step opts) initial_flow events
   in length (wf_inFlight w) \<le> 1 \<and> closes w \<le> successes w"
proof -
  have "flow_inv initial_flow" by (simp add: flow_defs initial_flow_def)
  from write_flow.inv_run [OF this, of opts events] show ?thesis by (simp add: flow_inv_def)
qed

text \<open>C11. An accepted write has an outcome: after a submission that the flow accepted, an error reply
  clears the lock on both sides (the ref and the state that the dialog reads, so that neither its buttons
  nor its dismissal stay blocked once the page has rendered), keeps the dialog open and shows the error,
  and the next submission is accepted; a successful reply invalidates the queries, schedules one timer,
  and that timer closes the dialog.\<close>

theorem accepted_write_outcome:
  assumes "submitLive v w = (True, w1)" "wf_fresh w \<notin> set (wf_inFlight w)" "wf_fresh w1 \<notin> set (wf_timers w)"
    "opened = wf_open w"
  shows "fst (submitLive v' (flow_commit opened (flow_onError (wf_latest w1) e w1))) \<and>
    \<not> wf_locked (flow_onError (wf_latest w1) e w1) \<and> \<not> wf_lockRef (flow_onError (wf_latest w1) e w1) \<and>
    \<not> wf_busy (flow_commit opened (flow_onError (wf_latest w1) e w1)) \<and>
    wf_open (flow_onError (wf_latest w1) e w1) = opened \<and>
    wf_feedback (flow_onError (wf_latest w1) e w1) = Some (Tone_error, error_message e) \<and>
    closes (flow_onError (wf_latest w1) e w1) = closes w \<and>
    wf_actions (flow_timer (wf_fresh w1) (flow_onSuccess opts (wf_latest w1) w1)) =
      wf_actions w @ [Sent_request v]
      @ map (\<lambda>key. Invalidated (query_key_of (opt_workspace opts) key)) (opt_invalidate opts)
      @ (if opt_invalidatePeriodReviews opts then [Invalidated (Key_period_reviews (opt_workspace opts))] else [])
      @ [Haptic, Called_onClose]"
proof -
  have w1: "w1 = wf_act [Sent_request v] (w\<lparr>wf_lockRef := True, wf_locked := True, wf_feedback := None,
      wf_inFlight := wf_fresh w # wf_inFlight w, wf_latest := wf_fresh w, wf_fresh := Suc (wf_fresh w)\<rparr>)"
    using assms(1) by (auto simp: submitLive_def flow_begin_def split: if_splits)
  then have "fst (submitLive v' (flow_commit opened (flow_onError (wf_latest w1) e w1)))"
    using assms(2,4) by (auto simp: flow_onError_def flow_settled_def flow_commit_def submitLive_def flow_begin_def
        wf_act_def wf_isPending_def Let_def split: write_error.splits option.splits)
  moreover have "\<not> wf_locked (flow_onError (wf_latest w1) e w1)" "\<not> wf_lockRef (flow_onError (wf_latest w1) e w1)"
    "wf_open (flow_onError (wf_latest w1) e w1) = opened"
    "\<not> wf_busy (flow_commit opened (flow_onError (wf_latest w1) e w1))"
    using assms(2,4) w1 by (auto simp: flow_onError_def flow_settled_def flow_commit_def wf_act_def wf_busy_def
        wf_isPending_def Let_def split: write_error.splits option.splits)
  moreover have "wf_feedback (flow_onError (wf_latest w1) e w1) = Some (Tone_error, error_message e)"
    "closes (flow_onError (wf_latest w1) e w1) = closes w"
    using w1 by (auto simp: flow_onError_def flow_settled_def wf_act_def closes_def Let_def
        split: write_error.splits option.splits)
  moreover have "wf_actions (flow_timer (wf_fresh w1) (flow_onSuccess opts (wf_latest w1) w1)) =
      wf_actions w @ [Sent_request v]
      @ map (\<lambda>key. Invalidated (query_key_of (opt_workspace opts) key)) (opt_invalidate opts)
      @ (if opt_invalidatePeriodReviews opts then [Invalidated (Key_period_reviews (opt_workspace opts))] else [])
      @ [Haptic, Called_onClose]"
    using w1 by (simp add: flow_onSuccess_def flow_settled_def flow_finish_def flow_timer_def wf_act_def Let_def)
  ultimately show ?thesis by blast
qed

theorem accepted_write_outcome_witness:
  "wf_actions (flow_timer 2 (flow_onSuccess
      \<lparr>opt_invalidate = [''bills'', ''notifications''], opt_invalidatePeriodReviews = True,
       opt_successMessage = ''Saved'', opt_workspace = ''w''\<rparr> 1
      (snd (submitLive ''v'' (flow_commit True initial_flow)))))
   = [Sent_request ''v'', Invalidated (Key_workspace ''bills'' ''w''), Invalidated Key_notifications,
      Invalidated (Key_period_reviews ''w''), Haptic, Called_onClose]"
proof -
  let ?w = "flow_commit True (initial_flow :: string write_flow)"
  obtain w1 where s: "submitLive ''v'' ?w = (True, w1)" "wf_fresh w1 = 2" "wf_latest w1 = 1"
    by (simp add: submitLive_def flow_begin_def flow_commit_def initial_flow_def wf_act_def wf_isPending_def Let_def)
  from accepted_write_outcome [OF s(1) _ _ refl, of _ _ "\<lparr>opt_invalidate = [''bills'', ''notifications''],
      opt_invalidatePeriodReviews = True, opt_successMessage = ''Saved'', opt_workspace = ''w''\<rparr>"] s
  show ?thesis
    by (simp add: flow_commit_def initial_flow_def wf_isPending_def Let_def query_key_of_def)
qed

end
