(* ===== verification/Overlays.thy ===== *)
theory Overlays
  imports JsValues
begin

text \<open>
  What lies over a page and what takes it away: the stack of layers that a back press dismisses
  (platform/back-layer-stack.ts), the decision what a back press does otherwise
  (platform/back-navigation.ts, executeBackAction of platform/native-app-bridge.tsx), the lock of the
  body's scrolling (platform/body-scroll-lock.ts) and the isolation of a modal from the rest of the
  page (lib/modal-isolation.ts). Closures that the code hands out are numbered.
\<close>

section \<open>Back layers\<close>

text \<open>\<open>bl_layers\<close> is the module's array, \<open>bl_registered\<close> the closures whose flag is still set.\<close>

record back_layers =
  bl_layers :: "nat list"
  bl_registered :: "nat set"
  bl_fresh :: nat

definition no_layers :: back_layers where
  "no_layers = \<lparr>bl_layers = [], bl_registered = {}, bl_fresh = 0\<rparr>"

definition registerBackLayer :: "back_layers \<Rightarrow> back_layers" where
  "registerBackLayer s = \<lparr>bl_layers = bl_layers s @ [bl_fresh s],
     bl_registered = insert (bl_fresh s) (bl_registered s), bl_fresh = Suc (bl_fresh s)\<rparr>"

definition remove_last :: "nat \<Rightarrow> nat list \<Rightarrow> nat list" where
  "remove_last x xs = rev (remove1 x (rev xs))"

definition unregisterBackLayer :: "nat \<Rightarrow> back_layers \<Rightarrow> back_layers" where
  "unregisterBackLayer l s =
     (if l \<notin> bl_registered s then s
      else s\<lparr>bl_registered := bl_registered s - {l}, bl_layers := remove_last l (bl_layers s)\<rparr>)"

text \<open>The layer whose \<open>dismiss\<close> is called, if there is one.\<close>

definition dismissTopBackLayer :: "back_layers \<Rightarrow> nat option" where
  "dismissTopBackLayer s = (if bl_layers s = [] then None else Some (last (bl_layers s)))"

section \<open>Back navigation\<close>

record location =
  loc_pathname :: string
  loc_search :: string
  loc_hash :: string

record back_input =
  bi_location :: location
  bi_isAuthenticated :: bool
  bi_canGoBack :: "bool option"
  bi_browserHistoryIndex :: "jsnum option"

datatype back_action =
    Replace_location location
  | History_back
  | Replace_root string
  | Exit_app

definition MODAL_KEYS :: "string list" where
  "MODAL_KEYS = [''add'', ''claim'']"

text \<open>\<open>decode\<close> is \<open>decodeURIComponent\<close>, \<open>None\<close> where it throws.\<close>

definition decodedQueryKey :: "(string \<Rightarrow> string option) \<Rightarrow> string \<Rightarrow> string" where
  "decodedQueryKey decode segment =
     (let rawKey = takeWhile (\<lambda>c. c \<noteq> CHR ''='') segment
      in case decode (replace_char (CHR ''+'') '' '' rawKey) of Some k \<Rightarrow> k | None \<Rightarrow> rawKey)"

definition removeModalSearch :: "(string \<Rightarrow> string option) \<Rightarrow> string \<Rightarrow> string option" where
  "removeModalSearch decode search =
     (let rawSearch = (if starts_with search ''?'' then drop 1 search else search)
      in if rawSearch = [] then None
         else (let segments = split_on (CHR ''&'') rawSearch;
                   preserved = filter (\<lambda>s. decodedQueryKey decode s \<notin> set MODAL_KEYS) segments;
                   removed = list_ex (\<lambda>s. decodedQueryKey decode s \<in> set MODAL_KEYS) segments
               in if \<not> removed then None
                  else Some (if length preserved > 0 then ''?'' @ js_join ''&'' preserved else [])))"

definition hasUsableHistory :: "back_input \<Rightarrow> bool" where
  "hasUsableHistory input = (case bi_canGoBack input of
       Some b \<Rightarrow> b
     | None \<Rightarrow> (case bi_browserHistoryIndex input of Some (Fin r) \<Rightarrow> is_whole r \<and> r > 0 | _ \<Rightarrow> False))"

definition decideBackAction :: "(string \<Rightarrow> string option) \<Rightarrow> back_input \<Rightarrow> back_action" where
  "decideBackAction decode input =
     (let loc = bi_location input
      in case removeModalSearch decode (loc_search loc) of
           Some modalFreeSearch \<Rightarrow> Replace_location (loc\<lparr>loc_search := modalFreeSearch\<rparr>)
         | None \<Rightarrow>
             if hasUsableHistory input then History_back
             else if loc_pathname loc = ''/'' \<or> loc_pathname loc = ''/login''
                     \<or> (loc_pathname loc = ''/app/home'' \<and> bi_isAuthenticated input) then Exit_app
             else Replace_root (if bi_isAuthenticated input then ''/app/home'' else ''/''))"

text \<open>The history of the application's window: the current location and those below it. \<open>Exited\<close> is the
  closed application.\<close>

record app_window =
  win_current :: location
  win_below :: "location list"
  win_layers :: back_layers

datatype back_effect = Dismissed nat | Navigated app_window | Exited

definition window_input :: "bool \<Rightarrow> app_window \<Rightarrow> back_input" where
  "window_input authenticated w = \<lparr>bi_location = win_current w, bi_isAuthenticated = authenticated,
     bi_canGoBack = Some (win_below w \<noteq> []), bi_browserHistoryIndex = None\<rparr>"

definition executeBackAction :: "(string \<Rightarrow> string option) \<Rightarrow> bool \<Rightarrow> app_window \<Rightarrow> back_effect" where
  "executeBackAction decode authenticated w = (case dismissTopBackLayer (win_layers w) of
       Some l \<Rightarrow> Dismissed l
     | None \<Rightarrow> (case decideBackAction decode (window_input authenticated w) of
           Replace_location loc \<Rightarrow> Navigated (w\<lparr>win_current := loc\<rparr>)
         | History_back \<Rightarrow> Navigated (case win_below w of
               [] \<Rightarrow> w | l # ls \<Rightarrow> w\<lparr>win_current := l, win_below := ls\<rparr>)
         | Replace_root p \<Rightarrow> Navigated (w\<lparr>win_current := \<lparr>loc_pathname = p, loc_search = [], loc_hash = []\<rparr>\<rparr>)
         | Exit_app \<Rightarrow> Exited))"

section \<open>The scroll lock\<close>

record body_styles =
  st_position :: string
  st_top :: string
  st_left :: string
  st_right :: string
  st_overflow :: string

record scroll_state =
  sl_count :: int
  sl_scrollY :: rat
  sl_styles :: body_styles

record scroll_page =
  sp_state :: "scroll_state option"
  sp_body :: body_styles
  sp_scrollY :: rat
  sp_released :: "nat set"
  sp_fresh :: nat

definition locked_styles :: "rat \<Rightarrow> body_styles" where
  "locked_styles y = \<lparr>st_position = ''fixed'', st_top = ''-'' @ num_string (Fin y) @ ''px'', st_left = ''0'',
     st_right = ''0'', st_overflow = ''hidden''\<rparr>"

text \<open>The closure returned by the lock is \<open>sp_fresh\<close> of the state before.\<close>

definition lockBodyScroll :: "scroll_page \<Rightarrow> scroll_page" where
  "lockBodyScroll p =
     (let p1 = (case sp_state p of
            None \<Rightarrow> p\<lparr>sp_state := Some \<lparr>sl_count = 0, sl_scrollY = sp_scrollY p, sl_styles = sp_body p\<rparr>,
                      sp_body := locked_styles (sp_scrollY p)\<rparr>
          | Some _ \<Rightarrow> p)
      in p1\<lparr>sp_state := map_option (\<lambda>s. s\<lparr>sl_count := sl_count s + 1\<rparr>) (sp_state p1), sp_fresh := Suc (sp_fresh p1)\<rparr>)"

definition releaseBodyScroll :: "nat \<Rightarrow> scroll_page \<Rightarrow> scroll_page" where
  "releaseBodyScroll c p = (case sp_state p of
       None \<Rightarrow> p
     | Some s \<Rightarrow>
         if c \<in> sp_released p then p
         else (let n = sl_count s - 1;
                   p1 = p\<lparr>sp_released := insert c (sp_released p), sp_state := Some (s\<lparr>sl_count := n\<rparr>)\<rparr>
               in if n > 0 then p1
                  else p1\<lparr>sp_state := None, sp_body := sl_styles s, sp_scrollY := sl_scrollY s\<rparr>))"

datatype scroll_event = Lock_scroll | Release_scroll nat | Page_scrolled rat

fun scroll_step :: "scroll_page \<Rightarrow> scroll_event \<Rightarrow> scroll_page" where
  "scroll_step p Lock_scroll = lockBodyScroll p"
| "scroll_step p (Release_scroll c) = (if c < sp_fresh p then releaseBodyScroll c p else p)"
| "scroll_step p (Page_scrolled y) = p\<lparr>sp_scrollY := y\<rparr>"

section \<open>Modal isolation\<close>

text \<open>The attributes of an element that the isolation changes.\<close>

type_synonym isolation = "bool \<times> string option"

record 'el isolated_sibling =
  is_element :: 'el
  is_inert :: bool
  is_ariaHidden :: "string option"

record 'el page_body =
  pb_children :: "'el list"
  pb_exempt :: "'el \<Rightarrow> bool"
  pb_attributes :: "'el \<Rightarrow> isolation"

definition isolated_siblings :: "'el \<Rightarrow> 'el page_body \<Rightarrow> 'el isolated_sibling list" where
  "isolated_siblings modalRoot b =
     map (\<lambda>e. \<lparr>is_element = e, is_inert = fst (pb_attributes b e), is_ariaHidden = snd (pb_attributes b e)\<rparr>)
       (filter (\<lambda>e. e \<noteq> modalRoot \<and> \<not> pb_exempt b e) (pb_children b))"

definition isolateBodySiblings :: "'el \<Rightarrow> 'el page_body \<Rightarrow> 'el page_body" where
  "isolateBodySiblings modalRoot b =
     foldl (\<lambda>b s. b\<lparr>pb_attributes := (pb_attributes b)(is_element s := (True, Some ''true''))\<rparr>)
       b (isolated_siblings modalRoot b)"

definition restoreSiblings :: "'el isolated_sibling list \<Rightarrow> 'el page_body \<Rightarrow> 'el page_body" where
  "restoreSiblings siblings b =
     foldl (\<lambda>b s. b\<lparr>pb_attributes := (pb_attributes b)(is_element s := (is_inert s, is_ariaHidden s))\<rparr>) b siblings"

section \<open>Layers\<close>

datatype layer_event = Register_layer | Unregister_layer nat

fun layer_step :: "back_layers \<Rightarrow> layer_event \<Rightarrow> back_layers" where
  "layer_step s Register_layer = registerBackLayer s"
| "layer_step s (Unregister_layer l) = unregisterBackLayer l s"

definition layers_inv :: "back_layers \<Rightarrow> bool" where
  "layers_inv s = (sorted_wrt (<) (bl_layers s) \<and> set (bl_layers s) = bl_registered s \<and> (\<forall>l \<in> bl_registered s. l < bl_fresh s))"

lemma distinct_increasing: "sorted_wrt (<) xs \<Longrightarrow> distinct xs" for xs :: "nat list"
  using strict_sorted_iff by blast

lemma remove_last_filter: "distinct xs \<Longrightarrow> remove_last x xs = filter (\<lambda>y. y \<noteq> x) xs"
  using distinct_remove1_removeAll [of "rev xs" x]
  by (simp add: remove_last_def removeAll_filter_not_eq rev_filter [symmetric] eq_commute)

interpretation layers: machine layer_step layers_inv
proof
  fix s e
  assume i: "layers_inv s"
  show "layers_inv (layer_step s e)"
  proof (cases e)
    case Register_layer
    with i show ?thesis by (auto simp: layers_inv_def registerBackLayer_def sorted_wrt_append)
  next
    case (Unregister_layer l)
    have "distinct (bl_layers s)" using i by (simp add: layers_inv_def distinct_increasing)
    with i Unregister_layer show ?thesis
      by (auto simp: layers_inv_def unregisterBackLayer_def remove_last_filter sorted_wrt_filter)
  qed
qed

text \<open>The layer dismissed is the youngest one still registered.\<close>

lemma dismiss_youngest:
  assumes "layers_inv s"
  shows "dismissTopBackLayer s = (if bl_registered s = {} then None else Some (Max (bl_registered s)))"
proof (cases "bl_layers s" rule: rev_cases)
  case Nil
  with assms show ?thesis by (auto simp: layers_inv_def dismissTopBackLayer_def)
next
  case (snoc ls l)
  with assms have "bl_registered s = insert l (set ls)" "\<forall>x \<in> set ls. x < l"
    by (auto simp: layers_inv_def sorted_wrt_append)
  moreover from this have "Max (insert l (set ls)) = l" by (intro Max_eqI) auto
  ultimately show ?thesis using snoc by (simp add: dismissTopBackLayer_def)
qed

section \<open>Presses of the back button\<close>

text \<open>The presses until the application closes, given that nothing else happens; \<open>fuel\<close> bounds them.\<close>

fun presses_to_exit :: "(string \<Rightarrow> string option) \<Rightarrow> bool \<Rightarrow> nat \<Rightarrow> app_window \<Rightarrow> nat option" where
  "presses_to_exit decode authenticated 0 w = None"
| "presses_to_exit decode authenticated (Suc fuel) w = (case executeBackAction decode authenticated w of
       Exited \<Rightarrow> Some 1
     | Navigated w' \<Rightarrow> map_option Suc (presses_to_exit decode authenticated fuel w')
     | Dismissed l \<Rightarrow> None)"

lemma split_on_no_separator: "s \<in> set (split_on c w) \<Longrightarrow> c \<notin> set s"
  by (induction w arbitrary: s) (auto split: if_splits list.splits)

lemma split_on_join_all:
  assumes "ss \<noteq> []" "\<forall>s \<in> set ss. c \<notin> set s"
  shows "split_on c (js_join [c] ss) = ss"
  using assms
proof (induction "[c]" ss rule: js_join.induct)
  case (2 x)
  then show ?case by (simp add: split_on_none)
next
  case (3 x y xs)
  then show ?case by (simp add: split_on_append)
qed simp

text \<open>One press takes away every modal parameter.\<close>

lemma removeModalSearch_once:
  assumes "removeModalSearch decode search = Some r"
  shows "removeModalSearch decode r = None"
proof -
  let ?P = "\<lambda>s. decodedQueryKey decode s \<notin> set MODAL_KEYS"
  define raw where "raw = (if starts_with search ''?'' then drop 1 search else search)"
  have raw: "r = (if filter ?P (split_on (CHR ''&'') raw) \<noteq> []
      then ''?'' @ js_join ''&'' (filter ?P (split_on (CHR ''&'') raw)) else [])"
    using assms unfolding removeModalSearch_def Let_def raw_def [symmetric] by (simp split: if_splits)
  let ?ss = "filter ?P (split_on (CHR ''&'') raw)"
  show ?thesis
  proof (cases "?ss = []")
    case True
    with raw show ?thesis by (simp add: removeModalSearch_def starts_with_def)
  next
    case False
    have "split_on (CHR ''&'') (js_join ''&'' ?ss) = ?ss"
      by (rule split_on_join_all) (use False in \<open>auto dest: split_on_no_separator\<close>)
    moreover have "\<not> list_ex (\<lambda>s. \<not> ?P s) ?ss" by (auto simp: list_ex_iff)
    ultimately show ?thesis
      using raw False by (simp add: removeModalSearch_def starts_with_def Let_def)
  qed
qed

definition press_measure :: "(string \<Rightarrow> string option) \<Rightarrow> bool \<Rightarrow> app_window \<Rightarrow> nat" where
  "press_measure decode authenticated w =
     2 * length (win_below w) + (if removeModalSearch decode (loc_search (win_current w)) \<noteq> None then 1 else 0)
     + (if win_below w = [] \<and> decideBackAction decode (window_input authenticated (w\<lparr>win_current := (win_current w)\<lparr>loc_search := []\<rparr>\<rparr>)) = Exit_app
        then 1 else 2)"

lemma press_decreases:
  assumes "executeBackAction decode authenticated w = Navigated w'" "bl_layers (win_layers w) = []"
  shows "press_measure decode authenticated w' < press_measure decode authenticated w \<and> bl_layers (win_layers w') = []"
proof -
  have empty: "removeModalSearch decode [] = None" by (simp add: removeModalSearch_def starts_with_def)
  have none: "dismissTopBackLayer (win_layers w) = None" using assms(2) by (simp add: dismissTopBackLayer_def)
  let ?loc = "win_current w"
  show ?thesis
  proof (cases "removeModalSearch decode (loc_search ?loc)")
    case (Some r)
    then have "w' = w\<lparr>win_current := ?loc\<lparr>loc_search := r\<rparr>\<rparr>"
      using assms(1) none by (simp add: executeBackAction_def decideBackAction_def window_input_def Let_def)
    with assms(2) Some removeModalSearch_once [OF Some] show ?thesis by (simp add: press_measure_def window_input_def)
  next
    case None
    show ?thesis
    proof (cases "win_below w")
      case (Cons l ls)
      then have "w' = w\<lparr>win_current := l, win_below := ls\<rparr>"
        using assms(1) none None
        by (simp add: executeBackAction_def decideBackAction_def window_input_def hasUsableHistory_def Let_def)
      with assms(2) Cons None show ?thesis by (simp add: press_measure_def)
    next
      case Nil
      then have d: "decideBackAction decode (window_input authenticated w) =
          decideBackAction decode (window_input authenticated (w\<lparr>win_current := ?loc\<lparr>loc_search := []\<rparr>\<rparr>))"
        using None empty by (simp add: decideBackAction_def window_input_def hasUsableHistory_def Let_def)
      have "w' = w\<lparr>win_current := \<lparr>loc_pathname = (if authenticated then ''/app/home'' else ''/''), loc_search = [], loc_hash = []\<rparr>\<rparr>
          \<and> decideBackAction decode (window_input authenticated w) \<noteq> Exit_app"
        using assms(1) none None Nil
        by (simp add: executeBackAction_def decideBackAction_def window_input_def hasUsableHistory_def Let_def split: if_splits)
      with assms(2) Nil None d empty show ?thesis
        by (simp add: press_measure_def) (simp add: decideBackAction_def window_input_def hasUsableHistory_def Let_def)
    qed
  qed
qed

lemma presses_bounded:
  assumes "bl_layers (win_layers w) = []" "press_measure decode authenticated w \<le> fuel"
  shows "\<exists>n \<le> press_measure decode authenticated w. presses_to_exit decode authenticated fuel w = Some n"
  using assms
proof (induction fuel arbitrary: w)
  case 0
  then show ?case by (simp add: press_measure_def split: if_splits)
next
  case (Suc fuel)
  show ?case
  proof (cases "executeBackAction decode authenticated w")
    case (Dismissed l)
    with Suc.prems(1) show ?thesis
      by (auto simp: executeBackAction_def dismissTopBackLayer_def split: back_action.splits)
  next
    case (Navigated w')
    with Suc.prems press_decreases [OF Navigated Suc.prems(1)] Suc.IH [of w'] obtain n where
      "n \<le> press_measure decode authenticated w'" "presses_to_exit decode authenticated fuel w' = Some n" by auto
    with Navigated press_decreases [OF Navigated Suc.prems(1)] show ?thesis by (intro exI [of _ "Suc n"]) simp
  next
    case Exited
    have "1 \<le> press_measure decode authenticated w" by (simp add: press_measure_def)
    with Exited show ?thesis by (intro exI [of _ 1]) simp
  qed
qed

section \<open>The scroll lock\<close>

definition held :: "scroll_page \<Rightarrow> nat set" where
  "held p = {c. c < sp_fresh p \<and> c \<notin> sp_released p}"

definition scroll_inv :: "body_styles \<Rightarrow> scroll_page \<Rightarrow> bool" where
  "scroll_inv styles p = (sp_released p \<subseteq> {..<sp_fresh p} \<and> (case sp_state p of
       None \<Rightarrow> held p = {} \<and> sp_body p = styles
     | Some s \<Rightarrow> held p \<noteq> {} \<and> sl_count s = int (card (held p)) \<and> sl_styles s = styles \<and>
         sp_body p = locked_styles (sl_scrollY s)))"

lemma finite_held [simp]: "finite (held p)"
  by (simp add: held_def)

lemma held_lock: "sp_released p \<subseteq> {..<sp_fresh p} \<Longrightarrow> held (lockBodyScroll p) = insert (sp_fresh p) (held p)"
  by (auto simp: held_def lockBodyScroll_def Let_def split: option.splits)

lemma fresh_not_held: "sp_fresh p \<notin> held p"
  by (simp add: held_def)

lemma inv_lock: "scroll_inv styles p \<Longrightarrow> scroll_inv styles (lockBodyScroll p)"
proof -
  assume i: "scroll_inv styles p"
  then have h: "held (lockBodyScroll p) = insert (sp_fresh p) (held p)" by (simp add: scroll_inv_def held_lock)
  have r: "sp_released (lockBodyScroll p) \<subseteq> {..<sp_fresh (lockBodyScroll p)}"
    using i by (auto simp: scroll_inv_def lockBodyScroll_def Let_def split: option.splits)
  show ?thesis
  proof (cases "sp_state p")
    case None
    with i h r fresh_not_held [of p] show ?thesis by (simp add: scroll_inv_def lockBodyScroll_def Let_def)
  next
    case (Some s)
    with i h r fresh_not_held [of p] show ?thesis by (simp add: scroll_inv_def lockBodyScroll_def Let_def)
  qed
qed

lemma inv_release:
  assumes i: "scroll_inv styles p" and c: "c < sp_fresh p"
  shows "scroll_inv styles (releaseBodyScroll c p)"
proof (cases "sp_state p")
  case None
  with i show ?thesis by (simp add: releaseBodyScroll_def)
next
  case (Some s)
  show ?thesis
  proof (cases "c \<in> sp_released p")
    case True
    with i Some show ?thesis by (simp add: releaseBodyScroll_def)
  next
    case False
    with c have m: "c \<in> held p" by (simp add: held_def)
    have h: "held (releaseBodyScroll c p) = held p - {c}"
      using Some False by (auto simp: held_def releaseBodyScroll_def Let_def)
    have n: "sl_count s = int (card (held p))" using i Some by (simp add: scroll_inv_def)
    have cd: "int (card (held p - {c})) = sl_count s - 1"
      using m n card_Diff_singleton [OF m] card_gt_0_iff [of "held p"] by (auto simp: of_nat_diff)
    have r: "sp_released (releaseBodyScroll c p) \<subseteq> {..<sp_fresh (releaseBodyScroll c p)}"
      using i Some False c by (auto simp: scroll_inv_def releaseBodyScroll_def Let_def)
    show ?thesis
    proof (cases "sl_count s - 1 > 0")
      case True
      with cd have "held p - {c} \<noteq> {}" by (metis card.empty of_nat_0 less_irrefl)
      with True i Some False h cd r show ?thesis by (simp add: scroll_inv_def releaseBodyScroll_def Let_def)
    next
      case n0: False
      with cd have "card (held p - {c}) = 0" by linarith
      then have "held p - {c} = {}" by simp
      with n0 i Some False h r show ?thesis by (simp add: scroll_inv_def releaseBodyScroll_def Let_def)
    qed
  qed
qed

interpretation scroll_lock: machine scroll_step "scroll_inv styles" for styles
proof
  show "scroll_inv styles (scroll_step p e)" if "scroll_inv styles p" for p e
  proof (cases e)
    case (Page_scrolled y)
    have "held (p\<lparr>sp_scrollY := y\<rparr>) = held p" by (simp add: held_def)
    with that Page_scrolled show ?thesis by (cases "sp_state p") (simp_all add: scroll_inv_def)
  qed (use that in \<open>simp_all add: inv_lock inv_release\<close>)
qed

definition unlocked_page :: "body_styles \<Rightarrow> rat \<Rightarrow> scroll_page" where
  "unlocked_page styles y = \<lparr>sp_state = None, sp_body = styles, sp_scrollY = y, sp_released = {}, sp_fresh = 0\<rparr>"

lemma last_release_restores:
  assumes "scroll_inv styles p" "held p = {c}" "sp_state p = Some s"
  shows "sp_scrollY (releaseBodyScroll c p) = sl_scrollY s \<and> sp_body (releaseBodyScroll c p) = styles"
proof -
  have "c \<in> held p" using assms(2) by simp
  then have "c \<notin> sp_released p" by (simp add: held_def)
  with assms show ?thesis by (simp add: scroll_inv_def releaseBodyScroll_def Let_def)
qed

definition scroll_run :: "body_styles \<Rightarrow> rat \<Rightarrow> scroll_event list \<Rightarrow> scroll_page" where
  "scroll_run styles y es = foldl scroll_step (unlocked_page styles y) es"

lemma scroll_run_Nil [simp]: "scroll_run styles y [] = unlocked_page styles y"
  by (simp add: scroll_run_def)

lemma scroll_run_snoc [simp]: "scroll_run styles y (es @ [e]) = scroll_step (scroll_run styles y es) e"
  by (simp add: scroll_run_def)

lemma scroll_run_inv: "scroll_inv styles (scroll_run styles y es)"
proof -
  have "scroll_inv styles (unlocked_page styles y)" by (simp add: scroll_inv_def unlocked_page_def held_def)
  then show ?thesis unfolding scroll_run_def by (rule scroll_lock.inv_run)
qed

text \<open>Only a lock ends a time without locks, and it stores the position; while some lock stays held the
  stored position does not move.\<close>

lemma first_lock:
  assumes "held p = {}" "held (scroll_step p e) \<noteq> {}" "scroll_inv styles p"
  shows "e = Lock_scroll \<and> (\<exists>s. sp_state (scroll_step p e) = Some s \<and> sl_scrollY s = sp_scrollY p)"
proof (cases "sp_state p")
  case None
  with assms(1,2) show ?thesis
    by (cases e) (auto simp: held_def lockBodyScroll_def releaseBodyScroll_def Let_def split: if_splits)
next
  case (Some s)
  with assms(1,3) show ?thesis by (simp add: scroll_inv_def)
qed

lemma later_lock:
  assumes "sp_state p = Some s" "held (scroll_step p e) \<noteq> {}" "scroll_inv styles (scroll_step p e)"
  shows "\<exists>s'. sp_state (scroll_step p e) = Some s' \<and> sl_scrollY s' = sl_scrollY s"
proof (cases "sp_state (scroll_step p e)")
  case None
  with assms(2,3) show ?thesis by (simp add: scroll_inv_def)
next
  case (Some s')
  with assms(1) show ?thesis
    by (cases e) (auto simp: lockBodyScroll_def releaseBodyScroll_def Let_def split: if_splits)
qed

lemma locked_since:
  "held (scroll_run styles y es) \<noteq> {} \<Longrightarrow> \<exists>es1 es2 s. es = es1 @ Lock_scroll # es2 \<and>
     held (scroll_run styles y es1) = {} \<and>
     (\<forall>n. held (scroll_run styles y (es1 @ Lock_scroll # take n es2)) \<noteq> {}) \<and>
     sp_state (scroll_run styles y es) = Some s \<and> sl_scrollY s = sp_scrollY (scroll_run styles y es1)"
proof (induction es rule: rev_induct)
  case Nil
  then show ?case by (simp add: unlocked_page_def held_def)
next
  case (snoc e es)
  let ?q = "scroll_run styles y es"
  have h: "held (scroll_step ?q e) \<noteq> {}" using snoc.prems by simp
  show ?case
  proof (cases "held ?q = {}")
    case True
    from first_lock [OF True h scroll_run_inv] obtain s where "e = Lock_scroll"
      "sp_state (scroll_step ?q e) = Some s" "sl_scrollY s = sp_scrollY ?q" by blast
    with True h show ?thesis by (intro exI [of _ es] exI [of _ "[]"] exI [of _ s]) simp
  next
    case False
    from snoc.IH [OF False] obtain es1 es2 s where i: "es = es1 @ Lock_scroll # es2"
      "held (scroll_run styles y es1) = {}"
      "\<And>n. held (scroll_run styles y (es1 @ Lock_scroll # take n es2)) \<noteq> {}"
      "sp_state ?q = Some s" "sl_scrollY s = sp_scrollY (scroll_run styles y es1)" by blast
    have inv: "scroll_inv styles (scroll_step ?q e)" using scroll_run_inv [of styles y "es @ [e]"] by simp
    from later_lock [OF i(4) h inv] obtain s' where s': "sp_state (scroll_step ?q e) = Some s'"
      "sl_scrollY s' = sl_scrollY s" by blast
    have "held (scroll_run styles y (es1 @ Lock_scroll # take n (es2 @ [e]))) \<noteq> {}" for n
    proof (cases "n \<le> length es2")
      case True
      with i(3) [of n] show ?thesis by simp
    next
      case False
      with h i(1) scroll_run_snoc [of styles y es e] show ?thesis by simp
    qed
    moreover have "es @ [e] = es1 @ Lock_scroll # (es2 @ [e])" using i(1) by simp
    moreover have "sp_state (scroll_run styles y (es @ [e])) = Some s'"
      "sl_scrollY s' = sp_scrollY (scroll_run styles y es1)" using s' i(5) by simp_all
    ultimately show ?thesis using i(2) by blast
  qed
qed

section \<open>Isolated modals\<close>

lemma isolate_attributes:
  "pb_attributes (foldl (\<lambda>b s. b\<lparr>pb_attributes := (pb_attributes b)(is_element s := (True, Some ''true''))\<rparr>) b ss) e
   = (if e \<in> is_element ` set ss then (True, Some ''true'') else pb_attributes b e)"
  by (induction ss arbitrary: b) auto

lemma restore_attributes:
  assumes "\<forall>s \<in> set ss. (is_inert s, is_ariaHidden s) = A (is_element s)"
  shows "pb_attributes (restoreSiblings ss b) e = (if e \<in> is_element ` set ss then A e else pb_attributes b e)"
  using assms unfolding restoreSiblings_def by (induction ss arbitrary: b) auto

lemma siblings_snapshot:
  "\<forall>s \<in> set (isolated_siblings r b). (is_inert s, is_ariaHidden s) = pb_attributes b (is_element s)"
  by (auto simp: isolated_siblings_def)

lemma restore_isolated:
  assumes "\<And>e. pb_attributes b' e = pb_attributes (isolateBodySiblings r b) e"
  shows "pb_attributes (restoreSiblings (isolated_siblings r b) b') = pb_attributes b"
  by (rule ext) (simp add: restore_attributes [OF siblings_snapshot] assms isolateBodySiblings_def isolate_attributes)

text \<open>A modal with the modals opened and closed while it is open, in order.\<close>

datatype 'el modal = Modal 'el "'el modal list"

fun run_modal :: "'el page_body \<Rightarrow> 'el modal \<Rightarrow> 'el page_body" where
  "run_modal b (Modal r inner) =
     restoreSiblings (isolated_siblings r b) (foldl run_modal (isolateBodySiblings r b) inner)"

lemma run_modal_restores: "pb_attributes (run_modal b m) = pb_attributes b"
proof (induction b m rule: run_modal.induct)
  case (1 b r inner)
  have "pb_attributes (foldl run_modal c ms) = pb_attributes c"
    if "\<And>x c. x \<in> set ms \<Longrightarrow> pb_attributes (run_modal c x) = pb_attributes c" for c ms
    using that by (induction ms arbitrary: c) auto
  then have "pb_attributes (foldl run_modal (isolateBodySiblings r b) inner) = pb_attributes (isolateBodySiblings r b)"
    using 1 by blast
  then show ?case by (simp add: restore_isolated)
qed

section \<open>What a back press, the lock and a modal promise\<close>

text \<open>C13. Where no layer is open, pressing back again and again closes the application: every press
  takes away a modal parameter, goes down in the history, or leads to the root of the session, and after
  at most twice the length of the history and three presses nothing is left to go back to.\<close>
theorem back_reaches_exit:
  assumes "bl_layers (win_layers w) = []"
  shows "\<exists>n \<le> 2 * length (win_below w) + 3.
    presses_to_exit decode authenticated (2 * length (win_below w) + 3) w = Some n"
proof -
  have m: "press_measure decode authenticated w \<le> 2 * length (win_below w) + 3"
    by (simp add: press_measure_def)
  from presses_bounded [OF assms m] obtain n where
    "n \<le> press_measure decode authenticated w"
    "presses_to_exit decode authenticated (2 * length (win_below w) + 3) w = Some n" by blast
  with m show ?thesis by (intro exI [of _ n]) simp
qed

definition example_location :: "string \<Rightarrow> string \<Rightarrow> location" where
  "example_location path search = \<lparr>loc_pathname = path, loc_search = search, loc_hash = []\<rparr>"

definition example_window :: app_window where
  "example_window = \<lparr>win_current = example_location ''/app/goals'' ''?add=goal'',
     win_below = [example_location ''/app/bills'' []], win_layers = no_layers\<rparr>"

theorem back_reaches_exit_witness:
  "bl_layers (win_layers example_window) = [] \<and>
   (\<exists>n \<le> 5. presses_to_exit Some True 5 example_window = Some n)"
  using back_reaches_exit [of example_window Some True] by (simp add: example_window_def no_layers_def)

text \<open>C14. The scroll lock is balanced: after any sequence of locks, releases (each closure any number of
  times) and scrolling, the body has its own styles exactly if every lock was released. Otherwise there
  is a first lock, the one since which some lock has always been held: the body is fixed at the scroll
  position the page had just before that lock, whatever was locked, released or scrolled since, the
  counter is the number of locks held, and the last release scrolls the page back to that position.\<close>
theorem scroll_lock_balanced:
  "let p = scroll_run styles y es
   in if held p = {} then sp_state p = None \<and> sp_body p = styles
      else \<exists>es1 es2 s. es = es1 @ Lock_scroll # es2 \<and> held (scroll_run styles y es1) = {} \<and>
             (\<forall>n. held (scroll_run styles y (es1 @ Lock_scroll # take n es2)) \<noteq> {}) \<and>
             sp_state p = Some s \<and> sl_count s = int (card (held p)) \<and>
             sp_body p = locked_styles (sp_scrollY (scroll_run styles y es1)) \<and>
             (\<forall>c. held p = {c} \<longrightarrow>
               sp_scrollY (releaseBodyScroll c p) = sp_scrollY (scroll_run styles y es1) \<and>
               sp_body (releaseBodyScroll c p) = styles)"
proof (cases "held (scroll_run styles y es) = {}")
  case True
  with scroll_run_inv [of styles y es] show ?thesis
    by (cases "sp_state (scroll_run styles y es)") (simp_all add: Let_def scroll_inv_def)
next
  case False
  let ?p = "scroll_run styles y es"
  from locked_since [OF False] obtain es1 es2 s where e: "es = es1 @ Lock_scroll # es2"
    "held (scroll_run styles y es1) = {}" "\<forall>n. held (scroll_run styles y (es1 @ Lock_scroll # take n es2)) \<noteq> {}"
    "sp_state ?p = Some s" "sl_scrollY s = sp_scrollY (scroll_run styles y es1)" by blast
  have i: "sl_count s = int (card (held ?p))" "sp_body ?p = locked_styles (sl_scrollY s)"
    using scroll_run_inv [of styles y es] e(4) by (simp_all add: scroll_inv_def)
  have r: "sp_scrollY (releaseBodyScroll c ?p) = sl_scrollY s \<and> sp_body (releaseBodyScroll c ?p) = styles"
    if "held ?p = {c}" for c
    using last_release_restores [OF scroll_run_inv that e(4)] by simp
  have "\<forall>c. held ?p = {c} \<longrightarrow> sp_scrollY (releaseBodyScroll c ?p) = sp_scrollY (scroll_run styles y es1) \<and>
      sp_body (releaseBodyScroll c ?p) = styles"
    using r e(5) by simp
  with False e i show ?thesis unfolding Let_def by auto
qed

theorem scroll_lock_balanced_witness:
  "let s = \<lparr>st_position = [], st_top = [], st_left = [], st_right = [], st_overflow = []\<rparr>;
       p = scroll_run s 0 [Page_scrolled 7, Lock_scroll, Page_scrolled 0, Lock_scroll, Release_scroll 0]
   in sp_body p = locked_styles 7 \<and> sp_scrollY (releaseBodyScroll 1 p) = 7 \<and> sp_body (releaseBodyScroll 1 p) = s"
proof -
  define s where "s = \<lparr>st_position = [], st_top = [], st_left = [], st_right = [], st_overflow = []\<rparr>"
  let ?es = "[Page_scrolled 7, Lock_scroll, Page_scrolled 0, Lock_scroll, Release_scroll 0]"
  have h: "held (scroll_run s 0 ?es) = {1}"
    by (auto simp: scroll_run_def held_def unlocked_page_def lockBodyScroll_def releaseBodyScroll_def Let_def)
  have before: "held (scroll_run s 0 es1) = {} \<Longrightarrow> es1 @ Lock_scroll # es2 = ?es \<Longrightarrow> es1 = [Page_scrolled 7]"
    for es1 es2
    by (auto simp: Cons_eq_append_conv append_eq_Cons_conv scroll_run_def held_def unlocked_page_def
        lockBodyScroll_def Let_def)
  from scroll_lock_balanced [of s 0 ?es] h obtain es1 es2 where e: "?es = es1 @ Lock_scroll # es2"
    "held (scroll_run s 0 es1) = {}" "sp_body (scroll_run s 0 ?es) = locked_styles (sp_scrollY (scroll_run s 0 es1))"
    "sp_scrollY (releaseBodyScroll 1 (scroll_run s 0 ?es)) = sp_scrollY (scroll_run s 0 es1)"
    "sp_body (releaseBodyScroll 1 (scroll_run s 0 ?es)) = s"
    unfolding Let_def by (metis insert_not_empty)
  from before [OF e(2) e(1) [symmetric]] have "sp_scrollY (scroll_run s 0 es1) = 7"
    by (simp add: scroll_run_def unlocked_page_def)
  with e show ?thesis by (simp add: Let_def s_def [symmetric])
qed

text \<open>Modals that open and close in order leave every element of the page as they found it, however
  they are nested.\<close>
theorem nested_modals_restore: "pb_attributes (foldl run_modal b ms) = pb_attributes b"
  by (induction ms arbitrary: b) (simp_all add: run_modal_restores)

definition two_modals :: "nat page_body" where
  "two_modals = \<lparr>pb_children = [0, 1], pb_exempt = (\<lambda>e. False), pb_attributes = (\<lambda>e. (False, None))\<rparr>"

text \<open>Two modals closed in the order in which they were opened leave the page inert: the second one
  remembers the state that the first had imposed, and puts it back after the first has gone.\<close>

theorem overlapping_modals_stay_inert:
  "let opened = isolateBodySiblings 1 two_modals;
       both = opened\<lparr>pb_children := [0, 1, 2]\<rparr>;
       second = isolateBodySiblings 2 both;
       first_closed = restoreSiblings (isolated_siblings 1 two_modals) second;
       second_closed = restoreSiblings (isolated_siblings 2 both) first_closed
   in pb_attributes two_modals 0 = (False, None) \<and> pb_attributes second_closed 0 = (True, Some ''true'')"
  by (simp add: two_modals_def isolateBodySiblings_def isolated_siblings_def restoreSiblings_def)

end
