(* ===== verification/QueryParams.thy ===== *)
theory QueryParams
  imports JsValues
begin

text \<open>
  The query of a location, as the pages read and write it: \<open>URLSearchParams\<close> is the list of its pairs
  (its serialization is the platform's), and strings are compared by their code units.
\<close>

section \<open>Search parameters\<close>

type_synonym search_params = "(string \<times> string) list"

definition q_get :: "search_params \<Rightarrow> string \<Rightarrow> string option" where
  "q_get q k = map_of q k"

definition q_delete :: "search_params \<Rightarrow> string \<Rightarrow> search_params" where
  "q_delete q k = filter (\<lambda>(k', _). k' \<noteq> k) q"

text \<open>\<open>set\<close> changes the first pair of the name and removes the others, or appends a pair.\<close>

fun q_set :: "search_params \<Rightarrow> string \<Rightarrow> string \<Rightarrow> search_params" where
  "q_set [] k v = [(k, v)]"
| "q_set ((k', v') # q) k v = (if k' = k then (k, v) # q_delete q k else (k', v') # q_set q k v)"

definition q_has :: "search_params \<Rightarrow> string \<Rightarrow> bool" where
  "q_has q k = (q_get q k \<noteq> None)"

lemma q_get_delete: "q_get (q_delete q k) j = (if j = k then None else q_get q j)"
  by (induction q) (auto simp: q_get_def q_delete_def)

lemma q_get_set: "q_get (q_set q k v) j = (if j = k then Some v else q_get q j)"
  by (induction q) (auto simp: q_get_def q_delete_def q_get_delete [unfolded q_get_def q_delete_def])

interpretation params: keyed_store q_get q_set q_delete
  by unfold_locales (simp_all add: q_get_set q_get_delete)

lemmas q_simps = params.get_put params.get_del

text \<open>\<open>searchParams.get(k)?.trim() || ''\<close>.\<close>

definition q_trimmed :: "search_params \<Rightarrow> string \<Rightarrow> string" where
  "q_trimmed q k = (case q_get q k of None \<Rightarrow> [] | Some v \<Rightarrow> js_trim v)"

section \<open>Comparing strings\<close>

fun str_le :: "string \<Rightarrow> string \<Rightarrow> bool" where
  "str_le [] t = True"
| "str_le (c # s) [] = False"
| "str_le (c # s) (d # t) = (code_of c < code_of d \<or> (c = d \<and> str_le s t))"

lemma code_of_inj [simp]: "code_of c = code_of d \<longleftrightarrow> c = d"
  by (simp add: code_of_def)

lemma str_le_refl [simp]: "str_le s s"
  by (induction s) auto

lemma str_le_antisym: "str_le s t \<Longrightarrow> str_le t s \<Longrightarrow> s = t"
proof (induction s t rule: str_le.induct)
  case (1 t)
  then show ?case by (cases t) simp_all
qed auto

lemma str_le_total: "str_le s t \<or> str_le t s"
proof (induction s t rule: str_le.induct)
  case (3 c s d t)
  then show ?case using code_of_inj [of c d] by (auto simp del: code_of_inj)
qed auto

lemma str_le_append:
  assumes "length s = length t"
  shows "str_le (s @ u) (t @ v) \<longleftrightarrow> str_le s t \<and> (s = t \<longrightarrow> str_le u v)"
  using assms by (induction s t rule: list_induct2) auto

text \<open>Digits of the same number compare as the numbers they write.\<close>

lemma str_le_digits:
  assumes "all_digits s" "all_digits t" "length s = length t"
  shows "str_le s t \<longleftrightarrow> digits_value s \<le> digits_value t"
  using assms(3,1,2)
proof (induction s t rule: list_induct2)
  case (Cons c s d t)
  then have a: "is_digit c" "is_digit d" "all_digits s" "all_digits t" by (simp_all add: all_digits_def)
  define p where "p = (10::nat) ^ length s"
  have v: "digits_value (c # s) = digit_value c * p + digits_value s"
    "digits_value (d # t) = digit_value d * p + digits_value t"
    using digits_value_append [of "[c]" s] digits_value_append [of "[d]" t] Cons.hyps
    by (simp_all add: p_def digits_value_def [of "[c]"] digits_value_def [of "[d]"])
  have b: "digits_value s < p" "digits_value t < p"
    using digits_value_bound a(3,4) Cons.hyps by (fastforce simp: p_def)+
  consider "digit_value c < digit_value d" | "digit_value d < digit_value c" | "digit_value c = digit_value d"
    by linarith
  then show ?case
  proof cases
    case 1
    then have "digit_value c * p + p \<le> digit_value d * p" by (metis Suc_leI add.commute mult_Suc mult_le_mono1)
    moreover have "code_of c < code_of d" using 1 by (simp add: digit_value_def)
    ultimately show ?thesis using v b by simp
  next
    case 2
    then have "digit_value d * p + p \<le> digit_value c * p" by (metis Suc_leI add.commute mult_Suc mult_le_mono1)
    moreover have "code_of d < code_of c" using 2 by (simp add: digit_value_def)
    ultimately show ?thesis using v b by auto
  next
    case 3
    then have "c = d" using a(1,2) digit_char_digit_value by metis
    then show ?thesis using Cons.IH a v by simp
  qed
qed simp

end
