(* ===== verification/Periods.thy ===== *)
theory Periods
  imports MoneyInput QueryParams Utf16
begin

text \<open>
  The reporting periods of the home page and their place in the location's query
  (pages/finance/home-transactions.tsx, pages/finance/period-selector.tsx): reading a period from the
  query, changing it, the ranges that the API is asked for. Days are the strings of theory DateOnly.
\<close>

section \<open>Days in a query\<close>

definition MONTH_QUERY_PATTERN :: "string \<Rightarrow> bool" where
  "MONTH_QUERY_PATTERN s = (length s = 7 \<and> all_digits (take 4 s) \<and> s ! 4 = CHR ''-'' \<and> all_digits (drop 5 s) \<and>
     1 \<le> digits_value (drop 5 s) \<and> digits_value (drop 5 s) \<le> 12)"

definition DATE_KEY_PATTERN :: "string \<Rightarrow> bool" where
  "DATE_KEY_PATTERN s = (match_date_only s \<and> 1 \<le> month_part s \<and> month_part s \<le> 12 \<and> day_part s \<le> 31)"

text \<open>\<open>roll\<close> is the freedom of the engine with days a month does not have, as in theory MoneyInput.\<close>

definition validDateKey :: "bool \<Rightarrow> string option \<Rightarrow> string option" where
  "validDateKey roll value = (case value of
       None \<Rightarrow> None
     | Some v \<Rightarrow> if v = [] \<or> \<not> DATE_KEY_PATTERN v then None
                else (case iso_midnight roll v of
                    Some t \<Rightarrow> if iso_slice t = v then Some v else None
                  | None \<Rightarrow> None))"

text \<open>\<open>parse\<close> is \<open>Date.parse\<close>.\<close>

definition validDateOrTimestampKey :: "bool \<Rightarrow> (string \<Rightarrow> date) \<Rightarrow> string option \<Rightarrow> string option" where
  "validDateOrTimestampKey roll parse value = (case validDateKey roll value of
       Some d \<Rightarrow> Some d
     | None \<Rightarrow> (case value of
           Some (c # cs) \<Rightarrow> map_option iso_slice (parse (c # cs))
         | _ \<Rightarrow> None))"

definition endOfDateOnlyMonth :: "string \<Rightarrow> js_error + string" where
  "endOfDateOnlyMonth month = bind_result (startOfDateOnlyMonth month) (\<lambda>start.
     bind_result (addDateOnlyMonths start 1) (\<lambda>next_month. addDateOnlyDays next_month (- 1)))"

definition dateOnlyForMonthKey :: "string option \<Rightarrow> string \<Rightarrow> string" where
  "dateOnlyForMonthKey value fallback =
     (let candidate = (case value of
          Some (c # cs) \<Rightarrow> if MONTH_QUERY_PATTERN (c # cs) then (c # cs) @ ''-01'' else []
        | _ \<Rightarrow> [])
      in if isDateOnly (Some candidate) then candidate else fallback)"

section \<open>Periods\<close>

datatype period_mode = This_month | Last_month | Custom_month | Custom_range | This_week | Last_7_days
  | This_year | All_time

record period_value =
  pv_mode :: period_mode
  pv_month :: string
  pv_from :: string
  pv_to :: string

fun mode_text :: "period_mode \<Rightarrow> string" where
  "mode_text This_month = ''this-month''"
| "mode_text Last_month = ''last-month''"
| "mode_text Custom_month = ''custom-month''"
| "mode_text Custom_range = ''custom-range''"
| "mode_text This_week = ''this-week''"
| "mode_text Last_7_days = ''last-7-days''"
| "mode_text This_year = ''this-year''"
| "mode_text All_time = ''all-time''"

definition all_modes :: "period_mode list" where
  "all_modes = [This_month, Last_month, Custom_month, Custom_range, This_week, Last_7_days, This_year, All_time]"

definition mode_of_text :: "string option \<Rightarrow> period_mode option" where
  "mode_of_text t = (case t of None \<Rightarrow> None | Some s \<Rightarrow> find (\<lambda>m. mode_text m = s) all_modes)"

definition period_of :: "period_mode \<Rightarrow> string \<Rightarrow> string \<Rightarrow> string \<Rightarrow> period_value" where
  "period_of mode month from until = \<lparr>pv_mode = mode, pv_month = month, pv_from = from, pv_to = until\<rparr>"

text \<open>The day after \<open>startOfDateOnlyMonth(today)\<close> did not throw, so \<open>today\<close> is a day of the calendar.\<close>

definition mondayOffset :: "string \<Rightarrow> int" where
  "mondayOffset today = (case utc_day (iso_midnight False today) of Some w \<Rightarrow> (w + 6) mod 7 | None \<Rightarrow> 0)"

definition periodValueForMode ::
  "period_mode \<Rightarrow> string \<Rightarrow> string \<Rightarrow> string \<Rightarrow> string \<Rightarrow> js_error + period_value" where
  "periodValueForMode mode month from until today =
     bind_result (startOfDateOnlyMonth today) (\<lambda>currentMonth. case mode of
         Last_month \<Rightarrow> bind_result (addDateOnlyMonths currentMonth (- 1)) (\<lambda>lastMonth.
           bind_result (endOfDateOnlyMonth lastMonth) (\<lambda>lastDay. Inr (period_of mode lastMonth lastMonth lastDay)))
       | Custom_month \<Rightarrow> bind_result (startOfDateOnlyMonth month) (\<lambda>selectedMonth.
           bind_result (endOfDateOnlyMonth selectedMonth) (\<lambda>lastDay. Inr (period_of mode selectedMonth selectedMonth lastDay)))
       | Custom_range \<Rightarrow>
           (let safeFrom = (if isDateOnly (Some from) then from else currentMonth)
            in bind_result (if isDateOnly (Some until) \<and> str_le safeFrom until then Inr until else endOfDateOnlyMonth currentMonth)
              (\<lambda>safeTo. bind_result (startOfDateOnlyMonth safeFrom)
                (\<lambda>start. Inr (period_of mode start safeFrom safeTo))))
       | This_week \<Rightarrow> bind_result (addDateOnlyDays today (- mondayOffset today)) (\<lambda>weekStart.
           bind_result (startOfDateOnlyMonth weekStart) (\<lambda>start.
           bind_result (addDateOnlyDays weekStart 6) (\<lambda>lastDay. Inr (period_of mode start weekStart lastDay))))
       | Last_7_days \<Rightarrow> bind_result (addDateOnlyDays today (- 6)) (\<lambda>first.
           bind_result (startOfDateOnlyMonth first) (\<lambda>start. Inr (period_of mode start first today)))
       | This_year \<Rightarrow> (let yearStart = take 4 today @ ''-01-01''
           in Inr (period_of mode yearStart yearStart (take 4 today @ ''-12-31'')))
       | All_time \<Rightarrow> bind_result (startOfDateOnlyMonth today) (\<lambda>start. Inr (period_of mode start ''1970-01-01'' today))
       | This_month \<Rightarrow> bind_result (endOfDateOnlyMonth currentMonth)
           (\<lambda>lastDay. Inr (period_of This_month currentMonth currentMonth lastDay)))"

definition truthy_param :: "search_params \<Rightarrow> string \<Rightarrow> bool" where
  "truthy_param q k = (case q_get q k of Some (c # cs) \<Rightarrow> True | _ \<Rightarrow> False)"

definition dashboardPeriodFromSearchParams ::
  "bool \<Rightarrow> search_params \<Rightarrow> string \<Rightarrow> js_error + period_value" where
  "dashboardPeriodFromSearchParams roll q today =
     bind_result (startOfDateOnlyMonth today) (\<lambda>currentMonth.
       let month = dateOnlyForMonthKey (q_get q ''month'') currentMonth;
           from = validDateKey roll (q_get q ''from'');
           until = validDateKey roll (q_get q ''to'');
           allTimeRequested = (q_get q ''allTime'' = Some ''true'' \<or> q_get q ''allTime'' = Some ''1'');
           mode = (case mode_of_text (q_get q ''period'') of
               Some m \<Rightarrow> m
             | None \<Rightarrow> if allTimeRequested then All_time
                       else if from \<noteq> None \<and> until \<noteq> None then Custom_range
                       else if truthy_param q ''month'' then Custom_month else This_month)
       in bind_result (case until of Some t \<Rightarrow> Inr t | None \<Rightarrow> endOfDateOnlyMonth currentMonth) (\<lambda>untilValue.
            periodValueForMode mode month (case from of Some f \<Rightarrow> f | None \<Rightarrow> currentMonth) untilValue today))"

text \<open>\<open>form\<close> is the serialization of search parameters.\<close>

definition month_mode :: "period_mode \<Rightarrow> bool" where
  "month_mode m = (m = This_month \<or> m = Last_month \<or> m = Custom_month)"

definition dashboardPeriodPath :: "(search_params \<Rightarrow> string) \<Rightarrow> period_value \<Rightarrow> string" where
  "dashboardPeriodPath form p = ''/dashboard?'' @ form
     (if pv_mode p = All_time then q_set [] ''allTime'' ''true''
      else if month_mode (pv_mode p) then q_set [] ''month'' (take 7 (pv_month p))
      else q_set (q_set [] ''from'' (pv_from p)) ''to'' (pv_to p))"

definition dashboardDrilldownPath :: "(search_params \<Rightarrow> string) \<Rightarrow> period_value \<Rightarrow> string \<Rightarrow> string \<Rightarrow> string" where
  "dashboardDrilldownPath form p field value = ''/app/transactions?'' @ form
     (q_set (if pv_mode p = All_time then [(''allTime'', ''true'')] else [(''from'', pv_from p), (''to'', pv_to p)])
       field value)"

section \<open>Changing the period\<close>

record period_change =
  pc_mode :: period_mode
  pc_month :: "string option"
  pc_from :: "string option"
  pc_to :: "string option"

definition or_else :: "'a option \<Rightarrow> 'a \<Rightarrow> 'a" where
  "or_else x d = (case x of Some v \<Rightarrow> v | None \<Rightarrow> d)"

definition changed_period :: "period_change \<Rightarrow> period_value \<Rightarrow> string \<Rightarrow> js_error + period_value" where
  "changed_period c p today = periodValueForMode (pc_mode c) (or_else (pc_month c) (pv_month p))
     (or_else (pc_from c) (pv_from p)) (or_else (pc_to c) (pv_to p)) today"

definition period_params :: "period_value \<Rightarrow> search_params \<Rightarrow> search_params" where
  "period_params p q =
     (let q1 = q_set (q_delete (q_delete (q_delete (q_delete q ''month'') ''from'') ''to'') ''allTime'')
                 ''period'' (mode_text (pv_mode p))
      in if pv_mode p = All_time then q_set q1 ''allTime'' ''true''
         else if month_mode (pv_mode p) then q_set q1 ''month'' (take 7 (pv_month p))
         else q_set (q_set (q_set q1 ''from'' (pv_from p)) ''to'' (pv_to p)) ''month'' (take 7 (pv_month p)))"

definition updatePeriod :: "period_change \<Rightarrow> period_value \<Rightarrow> string \<Rightarrow> search_params \<Rightarrow> js_error + search_params" where
  "updatePeriod c p today q = bind_result (changed_period c p today) (\<lambda>next_period. Inr (period_params next_period q))"

definition clearPeriod :: "search_params \<Rightarrow> search_params" where
  "clearPeriod q = q_delete (q_delete (q_delete (q_delete (q_delete q ''period'') ''month'') ''from'') ''to'') ''allTime''"

section \<open>Ranges for the API\<close>

record day_range =
  dr_period :: string
  dr_from :: string
  dr_to :: string

definition midnight :: "string \<Rightarrow> string" where
  "midnight day = day @ ''T00:00:00.000Z''"

definition cashflowDayRange :: "string option \<Rightarrow> (js_error + day_range) option" where
  "cashflowDayRange period = (case period of
       None \<Rightarrow> None
     | Some p \<Rightarrow> if p = [] \<or> \<not> DATE_KEY_PATTERN p \<or> \<not> isDateOnly (Some p) then None
                else Some (bind_result (addDateOnlyDays p 1) (\<lambda>nextDay.
                  Inr \<lparr>dr_period = p, dr_from = midnight p, dr_to = midnight nextDay\<rparr>)))"

definition transactionApiDateRange :: "string \<Rightarrow> string \<Rightarrow> js_error + string \<times> string" where
  "transactionApiDateRange from until =
     bind_result (if isDateOnly (Some until) then bind_result (addDateOnlyDays until 1) (\<lambda>d. Inr (midnight d))
                  else Inr (until @ ''T23:59:59.999Z''))
       (\<lambda>toExclusive. Inr (midnight from, toExclusive))"

definition encoded :: "string \<Rightarrow> string" where
  "encoded s = (case encodeURIComponent (u16 s) of Some e \<Rightarrow> e | None \<Rightarrow> [])"

definition cashflowTransactionPath :: "day_range option \<Rightarrow> nat \<Rightarrow> string" where
  "cashflowTransactionPath dayRange limit = (case dayRange of
       None \<Rightarrow> ''/transactions?limit=12''
     | Some r \<Rightarrow> ''/transactions?from='' @ encoded (dr_from r) @ ''&to='' @ encoded (dr_to r)
                  @ ''&limit='' @ nat_digits limit)"

text \<open>The UTC day of a transaction, empty when its time cannot be read.\<close>

definition transactionDay :: "(string \<Rightarrow> date) \<Rightarrow> string \<Rightarrow> string" where
  "transactionDay parse occurredAt = (case parse occurredAt of
       None \<Rightarrow> []
     | Some t \<Rightarrow> dateOnlyFromUtcDate (Some t))"

section \<open>Facts on days\<close>

lemma parts_printed:
  assumes "1000 \<le> y" "y \<le> 9999" "valid_civil y m d"
  shows "partsFor (dateOnlyFromParts (Some y) (Some m) (Some d)) = Some (y, m, d)"
proof -
  have "0 \<le> m" "m < 100" "0 \<le> d" "d < 100"
    using assms(3) by (auto simp: valid_civil_def days_in_month_def leap_days_def split: if_splits)
  note p = parts_of_printed [OF assms(1,2) this]
  show ?thesis using partsFor_valid [OF p(1)] p assms by simp
qed

lemma valid_civil_first: "1 \<le> m \<Longrightarrow> m \<le> 12 \<Longrightarrow> valid_civil y m 1"
  by (auto simp: valid_civil_def days_in_month_def leap_days_def)

lemma valid_civil_last: "1 \<le> m \<Longrightarrow> m \<le> 12 \<Longrightarrow> valid_civil y m (days_in_month (leap_days y) (m - 1))"
  by (auto simp: valid_civil_def days_in_month_def leap_days_def)

definition month_start :: "int \<Rightarrow> int \<Rightarrow> string" where
  "month_start y m = dateOnlyFromParts (Some y) (Some m) (Some 1)"

definition month_end :: "int \<Rightarrow> int \<Rightarrow> string" where
  "month_end y m = dateOnlyFromParts (Some y) (Some m) (Some (days_in_month (leap_days y) (m - 1)))"

lemma startOf_parts:
  assumes "partsFor s = Some (y, m, d)"
  shows "startOfDateOnlyMonth s = Inr (month_start y m)"
proof -
  note p = partsFor_Some [OF assms]
  have m: "0 \<le> m - 1" "m - 1 < 12" "1 \<le> d" "d \<le> days_in_month (leap_days y) (m - 1)"
    using p(7) by (simp_all add: valid_civil_def)
  show ?thesis
    using assms date_UTC_valid [OF p(5-7)] civil_make_day [OF m]
    by (simp add: startOfDateOnlyMonth_def dateOnlyToUtcDate_def month_start_def utc_year_def utc_month_def)
qed

lemma parts_month_start:
  assumes "partsFor s = Some (y, m, d)" "1000 \<le> y"
  shows "partsFor (month_start y m) = Some (y, m, 1)"
  using partsFor_Some(6,7) [OF assms(1)] assms(2)
  by (simp add: month_start_def parts_printed valid_civil_first valid_civil_def)

lemma endOf_parts:
  assumes p: "partsFor s = Some (y, m, d)" and y: "1000 \<le> y" "y \<le> 9998"
  shows "endOfDateOnlyMonth s = Inr (month_end y m)"
proof -
  have m: "1 \<le> m" "m \<le> 12" using partsFor_Some(7) [OF p] by (simp_all add: valid_civil_def)
  let ?y = "y + m div 12" and ?m = "m mod 12"
  have ym: "1000 \<le> ?y" "?y \<le> 9999" using y m by auto
  have s: "partsFor (month_start y m) = Some (y, m, 1)" by (rule parts_month_start [OF p y(1)])
  have n: "addDateOnlyMonths (month_start y m) 1 = Inr (dateOnlyFromParts (Some ?y) (Some (?m + 1)) (Some 1))"
    using addMonths_print [OF s y(1), of ?y 1 ?m] ym leap_days_range [of ?y]
    by (simp add: min_def days_in_month_def)
  have v: "valid_civil ?y (?m + 1) 1" by (rule valid_civil_first) simp_all
  have f: "partsFor (dateOnlyFromParts (Some ?y) (Some (?m + 1)) (Some 1)) = Some (?y, ?m + 1, 1)"
    by (rule parts_printed [OF ym v])
  have d: "make_day ?y ?m 0 = make_day y (m - 1) (days_in_month (leap_days y) (m - 1))"
    using first_of_next_month [of "m - 1" y] m make_day_carry [of y m 0] by simp
  have e: "addDateOnlyDays (dateOnlyFromParts (Some ?y) (Some (?m + 1)) (Some 1)) (- 1) = Inr (month_end y m)"
    unfolding month_end_def
  proof (rule addDays_print [OF f ym(1) valid_civil_last [OF m]])
    show "make_day ?y (?m + 1 - 1) 1 + - 1 = make_day y (m - 1) (days_in_month (leap_days y) (m - 1))"
      using d make_day_add [of ?y ?m 0 1] by simp
    show "\<bar>make_day y (m - 1) (days_in_month (leap_days y) (m - 1))\<bar> \<le> 100000000"
      using m y leap_days_range [of y] by (intro make_day_small) (auto simp: days_in_month_def)
  qed
  show ?thesis by (simp add: endOfDateOnlyMonth_def startOf_parts [OF p] n e)
qed

lemma parts_month_end:
  assumes "partsFor s = Some (y, m, d)" "1000 \<le> y"
  shows "partsFor (month_end y m) = Some (y, m, days_in_month (leap_days y) (m - 1))"
  using partsFor_Some(6,7) [OF assms(1)] assms(2)
  by (simp add: month_end_def parts_printed valid_civil_last valid_civil_def)

lemma date_key_of_parts:
  assumes "partsFor s = Some (y, m, d)"
  shows "DATE_KEY_PATTERN s" "validDateKey roll (Some s) = Some s"
proof -
  note p = partsFor_Some [OF assms]
  have d: "days_in_month (leap_days y) (m - 1) \<le> 31"
    using leap_days_range [of y] by (auto simp: days_in_month_def)
  show k: "DATE_KEY_PATTERN s" using p d by (auto simp: DATE_KEY_PATTERN_def valid_civil_def)
  have v: "valid_civil (year_part s) (month_part s) (day_part s)" using p by simp
  have "s \<noteq> []" using p(1) by (auto simp: match_date_only_def)
  then show "validDateKey roll (Some s) = Some s"
    using k iso_midnight_valid [OF p(1) v, of roll] iso_slice_valid [OF p(1) v] by (simp add: validDateKey_def)
qed

lemma month_key:
  assumes "partsFor (month_start y m) = Some (y, m, 1)" "1000 \<le> y"
  shows "dateOnlyForMonthKey (Some (take 7 (month_start y m))) fallback = month_start y m"
proof -
  note p = partsFor_Some [OF assms(1)]
  have m: "1 \<le> m" "m \<le> 12" using p(7) by (simp_all add: valid_civil_def)
  have "pad (Some 1) = ''01''" by code_simp
  then have s: "month_start y m = take 7 (month_start y m) @ ''-01''"
    using year4(1) [OF assms(2) p(6)] pad2(1) [of m] m by (simp add: month_start_def dateOnlyFromParts_def)
  have q: "MONTH_QUERY_PATTERN (take 7 (month_start y m))"
    using p(1,3) m unfolding match_date_only_def month_part_def MONTH_QUERY_PATTERN_def
    by (simp add: drop_take nth_append)
  obtain c cs where c: "take 7 (month_start y m) = c # cs"
    using q by (cases "take 7 (month_start y m)") (auto simp: MONTH_QUERY_PATTERN_def)
  show ?thesis
    using q s c assms(1) by (simp add: dateOnlyForMonthKey_def isDateOnly_def)
qed

section \<open>Reading a period back\<close>

lemma find_mode: "mode_of_text (Some (mode_text m)) = Some m"
  by (cases m) (simp_all add: mode_of_text_def all_modes_def)

lemma read_params:
  "q_get (period_params p q) ''period'' = Some (mode_text (pv_mode p))"
  "q_get (period_params p q) ''from'' = (if pv_mode p = All_time \<or> month_mode (pv_mode p) then None else Some (pv_from p))"
  "q_get (period_params p q) ''to'' = (if pv_mode p = All_time \<or> month_mode (pv_mode p) then None else Some (pv_to p))"
  "q_get (period_params p q) ''month'' = (if pv_mode p = All_time then None else Some (take 7 (pv_month p)))"
  by (simp_all add: period_params_def Let_def q_simps)

lemma mode_kept: "periodValueForMode m month from until today = Inr p \<Longrightarrow> pv_mode p = m"
  by (cases m) (auto simp: periodValueForMode_def period_of_def bind_result_def Let_def split: sum.splits if_splits)

lemma other_modes:
  assumes "m \<noteq> Custom_month" "m \<noteq> Custom_range"
  shows "periodValueForMode m month from until today = periodValueForMode m month' from' until' today"
  using assms by (cases m) (simp_all add: periodValueForMode_def)

lemma from_params:
  assumes t: "partsFor today = Some (y, m, d)" "1000 \<le> y" "y \<le> 9998"
  shows "dashboardPeriodFromSearchParams roll (period_params p q) today =
    periodValueForMode (pv_mode p) (dateOnlyForMonthKey (q_get (period_params p q) ''month'') (month_start y m))
      (or_else (validDateKey roll (q_get (period_params p q) ''from'')) (month_start y m))
      (or_else (validDateKey roll (q_get (period_params p q) ''to'')) (month_end y m)) today"
  using endOf_parts [OF parts_month_start [OF t(1,2)] t(2,3)]
  by (simp add: dashboardPeriodFromSearchParams_def startOf_parts [OF t(1)] read_params(1) find_mode
      or_else_def Let_def split: option.splits)

lemma custom_range_read:
  assumes t: "partsFor today = Some (y, m, d)" "1000 \<le> y" "y \<le> 9998"
    and r: "periodValueForMode Custom_range month from until today = Inr p"
  shows "isDateOnly (Some (pv_from p)) \<and> isDateOnly (Some (pv_to p)) \<and>
    periodValueForMode Custom_range month' (pv_from p) (pv_to p) today = Inr p"
proof -
  let ?s = "month_start y m" and ?e = "month_end y m"
  have s: "startOfDateOnlyMonth today = Inr ?s" "endOfDateOnlyMonth ?s = Inr ?e"
    using startOf_parts [OF t(1)] endOf_parts [OF parts_month_start [OF t(1,2)] t(2,3)] by simp_all
  have d: "isDateOnly (Some ?s)" "isDateOnly (Some ?e)"
    using parts_month_start [OF t(1,2)] parts_month_end [OF t(1,2)] by (simp_all add: isDateOnly_def)
  define f where "f = (if isDateOnly (Some from) then from else ?s)"
  define u where "u = (if isDateOnly (Some until) \<and> str_le f until then until else ?e)"
  have u1: "(if isDateOnly (Some until) \<and> str_le f until then Inr until else endOfDateOnlyMonth ?s) = Inr u"
    by (simp add: u_def s)
  have p: "bind_result (startOfDateOnlyMonth f) (\<lambda>start. Inr (period_of Custom_range start f u)) = Inr p"
    using r by (simp add: periodValueForMode_def s Let_def f_def [symmetric] u1 split del: if_split)
  then have pf: "pv_from p = f" "pv_to p = u"
    by (auto simp: bind_result_def period_of_def split: sum.splits)
  have df: "isDateOnly (Some f)" "isDateOnly (Some u)" using d by (auto simp: f_def u_def)
  have u2: "(if isDateOnly (Some u) \<and> str_le f u then Inr u else endOfDateOnlyMonth ?s) = Inr u"
    by (auto simp: u_def d s)
  show ?thesis
    using df p u2 unfolding pf by (simp add: periodValueForMode_def s Let_def)
qed

lemma custom_month_read:
  assumes r: "periodValueForMode Custom_month month from until today = Inr p" and d: "isDateOnly (Some (pv_month p))"
  shows "periodValueForMode Custom_month (dateOnlyForMonthKey (Some (take 7 (pv_month p))) fallback) from' until' today = Inr p"
proof -
  obtain c where c: "startOfDateOnlyMonth today = Inr c"
    using r by (cases "startOfDateOnlyMonth today") (simp_all add: periodValueForMode_def)
  obtain sm where sm: "startOfDateOnlyMonth month = Inr sm" "pv_month p = sm"
    using r c by (cases "startOfDateOnlyMonth month")
      (auto simp: periodValueForMode_def bind_result_def period_of_def split: sum.splits)
  obtain y m d where pm: "partsFor month = Some (y, m, d)"
    using sm(1) by (cases "partsFor month") (auto simp: startOfDateOnlyMonth_def dateOnlyToUtcDate_def)
  then have s: "sm = month_start y m" using startOf_parts sm(1) by simp
  have mr: "0 \<le> m" "m < 100" using partsFor_Some(7) [OF pm] by (simp_all add: valid_civil_def)
  have "match_date_only sm" using d sm(2) by (auto simp: isDateOnly_valid)
  then have y: "1000 \<le> y" using match_printed [of y m 1] mr by (simp add: s month_start_def)
  note f = parts_month_start [OF pm y]
  have "periodValueForMode Custom_month sm from' until' today = Inr p"
    using r c sm startOf_parts [OF f] by (simp add: periodValueForMode_def s)
  then show ?thesis using month_key [OF f y] by (simp add: sm(2) s)
qed

text \<open>C16. A period put into the query is read back: whatever the query held, after a change of the period
  the home page shows exactly the period that the change computed, for each of the eight modes.\<close>

theorem period_survives_query:
  assumes today: "isDateOnly (Some today)" "1000 \<le> year_part today" "year_part today \<le> 9998"
    and next_p: "changed_period c p today = Inr next_period"
    and month: "pc_mode c = Custom_month \<Longrightarrow> isDateOnly (Some (pv_month next_period))"
  shows "bind_result (updatePeriod c p today q) (\<lambda>q'. dashboardPeriodFromSearchParams roll q' today) = Inr next_period"
proof -
  obtain y m d where t: "partsFor today = Some (y, m, d)" using today(1) by (auto simp: isDateOnly_def)
  then have y: "1000 \<le> y" "y \<le> 9998" using today(2,3) partsFor_Some(2) [OF t] by simp_all
  let ?n = next_period
  obtain m0 f0 u0 where r: "periodValueForMode (pc_mode c) m0 f0 u0 today = Inr ?n"
    using next_p by (simp add: changed_period_def)
  note k = mode_kept [OF r]
  have "dashboardPeriodFromSearchParams roll (period_params ?n q) today = Inr ?n"
  proof (cases "pc_mode c = Custom_range")
    case True
    with r have r': "periodValueForMode Custom_range m0 f0 u0 today = Inr ?n" by simp
    from custom_range_read [OF t y r']
    have d: "isDateOnly (Some (pv_from ?n))" "isDateOnly (Some (pv_to ?n))" by blast+
    then have "validDateKey roll (Some (pv_from ?n)) = Some (pv_from ?n)" "validDateKey roll (Some (pv_to ?n)) = Some (pv_to ?n)"
      using date_key_of_parts(2) by (auto simp: isDateOnly_def)
    with custom_range_read [OF t y r'] True k show ?thesis
      by (simp add: from_params [OF t y] read_params month_mode_def or_else_def)
  next
    case False
    show ?thesis
    proof (cases "pc_mode c = Custom_month")
      case True
      then show ?thesis
        using custom_month_read [OF _ month] r k
        by (simp add: from_params [OF t y] read_params month_mode_def)
    next
      case n: False
      show ?thesis unfolding from_params [OF t y] k using other_modes [OF n False] r by metis
    qed
  qed
  then show ?thesis by (simp add: updatePeriod_def next_p)
qed

theorem period_survives_query_witness:
  "isDateOnly (Some ''2026-07-25'') \<and>
   bind_result (updatePeriod \<lparr>pc_mode = Custom_range, pc_month = None, pc_from = Some ''2026-07-01'', pc_to = None\<rparr>
       (period_of Custom_range ''2026-06-01'' ''2026-06-01'' ''2026-07-09'') ''2026-07-25'' [(''from'', ''x'')])
     (\<lambda>q'. dashboardPeriodFromSearchParams True q' ''2026-07-25'')
   = Inr (period_of Custom_range ''2026-07-01'' ''2026-07-01'' ''2026-07-09'')"
proof -
  have d: "partsFor ''2026-07-25'' = Some (2026, 7, 25)" "partsFor ''2026-07-01'' = Some (2026, 7, 1)"
    "partsFor ''2026-07-09'' = Some (2026, 7, 9)" "year_part ''2026-07-25'' = 2026"
    by (simp_all add: partsFor_valid match_eval civil_eval)
  have s: "month_start 2026 7 = ''2026-07-01''" by code_simp
  have "changed_period \<lparr>pc_mode = Custom_range, pc_month = None, pc_from = Some ''2026-07-01'', pc_to = None\<rparr>
       (period_of Custom_range ''2026-06-01'' ''2026-06-01'' ''2026-07-09'') ''2026-07-25''
     = Inr (period_of Custom_range ''2026-07-01'' ''2026-07-01'' ''2026-07-09'')"
    by (simp add: changed_period_def periodValueForMode_def or_else_def period_of_def isDateOnly_def d startOf_parts s code_of_def Let_def)
  from period_survives_query [OF _ _ _ this, of "[(''from'', ''x'')]" True] d show ?thesis
    by (simp add: isDateOnly_def)
qed

section \<open>The days of a period\<close>

lemma month_start_day:
  assumes "1 \<le> m" "m \<le> 12"
  shows "month_start y m = day_string (make_day y (m - 1) 1)"
  using day_string_make_day [OF valid_civil_first [OF assms]] by (simp add: month_start_def)

lemma month_end_day:
  assumes "1 \<le> m" "m \<le> 12"
  shows "month_end y m = day_string (make_day y m 1 - 1)"
  using day_string_make_day [OF valid_civil_last [OF assms], of y] first_of_next_month [of "m - 1" y]
    make_day_add [of y m 0 1] assms
  by (simp add: month_end_def)

lemma addDays_day:
  assumes "four_digit_day n" "four_digit_day (n + k)"
  shows "addDateOnlyDays (day_string n) k = Inr (day_string (n + k))"
  using addDays_general [OF assms(1), of k] time_clip_day [OF four_digit_day_small [OF assms(2)]]
  by (simp add: day_string_def)

lemma near_days:
  assumes "1001 \<le> year_of_day n" "year_of_day n \<le> 9998" "\<bar>k\<bar> \<le> 300"
  shows "four_digit_day (n + k)"
  using assms year_of_day_between [of 1001 n] year_of_day_between [of n 9998]
    year_of_day_between(1) [of 1000 "n + k"] year_of_day_between(2) [of "n + k" 9999]
    day_from_year_succ [of 1000] day_from_year_succ [of 9999] leap_days_range [of 1000] leap_days_range [of 9999]
  by (auto simp: four_digit_day_def abs_le_iff)

text \<open>The first and the last day of a period, as day numbers, when today is day \<open>n\<close>.\<close>

fun period_days :: "period_mode \<Rightarrow> int \<Rightarrow> int \<times> int" where
  "period_days This_month n = (make_day (year_of_day n) (month_of_day n) 1, make_day (year_of_day n) (month_of_day n + 1) 1 - 1)"
| "period_days Last_month n = (make_day (year_of_day n) (month_of_day n - 1) 1, make_day (year_of_day n) (month_of_day n) 1 - 1)"
| "period_days This_week n = (n - (n + 3) mod 7, n - (n + 3) mod 7 + 6)"
| "period_days Last_7_days n = (n - 6, n)"
| "period_days This_year n = (day_from_year (year_of_day n), day_from_year (year_of_day n + 1) - 1)"
| "period_days All_time n = (0, n)"
| "period_days _ n = (n, n)"

text \<open>The periods that follow the calendar are the right days: for every valid today of the years 1001
  to 9998 the current month and year, the month before, the week from Monday to Sunday, the last seven days
  and all time have exactly the first and last day that calendar arithmetic gives, across the ends of months
  and years.\<close>

theorem period_days_correct:
  assumes today: "isDateOnly (Some today)" "1001 \<le> year_part today" "year_part today \<le> 9998"
    and mode: "mode \<noteq> Custom_month" "mode \<noteq> Custom_range"
    and n: "n = make_day (year_part today) (month_part today - 1) (day_part today)"
  shows "\<exists>month'. periodValueForMode mode month from until today =
    Inr (period_of mode month' (day_string (fst (period_days mode n))) (day_string (snd (period_days mode n))))"
proof -
  obtain y m d where t: "partsFor today = Some (y, m, d)" using today(1) by (auto simp: isDateOnly_def)
  note p = partsFor_Some [OF t]
  have y: "1000 \<le> y" "1001 \<le> y" "y \<le> 9998" and nn: "n = make_day y (m - 1) d" using today n p by simp_all
  note ds = day_string_of [OF t y(1), folded nn]
  have m: "1 \<le> m" "m \<le> 12" using p(7) by (simp_all add: valid_civil_def)
  note s = startOf_parts [OF t] and sm = parts_month_start [OF t y(1)]
  have four: "four_digit_day (n + k)" if "\<bar>k\<bar> \<le> 300" for k using near_days [of n k] that y ds by simp
  have start: "startOfDateOnlyMonth (day_string (n + k)) = Inr (month_start (year_of_day (n + k)) (month_of_day (n + k) + 1))"
    if "\<bar>k\<bar> \<le> 300" for k using startOf_parts [OF partsFor_day_string [OF four [OF that]]] .
  show ?thesis
  proof (cases mode)
    case This_month
    then show ?thesis
      using endOf_parts [OF sm y(1,3)] month_start_day [OF m, of y] month_end_day [OF m, of y] ds(3,4)
      by (intro exI [of _ "month_start y m"]) (simp add: periodValueForMode_def s)
  next
    case Last_month
    define y' m' where d': "y' = y + (m - 2) div 12" "m' = (m - 2) mod 12"
    have mm: "0 \<le> m'" "m' < 12" by (simp_all add: d')
    have ym: "1000 \<le> y'" "y' \<le> 9998" using y m by (auto simp: d')
    have a: "addDateOnlyMonths (month_start y m) (- 1) = Inr (month_start y' (m' + 1))"
      using addMonths_print [OF sm y(1), of y' "- 1" m'] d' ym leap_days_range [of y']
      by (simp add: min_def days_in_month_def month_start_def)
    have mr: "1 \<le> m' + 1" "m' + 1 \<le> 12" using mm by simp_all
    have b: "partsFor (month_start y' (m' + 1)) = Some (y', m' + 1, 1)"
      unfolding month_start_def using ym by (intro parts_printed valid_civil_first mr) simp_all
    have c: "make_day y (m - 2) 1 = make_day y' m' 1" unfolding d' by (rule make_day_carry)
    have e: "make_day y (m - 1) 1 = make_day y' (m' + 1) 1"
    proof (cases "m = 1")
      case True
      then show ?thesis using make_day_carry [of "y - 1" 12 1] by (simp add: d')
    next
      case False
      with m show ?thesis by (simp add: d')
    qed
    from Last_month show ?thesis
      using endOf_parts [OF b ym] month_start_day [OF mr, of y'] month_end_day [OF mr, of y'] ds(3,4) c e
      by (intro exI [of _ "month_start y' (m' + 1)"]) (simp add: periodValueForMode_def s a)
  next
    case This_week
    have v: "valid_civil (year_part today) (month_part today) (day_part today)" using p by simp
    have "utc_day (iso_midnight False today) = Some ((4 + n) mod 7)"
      using iso_midnight_valid [OF p(1) v, of False] by (simp add: utc_day_def n)
    then have w: "mondayOffset today = (n + 3) mod 7" unfolding mondayOffset_def by simp presburger
    let ?k = "- ((n + 3) mod 7)"
    have k: "\<bar>?k\<bar> \<le> 300" "\<bar>?k + 6\<bar> \<le> 300" using pos_mod_bound [of 7 "n + 3"] pos_mod_sign [of 7 "n + 3"] by linarith+
    have e: "addDateOnlyDays (day_string n) ?k = Inr (day_string (n + ?k))"
      using addDays_day [of n ?k] four [of 0] four [OF k(1)] by simp
    have f: "addDateOnlyDays (day_string (n + ?k)) 6 = Inr (day_string (n + ?k + 6))"
      by (rule addDays_day [OF four [OF k(1)] four [OF k(2), unfolded add.assoc [symmetric]]])
    from This_week show ?thesis using e f start [OF k(1)] by (intro exI [of _ "month_start (year_of_day (n + ?k)) (month_of_day (n + ?k) + 1)"]) (simp add: periodValueForMode_def s w ds(1) [symmetric])
  next
    case Last_7_days
    have "addDateOnlyDays (day_string n) (- 6) = Inr (day_string (n - 6))"
      using addDays_day [of n "- 6"] four [of 0] four [of "- 6"] by simp
    with Last_7_days show ?thesis using start [of "- 6"] by (intro exI [of _ "month_start (year_of_day (n - 6)) (month_of_day (n - 6) + 1)"]) (simp add: periodValueForMode_def s ds(1) [symmetric])
  next
    case This_year
    have "today = dateOnlyFromParts (Some y) (Some m) (Some d)" by (rule printed_parts [OF t y(1)])
    then have k: "take 4 today = field_string (Some y)" using year4(1) [OF y(1)] y by (simp add: dateOnlyFromParts_def)
    have pads: "pad (Some 1) = ''01''" "pad (Some 12) = ''12''" "pad (Some 31) = ''31''" by code_simp+
    have a: "take 4 today @ ''-01-01'' = month_start y 1" by (simp add: k month_start_def dateOnlyFromParts_def pads)
    have b: "take 4 today @ ''-12-31'' = month_end y 12"
      by (simp add: k month_end_def dateOnlyFromParts_def pads days_in_month_def)
    have c: "make_day y 0 1 = day_from_year y" "make_day y 12 1 = day_from_year (y + 1)"
      by (simp_all add: make_day_def days_before_def)
    from This_year show ?thesis
      using month_start_day [of 1 y] month_end_day [of 12 y] ds(3,4) c by (intro exI [of _ "month_start y 1"]) (simp add: periodValueForMode_def s a b Let_def)
  next
    case All_time
    have "day_string 0 = ''1970-01-01''" by code_simp
    with All_time show ?thesis by (intro exI [of _ "month_start y m"]) (simp add: periodValueForMode_def s ds(1) [symmetric])
  qed (use mode in simp_all)
qed

theorem period_days_correct_witness:
  "\<exists>month'. periodValueForMode This_week ''2024-03-01'' ''2024-03-01'' ''2024-03-01'' ''2024-03-01'' =
     Inr (period_of This_week month' ''2024-02-26'' ''2024-03-03'')"
proof -
  have d: "isDateOnly (Some ''2024-03-01'')" "year_part ''2024-03-01'' = 2024" "month_part ''2024-03-01'' = 3"
    "day_part ''2024-03-01'' = 1"
    by (simp_all add: isDateOnly_valid match_eval civil_eval)
  have n: "make_day 2024 2 1 = 19783" by (simp add: civil_eval)
  have e: "day_string 19779 = ''2024-02-26''" "day_string 19785 = ''2024-03-03''" by code_simp+
  show ?thesis
    using period_days_correct [of "''2024-03-01''" This_week 19783 "''2024-03-01''" "''2024-03-01''" "''2024-03-01''"] d n e by simp
qed

section \<open>Ranges of days and times\<close>

lemma make_day_le:
  assumes "valid_civil y m d" "valid_civil y' m' d'"
  shows "make_day y (m - 1) d \<le> make_day y' (m' - 1) d' \<longleftrightarrow> y < y' \<or> (y = y' \<and> (m < m' \<or> (m = m' \<and> d \<le> d')))"
proof -
  have c: "0 \<le> m - 1" "m - 1 < 12" "1 \<le> d" "d \<le> days_in_month (leap_days y) (m - 1)"
    "0 \<le> m' - 1" "m' - 1 < 12" "1 \<le> d'" "d' \<le> days_in_month (leap_days y') (m' - 1)"
    using assms by (simp_all add: valid_civil_def)
  let ?a = "make_day y (m - 1) d" and ?b = "make_day y' (m' - 1) d'"
  note ya = civil_make_day [OF c(1-4)] and yb = civil_make_day [OF c(5-8)]
  have le: "day_from_year y \<le> ?a" "?a < day_from_year (y + 1)" "day_from_year y' \<le> ?b" "?b < day_from_year (y' + 1)"
    using year_of_day_bounds [of ?a] year_of_day_bounds [of ?b] ya yb by simp_all
  have step: "days_before l i + e \<le> days_before l j"
    if "i < j" "0 \<le> i" "j < 12" "e \<le> days_in_month l i" "0 \<le> l" for l i j e
  proof -
    have "0 \<le> i" "i < 12" "0 \<le> j" "j < 12" using that by simp_all
    then show ?thesis
      using month_cases [of i] month_cases [of j] that
      by (simp only: simp_thms True_implies_equals) (elim disjE; simp add: days_before_def days_in_month_def)
  qed
  have eq: "make_day z i e = day_from_year z + days_before (leap_days z) i + e - 1" if "0 \<le> i" "i < 12" for z i e
    using that by (simp add: make_day_def)
  show ?thesis
  proof (cases "y = y'")
    case True
    then show ?thesis
      using eq [OF c(1,2), of y d] eq [OF c(5,6), of y' d'] c leap_days_range [of y]
        step [of "m - 1" "m' - 1" d "leap_days y"] step [of "m' - 1" "m - 1" d' "leap_days y"]
      by (cases m m' rule: linorder_cases) auto
  next
    case False
    then show ?thesis
      using le day_from_year_mono [of "y + 1" y'] day_from_year_mono [of "y' + 1" y] by (cases "y < y'") auto
  qed
qed

text \<open>Days of the years with four digits compare as strings the way they compare in the calendar.\<close>

lemma str_le_civil:
  assumes "match_date_only s" "match_date_only t"
    and "valid_civil (year_part s) (month_part s) (day_part s)" "valid_civil (year_part t) (month_part t) (day_part t)"
  shows "str_le s t \<longleftrightarrow>
    make_day (year_part s) (month_part s - 1) (day_part s) \<le> make_day (year_part t) (month_part t - 1) (day_part t)"
proof -
  have f: "s = take 4 s @ CHR ''-'' # take 2 (drop 5 s) @ CHR ''-'' # drop 8 s"
    "t = take 4 t @ CHR ''-'' # take 2 (drop 5 t) @ CHR ''-'' # drop 8 t"
    by (rule field_split [OF assms(1)], rule field_split [OF assms(2)])
  have l: "length s = 10" "length t = 10" and g: "all_digits (take 4 s)" "all_digits (take 2 (drop 5 s))" "all_digits (drop 8 s)"
    "all_digits (take 4 t)" "all_digits (take 2 (drop 5 t))" "all_digits (drop 8 t)"
    using assms(1,2) by (simp_all add: match_date_only_def)
  have e: "str_le s t \<longleftrightarrow> str_le (take 4 s) (take 4 t) \<and> (take 4 s = take 4 t \<longrightarrow>
      str_le (take 2 (drop 5 s)) (take 2 (drop 5 t)) \<and> (take 2 (drop 5 s) = take 2 (drop 5 t) \<longrightarrow>
      str_le (drop 8 s) (drop 8 t)))"
    apply (subst f(1), subst f(2))
    using l by (simp add: str_le_append del: append_take_drop_id)
  have i: "take 4 s = take 4 t \<longleftrightarrow> year_part s = year_part t"
    "take 2 (drop 5 s) = take 2 (drop 5 t) \<longleftrightarrow> month_part s = month_part t"
    using digits_value_inj g l by (auto simp: year_part_def month_part_def)
  show ?thesis
    unfolding e i make_day_le [OF assms(3,4)]
    using str_le_digits [OF g(1,4)] str_le_digits [OF g(2,5)] str_le_digits [OF g(3,6)] l
    by (auto simp: year_part_def month_part_def day_part_def)
qed

lemma str_le_parts:
  assumes "partsFor s = Some (y, m, d)" "partsFor t = Some (y', m', d')"
  shows "str_le s t \<longleftrightarrow> make_day y (m - 1) d \<le> make_day y' (m' - 1) d'"
  using str_le_civil [of s t] partsFor_Some [OF assms(1)] partsFor_Some [OF assms(2)] by simp

lemma str_le_days:
  assumes "four_digit_day a" "four_digit_day b"
  shows "str_le (day_string a) (day_string b) \<longleftrightarrow> a \<le> b"
  using str_le_parts [OF partsFor_day_string [OF assms(1)] partsFor_day_string [OF assms(2)]]
  by (simp add: make_day_civil)

lemma transactionDay_day:
  "parse occurredAt = Some t \<Longrightarrow> transactionDay parse occurredAt = day_string (day_of_time t)"
  by (simp add: transactionDay_def day_string_def dateOnlyFromUtcDate_def utc_year_def utc_month_def utc_date_def)

lemma day_interval: "a \<le> day_of_time t \<longleftrightarrow> ms_per_day * a \<le> t" "day_of_time t \<le> b \<longleftrightarrow> t < ms_per_day * (b + 1)"
  using div_bounds [of ms_per_day t] by (auto simp: day_of_time_def ms_per_day_def)

text \<open>The filter of the list and the range that the API is asked for agree: for two days of the query the
  request covers the half-open interval from the midnight of the first to the midnight after the last, and
  an entry's UTC day lies between the two days exactly when its time lies in that interval.\<close>

theorem api_range_matches_days:
  assumes f: "isDateOnly (Some from)" "1000 \<le> year_part from"
    and u: "isDateOnly (Some until)" "1000 \<le> year_part until" "year_part until \<le> 9998"
    and t: "parse occurredAt = Some t" "four_digit_day (day_of_time t)"
  shows "\<exists>a b. from = day_string a \<and> until = day_string b \<and>
    transactionApiDateRange from until = Inr (midnight (day_string a), midnight (day_string (b + 1))) \<and>
    (str_le from (transactionDay parse occurredAt) \<and> str_le (transactionDay parse occurredAt) until
      \<longleftrightarrow> ms_per_day * a \<le> t \<and> t < ms_per_day * (b + 1))"
proof -
  obtain y m d y' m' d' where p: "partsFor from = Some (y, m, d)" and q: "partsFor until = Some (y', m', d')"
    using f(1) u(1) by (auto simp: isDateOnly_def)
  have y: "1000 \<le> y" "1000 \<le> y'" "y' \<le> 9998" using f u partsFor_Some(2) [OF p] partsFor_Some(2) [OF q] by simp_all
  define a b where ab: "a = make_day y (m - 1) d" "b = make_day y' (m' - 1) d'"
  note fa = day_string_of [OF p y(1), folded ab] and ub = day_string_of [OF q y(2), folded ab]
  have b1: "four_digit_day (b + 1)"
    using ub(2,3) y year_of_day_between(2) [of b 9998] year_of_day_between(1) [of 1000 b]
      year_of_day_between(2) [of "b + 1" 9999] year_of_day_between(1) [of 1000 "b + 1"] day_from_year_mono [of 9999 10000]
      day_from_year_mono_strict [of 9999]
    by (simp add: four_digit_day_def)
  have "transactionApiDateRange from until = Inr (midnight from, midnight (day_string (b + 1)))"
    using u(1) addDays_day [OF ub(2) b1] ub(1) by (simp add: transactionApiDateRange_def)
  then show ?thesis
    using fa(1) ub(1) str_le_days [OF fa(2) t(2)] str_le_days [OF t(2) ub(2)] day_interval [of a t] day_interval [of t b]
    by (intro exI [of _ a] exI [of _ b]) (simp add: transactionDay_day [of parse, OF t(1)])
qed

theorem api_range_matches_days_witness:
  "\<exists>a b. ''2024-02-28'' = day_string a \<and> ''2024-02-29'' = day_string b \<and>
    transactionApiDateRange ''2024-02-28'' ''2024-02-29'' = Inr (midnight (day_string a), midnight (day_string (b + 1))) \<and>
    (str_le ''2024-02-28'' (transactionDay (\<lambda>s. Some 1709251199999) ''x'') \<and>
     str_le (transactionDay (\<lambda>s. Some 1709251199999) ''x'') ''2024-02-29''
      \<longleftrightarrow> ms_per_day * a \<le> 1709251199999 \<and> 1709251199999 < ms_per_day * (b + 1))"
proof (rule api_range_matches_days)
  show "four_digit_day (day_of_time 1709251199999)"
    by (simp add: four_digit_day_def day_of_time_def ms_per_day_def year_of_day_def civil_eval)
qed (simp_all add: isDateOnly_valid match_eval civil_eval)

text \<open>A range whose end lies before its new start gets the end of the current month, which can lie before
  the start too.\<close>

theorem inverted_range:
  "periodValueForMode Custom_range ''2026-07-01'' ''2026-09-01'' ''2026-08-15'' ''2026-07-25'' =
     Inr (period_of Custom_range ''2026-09-01'' ''2026-09-01'' ''2026-07-31'') \<and>
   \<not> str_le ''2026-09-01'' ''2026-07-31''"
proof -
  have d: "partsFor ''2026-07-25'' = Some (2026, 7, 25)" "partsFor ''2026-09-01'' = Some (2026, 9, 1)"
    "partsFor ''2026-08-15'' = Some (2026, 8, 15)"
    by (simp_all add: partsFor_valid match_eval civil_eval)
  have s: "month_start 2026 7 = ''2026-07-01''" "month_start 2026 9 = ''2026-09-01''" "month_end 2026 7 = ''2026-07-31''"
    by code_simp+
  show ?thesis
    using endOf_parts [OF parts_month_start [OF d(1)]] s
    by (simp add: periodValueForMode_def isDateOnly_def d startOf_parts code_of_def Let_def period_of_def)
qed

end
