(* ===== verification/TransactionFilters.thy ===== *)
theory TransactionFilters
  imports Periods Splits Categories FinanceData JsonText
begin

text \<open>
  Searching and filtering the list of transactions: the text search (lib/search.ts), the filters of the
  transactions page with their place in the query, and the query sent to the server
  (TransactionsPage of pages/finance/home-transactions.tsx).
\<close>

section \<open>Text search\<close>

text \<open>A combining mark; \<open>nfd\<close> is canonical decomposition and \<open>lower\<close> the locale's lower case.\<close>

definition combining :: "code_unit \<Rightarrow> bool" where
  "combining c = (0x300 \<le> uint c \<and> uint c \<le> 0x36f)"

fun squeeze_spaces :: "bool \<Rightarrow> utf16 \<Rightarrow> utf16" where
  "squeeze_spaces after [] = []"
| "squeeze_spaces after (c # s) =
     (if space16 c then (if after then squeeze_spaces True s else u16 '' '' @ squeeze_spaces True s)
      else c # squeeze_spaces False s)"

record search_locale =
  sl_nfd :: "utf16 \<Rightarrow> utf16"
  sl_lower :: "utf16 \<Rightarrow> utf16"

definition normalizeSearchText :: "search_locale \<Rightarrow> utf16 \<Rightarrow> utf16" where
  "normalizeSearchText l value =
     squeeze_spaces False (trim16 (sl_lower l (filter (\<lambda>c. \<not> combining c) (sl_nfd l value))))"

fun split16 :: "code_unit \<Rightarrow> utf16 \<Rightarrow> utf16 list" where
  "split16 c [] = [[]]"
| "split16 c (d # s) = (if d = c then [] # split16 c s
     else (case split16 c s of [] \<Rightarrow> [[d]] | w # ws \<Rightarrow> (d # w) # ws))"

fun includes16 :: "utf16 \<Rightarrow> utf16 \<Rightarrow> bool" where
  "includes16 [] t = (t = [])"
| "includes16 (c # s) t = (take (length t) (c # s) = t \<or> includes16 s t)"

definition SPACE :: code_unit where
  "SPACE = 32"

definition matchesSearchText :: "search_locale \<Rightarrow> utf16 option list \<Rightarrow> utf16 \<Rightarrow> bool" where
  "matchesSearchText l values query =
     (let normalizedQuery = normalizeSearchText l query
      in if normalizedQuery = [] then True
         else (let candidates = filter (\<lambda>c. c \<noteq> []) (map (normalizeSearchText l)
                     (filter (\<lambda>v. v \<noteq> []) (map (\<lambda>v. case v of Some s \<Rightarrow> s | None \<Rightarrow> []) values)));
                   terms = filter (\<lambda>w. w \<noteq> []) (split16 SPACE normalizedQuery)
               in list_all (\<lambda>term. list_ex (\<lambda>candidate. includes16 candidate term) candidates) terms))"

definition contact_name :: "json option \<Rightarrow> string option" where
  "contact_name c = (case c of None \<Rightarrow> None | Some j \<Rightarrow> (case jprop j ''name'' of JStr s \<Rightarrow> Some s | _ \<Rightarrow> None))"

definition matchesTransactionSearch :: "search_locale \<Rightarrow> transaction \<Rightarrow> string \<Rightarrow> bool" where
  "matchesTransactionSearch l tx query = matchesSearchText l
     (map (map_option u16) [tx_transactionId tx, Some (tx_merchant tx), tx_note tx, tx_description tx,
       contact_name (tx_contact tx)]) (u16 query)"

section \<open>Amounts in the query\<close>

definition filter_money :: "string \<Rightarrow> bool" where
  "filter_money u = (let ip = takeWhile is_digit u; r = dropWhile is_digit u in
     ip \<noteq> [] \<and> (r = [] \<or> (hd r = CHR ''.'' \<and> all_digits (tl r) \<and> length (tl r) \<le> 2)))"

text \<open>\<open>undefined\<close> is the outer \<open>None\<close>, \<open>null\<close> the inner one.\<close>

definition amountMinorFromMajorFilter :: "string \<Rightarrow> rat option option" where
  "amountMinorFromMajorFilter value =
     (let normalized = js_trim value in
      if normalized = [] then Some None
      else if \<not> filter_money normalized then None
      else (let parts = split_on (CHR ''.'') normalized;
                fraction = (case tl parts of [] \<Rightarrow> [] | f # _ \<Rightarrow> f)
            in case (number_value (hd parts), number_value (pad_end 2 (CHR ''0'') fraction)) of
                 (Fin a, Fin b) \<Rightarrow>
                   (let minor = plus64 (times64 a 100) b
                    in if is_safe_integer minor \<and> minor \<ge> 0 then Some (Some minor) else None)
               | _ \<Rightarrow> None))"

definition digits_only :: "string \<Rightarrow> bool" where
  "digits_only s = (s \<noteq> [] \<and> all_digits s)"

definition majorFilterFromMinor :: "string \<Rightarrow> string" where
  "majorFilterFromMinor value =
     (if \<not> digits_only value then []
      else (case number_value value of
          Fin minor \<Rightarrow>
            if \<not> is_safe_integer minor then []
            else (let major = \<lfloor>fl64 (minor / 100)\<rfloor>;
                      fraction = pad_start 2 (CHR ''0'') (int_string (\<lfloor>minor\<rfloor> mod 100))
                  in if fraction = ''00'' then int_string major else int_string major @ ''.'' @ fraction)
        | _ \<Rightarrow> []))"

section \<open>The active filters\<close>

definition filterKeys :: "string list" where
  "filterKeys = [''transactionId'', ''type'', ''category'', ''accountId'', ''contactId'', ''merchant'', ''search'',
     ''minAmountMinor'', ''maxAmountMinor'']"

text \<open>The range of the query, when both ends are days or times and are in order.\<close>

definition selectedFilterRange ::
  "bool \<Rightarrow> (string \<Rightarrow> date) \<Rightarrow> search_params \<Rightarrow> (string \<times> string) option" where
  "selectedFilterRange roll parse q =
     (case (validDateOrTimestampKey roll parse (q_get q ''from''), validDateOrTimestampKey roll parse (q_get q ''to'')) of
        (Some f, Some t) \<Rightarrow> if str_le f t then Some (f, t) else None
      | _ \<Rightarrow> None)"

definition transactionFilterQueryFromSearchParams ::
  "bool \<Rightarrow> (string \<Rightarrow> date) \<Rightarrow> search_params \<Rightarrow> js_error + search_params" where
  "transactionFilterQueryFromSearchParams roll parse q =
     bind_result (case cashflowDayRange (q_get q ''date'') of None \<Rightarrow> Inr None
                  | Some r \<Rightarrow> bind_result r (\<lambda>d. Inr (Some d)))
       (\<lambda>selectedDateRange.
          bind_result (case selectedFilterRange roll parse q of
              Some (f, t) \<Rightarrow> bind_result (transactionApiDateRange f t) (\<lambda>(f', t'). Inr (q_set (q_set [] ''from'' f') ''to'' t'))
            | None \<Rightarrow> (case selectedDateRange of
                Some r \<Rightarrow> Inr (q_set (q_set [] ''from'' (dr_from r)) ''to'' (dr_to r))
              | None \<Rightarrow> Inr []))
            (\<lambda>query. Inr (foldl (\<lambda>query key. let value = q_trimmed q key in
                if value \<noteq> [] then q_set query key value else query) query filterKeys)))"

definition transactionQueryPath ::
  "(search_params \<Rightarrow> string) \<Rightarrow> bool \<Rightarrow> (string \<Rightarrow> date) \<Rightarrow> search_params \<Rightarrow> js_error + string" where
  "transactionQueryPath form roll parse q =
     bind_result (transactionFilterQueryFromSearchParams roll parse q) (\<lambda>query.
       Inr (if query = [] then ''/transactions''
            else ''/transactions?'' @ form (if selectedFilterRange roll parse q = None then q_set query ''limit'' ''100'' else query)))"

definition activeAmount :: "string \<Rightarrow> rat option" where
  "activeAmount s = (if digits_only s then (case number_value s of Fin r \<Rightarrow> Some r | _ \<Rightarrow> None) else None)"

fun raw_type_text :: "raw_type \<Rightarrow> string" where
  "raw_type_text Raw_expense = ''expense''"
| "raw_type_text Raw_income = ''income''"
| "raw_type_text Raw_transfer = ''transfer''"
| "raw_type_text Raw_split = ''split''"
| "raw_type_text Raw_refund = ''refund''"
| "raw_type_text Raw_reimbursement = ''reimbursement''"
| "raw_type_text Raw_adjustment = ''adjustment''"

fun scope_mode :: "id_scope \<Rightarrow> mode" where
  "scope_mode Scope_expense = Mode_expense"
| "scope_mode Scope_income = Mode_income"
| "scope_mode Scope_transfer = Mode_transfer"
| "scope_mode Scope_split = Mode_split"

definition mode_hints_of :: "transaction \<Rightarrow> mode_hints" where
  "mode_hints_of tx = \<lparr>mh_rawType = Some (raw_type_text (tx_rawType tx)), mh_direction = Some (tx_direction tx),
     mh_hasSplits = tx_hasSplits tx, mh_transactionIdScope = map_option scope_mode (tx_transactionIdScope tx)\<rparr>"

fun at_least :: "jsnum \<Rightarrow> rat \<Rightarrow> bool" where
  "at_least (Fin x) m = (m \<le> x)"
| "at_least PInf m = True"
| "at_least _ m = False"

fun at_most :: "jsnum \<Rightarrow> rat \<Rightarrow> bool" where
  "at_most (Fin x) m = (x \<le> m)"
| "at_most NInf m = True"
| "at_most _ m = False"

definition filterTransactions ::
  "search_locale \<Rightarrow> bool \<Rightarrow> (string \<Rightarrow> date) \<Rightarrow> search_params \<Rightarrow> transaction list \<Rightarrow> js_error + transaction list" where
  "filterTransactions l roll parse q items =
     bind_result (case cashflowDayRange (q_get q ''date'') of None \<Rightarrow> Inr None
                  | Some r \<Rightarrow> bind_result r (\<lambda>d. Inr (Some d)))
       (\<lambda>selectedDateRange.
          let day = (\<lambda>item. transactionDay parse (tx_occurredAt item));
              dateFilteredItems = (case selectedFilterRange roll parse q of
                  Some (f, t) \<Rightarrow> filter (\<lambda>item. str_le f (day item) \<and> str_le (day item) t) items
                | None \<Rightarrow> (case selectedDateRange of
                    Some r \<Rightarrow> filter (\<lambda>item. day item = dr_period r) items
                  | None \<Rightarrow> items));
              param = q_trimmed q
          in Inr (filter (\<lambda>item.
               matchesTransactionSearch l item (param ''search'') \<and>
               (param ''transactionId'' = [] \<or> tx_transactionId item = Some (param ''transactionId'')) \<and>
               (param ''category'' = [] \<or> tx_category item = param ''category'') \<and>
               (param ''type'' = [] \<or> mode_name (transactionCategoryModeFor (mode_hints_of item)) = param ''type'') \<and>
               (param ''contactId'' = [] \<or> tx_contactId item = Some (param ''contactId'')) \<and>
               (param ''merchant'' = [] \<or> tx_merchant item = param ''merchant'') \<and>
               (param ''accountId'' = [] \<or> tx_accountId item = param ''accountId'') \<and>
               (case activeAmount (param ''minAmountMinor'') of None \<Rightarrow> True
                | Some m \<Rightarrow> at_least (amountMinor (tx_amount item)) m) \<and>
               (case activeAmount (param ''maxAmountMinor'') of None \<Rightarrow> True
                | Some m \<Rightarrow> at_most (amountMinor (tx_amount item)) m)) dateFilteredItems))"

section \<open>The filter form\<close>

record filter_form =
  ff_transactionId :: string
  ff_type :: string
  ff_category :: string
  ff_accountId :: string
  ff_contactId :: string
  ff_minAmount :: string
  ff_maxAmount :: string
  ff_from :: string
  ff_to :: string

datatype filter_error = Amount_error string | Date_error string

definition setOrDelete :: "string \<Rightarrow> string \<Rightarrow> search_params \<Rightarrow> search_params" where
  "setOrDelete key value q = (let normalized = js_trim value in
     if normalized \<noteq> [] then q_set q key normalized else q_delete q key)"

text \<open>The form shows the query.\<close>

definition form_of_query :: "bool \<Rightarrow> (string \<Rightarrow> date) \<Rightarrow> search_params \<Rightarrow> filter_form" where
  "form_of_query roll parse q =
     (let rangeFrom = validDateOrTimestampKey roll parse (q_get q ''from'');
          rangeTo = validDateOrTimestampKey roll parse (q_get q ''to'');
          day = (case cashflowDayRange (q_get q ''date'') of Some (Inr d) \<Rightarrow> dr_period d | _ \<Rightarrow> [])
      in \<lparr>ff_transactionId = q_trimmed q ''transactionId'', ff_type = q_trimmed q ''type'',
          ff_category = q_trimmed q ''category'', ff_accountId = q_trimmed q ''accountId'',
          ff_contactId = q_trimmed q ''contactId'',
          ff_minAmount = majorFilterFromMinor (q_trimmed q ''minAmountMinor''),
          ff_maxAmount = majorFilterFromMinor (q_trimmed q ''maxAmountMinor''),
          ff_from = or_else rangeFrom day, ff_to = or_else rangeTo day\<rparr>)"

definition applyFilters :: "bool \<Rightarrow> filter_form \<Rightarrow> search_params \<Rightarrow> filter_error + search_params" where
  "applyFilters roll f q =
     (case (amountMinorFromMajorFilter (ff_minAmount f), amountMinorFromMajorFilter (ff_maxAmount f)) of
        (Some lowest, Some highest) \<Rightarrow>
          if (case (lowest, highest) of (Some a, Some b) \<Rightarrow> a > b | _ \<Rightarrow> False)
          then Inl (Amount_error ''Maximum amount must be at least the minimum amount.'')
          else if (ff_from f \<noteq> [] \<or> ff_to f \<noteq> []) \<and>
              (validDateKey roll (Some (ff_from f)) = None \<or> validDateKey roll (Some (ff_to f)) = None)
          then Inl (Date_error ''Choose valid From and To dates.'')
          else if ff_from f \<noteq> [] \<and> ff_to f \<noteq> [] \<and> \<not> str_le (ff_from f) (ff_to f)
          then Inl (Date_error ''The To date must be on or after the From date.'')
          else (let q1 = q_delete q ''date'';
                    q2 = (if ff_from f \<noteq> [] \<and> ff_to f \<noteq> []
                          then q_set (q_set q1 ''from'' (ff_from f)) ''to'' (ff_to f)
                          else q_delete (q_delete q1 ''from'') ''to'');
                    amount = (\<lambda>x. case x of None \<Rightarrow> [] | Some m \<Rightarrow> num_string (Fin m))
                in Inr (setOrDelete ''maxAmountMinor'' (amount highest)
                       (setOrDelete ''minAmountMinor'' (amount lowest)
                       (setOrDelete ''contactId'' (ff_contactId f)
                       (setOrDelete ''accountId'' (ff_accountId f)
                       (setOrDelete ''category'' (ff_category f)
                       (setOrDelete ''type'' (ff_type f)
                       (setOrDelete ''transactionId'' (ff_transactionId f) q2))))))))
      | _ \<Rightarrow> Inl (Amount_error ''Enter non-negative amounts with no more than two decimal places.''))"

definition clearFilters :: "search_params \<Rightarrow> search_params" where
  "clearFilters q = foldl q_delete q [''date'', ''from'', ''to'', ''category'', ''type'', ''contactId'', ''merchant'',
     ''accountId'', ''transactionId'', ''minAmountMinor'', ''maxAmountMinor'']"

definition updateSearch :: "string \<Rightarrow> search_params \<Rightarrow> search_params" where
  "updateSearch value q = setOrDelete ''search'' value q"

section \<open>Amounts\<close>

lemma filter_money_shape:
  assumes "filter_money u"
  obtains ip fs where "ip \<noteq> []" "all_digits ip" "all_digits fs" "length fs \<le> 2"
    "u = ip \<or> u = ip @ CHR ''.'' # fs" "hd (split_on (CHR ''.'') u) = ip"
    "(case tl (split_on (CHR ''.'') u) of [] \<Rightarrow> [] | f # _ \<Rightarrow> f) = (if u = ip then [] else fs)"
proof -
  define ip r where d: "ip = takeWhile is_digit u" "r = dropWhile is_digit u"
  have u: "u = ip @ r" by (simp add: d)
  have ip: "ip \<noteq> []" "all_digits ip"
    using assms by (auto simp: filter_money_def d Let_def all_digits_def list_all_iff dest: set_takeWhileD)
  note nd = dot_notin_digits [OF ip(2)]
  show thesis
  proof (cases r)
    case Nil
    with u have e: "u = ip" by simp
    with nd have "split_on (CHR ''.'') u = [ip]" by (simp add: split_on_none)
    with e ip that [of ip "[]"] show thesis by (simp add: all_digits_def)
  next
    case (Cons c fs)
    with assms have f: "c = CHR ''.''" "all_digits fs" "length fs \<le> 2" by (simp_all add: filter_money_def Let_def d(2) [symmetric])
    with u Cons nd dot_notin_digits [OF f(2)] have "split_on (CHR ''.'') u = [ip, fs]"
      by (simp add: split_on_append split_on_none)
    with u Cons f ip that [of ip fs] show thesis by simp
  qed
qed

lemma fraction_value:
  assumes "all_digits fs" "length fs \<le> 2"
  shows "all_digits (pad_end 2 (CHR ''0'') fs)" "digits_value (pad_end 2 (CHR ''0'') fs) < 100"
    "pad_end 2 (CHR ''0'') fs \<noteq> []"
proof -
  have z: "is_digit (CHR ''0'')" by (simp add: is_digit_def code_of_def)
  show a: "all_digits (pad_end 2 (CHR ''0'') fs)"
    using assms(1) z by (auto simp: pad_end_def all_digits_def list_all_iff)
  have l: "length (pad_end 2 (CHR ''0'') fs) = 2" using assms(2) by (simp add: pad_end_def)
  then show "pad_end 2 (CHR ''0'') fs \<noteq> []" by auto
  show "digits_value (pad_end 2 (CHR ''0'') fs) < 100" using digits_value_bound [OF a] l by simp
qed

lemma safe_nat: "is_safe_integer (of_nat n) \<longleftrightarrow> int n \<le> max_safe_integer"
proof -
  have "\<bar>of_nat n :: rat\<bar> \<le> of_int max_safe_integer \<longleftrightarrow> of_int (int n) \<le> (of_int max_safe_integer :: rat)" by simp
  also have "\<dots> \<longleftrightarrow> int n \<le> max_safe_integer" by (simp only: of_int_le_iff)
  finally show ?thesis by (simp add: is_safe_integer_def)
qed

text \<open>The amount of a text of the accepted form: its exact hundredths, if they are a safe integer.\<close>

lemma filter_amount_value:
  assumes "js_trim v = u" "filter_money u"
    and s: "hd (split_on (CHR ''.'') u) = ip" "(case tl (split_on (CHR ''.'') u) of [] \<Rightarrow> [] | f # _ \<Rightarrow> f) = fs"
    and d: "ip \<noteq> []" "all_digits ip" "all_digits fs" "length fs \<le> 2"
  defines "n \<equiv> 100 * digits_value ip + digits_value (pad_end 2 (CHR ''0'') fs)"
  shows "amountMinorFromMajorFilter v = (if int n \<le> max_safe_integer then Some (Some (of_nat n)) else None)"
proof -
  note f = fraction_value [OF d(3,4)]
  define r where "r = plus64 (times64 (fl64 (of_nat (digits_value ip))) 100)
      (fl64 (of_nat (digits_value (pad_end 2 (CHR ''0'') fs))))"
  have ne: "u \<noteq> []" using assms(2) by (auto simp: filter_money_def)
  have e: "amountMinorFromMajorFilter v = (if is_safe_integer r \<and> r \<ge> 0 then Some (Some r) else None)"
    using assms(1,2) ne number_value_digits [OF d(2,1)] number_value_digits [OF f(1,3)]
    by (simp add: amountMinorFromMajorFilter_def Let_def s r_def)
  consider "r = of_nat n" | "2 ^ 53 \<le> r" "2 ^ 53 \<le> n"
    using share_arithmetic [OF f(2), of "digits_value ip"] by (auto simp: r_def n_def)
  then show ?thesis
  proof cases
    case 1
    then show ?thesis by (simp add: e safe_nat)
  next
    case 2
    then have "\<not> is_safe_integer r" "\<not> int n \<le> max_safe_integer"
      by (auto simp: is_safe_integer_def max_safe_integer_def)
    then show ?thesis by (simp add: e)
  qed
qed

lemma filter_amount_cases:
  assumes "amountMinorFromMajorFilter v = Some (Some r)"
  obtains n where "r = of_nat n" "int n \<le> max_safe_integer"
proof -
  have m: "filter_money (js_trim v)" using assms by (auto simp: amountMinorFromMajorFilter_def Let_def split: if_splits)
  then obtain ip fs where s: "ip \<noteq> []" "all_digits ip" "all_digits fs" "length fs \<le> 2" "hd (split_on (CHR ''.'') (js_trim v)) = ip"
    "(case tl (split_on (CHR ''.'') (js_trim v)) of [] \<Rightarrow> [] | f # _ \<Rightarrow> f) = (if js_trim v = ip then [] else fs)"
    by (rule filter_money_shape)
  have t: "all_digits (if js_trim v = ip then [] else fs)" "length (if js_trim v = ip then [] else fs) \<le> 2"
    using s by (simp_all add: all_digits_def)
  define n where "n = 100 * digits_value ip + digits_value (pad_end 2 (CHR ''0'') (if js_trim v = ip then [] else fs))"
  from filter_amount_value [OF refl m s(5,6,1,2) t, folded n_def] assms have "r = of_nat n" "int n \<le> max_safe_integer"
    by (auto split: if_splits)
  then show thesis by (rule that)
qed

lemma hundredth_error: "0 \<le> a \<Longrightarrow> a < p \<Longrightarrow> a / 100 * (1 / p) < 1 / (100 :: rat)"
  by (simp add: field_simps)

lemma floor_near: "x = of_int q + r / 100 \<Longrightarrow> \<bar>y - x\<bar> < 1 / 100 \<Longrightarrow> 1 \<le> r \<Longrightarrow> r \<le> 99 \<Longrightarrow> \<lfloor>y\<rfloor> = q" for x y r :: rat
  by (intro floor_unique) linarith+

lemma floor_hundredth:
  assumes "int n \<le> max_safe_integer"
  shows "\<lfloor>fl64 (of_nat n / 100)\<rfloor> = int (n div 100)"
proof -
  define q r where qr: "q = n div 100" "r = n mod 100"
  have "(of_nat n :: rat) = of_nat (100 * q + r)" by (simp only: qr mult_div_mod_eq)
  then have n: "(of_nat n :: rat) / 100 = of_int (int q) + of_nat r / 100" by simp
  have big: "n < 2 ^ 53" using assms by (simp add: max_safe_integer_def)
  show ?thesis
  proof (cases "r = 0")
    case True
    have "q < 2 ^ 53" using big by (simp add: qr)
    with fl64_nat [of q] have "fl64 (of_nat q) = of_nat q" by auto
    with True n show ?thesis by (simp add: qr(1) [symmetric])
  next
    case False
    then have r: "1 \<le> r" "r \<le> 99" by (auto simp: qr)
    let ?x = "of_nat n / 100 :: rat"
    have n1: "1 \<le> n" using False qr by (cases n) simp_all
    have b: "(of_nat n :: rat) < 2 ^ 53" using big by (metis of_nat_less_iff of_nat_numeral of_nat_power)
    have "?x = 0 \<or> 1 / 1000 \<le> \<bar>?x\<bar>" using n1 by simp
    then have "\<bar>fl64 ?x - ?x\<bar> \<le> \<bar>?x\<bar> * (1 / 2 ^ 53)" by (rule fl64_error)
    also have "\<bar>?x\<bar> * (1 / 2 ^ 53) < 1 / 100" using hundredth_error [OF _ b] by simp
    finally have c: "\<bar>fl64 ?x - ?x\<bar> < 1 / 100" .
    have "(1 :: rat) \<le> of_nat r" "(of_nat r :: rat) \<le> of_nat 99" using r by (simp, simp only: of_nat_le_iff)
    then show ?thesis unfolding qr(1) [symmetric] by (intro floor_near [OF n c]) simp_all
  qed
qed

lemma int_string_nat: "int_string (int k) = nat_digits k"
  by (simp add: int_string_def)

text \<open>The text of an amount in the form, for the amount in the query.\<close>

lemma majorFilter_nat:
  assumes "int n \<le> max_safe_integer"
  shows "majorFilterFromMinor (nat_digits n) =
    nat_digits (n div 100) @ (if n mod 100 = 0 then [] else CHR ''.'' # pad_start 2 (CHR ''0'') (nat_digits (n mod 100)))"
proof -
  have d: "digits_only (nat_digits n)" by (simp add: digits_only_def nat_digits_nonempty)
  have "(of_nat n :: rat) = of_nat n \<and> n < 2 ^ 53" using assms by (simp add: max_safe_integer_def)
  then have v: "number_value (nat_digits n) = Fin (of_nat n)"
    using number_value_digits [of "nat_digits n"] d fl64_nat [of n] by (auto simp: digits_only_def)
  have m: "int_string (int n mod 100) = nat_digits (n mod 100)"
    using int_string_nat [of "n mod 100"] by (simp add: zmod_int)
  have z: "pad_start 2 (CHR ''0'') (nat_digits 0) = ''00''" by code_simp
  have nz: "pad_start 2 (CHR ''0'') (nat_digits k) \<noteq> ''00''" if "0 < k" "k < 100" for k
  proof
    assume "pad_start 2 (CHR ''0'') (nat_digits k) = ''00''"
    then have "digits_value (pad (Some (int k))) = 0" by (simp add: pad_def field_string_def int_string_def digits_value_def digit_value_def code_of_def)
    with pad2(3) [of "int k"] that show False by simp
  qed
  have r: "n mod 100 < 100" by simp
  show ?thesis
    using d safe_nat [of n] assms floor_hundredth [OF assms] nz [OF _ r]
    by (cases "n mod 100 = 0") (simp_all add: majorFilterFromMinor_def v m z int_string_nat Let_def)
qed

lemma majorFilter_roundtrip:
  assumes "int n \<le> max_safe_integer"
  shows "amountMinorFromMajorFilter (majorFilterFromMinor (nat_digits n)) = Some (Some (of_nat n))"
proof -
  let ?ip = "nat_digits (n div 100)" and ?p = "pad_start 2 (CHR ''0'') (nat_digits (n mod 100))"
  define fs where "fs = (if n mod 100 = 0 then [] else ?p)"
  let ?u = "?ip @ (if n mod 100 = 0 then [] else CHR ''.'' # fs)"
  have u: "majorFilterFromMinor (nat_digits n) = ?u" using majorFilter_nat [OF assms] by (simp add: fs_def)
  have p: "?p = pad (Some (int (n mod 100)))" by (simp add: pad_def field_string_def int_string_def zmod_int [symmetric])
  have pd: "length ?p = 2" "all_digits ?p" "digits_value ?p = n mod 100"
    unfolding p using pad2 [of "int (n mod 100)"] by simp_all
  have d: "?ip \<noteq> []" "all_digits ?ip" "all_digits fs" "length fs \<le> 2"
    using pd all_digits_nat_digits [of "n div 100"] by (auto simp: fs_def all_digits_def)
  have m: "filter_money ?u"
    using d span_digits_money [OF d(2), of "CHR ''.'' # fs"] span_digits_all [OF d(2)] dot_not_digit
    by (simp add: filter_money_def)
  have sp: "split_on (CHR ''.'') ?u = (if n mod 100 = 0 then [?ip] else [?ip, fs])"
    using dot_notin_digits [OF d(2)] dot_notin_digits [OF d(3)] by (simp add: split_on_none split_on_append)
  have hd_last: "\<not> is_space (hd ?u)" "\<not> is_space (last ?u)"
  proof -
    have "is_digit (hd ?ip)" using d(1,2) by (cases ?ip) (simp_all add: all_digits_def)
    then show "\<not> is_space (hd ?u)" using d(1) by (simp add: digit_not_space)
    have ne: "fs \<noteq> []" if "n mod 100 \<noteq> 0" using that pd(1) by (auto simp: fs_def)
    have "is_digit (last xs)" if "xs \<noteq> []" "all_digits xs" for xs
      using that by (simp add: all_digits_def list_all_iff)
    with d ne have "is_digit (last (if n mod 100 = 0 then ?ip else fs))" by simp
    with ne show "\<not> is_space (last ?u)" by (auto simp: digit_not_space)
  qed
  have v: "100 * digits_value ?ip + digits_value (pad_end 2 (CHR ''0'') fs) = n"
  proof (cases "n mod 100 = 0")
    case True
    have "pad_end 2 (CHR ''0'') [] = ''00''" by code_simp
    with True mult_div_mod_eq [of 100 n] show ?thesis by (simp add: fs_def digits_value_def [of "''00''"] digit_value_def code_of_def)
  next
    case False
    then have "pad_end 2 (CHR ''0'') fs = ?p" using pd(1) by (simp add: fs_def pad_end_def)
    with pd(3) show ?thesis by simp
  qed
  have tr: "js_trim ?u = ?u" by (rule js_trim_fixed) (use hd_last in blast)
  have "amountMinorFromMajorFilter ?u = (if int n \<le> max_safe_integer then Some (Some (of_nat n)) else None)"
    using filter_amount_value [OF tr m _ _ d, unfolded v] by (auto simp: sp fs_def)
  then show ?thesis using assms by (simp only: u if_True)
qed

section \<open>The form and the query\<close>

lemma trimmed_setOrDelete: "q_trimmed (setOrDelete k v q) j = (if j = k then js_trim v else q_trimmed q j)"
  by (simp add: q_trimmed_def setOrDelete_def Let_def q_simps)

lemma get_setOrDelete: "j \<noteq> k \<Longrightarrow> q_get (setOrDelete k v q) j = q_get q j"
  by (simp add: setOrDelete_def Let_def q_simps)

lemma validDateKey_same: "validDateKey roll (Some v) = Some w \<Longrightarrow> w = v"
  by (auto simp: validDateKey_def split: if_splits option.splits)

lemma valid_key_timestamp: "validDateKey roll (Some v) \<noteq> None \<Longrightarrow> validDateOrTimestampKey roll parse (Some v) = Some v"
  using validDateKey_same by (auto simp: validDateOrTimestampKey_def)

lemma no_amount [simp]: "amountMinorFromMajorFilter [] = Some None" "majorFilterFromMinor [] = []"
  by (simp_all add: amountMinorFromMajorFilter_def majorFilterFromMinor_def digits_only_def js_trim_def trim_start_def trim_end_def)

definition amount_text :: "rat option \<Rightarrow> string" where
  "amount_text x = (case x of None \<Rightarrow> [] | Some m \<Rightarrow> num_string (Fin m))"

lemma amount_text_read:
  assumes "amountMinorFromMajorFilter v = Some x"
  shows "amountMinorFromMajorFilter (majorFilterFromMinor (js_trim (amount_text x))) = Some x"
proof (cases x)
  case None
  then show ?thesis by (simp add: amount_text_def js_trim_def trim_start_def trim_end_def)
next
  case (Some r)
  with assms obtain n where n: "r = of_nat n" "int n \<le> max_safe_integer" using filter_amount_cases by blast
  then have "num_string (Fin r) = nat_digits n" using num_string_whole [of r] by simp
  with Some n majorFilter_roundtrip [OF n(2)] show ?thesis by (simp add: amount_text_def all_digits_trim)
qed

definition form_normal :: "filter_form \<Rightarrow> filter_form \<Rightarrow> bool" where
  "form_normal f g = (ff_transactionId g = js_trim (ff_transactionId f) \<and> ff_type g = js_trim (ff_type f) \<and>
     ff_category g = js_trim (ff_category f) \<and> ff_accountId g = js_trim (ff_accountId f) \<and>
     ff_contactId g = js_trim (ff_contactId f) \<and> ff_from g = ff_from f \<and> ff_to g = ff_to f \<and>
     amountMinorFromMajorFilter (ff_minAmount g) = amountMinorFromMajorFilter (ff_minAmount f) \<and>
     amountMinorFromMajorFilter (ff_maxAmount g) = amountMinorFromMajorFilter (ff_maxAmount f))"

definition dates_params :: "filter_form \<Rightarrow> search_params \<Rightarrow> search_params" where
  "dates_params f q = (if ff_from f \<noteq> [] \<and> ff_to f \<noteq> []
     then q_set (q_set (q_delete q ''date'') ''from'' (ff_from f)) ''to'' (ff_to f)
     else q_delete (q_delete (q_delete q ''date'') ''from'') ''to'')"

lemma applyFilters_Inr:
  assumes "applyFilters roll f q = Inr q'"
  obtains lo hi where "amountMinorFromMajorFilter (ff_minAmount f) = Some lo"
    "amountMinorFromMajorFilter (ff_maxAmount f) = Some hi"
    "ff_from f \<noteq> [] \<or> ff_to f \<noteq> [] \<Longrightarrow> validDateKey roll (Some (ff_from f)) \<noteq> None \<and> validDateKey roll (Some (ff_to f)) \<noteq> None"
    "q' = setOrDelete ''maxAmountMinor'' (amount_text hi) (setOrDelete ''minAmountMinor'' (amount_text lo)
      (setOrDelete ''contactId'' (ff_contactId f) (setOrDelete ''accountId'' (ff_accountId f)
      (setOrDelete ''category'' (ff_category f) (setOrDelete ''type'' (ff_type f)
      (setOrDelete ''transactionId'' (ff_transactionId f) (dates_params f q)))))))"
  using assms
  by (auto simp: applyFilters_def Let_def amount_text_def dates_params_def split: option.splits if_splits)

text \<open>C18. The filter form and the query agree: when the form is accepted, the page that reads the new query
  shows the form again, its texts trimmed, its days unchanged and its amounts denoting the same hundredths,
  and nothing of the range or day that the query held before remains.\<close>

theorem applied_filters_read_back:
  assumes "applyFilters roll f q = Inr q'"
  shows "form_normal f (form_of_query roll parse q')"
  using assms
proof (rule applyFilters_Inr)
  fix lo hi
  let ?d = "dates_params f q"
  assume a: "amountMinorFromMajorFilter (ff_minAmount f) = Some lo" "amountMinorFromMajorFilter (ff_maxAmount f) = Some hi"
    and v: "ff_from f \<noteq> [] \<or> ff_to f \<noteq> [] \<Longrightarrow> validDateKey roll (Some (ff_from f)) \<noteq> None \<and> validDateKey roll (Some (ff_to f)) \<noteq> None"
    and q': "q' = setOrDelete ''maxAmountMinor'' (amount_text hi) (setOrDelete ''minAmountMinor'' (amount_text lo)
      (setOrDelete ''contactId'' (ff_contactId f) (setOrDelete ''accountId'' (ff_accountId f)
      (setOrDelete ''category'' (ff_category f) (setOrDelete ''type'' (ff_type f)
      (setOrDelete ''transactionId'' (ff_transactionId f) ?d))))))"
  have e: "validDateKey roll (Some []) = None" by (simp add: validDateKey_def)
  have both: "ff_from f = [] \<longleftrightarrow> ff_to f = []" using v e by metis
  have day: "q_get q' ''date'' = None" and ends: "q_get q' ''from'' = (if ff_from f = [] then None else Some (ff_from f))"
    "q_get q' ''to'' = (if ff_to f = [] then None else Some (ff_to f))"
    using both by (simp_all add: q' get_setOrDelete dates_params_def q_simps)
  have none: "validDateOrTimestampKey roll parse None = None" by (simp add: validDateOrTimestampKey_def validDateKey_def)
  have t: "q_trimmed q' ''transactionId'' = js_trim (ff_transactionId f)" "q_trimmed q' ''type'' = js_trim (ff_type f)"
    "q_trimmed q' ''category'' = js_trim (ff_category f)" "q_trimmed q' ''accountId'' = js_trim (ff_accountId f)"
    "q_trimmed q' ''contactId'' = js_trim (ff_contactId f)" "q_trimmed q' ''minAmountMinor'' = js_trim (amount_text lo)"
    "q_trimmed q' ''maxAmountMinor'' = js_trim (amount_text hi)"
    unfolding q' trimmed_setOrDelete by simp_all
  have r: "or_else (validDateOrTimestampKey roll parse (q_get q' ''from'')) [] = ff_from f"
    "or_else (validDateOrTimestampKey roll parse (q_get q' ''to'')) [] = ff_to f"
    using v valid_key_timestamp [of roll "ff_from f"] valid_key_timestamp [of roll "ff_to f"]
    by (auto simp: ends none or_else_def)
  have c: "cashflowDayRange None = None" by (simp add: cashflowDayRange_def)
  show ?thesis
    using r amount_text_read [OF a(1)] amount_text_read [OF a(2)] a
    by (simp add: form_normal_def form_of_query_def t day c Let_def)
qed

definition example_form :: filter_form where
  "example_form = \<lparr>ff_transactionId = '' 7'', ff_type = ''income'', ff_category = [], ff_accountId = [], ff_contactId = [],
     ff_minAmount = ''1.5'', ff_maxAmount = [], ff_from = [], ff_to = []\<rparr>"

theorem applied_filters_read_back_witness:
  "\<exists>q'. applyFilters True example_form [(''date'', ''2024-01-01'')] = Inr q' \<and>
     form_normal example_form (form_of_query True (\<lambda>s. None) q')"
proof -
  have "\<exists>x. amountMinorFromMajorFilter ''1.5'' = Some x"
  proof -
    have t: "js_trim ''1.5'' = ''1.5''" "filter_money ''1.5''"
      by (simp_all add: js_trim_def trim_start_def trim_end_def is_space_def filter_money_def string_eval)
    have d: "all_digits ''1''" "all_digits ''5''" by (simp_all add: string_eval)
    show ?thesis
      using filter_amount_value [OF t, of "''1''" "''5''"] d
      by (simp add: pad_end_def string_eval max_safe_integer_def)
  qed
  then obtain x where "amountMinorFromMajorFilter ''1.5'' = Some x" by blast
  then have "\<exists>q'. applyFilters True example_form [(''date'', ''2024-01-01'')] = Inr q'"
    by (simp add: applyFilters_def example_form_def split: option.split)
  then obtain q' where q': "applyFilters True example_form [(''date'', ''2024-01-01'')] = Inr q'" by blast
  show ?thesis using q' applied_filters_read_back [OF q', of "\<lambda>s. None"] by blast
qed

section \<open>Search terms\<close>

text \<open>The runs of units between white space; \<open>query_words\<close> are those that are not empty.\<close>

fun wsplit :: "utf16 \<Rightarrow> utf16 list" where
  "wsplit [] = [[]]"
| "wsplit (c # s) = (if space16 c then [] # wsplit s else (c # hd (wsplit s)) # tl (wsplit s))"

abbreviation nonempty :: "utf16 list \<Rightarrow> utf16 list" where
  "nonempty ws \<equiv> filter (\<lambda>w. w \<noteq> []) ws"

definition fold_text :: "search_locale \<Rightarrow> utf16 \<Rightarrow> utf16" where
  "fold_text l s = sl_lower l (filter (\<lambda>c. \<not> combining c) (sl_nfd l s))"

definition query_words :: "search_locale \<Rightarrow> utf16 \<Rightarrow> utf16 list" where
  "query_words l query = nonempty (wsplit (fold_text l query))"

lemma split16_nonempty [simp]: "split16 c s \<noteq> []"
  by (induction s) (auto split: list.splits)

lemma wsplit_nonempty [simp]: "wsplit s \<noteq> []"
  by (induction s) simp_all

lemma space16_SPACE [simp]: "space16 SPACE"
  by (simp add: space16_def SPACE_def)

lemma u16_space: "u16 '' '' = [SPACE]"
  by (simp add: u16_def SPACE_def code_of_def)

lemma split16_Cons: "split16 c (d # s) = (if d = c then [] # split16 c s else (d # hd (split16 c s)) # tl (split16 c s))"
  by (cases "split16 c s") simp_all

lemma split_squeezed:
  "hd (split16 SPACE (squeeze_spaces False s)) = hd (wsplit s) \<and>
   nonempty (tl (split16 SPACE (squeeze_spaces False s))) = nonempty (tl (wsplit s)) \<and>
   nonempty (split16 SPACE (squeeze_spaces True s)) = nonempty (wsplit s)"
proof (induction s)
  case (Cons c s)
  have "nonempty (split16 SPACE (squeeze_spaces False s)) = nonempty (wsplit s)"
    using Cons.IH by (cases "split16 SPACE (squeeze_spaces False s)"; cases "wsplit s") simp_all
  moreover have "c \<noteq> SPACE" if "\<not> space16 c" using that space16_SPACE by blast
  ultimately show ?case
    using Cons.IH by (cases "space16 c") (simp_all add: split16_Cons u16_space del: split16.simps(2))
qed simp

lemma nonempty_hd_tl: "ws \<noteq> [] \<Longrightarrow> nonempty ws = nonempty [hd ws] @ nonempty (tl ws)"
  by (cases ws) simp_all

lemma wsplit_append_space: "space16 c \<Longrightarrow> wsplit (s @ c # u) = wsplit s @ wsplit u"
  by (induction s) simp_all

lemma wsplit_spaces: "list_all space16 u \<Longrightarrow> nonempty (wsplit (s @ u)) = nonempty (wsplit s)"
proof (induction u arbitrary: s)
  case (Cons c u)
  then have "nonempty (wsplit ((s @ [c]) @ u)) = nonempty (wsplit (s @ [c]))" by (intro Cons.IH) simp
  with Cons.prems show ?case using wsplit_append_space [of c s "[]"] by simp
qed simp

lemma wsplit_trim: "nonempty (wsplit (trim16 s)) = nonempty (wsplit s)"
proof -
  have a: "nonempty (wsplit (dropWhile space16 s)) = nonempty (wsplit s)" for s by (induction s) simp_all
  have "s = trim_end16 s @ rev (takeWhile space16 (rev s))" for s
    unfolding trim_end16_def by (metis rev_append rev_rev_ident takeWhile_dropWhile_id)
  moreover have "list_all space16 (rev (takeWhile space16 (rev s)))" for s
    by (auto simp: list_all_iff dest: set_takeWhileD)
  ultimately have "nonempty (wsplit (trim_end16 s)) = nonempty (wsplit s)" for s
    by (metis wsplit_spaces)
  then show ?thesis by (simp add: trim16_def a)
qed

lemma search_terms: "nonempty (split16 SPACE (normalizeSearchText l q)) = query_words l q"
proof -
  have "nonempty (split16 SPACE (squeeze_spaces False s)) = nonempty (wsplit s)" for s
    using split_squeezed [of s] nonempty_hd_tl [of "split16 SPACE (squeeze_spaces False s)"] nonempty_hd_tl [of "wsplit s"]
    by simp
  then show ?thesis by (simp add: normalizeSearchText_def query_words_def fold_text_def wsplit_trim)
qed

lemma includes16_sublist: "includes16 s t \<longleftrightarrow> sublist t s"
proof (induction s)
  case (Cons c s)
  have "take (length t) (c # s) = t \<longleftrightarrow> prefix t (c # s)" by (metis append_eq_conv_conj prefix_def take_is_prefix)
  with Cons show ?case by (simp add: sublist_Cons_right)
qed simp

text \<open>The search is a conjunction of words: a text matches exactly when every word of the query, with
  accents and case folded, occurs in some searched field that is not empty; order and spacing of the words do not matter, and
  an empty query matches everything.\<close>

theorem search_matches_words:
  "matchesSearchText l values query \<longleftrightarrow>
   list_all (\<lambda>w. \<exists>v. Some v \<in> set values \<and> v \<noteq> [] \<and> sublist w (normalizeSearchText l v)) (query_words l query)"
proof -
  let ?c = "filter (\<lambda>c. c \<noteq> []) (map (normalizeSearchText l) (filter (\<lambda>v. v \<noteq> []) (map (\<lambda>v. case v of Some s \<Rightarrow> s | None \<Rightarrow> []) values)))"
  have e: "query_words l query = [] " if "normalizeSearchText l query = []"
    using search_terms [of l query] that by simp
  have n: "list_ex (\<lambda>c. includes16 c w) ?c \<longleftrightarrow> (\<exists>v. Some v \<in> set values \<and> v \<noteq> [] \<and> sublist w (normalizeSearchText l v))"
    if "w \<in> set (query_words l query)" for w
  proof -
    have "w \<noteq> []" using that by (simp add: query_words_def)
    then have ne: "sublist w u \<Longrightarrow> u \<noteq> []" for u by auto
    have "v \<in> (\<lambda>v. case v of Some s \<Rightarrow> s | None \<Rightarrow> []) ` set values \<and> v \<noteq> [] \<longleftrightarrow> Some v \<in> set values \<and> v \<noteq> []" for v
      by (force split: option.splits)
    with ne show ?thesis by (fastforce simp: list_ex_iff includes16_sublist)
  qed
  show ?thesis
    using e n by (auto simp: matchesSearchText_def Let_def search_terms list_all_iff)
qed

end
