(* ===== verification/TransactionMemory.thy ===== *)
theory TransactionMemory
  imports JsonText Categories
begin

text \<open>
  What the entry of a transaction remembers on the device (lib/transaction-memory.ts): the last account
  and, for each kind of transaction, the five categories used last, kept as JSON text under one key of the
  local storage. The text is parsed without validation, as in the code.
\<close>

section \<open>The stored memory\<close>

definition STORAGE_KEY :: string where
  "STORAGE_KEY = ''ledgerly:transaction-memory:v1''"

definition MAX_RECENT_CATEGORIES :: nat where
  "MAX_RECENT_CATEGORIES = 5"

type_synonym local_storage = "(string, string) omap"

definition readMemory :: "local_storage \<Rightarrow> json" where
  "readMemory s = (case om_get s STORAGE_KEY of
       Some (c # cs) \<Rightarrow> (case JSON_parse (c # cs) of
           Inr (JObj m) \<Rightarrow> JObj m
         | Inr (JArr xs) \<Rightarrow> JArr xs
         | _ \<Rightarrow> JObj [])
     | _ \<Rightarrow> JObj [])"

text \<open>\<open>writable\<close>: whether the storage takes the item; when it throws, nothing is stored.\<close>

definition writeMemory :: "bool \<Rightarrow> json \<Rightarrow> local_storage \<Rightarrow> local_storage" where
  "writeMemory writable memory s = (if writable then om_set s STORAGE_KEY (json_text memory) else s)"

text \<open>The own properties that a spread copies.\<close>

definition spread :: "json \<Rightarrow> (string \<times> json) list" where
  "spread v = (case v of
       JObj m \<Rightarrow> m
     | JArr xs \<Rightarrow> map (\<lambda>(i, x). (nat_digits i, x)) (zip [0..<length xs] xs)
     | JStr t \<Rightarrow> map (\<lambda>(i, c). (nat_digits i, JStr [c])) (zip [0..<length t] t)
     | _ \<Rightarrow> [])"

text \<open>\<open>v?.[k]\<close>.\<close>

definition optional_prop :: "json \<Rightarrow> string \<Rightarrow> json" where
  "optional_prop v k = (if is_nullish v then JUndefined else jprop v k)"

definition first_item :: "json \<Rightarrow> json" where
  "first_item v = (case v of JArr (x # _) \<Rightarrow> x | JStr (c # _) \<Rightarrow> JStr [c] | _ \<Rightarrow> JUndefined)"

section \<open>Reading and remembering\<close>

definition rememberedAccountId :: "local_storage \<Rightarrow> json" where
  "rememberedAccountId s = jprop (readMemory s) ''accountId''"

definition rememberedCategory :: "mode \<Rightarrow> local_storage \<Rightarrow> json" where
  "rememberedCategory m s = first_item (optional_prop (jprop (readMemory s) ''categories'') (mode_name m))"

definition rememberAccount :: "bool \<Rightarrow> string \<Rightarrow> local_storage \<Rightarrow> local_storage" where
  "rememberAccount writable accountId s =
     (if accountId = [] then s
      else writeMemory writable (JObj (om_set (spread (readMemory s)) ''accountId'' (JStr accountId))) s)"

definition rememberCategory :: "bool \<Rightarrow> mode \<Rightarrow> string \<Rightarrow> local_storage \<Rightarrow> js_error + local_storage" where
  "rememberCategory writable m category s =
     (if category = [] then Inr s
      else (let memory = readMemory s;
                existing = nullish (jprop memory ''categories'') (JObj []);
                previous = nullish (jprop existing (mode_name m)) (JArr [])
            in case previous of
                 JArr xs \<Rightarrow>
                   (let next_items = take MAX_RECENT_CATEGORIES (JStr category # filter (\<lambda>entry. entry \<noteq> JStr category) xs)
                    in Inr (writeMemory writable (JObj (om_set (spread memory) ''categories''
                         (JObj (om_set (spread existing) (mode_name m) (JArr next_items))))) s))
               | _ \<Rightarrow> Inl TypeError))"

section \<open>Ordering by recency\<close>

definition rank_of :: "json list \<Rightarrow> (json, nat) omap" where
  "rank_of recent = foldl (\<lambda>m (name, index). om_set m name index) [] (zip recent [0..<length recent])"

definition recency_cmp :: "(json, nat) omap \<Rightarrow> ('a \<Rightarrow> string) \<Rightarrow> 'a \<Rightarrow> 'a \<Rightarrow> int" where
  "recency_cmp rank getName left right =
     (case (om_get rank (JStr (getName left)), om_get rank (JStr (getName right))) of
        (None, None) \<Rightarrow> 0
      | (None, Some r) \<Rightarrow> 1
      | (Some l, None) \<Rightarrow> - 1
      | (Some l, Some r) \<Rightarrow> int l - int r)"

definition orderCategoriesByRecency ::
  "mode \<Rightarrow> local_storage \<Rightarrow> ('a \<Rightarrow> string) \<Rightarrow> 'a list \<Rightarrow> js_error + 'a list" where
  "orderCategoriesByRecency m s getName categories =
     (let recent = nullish (optional_prop (jprop (readMemory s) ''categories'') (mode_name m)) (JArr []) in
      case recent of
        JArr xs \<Rightarrow> Inr (if xs = [] \<or> categories = [] then categories
                     else js_sort (recency_cmp (rank_of xs) getName) categories)
      | JStr (c # cs) \<Rightarrow> if categories = [] then Inr categories else Inl TypeError
      | JObj props \<Rightarrow> if truthy (jprop recent ''length'') \<and> categories \<noteq> [] then Inl TypeError else Inr categories
      | _ \<Rightarrow> Inr categories)"

section \<open>The categories used last\<close>

text \<open>What the entry of transactions does with its memory, in a run: use an account, use a category.\<close>

datatype memory_use = Used_account string | Used_category mode string

fun memory_step :: "bool \<Rightarrow> local_storage \<Rightarrow> memory_use \<Rightarrow> local_storage" where
  "memory_step writable s (Used_account a) = rememberAccount writable a s"
| "memory_step writable s (Used_category m c) = (case rememberCategory writable m c s of Inr s' \<Rightarrow> s' | Inl _ \<Rightarrow> s)"

definition categories_used :: "mode \<Rightarrow> memory_use list \<Rightarrow> string list" where
  "categories_used m us = concat (map (\<lambda>u. case u of Used_category m' c \<Rightarrow> if m' = m \<and> c \<noteq> [] then [c] else [] | _ \<Rightarrow> []) us)"

text \<open>The five categories used last, the latest first.\<close>

definition last_used :: "mode \<Rightarrow> memory_use list \<Rightarrow> string list" where
  "last_used m us = take MAX_RECENT_CATEGORIES (rev (remdups (categories_used m us)))"

section \<open>Facts\<close>

lemma take_filter_take:
  "distinct xs \<Longrightarrow> take n (filter (\<lambda>y. y \<noteq> c) (take (Suc n) xs)) = take n (filter (\<lambda>y. y \<noteq> c) xs)"
proof (induction xs arbitrary: n)
  case (Cons x xs)
  show ?case
  proof (cases "x = c")
    case True
    with Cons.prems have "filter (\<lambda>y. y \<noteq> c) xs = xs" "filter (\<lambda>y. y \<noteq> c) (take n xs) = take n xs"
      by (auto simp: filter_id_conv dest: in_set_takeD)
    with True show ?thesis by simp
  next
    case False
    with Cons show ?thesis by (cases n) simp_all
  qed
qed simp

lemma remdups_snoc: "remdups (xs @ [c]) = filter (\<lambda>y. y \<noteq> c) (remdups xs) @ [c]"
  by (induction xs) auto

lemma last_used_snoc:
  assumes "c \<noteq> []"
  shows "last_used m (us @ [Used_category m c]) = take 5 (c # filter (\<lambda>y. y \<noteq> c) (last_used m us))"
proof -
  have "distinct (rev (remdups (categories_used m us)))" by simp
  from take_filter_take [OF this, of 4 c] assms show ?thesis
    by (simp add: last_used_def categories_used_def MAX_RECENT_CATEGORIES_def remdups_snoc rev_filter numeral_eq_Suc)
qed

lemma last_used_other:
  "last_used m (us @ [Used_account a]) = last_used m us"
  "last_used m (us @ [Used_category m' []]) = last_used m us"
  "m' \<noteq> m \<Longrightarrow> last_used m (us @ [Used_category m' c]) = last_used m us"
  by (simp_all add: last_used_def categories_used_def)

lemma plain_set: "json_plain (JObj m) \<Longrightarrow> json_plain v \<Longrightarrow> json_plain (JObj (om_set m k v))"
proof (induction m)
  case (Cons p m)
  then show ?case by (cases p) (auto simp: fst_set_om_set)
qed simp

lemma plain_prop: "json_plain (JObj m) \<Longrightarrow> om_get m k = Some v \<Longrightarrow> json_plain v"
  by (induction m) (auto split: if_splits)

lemma json_text_nonempty: "json_plain v \<Longrightarrow> json_text v \<noteq> []"
  using json_text_first [of v] by auto

lemma read_written:
  assumes "json_plain (JObj m)"
  shows "readMemory (writeMemory True (JObj m) s) = JObj m"
  using json_text_nonempty [OF assms] JSON_parse_text [OF assms]
  by (cases "json_text (JObj m)") (simp_all add: readMemory_def writeMemory_def om_get_set del: json_text.simps)

text \<open>What the memory holds after the uses \<open>us\<close>.\<close>

definition recent_of :: "json \<Rightarrow> mode \<Rightarrow> json" where
  "recent_of memory m = nullish (jprop (nullish (jprop memory ''categories'') (JObj [])) (mode_name m)) (JArr [])"

definition holds :: "memory_use list \<Rightarrow> local_storage \<Rightarrow> bool" where
  "holds us s = (\<exists>mem. readMemory s = JObj mem \<and> json_plain (JObj mem) \<and>
     (\<exists>cats. nullish (jprop (JObj mem) ''categories'') (JObj []) = JObj cats \<and> json_plain (JObj cats)) \<and>
     (\<forall>m. recent_of (JObj mem) m = JArr (map JStr (last_used m us))))"

lemma mode_name_inj [simp]: "mode_name m = mode_name m' \<longleftrightarrow> m = m'"
  by (cases m; cases m'; simp)

lemma jprop_set: "jprop (JObj (om_set m k v)) j = (if j = k then v else jprop (JObj m) j)"
  by (simp add: jprop_def om_get_set)

lemma holds_account:
  assumes "holds us s"
  shows "holds (us @ [Used_account a]) (rememberAccount True a s)"
proof (cases "a = []")
  case True
  with assms show ?thesis by (simp add: rememberAccount_def holds_def last_used_other)
next
  case False
  from assms obtain mem where m: "readMemory s = JObj mem" "json_plain (JObj mem)" unfolding holds_def by blast
  have p: "json_plain (JObj (om_set mem ''accountId'' (JStr a)))" by (rule plain_set [OF m(2)]) simp
  have c: "jprop (JObj (om_set mem ''accountId'' (JStr a))) ''categories'' = jprop (JObj mem) ''categories''"
    by (simp add: jprop_set)
  have r: "rememberAccount True a s = writeMemory True (JObj (om_set mem ''accountId'' (JStr a))) s"
    using False m by (simp add: rememberAccount_def spread_def)
  from assms m p show ?thesis
    by (simp add: holds_def r read_written recent_of_def c last_used_other)
qed

lemma holds_category:
  assumes h: "holds us s"
  shows "\<exists>s'. rememberCategory True m c s = Inr s' \<and> holds (us @ [Used_category m c]) s'"
proof (cases "c = []")
  case True
  with assms show ?thesis by (simp add: rememberCategory_def holds_def last_used_other)
next
  case False
  from h obtain mem cats where m: "readMemory s = JObj mem" "json_plain (JObj mem)"
    and k: "nullish (jprop (JObj mem) ''categories'') (JObj []) = JObj cats" "json_plain (JObj cats)"
    and r: "\<And>m. recent_of (JObj mem) m = JArr (map JStr (last_used m us))"
    unfolding holds_def by blast
  let ?next = "JArr (map JStr (last_used m (us @ [Used_category m c])))"
  let ?cats = "om_set cats (mode_name m) ?next"
  let ?mem = "om_set mem ''categories'' (JObj ?cats)"
  have "take 5 (JStr c # filter (\<lambda>e. e \<noteq> JStr c) (map JStr (last_used m us))) = map JStr (last_used m (us @ [Used_category m c]))"
    by (simp add: last_used_snoc [OF False] filter_map comp_def take_map [symmetric] take_Cons' del: take_map)
  then have e: "rememberCategory True m c s = Inr (writeMemory True (JObj ?mem) s)"
    using False r [of m] by (simp add: rememberCategory_def Let_def m k MAX_RECENT_CATEGORIES_def spread_def recent_of_def)
  have p: "json_plain (JObj ?cats)" by (rule plain_set [OF k(2)]) (simp add: list_all_iff)
  have p2: "json_plain (JObj ?mem)" by (rule plain_set [OF m(2) p])
  have c2: "nullish (jprop (JObj ?mem) ''categories'') (JObj []) = JObj ?cats" by (simp add: jprop_set)
  have "recent_of (JObj ?mem) m' = JArr (map JStr (last_used m' (us @ [Used_category m c])))" for m'
    using r [of m'] by (cases "m' = m") (simp_all add: recent_of_def c2 jprop_set k last_used_other)
  with e p p2 c2 show ?thesis by (simp add: holds_def read_written)
qed

lemma holds_start: "holds [] []"
  by (simp add: holds_def readMemory_def recent_of_def last_used_def categories_used_def)

lemma holds_run: "holds us (foldl (memory_step True) [] us)"
proof (induction us rule: rev_induct)
  case (snoc u us)
  show ?case
  proof (cases u)
    case (Used_account a)
    with holds_account [OF snoc] show ?thesis by simp
  next
    case (Used_category m c)
    with holds_category [OF snoc, of m c] show ?thesis by auto
  qed
qed (simp add: holds_start)

text \<open>The memory is a list of the categories used last: after any sequence of remembered accounts and
  categories on an empty storage, what is kept for a kind of transaction, through all the JSON texts written
  and parsed in between, are the five different categories used last for that kind, the latest first.\<close>

theorem memory_keeps_last_used:
  "recent_of (readMemory (foldl (memory_step True) [] us)) m = JArr (map JStr (last_used m us)) \<and>
   rememberedCategory m (foldl (memory_step True) [] us) =
     (case last_used m us of [] \<Rightarrow> JUndefined | c # _ \<Rightarrow> JStr c)"
proof -
  let ?s = "foldl (memory_step True) [] us"
  have r: "recent_of (readMemory ?s) m = JArr (map JStr (last_used m us))" using holds_run [of us] unfolding holds_def by auto
  moreover have "rememberedCategory m ?s = first_item (recent_of (readMemory ?s) m)"
    by (cases "is_nullish (jprop (readMemory ?s) ''categories'')";
        cases "is_nullish (jprop (jprop (readMemory ?s) ''categories'') (mode_name m))")
      (simp_all add: rememberedCategory_def optional_prop_def recent_of_def nullish_def first_item_def is_nullish_def split: json.splits)
  ultimately show ?thesis by (simp add: first_item_def split: list.splits)
qed

section \<open>The order of the choices\<close>

lemma buckets:
  assumes "sorted_wrt (\<lambda>a b. k a \<le> k b) ys" "\<forall>y \<in> set ys. k y < (n :: nat)"
  shows "ys = concat (map (\<lambda>i. filter (\<lambda>y. k y = i) ys) [0..<n])"
  using assms
proof (induction n arbitrary: ys)
  case (Suc n)
  let ?a = "filter (\<lambda>y. k y < n) ys"
  have split: "zs = filter (\<lambda>y. k y < n) zs @ filter (\<lambda>y. k y = n) zs"
    if "sorted_wrt (\<lambda>a b. k a \<le> k b) zs" "\<forall>y \<in> set zs. k y < Suc n" for zs
    using that
  proof (induction zs)
    case (Cons z zs)
    show ?case
    proof (cases "k z < n")
      case False
      with Cons.prems have "\<forall>y \<in> set zs. \<not> k y < n" by auto
      then have "filter (\<lambda>y. k y < n) zs = []" by (simp add: filter_empty_conv)
      with Cons False show ?thesis by (auto simp: less_Suc_eq)
    qed (use Cons in simp)
  qed simp
  have "?a = concat (map (\<lambda>i. filter (\<lambda>y. k y = i) ?a) [0..<n])"
    using Suc.prems(1) by (intro Suc.IH) (simp_all add: sorted_wrt_filter)
  also have "map (\<lambda>i. filter (\<lambda>y. k y = i) ?a) [0..<n] = map (\<lambda>i. filter (\<lambda>y. k y = i) ys) [0..<n]"
    by (auto intro!: filter_cong)
  finally show ?case using split [OF Suc.prems] by simp
qed simp

lemma sort_buckets:
  assumes c: "comparator cmp" and k: "\<And>a b. cmp a b \<le> 0 \<longleftrightarrow> k a \<le> (k b :: nat)" and n: "\<forall>x \<in> set xs. k x < n"
  shows "js_sort cmp xs = concat (map (\<lambda>i. filter (\<lambda>x. k x = i) xs) [0..<n])"
proof -
  have s: "sorted_wrt (\<lambda>a b. k a \<le> k b) (js_sort cmp xs)"
    using comparator.sorted_js_sort [OF c, of xs] by (simp add: k)
  have "filter (\<lambda>x. k x = i) (js_sort cmp xs) = filter (\<lambda>x. k x = i) xs" for i
    by (rule comparator.js_sort_stable [OF c]) (simp add: k)
  with buckets [OF s, of n] n show ?thesis by simp
qed

definition position :: "string list \<Rightarrow> string \<Rightarrow> nat" where
  "position rs x = (case map_of (zip rs [0..<length rs]) x of Some i \<Rightarrow> i | None \<Rightarrow> length rs)"

lemma position_nth: "distinct rs \<Longrightarrow> i < length rs \<Longrightarrow> position rs (rs ! i) = i"
  using map_of_zip_nth [of rs "[0..<length rs]" i] by (simp add: position_def)

lemma position_none: "x \<notin> set rs \<Longrightarrow> position rs x = length rs"
  by (simp add: position_def split: option.splits) (metis in_set_zipE map_of_SomeD)

lemma position_iff:
  assumes "distinct rs"
  shows "i < length rs \<Longrightarrow> position rs x = i \<longleftrightarrow> x = rs ! i" "position rs x = length rs \<longleftrightarrow> x \<notin> set rs" "position rs x \<le> length rs"
proof -
  have r: "(\<exists>j < length rs. x = rs ! j \<and> position rs x = j) \<or> (x \<notin> set rs \<and> position rs x = length rs)"
    using position_nth [OF assms] position_none [of x rs] by (metis in_set_conv_nth)
  then show "position rs x = length rs \<longleftrightarrow> x \<notin> set rs" by (metis nth_mem less_irrefl)
  from r show "position rs x \<le> length rs" by auto
  from r show "position rs x = i \<longleftrightarrow> x = rs ! i" if "i < length rs"
    using that position_nth [OF assms that] nth_mem [OF that] by auto
qed

lemma rank_snoc: "rank_of (xs @ [x]) = om_set (rank_of xs) x (length xs)"
  by (simp add: rank_of_def)

lemma rank_nth: "distinct rs \<Longrightarrow> i < length rs \<Longrightarrow> om_get (rank_of (map JStr rs)) (JStr (rs ! i)) = Some i"
proof (induction rs rule: rev_induct)
  case (snoc r rs)
  show ?case
  proof (cases "i = length rs")
    case False
    with snoc.prems have "i < length rs" "rs ! i \<noteq> r" by (auto simp: in_set_conv_nth)
    with snoc show ?thesis by (simp add: rank_snoc om_get_set nth_append)
  qed (simp add: rank_snoc om_get_set)
qed simp

lemma rank_none: "x \<notin> set rs \<Longrightarrow> om_get (rank_of (map JStr rs)) (JStr x) = None"
proof (induction rs rule: rev_induct)
  case Nil
  then show ?case by (simp add: rank_of_def)
qed (simp add: rank_snoc om_get_set)

lemma rank_position:
  assumes "distinct rs"
  shows "om_get (rank_of (map JStr rs)) (JStr x) = (if x \<in> set rs then Some (position rs x) else None)"
  using rank_nth [OF assms] rank_none [of x rs] position_nth [OF assms] by (auto simp: in_set_conv_nth)

text \<open>Categories used lately come first: where the memory holds the list \<open>recent\<close> of different categories,
  the choices are those of the first recent category, then those of the second and so on, then all others,
  each group in its original order; nothing is lost or doubled.\<close>

theorem recent_categories_first:
  assumes "recent_of (readMemory s) m = JArr (map JStr recent)" "distinct recent"
  shows "orderCategoriesByRecency m s getName categories =
    Inr (concat (map (\<lambda>r. filter (\<lambda>c. getName c = r) categories) recent) @ filter (\<lambda>c. getName c \<notin> set recent) categories)"
proof -
  have o: "nullish (optional_prop (jprop (readMemory s) ''categories'') (mode_name m)) (JArr []) = JArr (map JStr recent)"
  proof -
    have u: "is_nullish JUndefined" by (simp add: is_nullish_def)
    show ?thesis
      using assms(1) by (cases "is_nullish (jprop (readMemory s) ''categories'')") (simp_all add: recent_of_def optional_prop_def nullish_def u)
  qed
  show ?thesis
  proof (cases "recent = [] \<or> categories = []")
    case True
    then show ?thesis by (auto simp: orderCategoriesByRecency_def o)
  next
    case False
    let ?c = "recency_cmp (rank_of (map JStr recent)) getName" and ?k = "\<lambda>c. position recent (getName c)"
    have k: "?c a b \<le> 0 \<longleftrightarrow> ?k a \<le> ?k b" for a b
      using position_iff(2,3) [OF assms(2), of "getName a"] position_iff(2,3) [OF assms(2), of "getName b"]
      by (cases "getName a \<in> set recent"; cases "getName b \<in> set recent")
        (simp_all add: recency_cmp_def rank_position [OF assms(2)] not_le le_neq_implies_less)
    have c: "comparator ?c" by unfold_locales (auto simp: k)
    have "\<forall>x \<in> set categories. ?k x < Suc (length recent)" using position_iff(3) [OF assms(2)] by (simp add: le_imp_less_Suc)
    from sort_buckets [OF c k this] have
      "js_sort ?c categories = concat (map (\<lambda>i. filter (\<lambda>x. ?k x = i) categories) [0..<length recent]) @ filter (\<lambda>x. ?k x = length recent) categories"
      by simp
    also have "map (\<lambda>i. filter (\<lambda>x. ?k x = i) categories) [0..<length recent] = map (\<lambda>i. filter (\<lambda>c. getName c = recent ! i) categories) [0..<length recent]"
      using position_iff(1) [OF assms(2)] by (auto intro!: filter_cong)
    also have "\<dots> = map (\<lambda>r. filter (\<lambda>c. getName c = r) categories) recent"
      by (rule nth_equalityI) simp_all
    finally show ?thesis using False position_iff(2) [OF assms(2)] by (simp add: orderCategoriesByRecency_def o)
  qed
qed

theorem recent_categories_first_witness:
  "orderCategoriesByRecency Mode_expense
     (foldl (memory_step True) [] [Used_category Mode_expense ''Food'', Used_category Mode_expense ''Rent''])
     id [''Travel'', ''Food'', ''Rent''] = Inr [''Rent'', ''Food'', ''Travel'']"
proof -
  let ?us = "[Used_category Mode_expense ''Food'', Used_category Mode_expense ''Rent'']"
  have "recent_of (readMemory (foldl (memory_step True) [] ?us)) Mode_expense = JArr (map JStr (last_used Mode_expense ?us))"
    using holds_run [of ?us] unfolding holds_def by metis
  moreover have "last_used Mode_expense ?us = [''Rent'', ''Food'']"
    by (simp add: last_used_def categories_used_def MAX_RECENT_CATEGORIES_def)
  ultimately have "recent_of (readMemory (foldl (memory_step True) [] ?us)) Mode_expense = JArr (map JStr [''Rent'', ''Food''])"
    by simp
  from recent_categories_first [OF this, of id "[''Travel'', ''Food'', ''Rent'']"] show ?thesis by simp
qed

end
