(* ===== verification/TransactionDialog.thy ===== *)
theory TransactionDialog
  imports TransactionMemory Splits WriteFlow DateOnly DomainTypes
begin

text \<open>
  Adding a transaction (TransactionDialog of pages/finance/home-transactions.tsx): the values of the form
  and what changes them, the checks of a submission in the order of the code, the request body or the
  entry of the demonstration, and the dialog's life from opening to the reply. Events are the calls of
  the user interface, the commits of React with the effects they run, replies and timers.
\<close>

section \<open>The form\<close>

record td_values =
  v_merchant :: string
  v_amount :: string
  v_category :: string
  v_accountId :: string
  v_occurredAt :: string
  v_note :: string
  v_description :: string
  v_contactId :: string
  v_transactionId :: string

datatype member_state = Member_active | Member_pending | Member_expired | Member_removed

record member =
  mb_name :: string
  mb_email :: string
  mb_state :: member_state

datatype 'a query = Loading | Failed | Loaded 'a

text \<open>What a render reads: \<open>te_lower\<close> is the locale's lower case, \<open>te_money\<close> the format of money,
  \<open>te_localeCompare\<close> the locale's comparison, \<open>te_roll\<close> the engine's freedom of theory MoneyInput.\<close>

record td_env =
  te_demoMode :: bool
  te_preferredCurrency :: string
  te_accounts :: "account list"
  te_members :: "member list query"
  te_categories :: "transaction_category list query"
  te_sequences :: "sequence_setting list"
  te_storage :: local_storage
  te_today :: string
  te_roll :: bool
  te_lower :: "string \<Rightarrow> string"
  te_money :: "rat \<Rightarrow> string \<Rightarrow> string"
  te_localeCompare :: "string \<Rightarrow> string \<Rightarrow> int"

definition availableAccounts :: "td_env \<Rightarrow> account list" where
  "availableAccounts env = filter (\<lambda>a. acc_status a \<noteq> Inactive) (te_accounts env)"

definition find_account :: "td_env \<Rightarrow> string \<Rightarrow> account option" where
  "find_account env i = List.find (\<lambda>a. acc_id a = i) (availableAccounts env)"

definition account_currency :: "account \<Rightarrow> string" where
  "account_currency a = currency (acc_balance a)"

definition first_or_empty :: "string list \<Rightarrow> string" where
  "first_or_empty xs = (case xs of [] \<Rightarrow> [] | x # _ \<Rightarrow> x)"

definition initialAccountId :: "td_env \<Rightarrow> string" where
  "initialAccountId env =
     (case List.find (\<lambda>a. js_upper (account_currency a) = te_preferredCurrency env) (availableAccounts env) of
        Some a \<Rightarrow> acc_id a
      | None \<Rightarrow> first_or_empty (map acc_id (availableAccounts env)))"

text \<open>The remembered category is a text unless the storage was tampered with.\<close>

definition remembered_text :: "json \<Rightarrow> string" where
  "remembered_text v = (case v of JStr s \<Rightarrow> s | _ \<Rightarrow> [])"

definition initial_values :: "td_env \<Rightarrow> mode \<Rightarrow> td_values" where
  "initial_values env initialMode =
     (let rememberedAccount = (case List.find (\<lambda>a. JStr (acc_id a) = rememberedAccountId (te_storage env) \<and> acc_status a \<noteq> Inactive)
            (availableAccounts env) of Some a \<Rightarrow> acc_id a | None \<Rightarrow> initialAccountId env);
          rememberedModeCategory = (if te_demoMode env then [] else remembered_text (rememberedCategory initialMode (te_storage env)))
      in \<lparr>v_merchant = [], v_amount = [],
          v_category = (if te_demoMode env then first_or_empty (categoriesForTransactionMode initialMode) else rememberedModeCategory),
          v_accountId = rememberedAccount, v_occurredAt = te_today env, v_note = [], v_description = [],
          v_contactId = [], v_transactionId = []\<rparr>)"

text \<open>The names to choose from; a memory that is no list makes the render throw and leaves no choice here.\<close>

definition categoryNames :: "td_env \<Rightarrow> mode \<Rightarrow> string list" where
  "categoryNames env m =
     (case orderCategoriesByRecency m (te_storage env) id
        (if te_demoMode env then categoriesForTransactionMode m
         else selectableTransactionCategoryNames (te_localeCompare env) (case te_categories env of Loaded cs \<Rightarrow> cs | _ \<Rightarrow> [])) of
        Inr names \<Rightarrow> names | Inl _ \<Rightarrow> [])"

definition modeSequence :: "td_env \<Rightarrow> mode \<Rightarrow> sequence_setting option" where
  "modeSequence env m = List.find (\<lambda>s. sq_transactionType s = m) (te_sequences env)"

definition autoGenerationEnabled :: "td_env \<Rightarrow> mode \<Rightarrow> bool" where
  "autoGenerationEnabled env m = (te_demoMode env \<or> (case modeSequence env m of Some s \<Rightarrow> sq_autoGenerate s | None \<Rightarrow> True))"

text \<open>Active members with an email, the first of each email.\<close>

fun active_members :: "(string \<Rightarrow> string) \<Rightarrow> string list \<Rightarrow> member list \<Rightarrow> member list" where
  "active_members lower seen [] = []"
| "active_members lower seen (m # ms) =
     (let email = lower (js_trim (mb_email m))
      in if mb_state m \<noteq> Member_active \<or> email = [] \<or> email \<in> set seen then active_members lower seen ms
         else m # active_members lower (email # seen) ms)"

definition activeSplitMembers :: "td_env \<Rightarrow> member list" where
  "activeSplitMembers env = active_members (te_lower env) [] (case te_members env of Loaded ms \<Rightarrow> ms | _ \<Rightarrow> [])"

section \<open>Checking a submission\<close>

definition digit_id :: "string \<Rightarrow> bool" where
  "digit_id s = (all_digits s \<and> 1 \<le> length s \<and> length s \<le> 18)"

text \<open>The issues of \<open>transactionSchema\<close>, by field in the order of the schema, and the parsed amount.\<close>

definition transactionSchema :: "bool \<Rightarrow> td_values \<Rightarrow> (string \<times> string) list + jsnum" where
  "transactionSchema roll v =
     (let issues =
        (if length (js_trim (v_merchant v)) < 2 then [(''merchant'', ''Enter a name or description'')] else [])
        @ (case moneyInputSchema False False (v_amount v) of Inl ms \<Rightarrow> map (Pair ''amount'') ms | Inr _ \<Rightarrow> [])
        @ (if length (v_category v) < 1 then [(''category'', ''Choose a category'')] else [])
        @ (if length (v_accountId v) < 1 then [(''accountId'', ''Choose an account'')] else [])
        @ (case dateInputSchema roll (v_occurredAt v) of Inl ms \<Rightarrow> map (Pair ''occurredAt'') ms | Inr _ \<Rightarrow> [])
        @ (if length (v_note v) > 240 then [(''note'', ''Keep the note under 240 characters'')] else [])
        @ (if length (v_description v) > 2000 then [(''description'', ''Keep the description under 2000 characters'')] else [])
        @ (if length (js_trim (v_transactionId v)) > 18 then [(''transactionId'', ''Keep the transaction ID under 19 digits'')] else [])
      in if issues = [] then (case moneyInputSchema False False (v_amount v) of Inr x \<Rightarrow> Inr x | Inl _ \<Rightarrow> Inr NaN) else Inl issues)"

definition from_entries :: "(string \<times> string) list \<Rightarrow> (string, string) omap" where
  "from_entries es = foldl (\<lambda>m (k, v). om_set m k v) [] es"

text \<open>What a refused submission shows: errors of fields, or errors of the shares.\<close>

datatype refusal =
    Field_errors "(string, string) omap"
  | Share_errors "(string, string) omap" string

definition share_of_member :: "(string, string) omap \<Rightarrow> member \<Rightarrow> split_draft" where
  "share_of_member shares m = \<lparr>draft_memberEmail = mb_email m,
     draft_amountMajor = (case om_get shares (mb_email m) of Some a \<Rightarrow> a | None \<Rightarrow> [])\<rparr>"

definition minor_of :: "jsnum \<Rightarrow> int" where
  "minor_of amount = (case amount of Fin r \<Rightarrow> toMinor r | _ \<Rightarrow> 0)"

definition check_shares ::
  "td_env \<Rightarrow> mode \<Rightarrow> (string, string) omap \<Rightarrow> jsnum \<Rightarrow> account \<Rightarrow> refusal + split_input list" where
  "check_shares env m shares amount source =
     (if te_demoMode env \<or> m \<noteq> Mode_split then Inr []
      else case te_members env of
          Failed \<Rightarrow> Inl (Share_errors [] ''Workspace members could not be loaded. Try again.'')
        | Loading \<Rightarrow> Inl (Share_errors [] ''Workspace members are still loading.'')
        | Loaded _ \<Rightarrow>
            (if activeSplitMembers env = []
             then Inl (Share_errors [] ''At least one active workspace member is required for a split.'')
             else case validateTransactionSplits (map (share_of_member shares) (activeSplitMembers env)) (of_int (minor_of amount)) of
                 Split_ok splits allocated \<Rightarrow> Inr splits
               | Split_failed reason splits allocated errors \<Rightarrow> Inl (Share_errors errors (case reason of
                     Reason_empty \<Rightarrow> ''Enter a positive share for at least one active member.''
                   | Reason_invalid \<Rightarrow> ''Fix the highlighted member shares.''
                   | Reason_total \<Rightarrow> ''Shares total '' @ te_money env allocated (account_currency source)
                       @ ''; they must equal '' @ te_money env (of_int (minor_of amount)) (account_currency source) @ ''.''))))"

definition check_transfer :: "td_env \<Rightarrow> mode \<Rightarrow> td_values \<Rightarrow> account \<Rightarrow> refusal + unit" where
  "check_transfer env m v source =
     (if m \<noteq> Mode_transfer then Inr ()
      else case find_account env (v_merchant v) of
          None \<Rightarrow> Inl (Field_errors [(''merchant'', ''Choose a valid destination account.'')])
        | Some destination \<Rightarrow>
            if acc_id destination = acc_id source
            then Inl (Field_errors [(''merchant'', ''Choose a different destination account.''),
                                    (''accountId'', ''Choose two different accounts for a transfer.'')])
            else if account_currency destination \<noteq> account_currency source
            then Inl (Field_errors [(''merchant'', ''Choose a '' @ account_currency source
                       @ '' account. Cross-currency transfers are not supported.'')])
            else Inr ())"

definition checkSubmission ::
  "td_env \<Rightarrow> mode \<Rightarrow> td_values \<Rightarrow> (string, string) omap \<Rightarrow> refusal + (account \<times> jsnum \<times> split_input list)" where
  "checkSubmission env m v shares =
     (let i = js_trim (v_transactionId v)
      in if \<not> autoGenerationEnabled env m \<and> i = []
         then Inl (Field_errors [(''transactionId'', ''Enter a custom transaction ID or enable automatic IDs in Settings.'')])
         else if i \<noteq> [] \<and> \<not> digit_id i
         then Inl (Field_errors [(''transactionId'', ''Enter a transaction ID containing 1 to 18 digits.'')])
         else case transactionSchema (te_roll env) v of
             Inl issues \<Rightarrow> Inl (Field_errors (from_entries issues))
           | Inr amount \<Rightarrow>
               (case find_account env (v_accountId v) of
                  None \<Rightarrow> Inl (Field_errors [(''accountId'', ''Choose a valid source account.'')])
                | Some source \<Rightarrow>
                    bind_result (check_shares env m shares amount source) (\<lambda>splits.
                    bind_result (check_transfer env m v source) (\<lambda>_. Inr (source, amount, splits)))))"

section \<open>What is sent\<close>

definition or_undefined :: "string \<Rightarrow> string option" where
  "or_undefined s = (if s = [] then None else Some s)"

definition selectedTransactionDateToUtc :: "string \<Rightarrow> js_error + string" where
  "selectedTransactionDateToUtc value = (if \<not> isDateOnly (Some value) then Inl TypeError else toUtcDateOnly value)"

record transaction_body =
  b_merchant :: "string option"
  b_destinationAccountId :: "string option"
  b_amountMinor :: int
  b_currency :: string
  b_category :: string
  b_accountId :: string
  b_notes :: "string option"
  b_description :: "string option"
  b_contactId :: "string option"
  b_autoGenerate :: bool
  b_transactionId :: "string option"
  b_type :: mode
  b_splits :: "split_input list option"
  b_occurredAt :: string

definition requestBody :: "td_env \<Rightarrow> mode \<Rightarrow> td_values \<Rightarrow> split_input list \<Rightarrow> js_error + transaction_body" where
  "requestBody env m v splits = bind_result (selectedTransactionDateToUtc (v_occurredAt v)) (\<lambda>occurredAt.
     Inr \<lparr>b_merchant = (if m = Mode_transfer then None else Some (js_trim (v_merchant v))),
       b_destinationAccountId = (if m = Mode_transfer then Some (js_trim (v_merchant v)) else None),
       b_amountMinor = minor_of (number_value (v_amount v)),
       b_currency = (case find_account env (v_accountId v) of Some a \<Rightarrow> account_currency a | None \<Rightarrow> []),
       b_category = v_category v, b_accountId = v_accountId v,
       b_notes = or_undefined (js_trim (v_note v)), b_description = or_undefined (js_trim (v_description v)),
       b_contactId = or_undefined (v_contactId v),
       b_autoGenerate = (autoGenerationEnabled env m \<and> js_trim (v_transactionId v) = []),
       b_transactionId = or_undefined (js_trim (v_transactionId v)),
       b_type = m, b_splits = (if m = Mode_split then Some splits else None), b_occurredAt = occurredAt\<rparr>)"

text \<open>The entry of the demonstration; \<open>now\<close> is the time its identifier is made of.\<close>

record demo_entry =
  de_id :: string
  de_transactionId :: string
  de_scope :: mode
  de_merchant :: string
  de_category :: string
  de_occurredAt :: string
  de_amountMinor :: int
  de_currency :: string
  de_direction :: direction
  de_status :: entry_status
  de_accountId :: string
  de_note :: string
  de_description :: "string option"

definition demoEntry :: "td_env \<Rightarrow> mode \<Rightarrow> td_values \<Rightarrow> account \<Rightarrow> jsnum \<Rightarrow> nat \<Rightarrow> js_error + demo_entry" where
  "demoEntry env m v source amount now = bind_result (selectedTransactionDateToUtc (v_occurredAt v)) (\<lambda>occurredAt.
     Inr \<lparr>de_id = ''demo-'' @ nat_digits now,
       de_transactionId = (if js_trim (v_transactionId v) = []
         then (case modeSequence env m of Some s \<Rightarrow> sq_preview s | None \<Rightarrow> transactionSequencePreview (Fin 1) (Fin 4))
         else js_trim (v_transactionId v)),
       de_scope = m,
       de_merchant = (if m = Mode_transfer
         then ''Transfer to '' @ (case find_account env (v_merchant v) of Some a \<Rightarrow> acc_name a | None \<Rightarrow> ''account'')
         else js_trim (v_merchant v)),
       de_category = v_category v, de_occurredAt = occurredAt, de_amountMinor = minor_of amount,
       de_currency = account_currency source, de_direction = (if m = Mode_income then Credit else Debit),
       de_status = Cleared, de_accountId = v_accountId v,
       de_note = (if js_trim (v_note v) = [] then ''Saved only in this demo session'' else js_trim (v_note v)),
       de_description = or_undefined (js_trim (v_description v))\<rparr>)"

section \<open>The dialog\<close>

datatype td_action =
    Posted transaction_body string
  | Demo_added demo_entry
  | Remembered_account string
  | Remembered_category mode string
  | Invalidated_query query_key
  | Dialog_onClose

text \<open>\<open>td_inFlight\<close>: the requests without a reply with their variables; \<open>td_latest\<close>: the one the mutation
  observes; \<open>td_seenPending\<close>: its \<open>isPending\<close> of the last commit, which the handlers of that render read.\<close>

record td =
  td_mode :: mode
  td_values :: td_values
  td_errors :: "(string, string) omap"
  td_feedback :: "finance_feedback option"
  td_splitShares :: "(string, string) omap"
  td_splitShareErrors :: "(string, string) omap"
  td_splitShareError :: string
  td_submitLocked :: bool
  td_lockRef :: bool
  td_showDescription :: bool
  td_timerRef :: "nat option"
  td_timers :: "nat list"
  td_mounted :: bool
  td_open :: bool
  td_inFlight :: "(nat \<times> td_values \<times> mode) list"
  td_latest :: nat
  td_seenPending :: bool
  td_fresh :: nat
  td_log :: "td_action list"

definition td_isPending :: "td \<Rightarrow> bool" where
  "td_isPending d = (td_latest d \<in> fst ` set (td_inFlight d))"

definition td_act :: "td_action list \<Rightarrow> td \<Rightarrow> td" where
  "td_act as d = d\<lparr>td_log := td_log d @ as\<rparr>"

definition clear_td_timer :: "td \<Rightarrow> td" where
  "clear_td_timer d = (case td_timerRef d of None \<Rightarrow> d
     | Some t \<Rightarrow> d\<lparr>td_timers := filter (\<lambda>x. x \<noteq> t) (td_timers d)\<rparr>)"

definition start_td_timer :: "td \<Rightarrow> td" where
  "start_td_timer d = d\<lparr>td_timerRef := Some (td_fresh d), td_timers := td_fresh d # td_timers d, td_fresh := Suc (td_fresh d)\<rparr>"

text \<open>The effect of opening, of another initial mode and of other accounts.\<close>

definition open_effect :: "td_env \<Rightarrow> mode \<Rightarrow> bool \<Rightarrow> td \<Rightarrow> td" where
  "open_effect env initialMode opened d =
     (let d1 = d\<lparr>td_mode := initialMode\<rparr>
      in if opened then
           d1\<lparr>td_values := initial_values env initialMode, td_errors := [], td_feedback := None, td_splitShares := [],
              td_splitShareErrors := [], td_splitShareError := [], td_lockRef := False, td_submitLocked := False\<rparr>
         else case td_timerRef d1 of None \<Rightarrow> d1
           | Some _ \<Rightarrow> (clear_td_timer d1)\<lparr>td_timerRef := None\<rparr>)"

definition account_effect :: "td_env \<Rightarrow> td \<Rightarrow> td" where
  "account_effect env d =
     (if v_accountId (td_values d) = [] \<or> find_account env (v_accountId (td_values d)) = None
      then (case availableAccounts env of [] \<Rightarrow> d
        | a # _ \<Rightarrow> d\<lparr>td_values := (td_values d)\<lparr>v_accountId := acc_id a\<rparr>\<rparr>)
      else d)"

definition category_effect :: "td_env \<Rightarrow> td \<Rightarrow> td" where
  "category_effect env d =
     (let names = categoryNames env (td_mode d) in
      if \<not> td_open d \<or> te_categories env = Loading \<or> v_category (td_values d) \<in> set names then d
      else d\<lparr>td_values := (td_values d)\<lparr>v_category := first_or_empty names\<rparr>\<rparr>)"

text \<open>A commit: \<open>changed\<close> says whether a dependency of the opening effect other than \<open>open\<close> changed.\<close>

definition td_commit :: "td_env \<Rightarrow> mode \<Rightarrow> bool \<Rightarrow> bool \<Rightarrow> td \<Rightarrow> td" where
  "td_commit env initialMode opened changed d =
     (let d1 = d\<lparr>td_seenPending := td_isPending d, td_open := opened\<rparr>;
          d2 = (if opened \<noteq> td_open d \<or> changed then open_effect env initialMode opened d1 else d1)
      in category_effect env (account_effect env d2))"

definition changeMode :: "td_env \<Rightarrow> mode \<Rightarrow> td \<Rightarrow> td" where
  "changeMode env nextMode d =
     d\<lparr>td_mode := nextMode,
       td_values := (td_values d)\<lparr>
         v_category := (if te_demoMode env then first_or_empty (categoriesForTransactionMode nextMode) else []),
         v_transactionId := []\<rparr>,
       td_errors := [], td_feedback := None, td_splitShares := [], td_splitShareErrors := [], td_splitShareError := []\<rparr>"

definition updateSplitShare :: "string \<Rightarrow> string \<Rightarrow> td \<Rightarrow> td" where
  "updateSplitShare memberEmail amountMajor d =
     d\<lparr>td_splitShares := om_set (td_splitShares d) memberEmail amountMajor,
       td_splitShareErrors := (case om_get (td_splitShareErrors d) memberEmail of
           Some (c # cs) \<Rightarrow> om_delete (td_splitShareErrors d) memberEmail
         | _ \<Rightarrow> td_splitShareErrors d),
       td_splitShareError := []\<rparr>"

text \<open>The fields. A name typed over a chosen contact gives the contact up.\<close>

datatype td_input =
    Input_transactionId string
  | Blur_transactionId
  | Input_merchant "contact_summary list" string
  | Choose_contact contact_summary
  | Choose_savedName string
  | Choose_destination string
  | Input_amount string
  | Choose_currency string
  | Input_date string
  | Choose_account string
  | Choose_category string
  | Input_note string
  | Input_description string
  | Show_description

definition edit :: "string list \<Rightarrow> (td_values \<Rightarrow> td_values) \<Rightarrow> td \<Rightarrow> td" where
  "edit fs f d = d\<lparr>td_errors := foldl clearFieldError (td_errors d) fs, td_values := f (td_values d)\<rparr>"

fun td_input_step :: "td_env \<Rightarrow> td_input \<Rightarrow> td \<Rightarrow> td" where
  "td_input_step env (Input_transactionId s) d =
     edit [''transactionId''] (\<lambda>v. v\<lparr>v_transactionId := take 18 (filter is_digit s)\<rparr>) d"
| "td_input_step env Blur_transactionId d =
     (if js_trim (v_transactionId (td_values d)) \<noteq> [] then d
      else d\<lparr>td_values := (td_values d)\<lparr>v_transactionId := []\<rparr>\<rparr>)"
| "td_input_step env (Input_merchant contacts s) d = edit [''merchant'']
     (\<lambda>v. v\<lparr>v_merchant := s, v_contactId :=
        (case List.find (\<lambda>c. ct_id c = v_contactId v) contacts of
           Some c \<Rightarrow> if ct_name c = s then v_contactId v else []
         | None \<Rightarrow> [])\<rparr>) d"
| "td_input_step env (Choose_contact c) d =
     edit [''merchant''] (\<lambda>v. v\<lparr>v_merchant := ct_name c, v_contactId := ct_id c\<rparr>) d"
| "td_input_step env (Choose_savedName s) d = edit [''merchant''] (\<lambda>v. v\<lparr>v_merchant := s, v_contactId := []\<rparr>) d"
| "td_input_step env (Choose_destination s) d = edit [''merchant''] (\<lambda>v. v\<lparr>v_merchant := s\<rparr>) d"
| "td_input_step env (Input_amount s) d = (edit [''amount''] (\<lambda>v. v\<lparr>v_amount := s\<rparr>) d)\<lparr>td_splitShareError := []\<rparr>"
| "td_input_step env (Choose_currency c) d =
     (edit [''amount''] (\<lambda>v. case List.find (\<lambda>a. account_currency a = c) (availableAccounts env) of
        Some a \<Rightarrow> v\<lparr>v_accountId := acc_id a\<rparr> | None \<Rightarrow> v) d)\<lparr>td_splitShareError := []\<rparr>"
| "td_input_step env (Input_date s) d =
     (if \<not> isDateOnly (Some s) then d else edit [''occurredAt''] (\<lambda>v. v\<lparr>v_occurredAt := s\<rparr>) d)"
| "td_input_step env (Choose_account s) d = edit [''accountId'', ''merchant''] (\<lambda>v. v\<lparr>v_accountId := s\<rparr>) d"
| "td_input_step env (Choose_category s) d = edit [''category''] (\<lambda>v. v\<lparr>v_category := s\<rparr>) d"
| "td_input_step env (Input_note s) d = edit [''note''] (\<lambda>v. v\<lparr>v_note := s\<rparr>) d"
| "td_input_step env (Input_description s) d = edit [''description''] (\<lambda>v. v\<lparr>v_description := s\<rparr>) d"
| "td_input_step env Show_description d = d\<lparr>td_showDescription := True\<rparr>"

section \<open>Submitting and the reply\<close>

definition refuse :: "refusal \<Rightarrow> td \<Rightarrow> td" where
  "refuse r d = (case r of Field_errors es \<Rightarrow> d\<lparr>td_errors := es\<rparr>
     | Share_errors es message \<Rightarrow> d\<lparr>td_splitShareErrors := es, td_splitShareError := message\<rparr>)"

text \<open>\<open>key\<close> is the random idempotency key and \<open>now\<close> the time. A body that cannot be built rejects the
  mutation, which then gets its error like a failed request; in the demonstration the handler throws.\<close>

definition submitTransaction :: "td_env \<Rightarrow> string \<Rightarrow> nat \<Rightarrow> td \<Rightarrow> td" where
  "submitTransaction env key now d =
     (if td_lockRef d \<or> td_seenPending d then d
      else (let d1 = d\<lparr>td_errors := [], td_feedback := None, td_splitShareErrors := [], td_splitShareError := []\<rparr>;
                v = td_values d; m = td_mode d
            in case checkSubmission env m v (td_splitShares d) of
                 Inl r \<Rightarrow> refuse r d1
               | Inr (source, amount, splits) \<Rightarrow>
                   (let d2 = d1\<lparr>td_lockRef := True, td_submitLocked := True\<rparr>
                    in if te_demoMode env
                       then (case demoEntry env m v source amount now of
                           Inl _ \<Rightarrow> d2
                         | Inr entry \<Rightarrow> start_td_timer (td_act [Demo_added entry]
                             (d2\<lparr>td_feedback := Some (Tone_success, ''Added to this demo session only.'')\<rparr>)))
                       else (let d3 = d2\<lparr>td_inFlight := (td_fresh d2, v, m) # td_inFlight d2, td_latest := td_fresh d2,
                                        td_fresh := Suc (td_fresh d2)\<rparr>
                             in case requestBody env m v splits of
                                  Inr body \<Rightarrow> td_act [Posted body key] d3
                                | Inl _ \<Rightarrow> d3))))"

definition td_settled :: "nat \<Rightarrow> td \<Rightarrow> td" where
  "td_settled r d = d\<lparr>td_inFlight := filter (\<lambda>x. fst x \<noteq> r) (td_inFlight d)\<rparr>"

text \<open>\<open>saved\<close> is the transaction ID of the reply, if it has one.\<close>

definition td_onSuccess :: "string \<Rightarrow> nat \<Rightarrow> string option \<Rightarrow> td \<Rightarrow> td" where
  "td_onSuccess workspaceId r saved d =
     (case map_of (td_inFlight d) r of
        None \<Rightarrow> d
      | Some (v, m) \<Rightarrow>
          (let d1 = td_act ([Remembered_account (v_accountId v)]
                 @ (if m \<noteq> Mode_transfer then [Remembered_category m (v_category v)] else [])
                 @ map (\<lambda>k. Invalidated_query (Key_workspace k workspaceId))
                     [''transactions'', ''accounts'', ''budgets'', ''dashboard'', ''insights'']
                 @ [Invalidated_query (Key_period_reviews workspaceId)]) (td_settled r d)
           in if \<not> td_mounted d1 then d1
              else start_td_timer (d1\<lparr>td_feedback := Some (Tone_success,
                (case saved of Some (c # cs) \<Rightarrow> ''Transaction '' @ (c # cs) @ '' saved.'' | _ \<Rightarrow> ''Transaction saved.''))\<rparr>)))"

definition td_onError :: "nat \<Rightarrow> write_error \<Rightarrow> td \<Rightarrow> td" where
  "td_onError r e d =
     (if r \<notin> fst ` set (td_inFlight d) then d
      else (let d1 = td_settled r d in
        if \<not> td_mounted d1 then d1
        else (let d2 = d1\<lparr>td_lockRef := False, td_submitLocked := False, td_showDescription := False\<rparr>;
                  d3 = (case e of
                      Api_failure message (Some fs) \<Rightarrow>
                        (let d3 = d2\<lparr>td_errors := foldl (\<lambda>m (k, x). om_set m k x) (td_errors d2) fs\<rparr>
                         in case map_of (rev fs) ''splits'' of
                              Some (c # cs) \<Rightarrow> d3\<lparr>td_splitShareError := c # cs\<rparr>
                            | _ \<Rightarrow> d3)
                    | _ \<Rightarrow> d2)
              in d3\<lparr>td_feedback := Some (Tone_error, (case e of
                   Api_failure message fs \<Rightarrow> message
                 | Other_failure \<Rightarrow> ''The server could not save this transaction. No changes were made.''))\<rparr>)))"

definition td_timer :: "nat \<Rightarrow> td \<Rightarrow> td" where
  "td_timer t d = (if t \<notin> set (td_timers d) then d
     else td_act [Dialog_onClose] (d\<lparr>td_timers := filter (\<lambda>x. x \<noteq> t) (td_timers d)\<rparr>))"

definition td_unmount :: "td \<Rightarrow> td" where
  "td_unmount d = clear_td_timer (d\<lparr>td_mounted := False\<rparr>)"

datatype td_event =
    Td_commit td_env mode bool bool
  | Td_changeMode td_env mode
  | Td_share string string
  | Td_input td_env td_input
  | Td_submit td_env string nat
  | Td_success string nat "string option"
  | Td_error nat write_error
  | Td_timer nat
  | Td_unmount

fun td_step :: "td \<Rightarrow> td_event \<Rightarrow> td" where
  "td_step d (Td_commit env m opened changed) = td_commit env m opened changed d"
| "td_step d (Td_changeMode env m) = changeMode env m d"
| "td_step d (Td_share e a) = updateSplitShare e a d"
| "td_step d (Td_input env i) = td_input_step env i d"
| "td_step d (Td_submit env key now) = submitTransaction env key now d"
| "td_step d (Td_success w r saved) = td_onSuccess w r saved d"
| "td_step d (Td_error r e) = td_onError r e d"
| "td_step d (Td_timer t) = td_timer t d"
| "td_step d Td_unmount = td_unmount d"

text \<open>The dialog of the first render.\<close>

definition initial_dialog :: "td_env \<Rightarrow> mode \<Rightarrow> td" where
  "initial_dialog env initialMode = \<lparr>td_mode = initialMode,
     td_values = \<lparr>v_merchant = [], v_amount = [],
       v_category = (if te_demoMode env then first_or_empty (categoriesForTransactionMode initialMode) else []),
       v_accountId = initialAccountId env, v_occurredAt = te_today env, v_note = [], v_description = [],
       v_contactId = [], v_transactionId = []\<rparr>,
     td_errors = [], td_feedback = None, td_splitShares = [], td_splitShareErrors = [], td_splitShareError = [],
     td_submitLocked = False, td_lockRef = False, td_showDescription = False, td_timerRef = None, td_timers = [],
     td_mounted = True, td_open = False, td_inFlight = [], td_latest = 0, td_seenPending = False, td_fresh = 1, td_log = []\<rparr>"

section \<open>What passes the checks\<close>

lemma find_account_Some:
  "find_account env i = Some a \<Longrightarrow> a \<in> set (te_accounts env) \<and> acc_status a \<noteq> Inactive \<and> acc_id a = i"
  by (auto simp: find_account_def availableAccounts_def find_Some_iff dest: nth_mem)

lemma active_members_sound: "m \<in> set (active_members lower seen ms) \<Longrightarrow> m \<in> set ms \<and> mb_state m = Member_active"
  by (induction ms arbitrary: seen) (auto simp: Let_def split: if_splits)

lemma schema_Inl_nonempty: "moneyInputSchema a b s \<noteq> Inl []" "dateInputSchema r s \<noteq> Inl []"
  by (simp_all add: moneyInputSchema_def dateInputSchema_def Let_def)

lemma transactionSchema_Inr:
  assumes "transactionSchema roll v = Inr amount"
  shows "moneyInputSchema False False (v_amount v) = Inr amount"
    "\<exists>d. dateInputSchema roll (v_occurredAt v) = Inr d" "2 \<le> length (js_trim (v_merchant v))" "v_category v \<noteq> []"
    "length (v_note v) \<le> 240" "length (v_description v) \<le> 2000"
  using assms schema_Inl_nonempty by (auto simp: transactionSchema_def Let_def split: if_splits sum.splits)

lemma fl64_negative: "x < 0 \<Longrightarrow> 1 / 1000 \<le> \<bar>x\<bar> \<Longrightarrow> fl64 x < 0"
proof -
  assume x: "x < 0" "1 / 1000 \<le> \<bar>x\<bar>"
  have "\<bar>fl64 x - x\<bar> \<le> \<bar>x\<bar> * (1 / 2 ^ 53)" by (rule fl64_error) (use x in simp)
  also have "\<dots> < \<bar>x\<bar>" using x by (simp add: field_simps)
  finally show ?thesis using x by linarith
qed

lemma positive_amount:
  assumes "moneyInputSchema False False s = Inr (Fin r)" "\<bar>entered_minor (js_trim s)\<bar> \<le> 2 ^ 50"
  shows "toMinor r = entered_minor (js_trim s)" "0 < entered_minor (js_trim s)" "number_value s = Fin r"
proof -
  let ?n = "entered_minor (js_trim s)"
  note m = moneyInputSchema_Inr [OF assms(1)]
  show "toMinor r = ?n" using m(2) toMinor_rounds_back [OF assms(2)] by simp
  have r: "r = fl64 (of_int ?n / 100)" "0 < r" using m(2,3) by (auto simp: amount_in_range_def split: if_splits)
  show "0 < ?n"
  proof (rule ccontr)
    assume "\<not> 0 < ?n"
    then consider "?n = 0" | "?n \<le> - 1" by linarith
    then show False
    proof cases
      case 1
      with r show False by (simp add: fl64_def)
    next
      case 2
      then have b: "of_int ?n \<le> (- 1 :: rat)" by (metis of_int_1 of_int_le_iff of_int_minus)
      have "fl64 (of_int ?n / 100) < 0" by (rule fl64_negative) (use b in simp_all)
      with r show False by simp
    qed
  qed
  have "number_value s = number_value (js_trim s)" by (simp add: number_value_def parse_number_def)
  with assms(1) show "number_value s = Fin r" by (simp add: moneyInputSchema_def Let_def split: if_splits)
qed

lemma schema_amount_Fin: "moneyInputSchema a b s = Inr x \<Longrightarrow> \<exists>r. x = Fin r"
  by (drule moneyInputSchema_Inr(2)) simp

lemma sum_of_nat: "sum_list (map (\<lambda>x. of_nat (f x)) xs) = (of_nat (sum_list (map f xs)) :: rat)"
  by (induction xs) simp_all

lemma shares_sound:
  assumes c: "check_shares env Mode_split shares amount source = Inr splits" and d: "\<not> te_demoMode env"
    and a: "minor_of amount = int n" "int n \<le> max_safe_integer"
  shows "sum_list (map split_amountMinor splits) = of_nat n"
    "s \<in> set splits \<Longrightarrow> 0 < split_amountMinor s \<and>
      (\<exists>ms m. te_members env = Loaded ms \<and> m \<in> set ms \<and> mb_state m = Member_active \<and> split_memberEmail s = js_trim (mb_email m))"
proof -
  obtain ms where ms: "te_members env = Loaded ms" using c d by (auto simp: check_shares_def split: query.splits)
  let ?drafts = "map (share_of_member shares) (activeSplitMembers env)"
  obtain al where "validateTransactionSplits ?drafts (of_nat n) = Split_ok splits al"
    using c d ms a(1) by (auto simp: check_shares_def split: if_splits split_validation.splits)
  then have e: "list_all accepted (filter (\<lambda>d. js_trim (draft_amountMajor d) \<noteq> []) ?drafts)"
    "sum_list (map share_of (filter (\<lambda>d. js_trim (draft_amountMajor d) \<noteq> []) ?drafts)) = n"
    "splits = map split_of (filter (\<lambda>d. js_trim (draft_amountMajor d) \<noteq> []) ?drafts)"
    using splits_exact [OF a(2)] by (simp_all add: Let_def)
  show "sum_list (map split_amountMinor splits) = of_nat n"
    using e(2) by (simp add: e(3) comp_def split_of_def sum_of_nat)
  show "0 < split_amountMinor s \<and>
      (\<exists>ms m. te_members env = Loaded ms \<and> m \<in> set ms \<and> mb_state m = Member_active \<and> split_memberEmail s = js_trim (mb_email m))"
    if s: "s \<in> set splits"
  proof -
    obtain dr where dr: "dr \<in> set ?drafts" "accepted dr" "s = split_of dr"
      using s e(1,3) by (auto simp: list_all_iff)
    then obtain m where m: "m \<in> set (activeSplitMembers env)" "dr = share_of_member shares m" by auto
    have "m \<in> set ms \<and> mb_state m = Member_active"
      using active_members_sound m(1) ms by (fastforce simp: activeSplitMembers_def)
    moreover have "0 < split_amountMinor s"
      using dr by (auto simp: split_of_def accepted_def share_of_def share_spec_def Let_def split: option.splits if_splits)
    ultimately show ?thesis using ms dr(3) m(2) by (auto simp: split_of_def share_of_member_def)
  qed
qed

section \<open>One request at a time\<close>

text \<open>The request without a reply is the one the mutation observes, and either the lock or the pending
  state of the last render keeps a second one out.\<close>

definition td_inv :: "td \<Rightarrow> bool" where
  "td_inv d = (list_all (\<lambda>x. fst x = td_latest d) (td_inFlight d) \<and> length (td_inFlight d) \<le> 1
     \<and> (td_inFlight d = [] \<or> td_lockRef d \<or> td_seenPending d))"

lemma td_frame [simp]:
  "td_inv (clear_td_timer d) = td_inv d" "td_inv (start_td_timer d) = td_inv d" "td_inv (td_act as d) = td_inv d"
  "td_inv (d\<lparr>td_timerRef := x\<rparr>) = td_inv d" "td_inv (d\<lparr>td_values := v\<rparr>) = td_inv d" "td_inv (d\<lparr>td_mode := m\<rparr>) = td_inv d"
  "td_inv (d\<lparr>td_errors := es\<rparr>) = td_inv d" "td_inv (d\<lparr>td_mounted := b\<rparr>) = td_inv d" "td_inv (d\<lparr>td_feedback := f\<rparr>) = td_inv d"
  "td_inv (d\<lparr>td_splitShareError := s\<rparr>) = td_inv d" "td_inv (d\<lparr>td_splitShareErrors := ss\<rparr>) = td_inv d"
  "td_inv (d\<lparr>td_splitShares := sh\<rparr>) = td_inv d" "td_inv (d\<lparr>td_timers := ts\<rparr>) = td_inv d"
  "td_inv (d\<lparr>td_showDescription := b\<rparr>) = td_inv d" "td_inv (d\<lparr>td_submitLocked := b\<rparr>) = td_inv d"
  "td_inv (d\<lparr>td_open := b\<rparr>) = td_inv d"
  by (simp_all add: td_inv_def clear_td_timer_def start_td_timer_def td_act_def split: option.splits)

lemma td_inv_effects [simp]:
  "td_inv (category_effect env d) = td_inv d" "td_inv (account_effect env d) = td_inv d"
  by (simp_all add: category_effect_def account_effect_def Let_def split: list.splits)

lemma td_inv_commit: "td_inv d \<Longrightarrow> td_inv (td_commit env m opened changed d)"
proof -
  assume i: "td_inv d"
  let ?d1 = "d\<lparr>td_seenPending := td_isPending d, td_open := opened\<rparr>"
  have s: "td_inFlight d = [] \<or> td_isPending d"
    using i by (cases "td_inFlight d") (auto simp: td_inv_def td_isPending_def)
  then have "td_inv ?d1" using i by (auto simp: td_inv_def)
  moreover have "td_inv (open_effect env m opened ?d1)"
    using i s by (auto simp: open_effect_def Let_def td_inv_def clear_td_timer_def split: option.splits)
  ultimately show ?thesis by (simp add: td_commit_def Let_def)
qed

lemma td_settled_empty: "td_inv d \<Longrightarrow> r \<in> fst ` set (td_inFlight d) \<Longrightarrow> td_inFlight (td_settled r d) = []"
  by (cases "td_inFlight d") (auto simp: td_inv_def td_settled_def)

lemma td_inv_empty: "td_inFlight d = [] \<Longrightarrow> td_inv d"
  by (simp add: td_inv_def)

lemma td_inv_submit: "td_inv d \<Longrightarrow> td_inv (submitTransaction env key now d)"
proof (cases "td_lockRef d \<or> td_seenPending d")
  case False
  assume "td_inv d"
  with False have "td_inFlight d = []" by (simp add: td_inv_def)
  with False show ?thesis
    by (simp add: submitTransaction_def refuse_def Let_def td_inv_def td_act_def start_td_timer_def
        split: sum.splits prod.splits refusal.splits)
qed (simp add: submitTransaction_def)

lemma td_inv_success: "td_inv d \<Longrightarrow> td_inv (td_onSuccess w r saved d)"
proof (cases "map_of (td_inFlight d) r")
  case (Some x)
  assume i: "td_inv d"
  have "td_inFlight (td_settled r d) = []"
    using td_settled_empty [OF i] map_of_SomeD [OF Some] by force
  then show ?thesis using Some
    by (simp add: td_onSuccess_def Let_def td_inv_empty td_act_def split: prod.splits)
qed (simp add: td_onSuccess_def)

lemma td_inv_error: "td_inv d \<Longrightarrow> td_inv (td_onError r e d)"
proof (cases "r \<in> fst ` set (td_inFlight d)")
  case True
  assume i: "td_inv d"
  have "td_inFlight (td_onError r e d) = []"
    using True td_settled_empty [OF i True]
    by (simp add: td_onError_def Let_def split: write_error.splits option.splits list.splits)
  then show ?thesis by (rule td_inv_empty)
qed (simp add: td_onError_def)

interpretation transaction_dialog: machine td_step td_inv
proof
  show "td_inv (td_step d e)" if "td_inv d" for d e
  proof (cases e)
    case (Td_input env i)
    show ?thesis using that unfolding Td_input by (cases i) (simp_all add: edit_def)
  qed (use that in \<open>simp_all add: td_inv_commit td_inv_submit td_inv_success td_inv_error changeMode_def
      updateSplitShare_def td_timer_def td_unmount_def split: option.splits list.splits\<close>)
qed

section \<open>Properties\<close>

lemma posted_by_submit:
  assumes "Posted body key' \<in> set (td_log (submitTransaction env key now d))" "Posted body key' \<notin> set (td_log d)"
  shows "\<exists>source amount splits. checkSubmission env (td_mode d) (td_values d) (td_splitShares d) = Inr (source, amount, splits) \<and>
    \<not> te_demoMode env \<and> key' = key \<and> requestBody env (td_mode d) (td_values d) splits = Inr body"
  using assms
  by (auto simp: submitTransaction_def Let_def refuse_def td_act_def start_td_timer_def split: if_splits sum.splits refusal.splits)

lemma checkSubmission_Inr:
  assumes "checkSubmission env m v shares = Inr (source, amount, splits)"
  shows "transactionSchema (te_roll env) v = Inr amount" "find_account env (v_accountId v) = Some source"
    "check_shares env m shares amount source = Inr splits" "check_transfer env m v source = Inr ()"
    "js_trim (v_transactionId v) = [] \<or> digit_id (js_trim (v_transactionId v))"
    "js_trim (v_transactionId v) \<noteq> [] \<or> autoGenerationEnabled env m"
  using assms by (auto simp: checkSubmission_def Let_def bind_result_def split: if_splits sum.splits option.splits)

lemma check_transfer_Inr:
  "check_transfer env Mode_transfer v source = Inr () \<Longrightarrow>
    \<exists>dest. find_account env (v_merchant v) = Some dest \<and> acc_id dest \<noteq> acc_id source \<and> account_currency dest = account_currency source"
  by (auto simp: check_transfer_def split: option.splits if_splits)

text \<open>C19. A posted transaction is what the user entered and respects the workspace. For an amount that is entered with up to 2^50
  hundredths (beyond that the product in floating point may be off by a hundredth), and otherwise whatever the state of the
  dialog: the body a submission posts carries the entered amount, exact in hundredths and positive, in the currency of an
  active account of the workspace; its identifier is left to the server or consists of 1 to 18 digits; a transfer goes to
  another active account of the same currency; and the shares of a split are positive, belong to active members and sum to
  the amount.\<close>

theorem posted_body_sound:
  assumes "Posted body key' \<in> set (td_log (submitTransaction env key now d))" "Posted body key' \<notin> set (td_log d)"
    and small: "\<bar>entered_minor (js_trim (v_amount (td_values d)))\<bar> \<le> 2 ^ 50"
  shows "\<exists>source \<in> set (te_accounts env).
    acc_status source \<noteq> Inactive \<and> b_accountId body = acc_id source \<and> b_currency body = account_currency source \<and>
    b_amountMinor body = entered_minor (js_trim (v_amount (td_values d))) \<and> 0 < b_amountMinor body \<and>
    (case b_transactionId body of None \<Rightarrow> b_autoGenerate body | Some i \<Rightarrow> digit_id i \<and> \<not> b_autoGenerate body) \<and>
    toUtcDateOnly (v_occurredAt (td_values d)) = Inr (b_occurredAt body) \<and>
    (b_type body = Mode_transfer \<longrightarrow> (\<exists>dest \<in> set (te_accounts env). acc_status dest \<noteq> Inactive \<and> acc_id dest \<noteq> acc_id source \<and>
       account_currency dest = b_currency body \<and> b_destinationAccountId body = Some (js_trim (acc_id dest)))) \<and>
    (b_type body = Mode_split \<longrightarrow> (\<exists>splits ms. b_splits body = Some splits \<and> te_members env = Loaded ms \<and>
       sum_list (map split_amountMinor splits) = of_int (b_amountMinor body) \<and>
       (\<forall>s \<in> set splits. 0 < split_amountMinor s \<and>
         (\<exists>m \<in> set ms. mb_state m = Member_active \<and> split_memberEmail s = js_trim (mb_email m)))))"
proof -
  let ?v = "td_values d" and ?m = "td_mode d"
  obtain source amount splits where c: "checkSubmission env ?m ?v (td_splitShares d) = Inr (source, amount, splits)"
    and live: "\<not> te_demoMode env" and b: "requestBody env ?m ?v splits = Inr body"
    using posted_by_submit [OF assms(1,2)] by blast
  note c = checkSubmission_Inr [OF c]
  have money: "moneyInputSchema False False (v_amount ?v) = Inr amount" by (rule transactionSchema_Inr [OF c(1)])
  then obtain r where r: "amount = Fin r" using schema_amount_Fin by blast
  note amt = positive_amount [OF money [unfolded r] small]
  note src = find_account_Some [OF c(2)]
  obtain n where n: "entered_minor (js_trim (v_amount ?v)) = int n" "0 < n"
    using amt(2) by (metis zero_less_imp_eq_int)
  have body: "b_type body = ?m" "b_accountId body = acc_id source" "b_currency body = account_currency source"
    "b_amountMinor body = int n" "b_splits body = (if ?m = Mode_split then Some splits else None)"
    "b_destinationAccountId body = (if ?m = Mode_transfer then Some (js_trim (v_merchant ?v)) else None)"
    "b_transactionId body = or_undefined (js_trim (v_transactionId ?v))"
    "b_autoGenerate body = (autoGenerationEnabled env ?m \<and> js_trim (v_transactionId ?v) = [])"
    "toUtcDateOnly (v_occurredAt ?v) = Inr (b_occurredAt body)"
    using b src c(2) amt n(1)
    by (auto simp: requestBody_def bind_result_def selectedTransactionDateToUtc_def minor_of_def split: sum.splits if_splits)
  have tr: "\<exists>dest \<in> set (te_accounts env). acc_status dest \<noteq> Inactive \<and> acc_id dest \<noteq> acc_id source \<and>
      account_currency dest = b_currency body \<and> b_destinationAccountId body = Some (js_trim (acc_id dest))" if "?m = Mode_transfer"
    using check_transfer_Inr [of env ?v source] c(4) that find_account_Some body(3,6) by fastforce
  have "minor_of amount = int n" "int n \<le> max_safe_integer"
    using amt(1) n small by (simp_all add: r minor_of_def max_safe_integer_def)
  note sh = shares_sound [OF _ live this]
  have sp: "\<exists>ss ms. b_splits body = Some ss \<and> te_members env = Loaded ms \<and>
       sum_list (map split_amountMinor ss) = of_int (b_amountMinor body) \<and>
       (\<forall>s \<in> set ss. 0 < split_amountMinor s \<and>
         (\<exists>m \<in> set ms. mb_state m = Member_active \<and> split_memberEmail s = js_trim (mb_email m)))" if m: "?m = Mode_split"
  proof -
    have cs: "check_shares env Mode_split (td_splitShares d) amount source = Inr splits" using c(3) m by simp
    obtain ms where ms: "te_members env = Loaded ms"
      using cs live by (auto simp: check_shares_def split: query.splits)
    show ?thesis using sh(1) [OF cs] sh(2) [OF cs] ms body(4,5) m by (intro exI [of _ splits] exI [of _ ms]) auto
  qed
  have tid: "case b_transactionId body of None \<Rightarrow> b_autoGenerate body | Some i \<Rightarrow> digit_id i \<and> \<not> b_autoGenerate body"
    using c(5,6) body(7,8) by (auto simp: or_undefined_def)
  show ?thesis
    using src tr sp tid body n by (intro bexI [of _ source]) auto
qed

text \<open>One account, one member, a split of 2.00.\<close>

definition example_env :: td_env where
  "example_env = \<lparr>te_demoMode = False, te_preferredCurrency = ''USD'',
     te_accounts = [\<lparr>acc_id = ''a'', acc_name = ''Cash'', acc_kind = ''cash'', acc_balance = \<lparr>amountMinor = Fin 0, currency = ''USD''\<rparr>,
       acc_maskedNumber = [], acc_color = [], acc_bankName = None, acc_icon = None, acc_notes = None, acc_status = Active,
       acc_openingMinor = Fin 0, acc_excludeFromTotal = False, acc_privacy = None\<rparr>],
     te_members = Loaded [\<lparr>mb_name = ''Ann'', mb_email = ''a@x'', mb_state = Member_active\<rparr>],
     te_categories = Loading, te_sequences = [], te_storage = [], te_today = ''2024-03-01'', te_roll = False,
     te_lower = id, te_money = (\<lambda>_ _. []), te_localeCompare = (\<lambda>_ _. 0)\<rparr>"

definition example_dialog :: td where
  "example_dialog = (initial_dialog example_env Mode_split)\<lparr>td_values := \<lparr>v_merchant = ''Lunch'', v_amount = ''2'',
     v_category = ''Food'', v_accountId = ''a'', v_occurredAt = ''2024-03-01'', v_note = [], v_description = [],
     v_contactId = [], v_transactionId = []\<rparr>, td_splitShares := [(''a@x'', ''2'')]\<rparr>"

lemma example_accepted:
  "\<exists>amount source splits. checkSubmission example_env Mode_split (td_values example_dialog) (td_splitShares example_dialog)
     = Inr (source, amount, splits)"
proof -
  have t: "js_trim ''Lunch'' = ''Lunch''" "js_trim ''2'' = ''2''" "js_trim ''a@x'' = ''a@x''" "js_trim [] = []"
    "js_trim ''2024-03-01'' = ''2024-03-01''"
    by (simp_all add: js_trim_def trim_start_def trim_end_def is_space_def string_eval)
  have e: "entered_minor ''2'' = 200" "MONEY_PATTERN ''2''" "unsigned_money ''2''"
    by (simp_all add: entered_minor_def strip_sign_def MONEY_PATTERN_def unsigned_money_def pad_end_def string_eval numeral_2_eq_2)
  have n: "number_value ''2'' = Fin (fl64 (of_int 200 / 100))"
    using parse_number_money [of "''2''"] e t by (simp add: number_value_def)
  have f: "fl64 2 = 2" "fl64 200 = 200"
    using fl64_whole [of 2] fl64_whole [of 200] by simp_all
  have m: "moneyInputSchema False False ''2'' = Inr (Fin 2)"
    using f e n t by (simp add: moneyInputSchema_def Let_def amount_in_range_def MAX_MAJOR_AMOUNT_def)
  have d: "dateInputSchema False ''2024-03-01'' = Inr ''2024-03-01''" by code_simp
  have mn: "minor_of (Fin 2) = 200" by (simp add: minor_of_def toMinor_def f math_round_def floor_eq_iff)
  have s: "validateTransactionSplits [\<lparr>draft_memberEmail = ''a@x'', draft_amountMajor = ''2''\<rparr>] (of_nat 200)
     = Split_ok [\<lparr>split_memberEmail = ''a@x'', split_amountMinor = of_nat 200\<rparr>] (of_nat 200)"
    by (subst splits_exact) (simp_all add: t e accepted_def share_of_def split_of_def
      share_spec_def max_safe_integer_def)
  show ?thesis
    using t e m d s mn
    by (simp add: checkSubmission_def example_env_def example_dialog_def initial_dialog_def autoGenerationEnabled_def modeSequence_def
        transactionSchema_def find_account_def availableAccounts_def check_shares_def check_transfer_def activeSplitMembers_def
        share_of_member_def bind_result_def)
qed

theorem posted_body_sound_witness:
  "\<exists>body. Posted body ''k'' \<in> set (td_log (submitTransaction example_env ''k'' 0 example_dialog)) \<and>
     b_amountMinor body = 200 \<and> b_accountId body = ''a'' \<and>
     (\<exists>splits. b_splits body = Some splits \<and> sum_list (map split_amountMinor splits) = 200)"
proof -
  obtain amount source splits where c: "checkSubmission example_env Mode_split (td_values example_dialog)
      (td_splitShares example_dialog) = Inr (source, amount, splits)"
    using example_accepted by blast
  have v: "td_mode example_dialog = Mode_split" "v_occurredAt (td_values example_dialog) = ''2024-03-01''"
    "v_amount (td_values example_dialog) = ''2''" "td_log example_dialog = []" "te_demoMode example_env = False"
    "td_lockRef example_dialog = False" "td_seenPending example_dialog = False"
    by (simp_all add: example_dialog_def initial_dialog_def example_env_def)
  have "selectedTransactionDateToUtc ''2024-03-01'' = Inr ''2024-03-01T00:00:00.000Z''" by code_simp
  then obtain body where b: "requestBody example_env Mode_split (td_values example_dialog) splits = Inr body" "b_type body = Mode_split"
    by (simp add: requestBody_def bind_result_def v)
  have p: "Posted body ''k'' \<in> set (td_log (submitTransaction example_env ''k'' 0 example_dialog))"
    using b c by (simp add: submitTransaction_def Let_def v td_act_def)
  have e: "entered_minor (js_trim ''2'') = 200"
    by (simp add: js_trim_def trim_start_def trim_end_def is_space_def entered_minor_def strip_sign_def
        pad_end_def string_eval numeral_2_eq_2)
  have "\<bar>entered_minor (js_trim (v_amount (td_values example_dialog)))\<bar> \<le> 2 ^ 50" by (simp add: v e)
  moreover have "\<forall>s \<in> set (te_accounts example_env). acc_id s = ''a''" by (simp add: example_env_def)
  ultimately show ?thesis
    using posted_body_sound [OF p] b(2) p by (intro exI [of _ body]) (auto simp: v e)
qed

text \<open>A transaction is posted once: in every run of the dialog, over all orders of edits, double submissions
  between two renders, reopenings with other accounts, replies and timers, at most one request is without a
  reply, and as long as there is one the next submission changes nothing.\<close>

theorem one_transaction_in_flight:
  "let d = foldl td_step (initial_dialog env m) events
   in length (td_inFlight d) \<le> 1 \<and> (td_inFlight d = [] \<or> submitTransaction env' key now d = d)"
proof -
  have "td_inv (initial_dialog env m)" by (simp add: td_inv_empty initial_dialog_def)
  from transaction_dialog.inv_run [OF this, of events] show ?thesis
    by (auto simp: td_inv_def submitTransaction_def Let_def)
qed

text \<open>What the code does when the accounts change while the dialog is open, which the refetch after a saved
  transaction causes: the opening effect runs again, the typed values and the success message are gone and the
  form is unlocked.\<close>

lemma accounts_refresh_resets:
  assumes "td_open d"
  shows "td_feedback (td_commit env m True True d) = None" "\<not> td_lockRef (td_commit env m True True d)"
    "v_amount (td_values (td_commit env m True True d)) = []"
  using assms by (simp_all add: td_commit_def open_effect_def category_effect_def account_effect_def initial_values_def Let_def
      split: list.splits)

end
