(* ===== verification/NativeBridge.thy ===== *)
theory NativeBridge
  imports JsValues
begin

text \<open>
  The bridge to the Android shell (platform/native-app-bridge.tsx) with what it drives: the published state
  of network and keyboard (platform/native-app-state.ts), the subscriptions to the network
  (platform/network.ts) and to the keyboard (platform/keyboard.ts). Every promise the code awaits is
  answered by an event of its own, in any order; plugin handles are numbered by the plugin.
\<close>

section \<open>The published state\<close>

record network_state =
  nw_connected :: bool
  nw_connectionType :: string

record keyboard_state =
  kb_open :: bool
  kb_height :: jsnum

record native_app_state =
  na_network :: network_state
  na_keyboard :: "keyboard_state option"

definition SERVER_SNAPSHOT :: native_app_state where
  "SERVER_SNAPSHOT = \<lparr>na_network = \<lparr>nw_connected = True, nw_connectionType = ''unknown''\<rparr>, na_keyboard = None\<rparr>"

definition sameNetwork :: "network_state \<Rightarrow> network_state \<Rightarrow> bool" where
  "sameNetwork l r = (nw_connected l = nw_connected r \<and> nw_connectionType l = nw_connectionType r)"

definition sameKeyboard :: "keyboard_state option \<Rightarrow> keyboard_state option \<Rightarrow> bool" where
  "sameKeyboard l r = (case (l, r) of
       (None, None) \<Rightarrow> True
     | (Some k, Some k') \<Rightarrow> kb_open k = kb_open k' \<and> kb_height k = kb_height k' \<and> kb_height k \<noteq> NaN
     | _ \<Rightarrow> False)"

text \<open>The effects of the bridge in their order; \<open>Got_handle\<close> marks that a plugin gave out a handle.\<close>

datatype native_effect =
    Notified native_app_state
  | Set_online bool
  | Set_focused "bool option"
  | Synced_bars string
  | Invalidated_active
  | Back_pressed "bool option"
  | Got_handle nat
  | Removed_handle nat

record latest_state =
  la_resolvedTheme :: string
  la_demoMode :: bool
  la_isAuthenticated :: bool

datatype resume_phase = Syncing_bars | Reading_status | Refreshed "network_state option"

datatype net_phase = Net_adding | Net_reading | Net_returned

text \<open>The closure variables of \<open>subscribeNetwork\<close>; \<open>ns_attached\<close> says that the browser's listeners are.\<close>

record net_sub =
  ns_active :: bool
  ns_cleaned :: bool
  ns_phase :: net_phase
  ns_handles :: "nat list"
  ns_attached :: bool
  ns_adopted :: bool

datatype registration = Waiting | Registered | Rejected

record kb_sub =
  ks_active :: bool
  ks_cleaned :: bool
  ks_show :: registration
  ks_hide :: registration
  ks_returned :: bool
  ks_handles :: "nat list"
  ks_adopted :: bool

text \<open>The variables of the bridge's effect with the modules it drives. \<open>nb_markers\<close> are the two keyboard
  markers of the document's root, which are set and removed together. \<open>nb_waiting\<close> are the resumes chained
  behind the running one, each with its generation and the number of its abort controller.\<close>

record bridge =
  nb_android :: bool
  nb_app :: native_app_state
  nb_markers :: "(bool \<times> jsnum) option"
  nb_online :: bool
  nb_focused :: "bool option"
  nb_log :: "native_effect list"
  nb_latest :: latest_state
  nb_active :: bool
  nb_connected :: bool
  nb_generation :: nat
  nb_controller :: "nat option"
  nb_controllers :: nat
  nb_aborted :: "nat list"
  nb_running :: "(nat \<times> nat \<times> resume_phase) option"
  nb_waiting :: "(nat \<times> nat) list"
  nb_appPending :: nat
  nb_appHandles :: "nat list"
  nb_net :: net_sub
  nb_kb :: kb_sub

definition emit :: "native_effect list \<Rightarrow> bridge \<Rightarrow> bridge" where
  "emit es b = b\<lparr>nb_log := nb_log b @ es\<rparr>"

definition publish :: "native_app_state \<Rightarrow> bridge \<Rightarrow> bridge" where
  "publish n b =
     (if sameNetwork (na_network (nb_app b)) (na_network n) \<and> sameKeyboard (na_keyboard (nb_app b)) (na_keyboard n) then b
      else emit [Notified n] (b\<lparr>nb_app := n\<rparr>))"

definition publishNetworkState :: "network_state \<Rightarrow> bridge \<Rightarrow> bridge" where
  "publishNetworkState st b = publish \<lparr>na_network = st, na_keyboard = na_keyboard (nb_app b)\<rparr> b"

definition publishNativeKeyboardState :: "keyboard_state option \<Rightarrow> bridge \<Rightarrow> bridge" where
  "publishNativeKeyboardState k b = publish \<lparr>na_network = na_network (nb_app b), na_keyboard = k\<rparr> b"

section \<open>The network\<close>

definition normalizeNetworkState :: "network_state \<Rightarrow> network_state" where
  "normalizeNetworkState st = \<lparr>nw_connected = nw_connected st,
     nw_connectionType = (if nw_connected st \<and> nw_connectionType st \<noteq> ''none'' then nw_connectionType st
       else if nw_connected st then ''unknown'' else ''none'')\<rparr>"

definition setNetworkState :: "network_state \<Rightarrow> bridge \<Rightarrow> network_state \<times> bridge" where
  "setNetworkState st b = (let n = normalizeNetworkState st
     in (n, emit [Set_online (nw_connected n)] (b\<lparr>nb_online := nw_connected n\<rparr>)))"

definition invalidateEligibleActiveQueries :: "bridge \<Rightarrow> bridge" where
  "invalidateEligibleActiveQueries b =
     (if \<not> la_isAuthenticated (nb_latest b) \<or> la_demoMode (nb_latest b) then b else emit [Invalidated_active] b)"

definition acceptNetworkState :: "network_state \<Rightarrow> bridge \<Rightarrow> bridge" where
  "acceptNetworkState st b =
     (if \<not> nb_active b then b
      else (let reconnected = \<not> nb_connected b \<and> nw_connected st;
                b1 = publishNetworkState st (b\<lparr>nb_connected := nw_connected st\<rparr>)
            in if reconnected then invalidateEligibleActiveQueries b1 else b1))"

definition net_publish :: "network_state \<Rightarrow> bridge \<Rightarrow> bridge" where
  "net_publish st b = (case setNetworkState st b of (n, b1) \<Rightarrow> acceptNetworkState n b1)"

definition browser_state :: "bool \<Rightarrow> network_state" where
  "browser_state onLine = \<lparr>nw_connected = onLine, nw_connectionType = (if onLine then ''unknown'' else ''none'')\<rparr>"

definition net_deactivate :: "bridge \<Rightarrow> bridge" where
  "net_deactivate b = (let s = nb_net b in
     if \<not> ns_active s then b
     else (emit (map Removed_handle (ns_handles s)) b)\<lparr>nb_net := s\<lparr>ns_active := False, ns_handles := [], ns_attached := False\<rparr>\<rparr>)"

definition net_cleanup :: "bridge \<Rightarrow> bridge" where
  "net_cleanup b = (if ns_cleaned (nb_net b) then b else net_deactivate (b\<lparr>nb_net := (nb_net b)\<lparr>ns_cleaned := True\<rparr>\<rparr>))"

text \<open>The awaited answers of the native subscription: the listener's registration, then the status.\<close>

definition net_listener_added :: "nat option \<Rightarrow> bridge \<Rightarrow> bridge" where
  "net_listener_added r b = (let s = nb_net b in
     if ns_phase s \<noteq> Net_adding then b
     else (let s1 = s\<lparr>ns_phase := (if ns_active s then Net_reading else Net_returned)\<rparr>
           in case r of
                None \<Rightarrow> b\<lparr>nb_net := s1\<rparr>
              | Some h \<Rightarrow> if ns_active s then (emit [Got_handle h] b)\<lparr>nb_net := s1\<lparr>ns_handles := h # ns_handles s\<rparr>\<rparr>
                          else (emit [Got_handle h, Removed_handle h] b)\<lparr>nb_net := s1\<rparr>))"

definition net_initial :: "network_state option \<Rightarrow> bridge \<Rightarrow> bridge" where
  "net_initial r b = (let s = nb_net b in
     if ns_phase s \<noteq> Net_reading then b
     else (let b1 = b\<lparr>nb_net := s\<lparr>ns_phase := Net_returned\<rparr>\<rparr>
           in case r of Some st \<Rightarrow> if ns_active s then net_publish st b1 else b1 | None \<Rightarrow> b1))"

definition net_change :: "network_state \<Rightarrow> bridge \<Rightarrow> bridge" where
  "net_change st b = (if \<not> nb_android b \<or> \<not> ns_active (nb_net b) then b else net_publish st b)"

definition browser_change :: "bool \<Rightarrow> bridge \<Rightarrow> bridge" where
  "browser_change onLine b =
     (if \<not> ns_attached (nb_net b) \<or> \<not> ns_active (nb_net b) then b else net_publish (browser_state onLine) b)"

text \<open>\<open>adoptAdapterCleanup\<close>: a subscription that returns after the unmount is cleaned up at once.\<close>

definition net_adopt :: "bridge \<Rightarrow> bridge" where
  "net_adopt b = (let s = nb_net b in
     if ns_phase s \<noteq> Net_returned \<or> ns_adopted s then b
     else (let b1 = b\<lparr>nb_net := s\<lparr>ns_adopted := True\<rparr>\<rparr> in if \<not> nb_active b then net_cleanup b1 else b1))"

section \<open>The keyboard\<close>

definition clearKeyboardMarkers :: "bridge \<Rightarrow> bridge" where
  "clearKeyboardMarkers b = b\<lparr>nb_markers := None\<rparr>"

definition resetNativeKeyboardState :: "bridge \<Rightarrow> bridge" where
  "resetNativeKeyboardState b =
     (if \<not> nb_android b then clearKeyboardMarkers b else b\<lparr>nb_markers := Some (False, Fin 0)\<rparr>)"

definition sanitizeKeyboardHeight :: "jsnum \<Rightarrow> jsnum" where
  "sanitizeKeyboardHeight h = (case h of Fin x \<Rightarrow> Fin (max 0 x) | _ \<Rightarrow> Fin 0)"

text \<open>The bridge's listener, and the two ways a keyboard state is published.\<close>

definition kb_listener :: "keyboard_state \<Rightarrow> bridge \<Rightarrow> bridge" where
  "kb_listener st b = (if \<not> nb_active b then b else publishNativeKeyboardState (Some st) b)"

definition publishKeyboardState :: "keyboard_state \<Rightarrow> bridge \<Rightarrow> bridge" where
  "publishKeyboardState st b = kb_listener st (b\<lparr>nb_markers := Some (kb_open st, kb_height st)\<rparr>)"

definition kb_deactivate :: "bridge \<Rightarrow> bridge" where
  "kb_deactivate b = (let s = nb_kb b in
     if \<not> ks_active s then b
     else (emit (map Removed_handle (ks_handles s)) (clearKeyboardMarkers b))\<lparr>nb_kb := s\<lparr>ks_active := False, ks_handles := []\<rparr>\<rparr>)"

definition kb_cleanup :: "bridge \<Rightarrow> bridge" where
  "kb_cleanup b = (if \<not> nb_android b \<or> ks_cleaned (nb_kb b) then b
     else clearKeyboardMarkers (kb_deactivate (b\<lparr>nb_kb := (nb_kb b)\<lparr>ks_cleaned := True\<rparr>\<rparr>)))"

definition kb_adoptHandle :: "nat option \<Rightarrow> bridge \<Rightarrow> bridge" where
  "kb_adoptHandle r b = (case r of
       None \<Rightarrow> b
     | Some h \<Rightarrow> if ks_active (nb_kb b) then (emit [Got_handle h] b)\<lparr>nb_kb := (nb_kb b)\<lparr>ks_handles := h # ks_handles (nb_kb b)\<rparr>\<rparr>
                 else emit [Got_handle h, Removed_handle h] b)"

definition answer :: "nat option \<Rightarrow> registration" where
  "answer r = (case r of Some _ \<Rightarrow> Registered | None \<Rightarrow> Rejected)"

definition kb_show_registered :: "nat option \<Rightarrow> bridge \<Rightarrow> bridge" where
  "kb_show_registered r b = (if \<not> nb_android b \<or> ks_show (nb_kb b) \<noteq> Waiting then b
     else kb_adoptHandle r (b\<lparr>nb_kb := (nb_kb b)\<lparr>ks_show := answer r\<rparr>\<rparr>))"

definition kb_hide_registered :: "nat option \<Rightarrow> bridge \<Rightarrow> bridge" where
  "kb_hide_registered r b = (if \<not> nb_android b \<or> ks_hide (nb_kb b) \<noteq> Waiting then b
     else kb_adoptHandle r (b\<lparr>nb_kb := (nb_kb b)\<lparr>ks_hide := answer r\<rparr>\<rparr>))"

text \<open>Both registrations have settled: one that was refused gives the other up.\<close>

definition kb_settled :: "bridge \<Rightarrow> bridge" where
  "kb_settled b = (let s = nb_kb b in
     if ks_returned s \<or> ks_show s = Waiting \<or> ks_hide s = Waiting then b
     else (let b1 = b\<lparr>nb_kb := s\<lparr>ks_returned := True\<rparr>\<rparr>;
               b2 = (if ks_active s \<and> (ks_show s = Rejected \<or> ks_hide s = Rejected) then kb_deactivate b1 else b1)
           in if \<not> ks_active (nb_kb b2) then clearKeyboardMarkers b2
              else kb_listener \<lparr>kb_open = False, kb_height = Fin 0\<rparr> (resetNativeKeyboardState b2)))"

definition keyboardWillShow :: "jsnum \<Rightarrow> bridge \<Rightarrow> bridge" where
  "keyboardWillShow h b = (if \<not> ks_active (nb_kb b) then b
     else publishKeyboardState \<lparr>kb_open = True, kb_height = sanitizeKeyboardHeight h\<rparr> b)"

definition keyboardWillHide :: "bridge \<Rightarrow> bridge" where
  "keyboardWillHide b = (if \<not> ks_active (nb_kb b) then b
     else kb_listener \<lparr>kb_open = False, kb_height = Fin 0\<rparr> (resetNativeKeyboardState b))"

definition kb_adopt :: "bridge \<Rightarrow> bridge" where
  "kb_adopt b = (let s = nb_kb b in
     if \<not> ks_returned s \<or> ks_adopted s then b
     else (let b1 = b\<lparr>nb_kb := s\<lparr>ks_adopted := True\<rparr>\<rparr> in if \<not> nb_active b then kb_cleanup b1 else b1))"

section \<open>Resuming\<close>

definition abort_controller :: "bridge \<Rightarrow> bridge" where
  "abort_controller b = (case nb_controller b of None \<Rightarrow> b | Some c \<Rightarrow> b\<lparr>nb_aborted := c # nb_aborted b\<rparr>)"

definition setFocused :: "bool option \<Rightarrow> bridge \<Rightarrow> bridge" where
  "setFocused f b = emit [Set_focused f] (b\<lparr>nb_focused := f\<rparr>)"

definition queueResume :: "bridge \<Rightarrow> bridge" where
  "queueResume b = (let b1 = abort_controller b; c = nb_controllers b;
       b2 = setFocused (Some True) (b1\<lparr>nb_controller := Some c, nb_controllers := Suc c\<rparr>);
       g = Suc (nb_generation b2)
     in b2\<lparr>nb_generation := g, nb_waiting := nb_waiting b2 @ [(g, c)]\<rparr>)"

definition appStateChange :: "bool \<Rightarrow> bridge \<Rightarrow> bridge" where
  "appStateChange isActive b =
     (if \<not> nb_active b \<or> \<not> nb_android b then b
      else if \<not> isActive
        then setFocused (Some False) ((abort_controller b)\<lparr>nb_controller := None, nb_generation := Suc (nb_generation b)\<rparr>)
        else queueResume b)"

definition stale :: "nat \<Rightarrow> nat \<Rightarrow> bridge \<Rightarrow> bool" where
  "stale g c b = (\<not> nb_active b \<or> c \<in> set (nb_aborted b) \<or> g \<noteq> nb_generation b)"

text \<open>The steps of \<open>resume\<close> between its awaits.\<close>

definition resume_start :: "bridge \<Rightarrow> bridge" where
  "resume_start b = (case (nb_running b, nb_waiting b) of
       (None, (g, c) # ws) \<Rightarrow>
         (let b1 = b\<lparr>nb_waiting := ws\<rparr>
          in if stale g c b then b1
             else (emit [Synced_bars (la_resolvedTheme (nb_latest b))] b1)\<lparr>nb_running := Some (g, c, Syncing_bars)\<rparr>)
     | _ \<Rightarrow> b)"

definition resume_bars_done :: "bridge \<Rightarrow> bridge" where
  "resume_bars_done b = (case nb_running b of
       Some (g, c, Syncing_bars) \<Rightarrow>
         (if stale g c b then b\<lparr>nb_running := None\<rparr>
          else (let b1 = publishNativeKeyboardState (Some \<lparr>kb_open = False, kb_height = Fin 0\<rparr>) (resetNativeKeyboardState b)
                in b1\<lparr>nb_running := Some (g, c, if c \<in> set (nb_aborted b1) then Refreshed None else Reading_status)\<rparr>))
     | _ \<Rightarrow> b)"

definition resume_status :: "network_state option \<Rightarrow> bridge \<Rightarrow> bridge" where
  "resume_status r b = (case nb_running b of
       Some (g, c, Reading_status) \<Rightarrow>
         (case r of
            None \<Rightarrow> b\<lparr>nb_running := Some (g, c, Refreshed None)\<rparr>
          | Some st \<Rightarrow>
              if c \<in> set (nb_aborted b) then b\<lparr>nb_running := Some (g, c, Refreshed None)\<rparr>
              else (case setNetworkState st b of (n, b1) \<Rightarrow> b1\<lparr>nb_running := Some (g, c, Refreshed (Some n))\<rparr>))
     | _ \<Rightarrow> b)"

definition resume_end :: "bridge \<Rightarrow> bridge" where
  "resume_end b = (case nb_running b of
       Some (g, c, Refreshed r) \<Rightarrow>
         (let b1 = b\<lparr>nb_running := None\<rparr>
          in case r of None \<Rightarrow> b1 | Some n \<Rightarrow> if stale g c b then b1 else acceptNetworkState n b1)
     | _ \<Rightarrow> b)"

section \<open>Mounting and unmounting\<close>

definition app_handle :: "nat option \<Rightarrow> bridge \<Rightarrow> bridge" where
  "app_handle r b = (case nb_appPending b of
       0 \<Rightarrow> b
     | Suc n \<Rightarrow> (let b1 = b\<lparr>nb_appPending := n\<rparr> in case r of
           None \<Rightarrow> b1
         | Some h \<Rightarrow> if nb_active b then (emit [Got_handle h] b1)\<lparr>nb_appHandles := h # nb_appHandles b\<rparr>
                     else emit [Got_handle h, Removed_handle h] b1))"

definition back_button :: "bool option \<Rightarrow> bridge \<Rightarrow> bridge" where
  "back_button canGoBack b = (if \<not> nb_active b \<or> \<not> nb_android b then b else emit [Back_pressed canGoBack] b)"

text \<open>The cleanup of the effect; the adapters' cleanups are those that were adopted.\<close>

definition unmount :: "bridge \<Rightarrow> bridge" where
  "unmount b = (if \<not> nb_active b then b else
     (let b1 = kb_deactivate (net_deactivate b);
          b2 = (abort_controller b1)\<lparr>nb_controller := None, nb_active := False, nb_generation := Suc (nb_generation b1)\<rparr>;
          b3 = setFocused None (publishNativeKeyboardState None b2);
          b4 = (emit (map Removed_handle (nb_appHandles b3)) b3)\<lparr>nb_appHandles := []\<rparr>;
          b5 = (if ns_adopted (nb_net b4) then net_cleanup b4 else b4)
      in if ks_adopted (nb_kb b5) then kb_cleanup b5 else b5))"

text \<open>Mounting over the module states that are there; \<open>onLine\<close> is the browser's \<open>navigator.onLine\<close>.\<close>

definition mount :: "bool \<Rightarrow> bool \<Rightarrow> native_app_state \<Rightarrow> bool \<Rightarrow> latest_state \<Rightarrow> bridge" where
  "mount android onLine app online latest =
     (let b = \<lparr>nb_android = android, nb_app = app, nb_markers = None, nb_online = online, nb_focused = None, nb_log = [],
            nb_latest = latest, nb_active = True, nb_connected = True, nb_generation = 0, nb_controller = None,
            nb_controllers = 0, nb_aborted = [], nb_running = None, nb_waiting = [],
            nb_appPending = (if android then 2 else 0), nb_appHandles = [],
            nb_net = \<lparr>ns_active = True, ns_cleaned = False, ns_phase = (if android then Net_adding else Net_returned),
               ns_handles = [], ns_attached = \<not> android, ns_adopted = False\<rparr>,
            nb_kb = \<lparr>ks_active = android, ks_cleaned = False, ks_show = Waiting, ks_hide = Waiting,
               ks_returned = \<not> android, ks_handles = [], ks_adopted = False\<rparr>\<rparr>;
          b1 = publishNativeKeyboardState None b
      in if android then b1 else net_publish (browser_state onLine) b1)"

datatype bridge_event =
    Rendered latest_state
  | App_handle "nat option"
  | App_state bool
  | Back_button "bool option"
  | Net_listener "nat option"
  | Net_initial "network_state option"
  | Net_change network_state
  | Browser_change bool
  | Net_returns
  | Kb_show_registered "nat option"
  | Kb_hide_registered "nat option"
  | Kb_settled
  | Kb_will_show jsnum
  | Kb_will_hide
  | Kb_returns
  | Resume_start
  | Resume_bars_done
  | Resume_status "network_state option"
  | Resume_end
  | Unmounted

fun bridge_step :: "bridge \<Rightarrow> bridge_event \<Rightarrow> bridge" where
  "bridge_step b (Rendered l) = (if nb_active b then b\<lparr>nb_latest := l\<rparr> else b)"
| "bridge_step b (App_handle r) = app_handle r b"
| "bridge_step b (App_state isActive) = appStateChange isActive b"
| "bridge_step b (Back_button c) = back_button c b"
| "bridge_step b (Net_listener r) = net_listener_added r b"
| "bridge_step b (Net_initial r) = net_initial r b"
| "bridge_step b (Net_change st) = net_change st b"
| "bridge_step b (Browser_change l) = browser_change l b"
| "bridge_step b Net_returns = net_adopt b"
| "bridge_step b (Kb_show_registered r) = kb_show_registered r b"
| "bridge_step b (Kb_hide_registered r) = kb_hide_registered r b"
| "bridge_step b Kb_settled = kb_settled b"
| "bridge_step b (Kb_will_show h) = keyboardWillShow h b"
| "bridge_step b Kb_will_hide = keyboardWillHide b"
| "bridge_step b Kb_returns = kb_adopt b"
| "bridge_step b Resume_start = resume_start b"
| "bridge_step b Resume_bars_done = resume_bars_done b"
| "bridge_step b (Resume_status r) = resume_status r b"
| "bridge_step b Resume_end = resume_end b"
| "bridge_step b Unmounted = unmount b"

section \<open>Invariants\<close>

text \<open>The handles the plugins gave out and the handles given back to them.\<close>

definition obtained :: "native_effect list \<Rightarrow> nat list" where
  "obtained es = concat (map (\<lambda>e. case e of Got_handle h \<Rightarrow> [h] | _ \<Rightarrow> []) es)"

definition given_back :: "native_effect list \<Rightarrow> nat list" where
  "given_back es = concat (map (\<lambda>e. case e of Removed_handle h \<Rightarrow> [h] | _ \<Rightarrow> []) es)"

lemma handle_logs [simp]:
  "obtained (xs @ ys) = obtained xs @ obtained ys" "given_back (xs @ ys) = given_back xs @ given_back ys"
  "obtained [] = []" "given_back [] = []"
  "obtained (e # xs) = (case e of Got_handle h \<Rightarrow> [h] | _ \<Rightarrow> []) @ obtained xs"
  "given_back (e # xs) = (case e of Removed_handle h \<Rightarrow> [h] | _ \<Rightarrow> []) @ given_back xs"
  by (simp_all add: obtained_def given_back_def)

lemma handle_logs_removed [simp]:
  "obtained (map Removed_handle hs) = []" "given_back (map Removed_handle hs) = hs"
  by (induction hs) simp_all

text \<open>No handle is lost: each obtained one is held or was given back, once.\<close>

definition handles_inv :: "bridge \<Rightarrow> bool" where
  "handles_inv b \<longleftrightarrow>
     mset (obtained (nb_log b)) = mset (nb_appHandles b) + mset (ns_handles (nb_net b)) + mset (ks_handles (nb_kb b)) + mset (given_back (nb_log b))
     \<and> (ns_active (nb_net b) \<or> ns_handles (nb_net b) = []) \<and> (ks_active (nb_kb b) \<or> ks_handles (nb_kb b) = [])
     \<and> (nb_active b \<or> nb_appHandles b = [])"

text \<open>What an unmounted bridge leaves behind.\<close>

definition quiet_inv :: "bridge \<Rightarrow> bool" where
  "quiet_inv b \<longleftrightarrow>
     (nb_active b \<or> (\<not> ns_active (nb_net b) \<and> \<not> ks_active (nb_kb b) \<and> na_keyboard (nb_app b) = None \<and> nb_focused b = None
        \<and> nb_controller b = None \<and> (nb_markers b = None \<or> \<not> ks_adopted (nb_kb b))))
     \<and> (\<not> nb_active b \<or> \<not> ks_cleaned (nb_kb b) \<and> \<not> ns_cleaned (nb_net b))
     \<and> (ks_adopted (nb_kb b) \<or> \<not> ks_cleaned (nb_kb b))
     \<and> (nb_android b \<or> \<not> ks_active (nb_kb b) \<and> nb_markers b = None)"

text \<open>The signal of a resume is aborted exactly when its generation is outdated.\<close>

definition pending_resumes :: "bridge \<Rightarrow> (nat \<times> nat) list" where
  "pending_resumes b = (case nb_running b of None \<Rightarrow> [] | Some (g, c, p) \<Rightarrow> [(g, c)]) @ nb_waiting b"

definition resume_ok :: "(nat \<times> nat) list \<Rightarrow> nat list \<Rightarrow> nat option \<Rightarrow> nat \<Rightarrow> nat \<Rightarrow> bool" where
  "resume_ok ps aborted controller generation n \<longleftrightarrow>
     list_all (\<lambda>(g, c). (c \<in> set aborted \<longleftrightarrow> controller \<noteq> Some c) \<and> (g = generation \<longleftrightarrow> controller = Some c)
        \<and> c < n \<and> g \<le> generation) ps
     \<and> list_all (\<lambda>c. c < n) aborted
     \<and> (case controller of None \<Rightarrow> True | Some c \<Rightarrow> c < n \<and> c \<notin> set aborted)"

definition resume_inv :: "bridge \<Rightarrow> bool" where
  "resume_inv b \<longleftrightarrow> resume_ok (pending_resumes b) (nb_aborted b) (nb_controller b) (nb_generation b) (nb_controllers b)"

lemma resume_ok_drop: "resume_ok (p # ps) ab ct g n \<Longrightarrow> resume_ok ps ab ct g n"
  by (simp add: resume_ok_def)

lemma resume_ok_append_drop: "resume_ok (qs @ ps) ab ct g n \<Longrightarrow> resume_ok ps ab ct g n"
  by (simp add: resume_ok_def)

lemma resume_ok_abort:
  assumes "resume_ok ps ab ct g n"
  shows "resume_ok ps (case ct of None \<Rightarrow> ab | Some c \<Rightarrow> c # ab) None (Suc g) n"
  using assms by (cases ct) (auto simp: resume_ok_def list_all_iff)

lemma resume_ok_queue:
  assumes "resume_ok ps ab ct g n"
  shows "resume_ok (ps @ [(Suc g, n)]) (case ct of None \<Rightarrow> ab | Some c \<Rightarrow> c # ab) (Some n) (Suc g) (Suc n)"
  using assms by (cases ct) (fastforce simp: resume_ok_def list_all_iff)+

lemmas bridge_defs = emit_def publish_def publishNetworkState_def publishNativeKeyboardState_def setNetworkState_def
  invalidateEligibleActiveQueries_def acceptNetworkState_def net_publish_def net_deactivate_def net_cleanup_def
  net_listener_added_def net_initial_def net_change_def browser_change_def net_adopt_def clearKeyboardMarkers_def
  resetNativeKeyboardState_def kb_listener_def publishKeyboardState_def kb_deactivate_def kb_cleanup_def kb_adoptHandle_def
  kb_show_registered_def kb_hide_registered_def kb_settled_def keyboardWillShow_def keyboardWillHide_def kb_adopt_def
  abort_controller_def setFocused_def queueResume_def appStateChange_def resume_start_def resume_bars_done_def
  resume_status_def resume_end_def app_handle_def back_button_def unmount_def Let_def

text \<open>Which operations touch what.\<close>

definition resume_part ::
  "bridge \<Rightarrow> (nat \<times> nat \<times> resume_phase) option \<times> (nat \<times> nat) list \<times> nat list \<times> nat option \<times> nat \<times> nat" where
  "resume_part b = (nb_running b, nb_waiting b, nb_aborted b, nb_controller b, nb_generation b, nb_controllers b)"

lemma resume_inv_part: "resume_part b' = resume_part b \<Longrightarrow> resume_inv b' = resume_inv b"
  by (simp add: resume_part_def pending_resumes_def resume_inv_def)

lemma resume_part_frame [simp]:
  "resume_part (emit es b) = resume_part b" "resume_part (publish n b) = resume_part b"
  "resume_part (publishNetworkState st b) = resume_part b" "resume_part (publishNativeKeyboardState k b) = resume_part b"
  "resume_part (setFocused f b) = resume_part b" "resume_part (invalidateEligibleActiveQueries b) = resume_part b"
  "resume_part (acceptNetworkState st b) = resume_part b" "resume_part (net_publish st b) = resume_part b"
  "resume_part (net_deactivate b) = resume_part b" "resume_part (net_cleanup b) = resume_part b"
  "resume_part (clearKeyboardMarkers b) = resume_part b" "resume_part (resetNativeKeyboardState b) = resume_part b"
  "resume_part (kb_listener s b) = resume_part b" "resume_part (publishKeyboardState s b) = resume_part b"
  "resume_part (kb_deactivate b) = resume_part b" "resume_part (kb_cleanup b) = resume_part b"
  "resume_part (kb_adoptHandle r b) = resume_part b"
  by (simp_all add: bridge_defs resume_part_def pending_resumes_def split: option.splits)

lemma resume_part_fields [simp]:
  "resume_part (b\<lparr>nb_app := a\<rparr>) = resume_part b" "resume_part (b\<lparr>nb_markers := m\<rparr>) = resume_part b"
  "resume_part (b\<lparr>nb_online := q\<rparr>) = resume_part b" "resume_part (b\<lparr>nb_latest := l\<rparr>) = resume_part b"
  "resume_part (b\<lparr>nb_connected := q\<rparr>) = resume_part b" "resume_part (b\<lparr>nb_appPending := n\<rparr>) = resume_part b"
  "resume_part (b\<lparr>nb_appHandles := hs\<rparr>) = resume_part b" "resume_part (b\<lparr>nb_net := s\<rparr>) = resume_part b"
  "resume_part (b\<lparr>nb_kb := k\<rparr>) = resume_part b" "resume_part (b\<lparr>nb_active := q\<rparr>) = resume_part b"
  by (simp_all add: resume_part_def pending_resumes_def)

lemma resume_part_steps [simp]:
  "resume_part (app_handle r b) = resume_part b" "resume_part (back_button g b) = resume_part b"
  "resume_part (net_listener_added r b) = resume_part b" "resume_part (net_initial st b) = resume_part b"
  "resume_part (net_change n b) = resume_part b" "resume_part (browser_change q b) = resume_part b"
  "resume_part (net_adopt b) = resume_part b" "resume_part (kb_show_registered r b) = resume_part b"
  "resume_part (kb_hide_registered r b) = resume_part b" "resume_part (kb_settled b) = resume_part b"
  "resume_part (keyboardWillShow h b) = resume_part b" "resume_part (keyboardWillHide b) = resume_part b"
  "resume_part (kb_adopt b) = resume_part b"
  by (simp_all add: app_handle_def back_button_def net_listener_added_def net_initial_def net_change_def browser_change_def
      net_adopt_def kb_show_registered_def kb_hide_registered_def kb_settled_def keyboardWillShow_def keyboardWillHide_def
      kb_adopt_def Let_def split: option.splits nat.splits)

lemma resume_inv_start: "resume_inv b \<Longrightarrow> resume_inv (resume_start b)"
  by (auto simp: resume_inv_def pending_resumes_def resume_start_def emit_def Let_def intro: resume_ok_drop split: option.splits list.splits)

lemma resume_part_drop: "resume_inv b \<Longrightarrow> resume_inv (b\<lparr>nb_running := None\<rparr>)"
  by (auto simp: resume_inv_def pending_resumes_def intro: resume_ok_drop split: option.splits)

lemma resume_part_running: "resume_part b' = resume_part b \<Longrightarrow> nb_running b' = nb_running b"
  by (simp add: resume_part_def)

lemma resume_inv_phase: "nb_running b = Some (g, c, p) \<Longrightarrow> resume_inv (b\<lparr>nb_running := Some (g, c, p')\<rparr>) = resume_inv b"
  by (simp add: resume_inv_def pending_resumes_def)

lemma resume_inv_frame:
  "resume_part b' = resume_part b \<Longrightarrow> nb_running b = Some (g, c, p) \<Longrightarrow>
    resume_inv (b'\<lparr>nb_running := Some (g, c, p')\<rparr>) = resume_inv b"
  using resume_inv_phase [of b' g c p p'] resume_part_running [of b' b] resume_inv_part [of b' b] by simp

lemma resume_inv_bars: "resume_inv b \<Longrightarrow> resume_inv (resume_bars_done b)"
  by (simp add: resume_bars_done_def resume_part_drop Let_def resume_inv_frame [where b = b] split: option.splits prod.splits resume_phase.splits)

lemma resume_inv_status: "resume_inv b \<Longrightarrow> resume_inv (resume_status r b)"
  by (simp add: resume_status_def setNetworkState_def Let_def resume_inv_frame [where b = b]
      split: option.splits prod.splits resume_phase.splits)

lemma resume_inv_end: "resume_inv b \<Longrightarrow> resume_inv (resume_end b)"
proof -
  assume "resume_inv b"
  then have d: "resume_inv (b\<lparr>nb_running := None\<rparr>)" by (rule resume_part_drop)
  have "resume_inv (acceptNetworkState n (b\<lparr>nb_running := None\<rparr>))" for n
    by (rule resume_inv_part [THEN iffD2, OF _ d]) simp
  with d \<open>resume_inv b\<close> show ?thesis
    by (simp add: resume_end_def Let_def split: option.split prod.split resume_phase.split)
qed

lemma resume_inv_aborted:
  assumes "resume_inv b"
  shows "resume_inv ((abort_controller b)\<lparr>nb_controller := None, nb_generation := Suc (nb_generation b)\<rparr>)"
  using resume_ok_abort [OF assms [unfolded resume_inv_def]]
  by (cases "nb_controller b") (simp_all add: resume_inv_def pending_resumes_def abort_controller_def)

lemma resume_inv_app_state: "resume_inv b \<Longrightarrow> resume_inv (appStateChange isActive b)"
proof -
  assume i: "resume_inv b"
  have "resume_inv (setFocused (Some False) ((abort_controller b)\<lparr>nb_controller := None, nb_generation := Suc (nb_generation b)\<rparr>))"
    by (rule resume_inv_part [THEN iffD2, OF _ resume_inv_aborted [OF i]]) simp
  moreover have "resume_inv (queueResume b)"
    using resume_ok_queue [OF i [unfolded resume_inv_def]]
    by (cases "nb_controller b")
       (simp_all add: resume_inv_def pending_resumes_def queueResume_def abort_controller_def setFocused_def emit_def Let_def)
  ultimately show ?thesis using i by (simp add: appStateChange_def)
qed

lemma resume_inv_unmount: "resume_inv b \<Longrightarrow> resume_inv (unmount b)"
proof (cases "nb_active b")
  case True
  assume i: "resume_inv b"
  define b1 where "b1 = kb_deactivate (net_deactivate b)"
  define b2 where "b2 = (abort_controller b1)\<lparr>nb_controller := None, nb_generation := Suc (nb_generation b1)\<rparr>"
  have "resume_inv b1" by (rule resume_inv_part [THEN iffD2, OF _ i]) (simp add: b1_def)
  then have a: "resume_inv b2" unfolding b2_def by (rule resume_inv_aborted)
  have "resume_part (unmount b) = resume_part (b2\<lparr>nb_active := False\<rparr>)"
    using True by (simp add: unmount_def Let_def b2_def b1_def) (simp add: resume_part_def)
  also have "\<dots> = resume_part b2" by simp
  finally show ?thesis using a resume_inv_part by blast
qed (simp add: unmount_def)

lemma resume_inv_kept: "resume_inv b \<Longrightarrow> resume_part b' = resume_part b \<Longrightarrow> resume_inv b'"
  using resume_inv_part [of b' b] by simp

lemma resume_inv_step: "resume_inv b \<Longrightarrow> resume_inv (bridge_step b e)"
  by (cases e)
     (simp_all add: resume_inv_start resume_inv_bars resume_inv_status resume_inv_end resume_inv_app_state resume_inv_unmount,
      simp_all add: resume_inv_kept [where b = b])

section \<open>Handles and the unmounted bridge\<close>

lemma handles_kb: "handles_inv b \<Longrightarrow> handles_inv (kb_deactivate b)" "handles_inv b \<Longrightarrow> handles_inv (kb_cleanup b)"
  by (auto simp: handles_inv_def bridge_defs)

lemma handles_net: "handles_inv b \<Longrightarrow> handles_inv (net_deactivate b)" "handles_inv b \<Longrightarrow> handles_inv (net_cleanup b)"
  by (auto simp: handles_inv_def bridge_defs)

lemma handles_frame [simp]:
  "handles_inv (publish n b) = handles_inv b" "handles_inv (setFocused f b) = handles_inv b"
  "handles_inv (publishNetworkState st b) = handles_inv b" "handles_inv (publishNativeKeyboardState k b) = handles_inv b"
  "handles_inv (acceptNetworkState st b) = handles_inv b" "handles_inv (net_publish st b) = handles_inv b"
  "handles_inv (clearKeyboardMarkers b) = handles_inv b" "handles_inv (resetNativeKeyboardState b) = handles_inv b"
  "handles_inv (kb_listener s b) = handles_inv b" "handles_inv (publishKeyboardState s b) = handles_inv b"
  "handles_inv (abort_controller b) = handles_inv b" "handles_inv (queueResume b) = handles_inv b"
  "handles_inv (appStateChange q b) = handles_inv b" "handles_inv (back_button c b) = handles_inv b"
  "handles_inv (net_change st b) = handles_inv b" "handles_inv (browser_change q b) = handles_inv b"
  "handles_inv (keyboardWillShow h b) = handles_inv b" "handles_inv (keyboardWillHide b) = handles_inv b"
  "handles_inv (resume_start b) = handles_inv b" "handles_inv (resume_bars_done b) = handles_inv b"
  "handles_inv (resume_status r b) = handles_inv b" "handles_inv (resume_end b) = handles_inv b"
  by (simp_all add: handles_inv_def bridge_defs split: option.splits prod.splits resume_phase.splits list.splits)

lemma handles_fields [simp]:
  "handles_inv (b\<lparr>nb_latest := l\<rparr>) = handles_inv b" "handles_inv (b\<lparr>nb_controller := x\<rparr>) = handles_inv b"
  "handles_inv (b\<lparr>nb_generation := g\<rparr>) = handles_inv b" "handles_inv (b\<lparr>nb_appPending := n\<rparr>) = handles_inv b"
  by (simp_all add: handles_inv_def)

lemma handles_answers:
  "handles_inv b \<Longrightarrow> handles_inv (app_handle r b)" "handles_inv b \<Longrightarrow> handles_inv (net_listener_added r b)"
  "handles_inv b \<Longrightarrow> handles_inv (kb_show_registered r b)" "handles_inv b \<Longrightarrow> handles_inv (kb_hide_registered r b)"
  by (auto simp: handles_inv_def app_handle_def net_listener_added_def kb_show_registered_def kb_hide_registered_def
      kb_adoptHandle_def emit_def Let_def split: option.splits nat.splits)

lemma handles_net_phase: "handles_inv b \<Longrightarrow> handles_inv (b\<lparr>nb_net := (nb_net b)\<lparr>ns_phase := p\<rparr>\<rparr>)"
  "handles_inv b \<Longrightarrow> handles_inv (b\<lparr>nb_net := (nb_net b)\<lparr>ns_adopted := q\<rparr>\<rparr>)"
  "handles_inv b \<Longrightarrow> handles_inv (b\<lparr>nb_kb := (nb_kb b)\<lparr>ks_returned := q\<rparr>\<rparr>)"
  "handles_inv b \<Longrightarrow> handles_inv (b\<lparr>nb_kb := (nb_kb b)\<lparr>ks_adopted := q\<rparr>\<rparr>)"
  by (simp_all add: handles_inv_def)

lemma handles_returns:
  "handles_inv b \<Longrightarrow> handles_inv (net_initial st b)" "handles_inv b \<Longrightarrow> handles_inv (net_adopt b)"
  "handles_inv b \<Longrightarrow> handles_inv (kb_settled b)" "handles_inv b \<Longrightarrow> handles_inv (kb_adopt b)"
  by (simp_all add: net_initial_def net_adopt_def kb_settled_def kb_adopt_def Let_def handles_net_phase handles_net handles_kb
      split: option.split)

lemma handles_unmount: "handles_inv b \<Longrightarrow> handles_inv (unmount b)"
proof (cases "nb_active b")
  case True
  assume i: "handles_inv b"
  define b1 where "b1 = abort_controller (kb_deactivate (net_deactivate b))"
  define b2 where "b2 = setFocused None (publishNativeKeyboardState None
     (b1\<lparr>nb_controller := None, nb_active := False, nb_generation := Suc (nb_generation (kb_deactivate (net_deactivate b)))\<rparr>))"
  define b3 where "b3 = (emit (map Removed_handle (nb_appHandles b2)) b2)\<lparr>nb_appHandles := []\<rparr>"
  have "handles_inv b1" using i by (simp add: b1_def handles_kb handles_net)
  then have "handles_inv b3"
    by (auto simp: handles_inv_def b3_def b2_def setFocused_def publishNativeKeyboardState_def publish_def emit_def)
  then show ?thesis using True
    by (simp add: unmount_def Let_def b3_def b2_def b1_def handles_net handles_kb)
qed (simp add: unmount_def)

lemma handles_step: "handles_inv b \<Longrightarrow> handles_inv (bridge_step b e)"
  by (cases e) (simp_all add: handles_answers handles_returns handles_unmount)

lemma frame_emit [simp]:
  "nb_active (emit es b) = nb_active b" "nb_android (emit es b) = nb_android b" "nb_net (emit es b) = nb_net b"
  "nb_kb (emit es b) = nb_kb b" "nb_markers (emit es b) = nb_markers b" "nb_focused (emit es b) = nb_focused b"
  "nb_controller (emit es b) = nb_controller b" "nb_online (emit es b) = nb_online b" "nb_app (emit es b) = nb_app b"
  "nb_running (emit es b) = nb_running b" "nb_waiting (emit es b) = nb_waiting b" "nb_aborted (emit es b) = nb_aborted b"
  by (simp_all add: emit_def)

lemma frame_publish [simp]:
  "nb_active (publish n b) = nb_active b" "nb_android (publish n b) = nb_android b" "nb_net (publish n b) = nb_net b"
  "nb_kb (publish n b) = nb_kb b" "nb_markers (publish n b) = nb_markers b" "nb_focused (publish n b) = nb_focused b"
  "nb_controller (publish n b) = nb_controller b" "nb_online (publish n b) = nb_online b"
  by (simp_all add: publish_def)

lemma frame_publish_keyboard [simp]:
  "nb_active (publishNativeKeyboardState k b) = nb_active b" "nb_android (publishNativeKeyboardState k b) = nb_android b"
  "nb_net (publishNativeKeyboardState k b) = nb_net b" "nb_kb (publishNativeKeyboardState k b) = nb_kb b"
  "nb_markers (publishNativeKeyboardState k b) = nb_markers b" "nb_focused (publishNativeKeyboardState k b) = nb_focused b"
  "nb_controller (publishNativeKeyboardState k b) = nb_controller b" "nb_online (publishNativeKeyboardState k b) = nb_online b"
  by (simp_all add: publishNativeKeyboardState_def)

lemma keyboard_gone [simp]: "na_keyboard (nb_app (publishNativeKeyboardState None b)) = None"
  by (simp add: publishNativeKeyboardState_def publish_def sameKeyboard_def split: option.splits)

lemma frame_accept [simp]:
  "nb_active (acceptNetworkState n b) = nb_active b" "nb_android (acceptNetworkState n b) = nb_android b"
  "nb_net (acceptNetworkState n b) = nb_net b" "nb_kb (acceptNetworkState n b) = nb_kb b"
  "nb_markers (acceptNetworkState n b) = nb_markers b" "nb_focused (acceptNetworkState n b) = nb_focused b"
  "nb_controller (acceptNetworkState n b) = nb_controller b" "nb_online (acceptNetworkState n b) = nb_online b"
  by (simp_all add: acceptNetworkState_def invalidateEligibleActiveQueries_def publishNetworkState_def Let_def)

lemma frame_net_publish [simp]:
  "nb_active (net_publish n b) = nb_active b" "nb_android (net_publish n b) = nb_android b" "nb_net (net_publish n b) = nb_net b"
  "nb_kb (net_publish n b) = nb_kb b" "nb_markers (net_publish n b) = nb_markers b" "nb_focused (net_publish n b) = nb_focused b"
  "nb_controller (net_publish n b) = nb_controller b"
  by (simp_all add: net_publish_def setNetworkState_def Let_def)

lemma frame_net_off [simp]:
  "nb_active (net_deactivate b) = nb_active b" "nb_android (net_deactivate b) = nb_android b" "nb_kb (net_deactivate b) = nb_kb b"
  "nb_markers (net_deactivate b) = nb_markers b" "nb_focused (net_deactivate b) = nb_focused b"
  "nb_controller (net_deactivate b) = nb_controller b" "nb_online (net_deactivate b) = nb_online b" "nb_app (net_deactivate b) = nb_app b"
  "\<not> ns_active (nb_net (net_deactivate b))" "ns_cleaned (nb_net (net_deactivate b)) = ns_cleaned (nb_net b)"
  "ns_adopted (nb_net (net_deactivate b)) = ns_adopted (nb_net b)"
  by (simp_all add: net_deactivate_def Let_def)

lemma frame_net_cleanup [simp]:
  "nb_active (net_cleanup b) = nb_active b" "nb_android (net_cleanup b) = nb_android b" "nb_kb (net_cleanup b) = nb_kb b"
  "nb_markers (net_cleanup b) = nb_markers b" "nb_focused (net_cleanup b) = nb_focused b"
  "nb_controller (net_cleanup b) = nb_controller b" "nb_online (net_cleanup b) = nb_online b" "nb_app (net_cleanup b) = nb_app b"
  "\<not> ns_active (nb_net b) \<Longrightarrow> \<not> ns_active (nb_net (net_cleanup b))"
  by (simp_all add: net_cleanup_def)

lemma frame_kb_off [simp]:
  "nb_active (kb_deactivate b) = nb_active b" "nb_android (kb_deactivate b) = nb_android b" "nb_net (kb_deactivate b) = nb_net b"
  "nb_focused (kb_deactivate b) = nb_focused b" "nb_controller (kb_deactivate b) = nb_controller b"
  "nb_online (kb_deactivate b) = nb_online b" "nb_app (kb_deactivate b) = nb_app b"
  "\<not> ks_active (nb_kb (kb_deactivate b))" "ks_cleaned (nb_kb (kb_deactivate b)) = ks_cleaned (nb_kb b)"
  "ks_adopted (nb_kb (kb_deactivate b)) = ks_adopted (nb_kb b)"
  "nb_markers (kb_deactivate b) = (if ks_active (nb_kb b) then None else nb_markers b)"
  by (simp_all add: kb_deactivate_def clearKeyboardMarkers_def Let_def)

lemma frame_kb_cleanup [simp]:
  "nb_active (kb_cleanup b) = nb_active b" "nb_android (kb_cleanup b) = nb_android b" "nb_net (kb_cleanup b) = nb_net b"
  "nb_focused (kb_cleanup b) = nb_focused b" "nb_controller (kb_cleanup b) = nb_controller b"
  "nb_online (kb_cleanup b) = nb_online b" "nb_app (kb_cleanup b) = nb_app b"
  "\<not> ks_active (nb_kb b) \<Longrightarrow> \<not> ks_active (nb_kb (kb_cleanup b))" "ks_adopted (nb_kb (kb_cleanup b)) = ks_adopted (nb_kb b)"
  "nb_markers (kb_cleanup b) = (if nb_android b \<and> \<not> ks_cleaned (nb_kb b) then None else nb_markers b)"
  by (simp_all add: kb_cleanup_def clearKeyboardMarkers_def)

lemma frame_abort [simp]:
  "nb_active (abort_controller b) = nb_active b" "nb_android (abort_controller b) = nb_android b"
  "nb_net (abort_controller b) = nb_net b" "nb_kb (abort_controller b) = nb_kb b" "nb_markers (abort_controller b) = nb_markers b"
  "nb_app (abort_controller b) = nb_app b" "nb_online (abort_controller b) = nb_online b"
  by (simp_all add: abort_controller_def split: option.split)

lemma frame_focus [simp]:
  "nb_active (setFocused f b) = nb_active b" "nb_android (setFocused f b) = nb_android b" "nb_net (setFocused f b) = nb_net b"
  "nb_kb (setFocused f b) = nb_kb b" "nb_markers (setFocused f b) = nb_markers b" "nb_focused (setFocused f b) = f"
  "nb_controller (setFocused f b) = nb_controller b" "nb_online (setFocused f b) = nb_online b" "nb_app (setFocused f b) = nb_app b"
  by (simp_all add: setFocused_def)

lemma quiet_unmount: "quiet_inv b \<Longrightarrow> quiet_inv (unmount b)"
  by (cases "nb_active b"; cases "ks_adopted (nb_kb b)"; cases "nb_android b"; cases "ks_active (nb_kb b)")
     (simp_all add: quiet_inv_def unmount_def Let_def)

lemma frame_kb_listener [simp]:
  "nb_active (kb_listener s b) = nb_active b" "nb_android (kb_listener s b) = nb_android b" "nb_net (kb_listener s b) = nb_net b"
  "nb_kb (kb_listener s b) = nb_kb b" "nb_markers (kb_listener s b) = nb_markers b" "nb_focused (kb_listener s b) = nb_focused b"
  "nb_controller (kb_listener s b) = nb_controller b" "nb_online (kb_listener s b) = nb_online b"
  by (simp_all add: kb_listener_def)

lemma frame_reset [simp]:
  "nb_active (resetNativeKeyboardState b) = nb_active b" "nb_android (resetNativeKeyboardState b) = nb_android b"
  "nb_net (resetNativeKeyboardState b) = nb_net b" "nb_kb (resetNativeKeyboardState b) = nb_kb b"
  "nb_focused (resetNativeKeyboardState b) = nb_focused b" "nb_controller (resetNativeKeyboardState b) = nb_controller b"
  "nb_online (resetNativeKeyboardState b) = nb_online b" "nb_app (resetNativeKeyboardState b) = nb_app b"
  "\<not> nb_android b \<Longrightarrow> nb_markers (resetNativeKeyboardState b) = None"
  by (simp_all add: resetNativeKeyboardState_def clearKeyboardMarkers_def)

lemma inactive_listener [simp]: "\<not> nb_active b \<Longrightarrow> kb_listener s b = b" "\<not> nb_active b \<Longrightarrow> acceptNetworkState n b = b"
  by (simp_all add: kb_listener_def acceptNetworkState_def)

lemma quiet_net:
  assumes "quiet_inv b"
  shows "quiet_inv (net_listener_added r b)" "quiet_inv (net_initial st b)" "quiet_inv (net_change n b)"
    "quiet_inv (browser_change q b)" "quiet_inv (net_adopt b)"
  using assms
  by (auto simp: quiet_inv_def net_listener_added_def net_initial_def net_change_def browser_change_def net_adopt_def Let_def
      split: option.splits)

lemma quiet_kb:
  assumes "quiet_inv b"
  shows "quiet_inv (kb_show_registered r b)" "quiet_inv (kb_hide_registered r b)" "quiet_inv (keyboardWillShow h b)"
    "quiet_inv (keyboardWillHide b)"
  using assms
  by (auto simp: quiet_inv_def kb_show_registered_def kb_hide_registered_def kb_adoptHandle_def keyboardWillShow_def
      keyboardWillHide_def publishKeyboardState_def split: option.splits)

lemma quiet_kb_settled: "quiet_inv b \<Longrightarrow> quiet_inv (kb_settled b)"
  by (auto simp: quiet_inv_def kb_settled_def clearKeyboardMarkers_def Let_def)

lemma quiet_kb_adopt: "quiet_inv b \<Longrightarrow> quiet_inv (kb_adopt b)"
  by (auto simp: quiet_inv_def kb_adopt_def Let_def)

lemma quiet_app:
  assumes "quiet_inv b"
  shows "quiet_inv (app_handle r b)" "quiet_inv (back_button g b)" "quiet_inv (appStateChange q b)"
  using assms
  by (auto simp: quiet_inv_def app_handle_def back_button_def appStateChange_def queueResume_def Let_def split: option.splits nat.splits)

lemma quiet_resume:
  assumes "quiet_inv b"
  shows "quiet_inv (resume_start b)" "quiet_inv (resume_bars_done b)" "quiet_inv (resume_status st b)" "quiet_inv (resume_end b)"
  using assms
  by (auto simp: quiet_inv_def resume_start_def resume_bars_done_def resume_status_def resume_end_def setNetworkState_def stale_def Let_def
      split: option.splits list.splits prod.splits resume_phase.splits)

lemma quiet_step: "quiet_inv b \<Longrightarrow> quiet_inv (bridge_step b e)"
  by (cases e) (simp_all add: quiet_net quiet_kb quiet_kb_settled quiet_kb_adopt quiet_app quiet_resume quiet_unmount,
      simp add: quiet_inv_def)

definition bridge_inv :: "bridge \<Rightarrow> bool" where
  "bridge_inv b \<longleftrightarrow> handles_inv b \<and> quiet_inv b \<and> resume_inv b"

interpretation native_bridge: machine bridge_step bridge_inv
  by unfold_locales (simp add: bridge_inv_def handles_step quiet_step resume_inv_step)

lemma resume_inv_frames [simp]:
  "resume_inv (publishNativeKeyboardState k b) = resume_inv b" "resume_inv (net_publish n b) = resume_inv b"
  by (rule resume_inv_part; simp)+

lemma mount_inv: "bridge_inv (mount android onLine app online latest)"
proof -
  have "handles_inv (mount android onLine app online latest)" by (simp add: mount_def Let_def) (simp add: handles_inv_def)
  moreover have "quiet_inv (mount android onLine app online latest)" by (simp add: mount_def Let_def quiet_inv_def)
  moreover have "resume_inv (mount android onLine app online latest)"
    by (simp add: mount_def Let_def) (simp add: resume_inv_def resume_ok_def pending_resumes_def)
  ultimately show ?thesis by (simp add: bridge_inv_def)
qed

lemmas bridge_reachable = native_bridge.inv_run [OF mount_inv]

section \<open>Properties\<close>

text \<open>What stays as it is once the bridge is unmounted.\<close>

definition seen :: "bridge \<Rightarrow> bool \<times> native_app_state \<times> bool \<times> bool option" where
  "seen b = (nb_active b, nb_app b, nb_online b, nb_focused b)"

lemma stale_when_unmounted: "\<not> nb_active b \<Longrightarrow> stale g c b"
  by (simp add: stale_def)

lemma aborted_when_unmounted:
  assumes "bridge_inv b" "\<not> nb_active b" "nb_running b = Some (g, c, p)"
  shows "c \<in> set (nb_aborted b)"
  using assms by (simp add: bridge_inv_def quiet_inv_def resume_inv_def resume_ok_def pending_resumes_def)

lemma unmounted_frozen:
  assumes i: "bridge_inv b" and a: "\<not> nb_active b"
  shows "seen (bridge_step b e) = seen b"
proof -
  have off: "\<not> ns_active (nb_net b)" "\<not> ks_active (nb_kb b)" using i a by (simp_all add: bridge_inv_def quiet_inv_def)
  show ?thesis
  proof (cases e)
    case (Resume_status r)
    have "nb_running b = Some (g, c, p) \<Longrightarrow> c \<in> set (nb_aborted b)" for g c p using aborted_when_unmounted [OF i a] .
    with Resume_status show ?thesis
      by (auto simp: seen_def resume_status_def split: option.split prod.split resume_phase.split)
  qed (use a off in \<open>auto simp: seen_def app_handle_def appStateChange_def back_button_def net_listener_added_def net_initial_def
      net_change_def browser_change_def net_adopt_def kb_show_registered_def kb_hide_registered_def kb_adoptHandle_def kb_settled_def
      clearKeyboardMarkers_def keyboardWillShow_def keyboardWillHide_def kb_adopt_def resume_start_def resume_bars_done_def
      resume_end_def stale_def unmount_def Let_def
      split: option.split nat.split list.split prod.split resume_phase.split\<close>)
qed

lemma unmounted_run:
  assumes "bridge_inv b" "\<not> nb_active b"
  shows "seen (foldl bridge_step b es) = seen b"
  using assms
proof (induction es arbitrary: b)
  case (Cons e es)
  have "seen (bridge_step b e) = seen b" by (rule unmounted_frozen [OF Cons.prems])
  with Cons.IH [OF native_bridge.inv_step [OF Cons.prems(1)]] Cons.prems(2) show ?case by (simp add: seen_def)
qed simp

lemma unmounted_handles: "bridge_inv b \<Longrightarrow> \<not> nb_active b \<Longrightarrow> mset (obtained (nb_log b)) = mset (given_back (nb_log b))"
  by (auto simp: bridge_inv_def handles_inv_def quiet_inv_def)

lemma unmounted_keyboard: "bridge_inv b \<Longrightarrow> \<not> nb_active b \<Longrightarrow> na_keyboard (nb_app b) = None \<and> nb_focused b = None"
  by (auto simp: bridge_inv_def quiet_inv_def)

lemma unmount_inactive [simp]: "\<not> nb_active (unmount b)"
  by (simp add: unmount_def Let_def)

text \<open>C15. Leaving the bridge leaves nothing behind, whatever is still under way: after an unmount at any moment, and
  after any later replies, resumes, network and keyboard events, the published keyboard state is none, the focus is
  handed back to the browser, the published network state and the online flag are as they were, and every handle
  that a plugin ever gave out, also the late ones, was given back exactly once.\<close>

theorem unmounted_bridge_silent:
  "let b = foldl bridge_step (mount android onLine app online latest) before;
       b' = foldl bridge_step (unmount b) after
   in na_keyboard (nb_app b') = None \<and> nb_focused b' = None \<and>
      nb_app b' = nb_app (unmount b) \<and> nb_online b' = nb_online b \<and>
      mset (obtained (nb_log b')) = mset (given_back (nb_log b'))"
proof -
  let ?b = "foldl bridge_step (mount android onLine app online latest) before"
  have i: "bridge_inv (unmount ?b)" using native_bridge.inv_step [OF bridge_reachable, of _ _ _ _ _ _ Unmounted] by simp
  let ?b' = "foldl bridge_step (unmount ?b) after"
  have i': "bridge_inv ?b'" by (rule native_bridge.inv_run [OF i])
  have s: "seen ?b' = seen (unmount ?b)" by (rule unmounted_run [OF i]) simp
  then have off: "\<not> nb_active ?b'" by (simp add: seen_def)
  have "nb_online (unmount ?b) = nb_online ?b" by (simp add: unmount_def Let_def)
  with s show ?thesis
    using unmounted_handles [OF i' off] unmounted_keyboard [OF i' off] by (simp add: seen_def Let_def)
qed

text \<open>Only the latest resume counts: in every reachable state the signal of a resume under way is aborted exactly
  when a later change of the application's state or the unmount has outdated its generation, and then none of its
  remaining steps touches the published state, the online flag or the keyboard markers.\<close>

theorem outdated_resume_silent:
  "let b = foldl bridge_step (mount android onLine app online latest) events
   in case nb_running b of None \<Rightarrow> True
      | Some (g, c, p) \<Rightarrow> (c \<in> set (nb_aborted b) \<longleftrightarrow> g \<noteq> nb_generation b) \<and>
          (g = nb_generation b \<or>
           list_all (\<lambda>e. nb_app (bridge_step b e) = nb_app b \<and> nb_online (bridge_step b e) = nb_online b \<and>
              nb_markers (bridge_step b e) = nb_markers b)
            [Resume_bars_done, Resume_status r, Resume_end])"
proof -
  let ?b = "foldl bridge_step (mount android onLine app online latest) events"
  have i: "resume_inv ?b" using bridge_reachable unfolding bridge_inv_def by blast
  then show ?thesis
    by (auto simp: resume_inv_def resume_ok_def pending_resumes_def resume_bars_done_def resume_status_def resume_end_def stale_def Let_def
        split: option.splits prod.splits resume_phase.splits)
qed

end
