(* ===== verification/Dashboard.thy ===== *)
theory Dashboard
  imports Periods Splits DomainTypes
begin

text \<open>
  The figures of the home page: the dashboard that the demonstration computes from its transactions
  (pages/finance/dashboard-model.ts) and what the page makes of the figures it gets, the totals of the
  accounts and the days of the month (HomePage of pages/finance/home-transactions.tsx).
  Sums are rounded at every step as double precision rounds them. \<open>parse\<close> is \<open>new Date(text)\<close>,
  \<open>localeCompare\<close> the locale's comparison.
\<close>

section \<open>Numbers and times\<close>

definition num_round :: "jsnum \<Rightarrow> jsnum" where
  "num_round x = (case x of Fin r \<Rightarrow> Fin (fl64 r) | _ \<Rightarrow> x)"

definition num_add :: "jsnum \<Rightarrow> jsnum \<Rightarrow> jsnum" where
  "num_add x y = num_round (x + y)"

definition num_sub :: "jsnum \<Rightarrow> jsnum \<Rightarrow> jsnum" where
  "num_sub x y = num_round (js_sub x y)"

text \<open>The sign of a difference as a comparator reads it: NaN counts as zero.\<close>

definition num_cmp :: "jsnum \<Rightarrow> jsnum \<Rightarrow> int" where
  "num_cmp x y = (let d = num_sub x y in if js_less d (Fin 0) then - 1 else if js_less (Fin 0) d then 1 else 0)"

definition toISOString :: "int \<Rightarrow> string" where
  "toISOString t = (let d = day_of_time t; ms = t mod ms_per_day in
     iso_year (year_of_day d) @ ''-'' @ pad (Some (month_of_day d + 1)) @ ''-'' @ pad (Some (date_of_day d))
       @ ''T'' @ pad (Some (ms div 3600000)) @ '':'' @ pad (Some (ms div 60000 mod 60)) @ '':'' @ pad (Some (ms div 1000 mod 60))
       @ ''.'' @ pad_start 3 (CHR ''0'') (int_string (ms mod 1000)) @ ''Z'')"

section \<open>The model of the dashboard\<close>

definition occurredAtFor :: "(string \<Rightarrow> date) \<Rightarrow> int \<Rightarrow> transaction \<Rightarrow> int" where
  "occurredAtFor parse now t = (case parse (tx_occurredAt t) of None \<Rightarrow> now | Some x \<Rightarrow> x)"

definition isCredit :: "transaction \<Rightarrow> bool" where
  "isCredit t = (tx_direction t = Credit)"

definition periodFor :: "int \<Rightarrow> bool \<Rightarrow> string" where
  "periodFor date monthly =
     (let year = field_string (utc_year (Some date));
          month = pad_start 2 (CHR ''0'') (field_string (map_option (\<lambda>m. m + 1) (utc_month (Some date))))
      in if monthly then year @ ''-'' @ month
         else year @ ''-'' @ month @ ''-'' @ pad_start 2 (CHR ''0'') (field_string (utc_date (Some date))))"

definition new_point :: "string \<Rightarrow> transaction \<Rightarrow> cashflow_point" where
  "new_point period t = \<lparr>cp_period = period, cp_incomeMinor = Fin 0, cp_spendingMinor = Fin 0, cp_netMinor = Fin 0,
     cp_currency = Some (currency (tx_amount t))\<rparr>"

definition add_to_point :: "transaction \<Rightarrow> cashflow_point \<Rightarrow> cashflow_point" where
  "add_to_point t current =
     (let added = (if isCredit t
            then current\<lparr>cp_incomeMinor := num_add (cp_incomeMinor current) (amountMinor (tx_amount t))\<rparr>
            else current\<lparr>cp_spendingMinor := num_add (cp_spendingMinor current) (amountMinor (tx_amount t))\<rparr>)
      in added\<lparr>cp_netMinor := num_sub (cp_incomeMinor added) (cp_spendingMinor added)\<rparr>)"

definition addPoint :: "(string, cashflow_point) omap \<Rightarrow> string \<Rightarrow> transaction \<Rightarrow> (string, cashflow_point) omap" where
  "addPoint points period t =
     (let current = (case om_get points period of Some p \<Rightarrow> p | None \<Rightarrow> new_point period t)
      in om_set points period (add_to_point t current))"

definition category_name :: "transaction \<Rightarrow> string" where
  "category_name t = (if js_trim (tx_category t) = [] then ''Uncategorised'' else js_trim (tx_category t))"

definition new_category :: "transaction \<Rightarrow> category_insight" where
  "new_category t = \<lparr>ci_name = category_name t, ci_category = Some (category_name t), ci_merchant = None,
     ci_type = Some ''expense'', ci_amountMinor = Fin 0, ci_count = Fin 0, ci_currency = Some (currency (tx_amount t))\<rparr>"

definition add_to_category :: "transaction \<Rightarrow> category_insight \<Rightarrow> category_insight" where
  "add_to_category t current = current\<lparr>ci_amountMinor := num_add (ci_amountMinor current) (amountMinor (tx_amount t)),
     ci_count := num_add (ci_count current) (Fin 1)\<rparr>"

definition addCategory :: "(string, category_insight) omap \<Rightarrow> transaction \<Rightarrow> (string, category_insight) omap" where
  "addCategory categories t =
     (let category = category_name t;
          current = (case om_get categories category of Some c \<Rightarrow> c | None \<Rightarrow> new_category t)
      in om_set categories category (add_to_category t current))"

record dashboard_maps =
  dm_categories :: "(string, category_insight) omap"
  dm_cashflow :: "(string, cashflow_point) omap"
  dm_monthly :: "(string, cashflow_point) omap"

definition dashboard_step :: "(string \<Rightarrow> date) \<Rightarrow> int \<Rightarrow> dashboard_maps \<Rightarrow> transaction \<Rightarrow> dashboard_maps" where
  "dashboard_step parse now m t =
     (let date = occurredAtFor parse now t in
      \<lparr>dm_categories = (if isCredit t then dm_categories m else addCategory (dm_categories m) t),
       dm_cashflow = addPoint (dm_cashflow m) (periodFor date False) t,
       dm_monthly = addPoint (dm_monthly m) (periodFor date True) t\<rparr>)"

definition toPoints :: "(string \<Rightarrow> string \<Rightarrow> int) \<Rightarrow> (string, cashflow_point) omap \<Rightarrow> cashflow_point list" where
  "toPoints localeCompare points = js_sort (cmp_on localeCompare cp_period) (om_values points)"

definition activity_of :: "(string \<Rightarrow> date) \<Rightarrow> int \<Rightarrow> transaction \<Rightarrow> dashboard_activity" where
  "activity_of parse now t = \<lparr>da_id = tx_id t, da_transactionId = tx_transactionId t,
     da_label = (if js_trim (tx_merchant t) \<noteq> [] then js_trim (tx_merchant t)
       else if tx_category t \<noteq> [] then tx_category t else ''Transaction''),
     da_type = (if isCredit t then ''income'' else ''expense''), da_category = Some (tx_category t),
     da_accountId = None, da_contactId = None, da_contact = None, da_creator = None, da_description = None,
     da_amountMinor = amountMinor (tx_amount t), da_currency = currency (tx_amount t),
     da_occurredAt = toISOString (occurredAtFor parse now t)\<rparr>"

definition newest_first :: "(string \<Rightarrow> date) \<Rightarrow> int \<Rightarrow> transaction list \<Rightarrow> transaction list" where
  "newest_first parse now = js_sort (\<lambda>l r. occurredAtFor parse now r - occurredAtFor parse now l)"

definition category_order :: "(string \<Rightarrow> string \<Rightarrow> int) \<Rightarrow> category_insight \<Rightarrow> category_insight \<Rightarrow> int" where
  "category_order localeCompare =
     cmp_then (\<lambda>l r. num_cmp (ci_amountMinor r) (ci_amountMinor l)) (cmp_on localeCompare ci_name)"

definition no_month_details :: month_details where
  "no_month_details = \<lparr>md_openingBalanceMinor = None, md_closingBalanceMinor = None, md_largestIncome = None,
     md_largestExpense = None, md_mostActiveDay = None, md_topSpendingCategory = None, md_highestValueContact = None,
     md_repeatedTransactions = []\<rparr>"

definition buildDashboardModel ::
  "(string \<Rightarrow> string \<Rightarrow> int) \<Rightarrow> (string \<Rightarrow> date) \<Rightarrow> transaction list \<Rightarrow> int \<Rightarrow> dashboard_analytics" where
  "buildDashboardModel localeCompare parse transactions now =
     (let ordered = newest_first parse now transactions;
          maps = foldl (dashboard_step parse now) \<lparr>dm_categories = [], dm_cashflow = [], dm_monthly = []\<rparr> ordered;
          byCategory = js_sort (category_order localeCompare) (om_values (dm_categories maps))
      in \<lparr>an_byCategory = byCategory, an_bySource = [], an_byContact = [], an_byAccount = [], an_byType = [],
          an_cashflow = toPoints localeCompare (dm_cashflow maps),
          an_monthlyTrend = toPoints localeCompare (dm_monthly maps),
          an_recentActivity = map (activity_of parse now) (take 10 ordered),
          an_topCategories = take 5 byCategory,
          an_monthDetails = no_month_details\<rparr>)"

section \<open>The home page\<close>

definition accountTotals :: "account list \<Rightarrow> (string \<times> jsnum) list" where
  "accountTotals accounts = foldl (\<lambda>totals a. om_set totals (currency (acc_balance a))
     (num_add (case om_get totals (currency (acc_balance a)) of Some x \<Rightarrow> x | None \<Rightarrow> Fin 0) (amountMinor (acc_balance a)))) [] accounts"

text \<open>The number of days of the month \<open>m\<close> (counted from 1) and the points of all its days.\<close>

definition daysInSelectedMonth :: "int \<Rightarrow> int \<Rightarrow> int option" where
  "daysInSelectedMonth y m = utc_date (date_UTC y m 0)"

definition day_period :: "string \<Rightarrow> nat \<Rightarrow> string" where
  "day_period selectedMonth index = selectedMonth @ ''-'' @ pad_start 2 (CHR ''0'') (nat_digits (index + 1))"

definition empty_point :: "string \<Rightarrow> string \<Rightarrow> cashflow_point" where
  "empty_point period monthCurrency = \<lparr>cp_period = period, cp_incomeMinor = Fin 0, cp_spendingMinor = Fin 0, cp_netMinor = Fin 0,
     cp_currency = Some monthCurrency\<rparr>"

definition dailyMonthPoints :: "string \<Rightarrow> string \<Rightarrow> nat \<Rightarrow> cashflow_point list \<Rightarrow> cashflow_point list" where
  "dailyMonthPoints selectedMonth monthCurrency days points =
     (let byPeriod = foldl (\<lambda>m p. om_set m (cp_period p) p) [] points
      in map (\<lambda>index. case om_get byPeriod (day_period selectedMonth index) of
             Some p \<Rightarrow> p
           | None \<Rightarrow> empty_point (day_period selectedMonth index) monthCurrency) [0..<days])"

section \<open>Grouping\<close>

context keyed_store begin

text \<open>A loop that updates the entry of each element's key treats every key on its own.\<close>

lemma get_grouped:
  "get (foldl (\<lambda>m x. put m (key x) (upd x (get m (key x)))) m xs) k =
   foldl (\<lambda>acc x. if key x = k then Some (upd x acc) else acc) (get m k) xs"
proof (induction xs arbitrary: m)
  case (Cons x xs)
  then show ?case by (simp add: get_put)
qed simp

end

lemma om_keys_grouped:
  "fst ` set (foldl (\<lambda>m x. om_set m (key x) (upd x (om_get m (key x)))) m xs) = fst ` set m \<union> key ` set xs"
  by (induction xs arbitrary: m) (auto simp: fst_set_om_set)

lemma om_ok_grouped: "om_ok m \<Longrightarrow> om_ok (foldl (\<lambda>m x. om_set m (key x) (upd x (om_get m (key x)))) m xs)"
  by (induction xs arbitrary: m) simp_all

lemma om_value_iff: "om_ok m \<Longrightarrow> v \<in> set (om_values m) \<longleftrightarrow> (\<exists>k. om_get m k = Some v)"
  by (auto simp: om_values_def om_ok_def om_get_map_of intro: rev_image_eqI)

lemma sum_values: "om_ok m \<Longrightarrow> sum_list (map f (om_values m)) = sum_list (map (\<lambda>k. f (the (om_get m k))) (om_keys m))"
proof -
  assume ok: "om_ok m"
  have "map (\<lambda>p. f (snd p)) m = map (\<lambda>p. f (the (om_get m (fst p)))) m"
    using ok by (auto simp: om_ok_def om_get_map_of)
  then show ?thesis by (simp only: om_values_def om_keys_def map_map comp_def)
qed

text \<open>The sums of the groups make the sum of all.\<close>

lemma sum_groups:
  fixes f :: "'a \<Rightarrow> int"
  assumes "distinct ks" "key ` set xs \<subseteq> set ks"
  shows "(\<Sum>k\<leftarrow>ks. \<Sum>x\<leftarrow>filter (\<lambda>x. key x = k) xs. f x) = (\<Sum>x\<leftarrow>xs. f x)"
  using assms(2)
proof (induction xs)
  case (Cons x xs)
  have one: "(\<Sum>k\<leftarrow>ks. if key x = k then f x else 0) = f x"
    using assms(1) Cons.prems by (simp add: sum_list_distinct_conv_sum_set sum.delta)
  have "(\<Sum>k\<leftarrow>ks. \<Sum>y\<leftarrow>filter (\<lambda>y. key y = k) (x # xs). f y) =
      (\<Sum>k\<leftarrow>ks. (if key x = k then f x else 0) + (\<Sum>y\<leftarrow>filter (\<lambda>y. key y = k) xs. f y))"
    by (intro arg_cong [where f = sum_list] map_cong) auto
  with Cons one show ?case by (simp add: sum_list_addf)
qed simp

section \<open>Exact sums\<close>

lemma num_add_whole: "\<bar>x + y\<bar> \<le> 2 ^ 53 \<Longrightarrow> num_add (Fin (of_int x)) (Fin (of_int y)) = Fin (of_int (x + y))"
  using fl64_whole [of "x + y"] by (simp add: num_add_def num_round_def)

lemma num_sub_whole: "\<bar>x - y\<bar> \<le> 2 ^ 53 \<Longrightarrow> num_sub (Fin (of_int x)) (Fin (of_int y)) = Fin (of_int (x - y))"
  using fl64_whole [of "x - y"] by (simp add: num_sub_def num_round_def js_sub_def js_neg_def)

text \<open>Whole amounts of a moderate total.\<close>

definition whole_amounts :: "(transaction \<Rightarrow> int) \<Rightarrow> transaction list \<Rightarrow> bool" where
  "whole_amounts a ts \<longleftrightarrow> list_all (\<lambda>t. amountMinor (tx_amount t) = Fin (of_int (a t))) ts \<and> (\<Sum>t\<leftarrow>ts. \<bar>a t\<bar>) \<le> 2 ^ 53"

definition sum_where :: "(transaction \<Rightarrow> int) \<Rightarrow> (transaction \<Rightarrow> bool) \<Rightarrow> transaction list \<Rightarrow> int" where
  "sum_where a P ts = (\<Sum>t\<leftarrow>filter P ts. a t)"

lemma sum_where_simps [simp]:
  "sum_where a P [] = 0" "sum_where a P (ts @ [t]) = sum_where a P ts + (if P t then a t else 0)"
  by (simp_all add: sum_where_def)

lemma sum_where_disjoint:
  "(\<And>t. \<not> (P t \<and> Q t)) \<Longrightarrow> \<bar>sum_where a P ts\<bar> + \<bar>sum_where a Q ts\<bar> \<le> (\<Sum>t\<leftarrow>ts. \<bar>a t\<bar>)"
proof (induction ts)
  case (Cons t ts)
  then have "P t \<Longrightarrow> \<not> Q t" "Q t \<Longrightarrow> \<not> P t" by blast+
  with Cons show ?case by (cases "P t"; cases "Q t") (auto simp: sum_where_def)
qed (simp add: sum_where_def)

lemma sum_where_bound: "\<bar>sum_where a P ts\<bar> \<le> (\<Sum>t\<leftarrow>ts. \<bar>a t\<bar>)"
  using sum_where_disjoint [of P "\<lambda>_. False" a ts] by (simp add: sum_where_def)

abbreviation point_acc :: "(transaction \<Rightarrow> string) \<Rightarrow> string \<Rightarrow> cashflow_point option \<Rightarrow> transaction \<Rightarrow> cashflow_point option" where
  "point_acc key k acc t \<equiv>
     if key t = k then Some (add_to_point t (case acc of Some p \<Rightarrow> p | None \<Rightarrow> new_point (key t) t)) else acc"

lemma add_to_point_whole:
  assumes "cp_incomeMinor p = Fin (of_int x)" "cp_spendingMinor p = Fin (of_int y)" "amountMinor (tx_amount t) = Fin (of_int z)"
    and "isCredit t \<Longrightarrow> \<bar>x + z\<bar> + \<bar>y\<bar> \<le> 2 ^ 53" "\<not> isCredit t \<Longrightarrow> \<bar>x\<bar> + \<bar>y + z\<bar> \<le> 2 ^ 53"
  shows "cp_period (add_to_point t p) = cp_period p"
    "cp_incomeMinor (add_to_point t p) = Fin (of_int (x + (if isCredit t then z else 0)))"
    "cp_spendingMinor (add_to_point t p) = Fin (of_int (y + (if isCredit t then 0 else z)))"
    "cp_netMinor (add_to_point t p) = Fin (of_int (x + (if isCredit t then z else 0) - (y + (if isCredit t then 0 else z))))"
proof -
  have c: "\<bar>x + z\<bar> \<le> 2 ^ 53" "\<bar>x + z - y\<bar> \<le> 2 ^ 53" if "isCredit t" using assms(4) [OF that] by linarith+
  have d: "\<bar>y + z\<bar> \<le> 2 ^ 53" "\<bar>x - (y + z)\<bar> \<le> 2 ^ 53" if "\<not> isCredit t" using assms(5) [OF that] by linarith+
  note n = num_add_whole [OF c(1)] num_sub_whole [OF c(2)] num_add_whole [OF d(1)] num_sub_whole [OF d(2)]
  show "cp_period (add_to_point t p) = cp_period p"
    "cp_incomeMinor (add_to_point t p) = Fin (of_int (x + (if isCredit t then z else 0)))"
    "cp_spendingMinor (add_to_point t p) = Fin (of_int (y + (if isCredit t then 0 else z)))"
    "cp_netMinor (add_to_point t p) = Fin (of_int (x + (if isCredit t then z else 0) - (y + (if isCredit t then 0 else z))))"
    using n assms(1-3) by (simp_all add: add_to_point_def Let_def)
qed

lemma sum_where_none: "k \<notin> key ` set ts \<Longrightarrow> sum_where a (\<lambda>t. key t = k \<and> P t) ts = 0"
proof -
  assume "k \<notin> key ` set ts"
  then have "filter (\<lambda>t. key t = k \<and> P t) ts = []" by (auto simp: filter_empty_conv)
  then show ?thesis by (simp add: sum_where_def)
qed

lemma point_sums:
  assumes "whole_amounts a ts"
  shows "case foldl (point_acc key k) None ts of
      None \<Rightarrow> k \<notin> key ` set ts
    | Some p \<Rightarrow> k \<in> key ` set ts \<and> cp_period p = k \<and>
        cp_incomeMinor p = Fin (of_int (sum_where a (\<lambda>t. key t = k \<and> isCredit t) ts)) \<and>
        cp_spendingMinor p = Fin (of_int (sum_where a (\<lambda>t. key t = k \<and> \<not> isCredit t) ts)) \<and>
        cp_netMinor p = Fin (of_int (sum_where a (\<lambda>t. key t = k \<and> isCredit t) ts - sum_where a (\<lambda>t. key t = k \<and> \<not> isCredit t) ts))"
  using assms
proof (induction ts rule: rev_induct)
  case (snoc t ts)
  let ?C = "\<lambda>t. key t = k \<and> isCredit t" and ?D = "\<lambda>t. key t = k \<and> \<not> isCredit t"
  have w: "whole_amounts a ts" "amountMinor (tx_amount t) = Fin (of_int (a t))"
    using snoc.prems by (auto simp: whole_amounts_def)
  note IH = snoc.IH [OF w(1)]
  show ?case
  proof (cases "key t = k")
    case False
    then show ?thesis using IH by (auto split: option.splits)
  next
    case True
    have b: "\<bar>sum_where a ?C (ts @ [t])\<bar> + \<bar>sum_where a ?D (ts @ [t])\<bar> \<le> 2 ^ 53"
      using sum_where_disjoint [of ?C ?D a "ts @ [t]"] snoc.prems unfolding whole_amounts_def by simp
    define cur where "cur = (case foldl (point_acc key k) None ts of Some p \<Rightarrow> p | None \<Rightarrow> new_point (key t) t)"
    have p: "cp_period cur = k" "cp_incomeMinor cur = Fin (of_int (sum_where a ?C ts))"
        "cp_spendingMinor cur = Fin (of_int (sum_where a ?D ts))"
      using IH sum_where_none [of k key ts a] by (auto simp: True cur_def new_point_def split: option.splits)
    have e: "foldl (point_acc key k) None (ts @ [t]) = Some (add_to_point t cur)"
      using True by (simp add: cur_def)
    note q = add_to_point_whole [OF p(2,3) w(2)]
    show ?thesis unfolding e using True b p(1) q by (auto split: if_splits)
  qed
qed simp

lemma sum_Fin: "sum_list (map (\<lambda>k. Fin (of_int (g k))) ks) = Fin (of_int (sum_list (map g ks)))"
  by (induction ks) (simp_all add: zero_jsnum_def)

lemma sum_where_groups:
  assumes "distinct ks" "key ` set (filter P ts) \<subseteq> set ks"
  shows "(\<Sum>k\<leftarrow>ks. sum_where a (\<lambda>t. key t = k \<and> P t) ts) = sum_where a P ts"
  using sum_groups [OF assms, of a] by (simp add: sum_where_def conj_commute)

definition points_of :: "(transaction \<Rightarrow> string) \<Rightarrow> transaction list \<Rightarrow> (string, cashflow_point) omap" where
  "points_of key ts = foldl (\<lambda>m t. addPoint m (key t) t) [] ts"

lemma points_of_grouped:
  "points_of key ts = foldl (\<lambda>m t. om_set m (key t)
     ((\<lambda>t acc. add_to_point t (case acc of Some p \<Rightarrow> p | None \<Rightarrow> new_point (key t) t)) t (om_get m (key t)))) [] ts"
  by (simp add: points_of_def addPoint_def Let_def)

lemma points_ok: "om_ok (points_of key ts)"
  unfolding points_of_grouped by (rule om_ok_grouped) simp

lemma points_keys: "set (om_keys (points_of key ts)) = key ` set ts"
  using om_keys_grouped [where m = "[]" and xs = ts and key = key] unfolding points_of_grouped om_keys_def by simp

lemma point_at:
  assumes "whole_amounts a ts" "k \<in> key ` set ts"
  shows "\<exists>p. om_get (points_of key ts) k = Some p \<and> cp_period p = k \<and>
    cp_incomeMinor p = Fin (of_int (sum_where a (\<lambda>t. key t = k \<and> isCredit t) ts)) \<and>
    cp_spendingMinor p = Fin (of_int (sum_where a (\<lambda>t. key t = k \<and> \<not> isCredit t) ts)) \<and>
    cp_netMinor p = Fin (of_int (sum_where a (\<lambda>t. key t = k \<and> isCredit t) ts - sum_where a (\<lambda>t. key t = k \<and> \<not> isCredit t) ts))"
proof -
  have "om_get (points_of key ts) k = foldl (point_acc key k) None ts"
    unfolding points_of_grouped by (subst js_map.get_grouped) simp
  with point_sums [OF assms(1), where key = key and k = k] assms(2) show ?thesis by (auto split: option.splits)
qed

lemma point_figures:
  assumes "whole_amounts a ts" "k \<in> key ` set ts"
  shows "cp_incomeMinor (the (om_get (points_of key ts) k)) = Fin (of_int (sum_where a (\<lambda>t. key t = k \<and> isCredit t) ts))"
    "cp_spendingMinor (the (om_get (points_of key ts) k)) = Fin (of_int (sum_where a (\<lambda>t. key t = k \<and> \<not> isCredit t) ts))"
  using point_at [OF assms] by auto

lemma grouped_total:
  assumes "om_ok m" "key ` set (filter P ts) \<subseteq> set (om_keys m)"
    and f: "\<And>k. k \<in> set (om_keys m) \<Longrightarrow> f (the (om_get m k)) = Fin (of_int (sum_where a (\<lambda>t. key t = k \<and> P t) ts))"
  shows "sum_list (map f (om_values m)) = Fin (of_int (sum_where a P ts))"
proof -
  have d: "distinct (om_keys m)" using assms(1) by (simp add: om_ok_def om_keys_def)
  have "sum_list (map f (om_values m)) = (\<Sum>k\<leftarrow>om_keys m. Fin (of_int (sum_where a (\<lambda>t. key t = k \<and> P t) ts)))"
    unfolding sum_values [OF assms(1)] by (rule arg_cong [where f = sum_list], rule map_cong) (simp_all add: f)
  also have "\<dots> = Fin (of_int (sum_where a P ts))"
    by (simp only: sum_Fin sum_where_groups [OF d assms(2)])
  finally show ?thesis .
qed

lemma points_totals:
  assumes "whole_amounts a ts"
  shows "sum_list (map cp_incomeMinor (om_values (points_of key ts))) = Fin (of_int (sum_where a isCredit ts))"
    "sum_list (map cp_spendingMinor (om_values (points_of key ts))) = Fin (of_int (sum_where a (\<lambda>t. \<not> isCredit t) ts))"
  by (rule grouped_total [OF points_ok, where key = key]; auto simp: points_keys point_figures [OF assms])+

section \<open>Categories\<close>

abbreviation category_acc :: "string \<Rightarrow> category_insight option \<Rightarrow> transaction \<Rightarrow> category_insight option" where
  "category_acc k acc t \<equiv>
     if category_name t = k then Some (add_to_category t (case acc of Some p \<Rightarrow> p | None \<Rightarrow> new_category t)) else acc"

lemma category_sums:
  assumes "whole_amounts a ts" "length ts \<le> 2 ^ 53"
  shows "case foldl (category_acc k) None ts of
      None \<Rightarrow> k \<notin> category_name ` set ts
    | Some c \<Rightarrow> k \<in> category_name ` set ts \<and> ci_name c = k \<and>
        ci_amountMinor c = Fin (of_int (sum_where a (\<lambda>t. category_name t = k) ts)) \<and>
        ci_count c = Fin (of_int (length (filter (\<lambda>t. category_name t = k) ts)))"
  using assms
proof (induction ts rule: rev_induct)
  case (snoc t ts)
  let ?P = "\<lambda>t. category_name t = k"
  have w: "whole_amounts a ts" "amountMinor (tx_amount t) = Fin (of_int (a t))" "length ts \<le> 2 ^ 53"
    using snoc.prems by (auto simp: whole_amounts_def)
  note IH = snoc.IH [OF w(1,3)]
  show ?case
  proof (cases "?P t")
    case False
    then show ?thesis using IH by (auto split: option.splits)
  next
    case True
    have b: "\<bar>sum_where a ?P ts + a t\<bar> \<le> 2 ^ 53"
      using sum_where_bound [of a ?P "ts @ [t]"] snoc.prems True unfolding whole_amounts_def by simp
    have n: "\<bar>int (length (filter ?P ts)) + 1\<bar> \<le> 2 ^ 53"
    proof -
      have "int (length ts) + 1 \<le> 2 ^ 53" using snoc.prems(2) by simp
      moreover have "int (length (filter ?P ts)) \<le> int (length ts)" by simp
      ultimately show ?thesis by linarith
    qed
    define cur where "cur = (case foldl (category_acc k) None ts of Some p \<Rightarrow> p | None \<Rightarrow> new_category t)"
    have none: "sum_where a ?P ts = 0 \<and> filter ?P ts = []" if "k \<notin> category_name ` set ts"
    proof -
      from that have "filter ?P ts = []" by (auto simp: filter_empty_conv)
      then show ?thesis by (simp add: sum_where_def)
    qed
    have p: "ci_name cur = k" "ci_amountMinor cur = Fin (of_int (sum_where a ?P ts))"
        "ci_count cur = Fin (of_int (length (filter ?P ts)))"
      using IH none by (auto simp: True cur_def new_category_def split: option.splits)
    have e: "foldl (category_acc k) None (ts @ [t]) = Some (add_to_category t cur)"
      using True by (simp add: cur_def)
    show ?thesis unfolding e
      using True p num_add_whole [OF b] num_add_whole [OF n] by (simp add: add_to_category_def w(2))
  qed
qed simp

definition categories_of :: "transaction list \<Rightarrow> (string, category_insight) omap" where
  "categories_of ts = foldl addCategory [] ts"

lemma categories_of_grouped:
  "categories_of ts = foldl (\<lambda>m t. om_set m (category_name t)
     ((\<lambda>t acc. add_to_category t (case acc of Some p \<Rightarrow> p | None \<Rightarrow> new_category t)) t (om_get m (category_name t)))) [] ts"
  unfolding categories_of_def by (rule arg_cong [where f = "\<lambda>f. foldl f [] ts"]) (simp add: addCategory_def Let_def fun_eq_iff)

lemma categories_ok: "om_ok (categories_of ts)"
  unfolding categories_of_grouped by (rule om_ok_grouped) simp

lemma categories_keys: "set (om_keys (categories_of ts)) = category_name ` set ts"
  using om_keys_grouped [where m = "[]" and xs = ts and key = category_name] unfolding categories_of_grouped om_keys_def by simp

lemma category_at:
  assumes "whole_amounts a ts" "length ts \<le> 2 ^ 53" "k \<in> category_name ` set ts"
  shows "\<exists>c. om_get (categories_of ts) k = Some c \<and> ci_name c = k \<and>
    ci_amountMinor c = Fin (of_int (sum_where a (\<lambda>t. category_name t = k) ts)) \<and>
    ci_count c = Fin (of_int (length (filter (\<lambda>t. category_name t = k) ts)))"
proof -
  have "om_get (categories_of ts) k = foldl (category_acc k) None ts"
    unfolding categories_of_grouped by (subst js_map.get_grouped) simp
  with category_sums [OF assms(1,2), of k] assms(3) show ?thesis by (auto split: option.splits)
qed

section \<open>Properties\<close>

lemma dashboard_fold:
  "foldl (dashboard_step parse now) m ts =
     \<lparr>dm_categories = foldl addCategory (dm_categories m) (filter (\<lambda>t. \<not> isCredit t) ts),
      dm_cashflow = foldl (\<lambda>p t. addPoint p (periodFor (occurredAtFor parse now t) False) t) (dm_cashflow m) ts,
      dm_monthly = foldl (\<lambda>p t. addPoint p (periodFor (occurredAtFor parse now t) True) t) (dm_monthly m) ts\<rparr>"
  by (induction ts arbitrary: m) (simp_all add: dashboard_step_def Let_def)

lemma whole_amounts_perm: "mset ts = mset us \<Longrightarrow> whole_amounts a ts = whole_amounts a us"
proof -
  assume m: "mset ts = mset us"
  have "set ts = set us" using m by (metis set_mset_mset)
  moreover have "(\<Sum>t\<leftarrow>ts. \<bar>a t\<bar>) = (\<Sum>t\<leftarrow>us. \<bar>a t\<bar>)" using m by (metis mset_map sum_mset_sum_list)
  ultimately show ?thesis by (simp add: whole_amounts_def list_all_iff)
qed

lemma sum_where_perm: "mset ts = mset us \<Longrightarrow> sum_where a P ts = sum_where a P us"
  unfolding sum_where_def by (metis mset_filter mset_map sum_mset_sum_list)

lemma whole_amounts_filter: "whole_amounts a ts \<Longrightarrow> whole_amounts a (filter P ts)"
proof -
  have "(\<Sum>t\<leftarrow>filter P ts. \<bar>a t\<bar>) \<le> (\<Sum>t\<leftarrow>ts. \<bar>a t\<bar>)" by (induction ts) auto
  then show "whole_amounts a ts \<Longrightarrow> whole_amounts a (filter P ts)" by (auto simp: whole_amounts_def list_all_iff)
qed

lemma sum_where_filter: "sum_where a P (filter Q ts) = sum_where a (\<lambda>t. Q t \<and> P t) ts"
  by (simp add: sum_where_def conj_commute)

lemma dashboard_of_parts:
  "buildDashboardModel lc parse txs now = (let ordered = newest_first parse now txs;
       byCategory = js_sort (category_order lc) (om_values (categories_of (filter (\<lambda>t. \<not> isCredit t) ordered)))
     in \<lparr>an_byCategory = byCategory, an_bySource = [], an_byContact = [], an_byAccount = [], an_byType = [],
         an_cashflow = toPoints lc (points_of (\<lambda>t. periodFor (occurredAtFor parse now t) False) ordered),
         an_monthlyTrend = toPoints lc (points_of (\<lambda>t. periodFor (occurredAtFor parse now t) True) ordered),
         an_recentActivity = map (activity_of parse now) (take 10 ordered),
         an_topCategories = take 5 byCategory, an_monthDetails = no_month_details\<rparr>)"
  by (simp add: buildDashboardModel_def dashboard_fold categories_of_def points_of_def Let_def)

text \<open>C17. The dashboard accounts for every amount: for transactions with whole amounts (of at most 2^53 together)
  the incomes of the days, and those of the months, sum to all credits, their spendings to all debits, and
  the amounts of the categories to all debits again; in double precision nothing is lost, whatever the order,
  the unreadable dates (which count as now) and the missing category names.\<close>

theorem dashboard_conserves:
  assumes "whole_amounts a txs" "length txs \<le> 2 ^ 53"
  shows "let m = buildDashboardModel lc parse txs now;
      credits = Fin (of_int (sum_where a isCredit txs)); debits = Fin (of_int (sum_where a (\<lambda>t. \<not> isCredit t) txs))
    in sum_list (map cp_incomeMinor (an_cashflow m)) = credits \<and> sum_list (map cp_spendingMinor (an_cashflow m)) = debits \<and>
       sum_list (map cp_incomeMinor (an_monthlyTrend m)) = credits \<and> sum_list (map cp_spendingMinor (an_monthlyTrend m)) = debits \<and>
       sum_list (map ci_amountMinor (an_byCategory m)) = debits"
proof -
  let ?o = "newest_first parse now txs"
  have m: "mset ?o = mset txs" by (simp add: newest_first_def)
  then have w: "whole_amounts a ?o" using whole_amounts_perm assms(1) by blast
  let ?d = "filter (\<lambda>t. \<not> isCredit t) ?o"
  have wd: "whole_amounts a ?d" by (rule whole_amounts_filter [OF w])
  have "length ?d \<le> length ?o" by (rule length_filter_le)
  then have ld: "length ?d \<le> 2 ^ 53" using assms(2) by (simp add: newest_first_def)
  have "sum_list (map ci_amountMinor (om_values (categories_of ?d))) = Fin (of_int (sum_where a (\<lambda>_. True) ?d))"
  proof (rule grouped_total [where key = category_name and P = "\<lambda>_. True"])
    show "ci_amountMinor (the (om_get (categories_of ?d) k)) = Fin (of_int (sum_where a (\<lambda>t. category_name t = k \<and> True) ?d))"
      if "k \<in> set (om_keys (categories_of ?d))" for k
      using category_at [OF wd ld, of k] that by (auto simp: categories_keys)
  qed (simp_all add: categories_ok categories_keys)
  then have "sum_list (map ci_amountMinor (om_values (categories_of ?d))) = Fin (of_int (sum_where a (\<lambda>t. \<not> isCredit t) txs))"
    by (simp add: sum_where_filter sum_where_perm [OF m])
  then show ?thesis
    by (simp add: dashboard_of_parts toPoints_def points_totals [OF w] sum_where_perm [OF m] Let_def)
qed

definition example_entry :: "direction \<Rightarrow> int \<Rightarrow> transaction" where
  "example_entry d n = \<lparr>tx_id = ''t'', tx_transactionId = None, tx_transactionIdScope = None, tx_merchant = ''Shop'',
     tx_category = [], tx_occurredAt = ''2026-08-01T00:00:00.000Z'', tx_createdAt = None,
     tx_amount = \<lparr>amountMinor = Fin (of_int n), currency = ''INR''\<rparr>, tx_direction = d, tx_status = Cleared, tx_accountId = ''a'',
     tx_destinationAccountId = None, tx_rawType = Raw_expense, tx_privacy = None, tx_hasSplits = False, tx_goalId = None,
     tx_creator = None, tx_note = None, tx_description = None, tx_contactId = None, tx_contact = None, tx_imported = False,
     tx_cleared = True, tx_automation = None\<rparr>"

theorem dashboard_conserves_witness:
  "let m = buildDashboardModel (\<lambda>_ _. 0) (\<lambda>_. None) [example_entry Credit 500, example_entry Debit 200] 0
   in sum_list (map cp_incomeMinor (an_cashflow m)) = Fin 500 \<and> sum_list (map ci_amountMinor (an_byCategory m)) = Fin 200"
proof -
  let ?a = "\<lambda>t. if isCredit t then 500 else 200"
  have w: "whole_amounts ?a [example_entry Credit 500, example_entry Debit 200]"
    by (simp add: whole_amounts_def example_entry_def isCredit_def)
  show ?thesis
    using dashboard_conserves [OF w, of "\<lambda>_ _. 0" "\<lambda>_. None" 0]
    by (simp add: Let_def sum_where_def example_entry_def isCredit_def)
qed

text \<open>What the totals of the home page take in: an account that is to be excluded from the totals of the workspace
  counts like any other.\<close>

lemma excluded_account_counted:
  assumes "acc_excludeFromTotal a" "amountMinor (acc_balance a) = Fin (of_int x)" "\<bar>x\<bar> \<le> 2 ^ 53"
  shows "accountTotals [a] = [(currency (acc_balance a), Fin (of_int x))]"
  using num_add_whole [of 0 x] assms by (simp add: accountTotals_def)

text \<open>The days of the month show every point of the month once: their figures sum to those of the points.\<close>

lemma day_period_inj: "inj (day_period m)"
proof (rule injI)
  fix i j
  assume "day_period m i = day_period m j"
  then have "pad_start 2 (CHR ''0'') (nat_digits (i + 1)) = pad_start 2 (CHR ''0'') (nat_digits (j + 1))"
    by (simp add: day_period_def)
  then have "digits_value (nat_digits (i + 1)) = digits_value (nat_digits (j + 1))"
    by (metis digits_value_pad_start)
  then show "i = j" by simp
qed

lemma by_period: "foldl (\<lambda>m p. om_set m (cp_period p) p) m points =
    foldl (\<lambda>m p. om_set m (cp_period p) ((\<lambda>p acc. p) p (om_get m (cp_period p)))) m points"
  by simp

lemma daily_points_total:
  fixes f :: "cashflow_point \<Rightarrow> jsnum"
  assumes d: "distinct (map cp_period points)" and s: "cp_period ` set points \<subseteq> day_period m ` {..<days}"
    and z: "\<And>k. f (empty_point k c) = 0"
  shows "sum_list (map f (dailyMonthPoints m c days points)) = sum_list (map f points)"
proof -
  let ?b = "foldl (\<lambda>m p. om_set m (cp_period p) p) [] points"
  define h where "h k = (case om_get ?b k of Some p \<Rightarrow> f p | None \<Rightarrow> 0)" for k
  have get: "om_get ?b k = map_of (rev (map (\<lambda>p. (cp_period p, p)) points)) k" for k
  proof -
    have "om_get ?b k = om_get (foldl (\<lambda>m (k, v). om_set m k v) [] (map (\<lambda>p. (cp_period p, p)) points)) k"
      by (simp add: foldl_map)
    also have "\<dots> = map_of (rev (map (\<lambda>p. (cp_period p, p)) points)) k"
      by (subst js_map.put_all_get) (simp split: option.split)
    finally show ?thesis .
  qed
  have hp: "h (cp_period p) = f p" if "p \<in> set points" for p
  proof -
    have "map_of (rev (map (\<lambda>p. (cp_period p, p)) points)) (cp_period p) = Some p"
      using d that by (intro map_of_is_SomeI) (auto simp: rev_map [symmetric] comp_def)
    then show ?thesis by (simp add: h_def get)
  qed
  have h0: "h k = 0" if "k \<notin> cp_period ` set points" for k
  proof -
    have "map_of (rev (map (\<lambda>p. (cp_period p, p)) points)) k = None" using that by (auto simp: map_of_eq_None_iff)
    then show ?thesis by (simp add: h_def get)
  qed
  have "sum_list (map f (dailyMonthPoints m c days points)) = (\<Sum>i\<leftarrow>[0..<days]. h (day_period m i))"
    unfolding dailyMonthPoints_def Let_def map_map
    by (rule arg_cong [where f = sum_list], rule map_cong) (simp_all add: h_def z split: option.split)
  also have "\<dots> = (\<Sum>i<days. h (day_period m i))"
    by (simp add: sum_list_distinct_conv_sum_set atLeast0LessThan)
  also have "\<dots> = (\<Sum>k\<in>day_period m ` {..<days}. h k)"
    by (subst sum.reindex) (auto intro: inj_on_subset [OF day_period_inj])
  also have "\<dots> = (\<Sum>k\<in>cp_period ` set points. h k)"
    by (rule sum.mono_neutral_right) (use s h0 in auto)
  also have "\<dots> = (\<Sum>p\<in>set points. h (cp_period p))"
    using d by (subst sum.reindex) (auto simp: distinct_map)
  also have "\<dots> = (\<Sum>p\<in>set points. f p)" by (rule sum.cong) (simp_all add: hp)
  also have "\<dots> = sum_list (map f points)"
    using d by (simp add: sum_list_distinct_conv_sum_set distinct_map)
  finally show ?thesis .
qed

end
