(* ===== verification/Downloads.thy ===== *)
theory Downloads
  imports Dashboard
begin

text \<open>
  The files the client writes (lib/download.ts): the table of the transactions and the calendar event of a
  bill. A file that opens with the byte order mark says so in \<open>df_bom\<close>; \<open>num_text\<close> prints a
  number, \<open>uuid\<close> is the random identifier. The readers at the end are those of the formats: RFC 4180 for
  the table, RFC 5545 for the text of a calendar.
\<close>

section \<open>Names and cells\<close>

abbreviation LF :: char where "LF \<equiv> CHR 0x0A"
abbreviation CR :: char where "CR \<equiv> CHR 0x0D"

definition name_char :: "char \<Rightarrow> bool" where
  "name_char c = (is_lower_az c \<or> is_digit c)"

text \<open>\<open>replace(/[^a-z0-9]+/g, '-')\<close>: \<open>inside\<close> says that the run of other characters has its dash.\<close>

fun dash_runs :: "bool \<Rightarrow> string \<Rightarrow> string" where
  "dash_runs inside [] = []"
| "dash_runs inside (c # s) =
     (if name_char c then c # dash_runs False s else if inside then dash_runs True s else CHR ''-'' # dash_runs True s)"

definition strip_dashes :: "string \<Rightarrow> string" where
  "strip_dashes s = rev (dropWhile (\<lambda>c. c = CHR ''-'') (rev (dropWhile (\<lambda>c. c = CHR ''-'') s)))"

definition safeFilename :: "string \<Rightarrow> string" where
  "safeFilename value = take 64 (strip_dashes (dash_runs False (js_lower (js_trim value))))"

definition replace_all :: "char \<Rightarrow> string \<Rightarrow> string \<Rightarrow> string" where
  "replace_all c r s = concat (map (\<lambda>x. if x = c then r else [x]) s)"

definition escapeCsv :: "string \<Rightarrow> string" where
  "escapeCsv value = (if list_ex (\<lambda>c. c \<in> {CHR 0x22, CHR '','', LF, CR}) value
     then CHR 0x22 # replace_all (CHR 0x22) [CHR 0x22, CHR 0x22] value @ [CHR 0x22] else value)"

fun join :: "string \<Rightarrow> string list \<Rightarrow> string" where
  "join sep [] = []"
| "join sep [x] = x"
| "join sep (x # y # xs) = x @ sep @ join sep (y # xs)"

record text_file =
  df_name :: string
  df_bom :: bool
  df_content :: string
  df_mime :: string

section \<open>The table of the transactions\<close>

definition csv_header :: "string list" where
  "csv_header = [''Date'', ''Direction'', ''Merchant'', ''Category'', ''Status'', ''Amount'', ''Currency'']"

definition direction_text :: "direction \<Rightarrow> string" where
  "direction_text d = (case d of Credit \<Rightarrow> ''credit'' | Debit \<Rightarrow> ''debit'')"

definition status_text :: "entry_status \<Rightarrow> string" where
  "status_text s = (case s of Cleared \<Rightarrow> ''cleared'' | Pending \<Rightarrow> ''pending'')"

definition hundredth :: "jsnum \<Rightarrow> jsnum" where
  "hundredth x = (case x of Fin r \<Rightarrow> Fin (fl64 (r / 100)) | _ \<Rightarrow> x)"

definition csv_row :: "(string \<Rightarrow> date) \<Rightarrow> (jsnum \<Rightarrow> string) \<Rightarrow> bool \<Rightarrow> transaction \<Rightarrow> js_error + string list" where
  "csv_row parse num_text concealAmounts t = (case parse (tx_occurredAt t) of
       None \<Rightarrow> Inl RangeError
     | Some date \<Rightarrow> Inr [take 10 (toISOString date), direction_text (tx_direction t), tx_merchant t, tx_category t,
         status_text (tx_status t),
         (if concealAmounts then ''Hidden by privacy mode'' else num_text (hundredth (amountMinor (tx_amount t)))),
         currency (tx_amount t)])"

fun csv_rows :: "(string \<Rightarrow> date) \<Rightarrow> (jsnum \<Rightarrow> string) \<Rightarrow> bool \<Rightarrow> transaction list \<Rightarrow> js_error + string list list" where
  "csv_rows parse num_text conceal [] = Inr []"
| "csv_rows parse num_text conceal (t # ts) = bind_result (csv_row parse num_text conceal t) (\<lambda>row.
     bind_result (csv_rows parse num_text conceal ts) (\<lambda>rows. Inr (row # rows)))"

definition csv_text :: "string list list \<Rightarrow> string" where
  "csv_text rows = join [CR, LF] (map (\<lambda>row. join '','' (map escapeCsv row)) rows)"

definition downloadTransactionsCsv ::
  "(string \<Rightarrow> date) \<Rightarrow> (jsnum \<Rightarrow> string) \<Rightarrow> transaction list \<Rightarrow> string \<Rightarrow> bool \<Rightarrow> js_error + text_file" where
  "downloadTransactionsCsv parse num_text transactions workspaceName concealAmounts =
     bind_result (csv_rows parse num_text concealAmounts transactions) (\<lambda>rows.
       let base = (if safeFilename workspaceName = [] then ''ledgerly'' else safeFilename workspaceName)
       in Inr \<lparr>df_name = base @ ''-transactions.csv'', df_bom = True, df_content = csv_text (csv_header # rows),
               df_mime = ''text/csv;charset=utf-8''\<rparr>)"

section \<open>The calendar event of a bill\<close>

definition escapeCalendarText :: "string \<Rightarrow> string" where
  "escapeCalendarText value =
     replace_all (CHR '';'') [CHR 0x5C, CHR '';''] (replace_all (CHR '','') [CHR 0x5C, CHR '','']
       (replace_all LF [CHR 0x5C, CHR ''n''] (replace_all (CHR 0x5C) [CHR 0x5C, CHR 0x5C] value)))"

definition calendarDate :: "date \<Rightarrow> string" where
  "calendarDate date = field_string (utc_year date) @ pad (map_option (\<lambda>m. m + 1) (utc_month date)) @ pad (utc_date date)"

definition next_day :: "date \<Rightarrow> date" where
  "next_day date = set_utc_date date (map_option (\<lambda>d. d + 1) (utc_date date))"

definition bill_details :: "bill \<Rightarrow> string option \<Rightarrow> string" where
  "bill_details bill formattedAmount = join '' '' (filter (\<lambda>s. s \<noteq> [])
     [bl_name bill @ '' is due.'',
      (case formattedAmount of Some (c # cs) \<Rightarrow> ''Amount: '' @ (c # cs) @ ''.'' | _ \<Rightarrow> []),
      (if bl_autopay bill then ''Autopay is enabled. Confirm the account has enough funds.'' else ''Manual payment is needed.'')])"

definition event_lines :: "string \<Rightarrow> string \<Rightarrow> string \<Rightarrow> bill \<Rightarrow> string option \<Rightarrow> string list" where
  "event_lines start until uuid bill formattedAmount =
     [''BEGIN:VCALENDAR'', ''VERSION:2.0'', ''PRODID:-//Ledgerly//Bill Reminder//EN'', ''CALSCALE:GREGORIAN'', ''METHOD:PUBLISH'',
      ''BEGIN:VEVENT'', ''UID:bill-'' @ uuid @ ''@ledgerly.local'', ''DTSTART;VALUE=DATE:'' @ start, ''DTEND;VALUE=DATE:'' @ until,
      ''SUMMARY:'' @ escapeCalendarText (bl_name bill @ '' payment due''),
      ''DESCRIPTION:'' @ escapeCalendarText (bill_details bill formattedAmount),
      ''BEGIN:VALARM'', ''TRIGGER:-P1D'', ''ACTION:DISPLAY'',
      ''DESCRIPTION:'' @ escapeCalendarText (bl_name bill @ '' is due tomorrow''),
      ''END:VALARM'', ''END:VEVENT'', ''END:VCALENDAR'', []]"

definition downloadBillCalendarEvent ::
  "(string \<Rightarrow> date) \<Rightarrow> string \<Rightarrow> bill \<Rightarrow> string option \<Rightarrow> js_error + text_file" where
  "downloadBillCalendarEvent parse uuid bill formattedAmount =
     (let due = parse (bl_dueDate bill); start = calendarDate due
      in case next_day due of
           None \<Rightarrow> Inl RangeError
         | Some t \<Rightarrow> Inr
             \<lparr>df_name = (if safeFilename (bl_name bill) = [] then ''bill'' else safeFilename (bl_name bill)) @ ''-reminder.ics'',
              df_bom = False,
              df_content = join [CR, LF] (event_lines start (calendarDate (parse (toISOString t))) uuid bill formattedAmount),
              df_mime = ''text/calendar;charset=utf-8''\<rparr>)"

section \<open>Readers of the formats\<close>

text \<open>The rest of a quoted cell.\<close>

fun quoted :: "string \<Rightarrow> (string \<times> string) option" where
  "quoted [] = None"
| "quoted (c # s) = (if c \<noteq> CHR 0x22 then map_option (\<lambda>(v, r). (c # v, r)) (quoted s)
     else (case s of
         d # t \<Rightarrow> if d = CHR 0x22 then map_option (\<lambda>(v, r). (CHR 0x22 # v, r)) (quoted t) else Some ([], s)
       | [] \<Rightarrow> Some ([], [])))"

definition bare_char :: "char \<Rightarrow> bool" where
  "bare_char c = (c \<notin> {CHR 0x22, CHR '','', LF, CR})"

definition read_cell :: "string \<Rightarrow> (string \<times> string) option" where
  "read_cell s = (case s of
       c # t \<Rightarrow> if c = CHR 0x22 then quoted t else Some (takeWhile bare_char s, dropWhile bare_char s)
     | [] \<Rightarrow> Some ([], []))"

lemma quoted_shorter: "quoted s = Some (v, r) \<Longrightarrow> length r \<le> length s"
  by (induction s arbitrary: v r rule: quoted.induct) (fastforce split: if_splits list.splits)+

lemma read_cell_shorter: "read_cell s = Some (v, r) \<Longrightarrow> length r \<le> length s"
  by (auto simp: read_cell_def dest: quoted_shorter intro: le_SucI [OF length_dropWhile_le] split: list.splits if_splits)

text \<open>A table: cells separated by commas, lines by CR LF.\<close>

function read_csv :: "string \<Rightarrow> string list list option" where
  "read_csv s = (case read_cell s of
       None \<Rightarrow> None
     | Some (v, r) \<Rightarrow> (case r of
           [] \<Rightarrow> Some [[v]]
         | c # t \<Rightarrow>
             if c = CHR '','' then (case read_csv t of Some (row # rows) \<Rightarrow> Some ((v # row) # rows) | _ \<Rightarrow> None)
             else if c = CR \<and> take 1 t = [LF] then map_option (\<lambda>rows. [v] # rows) (read_csv (drop 1 t))
             else None))"
  by pat_completeness auto
termination
  by (relation "measure length") (auto dest!: read_cell_shorter)

declare read_csv.simps [simp del]

fun unescape :: "string \<Rightarrow> string" where
  "unescape [] = []"
| "unescape [c] = [c]"
| "unescape (c # d # s) = (if c = CHR 0x5C then (if d = CHR ''n'' \<or> d = CHR ''N'' then LF else d) # unescape s
     else c # unescape (d # s))"

text \<open>The lines of a calendar.\<close>

fun crlf_lines :: "string \<Rightarrow> string list" where
  "crlf_lines [] = [[]]"
| "crlf_lines [c] = [[c]]"
| "crlf_lines (c # d # s) = (if c = CR \<and> d = LF then [] # crlf_lines s
     else (case crlf_lines (d # s) of l # ls \<Rightarrow> (c # l) # ls | [] \<Rightarrow> [[c]]))"

section \<open>The table reads back\<close>

lemma quoted_doubled:
  "take 1 rest \<noteq> [CHR 0x22] \<Longrightarrow> quoted (replace_all (CHR 0x22) [CHR 0x22, CHR 0x22] v @ CHR 0x22 # rest) = Some (v, rest)"
  by (induction v) (auto simp: replace_all_def split: list.split)

lemma takeWhile_stop:
  assumes "list_all P v" "rest = [] \<or> \<not> P (hd rest)"
  shows "takeWhile P (v @ rest) = v" "dropWhile P (v @ rest) = rest"
  using assms by (induction v; cases rest; simp)+

text \<open>What may follow a cell.\<close>

definition cell_end :: "string \<Rightarrow> bool" where
  "cell_end rest = (case rest of [] \<Rightarrow> True | c # _ \<Rightarrow> c = CHR '','' \<or> c = CR)"

lemma read_cell_escaped: "cell_end rest \<Longrightarrow> read_cell (escapeCsv v @ rest) = Some (v, rest)"
proof (cases "list_ex (\<lambda>c. c \<in> {CHR 0x22, CHR '','', LF, CR}) v")
  case True
  assume "cell_end rest"
  then have "take 1 rest \<noteq> [CHR 0x22]" by (auto simp: cell_end_def split: list.splits)
  from quoted_doubled [OF this, of v] True show ?thesis by (simp add: escapeCsv_def read_cell_def)
next
  case False
  assume r: "cell_end rest"
  have b: "list_all bare_char v" using False by (auto simp: list_ex_iff list_all_iff bare_char_def)
  have "rest = [] \<or> \<not> bare_char (hd rest)" using r by (auto simp: cell_end_def bare_char_def split: list.splits)
  note s = takeWhile_stop [OF b this]
  have q: "v @ rest = c # t \<Longrightarrow> c \<noteq> CHR 0x22" for c t
    using b r by (cases v) (auto simp: bare_char_def cell_end_def)
  have e: "escapeCsv v = v" using False by (simp add: escapeCsv_def)
  show ?thesis unfolding e using s q by (auto simp: read_cell_def split: list.split)
qed

lemma read_csv_cell: "cell_end rest \<Longrightarrow> read_csv (escapeCsv v @ rest) = (case rest of
      [] \<Rightarrow> Some [[v]]
    | c # t \<Rightarrow>
        if c = CHR '','' then (case read_csv t of Some (row # rows) \<Rightarrow> Some ((v # row) # rows) | _ \<Rightarrow> None)
        else if c = CR \<and> take 1 t = [LF] then map_option (\<lambda>rows. [v] # rows) (read_csv (drop 1 t))
        else None)"
  by (subst read_csv.simps) (simp add: read_cell_escaped)

lemma read_csv_row:
  assumes "row \<noteq> []"
  shows "read_csv (join '','' (map escapeCsv row)) = Some [row]"
    "read_csv (join '','' (map escapeCsv row) @ CR # LF # text) = map_option (\<lambda>rows. row # rows) (read_csv text)"
proof -
  have *: "tail = [] \<or> tail = CR # LF # text \<Longrightarrow> read_csv (join '','' (map escapeCsv row) @ tail) =
     (if tail = [] then Some [row] else map_option (\<lambda>rows. row # rows) (read_csv text))" for tail
    using assms
  proof (induction row rule: induct_list012)
    case (2 v)
    then have "cell_end tail" by (auto simp: cell_end_def)
    with 2 show ?case by (auto simp: read_csv_cell)
  next
    case (3 v w row)
    have "cell_end ('','' @ join '','' (map escapeCsv (w # row)) @ tail)" by (simp add: cell_end_def)
    from read_csv_cell [OF this, of v] 3 show ?case by (auto split: option.split list.split)
  qed simp
  show "read_csv (join '','' (map escapeCsv row)) = Some [row]" using * [of "[]"] by simp
  show "read_csv (join '','' (map escapeCsv row) @ CR # LF # text) = map_option (\<lambda>rows. row # rows) (read_csv text)"
    using * [of "CR # LF # text"] by simp
qed

lemma read_csv_text:
  assumes "rows \<noteq> []" "list_all (\<lambda>row. row \<noteq> []) rows"
  shows "read_csv (csv_text rows) = Some rows"
  using assms
proof (induction rows rule: induct_list012)
  case (2 row)
  then show ?case by (simp add: csv_text_def read_csv_row)
next
  case (3 row row' rows)
  then show ?case by (simp add: csv_text_def read_csv_row)
qed simp

lemma csv_rows_shape: "csv_rows parse nt conceal ts = Inr rows \<Longrightarrow> list_all (\<lambda>row. row \<noteq> []) rows \<and>
    list_all2 (\<lambda>t row. csv_row parse nt conceal t = Inr row) ts rows"
  by (induction ts arbitrary: rows) (auto simp: bind_result_def csv_row_def split: sum.splits option.splits)

section \<open>The calendar reads back\<close>

definition calendar_char :: "char \<Rightarrow> string" where
  "calendar_char c = (if c = CHR 0x5C then [CHR 0x5C, CHR 0x5C] else if c = LF then [CHR 0x5C, CHR ''n'']
     else if c = CHR '','' then [CHR 0x5C, CHR '',''] else if c = CHR '';'' then [CHR 0x5C, CHR '';''] else [c])"

lemma escapeCalendar_chars: "escapeCalendarText s = concat (map calendar_char s)"
  by (induction s) (simp_all add: escapeCalendarText_def replace_all_def calendar_char_def)

lemma unescape_escaped: "unescape (escapeCalendarText s) = s"
proof -
  have step: "unescape (calendar_char c @ s) = c # unescape s" for c s
    by (cases s) (simp_all add: calendar_char_def)
  show ?thesis by (induction s) (simp_all add: escapeCalendar_chars step)
qed

lemma escaped_no_LF: "LF \<notin> set (escapeCalendarText s)"
  by (auto simp: escapeCalendar_chars calendar_char_def split: if_splits)

lemma crlf_lines_nonempty: "crlf_lines s \<noteq> []"
  by (induction s rule: crlf_lines.induct) (auto split: list.split)

lemma crlf_line: "LF \<notin> set l \<Longrightarrow> crlf_lines (l @ CR # LF # s) = l # crlf_lines s"
proof (induction l)
  case (Cons c l)
  then have "c \<noteq> LF" "crlf_lines (l @ CR # LF # s) = l # crlf_lines s" by auto
  with Cons.prems show ?case by (cases l) auto
qed simp

lemma crlf_last: "LF \<notin> set l \<Longrightarrow> crlf_lines l = [l]"
proof (induction l)
  case (Cons c l)
  then show ?case by (cases l) auto
qed simp

lemma crlf_lines_join:
  assumes "ls \<noteq> []" "list_all (\<lambda>l. LF \<notin> set l) ls"
  shows "crlf_lines (join [CR, LF] ls) = ls"
  using assms
proof (induction ls rule: induct_list012)
  case (3 l l' ls)
  then show ?case by (simp add: crlf_line)
qed (simp_all add: crlf_last)

lemma digits_no_LF: "LF \<notin> set (nat_digits n)"
  using all_digits_nat_digits [of n] by (auto simp: all_digits_def is_digit_def code_of_def list_all_iff)

lemma calendarDate_no_LF: "LF \<notin> set (calendarDate d)"
proof -
  have "LF \<notin> set (field_string x)" for x
    using digits_no_LF by (cases x) (simp_all add: field_string_def int_string_def)
  then show ?thesis by (simp add: calendarDate_def pad_def pad_start_def)
qed

section \<open>File names\<close>

lemma dash_runs_chars: "list_all (\<lambda>c. name_char c \<or> c = CHR ''-'') (dash_runs b s)"
  by (induction b s rule: dash_runs.induct) auto

lemma safeFilename_chars: "list_all (\<lambda>c. name_char c \<or> c = CHR ''-'') (safeFilename s)"
proof -
  have "set (safeFilename s) \<subseteq> set (dash_runs False (js_lower (js_trim s)))"
    unfolding safeFilename_def strip_dashes_def
    by (metis (no_types, lifting) set_dropWhileD set_rev set_take_subset subset_iff)
  with dash_runs_chars show ?thesis by (metis (no_types, lifting) list_all_iff subset_iff)
qed

lemma safeFilename_length: "length (safeFilename s) \<le> 64"
  by (simp add: safeFilename_def)

section \<open>Properties\<close>

text \<open>C26. The table of the transactions reads back: a reader of RFC 4180 gets the header and one row of seven cells for
  every transaction, in their order and with the texts as they are, whatever commas, quotes and line ends the
  merchants and categories contain; the name of the file is a safe one of at most 64 characters and the suffix.\<close>

theorem transactions_csv_reads_back:
  assumes "downloadTransactionsCsv parse num_text txs workspaceName conceal = Inr f"
  shows "\<exists>rows base. read_csv (df_content f) = Some (csv_header # rows) \<and>
     list_all2 (\<lambda>t row. csv_row parse num_text conceal t = Inr row) txs rows \<and>
     df_name f = base @ ''-transactions.csv'' \<and> base \<noteq> [] \<and> length base \<le> 64 \<and>
     list_all (\<lambda>c. name_char c \<or> c = CHR ''-'') base"
proof -
  define base where "base = (if safeFilename workspaceName = [] then ''ledgerly'' else safeFilename workspaceName)"
  obtain rows where r: "csv_rows parse num_text conceal txs = Inr rows"
    and f: "df_content f = csv_text (csv_header # rows)" "df_name f = base @ ''-transactions.csv''"
    using assms by (auto simp: downloadTransactionsCsv_def bind_result_def Let_def base_def split: sum.splits)
  have h: "csv_header \<noteq> []" by (simp add: csv_header_def)
  have "read_csv (df_content f) = Some (csv_header # rows)"
    unfolding f(1) by (rule read_csv_text) (use csv_rows_shape [OF r] h in simp_all)
  moreover have "list_all (\<lambda>c. name_char c \<or> c = CHR ''-'') base \<and> length base \<le> 64 \<and> base \<noteq> []"
    using safeFilename_chars [of workspaceName] safeFilename_length [of workspaceName]
    by (simp add: base_def name_char_def is_lower_az_def is_digit_def code_of_def)
  ultimately show ?thesis using csv_rows_shape [OF r] f(2) by blast
qed

theorem transactions_csv_reads_back_witness:
  "\<exists>f rows. downloadTransactionsCsv (\<lambda>_. Some 0) (\<lambda>_. ''5'') [example_entry Credit 500] ''My Home'' False = Inr f \<and>
     read_csv (df_content f) = Some (csv_header # rows) \<and> length rows = 1"
proof -
  have "\<exists>f. downloadTransactionsCsv (\<lambda>_. Some 0) (\<lambda>_. ''5'') [example_entry Credit 500] ''My Home'' False = Inr f"
    by (simp add: downloadTransactionsCsv_def csv_row_def bind_result_def Let_def)
  then obtain f where f: "downloadTransactionsCsv (\<lambda>_. Some 0) (\<lambda>_. ''5'') [example_entry Credit 500] ''My Home'' False = Inr f" ..
  from transactions_csv_reads_back [OF this] obtain rows where
    "read_csv (df_content f) = Some (csv_header # rows)"
    "list_all2 (\<lambda>t row. csv_row (\<lambda>_. Some 0) (\<lambda>_. ''5'') False t = Inr row) [example_entry Credit 500] rows"
    by blast
  then show ?thesis using f list_all2_lengthD by fastforce
qed

text \<open>The reminder of a bill is one event whatever its name: the file has exactly the lines of the event, so no text
  of the bill opens a line of its own, and a reader of RFC 5545 gets the name and the details as they are.\<close>

theorem bill_calendar_reads_back:
  assumes "downloadBillCalendarEvent parse uuid bill formattedAmount = Inr f" "LF \<notin> set uuid"
  shows "\<exists>until. crlf_lines (df_content f) = event_lines (calendarDate (parse (bl_dueDate bill))) until uuid bill formattedAmount \<and>
     unescape (drop 8 (crlf_lines (df_content f) ! 9)) = bl_name bill @ '' payment due'' \<and>
     unescape (drop 12 (crlf_lines (df_content f) ! 10)) = bill_details bill formattedAmount"
proof -
  obtain t where c: "df_content f = join [CR, LF] (event_lines (calendarDate (parse (bl_dueDate bill)))
      (calendarDate (parse (toISOString t))) uuid bill formattedAmount)"
    using assms(1) by (auto simp: downloadBillCalendarEvent_def Let_def split: option.splits)
  have "crlf_lines (df_content f) = event_lines (calendarDate (parse (bl_dueDate bill)))
      (calendarDate (parse (toISOString t))) uuid bill formattedAmount"
    unfolding c
    by (rule crlf_lines_join) (use assms(2) calendarDate_no_LF escaped_no_LF in \<open>simp_all add: event_lines_def\<close>)
  then show ?thesis by (auto simp: event_lines_def unescape_escaped)
qed

theorem bill_calendar_reads_back_witness:
  "\<exists>f. downloadBillCalendarEvent (\<lambda>_. Some 0) ''u'' \<lparr>bl_id = ''b'', bl_name = ''Rent, flat'', bl_dueDate = ''1970-01-01'',
       bl_amount = \<lparr>amountMinor = Fin 1, currency = ''INR''\<rparr>, bl_autopay = False, bl_frequency = None\<rparr> None = Inr f \<and>
     unescape (drop 8 (crlf_lines (df_content f) ! 9)) = ''Rent, flat payment due''"
proof -
  let ?b = "\<lparr>bl_id = ''b'', bl_name = ''Rent, flat'', bl_dueDate = ''1970-01-01'',
       bl_amount = \<lparr>amountMinor = Fin 1, currency = ''INR''\<rparr>, bl_autopay = False, bl_frequency = None\<rparr>"
  have "next_day (Some 0) \<noteq> None" by code_simp
  then obtain f where f: "downloadBillCalendarEvent (\<lambda>_. Some 0) ''u'' ?b None = Inr f"
    by (auto simp: downloadBillCalendarEvent_def Let_def)
  from bill_calendar_reads_back [OF this] show ?thesis using f by auto
qed

end
