(* ===== verification/Imports.thy ===== *)
theory Imports
  imports Downloads MoneyInput
begin

text \<open>
  Importing a statement (pages/finance/imports.tsx): the hint that splits the uploaded text into lines and
  cells, the text remembered for a session, the upload form, the mapping of columns, the review of the
  rows with its pages, its bulk actions and the decision per row, and the commit. Each mutation is a request
  with a reply; \<open>isPending\<close> is what the last render has seen of it.
\<close>

section \<open>The mapping\<close>

record import_mapping =
  im_hasHeader :: bool
  im_dateColumn :: int
  im_descriptionColumn :: int
  im_amountColumn :: int
  im_debitColumn :: int
  im_creditColumn :: int
  im_notesColumn :: int
  im_referenceColumn :: int
  im_dateFormat :: string
  im_amountMode :: string

definition defaultMapping :: import_mapping where
  "defaultMapping = \<lparr>im_hasHeader = True, im_dateColumn = 0, im_descriptionColumn = 1, im_amountColumn = 2, im_debitColumn = - 1,
     im_creditColumn = - 1, im_notesColumn = - 1, im_referenceColumn = - 1, im_dateFormat = ''auto'', im_amountMode = []\<rparr>"

definition change_amount_mode :: "string \<Rightarrow> import_mapping \<Rightarrow> import_mapping" where
  "change_amount_mode next m =
     (if next = ''two_column''
      then m\<lparr>im_amountMode := next, im_debitColumn := max (im_debitColumn m) 0, im_creditColumn := max (im_creditColumn m) 1,
             im_amountColumn := - 1\<rparr>
      else m\<lparr>im_amountMode := next, im_amountColumn := max (im_amountColumn m) 0, im_debitColumn := - 1, im_creditColumn := - 1\<rparr>)"

section \<open>The hint\<close>

text \<open>\<open>split(/\r?\n/)\<close>.\<close>

fun split_lines :: "string \<Rightarrow> string list" where
  "split_lines [] = [[]]"
| "split_lines (c # s) =
     (if c = LF then [] # split_lines s
      else if c = CR \<and> take 1 s = [LF] then split_lines s
      else (case split_lines s of l # ls \<Rightarrow> (c # l) # ls | [] \<Rightarrow> [[c]]))"

fun split_commas :: "string \<Rightarrow> string list" where
  "split_commas [] = [[]]"
| "split_commas (c # s) = (if c = CHR '','' then [] # split_commas s
     else (case split_commas s of l # ls \<Rightarrow> (c # l) # ls | [] \<Rightarrow> [[c]]))"

text \<open>\<open>replace(/^"|"$/g, '')\<close>.\<close>

definition strip_quotes :: "string \<Rightarrow> string" where
  "strip_quotes s =
     (let t = (case s of c # r \<Rightarrow> if c = CHR 0x22 then r else s | [] \<Rightarrow> [])
      in if t \<noteq> [] \<and> last t = CHR 0x22 then butlast t else t)"

definition hint_lines :: "string \<Rightarrow> string list" where
  "hint_lines csv = filter (\<lambda>line. js_trim line \<noteq> []) (split_lines csv)"

definition splitCsvHint :: "string \<Rightarrow> string list list" where
  "splitCsvHint csv = map (\<lambda>line. map (\<lambda>cell. strip_quotes (js_trim cell)) (split_commas line)) (take 4 (hint_lines csv))"

definition countDataRows :: "string \<Rightarrow> nat" where
  "countDataRows csv = length (hint_lines csv) - 1"

definition columnCount :: "string list list \<Rightarrow> import_mapping \<Rightarrow> int" where
  "columnCount previewRows m = foldl max 1 (map (\<lambda>row. int (length row)) previewRows
     @ map (\<lambda>c. c + 1) [im_dateColumn m, im_descriptionColumn m, im_amountColumn m, im_debitColumn m, im_creditColumn m])"

section \<open>The remembered text\<close>

definition CSV_MEMORY_PREFIX :: string where
  "CSV_MEMORY_PREFIX = ''ledgerly:import-csv:''"

text \<open>\<open>fits\<close> says whether the session storage accepts the text.\<close>

definition rememberSessionCsv :: "bool \<Rightarrow> string \<Rightarrow> string \<Rightarrow> (string, string) omap \<Rightarrow> (string, string) omap" where
  "rememberSessionCsv fits sessionId csv storage =
     (if fits then om_set storage (CSV_MEMORY_PREFIX @ sessionId) csv else storage)"

definition recalledSessionCsv :: "string \<Rightarrow> (string, string) omap \<Rightarrow> string option" where
  "recalledSessionCsv sessionId storage = (case om_get storage (CSV_MEMORY_PREFIX @ sessionId) of
       Some (c # cs) \<Rightarrow> Some (c # cs) | _ \<Rightarrow> None)"

section \<open>Uploading\<close>

record upload_body =
  ub_accountId :: string
  ub_sourceName :: string
  ub_csv :: string
  ub_mapping :: import_mapping

definition upload_errors :: "string \<Rightarrow> string \<Rightarrow> (string \<times> string) list" where
  "upload_errors accountId csvText =
     (if accountId = [] then [(''accountId'', ''Choose an account'')] else [])
     @ (if js_trim csvText = [] then [(''csv'', ''Choose a CSV file to import'')] else [])"

definition submitUpload :: "string \<Rightarrow> string \<Rightarrow> string \<Rightarrow> (string \<times> string) list + upload_body" where
  "submitUpload accountId fileName csvText =
     (if upload_errors accountId csvText \<noteq> [] then Inl (upload_errors accountId csvText)
      else Inr \<lparr>ub_accountId = accountId, ub_sourceName = (if fileName = [] then ''Statement'' else fileName),
             ub_csv = csvText, ub_mapping = defaultMapping\<rparr>)"

section \<open>The rows under review\<close>

datatype row_state = Row_invalid | Row_new | Row_duplicate | Row_possible_match

record import_match =
  mt_label :: "string option"
  mt_occurredAt :: "string option"
  mt_amountMinor :: "jsnum option"
  mt_score :: "jsnum option"

datatype row_direction = Row_debit | Row_credit

record import_row =
  ir_index :: nat
  ir_rawDate :: string
  ir_occurredAt :: string
  ir_description :: string
  ir_notes :: "string option"
  ir_reference :: "string option"
  ir_amountMinor :: jsnum
  ir_direction :: row_direction
  ir_state :: row_state
  ir_error :: "string option"
  ir_action :: string
  ir_match :: "import_match option"

abbreviation ir_hasMatch :: "import_row \<Rightarrow> bool" where
  "ir_hasMatch r \<equiv> ir_match r \<noteq> None"

record import_summary =
  is_totalRows :: nat
  is_validRows :: nat
  is_errorRows :: nat
  is_duplicateRows :: nat
  is_possibleMatches :: nat
  is_newRows :: nat
  is_ignoredRows :: nat
  is_createCount :: nat
  is_linkCount :: nat

text \<open>Of a session: its result and its times are only shown.\<close>

record import_session =
  se_id :: string
  se_accountId :: string
  se_status :: string
  se_sourceName :: string
  se_currency :: string
  se_mapping :: import_mapping
  se_rows :: "import_row list"
  se_summary :: import_summary

record resolution =
  rs_index :: nat
  rs_action :: string
  rs_transactionId :: "string option"

definition blockingErrors :: "import_row list \<Rightarrow> nat" where
  "blockingErrors rows = length (filter (\<lambda>r. ir_state r = Row_invalid \<and> ir_action r \<noteq> ''ignore'') rows)"

definition pendingDecisions :: "import_row list \<Rightarrow> nat" where
  "pendingDecisions rows = length (filter (\<lambda>r. ir_action r = []) rows)"

definition readyToCommit :: "bool \<Rightarrow> import_session \<Rightarrow> bool" where
  "readyToCommit resolvePending s =
     (\<not> resolvePending \<and> blockingErrors (se_rows s) = 0 \<and> pendingDecisions (se_rows s) = 0
      \<and> (is_createCount (se_summary s) > 0 \<or> is_linkCount (se_summary s) > 0))"

definition bulkResolve :: "(import_row \<Rightarrow> bool) \<Rightarrow> string \<Rightarrow> import_row list \<Rightarrow> resolution list option" where
  "bulkResolve P action rows = (let targets = filter P rows in if targets = [] then None
     else Some (map (\<lambda>r. \<lparr>rs_index = ir_index r, rs_action = action, rs_transactionId = None\<rparr>) targets))"

text \<open>The values of the select of a row that can be chosen, and what choosing one does.\<close>

definition row_options :: "import_row \<Rightarrow> string list" where
  "row_options row =
     (if ir_state row = Row_invalid then [''undecided''] else [])
     @ (if ir_state row = Row_invalid then [] else [''create'']) @ [''ignore'']
     @ (if ir_state row \<noteq> Row_invalid \<and> ir_hasMatch row then [''link''] else [])
     @ (if ir_state row \<noteq> Row_invalid \<and> \<not> ir_hasMatch row then [''pick''] else [])"

datatype row_effect = Opens_picker | Resolves resolution

definition setAction :: "import_row \<Rightarrow> string \<Rightarrow> row_effect" where
  "setAction row action = (if action = ''link'' \<and> \<not> ir_hasMatch row then Opens_picker
     else Resolves \<lparr>rs_index = ir_index row, rs_action = action, rs_transactionId = None\<rparr>)"

definition pick_match :: "import_row \<Rightarrow> string \<Rightarrow> resolution" where
  "pick_match row transactionId = \<lparr>rs_index = ir_index row, rs_action = ''link'', rs_transactionId = Some transactionId\<rparr>"

text \<open>The three buttons over the rows.\<close>

datatype bulk_button = Ignore_duplicates | Accept_matches | Add_new

fun bulk_targets :: "bulk_button \<Rightarrow> import_row \<Rightarrow> bool" where
  "bulk_targets Ignore_duplicates r = (ir_state r = Row_duplicate)"
| "bulk_targets Accept_matches r = (ir_state r = Row_possible_match \<and> ir_hasMatch r)"
| "bulk_targets Add_new r = (ir_state r = Row_new)"

fun bulk_action :: "bulk_button \<Rightarrow> string" where
  "bulk_action Ignore_duplicates = ''ignore''"
| "bulk_action Accept_matches = ''link''"
| "bulk_action Add_new = ''create''"

text \<open>What the server asks of a decision before it looks anything up (src/api/internal/service/imports.go): a known
  action, a row that is not invalid for \<open>create\<close>, and a transaction for \<open>link\<close>.\<close>

definition server_admits :: "row_state \<Rightarrow> resolution \<Rightarrow> bool" where
  "server_admits st r =
     (if rs_action r = ''ignore'' then True
      else if rs_action r = ''create'' then st \<noteq> Row_invalid
      else if rs_action r = ''link'' then (case rs_transactionId r of None \<Rightarrow> False | Some t \<Rightarrow> js_trim t \<noteq> [])
      else False)"

section \<open>Pages\<close>

definition PAGE_SIZE :: nat where
  "PAGE_SIZE = 25"

definition pageCount :: "'a list \<Rightarrow> nat" where
  "pageCount rows = max ((length rows + PAGE_SIZE - 1) div PAGE_SIZE) 1"

definition safePage :: "'a list \<Rightarrow> nat \<Rightarrow> nat" where
  "safePage rows pageIndex = min pageIndex (pageCount rows - 1)"

definition visible_rows :: "'a list \<Rightarrow> nat \<Rightarrow> 'a list" where
  "visible_rows rows pageIndex = take PAGE_SIZE (drop (safePage rows pageIndex * PAGE_SIZE) rows)"

section \<open>The review\<close>

datatype review_request = Posted_resolutions "resolution list" | Posted_commit string

text \<open>\<open>rv_resolves\<close> and \<open>rv_commits\<close>: requests without a reply; the \<open>seen\<close> fields are what the last render
  knows of them; \<open>rv_session\<close> is the session it shows.\<close>

record review =
  rv_session :: import_session
  rv_confirming :: bool
  rv_resolves :: nat
  rv_seenResolving :: bool
  rv_commits :: nat
  rv_seenCommitting :: bool
  rv_done :: bool
  rv_log :: "review_request list"

datatype review_event =
    Review_render import_session
  | Choose_action nat string
  | Bulk_action bulk_button
  | Resolve_reply
  | Click_import
  | Cancel_commit
  | Click_commit string
  | Commit_reply bool

definition post_resolutions :: "resolution list \<Rightarrow> review \<Rightarrow> review" where
  "post_resolutions rs v = v\<lparr>rv_resolves := Suc (rv_resolves v), rv_log := rv_log v @ [Posted_resolutions rs]\<rparr>"

fun review_step :: "review \<Rightarrow> review_event \<Rightarrow> review" where
  "review_step v (Review_render s) = v\<lparr>rv_session := s, rv_seenResolving := (0 < rv_resolves v), rv_seenCommitting := (0 < rv_commits v)\<rparr>"
| "review_step v (Choose_action i action) = (case List.find (\<lambda>r. ir_index r = i) (se_rows (rv_session v)) of
       None \<Rightarrow> v
     | Some row \<Rightarrow> if action \<notin> set (row_options row) then v
         else (case setAction row action of Opens_picker \<Rightarrow> v | Resolves r \<Rightarrow> post_resolutions [r] v))"
| "review_step v (Bulk_action b) = (case bulkResolve (bulk_targets b) (bulk_action b) (se_rows (rv_session v)) of
        None \<Rightarrow> v | Some rs \<Rightarrow> post_resolutions rs v)"
| "review_step v Resolve_reply = v\<lparr>rv_resolves := rv_resolves v - 1\<rparr>"
| "review_step v Click_import = (if readyToCommit (rv_seenResolving v) (rv_session v) then v\<lparr>rv_confirming := True\<rparr> else v)"
| "review_step v Cancel_commit = v\<lparr>rv_confirming := False\<rparr>"
| "review_step v (Click_commit key) = (if \<not> rv_confirming v \<or> rv_seenCommitting v then v
     else v\<lparr>rv_commits := Suc (rv_commits v), rv_log := rv_log v @ [Posted_commit key]\<rparr>)"
| "review_step v (Commit_reply ok) = (if rv_commits v = 0 then v
     else (if ok then v\<lparr>rv_commits := rv_commits v - 1, rv_confirming := False, rv_done := True\<rparr>
           else v\<lparr>rv_commits := rv_commits v - 1\<rparr>))"

section \<open>Facts\<close>

lemma split_lines_nonempty: "split_lines s \<noteq> []"
  by (induction s rule: split_lines.induct) (auto split: list.split)

lemma split_commas_nonempty: "split_commas s \<noteq> []"
  by (induction s rule: split_commas.induct) (auto split: list.split)

lemma split_lines_line: "LF \<notin> set l \<Longrightarrow> CR \<notin> set l \<Longrightarrow> split_lines (l @ CR # LF # s) = l # split_lines s"
  by (induction l) auto

lemma split_lines_last: "LF \<notin> set l \<Longrightarrow> CR \<notin> set l \<Longrightarrow> split_lines l = [l]"
  by (induction l) auto

lemma split_lines_join:
  assumes "ls \<noteq> []" "list_all (\<lambda>l. LF \<notin> set l \<and> CR \<notin> set l) ls"
  shows "split_lines (join [CR, LF] ls) = ls"
  using assms
proof (induction ls rule: induct_list012)
  case (3 l l' ls)
  then show ?case by (simp add: split_lines_line)
qed (simp_all add: split_lines_last)

lemma split_commas_cell: "CHR '','' \<notin> set l \<Longrightarrow> split_commas (l @ CHR '','' # s) = l # split_commas s"
  by (induction l) auto

lemma split_commas_last: "CHR '','' \<notin> set l \<Longrightarrow> split_commas l = [l]"
  by (induction l) auto

lemma split_commas_join:
  assumes "cs \<noteq> []" "list_all (\<lambda>l. CHR '','' \<notin> set l) cs"
  shows "split_commas (join '','' cs) = cs"
  using assms
proof (induction cs rule: induct_list012)
  case (3 l l' ls)
  then show ?case by (simp add: split_commas_cell)
qed (simp_all add: split_commas_last)

text \<open>A plain cell: no quote, comma or line end, no space around it.\<close>

definition plain_cell :: "string \<Rightarrow> bool" where
  "plain_cell c = (list_all bare_char c \<and> js_trim c = c)"

definition plain_row :: "string list \<Rightarrow> bool" where
  "plain_row row = (list_all plain_cell row \<and> js_trim (join '','' row) \<noteq> [])"

lemma plain_escape: "plain_cell c \<Longrightarrow> escapeCsv c = c"
  by (auto simp: plain_cell_def escapeCsv_def bare_char_def list_all_iff list_ex_iff)

lemma plain_strip: "plain_cell c \<Longrightarrow> strip_quotes (js_trim c) = c"
  using last_in_set [of c]
  by (auto simp: plain_cell_def strip_quotes_def bare_char_def list_all_iff Let_def split: list.split)

lemma set_join: "set (join '','' cs) \<subseteq> insert (CHR '','') (\<Union> (set ` set cs))"
  by (induction cs rule: induct_list012) auto

lemma plain_row_line:
  assumes "plain_row row"
  shows "map escapeCsv row = row" "LF \<notin> set (join '','' row)" "CR \<notin> set (join '','' row)" "split_commas (join '','' row) = row"
    "map (\<lambda>cell. strip_quotes (js_trim cell)) row = row"
proof -
  have p: "\<And>c. c \<in> set row \<Longrightarrow> plain_cell c" and ne: "row \<noteq> []"
    using assms by (auto simp: plain_row_def list_all_iff js_trim_def trim_start_def trim_end_def)
  have b: "c \<in> set row \<Longrightarrow> x \<in> set c \<Longrightarrow> bare_char x" for c x using p [of c] by (auto simp: plain_cell_def list_all_iff)
  show "map escapeCsv row = row" using p plain_escape by (simp add: map_idI)
  show "map (\<lambda>cell. strip_quotes (js_trim cell)) row = row" using p plain_strip by (simp add: map_idI)
  show "LF \<notin> set (join '','' row)" "CR \<notin> set (join '','' row)" using set_join [of row] b by (auto simp: bare_char_def)
  show "split_commas (join '','' row) = row"
    by (rule split_commas_join [OF ne]) (use b in \<open>force simp: list_all_iff bare_char_def\<close>)
qed

section \<open>Properties\<close>

text \<open>For a statement of plain cells the hint of the form is what a reader of the format gets: the preview shows the
  first four rows, cell by cell, as RFC 4180 reads them, and the detected count is the number of rows after the
  header.\<close>

theorem import_preview_correct:
  assumes "rows \<noteq> []" "list_all plain_row rows"
  shows "read_csv (csv_text rows) = Some rows \<and> splitCsvHint (csv_text rows) = take 4 rows \<and>
    countDataRows (csv_text rows) = length rows - 1"
proof -
  have p: "\<And>row. row \<in> set rows \<Longrightarrow> plain_row row" using assms(2) by (simp add: list_all_iff)
  have ne: "list_all (\<lambda>row. row \<noteq> []) rows"
    using p by (force simp: list_all_iff plain_row_def js_trim_def trim_start_def trim_end_def)
  have lines: "map (\<lambda>row. join '','' (map escapeCsv row)) rows = map (join '','') rows"
    using plain_row_line(1) [OF p] by simp
  have "split_lines (csv_text rows) = map (join '','') rows"
    unfolding csv_text_def lines
    by (rule split_lines_join) (use assms(1) plain_row_line(2,3) [OF p] in \<open>simp_all add: list_all_iff\<close>)
  moreover have "filter (\<lambda>line. js_trim line \<noteq> []) (map (join '','') rows) = map (join '','') rows"
    using p by (auto simp: filter_id_conv plain_row_def)
  ultimately have h: "hint_lines (csv_text rows) = map (join '','') rows" by (simp add: hint_lines_def)
  have "map (\<lambda>row. map (\<lambda>cell. strip_quotes (js_trim cell)) (split_commas (join '','' row))) (take 4 rows) = take 4 rows"
  proof (rule map_idI)
    fix row assume "row \<in> set (take 4 rows)"
    then have "plain_row row" using p in_set_takeD by metis
    from plain_row_line(4,5) [OF this] show "map (\<lambda>cell. strip_quotes (js_trim cell)) (split_commas (join '','' row)) = row" by simp
  qed
  then show ?thesis using read_csv_text [OF assms(1) ne] h by (simp add: splitCsvHint_def countDataRows_def take_map comp_def)
qed

theorem import_preview_correct_witness:
  "splitCsvHint (csv_text [[''Date'', ''Amount''], [''2026-08-01'', ''5'']]) = [[''Date'', ''Amount''], [''2026-08-01'', ''5'']]"
proof -
  have "list_all plain_row [[''Date'', ''Amount''], [''2026-08-01'', ''5'']]"
    by (simp add: plain_row_def plain_cell_def bare_char_def js_trim_def trim_start_def trim_end_def is_space_def string_eval)
  from import_preview_correct [OF _ this] show ?thesis by simp
qed

text \<open>With a comma in a quoted cell the hint shifts the columns, which the form numbers by it.\<close>

lemma quoted_comma_shifts:
  "read_csv (csv_text [[''Shop, Ltd'', ''5'']]) = Some [[''Shop, Ltd'', ''5'']]"
  "splitCsvHint (csv_text [[''Shop, Ltd'', ''5'']]) = [[''Shop'', ''Ltd'', ''5'']]"
proof -
  show "read_csv (csv_text [[''Shop, Ltd'', ''5'']]) = Some [[''Shop, Ltd'', ''5'']]" by (rule read_csv_text) simp_all
  show "splitCsvHint (csv_text [[''Shop, Ltd'', ''5'']]) = [[''Shop'', ''Ltd'', ''5'']]" by code_simp
qed

text \<open>The pages show every row once, in order.\<close>

lemma pages_partition: "concat (map (visible_rows rows) [0..<pageCount rows]) = rows"
proof -
  have *: "concat (map (\<lambda>i. take k (drop (i * k) xs)) [0..<n]) = take (n * k) xs" for k n and xs :: "'a list"
  proof (induction n)
    case (Suc n)
    have "take (n * k) xs @ take k (drop (n * k) xs) = take (n * k + k) xs" by (simp add: take_add)
    then show ?case using Suc by (simp add: add.commute)
  qed simp
  have m: "map (visible_rows rows) [0..<pageCount rows] = map (\<lambda>i. take PAGE_SIZE (drop (i * PAGE_SIZE) rows)) [0..<pageCount rows]"
    by (auto simp: visible_rows_def safePage_def min_absorb1)
  have "length rows \<le> pageCount rows * PAGE_SIZE"
  proof -
    have "length rows \<le> (length rows + 24) div 25 * 25" by presburger
    also have "\<dots> \<le> pageCount rows * PAGE_SIZE" by (simp add: pageCount_def PAGE_SIZE_def)
    finally show ?thesis .
  qed
  then show ?thesis unfolding m * by simp
qed

text \<open>No option of the select of a row opens the search for a match: the option that should is \<open>pick\<close>, which is sent to
  the server as an action, and the server does not know it.\<close>

lemma picker_unreachable:
  "action \<in> set (row_options row) \<Longrightarrow> setAction row action \<noteq> Opens_picker"
  "setAction row ''pick'' = Resolves \<lparr>rs_index = ir_index row, rs_action = ''pick'', rs_transactionId = None\<rparr>"
  "\<not> server_admits st \<lparr>rs_index = i, rs_action = ''pick'', rs_transactionId = t\<rparr>"
  by (auto simp: row_options_def setAction_def server_admits_def split: if_splits)

text \<open>What the review posts.\<close>

definition no_target :: "review_request \<Rightarrow> bool" where
  "no_target q = (case q of Posted_resolutions rs \<Rightarrow> list_all (\<lambda>r. rs_transactionId r = None) rs | Posted_commit _ \<Rightarrow> True)"

lemma bulkResolve_no_target: "bulkResolve P a rows = Some rs \<Longrightarrow> list_all (\<lambda>r. rs_transactionId r = None) rs"
  by (auto simp: bulkResolve_def Let_def list_all_iff split: if_splits)

lemma review_step_no_target: "list_all no_target (rv_log v) \<Longrightarrow> list_all no_target (rv_log (review_step v e))"
  by (cases e) (auto simp: post_resolutions_def no_target_def setAction_def dest: bulkResolve_no_target
      split: option.split row_effect.split if_splits)

lemma reviews_no_target: "list_all no_target (rv_log v) \<Longrightarrow> list_all no_target (rv_log (foldl review_step v es))"
  by (induction es arbitrary: v) (simp_all add: review_step_no_target)

text \<open>Whatever is clicked in a review, a decision that the server admits adds the row or ignores it: none of the
  decisions to link a row that the page can send, by the select of the row or by the button for all suggested matches,
  names the transaction to link, which the server requires.\<close>

theorem review_never_links:
  assumes "rv_log v = []" "Posted_resolutions rs \<in> set (rv_log (foldl review_step v es))" "r \<in> set rs" "server_admits st r"
  shows "rs_action r = ''create'' \<and> st \<noteq> Row_invalid \<or> rs_action r = ''ignore''"
proof -
  have "list_all no_target (rv_log (foldl review_step v es))" using assms(1) by (simp add: reviews_no_target)
  with assms(2,3) have "rs_transactionId r = None" by (auto simp: list_all_iff no_target_def)
  with assms(4) show ?thesis by (auto simp: server_admits_def split: if_splits)
qed

definition review_example :: review where
  "review_example = \<lparr>rv_session = \<lparr>se_id = ''s'', se_accountId = ''a'', se_status = ''draft'', se_sourceName = ''Statement'',
       se_currency = ''EUR'', se_mapping = defaultMapping,
       se_rows = [\<lparr>ir_index = 0, ir_rawDate = ''2026-08-01'', ir_occurredAt = ''2026-08-01'', ir_description = ''Tea'',
         ir_notes = None, ir_reference = None, ir_amountMinor = Fin 5, ir_direction = Row_debit, ir_state = Row_new,
         ir_error = None, ir_action = [], ir_match = None\<rparr>],
       se_summary = \<lparr>is_totalRows = 1, is_validRows = 1, is_errorRows = 0, is_duplicateRows = 0, is_possibleMatches = 0,
         is_newRows = 1, is_ignoredRows = 0, is_createCount = 0, is_linkCount = 0\<rparr>\<rparr>,
     rv_confirming = False, rv_resolves = 0, rv_seenResolving = False, rv_commits = 0, rv_seenCommitting = False, rv_done = False,
     rv_log = []\<rparr>"

theorem review_never_links_witness:
  "rv_log (foldl review_step review_example [Bulk_action Add_new]) = [Posted_resolutions [\<lparr>rs_index = 0, rs_action = ''create'', rs_transactionId = None\<rparr>]] \<and>
   server_admits Row_new \<lparr>rs_index = 0, rs_action = ''create'', rs_transactionId = None\<rparr> \<and> ''create'' = ''create''"
proof -
  have l: "rv_log (foldl review_step review_example [Bulk_action Add_new]) = [Posted_resolutions [\<lparr>rs_index = 0, rs_action = ''create'', rs_transactionId = None\<rparr>]]"
    by (simp add: review_example_def bulkResolve_def post_resolutions_def Let_def)
  have s: "server_admits Row_new \<lparr>rs_index = 0, rs_action = ''create'', rs_transactionId = None\<rparr>" by (simp add: server_admits_def)
  have "rs_action \<lparr>rs_index = 0, rs_action = ''create'', rs_transactionId = None\<rparr> = ''create'' \<and> Row_new \<noteq> Row_invalid
     \<or> rs_action \<lparr>rs_index = 0, rs_action = ''create'', rs_transactionId = None\<rparr> = ''ignore''"
    by (rule review_never_links [of review_example "[\<lparr>rs_index = 0, rs_action = ''create'', rs_transactionId = None\<rparr>]" "[Bulk_action Add_new]" _ Row_new])
      (simp_all only: l s, simp_all add: review_example_def)
  then show ?thesis using l s by simp
qed

text \<open>Two clicks before the next render commit twice, under different keys.\<close>

lemma commits_twice:
  assumes "rv_confirming v" "\<not> rv_seenCommitting v"
  shows "rv_log (review_step (review_step v (Click_commit k)) (Click_commit k')) = rv_log v @ [Posted_commit k, Posted_commit k']"
  using assms by simp

end

