(* ===== verification/FormDialogs.thy ===== *)
theory FormDialogs
  imports Dashboard TransactionFilters TransactionDialog
begin

text \<open>
  What the dialogs of accounts, budgets, goals, claims and entries share (pages/finance-writes,
  pages/finance/record-edit-dialogs.tsx): checks of texts, the text of a stored amount and of a stored
  day in a form, and a submission, which either shows the errors of the fields or hands the checked
  request to the write flow of theory WriteFlow.
\<close>

section \<open>Texts\<close>

text \<open>\<open>z.string().trim().min(1, m)\<close> and \<open>z.string().trim().max(n, m)\<close>.\<close>

definition required :: "string \<Rightarrow> string \<Rightarrow> string list" where
  "required message value = (if length (js_trim value) < 1 then [message] else [])"

definition at_most_chars :: "nat \<Rightarrow> string \<Rightarrow> string \<Rightarrow> string list" where
  "at_most_chars n message value = (if length (js_trim value) > n then [message] else [])"

definition issues_of :: "string list + 'a \<Rightarrow> string list" where
  "issues_of r = (case r of Inl ms \<Rightarrow> ms | Inr _ \<Rightarrow> [])"

definition under :: "string \<Rightarrow> string list \<Rightarrow> issue list" where
  "under field ms = map (\<lambda>m. (Some field, m)) ms"

definition amount_of :: "string list + jsnum \<Rightarrow> rat" where
  "amount_of r = (case r of Inr (Fin x) \<Rightarrow> x | _ \<Rightarrow> 0)"

text \<open>An object schema: the checks of the fields, then those across fields, which the library runs on the
  parsed values. \<open>extra\<close> is what it reports of the latter although a field has failed; it changes the
  messages, never the outcome.\<close>

definition object_issues :: "issue list \<Rightarrow> issue list \<Rightarrow> issue list \<Rightarrow> issue list" where
  "object_issues extra own across = (if own \<noteq> [] then own @ extra else across)"

definition or_undefined_text :: "string \<Rightarrow> string option" where
  "or_undefined_text s = (if s = [] then None else Some s)"

definition text_or :: "string option \<Rightarrow> string \<Rightarrow> string" where
  "text_or s d = (case s of None \<Rightarrow> d | Some t \<Rightarrow> t)"

section \<open>A stored amount in a form\<close>

text \<open>\<open>x.toFixed(2)\<close> below 10 to the 21: of two nearest hundredths the upper one.\<close>

definition fixed2 :: "rat \<Rightarrow> string" where
  "fixed2 x = (let n = nat \<lfloor>\<bar>x\<bar> * 100 + 1 / 2\<rfloor> in
     (if x < 0 then ''-'' else []) @ nat_digits (n div 100) @ ''.'' @ pad_start 2 (CHR ''0'') (nat_digits (n mod 100)))"

definition majorFromMinor :: "jsnum \<Rightarrow> string" where
  "majorFromMinor minor = (case minor of
       Fin m \<Rightarrow> (let amount = fl64 (m / 100) in if is_whole amount then num_string (Fin amount) else fixed2 amount)
     | _ \<Rightarrow> num_string minor)"

text \<open>\<open>dateForInput\<close>: the UTC day of a stored time; \<open>parse\<close> is \<open>new Date(text)\<close>, \<open>fallback\<close> a time.\<close>

definition dateForInput :: "(string \<Rightarrow> date) \<Rightarrow> string option \<Rightarrow> int \<Rightarrow> string" where
  "dateForInput parse value fallback =
     (let parsed = (case value of None \<Rightarrow> Some fallback | Some s \<Rightarrow> if s = [] then Some fallback else parse s)
      in case parsed of None \<Rightarrow> take 10 (toISOString fallback) | Some t \<Rightarrow> take 10 (toISOString t))"

section \<open>Submitting\<close>

text \<open>A dialog: the errors it shows and its write flow. \<open>check\<close> is the check of the values, \<open>message\<close> what the
  demonstration says.\<close>

record 'b form_dialog =
  fd_errors :: "(string, string) omap"
  fd_flow :: "'b write_flow"

definition submit_form :: "bool \<Rightarrow> string \<Rightarrow> issue list + 'b \<Rightarrow> 'b form_dialog \<Rightarrow> 'b form_dialog" where
  "submit_form demoMode message checked d =
     (let flow = (fd_flow d)\<lparr>wf_feedback := None\<rparr>
      in case checked of
           Inl issues \<Rightarrow> d\<lparr>fd_errors := toFieldErrors issues, fd_flow := flow\<rparr>
         | Inr body \<Rightarrow> d\<lparr>fd_errors := [],
             fd_flow := snd (if demoMode then completeDemo message flow else submitLive body flow)\<rparr>)"

datatype ('v, 'b) form_event =
    Opened
  | Submit_values 'v
  | Edit_field string
  | Flow_event "'b flow_event"

text \<open>Only a submission sends: the other events of the flow are commits, replies and timers. \<open>report\<close> is what the
  dialog makes of the errors of fields that a reply brings.\<close>

definition flow_only :: "'b flow_event \<Rightarrow> bool" where
  "flow_only e = (case e of Submit _ \<Rightarrow> False | Demo _ \<Rightarrow> False | _ \<Rightarrow> True)"

definition server_errors ::
  "((string \<times> string) list \<Rightarrow> (string, string) omap) \<Rightarrow> 'b form_dialog \<Rightarrow> 'b flow_event \<Rightarrow> (string, string) omap" where
  "server_errors report d e = (case e of
       Reply_error r (Api_failure m (Some fs)) \<Rightarrow> if r \<in> set (wf_inFlight (fd_flow d)) then report fs else fd_errors d
     | _ \<Rightarrow> fd_errors d)"

definition form_step ::
  "('v \<Rightarrow> issue list + 'b) \<Rightarrow> ((string \<times> string) list \<Rightarrow> (string, string) omap) \<Rightarrow> bool \<Rightarrow> string \<Rightarrow> flow_options \<Rightarrow>
   'b form_dialog \<Rightarrow> ('v, 'b) form_event \<Rightarrow> 'b form_dialog" where
  "form_step check report demoMode message opts d e = (case e of
       Opened \<Rightarrow> d\<lparr>fd_errors := []\<rparr>
     | Submit_values v \<Rightarrow> submit_form demoMode message (check v) d
     | Edit_field f \<Rightarrow> d\<lparr>fd_errors := clearFieldError (fd_errors d) f\<rparr>
     | Flow_event e \<Rightarrow> if flow_only e then d\<lparr>fd_errors := server_errors report d e, fd_flow := flow_step opts (fd_flow d) e\<rparr> else d)"

definition new_form :: "'b form_dialog" where
  "new_form = \<lparr>fd_errors = [], fd_flow = initial_flow\<rparr>"

text \<open>The bodies sent to the server.\<close>

definition sent_bodies :: "'b form_dialog \<Rightarrow> 'b list" where
  "sent_bodies d = concat (map (\<lambda>a. case a of Sent_request b \<Rightarrow> [b] | _ \<Rightarrow> []) (wf_actions (fd_flow d)))"

section \<open>Amounts\<close>

lemma fl64_hundredths:
  assumes "\<bar>n\<bar> \<le> (2 ^ 50 :: int)"
  shows "\<bar>fl64 (of_int n / 100) - of_int n / 100\<bar> \<le> 1 / 800"
proof -
  let ?v = "of_int n / 100 :: rat"
  have v: "?v = 0 \<or> 1 / 1000 \<le> \<bar>?v\<bar>"
    by (cases "n = 0") (simp_all add: abs_divide divide_simps flip: of_int_abs)
  have "\<bar>fl64 ?v - ?v\<bar> \<le> \<bar>?v\<bar> * (1 / 2 ^ 53)" by (rule fl64_error [OF v])
  moreover have "\<bar>of_int n :: rat\<bar> \<le> 2 ^ 50" using assms by (simp flip: of_int_abs)
  ultimately show ?thesis by (simp add: abs_divide)
qed


definition shown_amount :: "int \<Rightarrow> string" where
  "shown_amount n = (if n < 0 then ''-'' else []) @ nat_digits (nat \<bar>n\<bar> div 100) @
     (if nat \<bar>n\<bar> mod 100 = 0 then [] else CHR ''.'' # pad_start 2 (CHR ''0'') (nat_digits (nat \<bar>n\<bar> mod 100)))"

lemma fl64_neg: "fl64 (- x) = - fl64 x"
  by (simp add: fl64_def)

lemma pos_string_whole: "pos_string (of_nat k) = nat_digits k"
  by (simp add: pos_string_def is_whole_def numeral_eq_Suc)

lemma majorFromMinor_nat:
  assumes "int k \<le> 2 ^ 50" "0 < k"
  shows "fl64 (of_nat k / 100) > 0"
    "is_whole (fl64 (of_nat k / 100)) \<longleftrightarrow> k mod 100 = 0"
    "k mod 100 = 0 \<Longrightarrow> fl64 (of_nat k / 100) = of_nat (k div 100)"
    "\<lfloor>fl64 (of_nat k / 100) * 100 + 1 / 2\<rfloor> = int k"
proof -
  let ?v = "of_nat k / 100 :: rat"
  have e: "\<bar>fl64 ?v - ?v\<bar> \<le> 1 / 800" using fl64_hundredths [of "int k"] assms(1) by simp
  have k1: "1 \<le> (of_nat k :: rat)" using assms(2) by simp
  then have "1 / 100 \<le> ?v" by simp
  with e show "fl64 ?v > 0" by linarith
  show w: "k mod 100 = 0 \<Longrightarrow> fl64 ?v = of_nat (k div 100)"
  proof -
    assume "k mod 100 = 0"
    then have d: "k = 100 * (k div 100)" by presburger
    then have "(of_nat k :: rat) = 100 * of_nat (k div 100)" by (metis of_nat_mult of_nat_numeral)
    then have v: "?v = of_nat (k div 100)" by simp
    have "k div 100 < 2 ^ 53" using assms(1) by simp
    with fl64_nat [of "k div 100"] show "fl64 ?v = of_nat (k div 100)" by (auto simp: v)
  qed
  show "is_whole (fl64 ?v) \<longleftrightarrow> k mod 100 = 0"
  proof
    assume a: "is_whole (fl64 ?v)"
    show "k mod 100 = 0"
    proof (rule ccontr)
      assume n: "k mod 100 \<noteq> 0"
      obtain z where z: "fl64 ?v = of_int z" using a by (metis is_whole_def)
      have "\<bar>of_int (100 * z - int k) :: rat\<bar> \<le> 1 / 8" using e by (simp add: z abs_le_iff field_simps)
      then have "\<bar>of_int (100 * z - int k) :: rat\<bar> < of_int 1" by simp
      then have "\<bar>100 * z - int k\<bar> < 1" by (simp only: of_int_abs [symmetric] of_int_less_iff)
      with n show False by presburger
    qed
  qed (use w in \<open>simp add: is_whole_def\<close>)
  show "\<lfloor>fl64 ?v * 100 + 1 / 2\<rfloor> = int k"
  proof -
    have "100 * ?v = of_nat k" by simp
    with e have "\<bar>fl64 ?v * 100 - of_nat k\<bar> < 1 / 2" by linarith
    then have "\<bar>fl64 ?v * 100 - of_int (int k)\<bar> < 1 / 2" by simp
    from math_round_close [OF this] show ?thesis by (simp add: math_round_def)
  qed
qed

lemma majorFromMinor_shown:
  assumes "\<bar>n\<bar> \<le> 2 ^ 50"
  shows "majorFromMinor (Fin (of_int n)) = shown_amount n"
proof (cases "n = 0")
  case True
  have "fl64 0 = 0" by (simp add: fl64_def)
  then show ?thesis using True pos_string_whole [of 0] by (simp add: majorFromMinor_def shown_amount_def is_whole_def num_string_def)
next
  case False
  define k where "k = nat \<bar>n\<bar>"
  have k: "int k \<le> 2 ^ 50" "0 < k" using assms False by (auto simp: k_def)
  note m = majorFromMinor_nat [OF k]
  define q r where qr: "q = k div 100" "r = k mod 100"
  define x where "x = fl64 (of_nat k / 100)"
  have n: "majorFromMinor (Fin (of_int n)) = (if n < 0 then ''-'' else []) @ majorFromMinor (Fin (of_nat k))"
  proof (cases "n < 0")
    case True
    then have "of_int n = - (of_nat k :: rat)" using k_def by simp
    then have f: "fl64 (of_int n / 100) = - x" using fl64_neg [of "of_nat k / 100"] by (simp add: x_def)
    have "is_whole (- x) \<longleftrightarrow> is_whole x" by (metis add.inverse_inverse floor_of_int is_whole_def of_int_minus)
    moreover have "x > 0" using m(1) by (simp add: x_def)
    ultimately show ?thesis using True
      by (simp add: majorFromMinor_def f x_def [symmetric] Let_def num_string_def fixed2_def)
  next
    case False
    then have "of_int n = (of_nat k :: rat)" using k_def by simp
    then show ?thesis using False by (simp only: if_False append_Nil)
  qed
  have "majorFromMinor (Fin (of_nat k)) = nat_digits q @ (if r = 0 then [] else CHR ''.'' # pad_start 2 (CHR ''0'') (nat_digits r))"
  proof (cases "r = 0")
    case True
    then have "is_whole x" "x = of_nat q" using m(2,3) qr by (simp_all add: x_def)
    then show ?thesis using True pos_string_whole [of q]
      by (simp add: majorFromMinor_def x_def [symmetric] num_string_def)
  next
    case False
    then have "\<not> is_whole x" "x > 0" "\<lfloor>x * 100 + 1 / 2\<rfloor> = int k" using m(1,2,4) qr by (simp_all add: x_def)
    then show ?thesis using False
      by (simp add: majorFromMinor_def x_def [symmetric] fixed2_def Let_def qr)
  qed
  then show ?thesis unfolding n shown_amount_def k_def [symmetric] qr by simp
qed

lemma shown_part:
  fixes q r :: nat
  assumes "r < 100"
  defines "u \<equiv> nat_digits q @ (if r = 0 then [] else CHR ''.'' # pad_start 2 (CHR ''0'') (nat_digits r))"
  shows "unsigned_money u" "takeWhile is_digit u = nat_digits q"
    "digits_value (pad_end 2 (CHR ''0'') (tl (dropWhile is_digit u))) = r"
    "u \<noteq> []" "is_digit (hd u)" "is_digit (last u)"
proof -
  let ?p = "pad_start 2 (CHR ''0'') (nat_digits r)"
  have "?p = pad (Some (int r))" by (simp add: pad_def field_string_def int_string_def)
  with pad2 [of "int r"] assms(1) have p: "length ?p = 2" "all_digits ?p" "digits_value ?p = r" by simp_all
  have q: "nat_digits q \<noteq> []" "all_digits (nat_digits q)" by simp_all
  note s = span_digits_money [OF q(2), of "CHR ''.'' # ?p"] span_digits_all [OF q(2)] dot_not_digit
  have z: "pad_end 2 (CHR ''0'') [] = ''00''" by code_simp
  show "unsigned_money u" "takeWhile is_digit u = nat_digits q"
    using p s q(1) by (simp_all add: u_def unsigned_money_def Let_def)
  have t: "tl (dropWhile is_digit u) = (if r = 0 then [] else ?p)" using s by (simp add: u_def)
  show "digits_value (pad_end 2 (CHR ''0'') (tl (dropWhile is_digit u))) = r"
  proof (cases "r = 0")
    case True
    have "digits_value ''00'' = 0" by code_simp
    with True show ?thesis unfolding t by (simp add: z)
  next
    case False
    then show ?thesis using p unfolding t by (simp add: pad_end_def)
  qed
  show "u \<noteq> []" using q(1) by (simp add: u_def)
  show "is_digit (hd u)" using q by (cases "nat_digits q") (simp_all add: u_def all_digits_def)
  have l: "is_digit (last xs)" if "xs \<noteq> []" "all_digits xs" for xs
    using that by (simp add: all_digits_def list_all_iff)
  have "?p \<noteq> []" using p(1) by auto
  then show "is_digit (last u)" using l [OF q] l [of ?p] p(2) by (simp add: u_def)
qed

lemma shown_amount_reads:
  shows "js_trim (shown_amount n) = shown_amount n" "MONEY_PATTERN (shown_amount n)" "entered_minor (shown_amount n) = n"
    "shown_amount n \<noteq> []"
proof -
  define k where "k = nat \<bar>n\<bar>"
  define u where "u = nat_digits (k div 100) @ (if k mod 100 = 0 then [] else CHR ''.'' # pad_start 2 (CHR ''0'') (nat_digits (k mod 100)))"
  have "k mod 100 < 100" by simp
  note p = shown_part [OF this, of "k div 100", folded u_def]
  have s: "shown_amount n = (if n < 0 then ''-'' else []) @ u" by (simp add: shown_amount_def u_def k_def)
  have h: "hd u \<noteq> CHR ''-''" using p(5) by (auto simp: is_digit_def code_of_def)
  have st: "strip_sign (shown_amount n) = (n < 0, u)"
    using p(4) h by (cases u) (auto simp: s strip_sign_def)
  show "MONEY_PATTERN (shown_amount n)" using p(1) by (simp add: MONEY_PATTERN_def st)
  have "100 * (k div 100) + k mod 100 = k" by simp
  then have "entered_minor (shown_amount n) = (if n < 0 then - int k else int k)"
    by (simp only: entered_minor_def st p(2,3) Let_def prod.case digits_value_nat_digits)
  then show "entered_minor (shown_amount n) = n" by (simp add: k_def)
  show "shown_amount n \<noteq> []" using p(4) by (simp add: s)
  have "\<not> is_space (CHR ''-'')" by (simp add: is_space_def code_of_def)
  then show "js_trim (shown_amount n) = shown_amount n"
    using p(4-6) digit_not_space by (intro js_trim_fixed) (simp add: s)
qed

lemma reopened_amount:
  assumes "\<bar>n\<bar> \<le> 2 ^ 50" "allowNegative \<or> 0 \<le> n" "allowZero \<or> n \<noteq> 0"
  shows "\<exists>x. moneyInputSchema allowNegative allowZero (majorFromMinor (Fin (of_int n))) = Inr (Fin x) \<and> toMinor x = n"
proof -
  let ?s = "shown_amount n" and ?x = "fl64 (of_int n / 100)"
  note r = shown_amount_reads [of n]
  have v: "number_value ?s = Fin ?x"
    using parse_number_money [OF r(2,1)] by (simp add: number_value_def r(3))
  have e: "\<bar>?x - of_int n / 100\<bar> \<le> 1 / 800" by (rule fl64_hundredths [OF assms(1)])
  have n: "\<bar>of_int n / 100 :: rat\<bar> \<le> 2 ^ 50 / 100"
  proof -
    have "\<bar>of_int n :: rat\<bar> \<le> of_int (2 ^ 50)" using assms(1) by (simp only: of_int_abs [symmetric] of_int_le_iff)
    then show ?thesis by (simp add: abs_divide)
  qed
  have "amount_in_range allowNegative allowZero (Fin ?x)"
  proof -
    have "\<bar>?x\<bar> \<le> 2 ^ 50 / 100 + 1 / 800" using e n by linarith
    then have "\<bar>?x\<bar> \<le> MAX_MAJOR_AMOUNT" unfolding MAX_MAJOR_AMOUNT_def by simp
    moreover have "0 \<le> ?x" if "0 \<le> n"
    proof (cases "n = 0")
      case False
      with that have "1 \<le> n" by simp
      then have "(of_int 1 :: rat) \<le> of_int n" by (simp only: of_int_le_iff)
      then have "1 / 100 \<le> of_int n / (100 :: rat)" by simp
      with e show ?thesis by linarith
    qed (simp add: fl64_def)
    moreover have "?x \<noteq> 0" if "n \<noteq> 0"
    proof
      assume "?x = 0"
      with e have "\<bar>of_int n\<bar> \<le> (1 / 8 :: rat)" by simp
      moreover have "(of_int 1 :: rat) \<le> of_int \<bar>n\<bar>" using that by (simp only: of_int_le_iff)
      ultimately show False by simp
    qed
    ultimately show ?thesis using assms(2,3) by (auto simp: amount_in_range_def)
  qed
  then have "moneyInputSchema allowNegative allowZero ?s = Inr (Fin ?x)"
    using r(4) by (simp add: moneyInputSchema_def Let_def r(1,2) v)
  then show ?thesis using toMinor_rounds_back [OF assms(1)] by (simp add: majorFromMinor_shown [OF assms(1)])
qed

section \<open>Accepted amounts\<close>

lemma rat_hundredth: "n \<noteq> 0 \<Longrightarrow> 1 / 100 \<le> \<bar>of_int n / 100 :: rat\<bar>"
proof -
  assume "n \<noteq> 0"
  then have "1 \<le> \<bar>n\<bar>" by simp
  then have "(of_int 1 :: rat) \<le> of_int \<bar>n\<bar>" by (simp only: of_int_le_iff)
  then show ?thesis by (simp add: abs_divide)
qed

lemma math_round_near: "\<bar>of_int (math_round y) - y\<bar> \<le> 1 / 2"
proof -
  have "of_int (math_round y) \<le> y + 1 / 2" "y + 1 / 2 < of_int (math_round y) + 1"
    unfolding math_round_def by (rule of_int_floor_le) (rule floor_correct [THEN conjunct2, unfolded of_int_add of_int_1])
  then show ?thesis by (intro abs_leI) linarith+
qed

lemma toMinor_near: "\<bar>of_int (toMinor (fl64 (of_int n / 100))) - of_int n :: rat\<bar> \<le> \<bar>of_int n\<bar> * (3 / 2 ^ 53) + 1 / 2"
proof -
  let ?v = "of_int n / 100 :: rat"
  have "\<bar>fl64 (fl64 ?v * 100) - ?v * 100\<bar> \<le> \<bar>?v * 100\<bar> * (3 / 2 ^ 53)"
    by (rule binary64.hundredfold_error) (cases "n = 0", simp_all only: rat_hundredth simp_thms, simp)
  then have a: "\<bar>fl64 (fl64 ?v * 100) - of_int n\<bar> \<le> \<bar>of_int n\<bar> * (3 / 2 ^ 53)" by simp
  show ?thesis using a math_round_near [of "fl64 (fl64 ?v * 100)"] unfolding toMinor_def by linarith
qed

lemma fl64_relative_hundredth: "\<bar>fl64 (of_int n / 100) - of_int n / 100\<bar> \<le> \<bar>of_int n / 100\<bar> * (1 / 2 ^ 53)"
proof (rule fl64_error)
  show "of_int n / 100 = (0 :: rat) \<or> 1 / 1000 \<le> \<bar>of_int n / 100 :: rat\<bar>"
  proof (cases "n = 0")
    case False
    from rat_hundredth [OF this] show ?thesis by linarith
  qed simp
qed

lemma accepted_minor:
  assumes "moneyInputSchema neg zero s = Inr (Fin v)"
  shows "\<bar>toMinor v\<bar> \<le> max_safe_integer" "\<not> neg \<Longrightarrow> 0 \<le> toMinor v" "\<not> neg \<Longrightarrow> \<not> zero \<Longrightarrow> 1 \<le> toMinor v"
proof -
  define n where "n = entered_minor (js_trim s)"
  have v: "v = fl64 (of_int n / 100)" and r: "amount_in_range neg zero (Fin v)"
    using moneyInputSchema_Inr [OF assms] by (simp_all add: n_def)
  have m: "\<bar>v\<bar> \<le> 90000000000000" "\<not> neg \<Longrightarrow> 0 \<le> v" "\<not> zero \<Longrightarrow> v \<noteq> 0"
    using r by (auto simp: amount_in_range_def MAX_MAJOR_AMOUNT_def split: if_splits)
  define x where "x = (of_int n :: rat)"
  have f: "\<bar>v - x / 100\<bar> \<le> \<bar>x / 100\<bar> * (1 / 2 ^ 53)" using fl64_relative_hundredth [of n] by (simp add: v x_def)
  have t: "\<bar>of_int (toMinor v) - x\<bar> \<le> \<bar>x\<bar> * (3 / 2 ^ 53) + 1 / 2" using toMinor_near [of n] by (simp only: v x_def)
  have small: "\<bar>x\<bar> \<le> 9000000000000002" 
  proof -
    have "\<bar>x / 100\<bar> \<le> \<bar>v\<bar> + \<bar>v - x / 100\<bar>" by linarith
    then have "\<bar>x / 100\<bar> \<le> 90000000000000 + \<bar>x / 100\<bar> * (1 / 2 ^ 53)" using f m(1) by linarith
    then show ?thesis by (simp add: abs_divide)
  qed
  have "\<bar>of_int (toMinor v) :: rat\<bar> \<le> 9000000000000010" using t small by simp
  then have "\<bar>of_int (toMinor v) :: rat\<bar> \<le> of_int max_safe_integer" by (simp add: max_safe_integer_def)
  then show "\<bar>toMinor v\<bar> \<le> max_safe_integer" by (simp only: of_int_abs [symmetric] of_int_le_iff)
  have pos: "0 \<le> x" if "0 \<le> v"
  proof (rule ccontr)
    assume a: "\<not> 0 \<le> x"
    with f have "v \<le> x / 100 * (1 - 1 / 2 ^ 53)" by (simp add: abs_divide algebra_simps)
    with a that show False by simp
  qed
  show "0 \<le> toMinor v" if "\<not> neg"
  proof -
    have "0 \<le> x" using pos m(2) that by simp
    with t have "- 1 < (of_int (toMinor v) :: rat)" using small by simp
    then have "(of_int (- 1) :: rat) < of_int (toMinor v)" by simp
    then show ?thesis by (simp only: of_int_less_iff)
  qed
  show "1 \<le> toMinor v" if "\<not> neg" "\<not> zero"
  proof -
    have "x \<noteq> 0" using m(3) that v by (auto simp: x_def fl64_def)
    then have "n \<noteq> 0" by (simp add: x_def)
    moreover have "0 \<le> n" using pos m(2) that by (simp add: x_def)
    ultimately have "1 \<le> n" by simp
    then have "(of_int 1 :: rat) \<le> x" by (simp only: x_def of_int_le_iff)
    with t small have "0 < (of_int (toMinor v) :: rat)" by simp
    then show ?thesis by simp
  qed
qed

lemma toMinor_mono: "x \<le> y \<Longrightarrow> toMinor x \<le> toMinor y"
  by (simp add: toMinor_def math_round_mono fl64_mono)

section \<open>What the dialogs send\<close>

locale form_contract =
  fixes check :: "'v \<Rightarrow> issue list + 'b" and sound :: "'b \<Rightarrow> bool"
  assumes check_sound: "check v = Inr b \<Longrightarrow> sound b"
begin

lemma step_sent:
  "set (sent_bodies (form_step check report demoMode message opts d e)) \<subseteq>
     set (sent_bodies d) \<union> (case e of Submit_values v \<Rightarrow> (case check v of Inr b \<Rightarrow> {b} | _ \<Rightarrow> {}) | _ \<Rightarrow> {})"
proof (cases e)
  case (Submit_values v)
  then show ?thesis
    by (cases "check v") (auto simp: form_step_def submit_form_def sent_bodies_def submitLive_def completeDemo_def flow_begin_def
        wf_act_def flow_finish_def Let_def split: if_splits)
next
  case (Flow_event fe)
  then show ?thesis
    by (cases fe) (auto simp: form_step_def flow_only_def sent_bodies_def flow_commit_def flow_onSuccess_def flow_onError_def
        flow_timer_def clear_close_timer_def flow_settled_def flow_finish_def wf_act_def Let_def
        split: if_splits option.splits write_error.splits)
qed (auto simp: form_step_def sent_bodies_def)

lemma sent_sound:
  "list_all sound (sent_bodies d) \<Longrightarrow> list_all sound (sent_bodies (foldl (form_step check report demoMode message opts) d es))"
proof (induction es arbitrary: d)
  case (Cons e es)
  have "list_all sound (sent_bodies (form_step check report demoMode message opts d e))"
    using step_sent [of report demoMode message opts d e] Cons.prems
    by (auto simp: list_all_iff check_sound split: form_event.splits sum.splits)
  from Cons.IH [OF this] show ?case by simp
qed simp

lemma all_sent_sound:
  "b \<in> set (sent_bodies (foldl (form_step check report demoMode message opts) new_form es)) \<Longrightarrow> sound b"
  using sent_sound [of new_form] by (simp add: list_all_iff sent_bodies_def new_form_def initial_flow_def)

end

text \<open>A form runs its flow by the steps of theory WriteFlow, so its invariant holds in every form.\<close>

lemma submit_form_inv: "flow_inv (fd_flow d) \<Longrightarrow> flow_inv (fd_flow (submit_form demoMode message checked d))"
proof -
  assume a: "flow_inv (fd_flow d)"
  have f: "flow_inv ((fd_flow d)\<lparr>wf_feedback := None\<rparr>)" using a by (simp add: flow_defs)
  show ?thesis using inv_submit [OF f] inv_demo [OF f] f by (simp add: submit_form_def Let_def split: sum.split)
qed

interpretation form_flow: machine "form_step check report demoMode message opts" "\<lambda>d. flow_inv (fd_flow d)"
  for check report demoMode message opts
proof
  show "flow_inv (fd_flow (form_step check report demoMode message opts d e))" if "flow_inv (fd_flow d)" for d e
    using that by (cases e) (simp_all add: form_step_def write_flow.inv_step submit_form_inv)
qed

lemma form_one_write: "length (wf_inFlight (fd_flow (foldl (form_step check report demoMode message opts) new_form es))) \<le> 1"
proof -
  have "flow_inv (fd_flow new_form)" by (simp add: new_form_def flow_defs initial_flow_def)
  from form_flow.inv_run [OF this, of check report demoMode message opts es] show ?thesis by (simp add: flow_inv_def)
qed

lemma demo_sends_nothing: "sent_bodies (foldl (form_step check report True message opts) new_form es) = []"
proof -
  have s: "sent_bodies (form_step check report True message opts d e) = sent_bodies d" for d e
  proof (cases e)
    case (Submit_values v)
    then show ?thesis
      by (cases "check v") (auto simp: form_step_def submit_form_def sent_bodies_def completeDemo_def flow_begin_def
          wf_act_def flow_finish_def Let_def split: if_splits)
  next
    case (Flow_event fe)
    have z: "concat (map (\<lambda>a. case a of Sent_request b \<Rightarrow> [b] | _ \<Rightarrow> []) (map (\<lambda>k. Invalidated (f k)) ks)) = []" for f and ks :: "string list"
      by (induction ks) simp_all
    show ?thesis using Flow_event
      by (cases fe) (auto simp: form_step_def flow_only_def sent_bodies_def flow_commit_def flow_onSuccess_def flow_onError_def
          flow_timer_def clear_close_timer_def flow_settled_def flow_finish_def wf_act_def Let_def
          split: if_splits option.splits write_error.splits)
  qed (simp_all add: form_step_def sent_bodies_def)
  have "sent_bodies (foldl (form_step check report True message opts) d es) = sent_bodies d" for d
    by (induction es arbitrary: d) (simp_all add: s)
  then show ?thesis by (simp add: sent_bodies_def new_form_def initial_flow_def)
qed


section \<open>Properties\<close>

text \<open>C20. A stored amount survives the form that edits it: for up to 2^50 hundredths the text that an edit dialog shows
  for it is accepted by the schema of that dialog, if the dialog takes amounts of its sign, and is sent back as the same
  number of hundredths.\<close>

theorem reopened_amount_kept:
  assumes "\<bar>n\<bar> \<le> 2 ^ 50" "allowNegative \<or> 0 \<le> n" "allowZero \<or> n \<noteq> 0"
  shows "\<exists>x. moneyInputSchema allowNegative allowZero (majorFromMinor (Fin (of_int n))) = Inr (Fin x) \<and> toMinor x = n"
  using assms by (rule reopened_amount)

theorem reopened_amount_kept_witness:
  "\<exists>x. moneyInputSchema True True (majorFromMinor (Fin (- 1050))) = Inr (Fin x) \<and> toMinor x = - 1050"
  using reopened_amount_kept [of "- 1050" True True] by simp

end
