(* ===== verification/AccountForms.thy ===== *)
theory AccountForms
  imports FormDialogs
begin

text \<open>
  The dialogs of accounts (pages/finance-writes/AccountDialogs.tsx) and of expense claims
  (pages/finance-writes/ClaimDialogs.tsx): the values of the forms, what opening makes of them, their
  schemas, the requests, the records of the demonstration and the balance shown while an account is edited.
  Submissions run through theory FormDialogs; identifiers that \<open>createDemoId\<close> makes are arguments.
\<close>

section \<open>Accounts\<close>

datatype account_privacy = Account_private | Account_workspace

record account_form =
  af_name :: string
  af_bankName :: string
  af_type :: string
  af_maskedIdentifier :: string
  af_opening :: string
  af_currency :: string
  af_color :: string
  af_icon :: string
  af_notes :: string
  af_status :: active_status
  af_excludeFromTotal :: bool
  af_privacy :: account_privacy

record account_request =
  ar_name :: string
  ar_bankName :: string
  ar_type :: string
  ar_maskedIdentifier :: string
  ar_openingMinor :: int
  ar_currency :: string
  ar_color :: string
  ar_icon :: string
  ar_notes :: string
  ar_status :: active_status
  ar_excludeFromTotal :: bool
  ar_privacy :: account_privacy

definition defaultAccountValues :: "string \<Rightarrow> account_form" where
  "defaultAccountValues preferred = \<lparr>af_name = [], af_bankName = [], af_type = ''savings'', af_maskedIdentifier = [],
     af_opening = ''0'', af_currency = preferred, af_color = ''#2d7d5a'', af_icon = ''landmark'', af_notes = [],
     af_status = Active, af_excludeFromTotal = False, af_privacy = Account_workspace\<rparr>"

definition hex_digit :: "char \<Rightarrow> bool" where
  "hex_digit c = (is_digit c \<or> (97 \<le> code_of (lower_char c) \<and> code_of (lower_char c) \<le> 102))"

definition color_pattern :: "string \<Rightarrow> bool" where
  "color_pattern s = (length s = 7 \<and> hd s = CHR ''#'' \<and> list_all hex_digit (tl s))"

definition account_issues :: "account_form \<Rightarrow> issue list" where
  "account_issues v =
     under ''name'' (required ''Enter an account name'' (af_name v) @ at_most_chars 100 ''Keep the name under 100 characters'' (af_name v))
     @ under ''bankName'' (at_most_chars 100 ''Keep the bank name under 100 characters'' (af_bankName v))
     @ under ''type'' (required ''Choose an account type'' (af_type v) @ at_most_chars 50 ''Keep the type under 50 characters'' (af_type v))
     @ under ''maskedIdentifier'' (at_most_chars 100 ''Keep the account identifier under 100 characters'' (af_maskedIdentifier v))
     @ under ''opening'' (issues_of (moneyInputSchema True True (af_opening v)))
     @ under ''currency'' (issues_of (currencySchema (af_currency v)))
     @ under ''color'' (if color_pattern (af_color v) then [] else [''Choose an account colour''])
     @ under ''icon'' (required ''Choose an account icon'' (af_icon v) @ at_most_chars 50 ''Keep the icon under 50 characters'' (af_icon v))
     @ under ''notes'' (at_most_chars 500 ''Keep notes under 500 characters'' (af_notes v))"

definition checked_currency :: "string \<Rightarrow> string" where
  "checked_currency s = (case currencySchema s of Inr c \<Rightarrow> c | Inl _ \<Rightarrow> [])"

definition toAccountRequest :: "account_form \<Rightarrow> account_request option" where
  "toAccountRequest v = (if account_issues v \<noteq> [] then None
     else Some \<lparr>ar_name = js_trim (af_name v), ar_bankName = js_trim (af_bankName v), ar_type = js_trim (af_type v),
       ar_maskedIdentifier = js_trim (af_maskedIdentifier v),
       ar_openingMinor = toMinor (amount_of (moneyInputSchema True True (af_opening v))),
       ar_currency = checked_currency (af_currency v), ar_color = af_color v, ar_icon = js_trim (af_icon v),
       ar_notes = js_trim (af_notes v), ar_status = af_status v, ar_excludeFromTotal = af_excludeFromTotal v,
       ar_privacy = af_privacy v\<rparr>)"

definition errorsForAccount :: "account_form \<Rightarrow> (string, string) omap" where
  "errorsForAccount v = toFieldErrors (account_issues v)"

definition check_account :: "account_form \<Rightarrow> issue list + account_request" where
  "check_account v = (case toAccountRequest v of None \<Rightarrow> Inl (account_issues v) | Some r \<Rightarrow> Inr r)"

text \<open>Opening the edit dialog. An account whose opening balance is not known has its balance there.\<close>

definition account_form_of :: "account \<Rightarrow> account_form" where
  "account_form_of a = \<lparr>af_name = acc_name a, af_bankName = text_or (acc_bankName a) [], af_type = acc_kind a,
     af_maskedIdentifier = (if acc_maskedNumber a = ''Manual account'' then [] else acc_maskedNumber a),
     af_opening = majorFromMinor (acc_openingMinor a), af_currency = currency (acc_balance a),
     af_color = (if acc_color a = [] then ''#2d7d5a'' else acc_color a),
     af_icon = (case acc_icon a of Some (c # cs) \<Rightarrow> c # cs | _ \<Rightarrow> ''landmark''), af_notes = text_or (acc_notes a) [],
     af_status = (if acc_status a = Inactive then Inactive else Active), af_excludeFromTotal = acc_excludeFromTotal a,
     af_privacy = (if acc_privacy a = Some Private_record then Account_private else Account_workspace)\<rparr>"

definition projectedBalance :: "account option \<Rightarrow> string \<Rightarrow> money" where
  "projectedBalance a opening = (case a of None \<Rightarrow> \<lparr>amountMinor = Fin 0, currency = ''INR''\<rparr>
     | Some acc \<Rightarrow> (case moneyInputSchema True True opening of
          Inr (Fin v) \<Rightarrow> (acc_balance acc)\<lparr>amountMinor :=
              num_sub (num_add (amountMinor (acc_balance acc)) (Fin (of_int (toMinor v)))) (acc_openingMinor acc)\<rparr>
        | _ \<Rightarrow> acc_balance acc))"

definition created_balance :: "account_form \<Rightarrow> money" where
  "created_balance v = \<lparr>amountMinor = (case moneyInputSchema True True (af_opening v) of
       Inr (Fin x) \<Rightarrow> Fin (of_int (toMinor x)) | _ \<Rightarrow> Fin 0), currency = af_currency v\<rparr>"

definition record_privacy :: "account_privacy \<Rightarrow> privacy" where
  "record_privacy p = (case p of Account_private \<Rightarrow> Private_record | Account_workspace \<Rightarrow> Workspace_record)"

definition demo_account :: "string \<Rightarrow> account_request \<Rightarrow> account" where
  "demo_account newId r = \<lparr>acc_id = newId, acc_name = ar_name r, acc_kind = friendlyFinanceLabel (ar_type r),
     acc_balance = \<lparr>amountMinor = Fin (of_int (ar_openingMinor r)), currency = ar_currency r\<rparr>,
     acc_maskedNumber = (if ar_maskedIdentifier r = [] then ''Demo '' @ CHR 0xB7 # '' session only'' else ar_maskedIdentifier r),
     acc_color = ar_color r, acc_bankName = or_undefined_text (ar_bankName r), acc_icon = or_undefined_text (ar_icon r),
     acc_notes = or_undefined_text (ar_notes r), acc_status = ar_status r, acc_openingMinor = Fin (of_int (ar_openingMinor r)),
     acc_excludeFromTotal = ar_excludeFromTotal r, acc_privacy = Some (record_privacy (ar_privacy r))\<rparr>"

definition demo_account_edited :: "account \<Rightarrow> money \<Rightarrow> account_request \<Rightarrow> account" where
  "demo_account_edited a shown r = a\<lparr>acc_name := ar_name r, acc_kind := friendlyFinanceLabel (ar_type r),
     acc_bankName := or_undefined_text (ar_bankName r),
     acc_maskedNumber := (if ar_maskedIdentifier r = [] then ''Manual account'' else ar_maskedIdentifier r),
     acc_openingMinor := Fin (of_int (ar_openingMinor r)), acc_balance := shown, acc_color := ar_color r,
     acc_icon := or_undefined_text (ar_icon r), acc_notes := or_undefined_text (ar_notes r), acc_status := ar_status r,
     acc_excludeFromTotal := ar_excludeFromTotal r, acc_privacy := Some (record_privacy (ar_privacy r))\<rparr>"

definition account_server_errors :: "(string \<times> string) list \<Rightarrow> (string, string) omap" where
  "account_server_errors fs = mapServerFields fs [(''openingMinor'', ''opening'')]"

definition account_options :: "string \<Rightarrow> string \<Rightarrow> flow_options" where
  "account_options workspaceId message = \<lparr>opt_invalidate = [''accounts'', ''vaults'', ''transactions'', ''dashboard'', ''insights''],
     opt_invalidatePeriodReviews = False, opt_successMessage = message, opt_workspace = workspaceId\<rparr>"

definition account_create_step ::
  "string \<Rightarrow> bool \<Rightarrow> account_request form_dialog \<Rightarrow> (account_form, account_request) form_event \<Rightarrow> account_request form_dialog" where
  "account_create_step workspaceId demoMode = form_step check_account account_server_errors demoMode
     ''Account added to this demo session only. No server data changed.'' (account_options workspaceId ''Account created.'')"

definition account_edit_step ::
  "string \<Rightarrow> bool \<Rightarrow> account_request form_dialog \<Rightarrow> (account_form, account_request) form_event \<Rightarrow> account_request form_dialog" where
  "account_edit_step workspaceId demoMode = form_step check_account account_server_errors demoMode
     ''Account updated in this demo session only.'' (account_options workspaceId ''Account updated.'')"

section \<open>Claims\<close>

record claim_form =
  cf_amount :: string
  cf_description :: string
  cf_currency :: string

record claim_request =
  cq_amountMinor :: int
  cq_currency :: string
  cq_description :: string

definition check_claim :: "claim_form \<Rightarrow> issue list + claim_request" where
  "check_claim v =
     (let issues = under ''amount'' (issues_of (moneyInputSchema False False (cf_amount v)))
        @ under ''description'' (required ''Describe what the expense was for'' (cf_description v)
            @ at_most_chars 500 ''Keep the description under 500 characters'' (cf_description v))
      in if issues \<noteq> [] then Inl issues
         else Inr \<lparr>cq_amountMinor = toMinor (amount_of (moneyInputSchema False False (cf_amount v))),
                cq_currency = cf_currency v, cq_description = js_trim (cf_description v)\<rparr>)"

definition demo_claim :: "string \<Rightarrow> string \<Rightarrow> claim_request \<Rightarrow> finance_claim" where
  "demo_claim newId userName r = \<lparr>fc_id = newId, fc_person = userName, fc_purpose = cq_description r,
     fc_amount = \<lparr>amountMinor = Fin (of_int (cq_amountMinor r)), currency = cq_currency r\<rparr>, fc_status = ''Needs approval'',
     fc_rawStatus = ''pending'', fc_reimbursementStatus = ''not_reimbursed'', fc_submittedBy = Some ''demo-current-user'',
     fc_approvalComment = None\<rparr>"

datatype claim_decision = Claim_approved | Claim_rejected | Claim_correction_requested

fun decision_text :: "claim_decision \<Rightarrow> string" where
  "decision_text Claim_approved = ''approved''"
| "decision_text Claim_rejected = ''rejected''"
| "decision_text Claim_correction_requested = ''correction_requested''"

record claim_review =
  cr_decision :: claim_decision
  cr_comment :: string

definition check_review :: "claim_review \<Rightarrow> issue list + claim_review" where
  "check_review v = (let issues = under ''comment'' (at_most_chars 500 ''Keep the comment under 500 characters'' (cr_comment v))
     in if issues \<noteq> [] then Inl issues else Inr (v\<lparr>cr_comment := js_trim (cr_comment v)\<rparr>))"

definition demo_reviewed :: "finance_claim \<Rightarrow> claim_review \<Rightarrow> finance_claim" where
  "demo_reviewed c r = c\<lparr>fc_rawStatus := decision_text (cr_decision r),
     fc_status := friendlyFinanceLabel (decision_text (cr_decision r)), fc_approvalComment := or_undefined_text (cr_comment r)\<rparr>"

definition claim_server_errors :: "(string \<times> string) list \<Rightarrow> (string, string) omap" where
  "claim_server_errors fs = mapServerFields fs [(''amountMinor'', ''amount'')]"

definition claim_options :: "string \<Rightarrow> string \<Rightarrow> flow_options" where
  "claim_options workspaceId message = \<lparr>opt_invalidate = [''claims'', ''dashboard'', ''notifications'', ''insights''],
     opt_invalidatePeriodReviews = False, opt_successMessage = message, opt_workspace = workspaceId\<rparr>"

definition claim_submit_step ::
  "string \<Rightarrow> bool \<Rightarrow> claim_request form_dialog \<Rightarrow> (claim_form, claim_request) form_event \<Rightarrow> claim_request form_dialog" where
  "claim_submit_step workspaceId demoMode = form_step check_claim claim_server_errors demoMode
     ''Claim added to this demo session only. No server data changed.'' (claim_options workspaceId ''Expense claim submitted for review.'')"

definition claim_review_step ::
  "string \<Rightarrow> bool \<Rightarrow> claim_review form_dialog \<Rightarrow> (claim_review, claim_review) form_event \<Rightarrow> claim_review form_dialog" where
  "claim_review_step workspaceId demoMode = form_step check_review (\<lambda>fs. mapServerFields fs []) demoMode
     ''Review saved in this demo session only. No server data changed.'' (claim_options workspaceId ''Claim review saved.'')"

section \<open>What is sent\<close>

lemma no_issues:
  "required m s = [] \<longleftrightarrow> js_trim s \<noteq> []" "at_most_chars n m s = [] \<longleftrightarrow> length (js_trim s) \<le> n"
  "under f ms = [] \<longleftrightarrow> ms = []"
  by (auto simp: required_def at_most_chars_def under_def)

lemma no_amount_issues:
  "issues_of (moneyInputSchema neg zero s) = [] \<Longrightarrow> \<exists>v. moneyInputSchema neg zero s = Inr (Fin v)"
  using schema_amount_Fin schema_Inl_nonempty(1) by (cases "moneyInputSchema neg zero s") (fastforce simp: issues_of_def)+

lemma no_currency_issues:
  "issues_of (currencySchema s) = [] \<Longrightarrow> length (checked_currency s) = 3 \<and> list_all is_upper_az (checked_currency s)"
  by (simp add: issues_of_def checked_currency_def currencySchema_def Let_def split: if_splits)

text \<open>A request that the server has no reason to refuse for its form.\<close>

definition account_request_sound :: "account_request \<Rightarrow> bool" where
  "account_request_sound r =
     (1 \<le> length (ar_name r) \<and> length (ar_name r) \<le> 100 \<and> js_trim (ar_name r) = ar_name r \<and>
      length (ar_bankName r) \<le> 100 \<and> 1 \<le> length (ar_type r) \<and> length (ar_type r) \<le> 50 \<and>
      length (ar_maskedIdentifier r) \<le> 100 \<and> \<bar>ar_openingMinor r\<bar> \<le> max_safe_integer \<and>
      length (ar_currency r) = 3 \<and> list_all is_upper_az (ar_currency r) \<and> color_pattern (ar_color r) \<and>
      1 \<le> length (ar_icon r) \<and> length (ar_icon r) \<le> 50 \<and> length (ar_notes r) \<le> 500)"

lemma check_account_Inr:
  assumes "check_account v = Inr r"
  shows "account_issues v = []" "toAccountRequest v = Some r"
  using assms by (auto simp: check_account_def toAccountRequest_def split: if_splits option.splits)

interpretation account_contract: form_contract check_account account_request_sound
proof
  fix v r assume c: "check_account v = Inr r"
  from check_account_Inr [OF c] have i: "account_issues v = []" and r: "toAccountRequest v = Some r" by blast+
  obtain x where x: "moneyInputSchema True True (af_opening v) = Inr (Fin x)"
    using no_amount_issues [of True True "af_opening v"] i by (auto simp: account_issues_def no_issues)
  have "length (checked_currency (af_currency v)) = 3 \<and> list_all is_upper_az (checked_currency (af_currency v))"
    using i no_currency_issues by (simp add: account_issues_def no_issues)
  with i r accepted_minor(1) [OF x] show "account_request_sound r"
    by (auto simp: toAccountRequest_def account_request_sound_def account_issues_def no_issues x amount_of_def Suc_le_eq split: if_splits)
qed

definition claim_request_sound :: "claim_request \<Rightarrow> bool" where
  "claim_request_sound r = (1 \<le> cq_amountMinor r \<and> cq_amountMinor r \<le> max_safe_integer \<and>
     1 \<le> length (cq_description r) \<and> length (cq_description r) \<le> 500)"

interpretation claim_contract: form_contract check_claim claim_request_sound
proof
  fix v r assume c: "check_claim v = Inr r"
  then have i: "issues_of (moneyInputSchema False False (cf_amount v)) = []"
    by (auto simp: check_claim_def Let_def no_issues split: if_splits)
  from no_amount_issues [OF i] obtain x where x: "moneyInputSchema False False (cf_amount v) = Inr (Fin x)" by blast
  with c accepted_minor(1,3) [OF x] show "claim_request_sound r"
    by (auto simp: check_claim_def Let_def no_issues claim_request_sound_def amount_of_def abs_le_iff Suc_le_eq split: if_splits)
qed

interpretation review_contract: form_contract check_review "\<lambda>r. length (cr_comment r) \<le> 500"
  by unfold_locales (auto simp: check_review_def Let_def no_issues split: if_splits)

section \<open>Properties\<close>

text \<open>C21. Whatever is typed, clicked and answered while an account is created or edited, every request that the dialogs
  send has a name of 1 to 100 characters without outer spaces, a currency of three capital letters, a colour of the
  pattern, texts within their limits and an opening balance that is a safe integer; in the demonstration they send
  nothing, and no second request leaves before the reply to the first.\<close>

theorem account_requests_sound:
  "list_all account_request_sound (sent_bodies (foldl (account_create_step w demo) new_form es))
   \<and> list_all account_request_sound (sent_bodies (foldl (account_edit_step w demo) new_form es))
   \<and> sent_bodies (foldl (account_create_step w True) new_form es) = []
   \<and> sent_bodies (foldl (account_edit_step w True) new_form es) = []
   \<and> length (wf_inFlight (fd_flow (foldl (account_create_step w demo) new_form es))) \<le> 1
   \<and> length (wf_inFlight (fd_flow (foldl (account_edit_step w demo) new_form es))) \<le> 1"
  unfolding account_create_step_def account_edit_step_def list_all_iff
  by (intro conjI ballI account_contract.all_sent_sound demo_sends_nothing form_one_write)

lemma claim_requests_sound:
  "b \<in> set (sent_bodies (foldl (claim_submit_step w demo) new_form es)) \<Longrightarrow> claim_request_sound b"
  "r \<in> set (sent_bodies (foldl (claim_review_step w demo) new_form fs)) \<Longrightarrow> length (cr_comment r) \<le> 500"
  unfolding claim_submit_step_def claim_review_step_def
  by (erule claim_contract.all_sent_sound review_contract.all_sent_sound)+


text \<open>An account whose texts are as the server stores them.\<close>

definition text_within :: "nat \<Rightarrow> nat \<Rightarrow> string \<Rightarrow> bool" where
  "text_within lo hi s = (lo \<le> length s \<and> length s \<le> hi \<and> js_trim s = s)"

definition storable_account :: "account \<Rightarrow> bool" where
  "storable_account a =
     (text_within 1 100 (acc_name a) \<and> text_within 1 50 (acc_kind a) \<and> text_within 0 100 (acc_maskedNumber a) \<and>
      text_within 0 100 (text_or (acc_bankName a) []) \<and> text_within 0 500 (text_or (acc_notes a) []) \<and>
      text_within 0 50 (text_or (acc_icon a) []) \<and>
      color_pattern (acc_color a) \<and> currencySchema (currency (acc_balance a)) = Inr (currency (acc_balance a)))"

lemma text_within_checks:
  "text_within 0 n s \<Longrightarrow> at_most_chars n m s = [] \<and> js_trim s = s"
  "text_within 1 n s \<Longrightarrow> required m' s = [] \<and> at_most_chars n m s = [] \<and> js_trim s = s"
  by (auto simp: text_within_def at_most_chars_def required_def)

lemma landmark_within: "text_within 1 50 ''landmark''"
  by (simp add: text_within_def js_trim_def trim_start_def trim_end_def is_space_def code_of_def)

lemma icon_within:
  "text_within 0 50 (text_or i []) \<Longrightarrow> text_within 1 50 (case i of Some (c # cs) \<Rightarrow> c # cs | _ \<Rightarrow> ''landmark'')"
  using landmark_within by (auto simp: text_or_def text_within_def split: option.splits list.splits)

text \<open>Opening an account in its edit dialog and saving it unchanged sends the account back as it is: its name, bank, kind,
  colour, notes, status and visibility, an opening balance of up to 2^50 hundredths of either sign, no identifier
  where the account shows the placeholder for none, and the default icon where it has none.\<close>

theorem unchanged_account_kept:
  assumes "storable_account a" "acc_openingMinor a = Fin (of_int n)" "\<bar>n\<bar> \<le> 2 ^ 50"
  shows "check_account (account_form_of a) = Inr \<lparr>ar_name = acc_name a, ar_bankName = text_or (acc_bankName a) [],
    ar_type = acc_kind a, ar_maskedIdentifier = (if acc_maskedNumber a = ''Manual account'' then [] else acc_maskedNumber a),
    ar_openingMinor = n, ar_currency = currency (acc_balance a), ar_color = acc_color a,
    ar_icon = (case acc_icon a of Some (c # cs) \<Rightarrow> c # cs | _ \<Rightarrow> ''landmark''), ar_notes = text_or (acc_notes a) [],
    ar_status = acc_status a, ar_excludeFromTotal = acc_excludeFromTotal a,
    ar_privacy = (if acc_privacy a = Some Private_record then Account_private else Account_workspace)\<rparr>"
proof -
  have mask: "text_within 0 100 (if acc_maskedNumber a = ''Manual account'' then [] else acc_maskedNumber a)"
    using assms(1) by (simp add: storable_account_def text_within_def js_trim_def trim_start_def trim_end_def)
  obtain x where x: "moneyInputSchema True True (majorFromMinor (Fin (of_int n))) = Inr (Fin x)" "toMinor x = n"
    using reopened_amount [OF assms(3), of True True] by auto
  have col: "acc_color a \<noteq> []" using assms(1) by (auto simp: storable_account_def color_pattern_def)
  note s = assms(1) [unfolded storable_account_def]
  have name: "text_within 1 100 (acc_name a)" and kind: "text_within 1 50 (acc_kind a)" and
    bank: "text_within 0 100 (text_or (acc_bankName a) [])" and nts: "text_within 0 500 (text_or (acc_notes a) [])" and
    icon: "text_within 0 50 (text_or (acc_icon a) [])" using s by blast+
  note w = text_within_checks(1) [OF mask] text_within_checks(2) [OF icon_within [OF icon]] text_within_checks(2) [OF name]
    text_within_checks(2) [OF kind] text_within_checks(1) [OF bank] text_within_checks(1) [OF nts]
  have i: "account_issues (account_form_of a) = []"
    using s w col x by (simp add: account_issues_def account_form_of_def no_issues(3) issues_of_def assms(2))
  have st: "(if acc_status a = Inactive then Inactive else Active) = acc_status a" by (cases "acc_status a") simp_all
  show ?thesis
    unfolding check_account_def toAccountRequest_def using i s w col x
    by (simp add: account_form_of_def amount_of_def assms(2) checked_currency_def st)
qed


definition plain_account :: account where
  "plain_account = \<lparr>acc_id = ''a1'', acc_name = ''Main'', acc_kind = ''current'',
     acc_balance = \<lparr>amountMinor = Fin 500, currency = ''EUR''\<rparr>, acc_maskedNumber = ''Manual account'', acc_color = ''#2D7d5a'',
     acc_bankName = None, acc_icon = None, acc_notes = None, acc_status = Active, acc_openingMinor = Fin (- 1050),
     acc_excludeFromTotal = True, acc_privacy = Some Private_record\<rparr>"

theorem unchanged_account_kept_witness:
  "check_account (account_form_of plain_account) = Inr \<lparr>ar_name = ''Main'', ar_bankName = [], ar_type = ''current'',
     ar_maskedIdentifier = [], ar_openingMinor = - 1050, ar_currency = ''EUR'', ar_color = ''#2D7d5a'', ar_icon = ''landmark'',
     ar_notes = [], ar_status = Active, ar_excludeFromTotal = True, ar_privacy = Account_private\<rparr>"
proof -
  have "storable_account plain_account"
    by (simp add: storable_account_def plain_account_def text_within_def text_or_def color_pattern_def hex_digit_def lower_char_def
        currencySchema_def js_upper_def upper_char_def is_upper_az_def js_trim_def trim_start_def trim_end_def is_space_def string_eval)
  from unchanged_account_kept [OF this, of "- 1050"] show ?thesis by (simp add: plain_account_def text_or_def)
qed

text \<open>The balance shown while an account is edited moves by what the opening balance moves.\<close>

lemma num_exact:
  assumes "\<bar>i\<bar> \<le> 2 ^ 51" "\<bar>j\<bar> \<le> 2 ^ 51"
  shows "num_add (Fin (of_int i)) (Fin (of_int j)) = Fin (of_int (i + j))" "num_sub (Fin (of_int i)) (Fin (of_int j)) = Fin (of_int (i - j))"
proof -
  have "\<bar>i + j\<bar> \<le> 2 ^ 53" "\<bar>i - j\<bar> \<le> 2 ^ 53" using assms by (simp_all add: abs_le_iff)
  from this [THEN fl64_whole]
  show "num_add (Fin (of_int i)) (Fin (of_int j)) = Fin (of_int (i + j))" "num_sub (Fin (of_int i)) (Fin (of_int j)) = Fin (of_int (i - j))"
    by (simp_all add: num_add_def num_sub_def num_round_def)
qed

lemma projected_balance_moves:
  assumes "amountMinor (acc_balance a) = Fin (of_int b)" "acc_openingMinor a = Fin (of_int k)" "\<bar>b\<bar> \<le> 2 ^ 50" "\<bar>k\<bar> \<le> 2 ^ 50"
    and "moneyInputSchema True True s = Inr x" "\<bar>entered_minor (js_trim s)\<bar> \<le> 2 ^ 50"
  shows "projectedBalance (Some a) s = (acc_balance a)\<lparr>amountMinor := Fin (of_int (b + entered_minor (js_trim s) - k))\<rparr>"
proof -
  obtain v where x: "x = Fin v" "toMinor v = entered_minor (js_trim s)"
    using moneyInputSchema_Inr(2) [OF assms(5)] toMinor_rounds_back [OF assms(6)] by simp
  have "\<bar>b + entered_minor (js_trim s)\<bar> \<le> 2 ^ 51" "\<bar>b\<bar> \<le> 2 ^ 51" "\<bar>entered_minor (js_trim s)\<bar> \<le> 2 ^ 51" "\<bar>k\<bar> \<le> 2 ^ 51"
    using assms(3,4,6) by (simp_all add: abs_le_iff)
  with assms(1,2,5) x show ?thesis by (simp add: projectedBalance_def num_exact del: of_int_add of_int_diff)
qed

end
