(* ===== verification/PlanningForms.thy ===== *)
theory PlanningForms
  imports AccountForms
begin

text \<open>
  The dialogs that create and edit budgets and goals (pages/finance-writes/BudgetGoalDialogs.tsx and
  pages/finance/record-edit-dialogs.tsx): the values of the forms, what opening makes of them, the checks,
  which the create dialogs state as schemas and the edit dialogs as statements, the requests and the
  records of the demonstration. \<open>roll\<close> is the engine's freedom of theory MoneyInput, \<open>extra\<close> the library's of
  theory FormDialogs, \<open>parse\<close> is \<open>new Date(text)\<close>, \<open>now\<close> the time of the render.
\<close>

section \<open>Budgets\<close>

record budget_form =
  bf_name :: string
  bf_amount :: string
  bf_currency :: string
  bf_period :: string
  bf_categories :: string
  bf_rollover :: bool
  bf_startAt :: string
  bf_endAt :: string

record budget_request =
  br_name :: string
  br_amountMinor :: int
  br_currency :: string
  br_period :: string
  br_categories :: "string list"
  br_rollover :: bool
  br_startAt :: string
  br_endAt :: string

text \<open>\<open>Array.from(new Set(xs))\<close>.\<close>

fun each_once :: "'a list \<Rightarrow> 'a list" where
  "each_once [] = []"
| "each_once (x # xs) = x # filter (\<lambda>y. y \<noteq> x) (each_once xs)"

definition category_parts :: "string \<Rightarrow> string list" where
  "category_parts s = map js_trim (split_on (CHR '','') s)"

definition categoryListSchema :: "string \<Rightarrow> string list" where
  "categoryListSchema input = (let value = js_trim input; categories = category_parts value in
     if value = [] \<or> (length categories \<le> 20 \<and> list_all (\<lambda>c. length c > 0 \<and> length c \<le> 50) categories) then []
     else [''Use up to 20 comma-separated categories, each under 50 characters''])"

definition new_budget_form :: "string \<Rightarrow> int \<Rightarrow> budget_form" where
  "new_budget_form preferred now = \<lparr>bf_name = [], bf_amount = [], bf_currency = preferred, bf_period = ''monthly'',
     bf_categories = [], bf_rollover = False, bf_startAt = fst (currentMonthRange now), bf_endAt = snd (currentMonthRange now)\<rparr>"

definition str_less :: "string \<Rightarrow> string \<Rightarrow> bool" where
  "str_less a b = (str_le a b \<and> a \<noteq> b)"

definition budget_issues :: "bool \<Rightarrow> issue list \<Rightarrow> budget_form \<Rightarrow> issue list" where
  "budget_issues roll extra v = object_issues extra
     (under ''name'' (required ''Enter a budget name'' (bf_name v) @ at_most_chars 100 ''Keep the name under 100 characters'' (bf_name v))
      @ under ''amount'' (issues_of (moneyInputSchema False False (bf_amount v)))
      @ under ''currency'' (issues_of (currencySchema (bf_currency v)))
      @ under ''period'' (required ''Choose a period'' (bf_period v) @ at_most_chars 50 ''Keep the period under 50 characters'' (bf_period v))
      @ under ''categories'' (categoryListSchema (bf_categories v))
      @ under ''startAt'' (issues_of (dateInputSchema roll (bf_startAt v)))
      @ under ''endAt'' (issues_of (dateInputSchema roll (bf_endAt v))))
     (if str_less (js_trim (bf_endAt v)) (js_trim (bf_startAt v))
      then [(Some ''endAt'', ''End date must be on or after the start date'')] else [])"

definition check_budget :: "bool \<Rightarrow> issue list \<Rightarrow> budget_form \<Rightarrow> issue list + budget_request" where
  "check_budget roll extra v = (if budget_issues roll extra v \<noteq> [] then Inl (budget_issues roll extra v)
     else Inr \<lparr>br_name = js_trim (bf_name v), br_amountMinor = toMinor (amount_of (moneyInputSchema False False (bf_amount v))),
       br_currency = checked_currency (bf_currency v), br_period = js_trim (bf_period v),
       br_categories = (if js_trim (bf_categories v) = [] then []
         else each_once (filter (\<lambda>c. c \<noteq> []) (category_parts (js_trim (bf_categories v))))),
       br_rollover = bf_rollover v, br_startAt = toUtcDate (js_trim (bf_startAt v)) False,
       br_endAt = toUtcDate (js_trim (bf_endAt v)) True\<rparr>)"

definition demo_budget :: "string \<Rightarrow> budget_request \<Rightarrow> budget" where
  "demo_budget newId r = \<lparr>bg_id = newId, bg_name = br_name r, bg_spent = \<lparr>amountMinor = Fin 0, currency = br_currency r\<rparr>,
     bg_limit = \<lparr>amountMinor = Fin (of_int (br_amountMinor r)), currency = br_currency r\<rparr>,
     bg_period = friendlyFinanceLabel (br_period r), bg_spendingKnown = True, bg_categories = [], bg_rollover = False,
     bg_startAt = None, bg_endAt = None\<rparr>"

text \<open>Editing. The month of the fallback ends, for this dialog, with the first day of the next one.\<close>

definition edit_month_range :: "int \<Rightarrow> int \<times> int" where
  "edit_month_range now = (let y = year_of_day (day_of_time now); m = month_of_day (day_of_time now)
     in (ms_per_day * make_day y m 1, ms_per_day * make_day y (m + 1) 1))"

definition budget_form_of :: "(string \<Rightarrow> date) \<Rightarrow> int \<Rightarrow> budget \<Rightarrow> budget_form" where
  "budget_form_of parse now b = \<lparr>bf_name = bg_name b, bf_amount = majorFromMinor (amountMinor (bg_limit b)),
     bf_currency = currency (bg_limit b), bf_period = replace_char (CHR '' '') ''_'' (js_lower (bg_period b)),
     bf_categories = js_join '', '' (bg_categories b), bf_rollover = bg_rollover b,
     bf_startAt = dateForInput parse (bg_startAt b) (fst (edit_month_range now)),
     bf_endAt = dateForInput parse (bg_endAt b) (snd (edit_month_range now))\<rparr>"

definition first_issue :: "string \<Rightarrow> string list + jsnum \<Rightarrow> string list" where
  "first_issue d r = (case r of Inr _ \<Rightarrow> [] | Inl [] \<Rightarrow> [d] | Inl (m # ms) \<Rightarrow> [m])"

definition valid_day :: "bool \<Rightarrow> string \<Rightarrow> bool" where
  "valid_day roll s = (issues_of (dateInputSchema roll s) = [])"

definition budget_edit_issues :: "bool \<Rightarrow> budget_form \<Rightarrow> issue list" where
  "budget_edit_issues roll v =
     under ''name'' (if js_trim (bf_name v) = [] then [''Enter a budget name.''] else [])
     @ under ''period'' (if js_trim (bf_period v) = [] then [''Enter a budget period.''] else [])
     @ under ''amount'' (first_issue ''Enter a budget limit.'' (moneyInputSchema False False (bf_amount v)))
     @ under ''startAt'' (if valid_day roll (bf_startAt v) then [] else [''Choose a valid start date.''])
     @ under ''endAt'' (if valid_day roll (bf_endAt v) then [] else [''Choose a valid end date.''])
     @ under ''endAt'' (if valid_day roll (bf_startAt v) \<and> valid_day roll (bf_endAt v) \<and> \<not> str_less (bf_startAt v) (bf_endAt v)
         then [''End date must be after the start date.''] else [])"

definition check_budget_edit :: "bool \<Rightarrow> budget_form \<Rightarrow> issue list + budget_request" where
  "check_budget_edit roll v = (if budget_edit_issues roll v \<noteq> [] then Inl (budget_edit_issues roll v)
     else Inr \<lparr>br_name = js_trim (bf_name v), br_amountMinor = toMinor (amount_of (moneyInputSchema False False (bf_amount v))),
       br_currency = bf_currency v, br_period = js_lower (js_trim (bf_period v)),
       br_categories = take 20 (each_once (filter (\<lambda>c. c \<noteq> []) (category_parts (bf_categories v)))),
       br_rollover = bf_rollover v, br_startAt = toUtcDate (bf_startAt v) False, br_endAt = toUtcDate (bf_endAt v) True\<rparr>)"

definition demo_budget_edited :: "budget \<Rightarrow> budget_request \<Rightarrow> budget" where
  "demo_budget_edited b r = b\<lparr>bg_name := br_name r, bg_limit := \<lparr>amountMinor = Fin (of_int (br_amountMinor r)), currency = br_currency r\<rparr>,
     bg_period := br_period r, bg_categories := br_categories r, bg_rollover := br_rollover r, bg_startAt := Some (br_startAt r),
     bg_endAt := Some (br_endAt r)\<rparr>"

text \<open>The edit dialogs lay a server's error of \<open>amountMinor\<close> over that of \<open>amount\<close>.\<close>

definition edit_server_errors :: "(string \<times> string) list \<Rightarrow> (string \<times> string) list \<Rightarrow> (string, string) omap" where
  "edit_server_errors aliases fs = foldl (\<lambda>m (shown, sent). case om_get fs sent of
       Some t \<Rightarrow> om_set m shown t | None \<Rightarrow> m) fs aliases"

definition budget_options :: "string \<Rightarrow> string \<Rightarrow> flow_options" where
  "budget_options workspaceId message = \<lparr>opt_invalidate = [''budgets'', ''dashboard'', ''insights''],
     opt_invalidatePeriodReviews = False, opt_successMessage = message, opt_workspace = workspaceId\<rparr>"

definition budget_create_step ::
  "bool \<Rightarrow> issue list \<Rightarrow> string \<Rightarrow> bool \<Rightarrow> budget_request form_dialog \<Rightarrow> (budget_form, budget_request) form_event \<Rightarrow> budget_request form_dialog" where
  "budget_create_step roll extra workspaceId demoMode = form_step (check_budget roll extra)
     (\<lambda>fs. mapServerFields fs [(''amountMinor'', ''amount'')]) demoMode
     ''Budget added to this demo session only. No server data changed.'' (budget_options workspaceId ''Budget created.'')"

definition budget_edit_step ::
  "bool \<Rightarrow> string \<Rightarrow> bool \<Rightarrow> budget_request form_dialog \<Rightarrow> (budget_form, budget_request) form_event \<Rightarrow> budget_request form_dialog" where
  "budget_edit_step roll workspaceId demoMode = form_step (check_budget_edit roll)
     (edit_server_errors [(''amount'', ''amountMinor'')]) demoMode
     ''Budget updated in this demo session only.'' (budget_options workspaceId ''Budget updated.'')"

section \<open>Goals\<close>

datatype goal_type =
    Receive_payment | Pay_someone | Savings_target | Debt_repayment | Bill_payment | Purchase_target
  | Monthly_budget_target | Emergency_fund | Custom_goal

fun goal_type_text :: "goal_type \<Rightarrow> string" where
  "goal_type_text Receive_payment = ''receive_payment''"
| "goal_type_text Pay_someone = ''pay_someone''"
| "goal_type_text Savings_target = ''savings_target''"
| "goal_type_text Debt_repayment = ''debt_repayment''"
| "goal_type_text Bill_payment = ''bill_payment''"
| "goal_type_text Purchase_target = ''purchase_target''"
| "goal_type_text Monthly_budget_target = ''monthly_budget_target''"
| "goal_type_text Emergency_fund = ''emergency_fund''"
| "goal_type_text Custom_goal = ''custom''"

record goal_form =
  gf_name :: string
  gf_description :: string
  gf_type :: goal_type
  gf_customType :: string
  gf_direction :: goal_direction
  gf_target :: string
  gf_current :: string
  gf_currency :: string
  gf_startDate :: string
  gf_targetDate :: string
  gf_dueDate :: string
  gf_visibility :: goal_visibility
  gf_contactId :: string
  gf_contactName :: string
  gf_accountId :: string
  gf_category :: string
  gf_reminder :: string
  gf_notes :: string

record goal_request =
  gq_name :: string
  gq_description :: "string option"
  gq_type :: string
  gq_customType :: "string option"
  gq_direction :: goal_direction
  gq_targetMinor :: int
  gq_currentMinor :: int
  gq_currency :: string
  gq_startDate :: "string option"
  gq_targetDate :: "string option"
  gq_dueDate :: "string option"
  gq_visibility :: goal_visibility
  gq_contactId :: "string option"
  gq_contactName :: "string option"
  gq_accountId :: "string option"
  gq_category :: "string option"
  gq_reminder :: "string option"
  gq_notes :: "string option"

definition new_goal_form :: "string \<Rightarrow> goal_form" where
  "new_goal_form preferred = \<lparr>gf_name = [], gf_description = [], gf_type = Savings_target, gf_customType = [], gf_direction = Save,
     gf_target = [], gf_current = ''0'', gf_currency = preferred, gf_startDate = [], gf_targetDate = [], gf_dueDate = [],
     gf_visibility = Goal_workspace, gf_contactId = [], gf_contactName = [], gf_accountId = [], gf_category = [], gf_reminder = [],
     gf_notes = []\<rparr>"

text \<open>The inputs that change more than their own field.\<close>

definition choose_goal_type :: "goal_type \<Rightarrow> goal_form \<Rightarrow> goal_form" where
  "choose_goal_type ty v = v\<lparr>gf_type := ty, gf_direction :=
     (if ty = Receive_payment then Receive
      else if ty = Pay_someone \<or> ty = Debt_repayment \<or> ty = Bill_payment then Pay
      else if ty = Custom_goal then gf_direction v else Save)\<rparr>"

definition type_goal_contact :: "string \<Rightarrow> goal_form \<Rightarrow> goal_form" where
  "type_goal_contact s v = v\<lparr>gf_contactName := s, gf_contactId := []\<rparr>"

definition select_goal_contact :: "string \<Rightarrow> string \<Rightarrow> goal_form \<Rightarrow> goal_form" where
  "select_goal_contact i nm v = v\<lparr>gf_contactName := nm, gf_contactId := i\<rparr>"

definition choose_goal_deadline :: "string \<Rightarrow> goal_form \<Rightarrow> goal_form" where
  "choose_goal_deadline d v = v\<lparr>gf_targetDate := d, gf_dueDate := d\<rparr>"

definition goal_account_effect :: "bool \<Rightarrow> string option \<Rightarrow> goal_form \<Rightarrow> goal_form" where
  "goal_account_effect opened firstAccountId v =
     (case firstAccountId of Some (c # cs) \<Rightarrow> if opened \<and> gf_accountId v = [] then v\<lparr>gf_accountId := c # cs\<rparr> else v | _ \<Rightarrow> v)"

text \<open>The options for the account: the dialog keeps the response of the API as it is, and reads
  \<open>account.balance.currency\<close> of each item while it renders.\<close>

definition jsx_text :: "json \<Rightarrow> string" where
  "jsx_text v = (case v of JStr s \<Rightarrow> s | JNum x \<Rightarrow> num_string x | _ \<Rightarrow> [])"

definition goal_account_option :: "json \<Rightarrow> js_error + string" where
  "goal_account_option a = (if is_nullish a \<or> is_nullish (jprop a ''balance'') then Inl TypeError
     else Inr (jsx_text (jprop a ''name'') @ '' '' @ CHR 0xB7 # '' '' @ jsx_text (jprop (jprop a ''balance'') ''currency'')))"

definition goal_account_options :: "json list \<Rightarrow> js_error + string list" where
  "goal_account_options accounts = map_result goal_account_option accounts"

definition optional_day :: "bool \<Rightarrow> string \<Rightarrow> string list" where
  "optional_day roll s = (if js_trim s = [] \<or> valid_day roll (js_trim s) then [] else [''Choose a valid date''])"

definition goal_cross_issues :: "goal_form \<Rightarrow> issue list" where
  "goal_cross_issues v =
     (if amount_of (moneyInputSchema False True (gf_current v)) > amount_of (moneyInputSchema False False (gf_target v))
      then [(Some ''current'', ''Current amount cannot be more than the target'')] else [])
     @ (if gf_type v = Custom_goal \<and> js_trim (gf_customType v) = []
        then [(Some ''customType'', ''Enter a label for a custom goal type'')] else [])
     @ (if js_trim (gf_startDate v) \<noteq> [] \<and> js_trim (gf_dueDate v) \<noteq> [] \<and> str_less (js_trim (gf_dueDate v)) (js_trim (gf_startDate v))
        then [(Some ''dueDate'', ''Due date must be on or after the start date'')] else [])"

definition goal_issues :: "bool \<Rightarrow> issue list \<Rightarrow> goal_form \<Rightarrow> issue list" where
  "goal_issues roll extra v = object_issues extra
     (under ''name'' (required ''Enter a goal name'' (gf_name v) @ at_most_chars 100 ''Keep the name under 100 characters'' (gf_name v))
      @ under ''target'' (issues_of (moneyInputSchema False False (gf_target v)))
      @ under ''current'' (issues_of (moneyInputSchema False True (gf_current v)))
      @ under ''currency'' (issues_of (currencySchema (gf_currency v)))
      @ under ''description'' (at_most_chars 500 ''Keep the description under 500 characters'' (gf_description v))
      @ under ''customType'' (at_most_chars 80 ''Keep the custom type under 80 characters'' (gf_customType v))
      @ under ''startDate'' (optional_day roll (gf_startDate v))
      @ under ''targetDate'' (optional_day roll (gf_targetDate v))
      @ under ''dueDate'' (optional_day roll (gf_dueDate v))
      @ under ''contactName'' (at_most_chars 200 ''Keep the contact name under 200 characters'' (gf_contactName v))
      @ under ''category'' (at_most_chars 100 ''Keep the category under 100 characters'' (gf_category v))
      @ under ''reminder'' (at_most_chars 100 ''Keep the reminder under 100 characters'' (gf_reminder v))
      @ under ''notes'' (at_most_chars 2000 ''Keep notes under 2,000 characters'' (gf_notes v)))
     (goal_cross_issues v)"

definition day_or_undefined :: "string \<Rightarrow> string option" where
  "day_or_undefined s = (if s = [] then None else Some (toUtcDate s False))"

definition check_goal :: "bool \<Rightarrow> issue list \<Rightarrow> goal_form \<Rightarrow> issue list + goal_request" where
  "check_goal roll extra v = (if goal_issues roll extra v \<noteq> [] then Inl (goal_issues roll extra v)
     else Inr \<lparr>gq_name = js_trim (gf_name v), gq_description = or_undefined_text (js_trim (gf_description v)),
       gq_type = goal_type_text (gf_type v), gq_customType = or_undefined_text (js_trim (gf_customType v)),
       gq_direction = gf_direction v, gq_targetMinor = toMinor (amount_of (moneyInputSchema False False (gf_target v))),
       gq_currentMinor = toMinor (amount_of (moneyInputSchema False True (gf_current v))),
       gq_currency = checked_currency (gf_currency v), gq_startDate = day_or_undefined (js_trim (gf_startDate v)),
       gq_targetDate = day_or_undefined (js_trim (gf_targetDate v)), gq_dueDate = day_or_undefined (js_trim (gf_dueDate v)),
       gq_visibility = gf_visibility v, gq_contactId = or_undefined_text (js_trim (gf_contactId v)),
       gq_contactName = or_undefined_text (js_trim (gf_contactName v)), gq_accountId = or_undefined_text (js_trim (gf_accountId v)),
       gq_category = or_undefined_text (js_trim (gf_category v)), gq_reminder = or_undefined_text (js_trim (gf_reminder v)),
       gq_notes = or_undefined_text (js_trim (gf_notes v))\<rparr>)"

text \<open>Editing a goal: its type is any text the server has.\<close>

record goal_edit_form =
  ge_name :: string
  ge_description :: string
  ge_type :: string
  ge_customType :: string
  ge_direction :: goal_direction
  ge_target :: string
  ge_current :: string
  ge_currency :: string
  ge_startDate :: string
  ge_targetDate :: string
  ge_visibility :: goal_visibility
  ge_contactName :: string
  ge_category :: string
  ge_reminder :: string
  ge_notes :: string

definition day_for_input :: "(string \<Rightarrow> date) \<Rightarrow> int \<Rightarrow> string \<Rightarrow> string" where
  "day_for_input parse now s = (if s = [] then [] else dateForInput parse (Some s) now)"

definition goal_edit_form_of :: "(string \<Rightarrow> date) \<Rightarrow> int \<Rightarrow> goal \<Rightarrow> goal_edit_form" where
  "goal_edit_form_of parse now g = \<lparr>ge_name = gl_name g, ge_description = text_or (gl_description g) [],
     ge_type = text_or (gl_type g) ''savings_target'', ge_customType = text_or (gl_customType g) [],
     ge_direction = (case gl_direction g of Some d \<Rightarrow> d | None \<Rightarrow> Save), ge_target = majorFromMinor (amountMinor (gl_target g)),
     ge_current = majorFromMinor (amountMinor (gl_saved g)), ge_currency = currency (gl_target g),
     ge_startDate = day_for_input parse now (text_or (gl_startDate g) []), ge_targetDate = day_for_input parse now (gl_targetDate g),
     ge_visibility = (if gl_visibility g = Some Goal_private then Goal_private else Goal_workspace),
     ge_contactName = (case gl_contact g of Some c \<Rightarrow> ct_name c | None \<Rightarrow> text_or (gl_contactName g) []),
     ge_category = text_or (gl_category g) [], ge_reminder = text_or (gl_reminder g) [], ge_notes = text_or (gl_notes g) []\<rparr>"

definition goal_edit_issues :: "bool \<Rightarrow> goal_edit_form \<Rightarrow> issue list" where
  "goal_edit_issues roll v =
     (let target = moneyInputSchema False False (ge_target v); current = moneyInputSchema False True (ge_current v)
      in under ''name'' (if js_trim (ge_name v) = [] then [''Enter a goal name.''] else [])
        @ under ''target'' (first_issue ''Enter a target.'' target)
        @ under ''current'' (first_issue ''Enter the saved amount.'' current)
        @ under ''current'' (if issues_of target = [] \<and> issues_of current = [] \<and> amount_of current > amount_of target
            then [''Saved amount cannot be greater than the target.''] else [])
        @ under ''targetDate'' (if ge_targetDate v \<noteq> [] \<and> \<not> valid_day roll (ge_targetDate v) then [''Choose a valid date.''] else []))"

definition check_goal_edit :: "bool \<Rightarrow> goal_edit_form \<Rightarrow> issue list + goal_request" where
  "check_goal_edit roll v = (if goal_edit_issues roll v \<noteq> [] then Inl (goal_edit_issues roll v)
     else Inr \<lparr>gq_name = js_trim (ge_name v), gq_description = or_undefined_text (js_trim (ge_description v)),
       gq_type = ge_type v, gq_customType = or_undefined_text (js_trim (ge_customType v)), gq_direction = ge_direction v,
       gq_targetMinor = toMinor (amount_of (moneyInputSchema False False (ge_target v))),
       gq_currentMinor = toMinor (amount_of (moneyInputSchema False True (ge_current v))),
       gq_currency = ge_currency v, gq_startDate = day_or_undefined (ge_startDate v),
       gq_targetDate = day_or_undefined (ge_targetDate v), gq_dueDate = day_or_undefined (ge_targetDate v),
       gq_visibility = ge_visibility v, gq_contactId = None,
       gq_contactName = or_undefined_text (js_trim (ge_contactName v)), gq_accountId = None,
       gq_category = or_undefined_text (js_trim (ge_category v)), gq_reminder = or_undefined_text (js_trim (ge_reminder v)),
       gq_notes = or_undefined_text (js_trim (ge_notes v))\<rparr>)"

definition demo_goal :: "string \<Rightarrow> goal_request \<Rightarrow> goal" where
  "demo_goal newId r = \<lparr>gl_id = newId, gl_name = gq_name r,
     gl_saved = \<lparr>amountMinor = Fin (of_int (gq_currentMinor r)), currency = gq_currency r\<rparr>,
     gl_target = \<lparr>amountMinor = Fin (of_int (gq_targetMinor r)), currency = gq_currency r\<rparr>,
     gl_targetDate = text_or (gq_targetDate r) [], gl_description = gq_description r, gl_type = Some (gq_type r),
     gl_customType = None, gl_direction = Some (gq_direction r),
     gl_remaining = \<lparr>amountMinor = js_max (Fin 0) (Fin (of_int (gq_targetMinor r - gq_currentMinor r))), currency = gq_currency r\<rparr>,
     gl_startDate = None, gl_dueDate = gq_dueDate r, gl_status = None, gl_visibility = None, gl_contactId = gq_contactId r,
     gl_contactName = gq_contactName r, gl_contact = None, gl_accountId = None, gl_category = gq_category r, gl_reminder = None,
     gl_notes = gq_notes r, gl_cancelledAt = None, gl_completionDate = None, gl_linkedTransactionIds = [],
     gl_createdBySummary = None, gl_history = []\<rparr>"

definition demo_goal_edited :: "goal \<Rightarrow> goal_request \<Rightarrow> goal" where
  "demo_goal_edited g r = g\<lparr>gl_name := gq_name r,
     gl_target := \<lparr>amountMinor = Fin (of_int (gq_targetMinor r)), currency = gq_currency r\<rparr>,
     gl_saved := \<lparr>amountMinor = Fin (of_int (gq_currentMinor r)), currency = gq_currency r\<rparr>,
     gl_targetDate := text_or (gq_targetDate r) [], gl_visibility := Some (gq_visibility r)\<rparr>"

definition goal_options :: "string \<Rightarrow> string \<Rightarrow> flow_options" where
  "goal_options workspaceId message = \<lparr>opt_invalidate = [''goals'', ''dashboard'', ''insights''],
     opt_invalidatePeriodReviews = False, opt_successMessage = message, opt_workspace = workspaceId\<rparr>"

definition goal_create_step ::
  "bool \<Rightarrow> issue list \<Rightarrow> string \<Rightarrow> bool \<Rightarrow> goal_request form_dialog \<Rightarrow> (goal_form, goal_request) form_event \<Rightarrow> goal_request form_dialog" where
  "goal_create_step roll extra workspaceId demoMode = form_step (check_goal roll extra)
     (\<lambda>fs. mapServerFields fs [(''targetMinor'', ''target''), (''currentMinor'', ''current'')]) demoMode
     ''Goal added to this demo session only. No server data changed.'' (goal_options workspaceId ''Goal created.'')"

definition goal_edit_step ::
  "bool \<Rightarrow> string \<Rightarrow> bool \<Rightarrow> goal_request form_dialog \<Rightarrow> (goal_edit_form, goal_request) form_event \<Rightarrow> goal_request form_dialog" where
  "goal_edit_step roll workspaceId demoMode = form_step (check_goal_edit roll)
     (edit_server_errors [(''target'', ''targetMinor''), (''current'', ''currentMinor'')]) demoMode
     ''Goal updated in this demo session only.'' (goal_options workspaceId ''Goal updated.'')"

text \<open>The form for a contact inside the goal form; its name is checked before anything is sent, and a contact that was
  created is selected. \<open>None\<close> as the reply is a failure.\<close>

record contact_draft =
  cd_open :: bool
  cd_name :: string
  cd_phone :: string
  cd_email :: string
  cd_error :: string
  cd_saving :: bool

definition open_contact_draft :: "goal_form \<Rightarrow> contact_draft \<Rightarrow> contact_draft" where
  "open_contact_draft v d = (if gf_contactId v \<noteq> [] \<or> js_trim (gf_contactName v) = [] then d
     else d\<lparr>cd_name := js_trim (gf_contactName v), cd_phone := [], cd_email := [], cd_error := [], cd_open := True\<rparr>)"

definition createContact :: "contact_draft \<Rightarrow> contact_draft \<times> (string \<times> string \<times> string) option" where
  "createContact d = (if js_trim (cd_name d) = [] then (d\<lparr>cd_error := ''Enter a contact name.''\<rparr>, None)
     else (d\<lparr>cd_saving := True, cd_error := []\<rparr>, Some (js_trim (cd_name d), js_trim (cd_phone d), js_trim (cd_email d))))"

definition contact_created :: "(string \<times> string) option \<Rightarrow> goal_form \<Rightarrow> contact_draft \<Rightarrow> goal_form \<times> contact_draft" where
  "contact_created reply v d = (case reply of
       Some (i, nm) \<Rightarrow> (select_goal_contact i nm v, d\<lparr>cd_open := False, cd_saving := False\<rparr>)
     | None \<Rightarrow> (v, d\<lparr>cd_error := ''Could not create that contact. Check the name and try again.'', cd_saving := False\<rparr>))"

section \<open>What is sent\<close>

lemma set_each_once [simp]: "set (each_once xs) = set xs"
  by (induction xs) auto

lemma distinct_each_once [simp]: "distinct (each_once xs)"
  by (induction xs) auto

lemma length_each_once: "length (each_once xs) \<le> length xs"
  by (induction xs) (auto intro: le_trans [OF length_filter_le])

lemma each_once_distinct: "distinct xs \<Longrightarrow> each_once xs = xs"
  by (induction xs) (auto simp: filter_id_conv)

lemma object_no_issues: "object_issues extra own across = [] \<longleftrightarrow> own = [] \<and> across = []"
  by (auto simp: object_issues_def)

lemma amount_cases:
  assumes "issues_of (moneyInputSchema neg zero s) = []"
  obtains v where "moneyInputSchema neg zero s = Inr (Fin v)" "amount_of (moneyInputSchema neg zero s) = v"
  using no_amount_issues [OF assms] by (auto simp: amount_of_def)

lemma planned_amount:
  assumes "issues_of (moneyInputSchema False False s) = []"
  shows "1 \<le> toMinor (amount_of (moneyInputSchema False False s))"
    "toMinor (amount_of (moneyInputSchema False False s)) \<le> max_safe_integer"
proof -
  obtain v where "moneyInputSchema False False s = Inr (Fin v)" "amount_of (moneyInputSchema False False s) = v"
    using assms by (rule amount_cases)
  with accepted_minor(1,3) [of False False s v] show "1 \<le> toMinor (amount_of (moneyInputSchema False False s))"
    "toMinor (amount_of (moneyInputSchema False False s)) \<le> max_safe_integer" by (simp_all add: abs_le_iff)
qed

lemma planned_balance:
  assumes "issues_of (moneyInputSchema False True s) = []"
  shows "0 \<le> toMinor (amount_of (moneyInputSchema False True s))"
proof -
  obtain v where "moneyInputSchema False True s = Inr (Fin v)" "amount_of (moneyInputSchema False True s) = v"
    using assms by (rule amount_cases)
  with accepted_minor(2) [of False True s v] show ?thesis by simp
qed

lemma first_issue_none: "first_issue d (moneyInputSchema neg zero s) = [] \<longleftrightarrow> issues_of (moneyInputSchema neg zero s) = []"
  using schema_Inl_nonempty(1) by (auto simp: first_issue_def issues_of_def split: sum.split list.split)

lemma str_less_iff: "str_less a b \<longleftrightarrow> \<not> str_le b a"
  using str_le_total [of a b] str_le_antisym [of a b] by (auto simp: str_less_def)

lemma valid_day_cases: "valid_day roll s \<longleftrightarrow> match_date_only (js_trim s) \<and> valid_civil (year_part (js_trim s)) (month_part (js_trim s)) (day_part (js_trim s))"
  using dateInputSchema_correct [of roll s] schema_Inl_nonempty(2) [of roll s]
  by (cases "dateInputSchema roll s") (auto simp: valid_day_def issues_of_def)

text \<open>The days of two requests are in the order of the times they become.\<close>

lemma utc_order: "length a = length b \<Longrightarrow> str_le a b \<Longrightarrow> str_le (toUtcDate a False) (toUtcDate b e)"
  by (induction a b rule: list_induct2) (auto simp: toUtcDate_def code_of_def)

definition budget_request_sound :: "budget_request \<Rightarrow> bool" where
  "budget_request_sound r =
     (1 \<le> length (br_name r) \<and> length (br_name r) \<le> 100 \<and> 1 \<le> br_amountMinor r \<and> br_amountMinor r \<le> max_safe_integer \<and>
      length (br_currency r) = 3 \<and> list_all is_upper_az (br_currency r) \<and> 1 \<le> length (br_period r) \<and> length (br_period r) \<le> 50 \<and>
      length (br_categories r) \<le> 20 \<and> distinct (br_categories r) \<and>
      list_all (\<lambda>c. 1 \<le> length c \<and> length c \<le> 50 \<and> js_trim c = c \<and> CHR '','' \<notin> set c) (br_categories r) \<and>
      str_le (br_startAt r) (br_endAt r))"


lemma js_trim_subset: "set (js_trim s) \<subseteq> set s"
  using set_dropWhileD [of _ is_space s] set_dropWhileD [of _ is_space "rev (dropWhile is_space s)"]
  by (auto simp: js_trim_def trim_start_def trim_end_def)

lemma split_on_free: "p \<in> set (split_on c s) \<Longrightarrow> c \<notin> set p"
  by (induction c s arbitrary: p rule: split_on.induct) (auto split: list.splits if_splits)

lemma category_parts_free: "p \<in> set (category_parts s) \<Longrightarrow> js_trim p = p \<and> CHR '','' \<notin> set p"
  using js_trim_subset split_on_free by (fastforce simp: category_parts_def)

lemma checked_budget_sound: "check_budget roll extra v = Inr r \<Longrightarrow> budget_request_sound r"
proof -
  assume c: "check_budget roll extra v = Inr r"
  then have i: "budget_issues roll extra v = []" by (simp add: check_budget_def split: if_splits)
  note i = i [unfolded budget_issues_def object_no_issues]
  have d: "valid_day roll (bf_startAt v)" "valid_day roll (bf_endAt v)" and m: "issues_of (moneyInputSchema False False (bf_amount v)) = []"
    using i by (simp_all add: valid_day_def no_issues)
  have o: "str_le (js_trim (bf_startAt v)) (js_trim (bf_endAt v))" using i by (auto simp: str_less_iff split: if_splits)
  have "length (js_trim (bf_startAt v)) = length (js_trim (bf_endAt v))" using d by (simp add: valid_day_cases match_date_only_def)
  from utc_order [OF this o, of True] have u: "str_le (toUtcDate (js_trim (bf_startAt v)) False) (toUtcDate (js_trim (bf_endAt v)) True)" .
  have cs: "js_trim (bf_categories v) = [] \<or> (length (category_parts (js_trim (bf_categories v))) \<le> 20 \<and>
      list_all (\<lambda>c. length c > 0 \<and> length c \<le> 50) (category_parts (js_trim (bf_categories v))))"
    using i by (auto simp: categoryListSchema_def Let_def no_issues split: if_splits)
  have l: "length (each_once (filter P xs)) \<le> length xs" for P and xs :: "string list"
    using length_each_once [of "filter P xs"] length_filter_le [of P xs] by linarith
  have "br_categories r = (if js_trim (bf_categories v) = [] then []
      else each_once (filter (\<lambda>c. c \<noteq> []) (category_parts (js_trim (bf_categories v)))))"
    using c by (auto simp: check_budget_def split: if_splits)
  then have k: "length (br_categories r) \<le> 20 \<and> distinct (br_categories r) \<and>
      list_all (\<lambda>c. 1 \<le> length c \<and> length c \<le> 50 \<and> js_trim c = c \<and> CHR '','' \<notin> set c) (br_categories r)"
    using cs l [of "\<lambda>c. c \<noteq> []" "category_parts (js_trim (bf_categories v))"] category_parts_free
    by (auto simp: list_all_iff Suc_le_eq split: if_splits)
  show ?thesis
    using c i k u planned_amount [OF m] no_currency_issues [of "bf_currency v"]
    by (auto simp: check_budget_def budget_request_sound_def no_issues Suc_le_eq split: if_splits)
qed

lemma checked_budget_edit_sound:
  assumes "check_budget_edit roll v = Inr r"
  shows "1 \<le> length (br_name r) \<and> 1 \<le> br_amountMinor r \<and> br_amountMinor r \<le> max_safe_integer \<and>
    length (br_categories r) \<le> 20 \<and> distinct (br_categories r)"
proof -
  have m: "issues_of (moneyInputSchema False False (bf_amount v)) = []" and n: "js_trim (bf_name v) \<noteq> []"
    using assms by (auto simp: check_budget_edit_def budget_edit_issues_def no_issues(3) first_issue_none split: if_splits)
  show ?thesis
    using assms n planned_amount [OF m] by (auto simp: check_budget_edit_def Suc_le_eq distinct_take split: if_splits)
qed

definition goal_request_sound :: "goal_request \<Rightarrow> bool" where
  "goal_request_sound r =
     (1 \<le> length (gq_name r) \<and> 0 \<le> gq_currentMinor r \<and> gq_currentMinor r \<le> gq_targetMinor r \<and> 1 \<le> gq_targetMinor r \<and>
      gq_targetMinor r \<le> max_safe_integer)"

lemma checked_goal_sound: "check_goal roll extra v = Inr r \<Longrightarrow> goal_request_sound r"
proof -
  assume c: "check_goal roll extra v = Inr r"
  then have i: "goal_issues roll extra v = []" by (simp add: check_goal_def split: if_splits)
  note i = i [unfolded goal_issues_def object_no_issues]
  have m: "issues_of (moneyInputSchema False False (gf_target v)) = []" "issues_of (moneyInputSchema False True (gf_current v)) = []"
    using i by (simp_all add: no_issues)
  have "amount_of (moneyInputSchema False True (gf_current v)) \<le> amount_of (moneyInputSchema False False (gf_target v))"
    using i by (auto simp: goal_cross_issues_def split: if_splits)
  from toMinor_mono [OF this] show ?thesis
    using c i planned_amount [OF m(1)] planned_balance [OF m(2)]
    by (auto simp: check_goal_def goal_request_sound_def no_issues Suc_le_eq split: if_splits)
qed

lemma checked_goal_edit_sound: "check_goal_edit roll v = Inr r \<Longrightarrow> goal_request_sound r"
proof -
  assume c: "check_goal_edit roll v = Inr r"
  then have i: "goal_edit_issues roll v = []" by (simp add: check_goal_edit_def split: if_splits)
  have m: "issues_of (moneyInputSchema False False (ge_target v)) = []" "issues_of (moneyInputSchema False True (ge_current v)) = []"
    using i by (simp_all add: goal_edit_issues_def Let_def no_issues(3) first_issue_none)
  have "amount_of (moneyInputSchema False True (ge_current v)) \<le> amount_of (moneyInputSchema False False (ge_target v))"
    using i m by (auto simp: goal_edit_issues_def Let_def no_issues(3) split: if_splits)
  from toMinor_mono [OF this] show ?thesis
    using c i planned_amount [OF m(1)] planned_balance [OF m(2)]
    by (auto simp: check_goal_edit_def goal_edit_issues_def Let_def goal_request_sound_def no_issues(3) Suc_le_eq split: if_splits)
qed

interpretation budget_contract: form_contract "check_budget roll extra" budget_request_sound for roll extra
  by unfold_locales (rule checked_budget_sound)

interpretation goal_contract: form_contract "check_goal roll extra" goal_request_sound for roll extra
  by unfold_locales (rule checked_goal_sound)

interpretation goal_edit_contract: form_contract "check_goal_edit roll" goal_request_sound for roll
  by unfold_locales (rule checked_goal_edit_sound)

section \<open>Reopening\<close>

subsection \<open>What the API stores\<close>

text \<open>\<open>CreateBudget\<close> of the API (src/api/internal/service/planning.go) for an actor with the permission and a request without a
  vault, which the client never sends, and the answer as encoding/json writes it. \<open>strings.TrimSpace\<close> also takes the character
  U+0085 for a space, which \<open>trim\<close> of the client does not.\<close>

definition go_space :: "char \<Rightarrow> bool" where
  "go_space c = (is_space c \<or> code_of c = 0x85)"

definition go_trim :: "string \<Rightarrow> string" where
  "go_trim s = rev (dropWhile go_space (rev (dropWhile go_space s)))"

definition validatedText :: "nat \<Rightarrow> nat \<Rightarrow> string \<Rightarrow> string option" where
  "validatedText minimum maximum raw = (let value = go_trim raw
     in if length value < minimum \<or> length value > maximum then None else Some value)"

definition validCurrency :: "string \<Rightarrow> string option" where
  "validCurrency raw = (let currency = js_upper (go_trim raw)
     in if length currency = 3 \<and> list_all is_upper_az currency then Some currency else None)"

definition valueOrDefault :: "string \<Rightarrow> string \<Rightarrow> string" where
  "valueOrDefault value fallback = (if value = [] then fallback else value)"

definition normalizedTags :: "string list \<Rightarrow> string list" where
  "normalizedTags values = foldl (\<lambda>result value. let value = go_trim value
     in if value \<noteq> [] \<and> length value \<le> 50 \<and> value \<notin> set result \<and> length result < 20 then result @ [value] else result) [] values"

text \<open>A \<open>time.Time\<close> is read from RFC 3339 (here from the texts with three digits of a fraction and \<open>Z\<close>, which are all that the client
  sends) and written as RFC 3339 without the zeros at the end of the fraction. It is kept as milliseconds, as the database does.\<close>

definition civil_day :: "string \<Rightarrow> int" where
  "civil_day s = make_day (year_part s) (month_part s - 1) (day_part s)"

definition clock_ms :: "string \<Rightarrow> int option" where
  "clock_ms clock = (let h = take 2 (drop 1 clock); m = take 2 (drop 4 clock); s = take 2 (drop 7 clock); f = take 3 (drop 10 clock)
     in if clock = ''T'' @ h @ '':'' @ m @ '':'' @ s @ ''.'' @ f @ ''Z'' \<and> length f = 3 \<and> all_digits (h @ m @ s @ f) \<and>
          digits_value h < 24 \<and> digits_value m < 60 \<and> digits_value s < 60
        then Some (int (digits_value h) * 3600000 + int (digits_value m) * 60000 + int (digits_value s) * 1000 + int (digits_value f)) else None)"

definition go_time :: "string \<Rightarrow> int option" where
  "go_time s = (let day = take 10 s in
     if match_date_only day \<and> valid_civil (year_part day) (month_part day) (day_part day)
     then map_option (\<lambda>ms. ms_per_day * civil_day day + ms) (clock_ms (drop 10 s)) else None)"

definition fraction_text :: "int \<Rightarrow> string" where
  "fraction_text ms = (let f = rev (dropWhile (\<lambda>c. c = CHR ''0'') (rev (pad_start 3 (CHR ''0'') (int_string ms))))
     in if f = [] then [] else CHR ''.'' # f)"

definition go_time_text :: "int \<Rightarrow> string" where
  "go_time_text t = (let d = day_of_time t; ms = t mod ms_per_day in
     pad_start 4 (CHR ''0'') (int_string (year_of_day d)) @ ''-'' @ pad (Some (month_of_day d + 1)) @ ''-'' @ pad (Some (date_of_day d))
       @ ''T'' @ pad (Some (ms div 3600000)) @ '':'' @ pad (Some (ms div 60000 mod 60)) @ '':'' @ pad (Some (ms div 1000 mod 60))
       @ fraction_text (ms mod 1000) @ ''Z'')"

record stored_budget =
  sb_id :: string
  sb_name :: string
  sb_amountMinor :: int
  sb_currency :: string
  sb_period :: string
  sb_categories :: "string list"
  sb_rollover :: bool
  sb_startAt :: int
  sb_endAt :: int
  sb_createdAt :: int

text \<open>The field of the error, or the budget; \<open>stamp\<close> is the clock of the server.\<close>

definition CreateBudget :: "string \<Rightarrow> int \<Rightarrow> budget_request \<Rightarrow> string + stored_budget" where
  "CreateBudget newID stamp r = (case (go_time (br_startAt r), go_time (br_endAt r)) of
       (Some startAt, Some endAt) \<Rightarrow>
         if br_amountMinor r \<le> 0 \<or> br_amountMinor r > 9000000000000000 then Inl ''amountMinor''
         else if \<not> startAt < endAt then Inl ''endAt''
         else (case validCurrency (br_currency r) of None \<Rightarrow> Inl ''currency'' | Some c \<Rightarrow>
           (case validatedText 1 100 (br_name r) of None \<Rightarrow> Inl ''name'' | Some n \<Rightarrow>
           (case validatedText 1 50 (valueOrDefault (js_lower (go_trim (br_period r))) ''custom'') of None \<Rightarrow> Inl ''period'' | Some p \<Rightarrow>
             Inr \<lparr>sb_id = newID, sb_name = n, sb_amountMinor = br_amountMinor r, sb_currency = c, sb_period = p,
               sb_categories = normalizedTags (br_categories r), sb_rollover = br_rollover r, sb_startAt = startAt, sb_endAt = endAt,
               sb_createdAt = stamp\<rparr>)))
     | _ \<Rightarrow> Inl ''body'')"

definition budget_response :: "stored_budget \<Rightarrow> json" where
  "budget_response b = JObj ([(''id'', JStr (sb_id b)), (''name'', JStr (sb_name b)), (''amountMinor'', JNum (Fin (of_int (sb_amountMinor b)))),
     (''currency'', JStr (sb_currency b)), (''period'', JStr (sb_period b))]
     @ (if sb_categories b = [] then [] else [(''categories'', JArr (map JStr (sb_categories b)))])
     @ [(''rollover'', JBool (sb_rollover b)), (''startAt'', JStr (go_time_text (sb_startAt b))), (''endAt'', JStr (go_time_text (sb_endAt b))),
        (''createdAt'', JStr (go_time_text (sb_createdAt b))), (''updatedAt'', JStr (go_time_text (sb_createdAt b)))])"

subsection \<open>The way through the API\<close>

text \<open>That \<open>new Date\<close> reads the two times of a day as the API writes them.\<close>

definition api_time :: "string \<Rightarrow> bool \<Rightarrow> string" where
  "api_time s endOfDay = s @ (if endOfDay then ''T23:59:59.999Z'' else ''T00:00:00Z'')"

definition reads_utc :: "(string \<Rightarrow> date) \<Rightarrow> string \<Rightarrow> bool" where
  "reads_utc parse s = (parse (api_time s False) = Some (ms_per_day * civil_day s) \<and>
     parse (api_time s True) = Some (ms_per_day * civil_day s + 86399999))"

lemma take_whole: "10 \<le> length x \<Longrightarrow> take 10 (x @ y) = take 10 x"
  by simp

lemma civil_text:
  assumes "match_date_only s" "valid_civil (year_part s) (month_part s) (day_part s)"
  shows "pad_start 4 (CHR ''0'') (int_string (year_of_day (civil_day s))) @ ''-'' @ pad (Some (month_of_day (civil_day s) + 1)) @ ''-''
      @ pad (Some (date_of_day (civil_day s))) = s"
    "iso_year (year_of_day (civil_day s)) = pad_start 4 (CHR ''0'') (int_string (year_of_day (civil_day s)))"
proof -
  let ?n = "civil_day s"
  note r = match_parts_range [OF assms(1)]
  have y: "year_of_day ?n = year_part s" unfolding civil_day_def
    using assms(2) by (auto simp: valid_civil_def intro!: civil_make_day)
  show e: "iso_year (year_of_day ?n) = pad_start 4 (CHR ''0'') (int_string (year_of_day ?n))" using y r by (simp add: iso_year_def)
  let ?x = "iso_year (year_of_day ?n) @ ''-'' @ pad (Some (month_of_day ?n + 1)) @ ''-'' @ pad (Some (date_of_day ?n))"
  have t: "take 10 (?x @ ''T00:00:00.000Z'') = s"
    using iso_slice_valid [OF assms] by (simp only: iso_slice_def Let_def day_of_time_mult append_assoc civil_day_def)
  have c: "month_of_day ?n = month_part s - 1" "date_of_day ?n = day_part s" unfolding civil_day_def
    using assms(2) by (auto simp: valid_civil_def intro!: civil_make_day)
  have "length (pad (Some (month_of_day ?n + 1))) = 2" "length (pad (Some (date_of_day ?n))) = 2" "length (iso_year (year_of_day ?n)) = 4"
    unfolding c y using r pad2(1) year_pad4(1) by simp_all
  then have l: "length ?x = 10" by (simp only: length_append) simp
  have "take 10 (?x @ ''T00:00:00.000Z'') = ?x" using l by (simp only: take_append) simp
  then show "pad_start 4 (CHR ''0'') (int_string (year_of_day ?n)) @ ''-'' @ pad (Some (month_of_day ?n + 1)) @ ''-''
      @ pad (Some (date_of_day ?n)) = s" unfolding t by (simp only: e)
qed

lemma day_with_time:
  assumes "0 \<le> k" "k < ms_per_day"
  shows "day_of_time (ms_per_day * n + k) = n" "(ms_per_day * n + k) mod ms_per_day = k"
  using assms by (simp_all add: day_of_time_def ms_per_day_def)

lemma iso_day:
  assumes "match_date_only s" "valid_civil (year_part s) (month_part s) (day_part s)" "0 \<le> k" "k < ms_per_day"
  shows "take 10 (toISOString (ms_per_day * civil_day s + k)) = s"
proof -
  let ?n = "civil_day s"
  let ?x = "iso_year (year_of_day ?n) @ ''-'' @ pad (Some (month_of_day ?n + 1)) @ ''-'' @ pad (Some (date_of_day ?n))"
  have x: "?x = s" using civil_text [OF assms(1,2)] by simp
  then have l: "10 \<le> length ?x" using assms(1) by (simp add: match_date_only_def)
  have "take 10 (toISOString (ms_per_day * ?n + k)) = take 10 ?x"
    using take_whole [OF l] by (simp only: toISOString_def Let_def day_with_time [OF assms(3,4)] append_assoc)
  then show ?thesis unfolding x using assms(1) by (simp add: match_date_only_def)
qed

lemma clock_of_day: "clock_ms ''T00:00:00.000Z'' = Some 0" "clock_ms ''T23:59:59.999Z'' = Some 86399999"
  by code_simp+

lemma go_time_sent:
  assumes "match_date_only s" "valid_civil (year_part s) (month_part s) (day_part s)"
  shows "go_time (toUtcDate s e) = Some (ms_per_day * civil_day s + (if e then 86399999 else 0))"
proof -
  have l: "length s = 10" using assms(1) by (simp add: match_date_only_def)
  then have "take 10 (toUtcDate s e) = s" "drop 10 (toUtcDate s e) = (if e then ''T23:59:59.999Z'' else ''T00:00:00.000Z'')"
    by (simp_all add: toUtcDate_def)
  then show ?thesis using assms clock_of_day by (simp add: go_time_def Let_def)
qed

lemma clock_text:
  "''T'' @ pad (Some (0 div 3600000)) @ '':'' @ pad (Some (0 div 60000 mod 60)) @ '':'' @ pad (Some (0 div 1000 mod 60))
    @ fraction_text (0 mod 1000) @ ''Z'' = ''T00:00:00Z''"
  "''T'' @ pad (Some (86399999 div 3600000)) @ '':'' @ pad (Some (86399999 div 60000 mod 60)) @ '':'' @ pad (Some (86399999 div 1000 mod 60))
    @ fraction_text (86399999 mod 1000) @ ''Z'' = ''T23:59:59.999Z''"
  by code_simp+

lemma go_time_printed:
  assumes "match_date_only s" "valid_civil (year_part s) (month_part s) (day_part s)"
  shows "go_time_text (ms_per_day * civil_day s + (if e then 86399999 else 0)) = api_time s e"
proof -
  define k :: int where "k = (if e then 86399999 else 0)"
  have k: "0 \<le> k" "k < ms_per_day" by (simp_all add: k_def ms_per_day_def)
  let ?n = "civil_day s"
  have "go_time_text (ms_per_day * ?n + k) = (pad_start 4 (CHR ''0'') (int_string (year_of_day ?n)) @ ''-''
      @ pad (Some (month_of_day ?n + 1)) @ ''-'' @ pad (Some (date_of_day ?n))) @ (''T'' @ pad (Some (k div 3600000)) @ '':''
      @ pad (Some (k div 60000 mod 60)) @ '':'' @ pad (Some (k div 1000 mod 60)) @ fraction_text (k mod 1000) @ ''Z'')"
    unfolding go_time_text_def Let_def day_with_time [OF k] by (simp only: append_assoc)
  also have "\<dots> = s @ (if e then ''T23:59:59.999Z'' else ''T00:00:00Z'')"
    unfolding civil_text(1) [OF assms] using clock_text by (cases e) (simp_all only: k_def if_True if_False)
  finally show ?thesis by (simp add: k_def api_time_def)
qed

lemma day_reopened:
  assumes "match_date_only s" "valid_civil (year_part s) (month_part s) (day_part s)" "reads_utc parse s"
  shows "dateForInput parse (Some (api_time s e)) fb = s"
proof -
  have "api_time s e \<noteq> []" by (simp add: api_time_def)
  then show ?thesis
    using assms(3) iso_day [OF assms(1,2), of 0] iso_day [OF assms(1,2), of 86399999]
    by (cases e) (auto simp: dateForInput_def reads_utc_def ms_per_day_def split: list.split)
qed

lemma tags_kept:
  assumes "distinct (acc @ cs)" "length (acc @ cs) \<le> 20"
    and "list_all (\<lambda>c. go_trim c = c \<and> 1 \<le> length c \<and> length c \<le> 50) cs"
  shows "foldl (\<lambda>result value. let value = go_trim value
     in if value \<noteq> [] \<and> length value \<le> 50 \<and> value \<notin> set result \<and> length result < 20 then result @ [value] else result) acc cs = acc @ cs"
  using assms
proof (induction cs arbitrary: acc)
  case (Cons c cs)
  from Cons.IH [of "acc @ [c]"] Cons.prems show ?case by (auto simp: Let_def)
qed simp

lemma normalizedTags_kept:
  assumes "distinct cs" "length cs \<le> 20" "list_all (\<lambda>c. go_trim c = c \<and> 1 \<le> length c \<and> length c \<le> 50) cs"
  shows "normalizedTags cs = cs"
  using tags_kept [of "[]" cs] assms by (simp add: normalizedTags_def)

lemma split_joined:
  assumes "list_all (\<lambda>c. CHR '','' \<notin> set c) cs" "cs \<noteq> []"
  shows "split_on (CHR '','') (js_join '', '' cs) = hd cs # map ((#) (CHR '' '')) (tl cs)"
  using assms
proof (induction cs rule: induct_list012)
  case (3 c c' cs)
  have "js_join '', '' (c # c' # cs) = c @ CHR '','' # CHR '' '' # js_join '', '' (c' # cs)" by simp
  moreover have "split_on (CHR '','') (CHR '' '' # js_join '', '' (c' # cs)) = (CHR '' '' # c') # map ((#) (CHR '' '')) cs"
    using "3.IH"(2) "3.prems" by simp
  ultimately show ?case using 3 by (simp add: split_on_append)
qed (simp_all add: split_on_none)

lemma trim_space: "js_trim (CHR '' '' # s) = js_trim s"
  by (simp add: js_trim_def trim_start_def is_space_def code_of_def)

lemma joined_parts:
  assumes "list_all (\<lambda>c. 1 \<le> length c \<and> js_trim c = c \<and> CHR '','' \<notin> set c) cs"
  shows "filter (\<lambda>c. c \<noteq> []) (category_parts (js_join '', '' cs)) = cs"
proof (cases cs)
  case Nil
  then show ?thesis by (simp add: category_parts_def js_trim_def trim_start_def trim_end_def)
next
  case (Cons c cs')
  have "split_on (CHR '','') (js_join '', '' cs) = c # map ((#) (CHR '' '')) cs'"
    using split_joined [of cs] assms Cons by (simp add: list_all_iff)
  then have "category_parts (js_join '', '' cs) = map js_trim cs" by (simp add: category_parts_def Cons trim_space)
  also have "\<dots> = cs" using assms by (intro map_idI) (simp add: list_all_iff)
  finally show ?thesis using assms by (auto simp: filter_id_conv list_all_iff)
qed


lemma checked_budget_fields:
  assumes "check_budget roll extra v = Inr r"
  shows "valid_day roll (bf_startAt v)" "valid_day roll (bf_endAt v)" "br_startAt r = toUtcDate (js_trim (bf_startAt v)) False"
    "br_endAt r = toUtcDate (js_trim (bf_endAt v)) True" "br_name r = js_trim (bf_name v)" "br_period r = js_trim (bf_period v)"
    "str_le (js_trim (bf_startAt v)) (js_trim (bf_endAt v))"
  using assms
  by (auto simp: check_budget_def budget_issues_def object_no_issues no_issues(3) valid_day_def str_less_iff split: if_splits)

lemma trim_day: "valid_day roll s \<Longrightarrow> valid_day roll (js_trim s)"
  by (simp add: valid_day_cases)

lemma normalized_budget:
  "normalize_budget (budget_response b) = \<lparr>bg_id = sb_id b, bg_name = sb_name b, bg_spent = \<lparr>amountMinor = 0, currency = sb_currency b\<rparr>,
     bg_limit = \<lparr>amountMinor = Fin (of_int (sb_amountMinor b)), currency = sb_currency b\<rparr>, bg_period = sb_period b,
     bg_spendingKnown = False, bg_categories = sb_categories b, bg_rollover = sb_rollover b,
     bg_startAt = or_undefined_text (go_time_text (sb_startAt b)), bg_endAt = or_undefined_text (go_time_text (sb_endAt b))\<rparr>"
proof -
  have s: "strings_of (JArr (map JStr xs)) = xs" for xs by (induction xs) (simp_all add: strings_of_def array_items_def)
  have e: "strings_of JUndefined = []" by (simp add: strings_of_def array_items_def)
  show ?thesis
    by (cases "sb_categories b = []")
      (simp_all add: normalize_budget_def budget_response_def s e money_of_def str_or_def num_or0_def opt_str_def is_number_def or_undefined_text_def)
qed

definition budget_periods :: "string list" where
  "budget_periods = [''weekly'', ''monthly'', ''quarterly'', ''annual'', ''custom'']"

lemma period_reopened: "p \<in> set budget_periods \<Longrightarrow> replace_char (CHR '' '') ''_'' p = p \<and> js_lower p = p \<and> js_trim p = p"
  by (auto simp: budget_periods_def replace_char_def js_lower_def lower_char_def code_of_def js_trim_def trim_start_def trim_end_def is_space_def)

lemma go_trim_same: "\<forall>c \<in> set s. \<not> go_space c \<Longrightarrow> go_trim s = s"
proof -
  assume a: "\<forall>c \<in> set s. \<not> go_space c"
  have d: "\<forall>c \<in> set t. \<not> go_space c \<Longrightarrow> dropWhile go_space t = t" for t by (cases t) simp_all
  show ?thesis unfolding go_trim_def using d [of s] d [of "rev s"] a by simp
qed

lemma upper_not_space: "is_upper_az c \<Longrightarrow> \<not> go_space c \<and> upper_char c = [c]"
  by (simp add: is_upper_az_def go_space_def is_space_def upper_char_def)

lemma validCurrency_kept:
  assumes "length c = 3" "list_all is_upper_az c"
  shows "validCurrency c = Some c"
proof -
  have "go_trim c = c" using assms(2) upper_not_space by (intro go_trim_same) (simp add: list_all_iff)
  moreover have "concat (map upper_char c) = c"
    using assms(2) upper_not_space by (induction c) simp_all
  ultimately show ?thesis using assms by (simp add: validCurrency_def js_upper_def)
qed

lemma period_stored: "p \<in> set budget_periods \<Longrightarrow>
  validatedText 1 50 (valueOrDefault (js_lower (go_trim p)) ''custom'') = Some p"
  by (auto simp: budget_periods_def validatedText_def valueOrDefault_def go_trim_def go_space_def is_space_def js_lower_def lower_char_def code_of_def)

text \<open>The API stores what a checked request says, and its times as the ends of the days.\<close>

lemma budget_stored:
  assumes "check_budget roll extra v = Inr r" "bf_period v \<in> set budget_periods" "br_amountMinor r \<le> 2 ^ 50"
    and "list_all (\<lambda>t. go_trim t = t) (br_name r # br_categories r)"
  shows "CreateBudget i stamp r = Inr \<lparr>sb_id = i, sb_name = br_name r, sb_amountMinor = br_amountMinor r, sb_currency = br_currency r,
    sb_period = br_period r, sb_categories = br_categories r, sb_rollover = br_rollover r,
    sb_startAt = ms_per_day * civil_day (js_trim (bf_startAt v)), sb_endAt = ms_per_day * civil_day (js_trim (bf_endAt v)) + 86399999,
    sb_createdAt = stamp\<rparr>"
proof -
  note f = checked_budget_fields [OF assms(1)]
  have sound: "budget_request_sound r" by (rule checked_budget_sound [OF assms(1)])
  have d: "match_date_only (js_trim (bf_startAt v))" "match_date_only (js_trim (bf_endAt v))"
    "valid_civil (year_part (js_trim (bf_startAt v))) (month_part (js_trim (bf_startAt v))) (day_part (js_trim (bf_startAt v)))"
    "valid_civil (year_part (js_trim (bf_endAt v))) (month_part (js_trim (bf_endAt v))) (day_part (js_trim (bf_endAt v)))"
    using f(1,2) by (simp_all add: valid_day_cases)
  have t: "go_time (br_startAt r) = Some (ms_per_day * civil_day (js_trim (bf_startAt v)))"
    "go_time (br_endAt r) = Some (ms_per_day * civil_day (js_trim (bf_endAt v)) + 86399999)"
    unfolding f(3,4) using go_time_sent [OF d(1,3), of False] go_time_sent [OF d(2,4), of True] by simp_all
  have "civil_day (js_trim (bf_startAt v)) \<le> civil_day (js_trim (bf_endAt v))"
    using str_le_civil [OF d] f(7) by (simp add: civil_day_def)
  then have o: "ms_per_day * civil_day (js_trim (bf_startAt v)) < ms_per_day * civil_day (js_trim (bf_endAt v)) + 86399999"
    by (simp add: ms_per_day_def)
  have p: "br_period r = bf_period v" using period_reopened [OF assms(2)] f(6) by simp
  have c: "validCurrency (br_currency r) = Some (br_currency r)"
    using sound by (intro validCurrency_kept) (simp_all add: budget_request_sound_def)
  have n: "validatedText 1 100 (br_name r) = Some (br_name r)"
    using sound assms(4) by (auto simp: budget_request_sound_def validatedText_def Let_def)
  have g: "normalizedTags (br_categories r) = br_categories r"
    using sound assms(4) by (intro normalizedTags_kept) (auto simp: budget_request_sound_def list_all_iff)
  have a: "\<not> (br_amountMinor r \<le> 0 \<or> br_amountMinor r > 9000000000000000)"
    using sound assms(3) by (simp add: budget_request_sound_def)
  show ?thesis unfolding CreateBudget_def t using a o c n g period_stored [OF assms(2)] by (simp add: p)
qed

text \<open>C22. A budget survives its edit dialog: the request that created it is accepted by the API, and once that has stored it and
  answered, the client has normalized the answer and the budget is opened and saved unchanged, it is sent again as it was, with
  its categories in their order, although the API writes its times differently; for limits of up to 2^50 hundredths, a range of
  more than one day, and a name and categories without the space U+0085 at their ends, which only the API removes.\<close>

theorem budget_survives_edit:
  assumes "check_budget roll extra v = Inr r" "bf_period v \<in> set budget_periods" "br_amountMinor r \<le> 2 ^ 50"
    and "list_all (\<lambda>t. go_trim t = t) (br_name r # br_categories r)"
    and "reads_utc parse (js_trim (bf_startAt v))" "reads_utc parse (js_trim (bf_endAt v))"
    and "js_trim (bf_startAt v) \<noteq> js_trim (bf_endAt v)"
  shows "\<exists>b. CreateBudget i stamp r = Inr b \<and>
    check_budget_edit roll (budget_form_of parse now (normalize_budget (budget_response b))) = Inr r"
proof -
  note f = checked_budget_fields [OF assms(1)]
  have sound: "budget_request_sound r" by (rule checked_budget_sound [OF assms(1)])
  note p = period_reopened [OF assms(2)]
  note stored = budget_stored [OF assms(1-4), of i stamp]
  define b where "b = \<lparr>sb_id = i, sb_name = br_name r, sb_amountMinor = br_amountMinor r, sb_currency = br_currency r,
    sb_period = br_period r, sb_categories = br_categories r, sb_rollover = br_rollover r,
    sb_startAt = ms_per_day * civil_day (js_trim (bf_startAt v)), sb_endAt = ms_per_day * civil_day (js_trim (bf_endAt v)) + 86399999,
    sb_createdAt = stamp\<rparr>"
  let ?b = "budget_form_of parse now (normalize_budget (budget_response b))"
  have per: "br_period r = bf_period v" using p f(6) by simp
  have t: "go_time_text (sb_startAt b) = api_time (js_trim (bf_startAt v)) False" "go_time_text (sb_endAt b) = api_time (js_trim (bf_endAt v)) True"
    using go_time_printed [of "js_trim (bf_startAt v)" False] go_time_printed [of "js_trim (bf_endAt v)" True] f(1,2)
    by (simp_all add: b_def valid_day_cases)
  have d: "dateForInput parse (or_undefined_text (api_time (js_trim (bf_startAt v)) False)) x = js_trim (bf_startAt v)"
    "dateForInput parse (or_undefined_text (api_time (js_trim (bf_endAt v)) True)) y = js_trim (bf_endAt v)" for x y
    using day_reopened [of "js_trim (bf_startAt v)" parse False x] day_reopened [of "js_trim (bf_endAt v)" parse True y]
      f(1,2) assms(5,6) by (simp_all add: valid_day_cases or_undefined_text_def api_time_def)
  have e: "?b = \<lparr>bf_name = br_name r, bf_amount = majorFromMinor (Fin (of_int (br_amountMinor r))), bf_currency = br_currency r,
      bf_period = br_period r, bf_categories = js_join '', '' (br_categories r), bf_rollover = br_rollover r,
      bf_startAt = js_trim (bf_startAt v), bf_endAt = js_trim (bf_endAt v)\<rparr>"
    using p by (simp add: budget_form_of_def normalized_budget t d per) (simp add: b_def per)
  have "1 \<le> br_amountMinor r" using sound by (simp add: budget_request_sound_def)
  then obtain x where x: "moneyInputSchema False False (majorFromMinor (Fin (of_int (br_amountMinor r)))) = Inr (Fin x)"
    "toMinor x = br_amountMinor r"
    using reopened_amount [of "br_amountMinor r" False False] assms(3) by auto
  have less: "str_less (js_trim (bf_startAt v)) (js_trim (bf_endAt v))" using f(7) assms(7) by (simp add: str_less_def)
  have cs: "take 20 (each_once (filter (\<lambda>c. c \<noteq> []) (category_parts (js_join '', '' (br_categories r))))) = br_categories r"
    using sound joined_parts [of "br_categories r"]
    by (auto simp: budget_request_sound_def list_all_iff each_once_distinct)
  have n: "js_trim (br_name r) = br_name r" "br_name r \<noteq> []" "js_trim (br_period r) = br_period r" "br_period r \<noteq> []" "js_lower (br_period r) = br_period r"
    using sound p by (auto simp: f(5) per budget_request_sound_def)
  have "budget_edit_issues roll ?b = []"
    using f(1,2) [THEN trim_day] less n x by (simp add: e budget_edit_issues_def no_issues(3) first_issue_def)
  then have "check_budget_edit roll ?b = Inr r" using x cs n by (simp add: check_budget_edit_def e amount_of_def f(3,4) [symmetric])
  then show ?thesis using stored unfolding b_def by blast
qed

text \<open>A budget of one day can be created and can never be saved from its edit dialog.\<close>

lemma one_day_budget_stuck:
  assumes "valid_day roll (bf_startAt v)" "bf_endAt v = bf_startAt v"
  shows "(Some ''endAt'', ''End date must be after the start date.'') \<in> set (budget_edit_issues roll v)"
  using assms by (simp add: budget_edit_issues_def under_def str_less_def)


text \<open>What the API answers with for an account (model.Account): the balance is a number of its own.\<close>

definition account_response :: "account_request \<Rightarrow> string \<Rightarrow> int \<Rightarrow> json" where
  "account_response r i balanceMinor = JObj [(''id'', JStr i), (''name'', JStr (ar_name r)), (''bankName'', JStr (ar_bankName r)),
     (''type'', JStr (ar_type r)), (''maskedIdentifier'', JStr (ar_maskedIdentifier r)), (''currency'', JStr (ar_currency r)),
     (''openingMinor'', JNum (Fin (of_int (ar_openingMinor r)))), (''balanceMinor'', JNum (Fin (of_int balanceMinor))),
     (''color'', JStr (ar_color r)), (''icon'', JStr (ar_icon r)), (''notes'', JStr (ar_notes r)),
     (''status'', JStr (if ar_status r = Active then ''active'' else ''inactive'')), (''excludeFromTotal'', JBool (ar_excludeFromTotal r)),
     (''privacy'', JStr (case ar_privacy r of Account_private \<Rightarrow> ''private'' | Account_workspace \<Rightarrow> ''workspace'')),
     (''archived'', JBool False)]"

text \<open>The dialog for a new goal cannot be rendered in a live workspace that has an account: it lists the accounts from the
  answer of the API as it is, without the normalization that every other reader of the accounts applies, and reading
  the currency of the missing balance throws.\<close>

theorem goal_dialog_throws:
  "goal_account_options (account_response r i b # accounts) = Inl TypeError \<and>
   currency (acc_balance (normalize_account (account_response r i b))) = ar_currency r"
  by (simp add: goal_account_options_def goal_account_option_def account_response_def is_nullish_def bind_result_def
      normalize_account_def str_or_def money_of_def)

text \<open>Whatever is typed, clicked and answered while goals are created and edited, every request that the dialogs send has
  a name, a target of at least one hundredth and a saved amount between nothing and the target, after all roundings.\<close>

theorem goal_requests_sound:
  "list_all goal_request_sound (sent_bodies (foldl (goal_create_step roll extra w demo) new_form es))
   \<and> list_all goal_request_sound (sent_bodies (foldl (goal_edit_step roll w demo) new_form fs))"
  unfolding goal_create_step_def goal_edit_step_def list_all_iff
  by (intro conjI ballI goal_contract.all_sent_sound goal_edit_contract.all_sent_sound)

lemma budget_requests_sound:
  "b \<in> set (sent_bodies (foldl (budget_create_step roll extra w demo) new_form es)) \<Longrightarrow> budget_request_sound b"
  unfolding budget_create_step_def by (rule budget_contract.all_sent_sound)

definition month_form :: budget_form where
  "month_form = \<lparr>bf_name = ''Food '', bf_amount = ''10.50'', bf_currency = ''eur'', bf_period = ''monthly'', bf_categories = ''Tea, Rice,Tea'',
     bf_rollover = True, bf_startAt = ''2026-08-01'', bf_endAt = ''2026-08-31''\<rparr>"

definition iso_times :: "string \<Rightarrow> date" where
  "iso_times s = Some (ms_per_day * civil_day (take 10 s) + (if drop 10 s = ''T23:59:59.999Z'' then 86399999 else 0))"

theorem budget_survives_edit_witness:
  "\<exists>r b. check_budget True [] month_form = Inr r \<and> br_categories r = [''Tea'', ''Rice''] \<and> CreateBudget ''b'' 0 r = Inr b \<and>
     check_budget_edit True (budget_form_of iso_times 0 (normalize_budget (budget_response b))) = Inr r"
proof -
  have e: "js_trim ''10.50'' = ''10.50''" "entered_minor ''10.50'' = 1050" "MONEY_PATTERN ''10.50''"
    by (simp_all add: js_trim_def trim_start_def trim_end_def is_space_def entered_minor_def strip_sign_def
        MONEY_PATTERN_def unsigned_money_def pad_end_def string_eval numeral_2_eq_2)
  have f: "fl64 (of_int 1050 / 100) = 21 / 2" using fl_pos_eval [of 3 "21 / 2" "5910974510923776"] by (simp add: fl64_def)
  have m: "moneyInputSchema False False ''10.50'' = Inr (Fin (21 / 2))"
    using parse_number_money [of "''10.50''"] e f
    by (simp add: moneyInputSchema_def Let_def amount_in_range_def MAX_MAJOR_AMOUNT_def number_value_def)
  have "toMinor (fl64 (of_int 1050 / 100)) = 1050" by (rule toMinor_rounds_back) simp
  then have i: "toMinor (21 / 2) = 1050" unfolding f .
  have t: "js_trim ''2026-08-01'' = ''2026-08-01''" "js_trim ''2026-08-31'' = ''2026-08-31''" "js_trim ''Food '' = ''Food''"
    "js_trim ''eur'' = ''eur''" "js_trim ''monthly'' = ''monthly''" "js_trim ''Tea, Rice,Tea'' = ''Tea, Rice,Tea''"
    "category_parts ''Tea, Rice,Tea'' = [''Tea'', ''Rice'', ''Tea'']"
    by code_simp+
  have c: "currencySchema ''eur'' = Inr ''EUR''" by code_simp
  have d: "valid_day True ''2026-08-01''" "valid_day True ''2026-08-31''" by (simp_all add: valid_day_cases t match_eval civil_eval)
  have d': "issues_of (dateInputSchema True ''2026-08-01'') = []" "issues_of (dateInputSchema True ''2026-08-31'') = []"
    using d by (simp_all only: valid_day_def)
  have le: "\<not> str_less ''2026-08-31'' ''2026-08-01''" by code_simp
  have s: "budget_issues True [] month_form = []"
    using m c d' le
    by (simp add: budget_issues_def object_issues_def month_form_def no_issues(3) required_def at_most_chars_def t issues_of_def
        categoryListSchema_def Let_def split: sum.splits)
  obtain r where r: "check_budget True [] month_form = Inr r" "br_amountMinor r = 1050" "br_categories r = [''Tea'', ''Rice'']" "br_name r = ''Food''"
    using s m i by (auto simp: check_budget_def month_form_def amount_of_def t)
  have n: "reads_utc iso_times d" if "length d = 10" for d
    using that by (simp add: reads_utc_def iso_times_def api_time_def)
  have g: "go_trim ''Food'' = ''Food''" "go_trim ''Tea'' = ''Tea''" "go_trim ''Rice'' = ''Rice''" by code_simp+
  have "bf_period month_form \<in> set budget_periods" by (simp add: month_form_def budget_periods_def)
  from budget_survives_edit [OF r(1) this, of iso_times "''b''" 0 0] r n g show ?thesis
    by (auto simp: month_form_def t)
qed

end
