(* ===== verification/WorkspaceSearch.thy ===== *)
theory WorkspaceSearch
  imports TransactionFilters
begin

text \<open>
  The search of the workspace (web/src/components/workspace-search.tsx) and the picker of contacts and saved names
  (components/contact-name-picker.tsx with its layout): the matching of pages and actions, the reading of the answer of the
  search, the options that are shown, and the option that the keys move to. \<open>lower\<close> is \<open>toLocaleLowerCase\<close>, \<open>print_day\<close>
  the printing of a day; the printed text of an amount is left as the amount, or as the fact that it is concealed. The
  focus trap, the back layer and the markup are left out.
\<close>

section \<open>Definitions\<close>

subsection \<open>Matching\<close>

text \<open>The loop of \<open>fuzzyMatch\<close> over the code points of the text, with the code units still to be found.\<close>

fun fuzzy_loop :: "utf16 \<Rightarrow> utf16 list \<Rightarrow> bool" where
  "fuzzy_loop rest [] = False"
| "fuzzy_loop rest (c # cs) =
     (let left = (case rest of u # us \<Rightarrow> if c = [u] then us else rest | [] \<Rightarrow> [])
      in if left = [] then True else fuzzy_loop left cs)"

definition fuzzyMatch :: "(utf16 \<Rightarrow> utf16) \<Rightarrow> utf16 \<Rightarrow> utf16 \<Rightarrow> bool" where
  "fuzzyMatch lower needle haystack = (needle = [] \<or> fuzzy_loop (lower needle) (array_from (lower haystack)))"

record search_page =
  pg_id :: string
  pg_label :: string
  pg_group :: string
  pg_keywords :: "string list"

record search_option =
  op_id :: string
  op_label :: string
  op_description :: string
  op_trailing :: "(bool \<times> jsnum \<times> string) option"
  op_target :: string

type_synonym search_group = "string \<times> search_option list"

definition page_matches :: "(utf16 \<Rightarrow> utf16) \<Rightarrow> string \<Rightarrow> search_page \<Rightarrow> bool" where
  "page_matches lower query p = list_ex (\<lambda>field. fuzzyMatch lower (u16 query) (u16 field)) ([pg_label p, pg_group p] @ pg_keywords p)"

definition page_option :: "search_page \<Rightarrow> search_option" where
  "page_option p = \<lparr>op_id = ''page-'' @ pg_id p, op_label = pg_label p, op_description = [], op_trailing = None, op_target = pg_id p\<rparr>"

definition pageGroups :: "(utf16 \<Rightarrow> utf16) \<Rightarrow> string \<Rightarrow> search_page list \<Rightarrow> search_group list" where
  "pageGroups lower query pages = foldl (\<lambda>groups p. om_set groups (pg_group p)
     ((case om_get groups (pg_group p) of Some options \<Rightarrow> options | None \<Rightarrow> []) @ [page_option p])) [] (filter (page_matches lower query) pages)"

record quick_action =
  qa_id :: string
  qa_label :: string
  qa_keywords :: "string list"
  qa_to :: string

definition quick_actions :: "quick_action list" where
  "quick_actions =
     [\<lparr>qa_id = ''add-expense'', qa_label = ''Add an expense'', qa_keywords = [''expense'', ''spend'', ''record'', ''new entry''],
        qa_to = ''/app/transactions?add=expense''\<rparr>,
      \<lparr>qa_id = ''add-income'', qa_label = ''Add income'', qa_keywords = [''income'', ''salary'', ''received'', ''credit''],
        qa_to = ''/app/transactions?add=income''\<rparr>,
      \<lparr>qa_id = ''transfer'', qa_label = ''Transfer between accounts'', qa_keywords = [''transfer'', ''move money''],
        qa_to = ''/app/transactions?add=transfer''\<rparr>,
      \<lparr>qa_id = ''import-statement'', qa_label = ''Import a statement'', qa_keywords = [''import'', ''csv'', ''bank file''], qa_to = ''/app/import''\<rparr>,
      \<lparr>qa_id = ''open-forecast'', qa_label = ''Open forecast'', qa_keywords = [''forecast'', ''projection'', ''upcoming''], qa_to = ''/app/forecast''\<rparr>,
      \<lparr>qa_id = ''this-month-report'', qa_label = ''Open this month'' @ [CHR 0x27] @ ''s report'', qa_keywords = [''report'', ''summary'', ''month''],
        qa_to = ''/app/insights''\<rparr>]"

definition quickActionGroups :: "(utf16 \<Rightarrow> utf16) \<Rightarrow> string \<Rightarrow> search_group list" where
  "quickActionGroups lower query =
     (let matching = filter (\<lambda>a. fuzzyMatch lower (u16 query) (u16 (qa_label a))
            \<or> list_ex (\<lambda>k. fuzzyMatch lower (u16 query) (u16 k)) (qa_keywords a)) quick_actions
      in if matching = [] then []
         else [(''Quick actions'', map (\<lambda>a. \<lparr>op_id = ''action-'' @ qa_id a, op_label = qa_label a, op_description = [],
           op_trailing = None, op_target = qa_to a\<rparr>) matching)])"

subsection \<open>The answer of the search\<close>

record search_response =
  sr_transactions :: "json list"
  sr_accounts :: "json list"
  sr_vaults :: "json list"

definition is_object :: "json \<Rightarrow> bool" where
  "is_object v = (case v of JObj _ \<Rightarrow> True | _ \<Rightarrow> False)"

definition recordArray :: "json \<Rightarrow> json list" where
  "recordArray v = filter is_object (array_items v)"

definition normalizeSearchResponse :: "json \<Rightarrow> search_response" where
  "normalizeSearchResponse v = (if \<not> is_object v then \<lparr>sr_transactions = [], sr_accounts = [], sr_vaults = []\<rparr>
     else \<lparr>sr_transactions = recordArray (jprop v ''transactions''), sr_accounts = recordArray (jprop v ''accounts''),
       sr_vaults = recordArray (jprop v ''vaults'')\<rparr>)"

fun stringValue :: "json list \<Rightarrow> string" where
  "stringValue [] = []"
| "stringValue (v # vs) = (case v of JStr s \<Rightarrow> if js_trim s \<noteq> [] then js_trim s else stringValue vs | _ \<Rightarrow> stringValue vs)"

text \<open>\<open>replace(/\s+/g, ' ')\<close>.\<close>

fun single_spaces :: "bool \<Rightarrow> string \<Rightarrow> string" where
  "single_spaces after [] = []"
| "single_spaces after (c # s) = (if is_space c then (if after then single_spaces True s else '' '' @ single_spaces True s)
     else c # single_spaces False s)"

definition capitalized :: "string \<Rightarrow> string" where
  "capitalized part = (case part of [] \<Rightarrow> [] | c # rest \<Rightarrow> js_upper [c] @ rest)"

definition friendlyLabel :: "json \<Rightarrow> string \<Rightarrow> string" where
  "friendlyLabel v fallback =
     (let label = single_spaces False (replace_char (CHR ''-'') '' '' (replace_char (CHR ''_'') '' '' (stringValue [v])))
      in if label = [] then fallback else js_join '' '' (map capitalized (split_on (CHR '' '') label)))"

definition safeDateLabel :: "(string \<Rightarrow> string option) \<Rightarrow> json \<Rightarrow> string" where
  "safeDateLabel print_day v = (case v of JStr s \<Rightarrow> if s = [] then [] else (case print_day s of Some t \<Rightarrow> t | None \<Rightarrow> []) | _ \<Rightarrow> [])"

text \<open>The amount to print, and the word \<open>True\<close> instead where it is concealed.\<close>

definition moneyLabel :: "json \<Rightarrow> bool \<Rightarrow> (bool \<times> jsnum \<times> string) option" where
  "moneyLabel item concealed =
     (case nullish (jprop item ''amountMinor'') (jprop item ''balanceMinor'') of
        JNum x \<Rightarrow> if is_finite x \<and> stringValue [jprop item ''currency''] \<noteq> []
          then Some (if concealed then (True, Fin 0, []) else (False, x, stringValue [jprop item ''currency''])) else None
      | _ \<Rightarrow> None)"

definition or_index :: "string \<Rightarrow> nat \<Rightarrow> string" where
  "or_index s index = (if s = [] then nat_digits index else s)"

definition or_text :: "string \<Rightarrow> string \<Rightarrow> string" where
  "or_text s fallback = (if s = [] then fallback else s)"

definition MIDDLE_DOT :: string where
  "MIDDLE_DOT = [CHR '' '', CHR 0xB7, CHR '' '']"

definition transactionOption :: "(string \<Rightarrow> string option) \<Rightarrow> bool \<Rightarrow> nat \<Rightarrow> json \<Rightarrow> search_option" where
  "transactionOption print_day concealed index item =
     (let type = friendlyLabel (jprop item ''type'') ''Transaction''; category = friendlyLabel (jprop item ''category'') []
      in \<lparr>op_id = ''transaction-'' @ or_index (stringValue [jprop item ''id'']) index,
          op_label = or_text (stringValue [jprop item ''merchant'', jprop item ''notes'', jprop item ''category'', JStr type]) ''Transaction'',
          op_description = js_join MIDDLE_DOT (filter (\<lambda>t. t \<noteq> []) [or_text category type, safeDateLabel print_day (jprop item ''occurredAt'')]),
          op_trailing = moneyLabel item concealed, op_target = ''/app/transactions''\<rparr>)"

definition accountOption :: "bool \<Rightarrow> bool \<Rightarrow> nat \<Rightarrow> json \<Rightarrow> search_option" where
  "accountOption concealed showBalance index item =
     \<lparr>op_id = ''account-'' @ or_index (stringValue [jprop item ''id'']) index,
      op_label = or_text (stringValue [jprop item ''name'']) ''Account'',
      op_description = friendlyLabel (jprop item ''type'') ''Account'' @ MIDDLE_DOT @ (if jprop item ''archived'' = JBool True then ''Archived'' else ''Active''),
      op_trailing = (if showBalance then moneyLabel item concealed else None), op_target = ''/app/accounts''\<rparr>"

definition vaultOption :: "bool \<Rightarrow> nat \<Rightarrow> json \<Rightarrow> search_option" where
  "vaultOption concealed index item =
     \<lparr>op_id = ''vault-'' @ or_index (stringValue [jprop item ''id'']) index,
      op_label = or_text (stringValue [jprop item ''name'']) ''Vault'',
      op_description = friendlyLabel (jprop item ''type'') ''Vault'' @ MIDDLE_DOT @ or_text (stringValue [jprop item ''currency'']) ''Currency unavailable'',
      op_trailing = moneyLabel item concealed, op_target = ''/app/accounts''\<rparr>"

definition map_index :: "(nat \<Rightarrow> 'a \<Rightarrow> 'b) \<Rightarrow> 'a list \<Rightarrow> 'b list" where
  "map_index f xs = map (\<lambda>(i, x). f i x) (zip [0..<length xs] xs)"

definition workspaceGroups :: "(string \<Rightarrow> string option) \<Rightarrow> bool \<Rightarrow> bool \<Rightarrow> search_response option \<Rightarrow> search_group list" where
  "workspaceGroups print_day concealed canViewBalances answer = (case answer of
       None \<Rightarrow> []
     | Some r \<Rightarrow> filter (\<lambda>g. snd g \<noteq> [])
         ([(''Transactions'', map_index (transactionOption print_day concealed) (sr_transactions r))]
          @ (if canViewBalances then [(''Vaults'', map_index (vaultOption concealed) (sr_vaults r)),
               (''Accounts'', map_index (accountOption concealed canViewBalances) (sr_accounts r))] else [])))"

subsection \<open>The palette\<close>

record search_props =
  sp_open :: bool
  sp_available :: bool
  sp_concealed :: bool
  sp_balances :: bool
  sp_demoMode :: bool
  sp_pages :: "search_page list"

definition runeLength :: "string \<Rightarrow> nat" where
  "runeLength s = length (array_from (u16 s))"

definition searchEnabled :: "search_props \<Rightarrow> string \<Rightarrow> string \<Rightarrow> bool" where
  "searchEnabled p query debounced = (sp_open p \<and> sp_available p \<and> 2 \<le> runeLength debounced \<and> runeLength debounced \<le> 100
     \<and> debounced = js_trim query)"

text \<open>\<open>answer\<close> is the data of the query for the debounced text.\<close>

definition search_groups :: "(utf16 \<Rightarrow> utf16) \<Rightarrow> (string \<Rightarrow> string option) \<Rightarrow> search_props \<Rightarrow> string \<Rightarrow> string \<Rightarrow> search_response option \<Rightarrow> search_group list" where
  "search_groups lower print_day p query debounced answer =
     quickActionGroups lower (js_trim query)
     @ workspaceGroups print_day (sp_concealed p) (sp_balances p) (if debounced = js_trim query then answer else None)
     @ pageGroups lower (js_trim query) (sp_pages p)"

definition renderedOptions :: "search_group list \<Rightarrow> search_option list" where
  "renderedOptions groups = concat (map snd groups)"

text \<open>What the query for the debounced text is in: its data and the flags of react-query.\<close>

record search_query =
  sq_data :: "search_response option"
  sq_isFetching :: bool
  sq_isError :: bool
  sq_isSuccess :: bool

definition emptySearchResponse :: search_response where
  "emptySearchResponse = \<lparr>sr_transactions = [], sr_accounts = [], sr_vaults = []\<rparr>"

definition shown_response :: "string \<Rightarrow> string \<Rightarrow> search_query \<Rightarrow> search_response" where
  "shown_response query debounced q =
     (case sq_data q of Some r \<Rightarrow> if debounced = js_trim query then r else emptySearchResponse | None \<Rightarrow> emptySearchResponse)"

definition resultCount :: "search_props \<Rightarrow> search_response \<Rightarrow> nat" where
  "resultCount p r = length (sr_transactions r) + (if sp_balances p then length (sr_accounts r) + length (sr_vaults r) else 0)"

definition loadingWorkspaceResults :: "search_props \<Rightarrow> string \<Rightarrow> string \<Rightarrow> search_query \<Rightarrow> bool" where
  "loadingWorkspaceResults p query debounced q =
     (sp_available p \<and> 2 \<le> runeLength (js_trim query) \<and> runeLength (js_trim query) \<le> 100 \<and> debounced \<noteq> js_trim query \<or>
      searchEnabled p query debounced \<and> sq_isFetching q \<and> sq_data q = None)"

definition workspaceSearchFailed :: "search_props \<Rightarrow> string \<Rightarrow> string \<Rightarrow> search_query \<Rightarrow> bool" where
  "workspaceSearchFailed p query debounced q = (searchEnabled p query debounced \<and> sq_isError q \<and> sq_data q = None)"

definition workspaceSearchComplete :: "search_props \<Rightarrow> string \<Rightarrow> string \<Rightarrow> search_query \<Rightarrow> bool" where
  "workspaceSearchComplete p query debounced q = (searchEnabled p query debounced \<and> sq_isSuccess q \<and> debounced = js_trim query)"

text \<open>The line above the options, what is read out, and the note at the end.\<close>

datatype search_status = Too_long | Demo_notice | Unavailable_notice | One_more | Searching_notice | Failed_notice | No_records
  | Summary nat | No_status

datatype live_message = Live_searching | Live_failed | Live_found nat | Live_silent

definition search_status_of :: "search_props \<Rightarrow> string \<Rightarrow> string \<Rightarrow> search_query \<Rightarrow> search_status" where
  "search_status_of p query debounced q =
     (let queryLength = runeLength (js_trim query); found = resultCount p (shown_response query debounced q) in
      if 100 < queryLength then Too_long
      else if sp_demoMode p \<and> js_trim query \<noteq> [] then Demo_notice
      else if \<not> sp_available p \<and> js_trim query \<noteq> [] then Unavailable_notice
      else if queryLength = 1 then One_more
      else if loadingWorkspaceResults p query debounced q then Searching_notice
      else if workspaceSearchFailed p query debounced q then Failed_notice
      else if workspaceSearchComplete p query debounced q then (if found = 0 then No_records else Summary found)
      else No_status)"

definition liveMessage :: "search_props \<Rightarrow> string \<Rightarrow> string \<Rightarrow> search_query \<Rightarrow> live_message" where
  "liveMessage p query debounced q =
     (if loadingWorkspaceResults p query debounced q then Live_searching
      else if workspaceSearchFailed p query debounced q then Live_failed
      else if workspaceSearchComplete p query debounced q then Live_found (resultCount p (shown_response query debounced q))
      else Live_silent)"

definition showNoMatches :: "(utf16 \<Rightarrow> utf16) \<Rightarrow> search_props \<Rightarrow> string \<Rightarrow> string \<Rightarrow> search_query \<Rightarrow> bool" where
  "showNoMatches lower p query debounced q =
     (js_trim query \<noteq> [] \<and> 2 \<le> runeLength (js_trim query) \<and> pageGroups lower (js_trim query) (sp_pages p) = [] \<and>
      \<not> workspaceSearchFailed p query debounced q \<and>
      (sp_available p \<longrightarrow> workspaceSearchComplete p query debounced q \<and> resultCount p (shown_response query debounced q) = 0))"

record search_shown =
  ss_groups :: "search_group list"
  ss_status :: search_status
  ss_live :: live_message
  ss_noMatches :: bool

definition search_shows :: "(utf16 \<Rightarrow> utf16) \<Rightarrow> (string \<Rightarrow> string option) \<Rightarrow> search_props \<Rightarrow> string \<Rightarrow> string \<Rightarrow> search_query \<Rightarrow> search_shown" where
  "search_shows lower print_day p query debounced q =
     \<lparr>ss_groups = search_groups lower print_day p query debounced (sq_data q), ss_status = search_status_of p query debounced q,
      ss_live = liveMessage p query debounced q, ss_noMatches = showNoMatches lower p query debounced q\<rparr>"

record palette =
  pl_query :: string
  pl_activeIndex :: nat
  pl_options :: "search_option list"
  pl_selected :: "search_option list"

datatype palette_event = Show_options "search_option list" | Type_query string | Arrow_down | Arrow_up | Enter_key
  | Pointer_enters nat | Click_option nat | Reset_query

text \<open>\<open>Show_options\<close> is a render followed by the effect that keeps the index in range.\<close>

definition palette_step :: "palette \<Rightarrow> palette_event \<Rightarrow> palette" where
  "palette_step s e = (case e of
       Show_options options \<Rightarrow> s\<lparr>pl_options := options,
           pl_activeIndex := (if length options = length (pl_options s) then pl_activeIndex s
             else min (pl_activeIndex s) (max 0 (length options - 1)))\<rparr>
     | Type_query value \<Rightarrow> s\<lparr>pl_query := value, pl_activeIndex := 0\<rparr>
     | Reset_query \<Rightarrow> s\<lparr>pl_query := [], pl_activeIndex := 0\<rparr>
     | Arrow_down \<Rightarrow> s\<lparr>pl_activeIndex := min (max 0 (length (pl_options s) - 1)) (pl_activeIndex s + 1)\<rparr>
     | Arrow_up \<Rightarrow> s\<lparr>pl_activeIndex := max 0 (pl_activeIndex s - 1)\<rparr>
     | Pointer_enters i \<Rightarrow> if i < length (pl_options s) then s\<lparr>pl_activeIndex := i\<rparr> else s
     | Enter_key \<Rightarrow> if pl_activeIndex s < length (pl_options s)
         then s\<lparr>pl_selected := pl_selected s @ [pl_options s ! pl_activeIndex s]\<rparr> else s
     | Click_option i \<Rightarrow> if i < length (pl_options s) then s\<lparr>pl_selected := pl_selected s @ [pl_options s ! i]\<rparr> else s)"

definition new_palette :: palette where
  "new_palette = \<lparr>pl_query = [], pl_activeIndex = 0, pl_options = [], pl_selected = []\<rparr>"


subsection \<open>The picker of contacts and saved names\<close>

datatype suggestion = Contact_suggestion contact_summary | Saved_name string string

definition suggestions_for :: "search_locale \<Rightarrow> contact_summary list \<Rightarrow> (string \<times> string) list \<Rightarrow> string \<Rightarrow> suggestion list" where
  "suggestions_for l contacts savedNames inputValue =
     map Contact_suggestion (filter (\<lambda>c. matchesSearchText l [Some (u16 (ct_name c))] (u16 inputValue)) contacts)
     @ map (\<lambda>(i, n). Saved_name i n) (filter (\<lambda>(i, n). matchesSearchText l [Some (u16 n)] (u16 inputValue)) savedNames)"

definition contactDetails :: "contact_summary \<Rightarrow> string" where
  "contactDetails c = or_text (js_join MIDDLE_DOT (filter (\<lambda>t. t \<noteq> []) [case ct_phone c of Some t \<Rightarrow> t | None \<Rightarrow> [],
     case ct_email c of Some t \<Rightarrow> t | None \<Rightarrow> []])) ''No contact details''"

record name_picker =
  np_open :: bool
  np_disabled :: bool
  np_query :: utf16
  np_suggestions :: "suggestion list"
  np_isLoading :: bool
  np_isError :: bool
  np_activeIndex :: int
  np_chosen :: "suggestion list"

definition np_menuOpen :: "name_picker \<Rightarrow> bool" where
  "np_menuOpen k = (np_open k \<and> \<not> np_disabled k)"

text \<open>The suggestions that are on the screen: the menu shows its list only when nothing is loading and nothing failed.\<close>

definition np_shown :: "name_picker \<Rightarrow> suggestion list" where
  "np_shown k = (if np_menuOpen k \<and> \<not> np_isLoading k \<and> \<not> np_isError k then np_suggestions k else [])"

definition close_menu :: "name_picker \<Rightarrow> name_picker" where
  "close_menu k = k\<lparr>np_open := False, np_activeIndex := - 1\<rparr>"

definition selectSuggestion :: "suggestion \<Rightarrow> name_picker \<Rightarrow> name_picker" where
  "selectSuggestion x k = close_menu (k\<lparr>np_chosen := np_chosen k @ [x]\<rparr>)"

text \<open>A render with its effect: \<open>was_open\<close>, the query and the number of suggestions are those of the render before.\<close>

definition active_effect :: "bool \<Rightarrow> utf16 \<Rightarrow> nat \<Rightarrow> name_picker \<Rightarrow> name_picker" where
  "active_effect was_open query shown k =
     (if np_menuOpen k = was_open \<and> np_query k = query \<and> length (np_suggestions k) = shown then k
      else k\<lparr>np_activeIndex := (if np_menuOpen k \<and> np_suggestions k \<noteq> [] then 0 else - 1)\<rparr>)"

definition rendered_change :: "(name_picker \<Rightarrow> name_picker) \<Rightarrow> name_picker \<Rightarrow> name_picker" where
  "rendered_change f k = active_effect (np_menuOpen k) (np_query k) (length (np_suggestions k)) (f k)"

datatype name_event = Given_suggestions utf16 "suggestion list" bool bool bool | Focus_input bool | Change_input | Toggle_menu | Blur | Press string | Click_suggestion nat

definition handleKeyDown :: "string \<Rightarrow> name_picker \<Rightarrow> name_picker" where
  "handleKeyDown key k =
     (if key = ''Escape'' then close_menu k
      else if key = ''ArrowDown'' then
        (if \<not> np_menuOpen k then k\<lparr>np_open := True\<rparr>
         else if np_suggestions k = [] then k
         else k\<lparr>np_activeIndex := min (np_activeIndex k + 1) (int (length (np_suggestions k)) - 1)\<rparr>)
      else if key = ''ArrowUp'' \<and> np_menuOpen k then
        (if np_suggestions k = [] then k else k\<lparr>np_activeIndex := max (np_activeIndex k - 1) 0\<rparr>)
      else if key = ''Enter'' \<and> np_menuOpen k \<and> 0 \<le> np_activeIndex k then
        (if nat (np_activeIndex k) < length (np_suggestions k) then selectSuggestion (np_suggestions k ! nat (np_activeIndex k)) k else k)
      else k)"

definition name_step :: "name_picker \<Rightarrow> name_event \<Rightarrow> name_picker" where
  "name_step k e = (case e of
       Given_suggestions query items disabled loading failed \<Rightarrow> rendered_change (\<lambda>k. k\<lparr>np_query := query, np_suggestions := items,
           np_disabled := disabled, np_isLoading := loading, np_isError := failed\<rparr>) k
     | Focus_input openOnFocus \<Rightarrow> if openOnFocus \<or> np_query k \<noteq> [] then rendered_change (\<lambda>k. k\<lparr>np_open := True\<rparr>) k else k
     | Change_input \<Rightarrow> rendered_change (\<lambda>k. k\<lparr>np_open := True\<rparr>) k
     | Toggle_menu \<Rightarrow> if np_disabled k then k else rendered_change (\<lambda>k. k\<lparr>np_open := \<not> np_open k\<rparr>) k
     | Blur \<Rightarrow> rendered_change close_menu k
     | Press key \<Rightarrow> rendered_change (handleKeyDown key) k
     | Click_suggestion i \<Rightarrow> if i < length (np_shown k) then rendered_change (selectSuggestion (np_shown k ! i)) k else k)"

definition new_name_picker :: name_picker where
  "new_name_picker = \<lparr>np_open = False, np_disabled = False, np_query = [], np_suggestions = [], np_isLoading = False, np_isError = False,
     np_activeIndex = - 1, np_chosen = []\<rparr>"

subsection \<open>Where the menu of the picker goes\<close>

record trigger_rect =
  tr_top :: rat
  tr_bottom :: rat
  tr_width :: rat
  tr_height :: rat

datatype menu_placement = Place_top | Place_bottom

definition getContactPickerMenuLayout :: "trigger_rect \<Rightarrow> rat \<Rightarrow> rat \<Rightarrow> menu_placement \<times> rat" where
  "getContactPickerMenuLayout t visTop visBottom =
     (if tr_width t \<le> 0 \<or> tr_height t \<le> 0 then (Place_bottom, 288)
      else (let above = max 0 (fl64 (fl64 (tr_top t - visTop) - 8)); below = max 0 (fl64 (fl64 (visBottom - tr_bottom t) - 8));
                placement = (if 288 \<le> below \<or> above \<le> below then Place_bottom else Place_top);
                available = (if placement = Place_bottom then below else above)
            in (placement, max 0 (min 288 available))))"

section \<open>Matching is the subsequence relation\<close>

lemma fuzzy_loop_subseq: "rest \<noteq> [] \<Longrightarrow> fuzzy_loop rest cs \<longleftrightarrow> subseq (map (\<lambda>u. [u]) rest) cs"
proof (induction cs arbitrary: rest)
  case Nil
  then show ?case by (cases rest) simp_all
next
  case (Cons c cs)
  from Cons.prems obtain u us where r: "rest = u # us" by (cases rest) auto
  show ?case
  proof (cases "c = [u]")
    case True
    then show ?thesis using Cons.IH [of us] by (cases us) (simp_all add: r)
  next
    case False
    then show ?thesis using Cons.IH [of rest] by (simp add: r subseq_Cons2_neq)
  qed
qed

text \<open>The reading of a well-formed text has no lone surrogate.\<close>

lemma no_lone_surrogate:
  assumes "well_formed s" "\<not> is_scalar u"
  shows "[u] \<notin> set (array_from s)"
  using assms by (auto simp: well_formed_def list_all_iff)

text \<open>C33. \<open>fuzzyMatch\<close> compares the code units of the query with the code points of the text, after both have been put in lower
  case: its greedy loop accepts exactly the texts in which the units of the query occur as code points in their order. For a
  query without surrogates these are the characters of the query, in their order; a query with a surrogate, as every character
  outside the basic plane has, is found in no well-formed text, not even in itself.\<close>

theorem fuzzyMatch_subsequence:
  assumes "lower needle = [] \<longleftrightarrow> needle = []"
  shows "(fuzzyMatch lower needle haystack \<longleftrightarrow> subseq (map (\<lambda>u. [u]) (lower needle)) (array_from (lower haystack))) \<and>
    (list_all is_scalar (lower needle) \<longrightarrow>
      (fuzzyMatch lower needle haystack \<longleftrightarrow> subseq (array_from (lower needle)) (array_from (lower haystack)))) \<and>
    (\<not> list_all is_scalar (lower needle) \<and> well_formed (lower haystack) \<longrightarrow> \<not> fuzzyMatch lower needle haystack)"
proof (intro conjI impI)
  show r: "fuzzyMatch lower needle haystack \<longleftrightarrow> subseq (map (\<lambda>u. [u]) (lower needle)) (array_from (lower haystack))"
    using assms fuzzy_loop_subseq [of "lower needle"] by (auto simp: fuzzyMatch_def)
  then show "fuzzyMatch lower needle haystack \<longleftrightarrow> subseq (array_from (lower needle)) (array_from (lower haystack))"
    if "list_all is_scalar (lower needle)"
    using list_all_scalar_points [OF that] by simp
  show "\<not> fuzzyMatch lower needle haystack"
    if s: "\<not> list_all is_scalar (lower needle) \<and> well_formed (lower haystack)"
  proof
    assume "fuzzyMatch lower needle haystack"
    with r have e: "subseq (map (\<lambda>u. [u]) (lower needle)) (array_from (lower haystack))" by blast
    have "[u] \<in> set (array_from (lower haystack))" if "u \<in> set (lower needle)" for u
      using list_emb_set [OF e, of "[u]"] that by auto
    moreover obtain u where "u \<in> set (lower needle)" "\<not> is_scalar u" using s by (auto simp: list_all_iff)
    ultimately show False using no_lone_surrogate s by blast
  qed
qed

theorem fuzzyMatch_subsequence_witness:
  "(fuzzyMatch (\<lambda>s. s) (u16 ''rpt'') (u16 ''report'') \<longleftrightarrow> subseq (array_from (u16 ''rpt'')) (array_from (u16 ''report''))) \<and>
   \<not> fuzzyMatch (\<lambda>s. s) [0xD83D, 0xDE00] [0xD83D, 0xDE00]"
proof -
  have a: "list_all is_scalar (u16 ''rpt'')" by code_simp
  have b: "\<not> list_all is_scalar [0xD83D, 0xDE00]" "well_formed [0xD83D, 0xDE00]" by code_simp+
  have "u16 ''rpt'' = [] \<longleftrightarrow> u16 ''rpt'' = []" by simp
  from fuzzyMatch_subsequence [of "\<lambda>s. s" "u16 ''rpt''" "u16 ''report''"] a
    fuzzyMatch_subsequence [of "\<lambda>s. s" "[0xD83D, 0xDE00]" "[0xD83D, 0xDE00]"] b
  show ?thesis by blast
qed

section \<open>What the options reveal\<close>

definition hide_amounts :: "json \<Rightarrow> json" where
  "hide_amounts v = (case v of
       JObj m \<Rightarrow> JObj (map (\<lambda>(k, x). (k, if k \<in> {''amountMinor'', ''balanceMinor''}
           then (case x of JNum n \<Rightarrow> if is_finite n then JNum (Fin 0) else x | _ \<Rightarrow> x) else x)) m)
     | _ \<Rightarrow> v)"

definition hidden_response :: "search_response \<Rightarrow> search_response" where
  "hidden_response r = \<lparr>sr_transactions = map hide_amounts (sr_transactions r), sr_accounts = map hide_amounts (sr_accounts r),
     sr_vaults = map hide_amounts (sr_vaults r)\<rparr>"

lemma om_get_map: "om_get (map (\<lambda>(k, x). (k, f k x)) m) k = map_option (f k) (om_get m k)"
  by (induction m k rule: om_get.induct) auto

lemma jprop_hidden:
  "jprop (hide_amounts v) k = (if k \<in> {''amountMinor'', ''balanceMinor''}
     then (case jprop v k of JNum n \<Rightarrow> if is_finite n then JNum (Fin 0) else jprop v k | _ \<Rightarrow> jprop v k) else jprop v k)"
  by (cases v) (auto simp: jprop_def hide_amounts_def om_get_map split: option.splits json.splits)

lemma moneyLabel_hidden: "moneyLabel (hide_amounts v) True = moneyLabel v True"
  by (auto simp: moneyLabel_def jprop_hidden nullish_def is_nullish_def is_finite_def split: json.splits jsnum.splits)

lemma options_hidden:
  "transactionOption pd True i (hide_amounts v) = transactionOption pd True i v"
  "accountOption True b i (hide_amounts v) = accountOption True b i v"
  "vaultOption True i (hide_amounts v) = vaultOption True i v"
  by (simp_all add: transactionOption_def accountOption_def vaultOption_def moneyLabel_hidden jprop_hidden)

lemma map_index_map: "(\<And>i x. f i (g x) = f i x) \<Longrightarrow> map_index f (map g xs) = map_index f xs"
  by (simp add: map_index_def zip_map2 case_prod_beta comp_def)

lemma groups_hidden: "workspaceGroups pd True b (map_option hidden_response a) = workspaceGroups pd True b a"
  by (cases a) (simp_all add: workspaceGroups_def hidden_response_def map_index_map options_hidden)

text \<open>What is shown besides the options depends on the answer only through whether it is there and the number of its results.\<close>

lemma shown_by_count:
  assumes "sq_data q' = None \<longleftrightarrow> sq_data q = None"
    and "resultCount p (shown_response query debounced q') = resultCount p (shown_response query debounced q)"
    and "sq_isFetching q' = sq_isFetching q" "sq_isError q' = sq_isError q" "sq_isSuccess q' = sq_isSuccess q"
  shows "search_status_of p query debounced q' = search_status_of p query debounced q"
    "liveMessage p query debounced q' = liveMessage p query debounced q"
    "showNoMatches lower p query debounced q' = showNoMatches lower p query debounced q"
  unfolding search_status_of_def liveMessage_def showNoMatches_def loadingWorkspaceResults_def workspaceSearchFailed_def
    workspaceSearchComplete_def Let_def assms by (rule refl)+

lemma count_hidden: "resultCount p (hidden_response r) = resultCount p r"
  by (simp add: resultCount_def hidden_response_def)

lemma count_unseen: "\<not> sp_balances p \<Longrightarrow> resultCount p (r\<lparr>sr_accounts := as, sr_vaults := vs\<rparr>) = resultCount p r"
  by (simp add: resultCount_def)

text \<open>C34. While amounts are concealed, nothing that the search shows depends on any amount of its answer; and without the
  permission to see balances nothing of it depends on the accounts and vaults of the answer at all: neither the options, nor the
  number of results that is shown and read out, nor the notices of nothing found.\<close>

theorem concealed_search_blind:
  "search_shows lower pd (p\<lparr>sp_concealed := True\<rparr>) query debounced (q\<lparr>sq_data := map_option hidden_response (sq_data q)\<rparr>)
     = search_shows lower pd (p\<lparr>sp_concealed := True\<rparr>) query debounced q \<and>
   search_shows lower pd (p\<lparr>sp_balances := False\<rparr>) query debounced
       (q\<lparr>sq_data := map_option (\<lambda>r. r\<lparr>sr_accounts := accounts, sr_vaults := vaults\<rparr>) (sq_data q)\<rparr>)
     = search_shows lower pd (p\<lparr>sp_balances := False\<rparr>) query debounced q"
proof -
  let ?c = "p\<lparr>sp_concealed := True\<rparr>" and ?b = "p\<lparr>sp_balances := False\<rparr>"
  let ?h = "q\<lparr>sq_data := map_option hidden_response (sq_data q)\<rparr>"
  let ?o = "q\<lparr>sq_data := map_option (\<lambda>r. r\<lparr>sr_accounts := accounts, sr_vaults := vaults\<rparr>) (sq_data q)\<rparr>"
  have "resultCount ?c (shown_response query debounced ?h) = resultCount ?c (shown_response query debounced q)"
    by (cases "sq_data q") (simp_all add: shown_response_def count_hidden)
  from shown_by_count [OF _ this] have c: "search_status_of ?c query debounced ?h = search_status_of ?c query debounced q"
    "liveMessage ?c query debounced ?h = liveMessage ?c query debounced q"
    "showNoMatches lower ?c query debounced ?h = showNoMatches lower ?c query debounced q" by simp_all
  have "resultCount ?b (shown_response query debounced ?o) = resultCount ?b (shown_response query debounced q)"
    by (cases "sq_data q") (simp_all add: shown_response_def count_unseen)
  from shown_by_count [OF _ this] have b: "search_status_of ?b query debounced ?o = search_status_of ?b query debounced q"
    "liveMessage ?b query debounced ?o = liveMessage ?b query debounced q"
    "showNoMatches lower ?b query debounced ?o = showNoMatches lower ?b query debounced q" by simp_all
  have "workspaceGroups pd (sp_concealed p) False (map_option (\<lambda>r. r\<lparr>sr_accounts := accounts, sr_vaults := vaults\<rparr>) a)
      = workspaceGroups pd (sp_concealed p) False a" for a by (cases a) (simp_all add: workspaceGroups_def)
  then have "search_groups lower pd ?b query debounced (sq_data ?o) = search_groups lower pd ?b query debounced (sq_data q)"
    by (simp add: search_groups_def)
  moreover have "search_groups lower pd ?c query debounced (sq_data ?h) = search_groups lower pd ?c query debounced (sq_data q)"
    by (simp add: search_groups_def groups_hidden)
  ultimately show ?thesis unfolding search_shows_def b c by simp
qed

section \<open>The option that is active\<close>

lemma palette_index: "pl_activeIndex s \<le> length (pl_options s) - 1 \<Longrightarrow>
  pl_activeIndex (palette_step s e) \<le> length (pl_options (palette_step s e)) - 1"
  by (cases e) (auto simp: palette_step_def)

definition name_inv :: "name_picker \<Rightarrow> bool" where
  "name_inv k = (- 1 \<le> np_activeIndex k \<and> np_activeIndex k < int (length (np_suggestions k))
     \<and> (0 \<le> np_activeIndex k \<longrightarrow> np_menuOpen k) \<and> (np_menuOpen k \<and> np_suggestions k \<noteq> [] \<longrightarrow> 0 \<le> np_activeIndex k))"


lemma name_inv_effect:
  assumes "np_menuOpen k \<noteq> was_open \<or> np_query k \<noteq> query \<or> length (np_suggestions k) \<noteq> shown \<or> name_inv k"
  shows "name_inv (active_effect was_open query shown k)"
  using assms by (auto simp: active_effect_def name_inv_def np_menuOpen_def)

text \<open>A change keeps the invariant when it keeps it itself or is one that the effect answers.\<close>

lemma rendered_inv:
  assumes "name_inv k" "np_menuOpen (f k) = np_menuOpen k \<and> np_query (f k) = np_query k \<and> length (np_suggestions (f k)) = length (np_suggestions k) \<Longrightarrow> name_inv (f k)"
  shows "name_inv (rendered_change f k)"
  unfolding rendered_change_def by (rule name_inv_effect) (use assms(2) in blast)

lemma close_inv: "name_inv (close_menu k)" "name_inv (selectSuggestion x k)"
  by (simp_all add: selectSuggestion_def close_menu_def name_inv_def np_menuOpen_def)

lemma arrow_inv:
  assumes "name_inv k" "np_menuOpen k" "np_suggestions k \<noteq> []"
  shows "name_inv (k\<lparr>np_activeIndex := min (np_activeIndex k + 1) (int (length (np_suggestions k)) - 1)\<rparr>)"
    "name_inv (k\<lparr>np_activeIndex := max (np_activeIndex k - 1) 0\<rparr>)"
proof -
  have "1 \<le> int (length (np_suggestions k))" using assms(3) by (cases "np_suggestions k") simp_all
  then show "name_inv (k\<lparr>np_activeIndex := min (np_activeIndex k + 1) (int (length (np_suggestions k)) - 1)\<rparr>)"
    "name_inv (k\<lparr>np_activeIndex := max (np_activeIndex k - 1) 0\<rparr>)"
    using assms(1,2) unfolding name_inv_def np_menuOpen_def by auto
qed

lemma same_menu_inv:
  assumes "name_inv k" "np_menuOpen k' = np_menuOpen k" "length (np_suggestions k') = length (np_suggestions k)"
    "np_activeIndex k' = np_activeIndex k"
  shows "name_inv k'"
proof -
  have "np_suggestions k' = [] \<longleftrightarrow> np_suggestions k = []" using assms(3) by (metis length_0_conv)
  then show ?thesis using assms(1) unfolding name_inv_def assms(2-4) by blast
qed

lemma handleKeyDown_inv:
  assumes "name_inv k" "np_menuOpen (handleKeyDown key k) = np_menuOpen k"
  shows "name_inv (handleKeyDown key k)"
proof -
  note same = same_menu_inv [OF assms]
  note arrows = arrow_inv [OF assms(1)]
  show ?thesis
  proof (cases "key = ''Escape''")
    case True
    then show ?thesis by (simp add: handleKeyDown_def close_inv)
  next
    case esc: False
    show ?thesis
    proof (cases "key = ''ArrowDown''")
      case True
      then have "handleKeyDown key k = (if \<not> np_menuOpen k then k\<lparr>np_open := True\<rparr> else if np_suggestions k = [] then k
         else k\<lparr>np_activeIndex := min (np_activeIndex k + 1) (int (length (np_suggestions k)) - 1)\<rparr>)"
        by (simp add: handleKeyDown_def)
      then show ?thesis using assms(1) arrows same by (cases "np_menuOpen k"; cases "np_suggestions k = []") simp_all
    next
      case down: False
      show ?thesis
      proof (cases "key = ''ArrowUp'' \<and> np_menuOpen k")
        case True
        then show ?thesis using assms(1) arrows by (cases "np_suggestions k = []") (simp_all add: handleKeyDown_def)
      next
        case False
        with esc down have "handleKeyDown key k = (if key = ''Enter'' \<and> np_menuOpen k \<and> 0 \<le> np_activeIndex k
            then (if nat (np_activeIndex k) < length (np_suggestions k)
              then selectSuggestion (np_suggestions k ! nat (np_activeIndex k)) k else k) else k)"
          by (simp only: handleKeyDown_def if_False)
        then show ?thesis using assms(1) close_inv by (simp only: split: if_split) blast
      qed
    qed
  qed
qed

lemma given_inv:
  assumes "name_inv k"
  shows "name_inv (rendered_change (\<lambda>k. k\<lparr>np_query := query, np_suggestions := items, np_disabled := disabled,
    np_isLoading := loading, np_isError := failed\<rparr>) k)"
  by (rule rendered_inv [OF assms], elim conjE, rule same_menu_inv [OF assms], assumption) simp_all

lemma toggled_inv:
  assumes "name_inv k"
  shows "name_inv (rendered_change (\<lambda>k. k\<lparr>np_open := b k\<rparr>) k)"
  by (rule rendered_inv [OF assms], elim conjE, rule same_menu_inv [OF assms], assumption) simp_all

lemma name_step_inv:
  assumes "name_inv k"
  shows "name_inv (name_step k e)"
proof (cases e)
  case (Press key)
  then show ?thesis by (simp only: name_step_def name_event.case) (rule rendered_inv [OF assms], elim conjE, rule handleKeyDown_inv [OF assms])
next
  case Blur
  then show ?thesis by (simp only: name_step_def name_event.case) (rule rendered_inv [OF assms], rule close_inv)
next
  case (Click_suggestion i)
  have "name_inv (rendered_change (selectSuggestion (np_shown k ! i)) k)" by (rule rendered_inv [OF assms], rule close_inv)
  with Click_suggestion assms show ?thesis by (simp only: name_step_def name_event.case) simp
qed (simp_all add: name_step_def given_inv [OF assms] toggled_inv [OF assms] assms)

text \<open>A click picks a shown suggestion, and Enter does while the list is on the screen.\<close>

lemma chosen_shown:
  assumes "name_inv k" "\<not> np_isLoading k" "\<not> np_isError k"
  shows "\<exists>xs. np_chosen (name_step k e) = np_chosen k @ xs \<and> set xs \<subseteq> set (np_shown k)"
proof -
  have r: "np_chosen (rendered_change f k) = np_chosen (f k)" for f
    by (simp add: rendered_change_def active_effect_def)
  show ?thesis
  proof (cases e)
    case (Press key)
    show ?thesis
    proof (cases "key = ''Enter'' \<and> np_menuOpen k \<and> 0 \<le> np_activeIndex k \<and> nat (np_activeIndex k) < length (np_suggestions k)")
      case True
      then have "np_chosen (name_step k e) = np_chosen k @ [np_suggestions k ! nat (np_activeIndex k)]"
        by (simp add: Press name_step_def r handleKeyDown_def selectSuggestion_def close_menu_def)
      moreover have "np_shown k = np_suggestions k" using True assms by (simp add: np_shown_def)
      ultimately show ?thesis using True by simp
    next
      case False
      then have "np_chosen (name_step k e) = np_chosen k"
        by (auto simp: Press name_step_def r handleKeyDown_def close_menu_def)
      then show ?thesis by simp
    qed
  qed (auto simp: name_step_def r close_menu_def selectSuggestion_def)
qed

text \<open>C35. The active option of both search fields is one that can be chosen: after any sequence of keys, clicks, changes of the
  text and answers, the index of the palette lies within its options, and that of the picker of names lies within the
  suggestions exactly while its menu is open and has any. While the list of the picker is on the screen, that is while nothing
  is loading and nothing failed, the active suggestion is one that is shown, and whatever a step chooses was shown before it.\<close>

theorem active_option_shown:
  "pl_activeIndex (foldl palette_step new_palette es) \<le> length (pl_options (foldl palette_step new_palette es)) - 1 \<and>
   (let k = foldl name_step new_name_picker fs
    in name_inv k \<and>
       (np_isLoading k \<or> np_isError k \<or>
          np_activeIndex k < int (length (np_shown k)) \<and> (0 \<le> np_activeIndex k) = (np_shown k \<noteq> []) \<and>
          (\<exists>xs. np_chosen (name_step k f) = np_chosen k @ xs \<and> set xs \<subseteq> set (np_shown k))))"
proof -
  have index: "pl_activeIndex (foldl palette_step s es) \<le> length (pl_options (foldl palette_step s es)) - 1"
    if "pl_activeIndex s \<le> length (pl_options s) - 1" for s
    using that by (induction es arbitrary: s) (simp_all only: foldl.simps palette_index)
  have p: "pl_activeIndex (foldl palette_step new_palette es) \<le> length (pl_options (foldl palette_step new_palette es)) - 1"
    by (rule index) (simp add: new_palette_def)
  have inv: "name_inv (foldl name_step k fs)" if "name_inv k" for k
    using that by (induction fs arbitrary: k) (simp_all only: foldl.simps name_step_inv)
  define k where "k = foldl name_step new_name_picker fs"
  have n: "name_inv k" unfolding k_def by (rule inv) (simp add: name_inv_def new_name_picker_def np_menuOpen_def)
  have a: "np_activeIndex k < int (length (np_shown k)) \<and> (0 \<le> np_activeIndex k) = (np_shown k \<noteq> [])"
    if "\<not> np_isLoading k" "\<not> np_isError k"
    using n that by (auto simp: name_inv_def np_shown_def)
  show ?thesis unfolding Let_def k_def [symmetric] using p n a chosen_shown [OF n] by blast
qed

text \<open>While contacts are loading or could not be loaded, the list is not on the screen, but its suggestions stay: Enter chooses the
  first of them, which nobody sees.\<close>

lemma unseen_suggestion_chosen:
  fixes x :: suggestion and xs :: "suggestion list"
  assumes "q \<noteq> []"
  defines "k \<equiv> foldl name_step new_name_picker [Given_suggestions q (x # xs) False False True, Change_input]"
  shows "np_shown k = []" "np_chosen (name_step k (Press ''Enter'')) = [x]"
  using assms(1) by (simp_all add: k_def name_step_def rendered_change_def active_effect_def new_name_picker_def np_menuOpen_def
      np_shown_def handleKeyDown_def selectSuggestion_def close_menu_def)

section \<open>The room of the menu\<close>

text \<open>For whole pixels the menu with its gap stays inside the visible part, on the side that was chosen.\<close>

lemma menu_fits:
  assumes "t = \<lparr>tr_top = of_int a, tr_bottom = of_int b, tr_width = w, tr_height = h\<rparr>" "0 < w" "0 < h"
    and "\<bar>a\<bar> \<le> 2 ^ 40" "\<bar>b\<bar> \<le> 2 ^ 40" "\<bar>v\<bar> \<le> 2 ^ 40" "\<bar>u\<bar> \<le> 2 ^ 40"
    and "getContactPickerMenuLayout t (of_int u) (of_int v) = (p, m)"
  shows "0 \<le> m" "m \<le> 288" "0 < m \<Longrightarrow> (if p = Place_bottom then of_int b + 8 + m \<le> of_int v else of_int u + m + 8 \<le> of_int a)"
proof -
  have whole: "fl64 (fl64 (of_int x - of_int y) - 8) = of_int (x - y - 8)" if "\<bar>x\<bar> \<le> 2 ^ 40" "\<bar>y\<bar> \<le> 2 ^ 40" for x y
  proof -
    have "(of_int x - of_int y :: rat) = of_int (x - y)" by simp
    moreover have "\<bar>x - y\<bar> \<le> 2 ^ 53" "\<bar>x - y - 8\<bar> \<le> 2 ^ 53" using that by simp_all
    ultimately have "fl64 (of_int x - of_int y) = of_int (x - y)" "\<bar>x - y - 8\<bar> \<le> 2 ^ 53" by (simp_all only: fl64_whole)
    moreover have "(of_int (x - y) - 8 :: rat) = of_int (x - y - 8)" by simp
    ultimately show ?thesis by (simp only: fl64_whole)
  qed
  have n: "(w \<le> 0 \<or> h \<le> 0) = False" using assms(2,3) by simp
  have e: "getContactPickerMenuLayout t (of_int u) (of_int v) =
      (let above = max 0 (of_int (a - u - 8)); below = max 0 (of_int (v - b - 8));
           placement = (if 288 \<le> below \<or> above \<le> below then Place_bottom else Place_top)
       in (placement, max 0 (min 288 (if placement = Place_bottom then below else above))))"
    by (simp only: Let_def getContactPickerMenuLayout_def assms(1) trigger_rect.simps n if_False whole [OF assms(4) assms(7)] whole [OF assms(6) assms(5)])
  show "0 \<le> m" "m \<le> 288" "0 < m \<Longrightarrow> (if p = Place_bottom then of_int b + 8 + m \<le> of_int v else of_int u + m + 8 \<le> of_int a)"
    using assms(8) unfolding e by (auto simp: Let_def max_def min_def split: if_splits)
qed

end
