(* ===== verification/Goals.thy ===== *)
theory Goals
  imports PlanningForms
begin

text \<open>
  Budgets and goals (web/src/pages/finance/budgets-goals.tsx): the totals of the budgets page per currency, the labels
  and the progress of a goal, which goal the page shows, the dialog that records progress, creates or links a
  transaction or reschedules a goal, and the cancelling and reopening of a goal. A handler reads
  \<open>busy\<close> as the last render had it (\<open>ga_seenBusy\<close>); \<open>fresh\<close> numbers stand for \<open>crypto.randomUUID()\<close>, whose answers
  are taken to be different. The printing of money and of dates, the invalidation of queries and the markup are left out.
\<close>

section \<open>Definitions\<close>

subsection \<open>Budgets\<close>

record budget_total =
  bt_planned :: jsnum
  bt_spent :: jsnum
  bt_count :: nat

definition add_budget :: "(string, budget_total) omap \<Rightarrow> budget \<Rightarrow> (string, budget_total) omap" where
  "add_budget totals b =
     (let cur = (case om_get totals (currency (bg_limit b)) of Some t \<Rightarrow> t
                 | None \<Rightarrow> \<lparr>bt_planned = Fin 0, bt_spent = Fin 0, bt_count = 0\<rparr>)
      in om_set totals (currency (bg_limit b))
           \<lparr>bt_planned = num_add (bt_planned cur) (amountMinor (bg_limit b)),
            bt_spent = num_add (bt_spent cur) (amountMinor (bg_spent b)), bt_count = bt_count cur + 1\<rparr>)"

record budget_row = budget_total +
  br_rowCurrency :: string
  br_safeToSpend :: jsnum

definition budgetTotals :: "budget list \<Rightarrow> budget_row list" where
  "budgetTotals items = map (\<lambda>(cur, t). \<lparr>bt_planned = bt_planned t, bt_spent = bt_spent t, bt_count = bt_count t,
       br_rowCurrency = cur, br_safeToSpend = js_max (Fin 0) (num_sub (bt_planned t) (bt_spent t))\<rparr>)
     (foldl add_budget [] items)"

definition spendingAvailable :: "bool \<Rightarrow> budget list \<Rightarrow> bool" where
  "spendingAvailable demo items = (demo \<or> list_all bg_spendingKnown items)"

text \<open>Division and the product with a hundred; the divisor is never zero.\<close>

definition num_div :: "jsnum \<Rightarrow> jsnum \<Rightarrow> jsnum" where
  "num_div x y = (case (x, y) of
       (Fin a, Fin b) \<Rightarrow> Fin (fl64 (a / b))
     | (Fin a, PInf) \<Rightarrow> Fin 0 | (Fin a, NInf) \<Rightarrow> Fin 0
     | (PInf, Fin b) \<Rightarrow> if b < 0 then NInf else PInf
     | (NInf, Fin b) \<Rightarrow> if b < 0 then PInf else NInf
     | (_, _) \<Rightarrow> NaN)"

definition num_hundredfold :: "jsnum \<Rightarrow> jsnum" where
  "num_hundredfold x = (case x of Fin a \<Rightarrow> Fin (fl64 (a * 100)) | _ \<Rightarrow> x)"

text \<open>\<open>whole ? (part / whole) * 100 : 0\<close>.\<close>

definition percentage :: "jsnum \<Rightarrow> jsnum \<Rightarrow> jsnum" where
  "percentage part whole = (if whole = Fin 0 \<or> whole = NaN then Fin 0 else num_hundredfold (num_div part whole))"

subsection \<open>Labels of a goal\<close>

definition goalDueDateOnly :: "goal \<Rightarrow> string option" where
  "goalDueDateOnly g = (let date = take 10 (text_or (gl_dueDate g) (gl_targetDate g))
     in if isDateOnly (Some date) then Some date else None)"

definition plural :: "int \<Rightarrow> string" where
  "plural n = (if n = 1 then [] else ''s'')"

text \<open>\<open>print_date\<close> is \<open>formatDate\<close>. The two days are times of the UTC calendar.\<close>

definition day_label :: "rat \<Rightarrow> string" where
  "day_label difference = (let days = math_round difference in
     if days < 0 then ''Overdue by '' @ int_string \<bar>days\<bar> @ '' day'' @ plural \<bar>days\<bar>
     else if days = 0 then ''Due today''
     else int_string days @ '' day'' @ plural days @ '' remaining'')"

definition goalDeadlineLabel :: "(string \<Rightarrow> string) \<Rightarrow> string \<Rightarrow> goal \<Rightarrow> js_error + string" where
  "goalDeadlineLabel print_date today g =
     (if gl_status g = Some Achieved then Inr (case gl_completionDate g of Some (c # cs) \<Rightarrow> ''Completed '' @ print_date (c # cs) | _ \<Rightarrow> ''Completed'')
      else if gl_status g = Some Cancelled then Inr ''Cancelled''
      else case goalDueDateOnly g of
          None \<Rightarrow> Inr ''No due date''
        | Some due \<Rightarrow> bind_result (dateOnlyToUtcDate due) (\<lambda>a. bind_result (dateOnlyToUtcDate today) (\<lambda>b.
            case (a, b) of (Some x, Some y) \<Rightarrow> Inr (day_label (fl64 (of_int (x - y) / of_int ms_per_day)))
            | _ \<Rightarrow> Inr ''NaN days remaining'')))"

definition goalHistoryActionLabel :: "string \<Rightarrow> string" where
  "goalHistoryActionLabel action = replace_char (CHR ''_'') '' '' action"

definition goalTransactionType :: "goal \<Rightarrow> string" where
  "goalTransactionType g =
     (if gl_direction g = Some Receive then ''income''
      else if gl_direction g = Some Pay then ''expense''
      else if gl_direction g = Some Save then ''transfer'' else ''expense'')"

definition goal_card_status :: "goal \<Rightarrow> goal_status" where
  "goal_card_status g = (case gl_status g of Some s \<Rightarrow> s

     | None \<Rightarrow> (let p = percentage (amountMinor (gl_saved g)) (amountMinor (gl_target g))
         in if p = Fin 100 \<or> js_less (Fin 100) p then Achieved else In_progress))"

definition goal_card_label :: "goal \<Rightarrow> string" where
  "goal_card_label g = (case goal_card_status g of
       Achieved \<Rightarrow> ''Achieved'' | Cancelled \<Rightarrow> ''Cancelled'' | Overdue \<Rightarrow> ''Overdue'' | Due_today \<Rightarrow> ''Due today''
     | Due_soon \<Rightarrow> ''Due soon''
     | _ \<Rightarrow> (if js_less (Fin 0) (percentage (amountMinor (gl_saved g)) (amountMinor (gl_target g)))
           then ''In progress'' else ''Not started''))"


subsection \<open>The goal that the page shows\<close>

record goals_query =
  gq_isLoading :: bool
  gq_isError :: bool
  gq_items :: "goal list"
  gq_detail :: "goal option"
  gq_detailIsError :: bool
  gq_detailIsSuccess :: bool

record goal_selection =
  gs_selected :: "goal option"
  gs_params :: search_params

definition requestedGoalId :: "goal_selection \<Rightarrow> string" where
  "requestedGoalId s = q_trimmed (gs_params s) ''goal''"

definition resolvedGoal :: "goals_query \<Rightarrow> string \<Rightarrow> goal option" where
  "resolvedGoal q i = (case find (\<lambda>g. gl_id g = i) (gq_items q) of Some g \<Rightarrow> Some g | None \<Rightarrow> gq_detail q)"

definition selection_effect :: "bool \<Rightarrow> goals_query \<Rightarrow> goal_selection \<Rightarrow> goal_selection" where
  "selection_effect demo q s =
     (if gq_isLoading q \<or> gq_isError q then s
      else if requestedGoalId s = [] then s\<lparr>gs_selected := None\<rparr>
      else case resolvedGoal q (requestedGoalId s) of
          Some g \<Rightarrow> if map_option gl_id (gs_selected s) = Some (gl_id g) then s else s\<lparr>gs_selected := Some g\<rparr>
        | None \<Rightarrow> if demo \<or> gq_detailIsError q \<or> gq_detailIsSuccess q
            then \<lparr>gs_selected = None, gs_params = q_delete (gs_params s) ''goal''\<rparr> else s)"

definition clearGoalSelection :: "goal_selection \<Rightarrow> goal_selection" where
  "clearGoalSelection s = \<lparr>gs_selected = None,
     gs_params = (if q_has (gs_params s) ''goal'' then q_delete (gs_params s) ''goal'' else gs_params s)\<rparr>"

definition selectGoal :: "goal \<Rightarrow> goal_selection \<Rightarrow> goal_selection" where
  "selectGoal g s = \<lparr>gs_selected = Some g, gs_params = q_set (gs_params s) ''goal'' (gl_id g)\<rparr>"

subsection \<open>The dialog of the actions\<close>

datatype goal_mode = Progress | Goal_transaction | Link_goal | Reschedule

record goal_transaction =
  gt_amountMinor :: int
  gt_occurredAt :: string
  gt_accountId :: string
  gt_destinationAccountId :: "string option"
  gt_transactionType :: string
  gt_category :: string
  gt_description :: string
  gt_notes :: string
  gt_contactId :: "string option"
  gt_currency :: string

datatype goal_body =
    Progress_body int string
  | Reschedule_body string
  | Link_body string
  | Transaction_body goal_transaction

text \<open>What the dialog does to the outside: \<open>Opened\<close> is an opening, \<open>Prepared\<close> a run of the effect that prepares the fields,
  \<open>Posted\<close> a request about a goal with its idempotency key, \<open>Completed\<close> the end that the parent answers by closing.\<close>

datatype goal_output = Opened | Prepared | Posted string goal_body "nat option" | Completed

record goal_dialog =
  ga_goal :: "goal option"
  ga_mode :: "goal_mode option"
  ga_accounts :: "account list"
  ga_amount :: string
  ga_occurredAt :: string
  ga_dueDate :: string
  ga_category :: string
  ga_description :: string
  ga_notes :: string
  ga_accountId :: string
  ga_destinationAccountId :: string
  ga_transactionId :: string
  ga_confirming :: bool
  ga_busy :: bool
  ga_seenBusy :: bool
  ga_feedback :: string
  ga_key :: "nat option"
  ga_fresh :: nat
  ga_running :: "nat list"
  ga_attempts :: nat
  ga_output :: "goal_output list"

definition closed_goal_dialog :: goal_dialog where
  "closed_goal_dialog = \<lparr>ga_goal = None, ga_mode = None, ga_accounts = [], ga_amount = [], ga_occurredAt = [], ga_dueDate = [],
     ga_category = [], ga_description = [], ga_notes = [], ga_accountId = [], ga_destinationAccountId = [], ga_transactionId = [],
     ga_confirming = False, ga_busy = False, ga_seenBusy = False, ga_feedback = [], ga_key = None, ga_fresh = 0, ga_running = [],
     ga_attempts = 0, ga_output = []\<rparr>"

definition first_account :: "account list \<Rightarrow> string option" where
  "first_account accounts = (case accounts of [] \<Rightarrow> None | a # _ \<Rightarrow> Some (acc_id a))"

text \<open>The effect that prepares the fields for a goal.\<close>

definition goal_due_text :: "goal \<Rightarrow> string" where
  "goal_due_text g = (case gl_dueDate g of Some (c # cs) \<Rightarrow> take 10 (c # cs) | _ \<Rightarrow> take 10 (gl_targetDate g))"

definition prepare_goal :: "string \<Rightarrow> goal_dialog \<Rightarrow> goal_dialog" where
  "prepare_goal today d = (case (ga_goal d, ga_mode d) of
       (Some g, Some m) \<Rightarrow> d\<lparr>ga_amount := [], ga_occurredAt := today, ga_dueDate := goal_due_text g, ga_category := text_or (gl_category g) [],
           ga_description := gl_name g, ga_notes := text_or (gl_notes g) [],
           ga_accountId := text_or (gl_accountId g) (text_or (first_account (ga_accounts d)) []),
           ga_destinationAccountId := [], ga_transactionId := [], ga_confirming := False, ga_busy := False, ga_feedback := [],
           ga_key := None, ga_output := ga_output d @ [Prepared]\<rparr>
     | _ \<Rightarrow> d)"

text \<open>\<open>Math.round(Number(amount) * 100)\<close> and whether it is a positive safe integer.\<close>

definition action_minor :: "string \<Rightarrow> int option" where
  "action_minor amount = (case number_value amount of
       Fin x \<Rightarrow> (let n = math_round (fl64 (x * 100)) in if \<bar>n\<bar> \<le> max_safe_integer \<and> 0 < n then Some n else None)
     | _ \<Rightarrow> None)"

definition transaction_body :: "goal \<Rightarrow> int \<Rightarrow> string \<Rightarrow> goal_dialog \<Rightarrow> goal_body" where
  "transaction_body g n day d = Transaction_body \<lparr>gt_amountMinor = n, gt_occurredAt = day, gt_accountId = ga_accountId d,
     gt_destinationAccountId = (if goalTransactionType g = ''transfer'' then Some (ga_destinationAccountId d) else None),
     gt_transactionType = goalTransactionType g, gt_category = ga_category d, gt_description = ga_description d,
     gt_notes = ga_notes d, gt_contactId = gl_contactId g,
     gt_currency = (case find (\<lambda>a. acc_id a = ga_accountId d) (ga_accounts d) of
         Some a \<Rightarrow> currency (acc_balance a) | None \<Rightarrow> currency (gl_target g))\<rparr>"

text \<open>The body, or the exception of a field that is no day.\<close>

definition goal_request_body :: "goal \<Rightarrow> goal_mode \<Rightarrow> int \<Rightarrow> goal_dialog \<Rightarrow> js_error + goal_body" where
  "goal_request_body g m n d = (case m of
       Progress \<Rightarrow> bind_result (toUtcDateOnly (ga_occurredAt d)) (\<lambda>day. Inr (Progress_body n day))
     | Reschedule \<Rightarrow> bind_result (toUtcDateOnly (ga_dueDate d)) (\<lambda>day. Inr (Reschedule_body day))
     | Link_goal \<Rightarrow> Inr (Link_body (js_trim (ga_transactionId d)))
     | Goal_transaction \<Rightarrow> bind_result (toUtcDateOnly (ga_occurredAt d)) (\<lambda>day. Inr (transaction_body g n day d)))"

definition goal_check :: "goal \<Rightarrow> goal_mode \<Rightarrow> goal_dialog \<Rightarrow> string option" where
  "goal_check g m d =
     (if m = Link_goal \<and> js_trim (ga_transactionId d) = [] then Some ''Enter the transaction ID to link.''
      else if m \<noteq> Reschedule \<and> m \<noteq> Link_goal \<and> action_minor (ga_amount d) = None then Some ''Enter a positive amount in major currency units.''
      else if m = Reschedule \<and> ga_dueDate d = [] then Some ''Choose a due date.''
      else if m = Goal_transaction \<and> (ga_accountId d = [] \<or> (goalTransactionType g = ''transfer'' \<and> ga_destinationAccountId d = []))
        then Some (if goalTransactionType g = ''transfer'' then ''Choose source and destination accounts.'' else ''Choose an account.'')
      else None)"

definition action_failed :: string where
  "action_failed = ''The goal action could not be saved. No changes were made.''"

text \<open>The key is made by the first request that carries one after the fields were prepared.\<close>

definition post_goal :: "goal \<Rightarrow> goal_mode \<Rightarrow> goal_body \<Rightarrow> goal_dialog \<Rightarrow> goal_dialog" where
  "post_goal g m body d =
     (if m = Reschedule then d\<lparr>ga_output := ga_output d @ [Posted (gl_id g) body None]\<rparr>
      else (case ga_key d of
          Some k \<Rightarrow> d\<lparr>ga_output := ga_output d @ [Posted (gl_id g) body (Some k)]\<rparr>
        | None \<Rightarrow> d\<lparr>ga_key := Some (ga_fresh d), ga_fresh := ga_fresh d + 1, ga_output := ga_output d @ [Posted (gl_id g) body (Some (ga_fresh d))]\<rparr>))"

definition run_attempt :: "goal_dialog \<Rightarrow> goal_dialog" where
  "run_attempt d = d\<lparr>ga_running := ga_running d @ [ga_attempts d], ga_attempts := ga_attempts d + 1\<rparr>"

definition execute_goal :: "bool \<Rightarrow> goal_dialog \<Rightarrow> goal_dialog" where
  "execute_goal demo d = (case (ga_goal d, ga_mode d) of
       (Some g, Some m) \<Rightarrow>
         if ga_seenBusy d then d
         else (case goal_check g m d of
             Some text \<Rightarrow> d\<lparr>ga_feedback := text\<rparr>
           | None \<Rightarrow>
               if demo then run_attempt (d\<lparr>ga_busy := True, ga_feedback := ''This goal action is session-only in demo mode.''\<rparr>)
               else (case goal_request_body g m (case action_minor (ga_amount d) of Some n \<Rightarrow> n | None \<Rightarrow> 0) d of
                   Inl e \<Rightarrow> d\<lparr>ga_busy := False, ga_feedback := action_failed\<rparr>
                 | Inr body \<Rightarrow> run_attempt (post_goal g m body (d\<lparr>ga_busy := True, ga_feedback := []\<rparr>))))
     | _ \<Rightarrow> d)"

definition submit_goal :: "bool \<Rightarrow> goal_dialog \<Rightarrow> goal_dialog" where
  "submit_goal demo d = (if ga_mode d = Some Goal_transaction \<and> \<not> ga_confirming d then d\<lparr>ga_confirming := True\<rparr>
     else execute_goal demo d)"

text \<open>The end of an attempt; \<open>None\<close> is success (for the demonstration, the timer), after which the parent closes the dialog.\<close>

definition goalActionError :: "write_error \<Rightarrow> string \<Rightarrow> string" where
  "goalActionError e fallback = (case e of Api_failure message fs \<Rightarrow> message | Other_failure \<Rightarrow> fallback)"

definition end_attempt :: "nat \<Rightarrow> write_error option \<Rightarrow> goal_dialog \<Rightarrow> goal_dialog" where
  "end_attempt i answer d =
     (if i \<notin> set (ga_running d) then d
      else (let e = d\<lparr>ga_running := filter (\<lambda>j. j \<noteq> i) (ga_running d)\<rparr>
            in (case answer of
                None \<Rightarrow> e\<lparr>ga_goal := None, ga_mode := None, ga_busy := False, ga_output := ga_output e @ [Completed]\<rparr>
              | Some failure \<Rightarrow> e\<lparr>ga_feedback := goalActionError failure action_failed, ga_busy := False\<rparr>)))"

datatype goal_field = Amount | Occurred_at | Due_date | Category_field | Description_field | Notes_field | Account_field
  | Destination_field | Transaction_field

definition set_goal_field :: "goal_field \<Rightarrow> string \<Rightarrow> goal_dialog \<Rightarrow> goal_dialog" where
  "set_goal_field f v d = (case f of
       Amount \<Rightarrow> d\<lparr>ga_feedback := [], ga_amount := v\<rparr>
     | Occurred_at \<Rightarrow> d\<lparr>ga_occurredAt := v\<rparr>
     | Due_date \<Rightarrow> d\<lparr>ga_feedback := [], ga_dueDate := v\<rparr>
     | Category_field \<Rightarrow> d\<lparr>ga_category := v\<rparr>
     | Description_field \<Rightarrow> d\<lparr>ga_description := v\<rparr>
     | Notes_field \<Rightarrow> d\<lparr>ga_notes := v\<rparr>
     | Account_field \<Rightarrow> d\<lparr>ga_accountId := (if v = ''none'' then [] else v)\<rparr>
     | Destination_field \<Rightarrow> d\<lparr>ga_destinationAccountId := (if v = ''none'' then [] else v)\<rparr>
     | Transaction_field \<Rightarrow> d\<lparr>ga_feedback := [], ga_transactionId := v\<rparr>)"

datatype goal_event =
    Open_action goal goal_mode string | Accounts_given "account list" string | Goal_input goal_field string
  | Goal_submit | Goal_confirm | Goal_review | Goal_render | Attempt_ends nat "write_error option" | Goal_close

text \<open>The dialog opens when the parent has none open. The effect that prepares the fields runs at the opening and, since it depends
  on the first account, again while the dialog is open when an answer of the accounts changes that: it then also forgets the
  idempotency key and that a request is under way.\<close>

definition goal_dialog_step :: "bool \<Rightarrow> goal_dialog \<Rightarrow> goal_event \<Rightarrow> goal_dialog" where
  "goal_dialog_step demo d e = (case e of
       Open_action g m today \<Rightarrow> if ga_goal d = None
         then prepare_goal today (d\<lparr>ga_goal := Some g, ga_mode := Some m, ga_output := ga_output d @ [Opened]\<rparr>) else d
     | Accounts_given accounts today \<Rightarrow> (let e = d\<lparr>ga_accounts := accounts\<rparr>
         in if first_account accounts = first_account (ga_accounts d) then e else prepare_goal today e)
     | Goal_input f v \<Rightarrow> set_goal_field f v d
     | Goal_submit \<Rightarrow> submit_goal demo d
     | Goal_confirm \<Rightarrow> if ga_confirming d then execute_goal demo d else d
     | Goal_review \<Rightarrow> if ga_confirming d \<and> \<not> ga_seenBusy d then d\<lparr>ga_confirming := False\<rparr> else d
     | Goal_render \<Rightarrow> d\<lparr>ga_seenBusy := ga_busy d\<rparr>
     | Attempt_ends i answer \<Rightarrow> end_attempt i answer d
     | Goal_close \<Rightarrow> if ga_seenBusy d then d else d\<lparr>ga_goal := None, ga_mode := None\<rparr>)"

text \<open>The places where the dialog shows its message.\<close>

definition shown_feedback :: "goal_dialog \<Rightarrow> string list" where
  "shown_feedback d =
     (if ga_feedback d = [] then []
      else (case ga_mode d of
          Some Reschedule \<Rightarrow> [ga_feedback d] | Some Link_goal \<Rightarrow> [ga_feedback d]
        | _ \<Rightarrow> if ga_confirming d then [] else [ga_feedback d])
        @ (if ga_confirming d then [] else [ga_feedback d]))"

subsection \<open>Cancelling and reopening\<close>

datatype lifecycle_request = Cancel_request string | Reopen_request string

record lifecycle =
  lc_confirmCancel :: bool
  lc_busy :: bool
  lc_error :: string
  lc_sent :: "lifecycle_request list"
  lc_changed :: nat

definition cancel_goal :: "bool \<Rightarrow> goal \<Rightarrow> lifecycle \<Rightarrow> lifecycle" where
  "cancel_goal demo g l = (if \<not> lc_confirmCancel l \<or> lc_busy l then l
     else l\<lparr>lc_busy := True, lc_error := [], lc_sent := lc_sent l @ (if demo then [] else [Cancel_request (gl_id g)])\<rparr>)"

definition reopen_goal :: "bool \<Rightarrow> goal \<Rightarrow> lifecycle \<Rightarrow> lifecycle" where
  "reopen_goal demo g l = (if lc_busy l then l
     else l\<lparr>lc_busy := True, lc_error := [], lc_sent := lc_sent l @ (if demo then [] else [Reopen_request (gl_id g)])\<rparr>)"

definition cancel_ends :: "write_error option \<Rightarrow> lifecycle \<Rightarrow> lifecycle" where
  "cancel_ends answer l = (case answer of
       None \<Rightarrow> l\<lparr>lc_busy := False, lc_confirmCancel := False, lc_changed := lc_changed l + 1\<rparr>
     | Some e \<Rightarrow> l\<lparr>lc_busy := False, lc_error := goalActionError e ''Could not update the goal status.''\<rparr>)"

definition reopen_ends :: "write_error option \<Rightarrow> lifecycle \<Rightarrow> lifecycle" where
  "reopen_ends answer l = (case answer of
       None \<Rightarrow> l\<lparr>lc_busy := False, lc_changed := lc_changed l + 1\<rparr>
     | Some e \<Rightarrow> l\<lparr>lc_busy := False, lc_error := goalActionError e ''Could not reopen the goal.''\<rparr>)"

text \<open>Which of the three contents the actions show.\<close>

datatype lifecycle_view = Show_reopen | Show_confirmation | Show_cancel

definition lifecycle_shows :: "goal \<Rightarrow> lifecycle \<Rightarrow> lifecycle_view" where
  "lifecycle_shows g l = (if gl_status g = Some Cancelled then Show_reopen
     else if lc_confirmCancel l then Show_confirmation else Show_cancel)"


section \<open>Labels and totals\<close>

lemma quotient_of_days: "\<bar>a - b\<bar> \<le> 2 ^ 53 \<Longrightarrow> math_round (fl64 (of_int (ms_per_day * a - ms_per_day * b) / of_int ms_per_day)) = a - b"
proof -
  assume "\<bar>a - b\<bar> \<le> 2 ^ 53"
  moreover have "(of_int (ms_per_day * a - ms_per_day * b) / of_int ms_per_day :: rat) = of_int (a - b)"
    by (simp add: ms_per_day_def field_simps)
  ultimately show ?thesis using math_round_close [of "of_int (a - b)" "a - b"] by (simp only: fl64_whole)
qed

text \<open>C30. The deadline of an open goal is told by the number of days between today and its due day: so many days overdue, due
  today, or so many days remaining, across months, leap days and years.\<close>

theorem deadline_label_correct:
  assumes "gl_status g \<noteq> Some Achieved" "gl_status g \<noteq> Some Cancelled"
    and "take 10 (text_or (gl_dueDate g) (gl_targetDate g)) = day_string due" "four_digit_day due" "four_digit_day today"
  shows "goalDeadlineLabel print_date (day_string today) g = Inr
    (if due < today then ''Overdue by '' @ int_string (today - due) @ '' day'' @ plural (today - due)
     else if due = today then ''Due today''
     else int_string (due - today) @ '' day'' @ plural (due - today) @ '' remaining'')"
proof -
  have d: "goalDueDateOnly g = Some (day_string due)"
    using assms(3,4) by (simp add: goalDueDateOnly_def isDateOnly_def partsFor_day_string)
  have "\<bar>due - today\<bar> \<le> 2 ^ 53" using four_digit_day_small [OF assms(4)] four_digit_day_small [OF assms(5)] by simp
  note q = quotient_of_days [OF this]
  show ?thesis
    using assms(1,2) d to_date_day_string [OF assms(4)] to_date_day_string [OF assms(5)] q
    by (simp add: goalDeadlineLabel_def day_label_def Let_def)
qed

definition example_goal :: "string \<Rightarrow> goal" where
  "example_goal due = \<lparr>gl_id = ''g1'', gl_name = ''Trip'', gl_saved = \<lparr>amountMinor = Fin 0, currency = ''INR''\<rparr>,
     gl_target = \<lparr>amountMinor = Fin 500, currency = ''INR''\<rparr>, gl_targetDate = due, gl_description = None, gl_type = None,
     gl_customType = None, gl_direction = Some Save, gl_remaining = \<lparr>amountMinor = Fin 500, currency = ''INR''\<rparr>, gl_startDate = None,
     gl_dueDate = None, gl_status = Some In_progress, gl_visibility = None, gl_contactId = None, gl_contactName = None, gl_contact = None,
     gl_accountId = None, gl_category = None, gl_reminder = None, gl_notes = None, gl_cancelledAt = None, gl_completionDate = None,
     gl_linkedTransactionIds = [], gl_createdBySummary = None, gl_history = []\<rparr>"

theorem deadline_label_correct_witness:
  "goalDeadlineLabel (\<lambda>t. t) (day_string 19780) (example_goal ''2024-03-01'') = Inr ''3 days remaining''"
proof -
  have d: "day_string 19783 = ''2024-03-01''" by code_simp
  have "four_digit_day 19783" "four_digit_day 19780"
    using year_of_day_between [of 1000 19783] year_of_day_between [of 19783 9999]
      year_of_day_between [of 1000 19780] year_of_day_between [of 19780 9999]
    by (simp_all add: four_digit_day_def civil_eval)
  moreover have "take 10 (text_or (gl_dueDate (example_goal ''2024-03-01'')) (gl_targetDate (example_goal ''2024-03-01''))) = day_string 19783"
    by (simp add: example_goal_def text_or_def d)
  moreover have "gl_status (example_goal ''2024-03-01'') \<noteq> Some Achieved" "gl_status (example_goal ''2024-03-01'') \<noteq> Some Cancelled"
    by (simp_all add: example_goal_def)
  ultimately have "goalDeadlineLabel (\<lambda>t. t) (day_string 19780) (example_goal ''2024-03-01'')
      = Inr (int_string 3 @ '' day'' @ plural 3 @ '' remaining'')"
    using deadline_label_correct [of "example_goal ''2024-03-01''" 19783 19780 "\<lambda>t. t"] by simp
  moreover have "int_string 3 @ '' day'' @ plural 3 @ '' remaining'' = ''3 days remaining''" by code_simp
  ultimately show ?thesis by simp
qed

lemma om_get_add_budget:
  "om_get (add_budget m b) k = (if k = currency (bg_limit b)
     then Some (case om_get m k of Some t \<Rightarrow> \<lparr>bt_planned = num_add (bt_planned t) (amountMinor (bg_limit b)),
         bt_spent = num_add (bt_spent t) (amountMinor (bg_spent b)), bt_count = bt_count t + 1\<rparr>
       | None \<Rightarrow> \<lparr>bt_planned = num_add (Fin 0) (amountMinor (bg_limit b)), bt_spent = num_add (Fin 0) (amountMinor (bg_spent b)), bt_count = 0 + 1\<rparr>)
     else om_get m k)"
  by (simp add: add_budget_def Let_def om_get_set split: option.splits)

lemma om_ok_add_budget: "om_ok m \<Longrightarrow> om_ok (add_budget m b)"
  by (simp add: add_budget_def Let_def om_ok_set)


text \<open>Budgets with whole amounts of a moderate total.\<close>

definition whole_budgets :: "(budget \<Rightarrow> int) \<Rightarrow> (budget \<Rightarrow> int) \<Rightarrow> budget list \<Rightarrow> bool" where
  "whole_budgets l s bs \<longleftrightarrow> list_all (\<lambda>b. amountMinor (bg_limit b) = Fin (of_int (l b)) \<and> amountMinor (bg_spent b) = Fin (of_int (s b))) bs
     \<and> (\<Sum>b\<leftarrow>bs. \<bar>l b\<bar>) + (\<Sum>b\<leftarrow>bs. \<bar>s b\<bar>) \<le> 2 ^ 53"

definition of_currency :: "(budget \<Rightarrow> int) \<Rightarrow> string \<Rightarrow> budget list \<Rightarrow> int" where
  "of_currency f c bs = (\<Sum>b\<leftarrow>filter (\<lambda>b. currency (bg_limit b) = c) bs. f b)"

lemma of_currency_bound: "\<bar>of_currency f c bs\<bar> \<le> (\<Sum>b\<leftarrow>bs. \<bar>f b\<bar>)"
  by (induction bs) (auto simp: of_currency_def)

lemma of_currency_snoc: "of_currency f c (bs @ [b]) = of_currency f c bs + (if currency (bg_limit b) = c then f b else 0)"
  by (simp add: of_currency_def)

lemma of_currency_none: "c \<notin> currency ` bg_limit ` set bs \<Longrightarrow> of_currency f c bs = 0"
  by (induction bs) (auto simp: of_currency_def)

lemma budget_total_at:
  assumes "whole_budgets l s bs"
  shows "om_get (foldl add_budget [] bs) c =
    (if c \<in> currency ` bg_limit ` set bs
     then Some \<lparr>bt_planned = Fin (of_int (of_currency l c bs)), bt_spent = Fin (of_int (of_currency s c bs)),
       bt_count = length (filter (\<lambda>b. currency (bg_limit b) = c) bs)\<rparr> else None)"
  using assms
proof (induction bs rule: rev_induct)
  case (snoc b bs)
  have w: "whole_budgets l s bs" "amountMinor (bg_limit b) = Fin (of_int (l b))" "amountMinor (bg_spent b) = Fin (of_int (s b))"
    using snoc.prems by (auto simp: whole_budgets_def)
  note IH = snoc.IH [OF w(1)]
  show ?case
  proof (cases "currency (bg_limit b) = c")
    case False
    then show ?thesis using IH by (auto simp: om_get_add_budget of_currency_snoc)
  next
    case c: True
    have "\<bar>of_currency l c (bs @ [b])\<bar> \<le> 2 ^ 53" "\<bar>of_currency s c (bs @ [b])\<bar> \<le> 2 ^ 53"
      using of_currency_bound [of l c "bs @ [b]"] of_currency_bound [of s c "bs @ [b]"] snoc.prems
        sum_list_nonneg [of "map (\<lambda>b. \<bar>l b\<bar>) (bs @ [b])"] sum_list_nonneg [of "map (\<lambda>b. \<bar>s b\<bar>) (bs @ [b])"]
      unfolding whole_budgets_def by fastforce+
    then have n: "num_add (Fin (of_int (of_currency l c bs))) (Fin (of_int (l b))) = Fin (of_int (of_currency l c bs + l b))"
      "num_add (Fin (of_int (of_currency s c bs))) (Fin (of_int (s b))) = Fin (of_int (of_currency s c bs + s b))"
      using c by (simp_all add: num_add_whole of_currency_snoc)
    show ?thesis
    proof (cases "c \<in> currency ` bg_limit ` set bs")
      case True
      then show ?thesis using c IH n w by (simp add: om_get_add_budget of_currency_snoc)
    next
      case False
      note z = of_currency_none [OF False]
      from False have "filter (\<lambda>b. currency (bg_limit b) = c) bs = []" by (auto simp: filter_empty_conv)
      then show ?thesis using c IH n w z False by (simp add: om_get_add_budget of_currency_snoc)
    qed
  qed
qed simp

lemma budget_totals_ok: "om_ok (foldl add_budget m bs)" if "om_ok m"
  using that by (induction bs arbitrary: m) (simp_all add: om_ok_add_budget)

text \<open>C31. The totals of the budgets page conserve the budgets: there is one row for each currency in use, its planned and spent
  amounts are the exact sums over the budgets of that currency, its count is their number, and what is safe to spend is the
  rest of the plan and never negative, for whole amounts of up to 2^53 in all.\<close>

theorem budget_totals_conserve:
  assumes "whole_budgets l s items"
  shows "distinct (map br_rowCurrency (budgetTotals items)) \<and> set (map br_rowCurrency (budgetTotals items)) = currency ` bg_limit ` set items \<and>
    list_all (\<lambda>r. bt_planned r = Fin (of_int (of_currency l (br_rowCurrency r) items)) \<and>
      bt_spent r = Fin (of_int (of_currency s (br_rowCurrency r) items)) \<and>
      bt_count r = length (filter (\<lambda>b. currency (bg_limit b) = br_rowCurrency r) items) \<and>
      br_safeToSpend r = Fin (of_int (max 0 (of_currency l (br_rowCurrency r) items - of_currency s (br_rowCurrency r) items)))) (budgetTotals items)"
proof (intro conjI)
  let ?m = "foldl add_budget [] items"
  have ok: "om_ok ?m" by (rule budget_totals_ok) simp
  have fst: "map br_rowCurrency (budgetTotals items) = map fst ?m" by (simp add: budgetTotals_def case_prod_beta)
  show "distinct (map br_rowCurrency (budgetTotals items))" using ok by (simp add: fst om_ok_def om_keys_def)
  have at: "om_get ?m c = Some t \<longleftrightarrow> (c, t) \<in> set ?m" for c t
    using ok by (simp add: om_get_map_of om_ok_def om_keys_def)
  show "set (map br_rowCurrency (budgetTotals items)) = currency ` bg_limit ` set items"
  proof (rule set_eqI)
    fix c
    have "c \<in> fst ` set ?m \<longleftrightarrow> (\<exists>t. om_get ?m c = Some t)" by (force simp: at)
    then show "c \<in> set (map br_rowCurrency (budgetTotals items)) \<longleftrightarrow> c \<in> currency ` bg_limit ` set items"
      unfolding fst by (simp add: budget_total_at [OF assms])
  qed
  have "bt_planned r = Fin (of_int (of_currency l (br_rowCurrency r) items)) \<and>
      bt_spent r = Fin (of_int (of_currency s (br_rowCurrency r) items)) \<and>
      bt_count r = length (filter (\<lambda>b. currency (bg_limit b) = br_rowCurrency r) items) \<and>
      br_safeToSpend r = Fin (of_int (max 0 (of_currency l (br_rowCurrency r) items - of_currency s (br_rowCurrency r) items)))"
    if "r \<in> set (budgetTotals items)" for r
  proof -
    obtain c t where ct: "(c, t) \<in> set ?m" and r: "r = \<lparr>bt_planned = bt_planned t, bt_spent = bt_spent t, bt_count = bt_count t,
       br_rowCurrency = c, br_safeToSpend = js_max (Fin 0) (num_sub (bt_planned t) (bt_spent t))\<rparr>"
      using \<open>r \<in> _\<close> by (auto simp: budgetTotals_def)
    from ct budget_total_at [OF assms, of c] have t: "t = \<lparr>bt_planned = Fin (of_int (of_currency l c items)),
        bt_spent = Fin (of_int (of_currency s c items)), bt_count = length (filter (\<lambda>b. currency (bg_limit b) = c) items)\<rparr>"
      by (simp add: at [symmetric] split: if_splits)
    have "\<bar>of_currency l c items - of_currency s c items\<bar> \<le> 2 ^ 53"
      using of_currency_bound [of l c items] of_currency_bound [of s c items] assms unfolding whole_budgets_def by linarith
    then show ?thesis by (simp add: r t num_sub_whole js_max_def max_def)
  qed
  then show "list_all (\<lambda>r. bt_planned r = Fin (of_int (of_currency l (br_rowCurrency r) items)) \<and>
      bt_spent r = Fin (of_int (of_currency s (br_rowCurrency r) items)) \<and>
      bt_count r = length (filter (\<lambda>b. currency (bg_limit b) = br_rowCurrency r) items) \<and>
      br_safeToSpend r = Fin (of_int (max 0 (of_currency l (br_rowCurrency r) items - of_currency s (br_rowCurrency r) items)))) (budgetTotals items)"
    by (simp add: list_all_iff)
qed


definition example_budget :: "string \<Rightarrow> int \<Rightarrow> int \<Rightarrow> budget" where
  "example_budget c l s = \<lparr>bg_id = ''b'', bg_name = ''Food'', bg_spent = \<lparr>amountMinor = Fin (of_int s), currency = c\<rparr>,
     bg_limit = \<lparr>amountMinor = Fin (of_int l), currency = c\<rparr>, bg_period = ''monthly'', bg_spendingKnown = True, bg_categories = [],
     bg_rollover = False, bg_startAt = None, bg_endAt = None\<rparr>"

theorem budget_totals_conserve_witness:
  "let items = [example_budget ''INR'' 900 100, example_budget ''USD'' 50 80, example_budget ''INR'' 300 7];
       l = (\<lambda>b. case amountMinor (bg_limit b) of Fin r \<Rightarrow> \<lfloor>r\<rfloor> | _ \<Rightarrow> 0); s = (\<lambda>b. case amountMinor (bg_spent b) of Fin r \<Rightarrow> \<lfloor>r\<rfloor> | _ \<Rightarrow> 0)
   in distinct (map br_rowCurrency (budgetTotals items)) \<and> set (map br_rowCurrency (budgetTotals items)) = currency ` bg_limit ` set items \<and>
    list_all (\<lambda>r. bt_planned r = Fin (of_int (of_currency l (br_rowCurrency r) items)) \<and>
      bt_spent r = Fin (of_int (of_currency s (br_rowCurrency r) items)) \<and>
      bt_count r = length (filter (\<lambda>b. currency (bg_limit b) = br_rowCurrency r) items) \<and>
      br_safeToSpend r = Fin (of_int (max 0 (of_currency l (br_rowCurrency r) items - of_currency s (br_rowCurrency r) items)))) (budgetTotals items)"
  unfolding Let_def by (rule budget_totals_conserve) (simp add: whole_budgets_def example_budget_def)

lemma fl64_above: "1 / 1000 \<le> x \<Longrightarrow> fl64 x \<le> x * (1 + 1 / 2 ^ 53)"
proof -
  assume x: "1 / 1000 \<le> x"
  then have "\<bar>fl64 x - x\<bar> \<le> x * (1 / 2 ^ 53)" using fl64_error [of x] by simp
  then have "fl64 x \<le> x + x * (1 / 2 ^ 53)" by linarith
  then show ?thesis by (simp only: distrib_left mult_1_right)
qed

lemma card_achieved:
  assumes "gl_status g = None" "amountMinor (gl_saved g) = Fin (of_int a)" "amountMinor (gl_target g) = Fin (of_int b)"
    and "0 < b" "b \<le> 2 ^ 50"
  shows "goal_card_status g = Achieved \<longleftrightarrow> b \<le> a"
proof -
  let ?q = "of_int a / of_int b :: rat"
  have b: "(0 :: rat) < of_int b" using assms(4) by simp
  have one: "fl64 1 = 1" "fl64 100 = 100" using fl64_whole [of 1] fl64_whole [of 100] by simp_all
  have p: "percentage (amountMinor (gl_saved g)) (amountMinor (gl_target g)) = Fin (fl64 (fl64 ?q * 100))"
    using assms(2-4) by (simp add: percentage_def num_div_def num_hundredfold_def)
  have "100 \<le> fl64 (fl64 ?q * 100) \<longleftrightarrow> b \<le> a"
  proof
    assume "b \<le> a"
    then have "1 \<le> ?q" using b by (simp add: le_divide_eq)
    then have "1 \<le> fl64 ?q" using fl64_mono [of 1 ?q] one by simp
    then show "100 \<le> fl64 (fl64 ?q * 100)" using fl64_mono [of 100 "fl64 ?q * 100"] one by simp
  next
    assume *: "100 \<le> fl64 (fl64 ?q * 100)"
    show "b \<le> a"
    proof (rule ccontr)
      assume "\<not> b \<le> a"
      then have "of_int a \<le> (of_int (b - 1) :: rat)" by (simp only: of_int_le_iff)
      then have "?q \<le> 1 - 1 / of_int b" using b by (simp add: field_simps)
      also have "\<dots> \<le> 1 - 1 / 2 ^ 50"
      proof -
        have "(of_int b :: rat) \<le> of_int (2 ^ 50)" using assms(5) by (simp only: of_int_le_iff)
        then show ?thesis using b by (simp add: field_simps)
      qed
      finally have "fl64 ?q \<le> fl64 (1 - 1 / 2 ^ 50)" by (rule fl64_mono)
      also have "\<dots> \<le> (1 - 1 / 2 ^ 50) * (1 + 1 / 2 ^ 53)"
        by (rule fl64_above) simp
      finally have "fl64 (fl64 ?q * 100) \<le> fl64 ((1 - 1 / 2 ^ 50) * (1 + 1 / 2 ^ 53) * 100)" by (intro fl64_mono) simp
      also have "\<dots> \<le> (1 - 1 / 2 ^ 50) * (1 + 1 / 2 ^ 53) * 100 * (1 + 1 / 2 ^ 53)"
        by (rule fl64_above) simp
      also have "\<dots> < 100" by simp
      finally show False using * by simp
    qed
  qed
  then show ?thesis using assms(1) by (auto simp: goal_card_status_def p)
qed

section \<open>The goal that is shown\<close>

lemma deleted_goal_requested: "requestedGoalId \<lparr>gs_selected = x, gs_params = q_delete p ''goal''\<rparr> = []"
  by (simp add: requestedGoalId_def q_trimmed_def q_get_delete)

lemma requested_same [simp]: "requestedGoalId (s\<lparr>gs_selected := x\<rparr>) = requestedGoalId s"
  by (simp add: requestedGoalId_def)

text \<open>Once the goals are loaded, the effect leaves a goal selected only as long as the query names one.\<close>

lemma selection_loaded:
  assumes "\<not> gq_isLoading q" "\<not> gq_isError q" "requestedGoalId (selection_effect demo q s) = []"
  shows "gs_selected (selection_effect demo q s) = None"
  using assms by (auto simp: selection_effect_def split: option.splits if_splits)

text \<open>The effect that follows the query settles: running it again on its own result changes nothing, so the renders that it
  causes come to an end.\<close>

theorem selection_settles:
  "selection_effect demo q (selection_effect demo q s) = selection_effect demo q s"
proof (cases "gq_isLoading q \<or> gq_isError q \<or> requestedGoalId s = []")
  case True
  then show ?thesis by (auto simp: selection_effect_def)
next
  case False
  show ?thesis
  proof (cases "resolvedGoal q (requestedGoalId s)")
    case (Some g)
    with False show ?thesis by (simp add: selection_effect_def)
  next
    case None
    with False show ?thesis by (simp add: selection_effect_def deleted_goal_requested)
  qed
qed

text \<open>A goal that is already selected is not replaced by its refetched record: after a cancellation the page keeps showing
  the goal as it was, with its cancel button instead of the one that reopens it.\<close>

lemma cancelled_goal_stays:
  assumes "gs_selected s = Some g" "find (\<lambda>h. gl_id h = requestedGoalId s) (gq_items q) = Some g'" "gl_id g = requestedGoalId s"
    and "requestedGoalId s \<noteq> []" "gl_status g' = Some Cancelled" "gl_status g \<noteq> Some Cancelled"
  shows "gs_selected (selection_effect demo q s) = Some g" "lifecycle_shows g l \<noteq> Show_reopen"
proof -
  have "gl_id g' = gl_id g" using assms(2,3) by (auto simp: find_Some_iff)
  with assms show "gs_selected (selection_effect demo q s) = Some g" by (simp add: selection_effect_def resolvedGoal_def)
  show "lifecycle_shows g l \<noteq> Show_reopen" using assms(6) by (simp add: lifecycle_shows_def)
qed

section \<open>The requests of the dialog\<close>

definition goal_body_sound :: "goal_body \<Rightarrow> bool" where
  "goal_body_sound b = (case b of
       Progress_body n day \<Rightarrow> 0 < n \<and> n \<le> max_safe_integer \<and> (\<exists>d. toUtcDateOnly d = Inr day)
     | Reschedule_body day \<Rightarrow> (\<exists>d. toUtcDateOnly d = Inr day)
     | Link_body i \<Rightarrow> i \<noteq> []
     | Transaction_body t \<Rightarrow> 0 < gt_amountMinor t \<and> gt_amountMinor t \<le> max_safe_integer \<and> gt_accountId t \<noteq> []
         \<and> (\<exists>d. toUtcDateOnly d = Inr (gt_occurredAt t)) \<and> gt_transactionType t \<in> {''income'', ''expense'', ''transfer''}
         \<and> (gt_destinationAccountId t = None \<longleftrightarrow> gt_transactionType t \<noteq> ''transfer'') \<and> gt_destinationAccountId t \<noteq> Some [])"


text \<open>A reader of the outputs that follows the keys: between two runs of the preparing effect all keyed requests must carry one
  key, and no key may come back after a later run.\<close>

fun key_step :: "(nat option \<times> nat list) option \<Rightarrow> goal_output \<Rightarrow> (nat option \<times> nat list) option" where
  "key_step None e = None"
| "key_step (Some (cur, used)) Opened = Some (cur, used)"
| "key_step (Some (cur, used)) Prepared = Some (None, used)"
| "key_step (Some (cur, used)) Completed = Some (cur, used)"
| "key_step (Some (cur, used)) (Posted g b None) = Some (cur, used)"
| "key_step (Some (cur, used)) (Posted g b (Some k)) =
     (case cur of Some c \<Rightarrow> if k = c then Some (cur, used) else None
      | None \<Rightarrow> if k \<in> set used then None else Some (Some k, k # used))"

definition goal_output_sound :: "bool \<Rightarrow> goal_output \<Rightarrow> bool" where
  "goal_output_sound demo e = (case e of Posted g b k \<Rightarrow> \<not> demo \<and> goal_body_sound b | _ \<Rightarrow> True)"

definition goal_dialog_inv :: "bool \<Rightarrow> goal_dialog \<Rightarrow> bool" where
  "goal_dialog_inv demo d = (list_all (goal_output_sound demo) (ga_output d) \<and>
     (\<exists>used. foldl key_step (Some (None, [])) (ga_output d) = Some (ga_key d, used) \<and> list_all (\<lambda>k. k < ga_fresh d) used))"

text \<open>The events that can run the preparing effect.\<close>

definition may_prepare :: "goal_event \<Rightarrow> bool" where
  "may_prepare e = (case e of Open_action g m today \<Rightarrow> True | Accounts_given accounts today \<Rightarrow> True | _ \<Rightarrow> False)"

lemma prepared_by_step:
  "count_list (ga_output (goal_dialog_step demo d e)) Prepared \<le> count_list (ga_output d) Prepared + of_bool (may_prepare e)"
proof (cases e)
  case (Goal_input f v)
  then show ?thesis by (cases f) (simp_all add: goal_dialog_step_def set_goal_field_def may_prepare_def)
next
  case Goal_submit
  then show ?thesis by (auto simp: goal_dialog_step_def submit_goal_def execute_goal_def run_attempt_def post_goal_def may_prepare_def
      split: option.splits sum.splits)
next
  case Goal_confirm
  then show ?thesis by (auto simp: goal_dialog_step_def execute_goal_def run_attempt_def post_goal_def may_prepare_def
      split: option.splits sum.splits)
qed (auto simp: goal_dialog_step_def prepare_goal_def end_attempt_def may_prepare_def Let_def split: option.splits)

lemma prepared_by_run:
  "count_list (ga_output (foldl (goal_dialog_step demo) d es)) Prepared
    \<le> count_list (ga_output d) Prepared + length (filter may_prepare es)"
proof (induction es arbitrary: d)
  case (Cons e es)
  from Cons.IH [of "goal_dialog_step demo d e"] prepared_by_step [of demo d e] show ?case by (auto simp: of_bool_def split: if_splits)
qed simp

lemma goal_transaction_types: "goalTransactionType g \<in> {''income'', ''expense'', ''transfer''}"
  by (simp add: goalTransactionType_def)

lemma action_minor_Some: "action_minor s = Some n \<Longrightarrow> 0 < n \<and> n \<le> max_safe_integer"
  by (auto simp: action_minor_def Let_def split: jsnum.splits if_splits)

lemma goal_body_checked:
  assumes "goal_check g m d = None" "goal_request_body g m (case action_minor (ga_amount d) of Some n \<Rightarrow> n | None \<Rightarrow> 0) d = Inr b"
  shows "goal_body_sound b"
proof (cases m)
  case Progress
  then obtain n where "action_minor (ga_amount d) = Some n" using assms(1) by (auto simp: goal_check_def split: if_splits)
  with Progress assms(2) action_minor_Some show ?thesis
    by (auto simp: goal_request_body_def goal_body_sound_def bind_result_def split: sum.splits)
next
  case Goal_transaction
  then obtain n where "action_minor (ga_amount d) = Some n" using assms(1) by (auto simp: goal_check_def split: if_splits)
  with Goal_transaction assms action_minor_Some goal_transaction_types [of g] show ?thesis
    by (auto simp: goal_check_def goal_request_body_def goal_body_sound_def transaction_body_def bind_result_def split: sum.splits if_splits)
next
  case Link_goal
  with assms show ?thesis by (auto simp: goal_check_def goal_request_body_def goal_body_sound_def split: if_splits)
next
  case Reschedule
  with assms show ?thesis by (auto simp: goal_request_body_def goal_body_sound_def bind_result_def split: sum.splits)
qed

lemma prepare_inv: "goal_dialog_inv demo d \<Longrightarrow> goal_dialog_inv demo (prepare_goal today d)"
  by (auto simp: goal_dialog_inv_def prepare_goal_def goal_output_sound_def split: option.splits)

lemma post_inv:
  assumes "goal_dialog_inv demo d" "\<not> demo" "goal_body_sound b"
  shows "goal_dialog_inv demo (post_goal g m b d)"
  using assms by (fastforce simp: goal_dialog_inv_def post_goal_def goal_output_sound_def list_all_iff split: option.splits)

lemma goal_inv_same:
  assumes "goal_dialog_inv demo d" "ga_output e = ga_output d" "ga_key e = ga_key d" "ga_fresh e = ga_fresh d"
  shows "goal_dialog_inv demo e"
  using assms by (simp add: goal_dialog_inv_def)

lemma execute_inv:
  assumes "goal_dialog_inv demo d"
  shows "goal_dialog_inv demo (execute_goal demo d)"
proof (cases "\<exists>g m. ga_goal d = Some g \<and> ga_mode d = Some m \<and> \<not> ga_seenBusy d \<and> goal_check g m d = None")
  case False
  then show ?thesis using goal_inv_same [OF assms] by (auto simp: execute_goal_def split: option.splits)
next
  case True
  then obtain g m where gm: "ga_goal d = Some g" "ga_mode d = Some m" "\<not> ga_seenBusy d" "goal_check g m d = None" by blast
  let ?n = "case action_minor (ga_amount d) of Some n \<Rightarrow> n | None \<Rightarrow> 0"
  have start: "goal_dialog_inv demo (d\<lparr>ga_busy := True, ga_feedback := []\<rparr>)" using goal_inv_same [OF assms] by simp
  show ?thesis
  proof (cases "demo")
    case True
    then show ?thesis using goal_inv_same [OF assms] gm by (simp add: execute_goal_def run_attempt_def)
  next
    case False
    show ?thesis
    proof (cases "goal_request_body g m ?n d")
      case (Inl e)
      then show ?thesis using goal_inv_same [OF assms] gm False by (simp add: execute_goal_def)
    next
      case (Inr b)
      have "goal_dialog_inv demo (post_goal g m b (d\<lparr>ga_busy := True, ga_feedback := []\<rparr>))"
        by (rule post_inv [OF start False goal_body_checked [OF gm(4) Inr]])
      from goal_inv_same [OF this] show ?thesis using gm False Inr by (simp add: execute_goal_def run_attempt_def)
    qed
  qed
qed

lemma end_attempt_inv: "goal_dialog_inv demo d \<Longrightarrow> goal_dialog_inv demo (end_attempt i answer d)"
  by (auto simp: goal_dialog_inv_def end_attempt_def Let_def goal_output_sound_def split: option.splits)

lemma open_inv: "goal_dialog_inv demo d \<Longrightarrow> goal_dialog_inv demo (d\<lparr>ga_goal := x, ga_mode := y\<rparr>)"
  "goal_dialog_inv demo d \<Longrightarrow> goal_dialog_inv demo (d\<lparr>ga_goal := x, ga_mode := y, ga_output := ga_output d @ [Opened]\<rparr>)"
  "goal_dialog_inv demo d \<Longrightarrow> goal_dialog_inv demo (d\<lparr>ga_accounts := z\<rparr>)"
  by (auto simp add: goal_dialog_inv_def goal_output_sound_def)

lemma goal_step_inv: "goal_dialog_inv demo d \<Longrightarrow> goal_dialog_inv demo (goal_dialog_step demo d e)"
proof (cases e)
  case (Goal_input f v)
  assume *: "goal_dialog_inv demo d"
  show ?thesis unfolding Goal_input goal_dialog_step_def
    by (cases f) (auto simp: set_goal_field_def intro: goal_inv_same [OF *])
qed (auto simp: goal_dialog_step_def submit_goal_def Let_def intro: goal_inv_same prepare_inv open_inv execute_inv end_attempt_inv)

text \<open>C32. Whatever happens to the dialog of the goal actions, every request that it posts has a positive safe amount, real days,
  an account, for a transfer a destination, or the identifier of a transaction; the demonstration posts nothing; and all
  keyed requests between two runs of the effect that prepares the fields carry the same idempotency key, which is not used
  after another run. The effect runs at most once for an opening and once for an answer of the accounts.\<close>

theorem goal_actions_sound:
  "list_all (goal_output_sound demo) (ga_output (foldl (goal_dialog_step demo) closed_goal_dialog es)) \<and>
   foldl key_step (Some (None, [])) (ga_output (foldl (goal_dialog_step demo) closed_goal_dialog es)) \<noteq> None \<and>
   count_list (ga_output (foldl (goal_dialog_step demo) closed_goal_dialog es)) Prepared \<le> length (filter may_prepare es)"
proof -
  have "goal_dialog_inv demo (foldl (goal_dialog_step demo) d es)" if "goal_dialog_inv demo d" for d
    using that by (induction es arbitrary: d) (simp_all add: goal_step_inv)
  moreover have "goal_dialog_inv demo closed_goal_dialog" by (simp add: goal_dialog_inv_def closed_goal_dialog_def)
  ultimately have "goal_dialog_inv demo (foldl (goal_dialog_step demo) closed_goal_dialog es)" by blast
  moreover have "ga_output closed_goal_dialog = []" by (simp add: closed_goal_dialog_def)
  ultimately show ?thesis using prepared_by_run [of demo closed_goal_dialog es] by (auto simp: goal_dialog_inv_def)
qed

text \<open>Within one opening, an answer of the accounts that changes the first of them while a request is under way frees the dialog
  and gives the next request another key: the same action can be posted twice.\<close>

lemma accounts_renew_key:
  fixes g :: goal and today :: string
  assumes "js_trim i \<noteq> []" "accounts \<noteq> []"
  defines "d \<equiv> foldl (goal_dialog_step False) closed_goal_dialog [Open_action g Link_goal today, Goal_input Transaction_field i,
      Goal_submit, Goal_render, Accounts_given accounts today, Goal_render, Goal_input Transaction_field i, Goal_submit]"
  shows "ga_output d = [Opened, Prepared, Posted (gl_id g) (Link_body (js_trim i)) (Some 0), Prepared,
      Posted (gl_id g) (Link_body (js_trim i)) (Some 1)]" "ga_running d = [0, 1]"
  using assms(1,2) by (cases accounts; simp add: d_def goal_dialog_step_def closed_goal_dialog_def prepare_goal_def submit_goal_def
      execute_goal_def goal_check_def goal_request_body_def post_goal_def run_attempt_def set_goal_field_def first_account_def Let_def)+

text \<open>An amount as a user writes it is posted to the hundredth.\<close>

lemma action_minor_entered:
  assumes "MONEY_PATTERN s" "js_trim s = s" "0 < entered_minor s" "entered_minor s \<le> 2 ^ 50"
  shows "action_minor s = Some (entered_minor s)"
proof -
  have "number_value s = Fin (fl64 (of_int (entered_minor s) / 100))"
    using parse_number_money [OF assms(1,2)] by (simp add: number_value_def)
  moreover have "math_round (fl64 (fl64 (of_int (entered_minor s) / 100) * 100)) = entered_minor s"
    using toMinor_rounds_back [of "entered_minor s"] assms(3,4) by (simp add: toMinor_def)
  ultimately show ?thesis using assms(3,4) by (simp add: action_minor_def max_safe_integer_def)
qed

text \<open>While a transaction waits for its confirmation the dialog shows no message, also when the confirmation fails.\<close>

lemma confirmed_errors_hidden:
  assumes "ga_mode d = Some Goal_transaction" "ga_confirming d"
  shows "shown_feedback (execute_goal demo d) = []"
proof -
  have "ga_mode (execute_goal demo d) = Some Goal_transaction \<and> ga_confirming (execute_goal demo d)"
    using assms by (auto simp: execute_goal_def run_attempt_def post_goal_def split: option.splits sum.splits)
  then show ?thesis by (simp add: shown_feedback_def)
qed

text \<open>A transfer from an account to itself passes the checks.\<close>

lemma transfer_to_itself:
  assumes "goalTransactionType g = ''transfer''" "ga_accountId d = a" "ga_destinationAccountId d = a" "a \<noteq> []"
    and "action_minor (ga_amount d) = Some n" "toUtcDateOnly (ga_occurredAt d) = Inr day"
  shows "goal_check g Goal_transaction d = None"
    "\<exists>t. goal_request_body g Goal_transaction n d = Inr (Transaction_body t) \<and> gt_destinationAccountId t = Some (gt_accountId t)"
  using assms by (simp_all add: goal_check_def goal_request_body_def transaction_body_def)

end
