(* ===== verification/Calendar.thy ===== *)
theory Calendar
  imports Periods
begin

text \<open>
  The calendar field (web/src/components/date-picker.tsx): the days a month shows, the focus that the keys
  move, the range of days that may be chosen, and the field around it that opens the calendar and hands the
  chosen day to its parent. Rendering throws where a shown month or day is no calendar day; a picker that
  threw is gone. Where the popover is placed, the printed names of months and days, and the markup are left out.
\<close>

section \<open>Definitions\<close>

text \<open>The properties of a render; \<open>pp_today\<close> is \<open>todayDateOnly()\<close> at that time.\<close>

record picker_props =
  pp_value :: string
  pp_min :: "string option"
  pp_max :: "string option"
  pp_disabled :: bool
  pp_clearable :: bool
  pp_today :: string

definition before :: "string \<Rightarrow> string \<Rightarrow> bool" where
  "before a b = (\<not> str_le b a)"

definition clampInitialDate :: "picker_props \<Rightarrow> string" where
  "clampInitialDate p =
     (let chosen = if isDateOnly (Some (pp_value p)) then pp_value p else pp_today p;
          raised = (case pp_min p of Some m \<Rightarrow> if isDateOnly (Some m) \<and> before chosen m then m else chosen | None \<Rightarrow> chosen)
      in (case pp_max p of Some m \<Rightarrow> if isDateOnly (Some m) \<and> before m raised then m else raised | None \<Rightarrow> raised))"

definition isOutsideRange :: "picker_props \<Rightarrow> string \<Rightarrow> bool" where
  "isOutsideRange p v =
     ((case pp_min p of Some m \<Rightarrow> isDateOnly (Some m) \<and> before v m | None \<Rightarrow> False)
      \<or> (case pp_max p of Some m \<Rightarrow> isDateOnly (Some m) \<and> before m v | None \<Rightarrow> False))"

text \<open>\<open>None\<close> as the weekday is the language's NaN, whose sum is no day.\<close>

definition getWeekBoundary :: "string \<Rightarrow> bool \<Rightarrow> js_error + string" where
  "getWeekBoundary v atEnd = bind_result (dateOnlyWeekday v) (\<lambda>weekday. case weekday of None \<Rightarrow> Inl TypeError
     | Some w \<Rightarrow> addDateOnlyDays v (if atEnd then 6 - w else - w))"

definition getVisibleCalendarDays :: "string \<Rightarrow> js_error + string list" where
  "getVisibleCalendarDays month = bind_result (startOfDateOnlyMonth month)
     (\<lambda>monthStart. bind_result (getWeekBoundary monthStart False)
       (\<lambda>firstVisible. map_result (\<lambda>index. addDateOnlyDays firstVisible (int index)) [0..<42]))"

record calendar =
  visibleMonth :: string
  focusedDate :: string
  focusedDateRef :: string

text \<open>The state at mounting and the effect of opening agree.\<close>

definition opened_calendar :: "picker_props \<Rightarrow> js_error + calendar" where
  "opened_calendar p = (let d = clampInitialDate p in
     bind_result (startOfDateOnlyMonth d) (\<lambda>m. Inr \<lparr>visibleMonth = m, focusedDate = d, focusedDateRef = d\<rparr>))"

text \<open>A render: the days, the months that the two buttons name, and a label for each, which needs a calendar day.\<close>

record rendered =
  rd_days :: "string list"
  rd_previous :: string
  rd_next :: string

definition render_calendar :: "string \<Rightarrow> js_error + rendered" where
  "render_calendar month =
     bind_result (getVisibleCalendarDays month) (\<lambda>days.
     bind_result (addDateOnlyMonths month (- 1)) (\<lambda>previous.
     bind_result (addDateOnlyMonths month 1) (\<lambda>following.
     bind_result (map_result dateOnlyToUtcDate ([previous, month, following] @ days)) (\<lambda>labels.
       Inr \<lparr>rd_days = days, rd_previous = previous, rd_next = following\<rparr>))))"

text \<open>One day of the grid.\<close>

record cell =
  cl_disabled :: bool
  cl_currentMonth :: bool
  cl_selected :: bool
  cl_today :: bool
  cl_tabIndex :: int
  cl_text :: string

definition day_cell :: "picker_props \<Rightarrow> calendar \<Rightarrow> string \<Rightarrow> cell" where
  "day_cell p c d = \<lparr>cl_disabled = isOutsideRange p d, cl_currentMonth = (take 7 d = take 7 (visibleMonth c)),
     cl_selected = (isDateOnly (Some (pp_value p)) \<and> d = pp_value p), cl_today = (d = pp_today p),
     cl_tabIndex = (if d = focusedDate c then 0 else - 1),
     cl_text = (case drop (length d - 2) d of a # rest \<Rightarrow> if a = CHR ''0'' then rest else a # rest | [] \<Rightarrow> [])\<rparr>"

text \<open>The setters of the focus run before the start of the month is computed, which can throw.\<close>

definition moveFocus :: "picker_props \<Rightarrow> string \<Rightarrow> calendar \<Rightarrow> calendar" where
  "moveFocus p nextDay c =
     (if isOutsideRange p nextDay then c
      else (let moved = c\<lparr>focusedDateRef := nextDay, focusedDate := nextDay\<rparr>
            in (case startOfDateOnlyMonth nextDay of Inl e \<Rightarrow> moved | Inr m \<Rightarrow> moved\<lparr>visibleMonth := m\<rparr>)))"

definition key_target :: "string \<Rightarrow> string \<Rightarrow> (js_error + string) option" where
  "key_target key d =
     (if key = ''ArrowLeft'' then Some (addDateOnlyDays d (- 1))
      else if key = ''ArrowRight'' then Some (addDateOnlyDays d 1)
      else if key = ''ArrowUp'' then Some (addDateOnlyDays d (- 7))
      else if key = ''ArrowDown'' then Some (addDateOnlyDays d 7)
      else if key = ''Home'' then Some (getWeekBoundary d False)
      else if key = ''End'' then Some (getWeekBoundary d True)
      else if key = ''PageUp'' then Some (addDateOnlyMonths d (- 1))
      else if key = ''PageDown'' then Some (addDateOnlyMonths d 1)
      else None)"

text \<open>The field: whether the calendar is open, its state, and the values handed to the parent, each with the
  properties of the render that its handler belongs to.\<close>

record picker =
  pk_open :: bool
  pk_calendar :: calendar
  pk_sent :: "(picker_props \<times> string) list"

definition selectDate :: "picker_props \<Rightarrow> string \<Rightarrow> picker \<Rightarrow> picker" where
  "selectDate p nextDay k = (if isOutsideRange p nextDay then k
     else k\<lparr>pk_sent := pk_sent k @ [(p, nextDay)], pk_open := False\<rparr>)"

definition onDayKeyDown :: "picker_props \<Rightarrow> string \<Rightarrow> string \<Rightarrow> picker \<Rightarrow> picker" where
  "onDayKeyDown p key d k =
     (case key_target key d of
        Some (Inr target) \<Rightarrow> k\<lparr>pk_calendar := moveFocus p target (pk_calendar k)\<rparr>
      | Some (Inl e) \<Rightarrow> k
      | None \<Rightarrow> if key = ''Enter'' \<or> key = '' '' then selectDate p (focusedDateRef (pk_calendar k)) k else k)"

text \<open>Both month buttons: the month is shown and then the focus follows if it may.\<close>

definition show_month :: "picker_props \<Rightarrow> string \<Rightarrow> picker \<Rightarrow> picker" where
  "show_month p month k = k\<lparr>pk_calendar := moveFocus p month ((pk_calendar k)\<lparr>visibleMonth := month\<rparr>)\<rparr>"

text \<open>\<open>Key\<close> is pressed on the day that has the focus, which the effect after a render gives to the focused day if the
  grid shows it as an enabled button; \<open>Given\<close> is the effect when the parent renders other values.\<close>

datatype picker_event = Trigger | Dismiss | Clear | Given | Day_click string | Key string | Previous_month | Next_month

definition inside_calendar :: "picker_props \<Rightarrow> rendered \<Rightarrow> picker_event \<Rightarrow> picker \<Rightarrow> picker" where
  "inside_calendar p r e k =
     (case e of
        Day_click d \<Rightarrow> if d \<in> set (rd_days r) \<and> \<not> isOutsideRange p d then selectDate p d k else k
      | Key key \<Rightarrow> (let d = focusedDate (pk_calendar k)
          in if d \<in> set (rd_days r) \<and> \<not> isOutsideRange p d then onDayKeyDown p key d k else k)
      | Previous_month \<Rightarrow> show_month p (rd_previous r) k
      | Next_month \<Rightarrow> show_month p (rd_next r) k
      | _ \<Rightarrow> k)"

definition picker_step :: "picker_props \<Rightarrow> picker_event \<Rightarrow> picker \<Rightarrow> js_error + picker" where
  "picker_step p e k =
     (case e of
        Trigger \<Rightarrow> if pp_disabled p \<or> pk_open k then Inr k
          else bind_result (opened_calendar p) (\<lambda>c. Inr (k\<lparr>pk_open := True, pk_calendar := c\<rparr>))
      | Dismiss \<Rightarrow> Inr (k\<lparr>pk_open := False\<rparr>)
      | Clear \<Rightarrow> Inr (if pp_clearable p \<and> isDateOnly (Some (pp_value p)) \<and> \<not> pp_disabled p
          then k\<lparr>pk_sent := pk_sent k @ [(p, [])]\<rparr> else k)
      | Given \<Rightarrow> if pk_open k then bind_result (opened_calendar p) (\<lambda>c. Inr (k\<lparr>pk_calendar := c\<rparr>)) else Inr k
      | _ \<Rightarrow> if pk_open k then bind_result (render_calendar (visibleMonth (pk_calendar k))) (\<lambda>r. Inr (inside_calendar p r e k))
          else Inr k)"

fun picker_run :: "(picker_props \<times> picker_event) list \<Rightarrow> picker \<Rightarrow> js_error + picker" where
  "picker_run [] k = Inr k"
| "picker_run ((p, e) # es) k = bind_result (picker_step p e k) (picker_run es)"

definition closed_picker :: picker where
  "closed_picker = \<lparr>pk_open = False, pk_calendar = \<lparr>visibleMonth = [], focusedDate = [], focusedDateRef = []\<rparr>, pk_sent = []\<rparr>"


section \<open>The months that can be rendered\<close>

text \<open>A month has a rendering when its neighbours have years of four digits.\<close>

definition roomy :: "int \<Rightarrow> int \<Rightarrow> bool" where
  "roomy y m = (1000 \<le> y \<and> y \<le> 9999 \<and> (y, m) \<noteq> (1000, 1) \<and> (y, m) \<noteq> (9999, 12))"

lemma first_months:
  "addDateOnlyMonths (month_start 1000 1) (- 1) = Inr ''999-12-01''"
  "addDateOnlyMonths (month_start 9999 12) 1 = Inr ''10000-01-01''"
proof -
  have p: "partsFor (month_start 1000 1) = Some (1000, 1, 1)" "partsFor (month_start 9999 12) = Some (9999, 12, 1)"
    by (simp_all add: month_start_def parts_printed valid_civil_first)
  have e: "dateOnlyFromParts (Some 999) (Some 12) (Some 1) = ''999-12-01''"
    "dateOnlyFromParts (Some 10000) (Some 1) (Some 1) = ''10000-01-01''"
    by (simp_all add: dateOnlyFromParts_def field_string_def pad_def string_eval)
  have "(0 + - 1) div 12 = (- 1 :: int)" "(0 + - 1) mod 12 = (11 :: int)" by simp_all
  with addMonths_wide [OF p(1), of 999 "- 1" 11] e(1)
  show "addDateOnlyMonths (month_start 1000 1) (- 1) = Inr ''999-12-01''" by (simp add: days_in_month_def)
  from addMonths_wide [OF p(2), of 10000 1 0] e(2)
  show "addDateOnlyMonths (month_start 9999 12) 1 = Inr ''10000-01-01''" by (simp add: days_in_month_def)
qed

lemma labels_valid: "map_result dateOnlyToUtcDate xs = Inr ys \<Longrightarrow> x \<in> set xs \<Longrightarrow> isDateOnly (Some x)"
proof (induction xs arbitrary: ys)
  case (Cons a xs)
  then show ?case by (auto simp: dateOnlyToUtcDate_def isDateOnly_def split: sum.splits option.splits)
qed simp

lemma rendered_parts:
  assumes "render_calendar v = Inr r"
  shows "getVisibleCalendarDays v = Inr (rd_days r)" "addDateOnlyMonths v (- 1) = Inr (rd_previous r)"
    "addDateOnlyMonths v 1 = Inr (rd_next r)" "isDateOnly (Some v)" "isDateOnly (Some (rd_previous r))"
    "isDateOnly (Some (rd_next r))" "\<And>d. d \<in> set (rd_days r) \<Longrightarrow> isDateOnly (Some d)"
proof -
  obtain days a b l where e: "getVisibleCalendarDays v = Inr days" "addDateOnlyMonths v (- 1) = Inr a"
    "addDateOnlyMonths v 1 = Inr b" "map_result dateOnlyToUtcDate ([a, v, b] @ days) = Inr l"
    "r = \<lparr>rd_days = days, rd_previous = a, rd_next = b\<rparr>"
    using assms by (auto simp: render_calendar_def bind_result_def split: sum.splits)
  note v = labels_valid [OF e(4)]
  show "getVisibleCalendarDays v = Inr (rd_days r)" "addDateOnlyMonths v (- 1) = Inr (rd_previous r)"
    "addDateOnlyMonths v 1 = Inr (rd_next r)" using e by simp_all
  show "isDateOnly (Some v)" "isDateOnly (Some (rd_previous r))" "isDateOnly (Some (rd_next r))"
    using v e by simp_all
  show "\<And>d. d \<in> set (rd_days r) \<Longrightarrow> isDateOnly (Some d)" using v e by simp
qed

lemma render_roomy:
  assumes "render_calendar (month_start y m) = Inr r" "partsFor s = Some (y, m, d)"
  shows "roomy y m"
proof -
  note r = rendered_parts [OF assms(1)] and p = partsFor_Some [OF assms(2)]
  have m: "1 \<le> m" "m \<le> 12" "0 \<le> m" "m < 100" using p(7) by (simp_all add: valid_civil_def)
  have y: "1000 \<le> y"
    using match_printed [of y m 1] r(4) m by (simp add: isDateOnly_valid month_start_def)
  have "\<not> isDateOnly (Some ''999-12-01'')" "\<not> isDateOnly (Some ''10000-01-01'')"
    by (simp_all add: isDateOnly_valid match_eval)
  with r(2,3,5,6) first_months have "(y, m) \<noteq> (1000, 1)" "(y, m) \<noteq> (9999, 12)" by auto
  with y p(6) show ?thesis by (simp add: roomy_def)
qed

lemma roomy_days:
  assumes "partsFor s = Some (y, m, d)" "roomy y m" "\<bar>k\<bar> \<le> 20"
  shows "four_digit_day (make_day y (m - 1) d + k)"
proof -
  note p = partsFor_Some [OF assms(1)]
  have m: "0 \<le> m - 1" "m - 1 < 12" "1 \<le> d" "d \<le> days_in_month (leap_days y) (m - 1)" using p(7) by (simp_all add: valid_civil_def)
  have e: "make_day y (m - 1) d = day_from_year y + days_before (leap_days y) (m - 1) + d - 1"
    using m by (simp add: make_day_def)
  have l: "0 \<le> leap_days y" "leap_days y \<le> 1" by (rule leap_days_range)+
  have b: "0 \<le> days_before (leap_days y) (m - 1)" "m \<noteq> 1 \<Longrightarrow> 31 \<le> days_before (leap_days y) (m - 1)"
    "days_before (leap_days y) (m - 1) + d \<le> 365 + leap_days y"
    "m \<noteq> 12 \<Longrightarrow> days_before (leap_days y) (m - 1) + d \<le> 334 + leap_days y"
    using month_cases [OF m(1,2)] m l by (elim disjE; simp add: days_before_def days_in_month_def)+
  have lo: "day_from_year 1000 + 20 \<le> make_day y (m - 1) d"
  proof (cases "y = 1000")
    case True
    then show ?thesis using assms(2) b(2) m(3) e by (simp add: roomy_def)
  next
    case False
    then have "day_from_year 1001 \<le> day_from_year y" using assms(2) by (intro day_from_year_mono) (simp add: roomy_def)
    then show ?thesis using day_from_year_succ [of 1000] leap_days_range [of 1000] b(1) m(3) e by simp
  qed
  have hi: "make_day y (m - 1) d + 20 < day_from_year 10000"
  proof (cases "y = 9999")
    case True
    then show ?thesis using assms(2) b(4) day_from_year_succ [of 9999] e by (simp add: roomy_def)
  next
    case False
    then have "day_from_year (y + 1) \<le> day_from_year 9999" using assms(2) by (intro day_from_year_mono) (simp add: roomy_def)
    then show ?thesis using day_from_year_succ [of y] day_from_year_succ [of 9999] leap_days_range [of 9999] b(3) e by simp
  qed
  show ?thesis unfolding four_digit_day_def
    using lo hi assms(3) year_of_day_between(1) [of 1000 "make_day y (m - 1) d + k"]
      year_of_day_between(2) [of "make_day y (m - 1) d + k" 9999] by (simp add: abs_le_iff)
qed

lemma weekday_of_day: "four_digit_day n \<Longrightarrow> dateOnlyWeekday (day_string n) = Inr (Some ((4 + n) mod 7))"
  by (simp add: dateOnlyWeekday_def to_date_day_string utc_day_def)

lemma day_string_valid: "four_digit_day n \<Longrightarrow> isDateOnly (Some (day_string n))"
  by (simp add: isDateOnly_def partsFor_day_string)

lemma roomy_moves:
  assumes p: "partsFor s = Some (y, m, d)" and r: "roomy y m"
  shows "\<bar>k\<bar> \<le> 20 \<Longrightarrow> \<exists>u. addDateOnlyDays s k = Inr u \<and> isDateOnly (Some u)"
    "\<exists>u. getWeekBoundary s atEnd = Inr u \<and> isDateOnly (Some u)"
    "k = 1 \<or> k = - 1 \<Longrightarrow> \<exists>u. addDateOnlyMonths s k = Inr u \<and> isDateOnly (Some u)"
proof -
  have y: "1000 \<le> y" using r by (simp add: roomy_def)
  note n = day_string_of [OF p y]
  let ?n = "make_day y (m - 1) d"
  have add: "addDateOnlyDays s k = Inr (day_string (?n + k)) \<and> isDateOnly (Some (day_string (?n + k)))" if "\<bar>k\<bar> \<le> 20" for k
    using addDays_day [OF n(2) roomy_days [OF p r that]] n(1) day_string_valid [OF roomy_days [OF p r that]] by simp
  then show "\<bar>k\<bar> \<le> 20 \<Longrightarrow> \<exists>u. addDateOnlyDays s k = Inr u \<and> isDateOnly (Some u)" by blast
  have "\<bar>if atEnd then 6 - (4 + ?n) mod 7 else - ((4 + ?n) mod 7)\<bar> \<le> 20" by auto
  from add [OF this] weekday_of_day [OF n(2)] n(1)
  show "\<exists>u. getWeekBoundary s atEnd = Inr u \<and> isDateOnly (Some u)" by (auto simp: getWeekBoundary_def)
  have m: "1 \<le> m" "m \<le> 12" "1 \<le> d" using partsFor_Some(7) [OF p] by (simp_all add: valid_civil_def)
  show "\<exists>u. addDateOnlyMonths s k = Inr u \<and> isDateOnly (Some u)" if k: "k = 1 \<or> k = - 1"
  proof -
    let ?y = "y + (m - 1 + k) div 12" and ?m = "(m - 1 + k) mod 12"
    have y': "1000 \<le> ?y" "?y \<le> 9999" using k m r by (auto simp: roomy_def)
    have dim: "28 \<le> days_in_month (leap_days ?y) ?m" using leap_days_range [of ?y] by (simp add: days_in_month_def)
    have "valid_civil ?y (?m + 1) (min d (days_in_month (leap_days ?y) ?m))"
      using m(3) dim by (simp add: valid_civil_def min_def)
    with parts_printed [OF y' this] addMonths_print [OF p y refl refl y'] show ?thesis by (auto simp: isDateOnly_def)
  qed
qed

lemma key_target_valid:
  assumes "partsFor s = Some (y, m, d)" "roomy y m" "key_target key s = Some t"
  shows "\<exists>u. t = Inr u \<and> isDateOnly (Some u)"
  using assms(3) roomy_moves [OF assms(1,2)] by (auto simp: key_target_def split: if_splits)


section \<open>What can be picked\<close>

text \<open>The invariant of an open calendar: the focus is a calendar day, and its month is shown or can be shown.\<close>

definition focus_valid :: "picker \<Rightarrow> bool" where
  "focus_valid k = (pk_open k \<longrightarrow> (let c = pk_calendar k in focusedDateRef c = focusedDate c \<and> isDateOnly (Some (focusedDate c))
     \<and> (\<exists>v. startOfDateOnlyMonth (focusedDate c) = Inr v \<and> (visibleMonth c = v \<or> (\<exists>r. render_calendar v = Inr r)))))"

definition sent_allowed :: "picker_props \<times> string \<Rightarrow> bool" where
  "sent_allowed e = (snd e = [] \<or> (isDateOnly (Some (snd e)) \<and> \<not> isOutsideRange (fst e) (snd e)))"

lemma start_of_valid: "isDateOnly (Some d) \<Longrightarrow> \<exists>v. startOfDateOnlyMonth d = Inr v"
  using startOf_parts by (fastforce simp: isDateOnly_def)

lemma start_of_Inr: "startOfDateOnlyMonth d = Inr v \<Longrightarrow> isDateOnly (Some d)"
  by (auto simp: startOfDateOnlyMonth_def dateOnlyToUtcDate_def isDateOnly_def split: option.splits)

lemma moveFocus_valid:
  assumes "isDateOnly (Some t)" "\<not> isOutsideRange p t"
  shows "focus_valid (k\<lparr>pk_calendar := moveFocus p t c\<rparr>)"
  using start_of_valid [OF assms(1)] assms by (auto simp: focus_valid_def moveFocus_def)

lemma opened_valid: "opened_calendar p = Inr c \<Longrightarrow> focus_valid (k\<lparr>pk_calendar := c\<rparr>)"
  using start_of_Inr [of "clampInitialDate p"] by (auto simp: opened_calendar_def focus_valid_def Let_def bind_result_def split: sum.splits)

lemma selectDate_valid:
  "focus_valid k \<Longrightarrow> focus_valid (selectDate p d k)"
  "isDateOnly (Some d) \<Longrightarrow> list_all sent_allowed (pk_sent k) \<Longrightarrow> list_all sent_allowed (pk_sent (selectDate p d k))"
  by (simp_all add: selectDate_def focus_valid_def sent_allowed_def)

text \<open>The month of the focus is roomy whenever a key can reach it.\<close>

lemma focus_roomy:
  assumes "focus_valid k" "pk_open k" "render_calendar (visibleMonth (pk_calendar k)) = Inr r"
  obtains y m d where "partsFor (focusedDate (pk_calendar k)) = Some (y, m, d)" "roomy y m"
proof -
  from assms(1,2) obtain v where v: "isDateOnly (Some (focusedDate (pk_calendar k)))"
    "startOfDateOnlyMonth (focusedDate (pk_calendar k)) = Inr v" "visibleMonth (pk_calendar k) = v \<or> (\<exists>r. render_calendar v = Inr r)"
    by (auto simp: focus_valid_def Let_def)
  obtain y m d where p: "partsFor (focusedDate (pk_calendar k)) = Some (y, m, d)" using v(1) by (auto simp: isDateOnly_def)
  with v startOf_parts [OF p] assms(3) obtain r' where "render_calendar (month_start y m) = Inr r'" by auto
  from that [OF p render_roomy [OF this p]] show thesis .
qed

lemma month_start_start: "partsFor s = Some (y, m, d) \<Longrightarrow> 1000 \<le> y \<Longrightarrow> startOfDateOnlyMonth (month_start y m) = Inr (month_start y m)"
  by (rule startOf_parts [OF parts_month_start])

lemma show_month_valid:
  assumes "focus_valid k" "pk_open k" "render_calendar (visibleMonth (pk_calendar k)) = Inr r" "isDateOnly (Some t)"
  shows "focus_valid (show_month p t k)"
proof (cases "isOutsideRange p t")
  case True
  from assms(1-3) show ?thesis by (auto simp: show_month_def moveFocus_def True focus_valid_def Let_def)
next
  case False
  then show ?thesis unfolding show_month_def by (rule moveFocus_valid [OF assms(4)])
qed

lemma key_valid:
  assumes "focus_valid k" "pk_open k" "render_calendar (visibleMonth (pk_calendar k)) = Inr r" "list_all sent_allowed (pk_sent k)"
  shows "focus_valid (onDayKeyDown p key (focusedDate (pk_calendar k)) k)
    \<and> list_all sent_allowed (pk_sent (onDayKeyDown p key (focusedDate (pk_calendar k)) k))"
proof -
  from assms(1,2) have f: "isDateOnly (Some (focusedDate (pk_calendar k)))" "focusedDateRef (pk_calendar k) = focusedDate (pk_calendar k)"
    by (simp_all add: focus_valid_def Let_def)
  obtain y m d where p: "partsFor (focusedDate (pk_calendar k)) = Some (y, m, d)" "roomy y m"
    using assms(1-3) by (rule focus_roomy)
  show ?thesis
  proof (cases "key_target key (focusedDate (pk_calendar k))")
    case None
    then show ?thesis using assms(1,4) f by (simp add: onDayKeyDown_def selectDate_valid)
  next
    case (Some t)
    then obtain u where u: "t = Inr u" "isDateOnly (Some u)" using key_target_valid [OF p] by blast
    then show ?thesis
      using Some assms(1,4) moveFocus_valid [OF u(2), of p "pk_calendar k" k]
      by (cases "isOutsideRange p u") (simp_all add: onDayKeyDown_def moveFocus_def)
  qed
qed

lemma picker_step_valid:
  assumes "picker_step p e k = Inr k'" "focus_valid k" "list_all sent_allowed (pk_sent k)"
  shows "focus_valid k' \<and> list_all sent_allowed (pk_sent k')"
proof (cases "e \<in> {Trigger, Dismiss, Clear, Given} \<or> \<not> pk_open k")
  case True
  then show ?thesis
    using assms opened_valid [of p _ "k\<lparr>pk_open := True\<rparr>"] opened_valid [of p _ k]
    by (cases e) (auto simp: picker_step_def bind_result_def focus_valid_def sent_allowed_def split: if_splits sum.splits)
next
  case False
  then obtain r where r: "render_calendar (visibleMonth (pk_calendar k)) = Inr r" and k': "k' = inside_calendar p r e k" and o: "pk_open k"
    using assms(1) by (cases e) (auto simp: picker_step_def bind_result_def split: sum.splits)
  note v = rendered_parts [OF r]
  show ?thesis
    using False assms(2,3) key_valid [OF assms(2) o r assms(3)] show_month_valid [OF assms(2) o r v(5)]
      show_month_valid [OF assms(2) o r v(6)] selectDate_valid v(7)
    by (cases e) (auto simp: k' inside_calendar_def Let_def show_month_def)
qed

lemma picker_run_valid:
  "picker_run es k = Inr k' \<Longrightarrow> focus_valid k \<Longrightarrow> list_all sent_allowed (pk_sent k) \<Longrightarrow> list_all sent_allowed (pk_sent k')"
proof (induction es arbitrary: k)
  case (Cons e es)
  obtain p a where e: "e = (p, a)" by (cases e)
  with Cons.prems(1) obtain k1 where "picker_step p a k = Inr k1" "picker_run es k1 = Inr k'"
    by (auto simp: bind_result_def split: sum.splits)
  with Cons.IH picker_step_valid Cons.prems(2,3) show ?case by blast
qed simp

text \<open>Whatever is clicked and pressed, and however the parent changes the value and the limits meanwhile, every value that
  the calendar field hands to its parent is empty or a day of the calendar that lies within the limits of that time.\<close>

theorem picked_days_allowed:
  "case picker_run es closed_picker of Inl e \<Rightarrow> True | Inr k \<Rightarrow> list_all sent_allowed (pk_sent k)"
  using picker_run_valid [of es closed_picker]
  by (auto simp: closed_picker_def focus_valid_def split: sum.splits)

section \<open>The days that are shown\<close>

lemma grid_days:
  assumes "1 \<le> m" "m \<le> 12" "1001 \<le> y" "y \<le> 9998"
  defines "a \<equiv> make_day y (m - 1) 1" and "w \<equiv> (4 + make_day y (m - 1) 1) mod 7"
  shows "getVisibleCalendarDays (month_start y m) = Inr (map (\<lambda>i. day_string (a - w + int i)) [0..<42])"
proof -
  have p: "partsFor (month_start y m) = Some (y, m, 1)"
    using parts_printed [OF _ _ valid_civil_first [OF assms(1,2)], of y] assms(3,4) by (simp add: month_start_def)
  have y: "1000 \<le> y" using assms by simp
  have s: "month_start y m = day_string a" "year_of_day a = y" using day_string_of [OF p y] by (simp_all add: a_def)
  have four: "four_digit_day (a + k)" if "\<bar>k\<bar> \<le> 300" for k using near_days [of a k] that s assms by simp
  have w: "0 \<le> w" "w \<le> 6" using pos_mod_bound [of 7 "4 + a"] by (simp_all add: w_def a_def)
  have a0: "four_digit_day a" using four [of 0] by simp
  have b: "getWeekBoundary (day_string a) False = Inr (day_string (a - w))"
    using addDays_day [OF a0, of "- w"] four [of "- w"] w weekday_of_day [OF a0] by (simp add: getWeekBoundary_def w_def a_def)
  have "map_result (\<lambda>index. addDateOnlyDays (day_string (a - w)) (int index)) [0..<42] = Inr (map (\<lambda>i. day_string (a - w + int i)) [0..<42])"
  proof (rule map_result_total, rule ballI)
    fix i assume "i \<in> set [0..<42]"
    then have "i < 42" by simp
    moreover have e: "a - w + int i = a + (int i - w)" by simp
    ultimately have "four_digit_day (a - w)" "four_digit_day (a - w + int i)"
      unfolding e using four [of "- w"] four [of "int i - w"] w by simp_all
    then show "addDateOnlyDays (day_string (a - w)) (int i) = Inr (day_string (a - w + int i))" by (rule addDays_day)
  qed
  then show ?thesis
    using startOf_parts [OF p] b by (simp add: getVisibleCalendarDays_def s)
qed

lemma day_string_inj: "four_digit_day a \<Longrightarrow> four_digit_day b \<Longrightarrow> day_string a = day_string b \<longleftrightarrow> a = b"
  using str_le_days [of a b] str_le_days [of b a] by auto

text \<open>C28. A month is shown as six weeks from Sunday to Saturday without a gap or a repetition, and with each of its days, for
  every month of the years 1001 to 9998.\<close>

theorem calendar_grid_correct:
  assumes "1 \<le> m" "m \<le> 12" "1001 \<le> y" "y \<le> 9998"
  shows "\<exists>a. getVisibleCalendarDays (month_start y m) = Inr (map (\<lambda>i. day_string (a + int i)) [0..<42]) \<and>
    dateOnlyWeekday (day_string a) = Inr (Some 0) \<and> distinct (map (\<lambda>i. day_string (a + int i)) [0..<42]) \<and>
    a \<le> make_day y (m - 1) 1 \<and> make_day y m 1 \<le> a + 42"
proof (intro exI conjI)
  let ?f = "make_day y (m - 1) 1"
  let ?a = "?f - (4 + ?f) mod 7"
  show "getVisibleCalendarDays (month_start y m) = Inr (map (\<lambda>i. day_string (?a + int i)) [0..<42])"
    by (rule grid_days [OF assms])
  have p: "partsFor (month_start y m) = Some (y, m, 1)"
    using parts_printed [OF _ _ valid_civil_first [OF assms(1,2)], of y] assms(3,4) by (simp add: month_start_def)
  have "year_of_day ?f = y" using day_string_of(3) [OF p] assms(3) by simp
  then have four: "four_digit_day (?f + k)" if "\<bar>k\<bar> \<le> 300" for k using near_days [of ?f k] that assms by simp
  have w: "0 \<le> (4 + ?f) mod 7" "(4 + ?f) mod 7 \<le> 6" using pos_mod_bound [of 7 "4 + ?f"] by simp_all
  show "dateOnlyWeekday (day_string ?a) = Inr (Some 0)"
  proof -
    have "4 + (?f - (4 + ?f) mod 7) = 7 * ((4 + ?f) div 7)" using minus_mod_eq_mult_div [of "4 + ?f" 7] by linarith
    then have "(4 + (?f - (4 + ?f) mod 7)) mod 7 = 0" by (simp only: mod_mult_self1_is_0)
    with weekday_of_day [OF four [of "- ((4 + ?f) mod 7)"]] w show ?thesis by simp
  qed
  have "four_digit_day (?a + int i)" if "i < 42" for i
  proof -
    have e: "?a + int i = ?f + (int i - (4 + ?f) mod 7)" by simp
    show ?thesis unfolding e using w that by (intro four) simp
  qed
  then show "distinct (map (\<lambda>i. day_string (?a + int i)) [0..<42])"
    by (auto simp: distinct_map inj_on_def day_string_inj)
  show "?a \<le> ?f" using w by simp
  have "make_day y m 1 = make_day y (m - 1) (days_in_month (leap_days y) (m - 1)) + 1"
    using first_of_next_month [of "m - 1" y] assms(1,2) make_day_add [of y m 0 1] by simp
  also have "\<dots> \<le> ?f + 31"
    using make_day_add [of y "m - 1" 1 "days_in_month (leap_days y) (m - 1) - 1"] leap_days_range [of y] by (simp add: days_in_month_def)
  finally show "make_day y m 1 \<le> ?a + 42" using w by simp
qed


theorem calendar_grid_correct_witness:
  "\<exists>a. getVisibleCalendarDays (month_start 2026 2) = Inr (map (\<lambda>i. day_string (a + int i)) [0..<42]) \<and>
    dateOnlyWeekday (day_string a) = Inr (Some 0) \<and> distinct (map (\<lambda>i. day_string (a + int i)) [0..<42]) \<and>
    a \<le> make_day 2026 (2 - 1) 1 \<and> make_day 2026 2 1 \<le> a + 42"
  by (rule calendar_grid_correct) simp_all

section \<open>What the keys reach\<close>

lemma str_le_trans: "str_le s t \<Longrightarrow> str_le t u \<Longrightarrow> str_le s u"
proof (induction s t arbitrary: u rule: str_le.induct)
  case (3 c s d t)
  then show ?case by (cases u) auto
qed auto

definition inner_day :: "int \<Rightarrow> bool" where
  "inner_day n = (1001 \<le> year_of_day n \<and> year_of_day n \<le> 9998)"

definition focus_on :: "int \<Rightarrow> calendar" where
  "focus_on n = \<lparr>visibleMonth = month_start (year_of_day n) (month_of_day n + 1),
     focusedDate = day_string n, focusedDateRef = day_string n\<rparr>"

lemma inner_four: "inner_day n \<Longrightarrow> \<bar>k\<bar> \<le> 300 \<Longrightarrow> four_digit_day (n + k)"
  unfolding inner_day_def by (elim conjE) (rule near_days)

lemma inner_parts: "inner_day n \<Longrightarrow> partsFor (day_string n) = Some (year_of_day n, month_of_day n + 1, date_of_day n)"
  using inner_four [of n 0] by (simp add: partsFor_day_string)

lemma inner_between: "inner_day a \<Longrightarrow> inner_day b \<Longrightarrow> a \<le> i \<Longrightarrow> i \<le> b \<Longrightarrow> inner_day i"
  unfolding inner_day_def
  using year_of_day_between [of 1001 a] year_of_day_between [of b 9998] year_of_day_between [of 1001 i] year_of_day_between [of i 9998]
  by auto

text \<open>Limits leave an interval of days.\<close>

lemma inside_between:
  assumes "inner_day a" "inner_day b" "a \<le> i" "i \<le> b" "\<not> isOutsideRange p (day_string a)" "\<not> isOutsideRange p (day_string b)"
  shows "\<not> isOutsideRange p (day_string i)"
proof -
  have "inner_day i" by (rule inner_between [OF assms(1-4)])
  then have "str_le (day_string a) (day_string i)" "str_le (day_string i) (day_string b)"
    using str_le_days inner_four [of _ 0] assms(1-4) by simp_all
  then show ?thesis
    using assms(5,6) str_le_trans by (auto simp: isOutsideRange_def before_def split: option.splits)
qed

text \<open>The month of an inner day is rendered, with that day in the grid.\<close>

lemma inner_rendered:
  assumes "inner_day n"
  obtains r where "render_calendar (visibleMonth (focus_on n)) = Inr r" "day_string n \<in> set (rd_days r)"
proof -
  let ?y = "year_of_day n" and ?m = "month_of_day n + 1"
  have m: "1 \<le> ?m" "?m \<le> 12" using civil_of_day [of n] by simp_all
  have y: "1001 \<le> ?y" "?y \<le> 9998" "1000 \<le> ?y" using assms by (simp_all add: inner_day_def)
  have p: "partsFor (month_start ?y ?m) = Some (?y, ?m, 1)"
    using parts_printed [OF _ _ valid_civil_first [OF m], of ?y] y by (simp add: month_start_def)
  have roomy: "roomy ?y ?m" using y by (simp add: roomy_def)
  let ?f = "make_day ?y (?m - 1) 1"
  let ?a = "?f - (4 + ?f) mod 7"
  note g = grid_days [OF m y(1,2)]
  have "?f \<le> n" "n \<le> ?f + 30"
    using make_day_add [of ?y "?m - 1" 1 "date_of_day n - 1"] make_day_civil [of n] civil_of_day [of n] leap_days_range [of ?y]
    by (auto simp: days_in_month_def split: if_splits)
  moreover have w: "0 \<le> (4 + ?f) mod 7" "(4 + ?f) mod 7 \<le> 6" using pos_mod_bound [of 7 "4 + ?f"] by simp_all
  ultimately have "0 \<le> n - ?a" "n - ?a < 42" by linarith+
  then have "nat (n - ?a) \<in> set [0..<42]" "?a + int (nat (n - ?a)) = n" by simp_all
  from imageI [OF this(1), of "\<lambda>i. day_string (?a + int i)"] this(2)
  have shown: "day_string n \<in> set (map (\<lambda>i. day_string (?a + int i)) [0..<42])" by (simp only: set_map)
  have fm: "inner_day ?f" using day_string_of(3) [OF p y(3)] y by (simp add: inner_day_def)
  have days: "isDateOnly (Some d)" if "d \<in> set (map (\<lambda>i. day_string (?a + int i)) [0..<42])" for d
  proof -
    obtain i where i: "d = day_string (?a + int i)" "i < 42" using \<open>d \<in> _\<close> by auto
    have e: "?a + int i = ?f + (int i - (4 + ?f) mod 7)" by simp
    show ?thesis unfolding i(1) e using i(2) w by (intro day_string_valid inner_four [OF fm]) simp
  qed
  obtain u v where uv: "addDateOnlyMonths (month_start ?y ?m) (- 1) = Inr u" "isDateOnly (Some u)"
    "addDateOnlyMonths (month_start ?y ?m) 1 = Inr v" "isDateOnly (Some v)"
    using roomy_moves(3) [OF p roomy, of 1] roomy_moves(3) [OF p roomy, of "- 1"] by auto
  have label: "dateOnlyToUtcDate x = Inr (projr (dateOnlyToUtcDate x))" if "isDateOnly (Some x)" for x
    using that by (auto simp: dateOnlyToUtcDate_def isDateOnly_def)
  have "map_result dateOnlyToUtcDate ([u, month_start ?y ?m, v] @ map (\<lambda>i. day_string (?a + int i)) [0..<42])
      = Inr (map (\<lambda>x. projr (dateOnlyToUtcDate x)) ([u, month_start ?y ?m, v] @ map (\<lambda>i. day_string (?a + int i)) [0..<42]))"
    by (rule map_result_total, rule ballI, rule label) (use days uv p in \<open>auto simp: isDateOnly_def\<close>)
  then have "render_calendar (month_start ?y ?m) = Inr \<lparr>rd_days = map (\<lambda>i. day_string (?a + int i)) [0..<42], rd_previous = u, rd_next = v\<rparr>"
    using g uv by (simp add: render_calendar_def)
  moreover from this have "visibleMonth (focus_on n) = month_start ?y ?m" by (simp add: focus_on_def)
  ultimately show thesis using shown that by (metis rendered.select_convs(1))
qed

lemma arrow_step:
  assumes "inner_day n" "inner_day (n + s)" "\<not> isOutsideRange p (day_string n)" "\<not> isOutsideRange p (day_string (n + s))"
    and "s = 1 \<and> key = ''ArrowRight'' \<or> s = - 1 \<and> key = ''ArrowLeft''" "pk_open k" "pk_calendar k = focus_on n"
  shows "picker_step p (Key key) k = Inr (k\<lparr>pk_calendar := focus_on (n + s)\<rparr>)"
proof -
  obtain r where r: "render_calendar (visibleMonth (focus_on n)) = Inr r" "day_string n \<in> set (rd_days r)"
    using assms(1) by (rule inner_rendered)
  have "addDateOnlyDays (day_string n) s = Inr (day_string (n + s))"
    using addDays_day inner_four [OF assms(1), of 0] inner_four [OF assms(2), of 0] by simp
  then have "key_target key (day_string n) = Some (Inr (day_string (n + s)))" using assms(5) by (auto simp: key_target_def)
  with assms r startOf_parts [OF inner_parts [OF assms(2)]] show ?thesis
    by (simp add: picker_step_def inside_calendar_def onDayKeyDown_def moveFocus_def focus_on_def)
qed

lemma picker_run_append: "picker_run (es @ fs) k = bind_result (picker_run es k) (picker_run fs)"
  by (induction es k rule: picker_run.induct) (auto simp: bind_result_def split: sum.splits)

lemma arrows_run:
  assumes "\<And>i. i \<le> int j \<Longrightarrow> 0 \<le> i \<Longrightarrow> inner_day (n + s * i) \<and> \<not> isOutsideRange p (day_string (n + s * i))"
    and "s = 1 \<and> key = ''ArrowRight'' \<or> s = - 1 \<and> key = ''ArrowLeft''" "pk_open k" "pk_calendar k = focus_on n"
  shows "picker_run (replicate j (p, Key key)) k = Inr (k\<lparr>pk_calendar := focus_on (n + s * int j)\<rparr>)"
  using assms
proof (induction j)
  case 0
  then show ?case by simp
next
  case (Suc j)
  have i: "picker_run (replicate j (p, Key key)) k = Inr (k\<lparr>pk_calendar := focus_on (n + s * int j)\<rparr>)"
    by (rule Suc.IH) (use Suc.prems in simp_all)
  have e: "n + s * int (Suc j) = n + s * int j + s" by (simp add: algebra_simps)
  have "picker_step p (Key key) (k\<lparr>pk_calendar := focus_on (n + s * int j)\<rparr>)
      = Inr (k\<lparr>pk_calendar := focus_on (n + s * int j)\<rparr>\<lparr>pk_calendar := focus_on (n + s * int j + s)\<rparr>)"
    by (rule arrow_step) (use Suc.prems(1) [of "int j"] Suc.prems(1) [of "int (Suc j)"] Suc.prems(2,3) in \<open>auto simp: algebra_simps\<close>)
  moreover have "replicate (Suc j) (p, Key key) = replicate j (p, Key key) @ [(p, Key key)]" by (simp add: replicate_append_same)
  ultimately show ?case
    unfolding e using i by (simp add: picker_run_append del: replicate.simps of_nat_Suc)
qed

text \<open>C29. With the keys alone every allowed day can be picked: when the field is opened on an allowed day and some other day is
  allowed too, a sequence of keys moves the focus to that day and hands it to the parent, for the years 1001 to 9998.\<close>

theorem keys_reach_every_day:
  assumes "pp_value p = day_string n" "\<not> pp_disabled p" "\<not> pk_open k" "inner_day n" "inner_day t"
    and "\<not> isOutsideRange p (day_string n)" "\<not> isOutsideRange p (day_string t)"
  shows "\<exists>keys k'. picker_run ((p, Trigger) # map (\<lambda>key. (p, Key key)) keys) k = Inr k' \<and>
    pk_sent k' = pk_sent k @ [(p, day_string t)] \<and> \<not> pk_open k'"
proof -
  define j where "j = nat \<bar>t - n\<bar>"
  define s where "s = (if n \<le> t then 1 else - 1 :: int)"
  define key where "key = (if n \<le> t then ''ArrowRight'' else ''ArrowLeft'')"
  let ?k = "k\<lparr>pk_open := True, pk_calendar := focus_on n\<rparr>"
  have d: "isDateOnly (Some (day_string n))" using assms(4) inner_parts by (simp add: isDateOnly_def)
  have "clampInitialDate p = day_string n"
    using assms(1,6) d by (auto simp: clampInitialDate_def isOutsideRange_def split: option.splits)
  then have opens: "picker_step p Trigger k = Inr ?k"
    using assms(2,3) startOf_parts [OF inner_parts [OF assms(4)]] by (simp add: picker_step_def opened_calendar_def focus_on_def Let_def)
  have a: "inner_day (n + s * i) \<and> \<not> isOutsideRange p (day_string (n + s * i))" if "i \<le> int j" "0 \<le> i" for i
  proof (cases "n \<le> t")
    case True
    then show ?thesis using that inner_between [OF assms(4,5)] inside_between [OF assms(4,5) _ _ assms(6,7)] by (simp add: s_def j_def)
  next
    case False
    then show ?thesis using that inner_between [OF assms(5,4)] inside_between [OF assms(5,4) _ _ assms(7,6)] by (simp add: s_def j_def)
  qed
  have there: "n + s * int j = t" by (simp add: s_def j_def)
  have arrows: "picker_run (replicate j (p, Key key)) ?k = Inr (?k\<lparr>pk_calendar := focus_on (n + s * int j)\<rparr>)"
    by (rule arrows_run [OF a]) (simp_all add: s_def key_def)
  obtain r where "render_calendar (visibleMonth (focus_on t)) = Inr r" "day_string t \<in> set (rd_days r)"
    using assms(5) by (rule inner_rendered)
  then have enter: "picker_step p (Key ''Enter'') (?k\<lparr>pk_calendar := focus_on t\<rparr>)
      = Inr (?k\<lparr>pk_calendar := focus_on t, pk_open := False, pk_sent := pk_sent k @ [(p, day_string t)]\<rparr>)"
    using assms(7) by (simp add: picker_step_def inside_calendar_def onDayKeyDown_def key_target_def selectDate_def focus_on_def Let_def)
  have there': "picker_run (replicate j (p, Key key)) ?k = Inr (?k\<lparr>pk_calendar := focus_on t\<rparr>)"
    using arrows unfolding there .
  note steps = opens there' enter
  have "map (\<lambda>key. (p, Key key)) (replicate j key @ [''Enter'']) = replicate j (p, Key key) @ [(p, Key ''Enter'')]" by simp
  then have "picker_run ((p, Trigger) # map (\<lambda>key. (p, Key key)) (replicate j key @ [''Enter''])) k
      = Inr (?k\<lparr>pk_calendar := focus_on t, pk_open := False, pk_sent := pk_sent k @ [(p, day_string t)]\<rparr>)"
    by (simp only: picker_run.simps picker_run_append steps bind_result_simps)
  then show ?thesis by (intro exI conjI, assumption) simp_all
qed


theorem keys_reach_every_day_witness:
  "let p = \<lparr>pp_value = day_string 20543, pp_min = None, pp_max = None, pp_disabled = False, pp_clearable = False, pp_today = []\<rparr>
   in \<exists>keys k'. picker_run ((p, Trigger) # map (\<lambda>key. (p, Key key)) keys) closed_picker = Inr k' \<and>
     pk_sent k' = pk_sent closed_picker @ [(p, day_string 20575)] \<and> \<not> pk_open k'"
  unfolding Let_def
proof (rule keys_reach_every_day)
  show "inner_day 20543" "inner_day 20575"
    using year_of_day_between [of 1001 20543] year_of_day_between [of 20543 9998]
      year_of_day_between [of 1001 20575] year_of_day_between [of 20575 9998]
    by (simp_all add: inner_day_def civil_eval)
qed (simp_all add: closed_picker_def isOutsideRange_def)

section \<open>Days that open no calendar\<close>

text \<open>A value of the years 0100 to 0999 counts as a calendar day, and the calendar for it cannot be rendered.\<close>

lemma early_year_throws:
  assumes "partsFor (pp_value p) = Some (y, m, d)" "y < 1000" "pp_min p = None" "pp_max p = None" "\<not> pp_disabled p" "\<not> pk_open k"
  shows "case picker_run [(p, Trigger), (p, Key ''Enter'')] k of Inl e \<Rightarrow> True | Inr k' \<Rightarrow> False"
proof -
  have v: "isDateOnly (Some (pp_value p))" using assms(1) by (simp add: isDateOnly_def)
  then have o: "opened_calendar p = Inr \<lparr>visibleMonth = month_start y m, focusedDate = pp_value p, focusedDateRef = pp_value p\<rparr>"
    using assms(3,4) startOf_parts [OF assms(1)] by (simp add: opened_calendar_def clampInitialDate_def Let_def)
  have "\<not> roomy y m" using assms(2) by (simp add: roomy_def)
  then have "render_calendar (month_start y m) \<noteq> Inr r" for r using render_roomy [OF _ assms(1)] by blast
  then show ?thesis using o assms(5,6) by (cases "render_calendar (month_start y m)") (auto simp: picker_step_def)
qed

end
