(* ===== verification/RecordDialogs.thy ===== *)
theory RecordDialogs
  imports Goals Calendar SharePayloads DemoSession
begin

text \<open>
  The dialog that edits an entry (TransactionEditDialog of web/src/pages/finance/record-edit-dialogs.tsx), and the drawer in
  which a record is shown, copied, shared, edited and deleted (pages/finance/record-action-drawer.tsx with
  lib/clipboard.ts). \<open>today\<close> is \<open>todayDateOnly()\<close>, \<open>parse\<close> is \<open>new Date(text)\<close>. The categories offered and the markup are left out.
\<close>

section \<open>Definitions\<close>

subsection \<open>Editing an entry\<close>

record entry_form =
  ef_merchant :: string
  ef_category :: string
  ef_amount :: string
  ef_occurredAt :: string
  ef_note :: string
  ef_description :: string

record entry_request =
  er_accountId :: string
  er_destinationAccountId :: "string option"
  er_type :: raw_type
  er_amountMinor :: int
  er_currency :: string
  er_category :: string
  er_merchant :: string
  er_notes :: string
  er_description :: string
  er_contactId :: "string option"
  er_privacy :: privacy
  er_occurredAt :: string

definition entry_form_of :: "(string \<Rightarrow> date) \<Rightarrow> string \<Rightarrow> transaction \<Rightarrow> entry_form" where
  "entry_form_of parse today t = \<lparr>ef_merchant = tx_merchant t, ef_category = tx_category t,
     ef_amount = majorFromMinor (amountMinor (tx_amount t)), ef_occurredAt = dateOnlyFromUtc parse (Some (tx_occurredAt t)) today,
     ef_note = text_or (tx_note t) [], ef_description = text_or (tx_description t) []\<rparr>"

definition entry_issues :: "entry_form \<Rightarrow> issue list" where
  "entry_issues v =
     under ''merchant'' (at_most_chars 200 ''Keep the description under 200 characters.'' (ef_merchant v))
     @ under ''category'' (at_most_chars 100 ''Keep the category under 100 characters.'' (ef_category v))
     @ under ''note'' (at_most_chars 2000 ''Keep the note under 2000 characters.'' (ef_note v))
     @ under ''description'' (at_most_chars 2000 ''Keep the description under 2000 characters.'' (ef_description v))
     @ under ''amount'' (first_issue ''Enter an amount.'' (moneyInputSchema False False (ef_amount v)))
     @ under ''occurredAt'' (if isDateOnly (Some (ef_occurredAt v)) then [] else [''Choose a valid date.''])"

definition check_entry :: "transaction \<Rightarrow> entry_form \<Rightarrow> issue list + entry_request" where
  "check_entry t v = (if entry_issues v \<noteq> [] then Inl (entry_issues v)
     else case toUtcDateOnly (ef_occurredAt v) of
         Inl e \<Rightarrow> Inl []
       | Inr day \<Rightarrow> Inr \<lparr>er_accountId = tx_accountId t, er_destinationAccountId = tx_destinationAccountId t, er_type = tx_rawType t,
           er_amountMinor = toMinor (amount_of (moneyInputSchema False False (ef_amount v))), er_currency = currency (tx_amount t),
           er_category = js_trim (ef_category v), er_merchant = js_trim (ef_merchant v), er_notes = js_trim (ef_note v),
           er_description = js_trim (ef_description v), er_contactId = tx_contactId t,
           er_privacy = (case tx_privacy t of Some p \<Rightarrow> p | None \<Rightarrow> Workspace_record), er_occurredAt = day\<rparr>)"

definition demo_entry_edited :: "transaction \<Rightarrow> entry_request \<Rightarrow> transaction" where
  "demo_entry_edited t r = t\<lparr>tx_merchant := (if er_merchant r = [] then tx_merchant t else er_merchant r),
     tx_category := (if er_category r = [] then tx_category t else er_category r), tx_occurredAt := er_occurredAt r,
     tx_note := or_undefined_text (er_notes r), tx_amount := \<lparr>amountMinor = Fin (of_int (er_amountMinor r)), currency = er_currency r\<rparr>\<rparr>"

definition entry_options :: "string \<Rightarrow> flow_options" where
  "entry_options workspaceId = \<lparr>opt_invalidate = [''transactions'', ''accounts'', ''vaults'', ''budgets'', ''dashboard'', ''insights''],
     opt_invalidatePeriodReviews = True, opt_successMessage = ''Transaction updated.'', opt_workspace = workspaceId\<rparr>"

definition entry_edit_step ::
  "transaction \<Rightarrow> string \<Rightarrow> bool \<Rightarrow> entry_request form_dialog \<Rightarrow> (entry_form, entry_request) form_event \<Rightarrow> entry_request form_dialog" where
  "entry_edit_step t workspaceId demoMode = form_step (check_entry t)
     (edit_server_errors [(''amount'', ''amountMinor''), (''note'', ''notes'')]) demoMode
     ''Transaction updated in this demo session only.'' (entry_options workspaceId)"

subsection \<open>The clipboard\<close>

text \<open>What the browser offers: \<open>writeText\<close>, absent or with its success, whether there is a document, and what
  \<open>execCommand\<close> answers, \<open>None\<close> when it throws.\<close>

record clipboard =
  cb_writeText :: "bool option"
  cb_document :: bool
  cb_execCommand :: "bool option"

definition copyTextToClipboard :: "clipboard \<Rightarrow> string \<Rightarrow> bool" where
  "copyTextToClipboard c text =
     (if text = [] then False
      else if cb_writeText c = Some True then True
      else if \<not> cb_document c then False
      else (case cb_execCommand c of Some b \<Rightarrow> b | None \<Rightarrow> False))"

subsection \<open>The drawer\<close>

datatype drawer_busy = Not_busy | Busy_share | Busy_delete

datatype drawer_output = Posted_share string | Ran_delete | Closed_drawer | Opened_editor

record drawer_props =
  dp_canShare :: bool
  dp_sharePath :: "string option"
  dp_demoSharePayload :: "share_payload option"
  dp_canDelete :: bool
  dp_deleteLabel :: string
  dp_hasDelete :: bool
  dp_hasEdit :: bool

record drawer =
  dr_open :: bool
  dr_confirmingDelete :: bool
  dr_busy :: drawer_busy
  dr_seenBusy :: drawer_busy
  dr_seenConfirming :: bool
  dr_error :: "string option"
  dr_payload :: "share_payload option"
  dr_shareOpen :: bool
  dr_copied :: "string option"
  dr_output :: "drawer_output list"

definition new_drawer :: drawer where
  "new_drawer = \<lparr>dr_open = False, dr_confirmingDelete = False, dr_busy = Not_busy, dr_seenBusy = Not_busy, dr_seenConfirming = False, dr_error = None,
     dr_payload = None, dr_shareOpen = False, dr_copied = None, dr_output = []\<rparr>"

definition closed_effect :: "drawer \<Rightarrow> drawer" where
  "closed_effect d = (if dr_open d then d
     else d\<lparr>dr_confirmingDelete := False, dr_busy := Not_busy, dr_error := None, dr_copied := None\<rparr>)"

definition messageForError :: "write_error \<Rightarrow> string \<Rightarrow> string" where
  "messageForError e fallback = (case e of Api_failure message fs \<Rightarrow> message | Other_failure \<Rightarrow> fallback)"

text \<open>The payload of an answer, whose title and text may be of any type.\<close>

definition server_payload :: "share_intl \<Rightarrow> json \<Rightarrow> share_payload" where
  "server_payload intl response = buildSafeTextSharePayload intl
     (u16 (case jprop response ''title'' of JStr s \<Rightarrow> s | _ \<Rightarrow> ''Money update''))
     (u16 (case jprop response ''text'' of JStr s \<Rightarrow> s | _ \<Rightarrow> ''A prepared summary is ready to share.''))"

definition show_payload :: "share_payload option \<Rightarrow> drawer \<Rightarrow> drawer" where
  "show_payload payload d = (case payload of
       None \<Rightarrow> d\<lparr>dr_error := Some ''A safe summary is unavailable for this record.'', dr_busy := Not_busy\<rparr>
     | Some p \<Rightarrow> d\<lparr>dr_payload := Some p, dr_shareOpen := True, dr_busy := Not_busy\<rparr>)"

definition press_share :: "drawer_props \<Rightarrow> drawer \<Rightarrow> drawer" where
  "press_share p d = (if dr_seenBusy d \<noteq> Not_busy \<or> \<not> dp_canShare p then d
     else (let started = d\<lparr>dr_busy := Busy_share, dr_error := None\<rparr>
           in case dp_sharePath p of
                Some path \<Rightarrow> started\<lparr>dr_output := dr_output started @ [Posted_share path]\<rparr>
              | None \<Rightarrow> show_payload (dp_demoSharePayload p) started))"

definition share_answered :: "share_intl \<Rightarrow> drawer_props \<Rightarrow> write_error + json \<Rightarrow> drawer \<Rightarrow> drawer" where
  "share_answered intl p answer d = (case answer of
       Inl e \<Rightarrow> d\<lparr>dr_error := Some (messageForError e ''Unable to prepare a share summary.''), dr_busy := Not_busy\<rparr>
     | Inr response \<Rightarrow> show_payload (case dp_demoSharePayload p of Some q \<Rightarrow> Some q
         | None \<Rightarrow> if truthy response then Some (server_payload intl response) else None) d)"

definition press_delete :: "drawer_props \<Rightarrow> drawer \<Rightarrow> drawer" where
  "press_delete p d = (if \<not> dr_seenConfirming d \<or> dr_seenBusy d \<noteq> Not_busy \<or> \<not> dp_hasDelete p then d
     else d\<lparr>dr_busy := Busy_delete, dr_error := None, dr_output := dr_output d @ [Ran_delete]\<rparr>)"

definition delete_ended :: "drawer_props \<Rightarrow> write_error option \<Rightarrow> drawer \<Rightarrow> drawer" where
  "delete_ended p answer d = (case answer of
       None \<Rightarrow> d\<lparr>dr_output := dr_output d @ [Closed_drawer]\<rparr>
     | Some e \<Rightarrow> d\<lparr>dr_error := Some (messageForError e (''Unable to '' @ js_lower (dp_deleteLabel p) @ '' this record.'')), dr_busy := Not_busy\<rparr>)"

definition copied_detail :: "string \<Rightarrow> bool \<Rightarrow> drawer \<Rightarrow> drawer" where
  "copied_detail name copied d = (if copied then d\<lparr>dr_copied := Some name, dr_error := None\<rparr>
     else d\<lparr>dr_error := Some (''Unable to copy '' @ js_lower name @ ''. Select it and copy manually.'')\<rparr>)"

datatype drawer_event = Set_open bool | Drawer_render | Ask_delete | Keep_it | Press_delete | Delete_ends "write_error option"
  | Press_share | Share_ends "write_error + json" | Press_edit | Dismiss_drawer | Copied string bool

text \<open>The parent opens and closes; the dismissal of the dialog asks it to. A control answers as long as the last render had it
  enabled.\<close>

definition drawer_step :: "share_intl \<Rightarrow> drawer_props \<Rightarrow> drawer \<Rightarrow> drawer_event \<Rightarrow> drawer" where
  "drawer_step intl p d e = (case e of
       Set_open b \<Rightarrow> closed_effect (d\<lparr>dr_open := b\<rparr>)
     | Drawer_render \<Rightarrow> d\<lparr>dr_seenBusy := dr_busy d, dr_seenConfirming := dr_confirmingDelete d\<rparr>
     | Ask_delete \<Rightarrow> if dr_open d \<and> \<not> dr_seenConfirming d \<and> dp_canDelete p \<and> dp_hasDelete p \<and> dr_seenBusy d = Not_busy
         then d\<lparr>dr_error := None, dr_confirmingDelete := True\<rparr> else d
     | Keep_it \<Rightarrow> if \<not> dr_seenConfirming d \<or> dr_seenBusy d = Busy_delete then d else d\<lparr>dr_confirmingDelete := False\<rparr>
     | Press_delete \<Rightarrow> press_delete p d
     | Delete_ends answer \<Rightarrow> delete_ended p answer d
     | Press_share \<Rightarrow> if dr_open d \<and> \<not> dr_seenConfirming d then press_share p d else d
     | Share_ends answer \<Rightarrow> share_answered intl p answer d
     | Press_edit \<Rightarrow> if dr_open d \<and> \<not> dr_seenConfirming d \<and> dp_hasEdit p \<and> dr_seenBusy d = Not_busy
         then d\<lparr>dr_output := dr_output d @ [Closed_drawer, Opened_editor]\<rparr> else d
     | Dismiss_drawer \<Rightarrow> if dr_seenBusy d = Not_busy then d\<lparr>dr_output := dr_output d @ [Closed_drawer]\<rparr> else d
     | Copied name copied \<Rightarrow> copied_detail name copied d)"

section \<open>An entry that is edited\<close>

lemma entry_issues_none:
  assumes "entry_issues v = []"
  shows "length (js_trim (ef_merchant v)) \<le> 200" "length (js_trim (ef_category v)) \<le> 100" "isDateOnly (Some (ef_occurredAt v))"
    "issues_of (moneyInputSchema False False (ef_amount v)) = []"
  using assms by (auto simp: entry_issues_def under_def at_most_chars_def first_issue_def issues_of_def
      split: if_splits sum.splits list.splits)

text \<open>An entry opened for editing and saved unchanged is sent back as it is: with its accounts, kind, currency, contact and
  visibility, its amount to the hundredth for up to 2^50 hundredths, its texts without outer spaces, and the midnight of
  its UTC day, for days of the years 1000 to 9999.\<close>

theorem unchanged_entry_kept:
  assumes "amountMinor (tx_amount t) = Fin (of_int n)" "0 < n" "n \<le> 2 ^ 50"
    and "partsFor (tx_occurredAt t) = None" "tx_occurredAt t \<noteq> []" "parse (tx_occurredAt t) = Some time" "four_digit_day (day_of_time time)"
    and "length (js_trim (tx_merchant t)) \<le> 200" "length (js_trim (tx_category t)) \<le> 100"
    and "length (js_trim (text_or (tx_note t) [])) \<le> 2000" "length (js_trim (text_or (tx_description t) [])) \<le> 2000"
  shows "check_entry t (entry_form_of parse today t) = Inr \<lparr>er_accountId = tx_accountId t,
    er_destinationAccountId = tx_destinationAccountId t, er_type = tx_rawType t, er_amountMinor = n, er_currency = currency (tx_amount t),
    er_category = js_trim (tx_category t), er_merchant = js_trim (tx_merchant t), er_notes = js_trim (text_or (tx_note t) []),
    er_description = js_trim (text_or (tx_description t) []), er_contactId = tx_contactId t,
    er_privacy = (case tx_privacy t of Some p \<Rightarrow> p | None \<Rightarrow> Workspace_record),
    er_occurredAt = day_string (day_of_time time) @ ''T00:00:00.000Z''\<rparr>"
proof -
  obtain x where x: "moneyInputSchema False False (majorFromMinor (Fin (of_int n))) = Inr (Fin x)" "toMinor x = n"
    using reopened_amount [of n False False] assms(2,3) by auto
  have d: "dateOnlyFromUtc parse (Some (tx_occurredAt t)) today = day_string (day_of_time time)"
    using assms(4-6) by (simp add: dateOnlyFromUtc_def day_string_def dateOnlyFromUtcDate_def utc_year_def utc_month_def utc_date_def)
  have v: "isDateOnly (Some (day_string (day_of_time time)))" by (rule day_string_valid [OF assms(7)])
  have u: "toUtcDateOnly (day_string (day_of_time time)) = Inr (day_string (day_of_time time) @ ''T00:00:00.000Z'')"
    using partsFor_day_string [OF assms(7)]
    by (simp add: toUtcDateOnly_def) (simp add: day_string_def dateOnlyFromUtcDate_def utc_year_def utc_month_def utc_date_def)
  have "entry_issues (entry_form_of parse today t) = []"
    using assms(8-11) x v by (simp add: entry_issues_def entry_form_of_def at_most_chars_def under_def first_issue_def d assms(1))
  then show ?thesis using x u by (simp add: check_entry_def entry_form_of_def d assms(1) amount_of_def)
qed

theorem unchanged_entry_kept_witness:
  "\<exists>r. check_entry (example_entry Debit 1050) (entry_form_of (\<lambda>_. Some 0) [] (example_entry Debit 1050)) = Inr r \<and>
     er_amountMinor r = 1050 \<and> er_merchant r = ''Shop''"
proof -
  have t: "js_trim ''Shop'' = ''Shop''" "js_trim [] = []" by code_simp+
  have p: "partsFor ''2026-08-01T00:00:00.000Z'' = None" by code_simp
  have f: "four_digit_day (day_of_time 0)" by code_simp
  show ?thesis
    using unchanged_entry_kept [of "example_entry Debit 1050" 1050 "\<lambda>_. Some 0" 0 "[]"] t p f
    by (simp add: example_entry_def text_or_def)
qed

text \<open>The placeholder that the client shows for an entry without a name, a note and a category is stored as its name and its
  category when the entry is saved.\<close>

lemma placeholder_saved:
  assumes "t = normalize_transaction (JObj fs)" "om_get fs ''merchant'' = None" "om_get fs ''notes'' = None" "om_get fs ''category'' = None"
    and "om_get fs ''type'' = Some (JStr ''expense'')" "check_entry t (entry_form_of parse today t) = Inr r"
  shows "er_merchant r = ''Transaction'' \<and> er_category r = ''expense''"
proof -
  have "tx_merchant t = ''Transaction''" "tx_category t = ''expense''"
    using assms(1-5) by (simp_all add: normalize_transaction_def Let_def jprop_def nullish_def is_nullish_def str_or_def)
  with assms(6) show ?thesis
    by (auto simp: check_entry_def entry_form_of_def js_trim_def trim_start_def trim_end_def is_space_def code_of_def split: if_splits sum.splits)
qed

section \<open>A record that is deleted\<close>

lemma no_delete_unasked:
  assumes "\<not> dr_confirmingDelete d" "\<not> dr_seenConfirming d" "e \<noteq> Ask_delete"
  shows "\<not> dr_confirmingDelete (drawer_step intl p d e)" "\<not> dr_seenConfirming (drawer_step intl p d e)"
    "count_list (dr_output (drawer_step intl p d e)) Ran_delete = count_list (dr_output d) Ran_delete"
  using assms
  by (cases e; auto simp: drawer_step_def closed_effect_def press_delete_def delete_ended_def press_share_def share_answered_def
      show_payload_def copied_detail_def Let_def split: option.splits sum.splits)+

definition deletions :: "drawer \<Rightarrow> nat" where
  "deletions d = count_list (dr_output d) Ran_delete"

lemma no_more_deletions:
  assumes "\<not> dr_confirmingDelete d" "\<not> dr_seenConfirming d"
  shows "deletions (foldl (drawer_step intl p) d (filter (\<lambda>e. e \<noteq> Ask_delete) es)) = deletions d"
  using assms
proof (induction es arbitrary: d)
  case (Cons e es)
  show ?case
  proof (cases "e = Ask_delete")
    case False
    with Cons.IH [of "drawer_step intl p d e"] no_delete_unasked [OF Cons.prems False, of intl p]
    show ?thesis by (simp add: deletions_def)
  qed (use Cons in simp)
qed simp

text \<open>C36. A record is deleted only after its deletion was asked for, and a confirmation does not outlive the question: from a
  new drawer, from the render after the drawer closed, whatever had been asked before, and from the render after \<open>Keep it\<close>
  was pressed where it could be, nothing is deleted until deletion is asked for again, whatever else is pressed, in whatever
  order, whatever answers arrive, and however often the drawer opens and closes.\<close>

theorem delete_needs_confirmation:
  assumes "d = new_drawer \<and> leave = [] \<or> leave = [Set_open False, Drawer_render] \<or>
    leave = [Keep_it, Drawer_render] \<and> dr_seenConfirming d \<and> dr_seenBusy d \<noteq> Busy_delete"
  shows "deletions (foldl (drawer_step intl p) d (leave @ filter (\<lambda>e. e \<noteq> Ask_delete) es)) = deletions d"
proof -
  let ?d = "foldl (drawer_step intl p) d leave"
  have "\<not> dr_confirmingDelete ?d \<and> \<not> dr_seenConfirming ?d \<and> deletions ?d = deletions d"
    using assms by (auto simp: new_drawer_def drawer_step_def closed_effect_def deletions_def)
  with no_more_deletions [of ?d intl p es] show ?thesis by simp
qed

theorem delete_needs_confirmation_witness:
  "\<forall>intl. let p = \<lparr>dp_canShare = False, dp_sharePath = None, dp_demoSharePayload = None, dp_canDelete = True,
                  dp_deleteLabel = ''Delete'', dp_hasDelete = True, dp_hasEdit = False\<rparr>;
              asked = foldl (drawer_step intl p) new_drawer [Set_open True, Drawer_render, Ask_delete, Drawer_render]
          in deletions (foldl (drawer_step intl p) asked [Press_delete]) = 1 \<and>
             deletions (foldl (drawer_step intl p) asked [Keep_it, Drawer_render, Press_delete]) = 0 \<and>
             deletions (foldl (drawer_step intl p) asked [Set_open False, Drawer_render, Set_open True, Press_delete]) = 0"
proof
  fix intl
  define p where "p = \<lparr>dp_canShare = False, dp_sharePath = None, dp_demoSharePayload = None, dp_canDelete = True,
                  dp_deleteLabel = ''Delete'', dp_hasDelete = True, dp_hasEdit = False\<rparr>"
  define asked where "asked = foldl (drawer_step intl p) new_drawer [Set_open True, Drawer_render, Ask_delete, Drawer_render]"
  have s: "dr_seenConfirming asked" "dr_seenBusy asked = Not_busy" "deletions asked = 0" "dr_output asked = []"
    by (simp_all add: asked_def p_def new_drawer_def drawer_step_def closed_effect_def deletions_def)
  have "deletions (foldl (drawer_step intl p) asked [Press_delete]) = 1"
    using s by (simp add: p_def drawer_step_def press_delete_def deletions_def)
  moreover have "deletions (foldl (drawer_step intl p) asked [Keep_it, Drawer_render, Press_delete]) = 0"
    using delete_needs_confirmation [of asked "[Keep_it, Drawer_render]" intl p "[Press_delete]"] s by simp
  moreover have "deletions (foldl (drawer_step intl p) asked [Set_open False, Drawer_render, Set_open True, Press_delete]) = 0"
    using delete_needs_confirmation [of asked "[Set_open False, Drawer_render]" intl p "[Set_open True, Press_delete]"] s by simp
  ultimately show "let p = \<lparr>dp_canShare = False, dp_sharePath = None, dp_demoSharePayload = None, dp_canDelete = True,
                  dp_deleteLabel = ''Delete'', dp_hasDelete = True, dp_hasEdit = False\<rparr>;
              asked = foldl (drawer_step intl p) new_drawer [Set_open True, Drawer_render, Ask_delete, Drawer_render]
          in deletions (foldl (drawer_step intl p) asked [Press_delete]) = 1 \<and>
             deletions (foldl (drawer_step intl p) asked [Keep_it, Drawer_render, Press_delete]) = 0 \<and>
             deletions (foldl (drawer_step intl p) asked [Set_open False, Drawer_render, Set_open True, Press_delete]) = 0"
    unfolding Let_def p_def [symmetric] asked_def [symmetric] by blast
qed

text \<open>While the dialog waits for the deletion the drawer cannot be dismissed, and a second press does not delete twice.\<close>

lemma deletes_once:
  assumes "dr_seenBusy d = Busy_delete" "e = Press_delete \<or> e = Dismiss_drawer \<or> e = Keep_it \<or> e = Press_share \<or> e = Press_edit"
  shows "drawer_step intl p d e = d"
  using assms by (auto simp: drawer_step_def press_delete_def press_share_def)

end
