(* ===== verification/NumberInput.thy ===== *)
theory NumberInput
  imports FormDialogs
begin

text \<open>
  The numbers that the automation, forecast and reconciliation pages read from a text and show again:
  \<open>Number.parseFloat\<close>, \<open>Number.parseInt\<close> to the base ten, \<open>Math.round(x * 100)\<close> and \<open>String(x / 100)\<close>. A numeral too large for
  the number format is left finite.
\<close>

section \<open>Definitions\<close>

definition read_sign :: "string \<Rightarrow> bool \<times> string" where
  "read_sign s = (case s of c # cs \<Rightarrow> if c = CHR ''-'' then (True, cs) else if c = CHR ''+'' then (False, cs) else (False, s) | [] \<Rightarrow> (False, []))"

text \<open>The longest beginning that is a decimal numeral.\<close>

definition mantissa_prefix :: "string \<Rightarrow> string" where
  "mantissa_prefix u = (let ip = takeWhile is_digit u in
     case dropWhile is_digit u of
       c # cs \<Rightarrow> if c = CHR ''.'' \<and> (ip \<noteq> [] \<or> takeWhile is_digit cs \<noteq> []) then ip @ c # takeWhile is_digit cs else ip
     | [] \<Rightarrow> ip)"

definition exponent_prefix :: "string \<Rightarrow> string" where
  "exponent_prefix r = (case r of
       c # cs \<Rightarrow> if c = CHR ''e'' \<or> c = CHR ''E''
         then (let (sign, ds) = (case cs of d # ds \<Rightarrow> if d = CHR ''-'' \<or> d = CHR ''+'' then ([d], ds) else ([], cs) | [] \<Rightarrow> ([], []))
               in if takeWhile is_digit ds = [] then [] else c # sign @ takeWhile is_digit ds)
         else []
     | [] \<Rightarrow> [])"

definition numeral_prefix :: "string \<Rightarrow> string" where
  "numeral_prefix u = (let m = mantissa_prefix u in if m = [] then [] else m @ exponent_prefix (drop (length m) u))"

definition parseFloat :: "string \<Rightarrow> jsnum" where
  "parseFloat s = (let (neg, u) = read_sign (trim_start s);
       x = (if starts_with u ''Infinity'' then PInf else num_of (map_option fl64 (parse_unsigned (numeral_prefix u))))
     in if neg then js_neg x else x)"

definition parseInt10 :: "string \<Rightarrow> jsnum" where
  "parseInt10 s = (let (neg, u) = read_sign (trim_start s); ds = takeWhile is_digit u
     in if ds = [] then NaN else Fin (fl64 (of_int ((if neg then - 1 else 1) * int (digits_value ds)))))"

definition round_hundredths :: "jsnum \<Rightarrow> jsnum" where
  "round_hundredths x = (case x of Fin r \<Rightarrow> Fin (of_int (toMinor r)) | _ \<Rightarrow> x)"

text \<open>\<open>String(minor / 100)\<close> for whole hundredths of up to fifteen digits, of which the quotient is the shortest numeral.\<close>

definition hundredths_text :: "jsnum \<Rightarrow> string" where
  "hundredths_text x = num_string (case x of Fin m \<Rightarrow> Fin (m / 100) | _ \<Rightarrow> x)"

section \<open>A decimal point that is typed\<close>

lemma nat_digits_trim: "trim_start (nat_digits n @ s) = nat_digits n @ s"
proof -
  have "is_digit (hd (nat_digits n))" using all_digits_nat_digits [of n] nat_digits_nonempty [of n]
    by (cases "nat_digits n") (simp_all add: all_digits_def)
  then show ?thesis using nat_digits_nonempty [of n] by (cases "nat_digits n") (auto simp: trim_start_def digit_not_space)
qed

lemma takeWhile_nat_digits:
  "\<not> is_digit c \<Longrightarrow> takeWhile is_digit (nat_digits n @ c # s) = nat_digits n"
  "\<not> is_digit c \<Longrightarrow> dropWhile is_digit (nat_digits n @ c # s) = c # s"
  "takeWhile is_digit (nat_digits n) = nat_digits n"
  "dropWhile is_digit (nat_digits n) = []"
  using all_digits_nat_digits [of n] by (simp_all add: all_digits_def list_all_iff)

lemma nat_digits_sign: "read_sign (nat_digits n @ s) = (False, nat_digits n @ s)"
proof -
  have "is_digit (hd (nat_digits n))" using all_digits_nat_digits [of n] nat_digits_nonempty [of n]
    by (cases "nat_digits n") (simp_all add: all_digits_def)
  then show ?thesis using nat_digits_nonempty [of n] by (cases "nat_digits n") (auto simp: read_sign_def is_digit_def code_of_def)
qed

lemma digits_not_Infinity: "\<not> starts_with (nat_digits n @ s) ''Infinity''"
proof -
  have "is_digit (hd (nat_digits n))" using all_digits_nat_digits [of n] nat_digits_nonempty [of n]
    by (cases "nat_digits n") (simp_all add: all_digits_def)
  then show ?thesis using nat_digits_nonempty [of n] by (cases "nat_digits n") (auto simp: starts_with_def is_digit_def code_of_def)
qed

lemma parseFloat_point:
  assumes "int n \<le> 2 ^ 53"
  shows "parseFloat (nat_digits n @ ''.'') = Fin (of_nat n)"
proof -
  have d: "\<not> is_digit (CHR ''.'')" by (simp add: is_digit_def code_of_def)
  have m: "mantissa_prefix (nat_digits n @ ''.'') = nat_digits n @ ''.''"
    by (simp add: mantissa_prefix_def takeWhile_nat_digits d nat_digits_nonempty)
  have p: "parse_unsigned (nat_digits n @ ''.'') = Some (of_nat n)"
    by (simp add: parse_unsigned_def span_digits_def takeWhile_nat_digits d nat_digits_nonempty digits_value_nat_digits)
  have "fl64 (of_int (int n)) = of_int (int n)" using fl64_whole [of "int n"] assms by simp
  then show ?thesis
    by (simp add: parseFloat_def nat_digits_trim nat_digits_sign digits_not_Infinity numeral_prefix_def m p num_of_def nat_digits_nonempty exponent_prefix_def)
qed

text \<open>A whole amount is shown as it was before the point was typed: the point is lost.\<close>

lemma point_lost:
  assumes "int n \<le> 2 ^ 46"
  shows "hundredths_text (round_hundredths (parseFloat (nat_digits n @ ''.''))) = nat_digits n"
proof -
  have "fl64 (of_int (int n * 100)) = of_int (int n * 100)" using fl64_whole [of "int n * 100"] assms by simp
  then have "toMinor (of_nat n) = math_round (of_int (int n * 100))" by (simp add: toMinor_def)
  also have "\<dots> = int n * 100" unfolding math_round_def by (rule floor_unique) simp_all
  finally have "toMinor (of_nat n) = int n * 100" .
  moreover have "int n \<le> 2 ^ 53" using assms by simp
  ultimately show ?thesis using pos_string_whole [of n]
    by (simp add: parseFloat_point round_hundredths_def hundredths_text_def num_string_def)
qed

end
