(* ===== verification/Automation.thy ===== *)
theory Automation
  imports NumberInput FinanceData Utf16 Categories
begin

text \<open>
  The automation page (web/src/pages/finance/rules.tsx): the list of the rules with pausing and deleting, their description,
  and the editor of a rule with its checks. A reply carries the number of the editor that asked for it. \<open>localeCompare\<close> is a
  parameter. Of the API (src/api/internal/model/automation_rule.go, src/api/internal/service/automation_rules.go) only what a
  condition must have is modelled, with which the editor is compared. The labels of the buttons and the samples of a test
  run are left out.
\<close>

section \<open>Definitions\<close>

subsection \<open>Rules\<close>

datatype rule_field = Rule_description | Rule_type | Rule_amount | Rule_category | Rule_account | Rule_contact | Rule_imported

datatype rule_operator = Is_equal | Is_not_equal | Contains | One_of | Greater_than | Less_than | Between | Is_true | Is_false

datatype rule_action_type = Set_category | Set_contact | Rename | Set_account | Add_tag | Set_privacy

record rule_condition =
  rc_field :: rule_field
  rc_operator :: rule_operator
  rc_value :: "string option"
  rc_values :: "string list option"
  rc_minMinor :: "jsnum option"
  rc_maxMinor :: "jsnum option"

record rule_action =
  ra_type :: rule_action_type
  ra_value :: string

record rule_draft =
  rd_name :: string
  rd_priority :: jsnum
  rd_enabled :: bool
  rd_conditions :: "rule_condition list"
  rd_actions :: "rule_action list"

record automation_rule =
  ar_id :: string
  ar_name :: string
  ar_priority :: int
  ar_enabled :: bool
  ar_conditions :: "rule_condition list"
  ar_actions :: "rule_action list"
  ar_createdAt :: string

fun condition_label :: "rule_field \<Rightarrow> string" where
  "condition_label Rule_description = ''Description''"
| "condition_label Rule_type = ''Entry type''"
| "condition_label Rule_amount = ''Amount''"
| "condition_label Rule_category = ''Category''"
| "condition_label Rule_account = ''Account''"
| "condition_label Rule_contact = ''Contact''"
| "condition_label Rule_imported = ''Came from import''"

fun operator_label :: "rule_operator \<Rightarrow> string" where
  "operator_label Contains = ''contains''"
| "operator_label Is_equal = ''is''"
| "operator_label Is_not_equal = ''is not''"
| "operator_label One_of = ''is one of''"
| "operator_label Greater_than = ''greater than''"
| "operator_label Less_than = ''less than''"
| "operator_label Between = ''between''"
| "operator_label Is_true = ''yes''"
| "operator_label Is_false = ''no''"

fun action_label :: "rule_action_type \<Rightarrow> string" where
  "action_label Set_category = ''Set category''"
| "action_label Set_contact = ''Set contact''"
| "action_label Rename = ''Rename entry''"
| "action_label Set_account = ''Move to account''"
| "action_label Add_tag = ''Add tag''"
| "action_label Set_privacy = ''Privacy''"

fun operatorsFor :: "rule_field \<Rightarrow> rule_operator list" where
  "operatorsFor Rule_description = [Contains, Is_equal]"
| "operatorsFor Rule_type = [Is_equal]"
| "operatorsFor Rule_amount = [Greater_than, Less_than, Between, Is_equal]"
| "operatorsFor Rule_category = [Is_equal, Is_not_equal]"
| "operatorsFor Rule_account = [Is_equal]"
| "operatorsFor Rule_contact = [Is_equal]"
| "operatorsFor Rule_imported = [Is_true, Is_false]"

definition new_condition :: rule_condition where
  "new_condition = \<lparr>rc_field = Rule_description, rc_operator = Contains, rc_value = Some [], rc_values = None, rc_minMinor = None, rc_maxMinor = None\<rparr>"

definition new_action :: rule_action where
  "new_action = \<lparr>ra_type = Set_category, ra_value = []\<rparr>"

definition emptyDraft :: rule_draft where
  "emptyDraft = \<lparr>rd_name = [], rd_priority = Fin 100, rd_enabled = True, rd_conditions = [new_condition], rd_actions = [new_action]\<rparr>"

definition draft_of :: "automation_rule \<Rightarrow> rule_draft" where
  "draft_of r = \<lparr>rd_name = ar_name r, rd_priority = Fin (of_int (ar_priority r)), rd_enabled = ar_enabled r,
     rd_conditions = ar_conditions r, rd_actions = ar_actions r\<rparr>"

definition rule_cmp :: "(string \<Rightarrow> string \<Rightarrow> int) \<Rightarrow> automation_rule \<Rightarrow> automation_rule \<Rightarrow> int" where
  "rule_cmp localeCompare left right = (if ar_priority left = ar_priority right then localeCompare (ar_createdAt left) (ar_createdAt right)
     else ar_priority left - ar_priority right)"

definition ordered_rules :: "(string \<Rightarrow> string \<Rightarrow> int) \<Rightarrow> automation_rule list option \<Rightarrow> automation_rule list" where
  "ordered_rules localeCompare answer = js_sort (rule_cmp localeCompare) (case answer of None \<Rightarrow> [] | Some rules \<Rightarrow> rules)"

subsection \<open>Descriptions\<close>

definition EN_DASH :: utf16 where
  "EN_DASH = [0x2013]"

text \<open>\<open>minorText\<close>; the bounds of a stored condition are whole numbers.\<close>

definition minorText :: "jsnum option \<Rightarrow> string" where
  "minorText value = (case value of None \<Rightarrow> ''?'' | Some x \<Rightarrow> hundredths_text (case x of Fin m \<Rightarrow> Fin (of_int (math_round m)) | _ \<Rightarrow> x))"

definition describeCondition :: "rule_condition \<Rightarrow> utf16" where
  "describeCondition c = (case rc_field c of
       Rule_amount \<Rightarrow> u16 (condition_label (rc_field c) @ '' '' @ operator_label (rc_operator c) @ '' '')
         @ (if rc_operator c = Between then u16 (minorText (rc_minMinor c)) @ EN_DASH @ u16 (minorText (rc_maxMinor c))
            else u16 (minorText (rc_minMinor c)))
     | Rule_imported \<Rightarrow> u16 (if rc_operator c = Is_true then ''From an import'' else ''Not from an import'')
     | _ \<Rightarrow> u16 (condition_label (rc_field c) @ '' '' @ operator_label (rc_operator c) @ '' '' @ [CHR 0x22]
         @ (case rc_values c of
              Some (v # vs) \<Rightarrow> js_join '', '' (v # vs)
            | _ \<Rightarrow> text_or (rc_value c) [])
         @ [CHR 0x22]))"

fun join_texts :: "utf16 \<Rightarrow> utf16 list \<Rightarrow> utf16" where
  "join_texts s [] = []"
| "join_texts s [x] = x"
| "join_texts s (x # y # xs) = x @ s @ join_texts s (y # xs)"

definition describeConditions :: "automation_rule \<Rightarrow> utf16" where
  "describeConditions r = join_texts (u16 '' AND '') (map describeCondition (ar_conditions r))"

definition describe_action :: "rule_action \<Rightarrow> string" where
  "describe_action a = (if ra_type a = Set_privacy then (if ra_value a = ''private'' then ''Make private'' else ''Share with workspace'')
     else action_label (ra_type a) @ '': '' @ ra_value a)"

definition describeActions :: "automation_rule \<Rightarrow> string" where
  "describeActions r = js_join ('' '' @ [CHR 0xB7] @ '' '') (map describe_action (ar_actions r))"

subsection \<open>The fields of the editor\<close>

definition needs_value :: "rule_operator \<Rightarrow> bool" where
  "needs_value p = (p \<noteq> Is_true \<and> p \<noteq> Is_false)"

definition hasConditionValue :: "rule_condition \<Rightarrow> bool" where
  "hasConditionValue c = (case rc_values c of Some (v # vs) \<Rightarrow> True | _ \<Rightarrow> js_trim (text_or (rc_value c) []) \<noteq> [])"

datatype value_input = No_input | Range_inputs | Select_type | Select_account | Select_contact | Text_input

definition condition_input :: "rule_condition \<Rightarrow> value_input" where
  "condition_input c = (if \<not> needs_value (rc_operator c) then No_input
     else if rc_operator c = Between then Range_inputs
     else case rc_field c of Rule_type \<Rightarrow> Select_type | Rule_account \<Rightarrow> Select_account | Rule_contact \<Rightarrow> Select_contact | _ \<Rightarrow> Text_input)"

text \<open>The values that a list offers; any text can be typed where there is none.\<close>

definition offered_values :: "string list \<Rightarrow> string list \<Rightarrow> rule_condition \<Rightarrow> string list option" where
  "offered_values accounts contacts c = (case condition_input c of
       Select_type \<Rightarrow> Some [''expense'', ''income'', ''transfer''] | Select_account \<Rightarrow> Some accounts | Select_contact \<Rightarrow> Some contacts
     | _ \<Rightarrow> None)"

definition shown_value :: "rule_condition \<Rightarrow> string" where
  "shown_value c = text_or (rc_value c) (if condition_input c = Select_type then ''expense'' else [])"

definition bound_of :: "string \<Rightarrow> jsnum option" where
  "bound_of s = (case parseFloat s of NaN \<Rightarrow> None | x \<Rightarrow> Some (round_hundredths x))"

definition shown_bound :: "jsnum option \<Rightarrow> string" where
  "shown_bound m = (case m of None \<Rightarrow> [] | Some x \<Rightarrow> hundredths_text x)"

definition action_values :: "string list \<Rightarrow> string list \<Rightarrow> rule_action \<Rightarrow> string list option" where
  "action_values accounts contacts a = (case ra_type a of
       Set_privacy \<Rightarrow> Some [''workspace'', ''private''] | Set_account \<Rightarrow> Some accounts | Set_contact \<Rightarrow> Some contacts | _ \<Rightarrow> None)"

definition shown_action_value :: "rule_action \<Rightarrow> string" where
  "shown_action_value a = (if ra_type a = Set_privacy \<and> ra_value a = [] then ''workspace'' else ra_value a)"

definition at_index :: "nat \<Rightarrow> ('a \<Rightarrow> 'a) \<Rightarrow> 'a list \<Rightarrow> 'a list" where
  "at_index i f xs = map (\<lambda>(position, x). if position = i then f x else x) (enumerate 0 xs)"

definition without_index :: "nat \<Rightarrow> 'a list \<Rightarrow> 'a list" where
  "without_index i xs = map snd (filter (\<lambda>(position, x). position \<noteq> i) (enumerate 0 xs))"

datatype draft_event =
    Type_name string | Type_priority string
  | Choose_field nat rule_field | Choose_operator nat rule_operator | Give_value nat string | Type_min nat string | Type_max nat string
  | Remove_condition nat | Add_condition
  | Choose_action nat rule_action_type | Give_action_value nat string | Remove_action nat | Add_action

definition offers :: "string list option \<Rightarrow> string \<Rightarrow> bool" where
  "offers values v = (case values of None \<Rightarrow> True | Some vs \<Rightarrow> v \<in> set vs)"

definition edit_condition :: "nat \<Rightarrow> (rule_condition \<Rightarrow> bool) \<Rightarrow> (rule_condition \<Rightarrow> rule_condition) \<Rightarrow> rule_draft \<Rightarrow> rule_draft" where
  "edit_condition i possible change d = (if i < length (rd_conditions d) \<and> possible (rd_conditions d ! i)
     then d\<lparr>rd_conditions := at_index i change (rd_conditions d)\<rparr> else d)"

definition edit_action :: "nat \<Rightarrow> (rule_action \<Rightarrow> bool) \<Rightarrow> (rule_action \<Rightarrow> rule_action) \<Rightarrow> rule_draft \<Rightarrow> rule_draft" where
  "edit_action i possible change d = (if i < length (rd_actions d) \<and> possible (rd_actions d ! i)
     then d\<lparr>rd_actions := at_index i change (rd_actions d)\<rparr> else d)"

text \<open>What the controls of the editor do to the draft; a list answers only with a value that it offers.\<close>

definition draft_step :: "string list \<Rightarrow> string list \<Rightarrow> rule_draft \<Rightarrow> draft_event \<Rightarrow> rule_draft" where
  "draft_step accounts contacts d e = (case e of
       Type_name s \<Rightarrow> if length s \<le> 120 then d\<lparr>rd_name := s\<rparr> else d
     | Type_priority s \<Rightarrow> d\<lparr>rd_priority := (case parseInt10 s of NaN \<Rightarrow> Fin 100 | x \<Rightarrow> x)\<rparr>
     | Choose_field i f \<Rightarrow> edit_condition i (\<lambda>c. True) (\<lambda>c. c\<lparr>rc_field := f, rc_operator := hd (operatorsFor f)\<rparr>) d
     | Choose_operator i p \<Rightarrow> edit_condition i (\<lambda>c. p \<in> set (operatorsFor (rc_field c))) (\<lambda>c. c\<lparr>rc_operator := p\<rparr>) d
     | Give_value i v \<Rightarrow> edit_condition i (\<lambda>c. condition_input c \<noteq> No_input \<and> condition_input c \<noteq> Range_inputs \<and> offers (offered_values accounts contacts c) v)
         (\<lambda>c. c\<lparr>rc_value := Some v\<rparr>) d
     | Type_min i s \<Rightarrow> edit_condition i (\<lambda>c. condition_input c = Range_inputs) (\<lambda>c. c\<lparr>rc_minMinor := bound_of s\<rparr>) d
     | Type_max i s \<Rightarrow> edit_condition i (\<lambda>c. condition_input c = Range_inputs) (\<lambda>c. c\<lparr>rc_maxMinor := bound_of s\<rparr>) d
     | Remove_condition i \<Rightarrow> if 1 < length (rd_conditions d) then d\<lparr>rd_conditions := without_index i (rd_conditions d)\<rparr> else d
     | Add_condition \<Rightarrow> d\<lparr>rd_conditions := rd_conditions d @ [new_condition]\<rparr>
     | Choose_action i t \<Rightarrow> edit_action i (\<lambda>a. True) (\<lambda>a. a\<lparr>ra_type := t, ra_value := []\<rparr>) d
     | Give_action_value i v \<Rightarrow> edit_action i (\<lambda>a. offers (action_values accounts contacts a) v) (\<lambda>a. a\<lparr>ra_value := v\<rparr>) d
     | Remove_action i \<Rightarrow> if 1 < length (rd_actions d) then d\<lparr>rd_actions := without_index i (rd_actions d)\<rparr> else d
     | Add_action \<Rightarrow> d\<lparr>rd_actions := rd_actions d @ [new_action]\<rparr>)"

subsection \<open>The checks\<close>

text \<open>The message of each kind of field that stays at the end, in the order of their first assignment.\<close>

definition condition_errors :: "rule_condition list \<Rightarrow> (string \<times> string) list" where
  "condition_errors cs =
     (if list_ex (\<lambda>c. needs_value (rc_operator c) \<and> \<not> hasConditionValue c) cs then [(''conditions'', ''Every condition needs a value'')]
      else if cs = [] then [(''conditions'', ''Add at least one condition'')] else [])"

definition action_errors :: "rule_action list \<Rightarrow> (string \<times> string) list" where
  "action_errors as =
     (if list_ex (\<lambda>a. ra_type a \<noteq> Add_tag \<and> js_trim (ra_value a) = []) as then [(''actions'', ''Every action needs a value'')]
      else if list_ex (\<lambda>a. ra_type a = Add_tag \<and> js_trim (ra_value a) = []) as then [(''actions'', ''Tags need a value'')]
      else if as = [] then [(''actions'', ''Add at least one action'')] else [])"

definition rule_errors :: "rule_draft \<Rightarrow> (string \<times> string) list" where
  "rule_errors d = (if js_trim (rd_name d) = [] then [(''name'', ''Enter a name'')] else [])
     @ condition_errors (rd_conditions d) @ action_errors (rd_actions d)"

subsection \<open>The page\<close>

record rule_editor =
  re_number :: nat
  re_id :: "string option"
  re_draft :: rule_draft
  re_errors :: "(string \<times> string) list"
  re_saving :: nat
  re_seenSaving :: bool

datatype rule_output =
    Sent_rule "string option" rule_draft nat
  | Sent_toggle string rule_draft
  | Sent_delete string
  | Tested_rule rule_draft

record rules_page =
  rp_editor :: "rule_editor option"
  rp_next :: nat
  rp_seenToggling :: bool
  rp_output :: "rule_output list"

definition new_rules_page :: rules_page where
  "new_rules_page = \<lparr>rp_editor = None, rp_next = 0, rp_seenToggling = False, rp_output = []\<rparr>"

definition canManage :: "bool \<Rightarrow> string list option \<Rightarrow> bool" where
  "canManage demoMode permissions = (\<not> demoMode \<and> hasWorkspacePermission demoMode permissions ''edit_all_transactions'')"

definition open_editor :: "string option \<Rightarrow> rule_draft \<Rightarrow> rules_page \<Rightarrow> rules_page" where
  "open_editor i d p = p\<lparr>rp_next := rp_next p + 1,
     rp_editor := Some \<lparr>re_number = rp_next p, re_id = i, re_draft = d, re_errors = [], re_saving = 0, re_seenSaving = False\<rparr>\<rparr>"

definition toggled_draft :: "automation_rule \<Rightarrow> rule_draft" where
  "toggled_draft r = (draft_of r)\<lparr>rd_enabled := \<not> ar_enabled r\<rparr>"

definition submit_rule :: "rule_editor \<Rightarrow> rules_page \<Rightarrow> rules_page" where
  "submit_rule w p = (if re_seenSaving w then p
     else if rule_errors (re_draft w) = []
     then p\<lparr>rp_editor := Some (w\<lparr>re_errors := [], re_saving := re_saving w + 1\<rparr>),
            rp_output := rp_output p @ [Sent_rule (re_id w) (re_draft w) (re_number w)]\<rparr>
     else p\<lparr>rp_editor := Some (w\<lparr>re_errors := rule_errors (re_draft w)\<rparr>)\<rparr>)"

text \<open>A saved rule closes the editor that is open then; an error is shown in the editor that sent the rule.\<close>

definition save_ends :: "nat \<Rightarrow> write_error option \<Rightarrow> rules_page \<Rightarrow> rules_page" where
  "save_ends number answer p = (case answer of
       None \<Rightarrow> p\<lparr>rp_editor := None\<rparr>
     | Some e \<Rightarrow> p\<lparr>rp_editor := map_option (\<lambda>w. if re_number w = number
           then w\<lparr>re_saving := re_saving w - 1,
                  re_errors := (case e of Api_failure message (Some fs) \<Rightarrow> fs | _ \<Rightarrow> [(''form'', ''The rule could not be saved.'')])\<rparr>
           else w) (rp_editor p)\<rparr>)"

datatype rules_event =
    New_rule | Edit_rule automation_rule | Toggle_rule automation_rule | Delete_rule automation_rule bool
  | Edit_draft draft_event | Submit_rule | Test_rule | Cancel_editor | Dismiss_editor | Save_ends nat "write_error option" | Rules_render bool

text \<open>The bar with the list is behind the open editor, which is modal. \<open>Rules_render\<close> tells whether a toggle is pending.\<close>

definition rules_step :: "bool \<Rightarrow> string list option \<Rightarrow> string list \<Rightarrow> string list \<Rightarrow> rules_page \<Rightarrow> rules_event \<Rightarrow> rules_page" where
  "rules_step demoMode permissions accounts contacts p e =
     (let free = (canManage demoMode permissions \<and> rp_editor p = None) in
      case e of
        New_rule \<Rightarrow> if free then open_editor None emptyDraft p else p
      | Edit_rule r \<Rightarrow> if free then open_editor (Some (ar_id r)) (draft_of r) p else p
      | Toggle_rule r \<Rightarrow> if free \<and> \<not> rp_seenToggling p then p\<lparr>rp_output := rp_output p @ [Sent_toggle (ar_id r) (toggled_draft r)]\<rparr> else p
      | Delete_rule r confirmed \<Rightarrow> if free \<and> confirmed then p\<lparr>rp_output := rp_output p @ [Sent_delete (ar_id r)]\<rparr> else p
      | Edit_draft ev \<Rightarrow> p\<lparr>rp_editor := map_option (\<lambda>w. w\<lparr>re_draft := draft_step accounts contacts (re_draft w) ev\<rparr>) (rp_editor p)\<rparr>
      | Submit_rule \<Rightarrow> (case rp_editor p of None \<Rightarrow> p | Some w \<Rightarrow> submit_rule w p)
      | Test_rule \<Rightarrow> (case rp_editor p of None \<Rightarrow> p | Some w \<Rightarrow> p\<lparr>rp_output := rp_output p @ [Tested_rule (re_draft w)]\<rparr>)
      | Cancel_editor \<Rightarrow> p\<lparr>rp_editor := None\<rparr>
      | Dismiss_editor \<Rightarrow> (case rp_editor p of Some w \<Rightarrow> if re_seenSaving w then p else p\<lparr>rp_editor := None\<rparr> | None \<Rightarrow> p)
      | Save_ends number answer \<Rightarrow> save_ends number answer p
      | Rules_render toggling \<Rightarrow> p\<lparr>rp_seenToggling := toggling,
          rp_editor := map_option (\<lambda>w. w\<lparr>re_seenSaving := re_saving w \<noteq> 0\<rparr>) (rp_editor p)\<rparr>)"

subsection \<open>What the API asks of a condition\<close>

fun server_operators :: "rule_field \<Rightarrow> rule_operator list" where
  "server_operators Rule_type = [Is_equal, One_of]"
| "server_operators Rule_account = [Is_equal, One_of]"
| "server_operators Rule_description = [Contains, Is_equal]"
| "server_operators Rule_contact = [Contains, Is_equal]"
| "server_operators Rule_category = [Is_equal, Is_not_equal]"
| "server_operators Rule_amount = [Greater_than, Less_than, Between, Is_equal]"
| "server_operators Rule_imported = [Is_true, Is_false]"

definition IsValidRuleConditionOperator :: "rule_field \<Rightarrow> rule_operator \<Rightarrow> bool" where
  "IsValidRuleConditionOperator f p = (p \<in> set (server_operators f))"

text \<open>The error of a condition on the amount; its bounds are whole numbers.\<close>

definition amount_condition_error :: "rule_operator \<Rightarrow> int option \<Rightarrow> int option \<Rightarrow> string option" where
  "amount_condition_error p lowest highest =
     (if p = Is_equal \<and> (case lowest of None \<Rightarrow> True | Some n \<Rightarrow> n < 0) then Some ''amount equals requires minMinor''
      else if (p = Greater_than \<or> p = Less_than) \<and> (case lowest of None \<Rightarrow> True | Some n \<Rightarrow> n < 0) then Some ''requires a non-negative minMinor''
      else if p = Between \<and> (case (lowest, highest) of (Some n, Some m) \<Rightarrow> n < 0 \<or> m < n | _ \<Rightarrow> True)
        then Some ''between requires minMinor and maxMinor with min <= max''
      else None)"

section \<open>The editor keeps a rule whole\<close>

lemma at_index_nth: "at_index i f xs = (if i < length xs then xs[i := f (xs ! i)] else xs)"
  by (rule nth_equalityI) (auto simp: at_index_def nth_enumerate_eq nth_list_update)

lemma without_index_length: "i < length xs \<Longrightarrow> length (without_index i xs) = length xs - 1"
proof -
  assume i: "i < length xs"
  have e: "filter (\<lambda>(p, x). p \<noteq> i) (enumerate 0 xs) = filter (\<lambda>q. fst q \<noteq> i) (enumerate 0 xs)" by (rule filter_cong) auto
  have "length (filter (\<lambda>q. fst q = i) (enumerate 0 xs)) = 1"
  proof -
    have "filter (\<lambda>q. fst q = i) (enumerate 0 xs) = [(i, xs ! i)]"
    proof -
      have "enumerate 0 xs = enumerate 0 (take i xs) @ (i, xs ! i) # enumerate (Suc i) (drop (Suc i) xs)"
        using i by (subst id_take_nth_drop [OF i]) (simp add: enumerate_append_eq min_def)
      moreover have "filter (\<lambda>q. fst q = i) (enumerate 0 (take i xs)) = []"
        by (auto simp: filter_empty_conv in_set_enumerate_eq)
      moreover have "filter (\<lambda>q. fst q = i) (enumerate (Suc i) (drop (Suc i) xs)) = []"
        by (auto simp: filter_empty_conv in_set_enumerate_eq)
      ultimately show ?thesis by simp
    qed
    then show ?thesis by simp
  qed
  then show ?thesis using sum_length_filter_compl [of "\<lambda>q. fst q = i" "enumerate 0 xs"]
    by (simp add: without_index_def e)
qed

lemma set_without_index: "set (without_index i xs) \<subseteq> set xs"
  by (auto simp: without_index_def in_set_enumerate_eq)

lemma without_index_beyond: "length xs \<le> i \<Longrightarrow> without_index i xs = xs"
proof -
  assume "length xs \<le> i"
  then have "filter (\<lambda>(p, x). p \<noteq> i) (enumerate 0 xs) = enumerate 0 xs"
    by (auto simp: filter_id_conv in_set_enumerate_eq)
  then show ?thesis by (simp add: without_index_def)
qed

lemma without_index_nonempty: "1 < length xs \<Longrightarrow> without_index i xs \<noteq> []"
  using without_index_length [of i xs] without_index_beyond [of xs i] by (cases "i < length xs") auto

definition condition_known :: "rule_condition \<Rightarrow> bool" where
  "condition_known c = (rc_operator c \<in> set (operatorsFor (rc_field c)) \<and> IsValidRuleConditionOperator (rc_field c) (rc_operator c))"

definition draft_whole :: "rule_draft \<Rightarrow> bool" where
  "draft_whole d = (rd_conditions d \<noteq> [] \<and> rd_actions d \<noteq> [] \<and> list_all condition_known (rd_conditions d))"

lemma offered_known: "p \<in> set (operatorsFor f) \<Longrightarrow> IsValidRuleConditionOperator f p"
  by (cases f) (auto simp: IsValidRuleConditionOperator_def)

lemma first_operator: "hd (operatorsFor f) \<in> set (operatorsFor f)"
  by (cases f) auto

lemma edit_condition_whole:
  assumes "draft_whole d" "\<And>c. possible c \<Longrightarrow> condition_known c \<Longrightarrow> condition_known (change c)"
  shows "draft_whole (edit_condition i possible change d)"
proof (cases "i < length (rd_conditions d) \<and> possible (rd_conditions d ! i)")
  case True
  then have "condition_known (change (rd_conditions d ! i))" using assms by (simp add: draft_whole_def list_all_length)
  with True assms(1) show ?thesis by (auto simp: edit_condition_def draft_whole_def at_index_nth list_all_length nth_list_update)
qed (use assms(1) in \<open>auto simp: edit_condition_def\<close>)

lemma edit_action_whole: "draft_whole d \<Longrightarrow> draft_whole (edit_action i possible change d)"
  by (auto simp: edit_action_def draft_whole_def at_index_nth)

lemma draft_step_whole: "draft_whole d \<Longrightarrow> draft_whole (draft_step accounts contacts d e)"
proof (cases e)
  case (Remove_condition i)
  assume "draft_whole d"
  with Remove_condition show ?thesis
    using without_index_nonempty [of "rd_conditions d" i] set_without_index [of i "rd_conditions d"]
    by (auto simp: draft_step_def draft_whole_def list_all_iff)
next
  case (Remove_action i)
  assume "draft_whole d"
  with Remove_action show ?thesis using without_index_nonempty [of "rd_actions d" i] by (auto simp: draft_step_def draft_whole_def)
next
  case (Choose_field i f)
  assume "draft_whole d"
  then show ?thesis unfolding Choose_field draft_step_def draft_event.case
    by (rule edit_condition_whole) (simp add: condition_known_def first_operator offered_known)
next
  case (Choose_operator i p)
  assume "draft_whole d"
  then show ?thesis unfolding Choose_operator draft_step_def draft_event.case
    by (rule edit_condition_whole) (simp add: condition_known_def offered_known)
qed (auto simp: draft_step_def draft_whole_def condition_known_def new_condition_def IsValidRuleConditionOperator_def
    intro!: edit_condition_whole [unfolded draft_whole_def] edit_action_whole [unfolded draft_whole_def])

text \<open>C37. A new rule stays whole in the editor: whatever is typed, chosen, added and removed, it keeps a condition and an action,
  and the operator of each condition is one that its list offers for the field and that the API knows for it.\<close>

theorem edited_rule_whole: "draft_whole (foldl (draft_step accounts contacts) emptyDraft es)"
proof -
  have "draft_whole d \<Longrightarrow> draft_whole (foldl (draft_step accounts contacts) d es)" for d
    by (induction es arbitrary: d) (simp_all add: draft_step_whole)
  moreover have "draft_whole emptyDraft"
    by (simp add: draft_whole_def emptyDraft_def condition_known_def new_condition_def IsValidRuleConditionOperator_def)
  ultimately show ?thesis by blast
qed

section \<open>What the page sends\<close>

definition condition_filled :: "rule_condition \<Rightarrow> bool" where
  "condition_filled c = (rc_operator c \<in> {Is_true, Is_false} \<or> js_trim (text_or (rc_value c) []) \<noteq> [] \<or> rc_values c \<noteq> None \<and> rc_values c \<noteq> Some [])"

definition rule_output_sound :: "rule_output \<Rightarrow> bool" where
  "rule_output_sound q = (case q of
       Sent_rule i d k \<Rightarrow> js_trim (rd_name d) \<noteq> [] \<and> rd_conditions d \<noteq> [] \<and> rd_actions d \<noteq> [] \<and>
         list_all condition_filled (rd_conditions d) \<and> list_all (\<lambda>a. js_trim (ra_value a) \<noteq> []) (rd_actions d)
     | _ \<Rightarrow> True)"

lemma checked_rule:
  assumes "rule_errors d = []"
  shows "rule_output_sound (Sent_rule i d k)"
proof -
  have c: "condition_errors (rd_conditions d) = []" and a: "action_errors (rd_actions d) = []" and n: "js_trim (rd_name d) \<noteq> []"
    using assms by (auto simp: rule_errors_def split: if_splits)
  have "condition_filled x" if "x \<in> set (rd_conditions d)" for x
    using c that by (auto simp: condition_errors_def condition_filled_def needs_value_def hasConditionValue_def list_ex_iff
        split: if_splits option.splits list.splits)
  moreover have "js_trim (ra_value x) \<noteq> []" if "x \<in> set (rd_actions d)" for x
    using a that by (auto simp: action_errors_def list_ex_iff split: if_splits)
  moreover have "rd_conditions d \<noteq> []" "rd_actions d \<noteq> []"
    using c a by (auto simp: condition_errors_def action_errors_def split: if_splits)
  ultimately show ?thesis using n by (simp add: rule_output_sound_def list_all_iff)
qed

lemma rules_step_sound:
  assumes "list_all rule_output_sound (rp_output p)"
  shows "list_all rule_output_sound (rp_output (rules_step demoMode permissions accounts contacts p e))"
proof (cases e)
  case Submit_rule
  then show ?thesis using assms checked_rule
    by (auto simp: rules_step_def submit_rule_def split: option.splits)
qed (use assms in \<open>auto simp: rules_step_def open_editor_def save_ends_def rule_output_sound_def split: option.splits\<close>)

text \<open>C38. Every rule that the editor sends to be saved, new or edited, has a name, a condition and an action, a value or a list
  of values in every condition that needs one, and a value in every action, whatever happens on the page and in whatever order.
  It says nothing of a rule that is only tried out, which the page sends as it stands, nor of a rule of the list that is
  switched on or off.\<close>

theorem sent_rules_checked:
  "list_all rule_output_sound (rp_output (foldl (rules_step demoMode permissions accounts contacts) new_rules_page es))"
proof -
  have "list_all rule_output_sound (rp_output p) \<Longrightarrow>
      list_all rule_output_sound (rp_output (foldl (rules_step demoMode permissions accounts contacts) p es))" for p
    by (induction es arbitrary: p) (simp_all only: foldl.simps rules_step_sound)
  then show ?thesis by (simp add: new_rules_page_def)
qed

text \<open>Without the permission, and in a demonstration, no editor opens and nothing is sent.\<close>

lemma rules_need_permission:
  fixes accounts contacts :: "string list" and es :: "rules_event list"
  assumes "\<not> canManage demoMode permissions"
  defines "p \<equiv> foldl (rules_step demoMode permissions accounts contacts) new_rules_page es"
  shows "rp_editor p = None \<and> rp_output p = []"
proof -
  have "rp_editor q = None \<and> rp_output q = [] \<Longrightarrow>
      rp_editor (foldl (rules_step demoMode permissions accounts contacts) q es) = None \<and>
      rp_output (foldl (rules_step demoMode permissions accounts contacts) q es) = []" for q
  proof (induction es arbitrary: q)
    case (Cons e es)
    have "rp_editor (rules_step demoMode permissions accounts contacts q e) = None \<and> rp_output (rules_step demoMode permissions accounts contacts q e) = []"
      using Cons.prems assms(1) by (cases e) (auto simp: rules_step_def save_ends_def split: option.splits)
    then show ?case using Cons.IH by simp
  qed simp
  then show ?thesis by (simp add: p_def new_rules_page_def)
qed

section \<open>The order of the rules\<close>

text \<open>The list is sorted by priority, rules of one priority by their creation, and has the same rules as the answer.\<close>

lemma rule_cmp_comparator:
  assumes "comparator localeCompare"
  shows "comparator (rule_cmp localeCompare)"
proof
  fix x y z
  show "rule_cmp localeCompare x y \<le> 0 \<or> rule_cmp localeCompare y x \<le> 0"
    using comparator.cmp_total [OF assms] by (auto simp: rule_cmp_def)
  show "rule_cmp localeCompare x y \<le> 0 \<Longrightarrow> rule_cmp localeCompare y z \<le> 0 \<Longrightarrow> rule_cmp localeCompare x z \<le> 0"
    using comparator.cmp_trans [OF assms] by (auto simp: rule_cmp_def split: if_splits)
qed

lemma ordered_rules_sorted:
  assumes "comparator localeCompare"
  shows "sorted_wrt (\<lambda>l r. ar_priority l \<le> ar_priority r) (ordered_rules localeCompare (Some rules))"
    "mset (ordered_rules localeCompare (Some rules)) = mset rules"
proof -
  have "sorted_wrt (\<lambda>x y. rule_cmp localeCompare x y \<le> 0) (ordered_rules localeCompare (Some rules))"
    unfolding ordered_rules_def option.case by (rule comparator.sorted_js_sort [OF rule_cmp_comparator [OF assms]])
  then show "sorted_wrt (\<lambda>l r. ar_priority l \<le> ar_priority r) (ordered_rules localeCompare (Some rules))"
    by (rule sorted_wrt_mono_rel [rotated]) (auto simp: rule_cmp_def split: if_splits)
qed (simp add: ordered_rules_def)

section \<open>Where the editor and the API disagree\<close>

text \<open>A condition that compares the amount takes its number as text: the editor accepts it, its description shows no number,
  and the API refuses it for want of a bound.\<close>

lemma amount_rule_refused:
  fixes accounts contacts :: "string list"
  assumes "js_trim v \<noteq> []"
  defines "d \<equiv> foldl (draft_step accounts contacts) emptyDraft [Choose_field 0 Rule_amount, Give_value 0 v]"
  shows "condition_errors (rd_conditions d) = []"
    "map describeCondition (rd_conditions d) = [u16 ''Amount greater than ?'']"
    "map (\<lambda>c. amount_condition_error (rc_operator c) None None) (rd_conditions d) = [Some ''requires a non-negative minMinor'']"
    "map rc_minMinor (rd_conditions d) = [None]"
proof -
  have d: "rd_conditions d = [new_condition\<lparr>rc_field := Rule_amount, rc_operator := Greater_than, rc_value := Some v\<rparr>]"
    by (simp add: d_def emptyDraft_def draft_step_def edit_condition_def at_index_nth new_condition_def condition_input_def needs_value_def
        offered_values_def offers_def)
  show "condition_errors (rd_conditions d) = []"
    using assms(1) by (simp add: d condition_errors_def hasConditionValue_def new_condition_def text_or_def)
  show "map describeCondition (rd_conditions d) = [u16 ''Amount greater than ?'']"
    by (simp add: d describeCondition_def new_condition_def minorText_def flip: u16_append)
qed (simp_all add: d_def emptyDraft_def draft_step_def edit_condition_def at_index_nth new_condition_def condition_input_def needs_value_def
        offered_values_def offers_def amount_condition_error_def)

text \<open>A range of amounts with both bounds, which the API would accept, is refused by the editor.\<close>

lemma range_never_saved:
  "condition_errors (rd_conditions (foldl (draft_step accounts contacts) emptyDraft
     [Choose_field 0 Rule_amount, Choose_operator 0 Between, Type_min 0 s, Type_max 0 t])) = [(''conditions'', ''Every condition needs a value'')]"
  by (simp add: emptyDraft_def draft_step_def edit_condition_def at_index_nth new_condition_def condition_input_def needs_value_def
      condition_errors_def hasConditionValue_def text_or_def js_trim_def trim_start_def trim_end_def)

text \<open>The action on the visibility shows the workspace as chosen and is refused as empty.\<close>

lemma shown_privacy_refused:
  fixes accounts contacts :: "string list"
  defines "d \<equiv> draft_step accounts contacts emptyDraft (Choose_action 0 Set_privacy)"
  shows "map shown_action_value (rd_actions d) = [''workspace'']" "action_errors (rd_actions d) = [(''actions'', ''Every action needs a value'')]"
  by (simp_all add: d_def emptyDraft_def draft_step_def edit_action_def at_index_nth new_action_def shown_action_value_def action_errors_def
      js_trim_def trim_start_def trim_end_def)

text \<open>The text of a description stays in a condition that is turned into one on the entry type.\<close>

lemma stale_value_accepted:
  fixes accounts contacts :: "string list"
  assumes "js_trim v \<noteq> []" "v \<notin> {''expense'', ''income'', ''transfer''}"
  defines "d \<equiv> foldl (draft_step accounts contacts) emptyDraft [Give_value 0 v, Choose_field 0 Rule_type]"
  shows "condition_errors (rd_conditions d) = [] \<and> map rc_value (rd_conditions d) = [Some v]"
  using assms(1) by (simp add: d_def emptyDraft_def draft_step_def edit_condition_def at_index_nth new_condition_def condition_input_def
      needs_value_def offered_values_def offers_def condition_errors_def hasConditionValue_def text_or_def)

text \<open>The reply to a rule that was saved, whose editor was left with Cancel, closes the editor that is open by then.\<close>

lemma late_save_closes_editor:
  assumes "canManage demoMode permissions" "rp_editor p = Some w"
  shows "rp_editor (foldl (rules_step demoMode permissions accounts contacts) p
    ([Cancel_editor, New_rule] @ map Edit_draft es @ [Save_ends (re_number w) None])) = None"
  by (simp add: rules_step_def save_ends_def)

end
