(* ===== verification/BalancePages.thy ===== *)
theory BalancePages
  imports NumberInput FinanceData DateOnly
begin

text \<open>
  The two pages that compare balances: the reconciliation of an account with a statement
  (web/src/pages/finance/reconciliation.tsx) and the forecast (pages/finance/forecast.tsx): the scenario, the planned items, the
  strip of projected balances. \<open>now\<close> is the local clock, \<open>new Date()\<close> with its offset added. Of the API
  (src/api/internal/service/forecast.go) only what a planned item must have is modelled. Printed dates and amounts, the list of
  past reconciliations and the markup are left out.
\<close>

section \<open>Definitions\<close>

subsection \<open>Reconciling an account\<close>

text \<open>\<open>todayIso\<close>: the local day, some days later.\<close>

definition todayIso :: "int \<Rightarrow> int \<Rightarrow> string" where
  "todayIso now offsetDays = iso_slice (ms_per_day * (day_of_time now + offsetDays))"

record recon_preview =
  pv_currency :: string
  pv_ledgerBalanceMinor :: jsnum
  pv_statementBalanceMinor :: "jsnum option"
  pv_differenceMinor :: "jsnum option"
  pv_hasStatementBalance :: bool

datatype recon_request =
    Compare_request string string jsnum
  | Record_request string string jsnum bool string

record recon =
  rn_accountId :: string
  rn_statementDate :: string
  rn_statementBalance :: string
  rn_acknowledge :: bool
  rn_note :: string
  rn_errors :: "(string, string) omap"
  rn_preview :: "recon_preview option"
  rn_seenComparing :: bool
  rn_seenRecording :: bool
  rn_requests :: "recon_request list"


definition choose_first :: "account list \<Rightarrow> recon \<Rightarrow> recon" where
  "choose_first active r = (if rn_accountId r = [] \<and> active \<noteq> [] then r\<lparr>rn_accountId := acc_id (hd active)\<rparr> else r)"

definition statement_minor :: "recon \<Rightarrow> jsnum" where
  "statement_minor r = round_hundredths (parseFloat (rn_statementBalance r))"

definition compare_ledger :: "recon \<Rightarrow> recon" where
  "compare_ledger r = r\<lparr>rn_requests := rn_requests r @ [Compare_request (rn_accountId r) (rn_statementDate r) (statement_minor r)]\<rparr>"

definition server_or_form :: "write_error \<Rightarrow> string \<Rightarrow> (string, string) omap" where
  "server_or_form e message = (case e of Api_failure m (Some fs) \<Rightarrow> fs | _ \<Rightarrow> [(''form'', message)])"

definition compare_ends :: "write_error + recon_preview \<Rightarrow> recon \<Rightarrow> recon" where
  "compare_ends answer r = (case answer of
       Inr pv \<Rightarrow> r\<lparr>rn_preview := Some pv, rn_acknowledge := False, rn_errors := []\<rparr>
     | Inl e \<Rightarrow> r\<lparr>rn_errors := server_or_form e ''The comparison could not be calculated.''\<rparr>)"

text \<open>\<open>preview.differenceMinor !== 0\<close>: an absent difference is one, too.\<close>

definition has_difference :: "recon_preview \<Rightarrow> bool" where
  "has_difference pv = (pv_differenceMinor pv \<noteq> Some (Fin 0))"

definition record_enabled :: "bool \<Rightarrow> recon \<Rightarrow> bool" where
  "record_enabled canComplete r = (case rn_preview r of None \<Rightarrow> False
     | Some pv \<Rightarrow> canComplete \<and> \<not> rn_seenRecording r \<and> \<not> (has_difference pv \<and> \<not> rn_acknowledge r))"

definition record_reconciliation :: "recon \<Rightarrow> recon" where
  "record_reconciliation r = r\<lparr>rn_requests := rn_requests r
     @ [Record_request (rn_accountId r) (rn_statementDate r) (statement_minor r) (rn_acknowledge r) (rn_note r)]\<rparr>"

definition record_ends :: "write_error option \<Rightarrow> recon \<Rightarrow> recon" where
  "record_ends answer r = (case answer of
       None \<Rightarrow> r\<lparr>rn_preview := None, rn_statementBalance := [], rn_note := []\<rparr>
     | Some e \<Rightarrow> r\<lparr>rn_errors := server_or_form e ''The reconciliation could not be recorded.''\<rparr>)"

datatype difference_badge = Matches | Off_by jsnum string

definition differenceBadge :: "recon_preview option \<Rightarrow> difference_badge option" where
  "differenceBadge preview = (case preview of None \<Rightarrow> None
     | Some pv \<Rightarrow> if \<not> pv_hasStatementBalance pv then None
         else (let difference = (case pv_differenceMinor pv of Some d \<Rightarrow> d | None \<Rightarrow> Fin 0)
               in if difference = Fin 0 then Some Matches
                  else Some (Off_by (case difference of Fin d \<Rightarrow> Fin \<bar>d\<bar> | NInf \<Rightarrow> PInf | _ \<Rightarrow> difference) (pv_currency pv))))"

datatype recon_event =
    Accounts_arrive "account list" | Choose_account string | Type_date string | Type_balance string | Set_acknowledge bool | Type_note string
  | Press_compare | Compare_ends "write_error + recon_preview" | Press_record | Record_ends "write_error option" | Recon_render bool bool

text \<open>\<open>Recon_render\<close> tells which of the two mutations is pending at a render.\<close>

definition recon_step :: "bool \<Rightarrow> recon \<Rightarrow> recon_event \<Rightarrow> recon" where
  "recon_step canComplete r e = (case e of
       Accounts_arrive active \<Rightarrow> choose_first active r
     | Choose_account v \<Rightarrow> r\<lparr>rn_accountId := v, rn_preview := None\<rparr>
     | Type_date v \<Rightarrow> r\<lparr>rn_statementDate := v, rn_preview := None\<rparr>
     | Type_balance v \<Rightarrow> r\<lparr>rn_statementBalance := v, rn_preview := None, rn_errors := om_delete (rn_errors r) ''statementBalanceMinor''\<rparr>
     | Set_acknowledge b \<Rightarrow> (case rn_preview r of Some pv \<Rightarrow> if has_difference pv \<and> canComplete then r\<lparr>rn_acknowledge := b\<rparr> else r | None \<Rightarrow> r)
     | Type_note v \<Rightarrow> (case rn_preview r of Some pv \<Rightarrow> if canComplete \<and> length v \<le> 500 then r\<lparr>rn_note := v\<rparr> else r | None \<Rightarrow> r)
     | Press_compare \<Rightarrow> if rn_seenComparing r \<or> js_trim (rn_statementBalance r) = [] then r else compare_ledger r
     | Compare_ends answer \<Rightarrow> compare_ends answer r
     | Press_record \<Rightarrow> if record_enabled canComplete r then record_reconciliation r else r
     | Record_ends answer \<Rightarrow> record_ends answer r
     | Recon_render comparing recording \<Rightarrow> r\<lparr>rn_seenComparing := comparing, rn_seenRecording := recording\<rparr>)"

subsection \<open>The scenario of a forecast\<close>

record one_off =
  oo_date :: string
  oo_income :: bool
  oo_label :: string
  oo_amountMinor :: jsnum

record scenario =
  sn_days :: rat
  sn_includeBills :: bool
  sn_includeBaseline :: bool
  sn_includeIncome :: bool
  sn_oneOffs :: "one_off list"

definition new_scenario :: scenario where
  "new_scenario = \<lparr>sn_days = 30, sn_includeBills = True, sn_includeBaseline = True, sn_includeIncome = True, sn_oneOffs = []\<rparr>"

definition HORIZONS :: "rat list" where
  "HORIZONS = [7, 30, 90]"

definition planned_minor :: "string \<Rightarrow> jsnum" where
  "planned_minor s = (case parseFloat s of NaN \<Rightarrow> Fin 0 | x \<Rightarrow> js_max (round_hundredths x) (Fin 0))"

definition shown_planned :: "jsnum \<Rightarrow> string" where
  "shown_planned x = (if x = Fin 0 then [] else hundredths_text x)"

definition planned_item :: "int \<Rightarrow> one_off" where
  "planned_item now = \<lparr>oo_date = todayIso now 3, oo_income = False, oo_label = [], oo_amountMinor = Fin 0\<rparr>"

definition isValidOneOff :: "one_off \<Rightarrow> bool" where
  "isValidOneOff item = (oo_date item \<noteq> [] \<and> js_trim (oo_label item) \<noteq> [] \<and> js_less (Fin 0) (oo_amountMinor item))"

definition change_item :: "nat \<Rightarrow> (one_off \<Rightarrow> one_off) \<Rightarrow> scenario \<Rightarrow> scenario" where
  "change_item i f s = s\<lparr>sn_oneOffs := map (\<lambda>(position, item). if position = i then f item else item) (enumerate 0 (sn_oneOffs s))\<rparr>"

datatype scenario_event =
    Horizon rat | Type_days string | Set_bills bool | Set_baseline bool | Set_income bool
  | Item_date nat string | Item_income nat bool | Item_label nat string | Item_amount nat string | Remove_item nat | Plan_item int

definition scenario_step :: "scenario \<Rightarrow> scenario_event \<Rightarrow> scenario" where
  "scenario_step s e = (case e of
       Horizon h \<Rightarrow> if h \<in> set HORIZONS then s\<lparr>sn_days := h\<rparr> else s
     | Type_days v \<Rightarrow> (case parseInt10 v of Fin n \<Rightarrow> s\<lparr>sn_days := min (max n 1) 365\<rparr> | _ \<Rightarrow> s)
     | Set_bills b \<Rightarrow> s\<lparr>sn_includeBills := b\<rparr>
     | Set_baseline b \<Rightarrow> s\<lparr>sn_includeBaseline := b\<rparr>
     | Set_income b \<Rightarrow> s\<lparr>sn_includeIncome := b\<rparr>
     | Item_date i v \<Rightarrow> change_item i (\<lambda>x. x\<lparr>oo_date := v\<rparr>) s
     | Item_income i b \<Rightarrow> change_item i (\<lambda>x. x\<lparr>oo_income := b\<rparr>) s
     | Item_label i v \<Rightarrow> change_item i (\<lambda>x. x\<lparr>oo_label := v\<rparr>) s
     | Item_amount i v \<Rightarrow> change_item i (\<lambda>x. x\<lparr>oo_amountMinor := planned_minor v\<rparr>) s
     | Remove_item i \<Rightarrow> s\<lparr>sn_oneOffs := map snd (filter (\<lambda>(position, item). position \<noteq> i) (enumerate 0 (sn_oneOffs s)))\<rparr>
     | Plan_item now \<Rightarrow> s\<lparr>sn_oneOffs := sn_oneOffs s @ [planned_item now]\<rparr>)"

text \<open>The scenario that the page asks a forecast for, if it asks.\<close>

definition forecast_asked :: "bool \<Rightarrow> string list option \<Rightarrow> scenario \<Rightarrow> scenario option" where
  "forecast_asked demoMode permissions s =
     (if hasWorkspacePermission demoMode permissions ''view_balances'' \<and> \<not> demoMode then Some s else None)"

definition items_warning :: "scenario \<Rightarrow> bool" where
  "items_warning s = (sn_oneOffs s \<noteq> [] \<and> \<not> list_all isValidOneOff (sn_oneOffs s))"

text \<open>What the API asks of the amount of a planned item.\<close>

definition server_refuses_amount :: "jsnum \<Rightarrow> bool" where
  "server_refuses_amount x = (case x of Fin n \<Rightarrow> n \<le> 0 | _ \<Rightarrow> True)"

subsection \<open>The strip of balances\<close>

text \<open>The balances are whole hundredths. \<open>top\<close> of a bar and of the zero line is a percentage of the height of the strip, counted
  from its top (the style of forecast.tsx); it is where the upper edge of the bar is, and a bar is 8 pixels high in a strip of
  148 (\<open>.forecast-bar\<close> and \<open>.forecast-strip\<close> of web/src/index.css).\<close>

record strip =
  st_bars :: "rat list"
  st_zero :: rat

definition balance_span :: "int \<Rightarrow> int list \<Rightarrow> int \<times> rat" where
  "balance_span starting balances = (let maximum = Max (set (0 # starting # balances)); minimum = Min (set (0 # starting # balances));
     span = fl64 (of_int (maximum - minimum)) in (maximum, if span = 0 then 1 else span))"

definition to_percent :: "rat \<Rightarrow> rat" where
  "to_percent ratio = fl64 (ratio * 100)"

definition balance_strip :: "int \<Rightarrow> int list \<Rightarrow> strip" where
  "balance_strip starting balances = (let (maximum, span) = balance_span starting balances
     in \<lparr>st_bars = map (\<lambda>b. to_percent (fl64 (fl64 (of_int (maximum - b)) / span))) balances,
         st_zero = to_percent (fl64 (fl64 (of_int (maximum - 0)) / span))\<rparr>)"

definition strip_height :: rat where
  "strip_height = 148"

definition bar_height :: rat where
  "bar_height = 8"

text \<open>The upper and the lower edge of a bar, in pixels below the upper edge of the strip.\<close>

definition bar_edges :: "rat \<Rightarrow> rat \<times> rat" where
  "bar_edges p = (p / 100 * strip_height, p / 100 * strip_height + bar_height)"

datatype bar_tone = Negative_bar | Spendy_bar | Calm_bar

definition bar_tone_of :: "int \<Rightarrow> int \<Rightarrow> int \<Rightarrow> bar_tone" where
  "bar_tone_of closing expense income = (if closing < 0 then Negative_bar else if income < expense then Spendy_bar else Calm_bar)"

section \<open>A reconciliation that is recorded\<close>

definition recorded :: "recon_request list \<Rightarrow> recon_request list" where
  "recorded = filter (\<lambda>q. case q of Record_request a d n k t \<Rightarrow> True | _ \<Rightarrow> False)"












text \<open>A new comparison takes the acknowledgement back, and a change of the account, the day or the balance removes it.\<close>

lemma acknowledged_anew:
  "\<not> rn_acknowledge (recon_step canComplete r (Compare_ends (Inr pv)))"
  "rn_preview (recon_step canComplete r (Choose_account v)) = None"
  "rn_preview (recon_step canComplete r (Type_date v)) = None"
  "rn_preview (recon_step canComplete r (Type_balance v)) = None"
  by (simp_all add: recon_step_def compare_ends_def)

text \<open>A comparison that arrives after the balance was changed is shown beside the new balance: what was compared to match records
  the balance that was not compared, without an acknowledgement.\<close>

lemma late_comparison_recorded:
  fixes entered :: string
  assumes "js_trim old \<noteq> []" "\<not> rn_seenComparing r" "\<not> rn_seenRecording r" "pv_differenceMinor pv = Some (Fin 0)"
  defines "s \<equiv> foldl (recon_step True) r [Type_balance old, Press_compare, Type_balance entered, Compare_ends (Inr pv), Press_record]"
  shows "drop (length (rn_requests r)) (rn_requests s) =
    [Compare_request (rn_accountId r) (rn_statementDate r) (round_hundredths (parseFloat old)),
     Record_request (rn_accountId r) (rn_statementDate r) (round_hundredths (parseFloat entered)) False (rn_note r)]"
  using assms(1-4) by (simp add: s_def recon_step_def compare_ledger_def compare_ends_def record_enabled_def has_difference_def
      record_reconciliation_def statement_minor_def)

text \<open>A balance with separators of thousands is read up to the first of them.\<close>

lemma separator_cuts: "round_hundredths (parseFloat ''1,234.50'') = Fin 100"
proof -
  have n: "numeral_prefix ''1,234.50'' = ''1''" by code_simp
  have p: "parse_unsigned ''1'' = Some 1" by code_simp
  have r: "read_sign (trim_start ''1,234.50'') = (False, ''1,234.50'')" by code_simp
  have i: "\<not> starts_with ''1,234.50'' ''Infinity''" by code_simp
  have "fl64 (of_int 1) = of_int 1" "fl64 (of_int 100) = of_int 100" by (rule fl64_whole; simp)+
  moreover have "math_round 100 = 100" unfolding math_round_def by (rule floor_unique) simp_all
  ultimately show ?thesis by (simp add: parseFloat_def r i n p num_of_def round_hundredths_def toMinor_def)
qed

section \<open>A forecast that is asked for\<close>

definition planned_sound :: "jsnum \<Rightarrow> bool" where
  "planned_sound x = (\<not> js_less x (Fin 0) \<and> x \<noteq> NaN)"

definition scenario_sound :: "scenario \<Rightarrow> bool" where
  "scenario_sound s = (1 \<le> sn_days s \<and> sn_days s \<le> 365 \<and> list_all (\<lambda>x. planned_sound (oo_amountMinor x)) (sn_oneOffs s))"

lemma planned_minor_sound: "planned_sound (planned_minor v)"
  by (cases "parseFloat v") (auto simp: planned_sound_def planned_minor_def round_hundredths_def js_max_def)

lemma change_item_sound:
  assumes "scenario_sound s" "\<And>x. planned_sound (oo_amountMinor x) \<Longrightarrow> planned_sound (oo_amountMinor (f x))"
  shows "scenario_sound (change_item i f s)"
  using assms by (auto simp: scenario_sound_def change_item_def list_all_iff in_set_enumerate_eq)

lemma scenario_step_sound:
  assumes "scenario_sound s"
  shows "scenario_sound (scenario_step s e)"
proof (cases e)
  case (Item_amount i v)
  show ?thesis unfolding Item_amount scenario_step_def scenario_event.case
    by (rule change_item_sound [OF assms]) (simp add: planned_minor_sound)
next
  case (Item_date i v)
  show ?thesis unfolding Item_date scenario_step_def scenario_event.case by (rule change_item_sound [OF assms]) simp
next
  case (Item_income i b)
  show ?thesis unfolding Item_income scenario_step_def scenario_event.case by (rule change_item_sound [OF assms]) simp
next
  case (Item_label i v)
  show ?thesis unfolding Item_label scenario_step_def scenario_event.case by (rule change_item_sound [OF assms]) simp
qed (use assms in \<open>auto simp: scenario_step_def HORIZONS_def planned_item_def planned_sound_def list_all_iff in_set_enumerate_eq
    scenario_sound_def split: jsnum.splits\<close>)

text \<open>Whatever is typed, the scenario of a forecast covers 1 to 365 days, and the amounts of its planned items are numbers that
  are not negative.\<close>

theorem scenario_bounded: "scenario_sound (foldl scenario_step new_scenario es)"
proof -
  have "scenario_sound s \<Longrightarrow> scenario_sound (foldl scenario_step s es)" for s
    by (induction es arbitrary: s) (simp_all add: scenario_step_sound)
  then show ?thesis by (simp add: new_scenario_def scenario_sound_def)
qed

text \<open>A planned item is sent as soon as it is added, before it has an amount, and the API refuses the forecast for it, although the
  page knows that the item is not complete.\<close>

lemma unfinished_item_sent:
  fixes now :: int
  assumes "hasWorkspacePermission False permissions ''view_balances''"
  defines "s \<equiv> scenario_step new_scenario (Plan_item now)"
  shows "forecast_asked False permissions s = Some s" "items_warning s" "list_ex (\<lambda>x. server_refuses_amount (oo_amountMinor x)) (sn_oneOffs s)"
  using assms(1) by (simp_all add: s_def forecast_asked_def items_warning_def isValidOneOff_def scenario_step_def new_scenario_def
      planned_item_def server_refuses_amount_def js_trim_def trim_start_def trim_end_def)

text \<open>An amount is typed without its decimal point: the point is not shown again.\<close>

lemma planned_point_lost:
  assumes "0 < n" "int n \<le> 2 ^ 46"
  shows "shown_planned (planned_minor (nat_digits n @ ''.'')) = nat_digits n"
proof -
  have "int n \<le> 2 ^ 53" using assms(2) by simp
  note p = parseFloat_point [OF this]
  obtain m where m: "round_hundredths (Fin (of_nat n)) = Fin (of_int m)" "m = int n * 100"
  proof
    have "fl64 (of_int (int n * 100)) = of_int (int n * 100)" using fl64_whole [of "int n * 100"] assms(2) by simp
    then have "toMinor (of_nat n) = math_round (of_int (int n * 100))" by (simp add: toMinor_def)
    also have "\<dots> = int n * 100" unfolding math_round_def by (rule floor_unique) simp_all
    finally show "round_hundredths (Fin (of_nat n)) = Fin (of_int (int n * 100))" by (simp add: round_hundredths_def)
  qed simp
  then show ?thesis using point_lost [OF assms(2)] assms(1) by (simp add: shown_planned_def planned_minor_def p js_max_def)
qed

section \<open>The strip\<close>

lemma fl64_ratio:
  assumes "0 \<le> x" "x \<le> y" "0 < y"
  shows "0 \<le> fl64 (x / y)" "fl64 (x / y) \<le> 1"
proof -
  have "fl64 (of_int 0) \<le> fl64 (x / y)" "fl64 (x / y) \<le> fl64 (of_int 1)"
    using assms by (auto intro!: fl64_mono simp: divide_le_eq)
  then show "0 \<le> fl64 (x / y)" "fl64 (x / y) \<le> 1" using fl64_whole [of 0] fl64_whole [of 1] by simp_all
qed

lemma percent_mono: "x \<le> y \<Longrightarrow> to_percent x \<le> to_percent y"
  unfolding to_percent_def by (intro fl64_mono mult_right_mono) simp_all

lemma percent_within:
  assumes "0 \<le> x" "x \<le> 1"
  shows "0 \<le> to_percent x" "to_percent x \<le> 100"
  using percent_mono [OF assms(1)] percent_mono [OF assms(2)] fl64_whole [of 0] fl64_whole [of 100] by (simp_all add: to_percent_def)

text \<open>The bars are the values, at the balances, of a function that falls as the balance rises, and the zero line is its value at 0.\<close>

lemma strip_function:
  assumes "\<bar>starting\<bar> \<le> 2 ^ 52" "list_all (\<lambda>b. \<bar>b\<bar> \<le> 2 ^ 52) balances"
  obtains f where "st_bars (balance_strip starting balances) = map f balances" "st_zero (balance_strip starting balances) = f 0"
    "\<And>x y. x \<le> y \<Longrightarrow> x \<in> set (0 # starting # balances) \<Longrightarrow> y \<in> set (0 # starting # balances) \<Longrightarrow> f y \<le> f x"
    "\<And>x. x \<in> set (0 # starting # balances) \<Longrightarrow> 0 \<le> f x \<and> f x \<le> 100"
    "Min (set (0 # starting # balances)) < Max (set (0 # starting # balances)) \<Longrightarrow> f (Min (set (0 # starting # balances))) = 100"
proof -
  let ?S = "set (0 # starting # balances)"
  define top where "top = Max ?S"
  define low where "low = Min ?S"
  have b: "low \<le> x \<and> x \<le> top \<and> \<bar>x\<bar> \<le> 2 ^ 52" if "x \<in> ?S" for x
  proof -
    have "low \<le> x" "x \<le> top" unfolding low_def top_def by (rule Min_le Max_ge; use that in simp)+
    then show ?thesis using that assms by (auto simp: list_all_iff)
  qed
  have m: "top \<in> ?S" "low \<in> ?S" unfolding top_def low_def by (rule Max_in Min_in; simp)+
  then have t: "\<bar>top\<bar> \<le> 2 ^ 52" "\<bar>low\<bar> \<le> 2 ^ 52" using b by blast+
  have z: "low \<le> 0" "0 \<le> top" using b [of 0] by simp_all
  define span :: rat where "span = (if top = low then 1 else of_int (top - low))"
  have w: "fl64 (of_int (top - x)) = of_int (top - x)" if "x \<in> ?S" for x
    using b [OF that] t by (intro fl64_whole) (simp add: abs_le_iff)
  have ws: "fl64 (of_int (top - low)) = of_int (top - low)" using w [OF m(2)] .
  have sp: "balance_span starting balances = (top, span)"
    unfolding balance_span_def Let_def top_def [symmetric] low_def [symmetric] ws by (simp add: span_def)
  have pos: "0 < span" using z by (simp add: span_def)
  define f where "f = (\<lambda>x. to_percent (fl64 (fl64 (of_int (top - x)) / span)))"
  have f: "f x = to_percent (fl64 (of_int (top - x) / span))" if "x \<in> ?S" for x by (simp only: f_def w [OF that])
  show thesis
  proof
    show "st_bars (balance_strip starting balances) = map f balances" "st_zero (balance_strip starting balances) = f 0"
      by (simp_all add: balance_strip_def sp f_def)
    show "f y \<le> f x" if "x \<le> y" "x \<in> ?S" "y \<in> ?S" for x y
      unfolding f [OF that(2)] f [OF that(3)]
      by (intro percent_mono fl64_mono divide_right_mono) (use that(1) pos in simp_all)
    show "0 \<le> f x \<and> f x \<le> 100" if "x \<in> ?S" for x
    proof -
      have "(of_int (top - x) :: rat) \<le> span" using b [OF that] by (auto simp: span_def)
      moreover have "(0 :: rat) \<le> of_int (top - x)" using b [OF that] by simp
      ultimately show ?thesis using fl64_ratio [OF _ _ pos] percent_within unfolding f [OF that] by blast
    qed
    show "f (Min ?S) = 100" if "Min ?S < Max ?S"
    proof -
      have "span = of_int (top - low)" using that by (simp add: span_def top_def low_def)
      moreover have "fl64 (1 :: rat) = 1" "fl64 (100 :: rat) = 100" using fl64_whole [of 1] fl64_whole [of 100] by simp_all
      ultimately have "f low = 100" using f [OF m(2)] that pos by (simp add: to_percent_def)
      then show ?thesis by (simp add: low_def)
    qed
  qed
qed

text \<open>C40. The strip is in order, for balances of up to 2^52 hundredths either way: the upper edge of every bar and the zero line
  lie between the top and the bottom of the strip, a higher balance is never drawn lower, no bar of a balance that is not
  negative starts below the zero line, and none of a balance that is not positive above it. Only the upper edge is placed: the
  lower edge of a bar, 8 pixels further down, can be as much below the bottom of the strip.\<close>

theorem strip_within:
  assumes "\<bar>starting\<bar> \<le> 2 ^ 52" "list_all (\<lambda>b. \<bar>b\<bar> \<le> 2 ^ 52) balances" "s = balance_strip starting balances"
    and "i < length balances" "j < length balances"
  shows "length (st_bars s) = length balances \<and> 0 \<le> st_zero s \<and> st_zero s \<le> 100 \<and>
    0 \<le> fst (bar_edges (st_bars s ! i)) \<and> fst (bar_edges (st_bars s ! i)) \<le> strip_height \<and>
    snd (bar_edges (st_bars s ! i)) \<le> strip_height + 8 \<and>
    (balances ! i \<le> balances ! j \<longrightarrow> st_bars s ! j \<le> st_bars s ! i) \<and>
    (0 \<le> balances ! i \<longrightarrow> st_bars s ! i \<le> st_zero s) \<and> (balances ! i \<le> 0 \<longrightarrow> st_zero s \<le> st_bars s ! i)"
proof -
  from strip_function [OF assms(1,2)] obtain f where f: "st_bars s = map f balances" "st_zero s = f 0"
    "\<And>x y. x \<le> y \<Longrightarrow> x \<in> set (0 # starting # balances) \<Longrightarrow> y \<in> set (0 # starting # balances) \<Longrightarrow> f y \<le> f x"
    "\<And>x. x \<in> set (0 # starting # balances) \<Longrightarrow> 0 \<le> f x \<and> f x \<le> 100" unfolding assms(3) by metis
  have m: "0 \<in> set (0 # starting # balances)" "balances ! i \<in> set (0 # starting # balances)"
    "balances ! j \<in> set (0 # starting # balances)" using assms(4,5) by simp_all
  have "0 \<le> f 0 \<and> f 0 \<le> 100" "0 \<le> f (balances ! i) \<and> f (balances ! i) \<le> 100" using f(4) m by blast+
  moreover have "balances ! i \<le> balances ! j \<longrightarrow> f (balances ! j) \<le> f (balances ! i)" "0 \<le> balances ! i \<longrightarrow> f (balances ! i) \<le> f 0"
    "balances ! i \<le> 0 \<longrightarrow> f 0 \<le> f (balances ! i)" using f(3) m by blast+
  ultimately show ?thesis using assms(4,5) f(1,2) by (simp add: bar_edges_def strip_height_def bar_height_def)
qed

theorem strip_within_witness:
  "st_bars (balance_strip 500 [400, - 200]) ! 0 \<le> st_zero (balance_strip 500 [400, - 200]) \<and>
   st_zero (balance_strip 500 [400, - 200]) \<le> st_bars (balance_strip 500 [400, - 200]) ! 1 \<and>
   fst (bar_edges (st_bars (balance_strip 500 [400, - 200]) ! 1)) \<le> 148"
  using strip_within [of 500 "[400, - 200]" _ 0 1, OF _ _ refl] strip_within [of 500 "[400, - 200]" _ 1 0, OF _ _ refl]
  by (simp add: strip_height_def)

text \<open>The bar of the lowest balance hangs below the strip with all of its height, when that balance is negative or no day and no
  start is lower than it (and not all are equal): its upper edge is the lower edge of the strip.\<close>

lemma lowest_bar_hangs:
  fixes starting :: int
  assumes "\<bar>starting\<bar> \<le> 2 ^ 52" "list_all (\<lambda>b. \<bar>b\<bar> \<le> 2 ^ 52) balances"
    and "i < length balances" "balances ! i = Min (set (0 # starting # balances))" "balances ! i < Max (set (0 # starting # balances))"
  shows "bar_edges (st_bars (balance_strip starting balances) ! i) = (strip_height, strip_height + bar_height)"
proof -
  from strip_function [OF assms(1,2)] obtain f where f: "st_bars (balance_strip starting balances) = map f balances"
    "Min (set (0 # starting # balances)) < Max (set (0 # starting # balances)) \<Longrightarrow> f (Min (set (0 # starting # balances))) = 100" by metis
  then have "f (balances ! i) = 100" using assms(4,5) by metis
  then show ?thesis using f(1) assms(3) by (simp add: bar_edges_def)
qed

end
