(* ===== verification/Spec2Isabelle.thy ===== *)
theory Spec2Isabelle
  imports FinanceData DateOnly AppContext ApiClient SharePayloads Splits DemoSession WriteFlow Overlays TransactionFilters TransactionDialog NativeBridge Imports PlanningForms WorkspaceSearch RecordDialogs Automation BalancePages
begin

text \<open>
  Ledgerly: the client of a shared ledger, web/src, written in TypeScript with React and packed for
  Android with Capacitor. This library models its logic, definition by definition, and proves what makes
  it correct. This theory imports all others; paths are relative to src/web/src unless they begin with
  src/.

  \<^bold>\<open>The program.\<close> The bootstrap (main.tsx) fills the local store from the native one, on Android, and
  renders the application state (app/app-context.tsx), which restores the session and the workspace, holds
  the device lock and gives the API client its token. Pages ask the API through the client
  (lib/api-client.ts), normalize the answers (pages/finance/data.ts) and show them. A form checks its fields,
  builds a request and hands it to the write flow (pages/finance-writes/shared.ts), which sends it with an
  idempotency key, or, in the demonstration, adds a record to the session's. Dialogs and menus
  lie on a stack that the back button of the device unwinds (platform). Sharing turns records into plain
  text (lib/share) that conceals what the reader may not see.

  \<^bold>\<open>The language.\<close> Everything rests on these theories.

  \<^item> LedgerPrelude: the stable sort, the ordered map, and the interfaces \<open>comparator\<close> (a comparison and what
    sorting by it gives), \<open>keyed_store\<close> (reading after writing and deleting), \<open>machine\<close> (a step function
    with an invariant; its lemma carries the invariant over every run), \<open>simulation\<close> (two step
    functions and an abstraction).
  \<^item> JsStrings, Utf16: strings. A string is a list of the code units 0 to 255, on which trimming, splitting and
    lower case are exact; where the code cuts or counts code units, in sharing and in the fuzzy search, a
    string is a list of UTF-16 elements with surrogates.
  \<^item> JsValues, JsonText: numbers (NaN, infinities, rationals), values of unknown type with their coercions,
    \<open>JSON.stringify\<close> and \<open>JSON.parse\<close> with their round trip. Numbers print without exponents, with
    at most 20 places (\<open>dec_places 20\<close>: hundredths need two). \<open>parse\<close> has one more fuel than the text has characters,
    and every call consumes one.
  \<^item> Binary64: rounding to 53 bits, the interface \<open>rounding\<close> that the money conversions use, and its
    interpretation. Amounts are exact up to 2^50 hundredths; beyond it the code can be a
    hundredth off, which a finding records.
  \<^item> CivilDate, DateOnly (lib/date-only.ts): days and months as the language's \<open>Date\<close> computes them; day numbers and civil
    dates are inverse. Texts of days have four-digit years, 1000 to 9999 in the theorems.
  \<^item> QueryParams: the query of an address as a \<open>keyed_store\<close>.

  \<^bold>\<open>Application and device.\<close>

  \<^item> Preferences (platform/preferences.ts), Startup (platform/startup.ts, main.tsx): the local store, the queue of writes to the
    native one with replies and rejections, hydration and its deadline, the splash screen. What settles in
    the native store is the last local write, hydration never overwrites a newer local write, and
    \<open>page_loaded\<close> is the relation of a device before and after a new page load.
  \<^item> DevicePin (platform/device-pin.ts, components/device-access-gate.tsx): checking and comparing PINs, the form of the lock.
  \<^item> AppContext (app/app-context.tsx, app/app-state.ts, platform/auth-session.ts, domain/demo-data.ts): the provider as one record, every
    handler as a step, a handler with an await split in two, page loads and native writes as moves. The
    lock opens only to its PIN and survives a page load; a login is restored when it was to be remembered and
    its native writes have settled; the current workspace is an available one.
  \<^item> Overlays (platform/back-layer-stack.ts, back-navigation.ts, body-scroll-lock.ts, lib/modal-isolation.ts): presses of the back button
    end in the application's exit (the fuel is \<open>press_measure\<close>, which every press that navigates makes smaller), locks of
    the scroll position are balanced and keep the position before the first.
  \<^item> NativeBridge (platform/native-app-bridge.tsx, native-app-state.ts, network.ts, keyboard.ts): mounting, plugin events, resumes, unmounting.

  \<^bold>\<open>The API and its data.\<close>

  \<^item> ApiClient (lib/api-client.ts): requests, envelopes, errors, the recovery of a vault identifier, downloads. A request is
    sent at most twice, and an error says where it came from.
  \<^item> DomainTypes (domain/types.ts), FinanceData (pages/finance/data.ts): records, normalization, permissions, with the interface
    \<open>ownership_guard\<close> of the two guards of a transaction.
  \<^item> Categories (domain/currencies.ts, transaction-categories.ts), Dashboard (pages/finance/dashboard-model.ts), Periods and
    TransactionFilters (pages/finance/home-transactions.tsx, period-selector.tsx, lib/search.ts): categories in order, the
    figures of the home page with conserved sums, the period and the filters that the query keeps.
  \<^item> PublicHosts (platform/external-links.ts, lib/share/safe-public-url.ts): which links are opened. No address of the special
    ranges is, dotted, or as any of the IPv6 texts with their embedded IPv4 addresses.

  \<^bold>\<open>Writing.\<close>

  \<^item> MoneyInput, DemoSession, WriteFlow (pages/finance-writes/shared.ts): schemas of amounts and days, the demonstration as a refinement
    of a map, and the write flow: one write at a time, and a form that unlocks after its answer.
  \<^item> FormDialogs, AccountForms, PlanningForms (pages/finance-writes, pages/finance/record-edit-dialogs.tsx): the dialogs of accounts, claims, budgets and
    goals. \<open>form_contract\<close> says that a form posts only requests that its check made; it is interpreted on the
    six checks, and \<open>form_flow\<close> runs any of them over the write flow. Of the Go server, PlanningForms has
    CreateBudget with its helpers (src/api/internal/service) and the time texts of its answers.
  \<^item> TransactionDialog (pages/finance/home-transactions.tsx), TransactionMemory (lib/transaction-memory.ts), Splits (lib/transaction-splits.ts): adding a
    transaction, what is remembered of the last one, the shares of its members.
  \<^item> RecordDialogs (pages/finance/record-action-drawer.tsx, record-edit-dialogs.tsx, lib/clipboard.ts): the drawer of a record, whose deletion needs
    a confirmation since it was opened, and the dialog that edits a transaction.
  \<^item> Imports (pages/finance/imports.tsx): the hint of the columns, the mapping, the decisions on the rows, the commit.

  \<^bold>\<open>Pages and their parts.\<close>

  \<^item> Goals (pages/finance/budgets-goals.tsx): totals, labels, the dialog of a goal's actions. A run counts what its preparing
    effect may do: it runs at an opening and when the first account changes.
  \<^item> Calendar (components/date-picker.tsx): the grid, the keys, opening and closing.
  \<^item> WorkspaceSearch (components/workspace-search.tsx, contact-name-picker.tsx): the fuzzy match, the options with
    their count, the choice of a contact's name with the states of its queries.
  \<^item> NumberInput, Automation (pages/finance/rules.tsx), BalancePages (pages/finance/reconciliation.tsx, forecast.tsx): the editor of rules, the
    reconciliation whose record follows the last comparison and its acknowledgement, the strip of the forecast.
  \<^item> ShareText, SharePayloads, ShareDelivery (lib/share), Downloads (lib/download.ts): labels repaired and cleaned by the
    patterns of the code; payloads in which concealed amounts do not occur; the longest text that fits a
    link; a table and a calendar event that the readers of their formats read back.
    The matcher of expressions has as fuel the length of the text, since every repetition consumes.

  \<^bold>\<open>How the theories are built.\<close> A theory has the definitions in the order of the code, then lemmas for its operations
  and its invariant, then its properties, each after a text with its number, with a witness where it
  has hypotheses. Stateful parts are records with one function per handler; their runs are lists of
  events, so that any order of clicks, renders and replies is a run, and the invariant comes from the
  interpretation of \<open>machine\<close> in the same theory. Errors are sums. An await splits its handler. A handler
  that reads a value of the last render reads a field that says so.

  \<^bold>\<open>Parameters.\<close> What is not code of the repository is an argument: the network and the plugins (events and
  answers), \<open>new URL\<close>, SHA-256, \<open>Intl\<close> and \<open>localeCompare\<close>, Unicode normalization and case
  tables, \<open>decodeURIComponent\<close>, \<open>new Date(text)\<close> for texts other than the API's, random identifiers, how an
  impossible day rolls over (\<open>roll\<close>), and what a schema reports besides its first failures (\<open>extra\<close>).

  \<^bold>\<open>Not modelled.\<close> Markup, routes, sounds, gestures and the vendored motion components; the query cache of the
  library; the dialogs of workspaces and invitations, sign-in and onboarding, the pages of bills, insights,
  collaboration, contacts, activity, period review and settings, which are forms and lists over what is
  modelled; the Go server but for what the client relies on, in the dialogs, the import, the rules and the
  forecast; the generated Android project. The address of a member, a key of field errors, is never \<open>__proto__\<close>.
\<close>

end
